(* ===== verification/Prelude.thy ===== *)
theory Prelude
  imports Main "HOL-Library.Sublist" "HOL-Library.Char_ord" "HOL-Library.List_Lexorder"
begin

text \<open>
  Shared vocabulary of the development.

  \<^item> Fallible code returns a value of the sum type \<open>('e, 'a) res\<close>: \<open>Inl\<close> carries what the
    Python raises, \<open>Inr\<close> the value it returns.
  \<^item> A \<^verbatim>\<open>for\<close> loop whose body may raise is \<open>rfold\<close>; the lemmas on it carry every loop proof
    of the components.
  \<^item> Instants are microseconds since the epoch in UTC (\<^verbatim>\<open>datetime\<close> has microsecond resolution),
    durations are microseconds.
  \<^item> Dictionaries whose insertion order is observable are association lists without duplicate
    keys (\<open>adict\<close>), the others are maps.
\<close>

named_theorems catalog_defs "finite tables of the source, unfolded when a closed term is evaluated"
named_theorems policy_simps "branch lemmas of the policy functions"

section \<open>Results and loops that may raise\<close>

type_synonym ('e, 'a) res = "'e + 'a"

definition rbind :: "('e, 'a) res \<Rightarrow> ('a \<Rightarrow> ('e, 'b) res) \<Rightarrow> ('e, 'b) res" where
  "rbind r f = (case r of Inl e \<Rightarrow> Inl e | Inr x \<Rightarrow> f x)"

lemma rbind_simps [simp]:
  "rbind (Inl e) f = Inl e"
  "rbind (Inr x) f = f x"
  by (simp_all add: rbind_def)

lemma rbind_eq_Inr: "rbind r f = Inr y \<longleftrightarrow> (\<exists>x. r = Inr x \<and> f x = Inr y)"
  by (cases r) simp_all

lemma rbind_eq_Inl: "rbind r f = Inl e \<longleftrightarrow> r = Inl e \<or> (\<exists>x. r = Inr x \<and> f x = Inl e)"
  by (cases r) simp_all

definition is_ok :: "('e, 'a) res \<Rightarrow> bool" where
  "is_ok r = (case r of Inl _ \<Rightarrow> False | Inr _ \<Rightarrow> True)"

lemma is_ok_simps [simp]: "is_ok (Inr x)" "\<not> is_ok (Inl e)"
  by (simp_all add: is_ok_def)

lemma is_ok_iff: "is_ok r \<longleftrightarrow> (\<exists>x. r = Inr x)"
  by (cases r) simp_all

fun rfold :: "('s \<Rightarrow> 'a \<Rightarrow> ('e, 's) res) \<Rightarrow> 's \<Rightarrow> 'a list \<Rightarrow> ('e, 's) res" where
  "rfold f s [] = Inr s"
| "rfold f s (x # xs) = (case f s x of Inl e \<Rightarrow> Inl e | Inr s' \<Rightarrow> rfold f s' xs)"

lemma rfold_append:
  "rfold f s (xs @ ys) = (case rfold f s xs of Inl e \<Rightarrow> Inl e | Inr s' \<Rightarrow> rfold f s' ys)"
  by (induction xs arbitrary: s) (auto split: sum.splits)

lemma rfold_invariant:
  assumes "rfold f s xs = Inr t" and "P s"
    and "\<And>s x s'. x \<in> set xs \<Longrightarrow> P s \<Longrightarrow> f s x = Inr s' \<Longrightarrow> P s'"
  shows "P t"
  using assms
proof (induction xs arbitrary: s)
  case Nil
  then show ?case by simp
next
  case (Cons x xs)
  then obtain s' where "f s x = Inr s'" and "rfold f s' xs = Inr t"
    by (auto split: sum.splits)
  then show ?case using Cons.prems Cons.IH [of s'] by (meson list.set_intros)
qed

text \<open>Every element contributes a fact to the final state, and later steps keep it.\<close>

lemma rfold_each:
  assumes "rfold f s xs = Inr t" and "x \<in> set xs"
    and "\<And>s s'. f s x = Inr s' \<Longrightarrow> Q s'"
    and "\<And>y s s'. y \<in> set xs \<Longrightarrow> Q s \<Longrightarrow> f s y = Inr s' \<Longrightarrow> Q s'"
  shows "Q t"
proof -
  from assms(2) obtain ys zs where xs: "xs = ys @ x # zs" by (meson split_list)
  with assms(1) obtain s1 s2 where "f s1 x = Inr s2" and tail: "rfold f s2 zs = Inr t"
    by (auto simp: rfold_append split: sum.splits)
  then have "Q s2" using assms(3) by blast
  with tail show ?thesis
    by (rule rfold_invariant [where P = Q]) (auto intro: assms(4) simp: xs)
qed

lemma rfold_total:
  assumes "\<And>s x. x \<in> set xs \<Longrightarrow> \<exists>s'. f s x = Inr s'"
  shows "\<exists>t. rfold f s xs = Inr t"
  using assms
proof (induction xs arbitrary: s)
  case Nil
  then show ?case by simp
next
  case (Cons x xs)
  then obtain s' where "f s x = Inr s'" by (meson list.set_intros(1))
  moreover obtain t where "rfold f s' xs = Inr t" using Cons by (meson list.set_intros(2))
  ultimately show ?case by simp
qed

text \<open>A comprehension whose element expression may raise.\<close>

fun rmap :: "('a \<Rightarrow> ('e, 'b) res) \<Rightarrow> 'a list \<Rightarrow> ('e, 'b list) res" where
  "rmap f [] = Inr []"
| "rmap f (x # xs) = (case f x of Inl e \<Rightarrow> Inl e | Inr y \<Rightarrow>
     (case rmap f xs of Inl e \<Rightarrow> Inl e | Inr ys \<Rightarrow> Inr (y # ys)))"

lemma rmap_Inr_iff: "rmap f xs = Inr ys \<longleftrightarrow> list_all2 (\<lambda>x y. f x = Inr y) xs ys"
proof (induction xs arbitrary: ys)
  case Nil
  then show ?case by auto
next
  case (Cons x xs)
  show ?case by (cases ys; cases "f x"; cases "rmap f xs") (auto simp: Cons [symmetric])
qed

lemma rmap_each: "rmap f xs = Inr ys \<Longrightarrow> x \<in> set xs \<Longrightarrow> \<exists>y\<in>set ys. f x = Inr y"
  by (induction xs arbitrary: ys) (auto split: sum.splits)

lemma rmap_source: "rmap f xs = Inr ys \<Longrightarrow> y \<in> set ys \<Longrightarrow> \<exists>x\<in>set xs. f x = Inr y"
  by (induction xs arbitrary: ys) (auto split: sum.splits)

lemma rmap_total: "(\<And>x. x \<in> set xs \<Longrightarrow> f x = Inr (g x)) \<Longrightarrow> rmap f xs = Inr (map g xs)"
  by (induction xs) auto

section \<open>Dictionaries with insertion order\<close>

type_synonym ('k, 'v) adict = "('k \<times> 'v) list"

text \<open>\<^verbatim>\<open>d[k] = v\<close>: an existing key keeps its position, a new one goes to the end.\<close>

fun aput :: "'k \<Rightarrow> 'v \<Rightarrow> ('k, 'v) adict \<Rightarrow> ('k, 'v) adict" where
  "aput k v [] = [(k, v)]"
| "aput k v ((k', v') # d) = (if k' = k then (k, v) # d else (k', v') # aput k v d)"

definition adel :: "'k \<Rightarrow> ('k, 'v) adict \<Rightarrow> ('k, 'v) adict" where
  "adel k d = filter (\<lambda>e. fst e \<noteq> k) d"

definition has_key :: "'k \<Rightarrow> ('k, 'v) adict \<Rightarrow> bool" where
  "has_key k d = list_ex (\<lambda>e. fst e = k) d"

lemma has_key_iff: "has_key k d \<longleftrightarrow> k \<in> fst ` set d"
  by (auto simp: has_key_def list_ex_iff)

lemma map_of_aput [simp]: "map_of (aput k v d) = (map_of d)(k \<mapsto> v)"
  by (induction d) auto

lemma map_of_adel [simp]: "map_of (adel k d) = (map_of d)(k := None)"
  by (induction d) (auto simp: adel_def)

lemma keys_aput: "fst ` set (aput k v d) = insert k (fst ` set d)"
  by (induction k v d rule: aput.induct) (simp_all add: insert_commute)

lemma distinct_aput: "distinct (map fst d) \<Longrightarrow> distinct (map fst (aput k v d))"
  by (induction d) (auto simp: keys_aput image_iff)

lemma length_aput_le: "length (aput k v d) \<le> Suc (length d)"
  by (induction d) auto

section \<open>Sorted sets of strings, minimum by key\<close>

definition sorted_set :: "'a::linorder list \<Rightarrow> 'a list" where
  "sorted_set xs = sort (remdups xs)"

lemma sorted_set_simps [simp]:
  "set (sorted_set xs) = set xs"
  "sorted (sorted_set xs)"
  "distinct (sorted_set xs)"
  by (simp_all add: sorted_set_def)

text \<open>\<^verbatim>\<open>min(xs, key=k)\<close> returns the first element with the least key.\<close>

fun min_by :: "('a \<Rightarrow> 'k::linorder) \<Rightarrow> 'a \<Rightarrow> 'a list \<Rightarrow> 'a" where
  "min_by k b [] = b"
| "min_by k b (x # xs) = min_by k (if k x < k b then x else b) xs"

lemma min_by_in: "min_by k b xs \<in> insert b (set xs)"
proof (induction xs arbitrary: b)
  case Nil
  then show ?case by simp
next
  case (Cons x xs)
  show ?case using Cons [of "if k x < k b then x else b"] by auto
qed

lemma min_by_le: "k (min_by k b xs) \<le> k b \<and> (\<forall>x\<in>set xs. k (min_by k b xs) \<le> k x)"
proof (induction xs arbitrary: b)
  case Nil
  then show ?case by simp
next
  case (Cons x xs)
  show ?case
    using Cons [of "if k x < k b then x else b"] by (auto split: if_splits)
qed

section \<open>List facts used by several components\<close>

lemma filter_ex_iff: "filter P xs \<noteq> [] \<longleftrightarrow> (\<exists>x\<in>set xs. P x)"
  by (induction xs) auto

lemma find_Some_split:
  "List.find P xs = Some x \<Longrightarrow> \<exists>ys zs. xs = ys @ x # zs \<and> P x \<and> (\<forall>y\<in>set ys. \<not> P y)"
proof (induction xs)
  case Nil
  then show ?case by simp
next
  case (Cons a xs)
  show ?case
  proof (cases "P a")
    case True
    with Cons.prems show ?thesis by (intro exI [of _ "[]"] exI [of _ xs]) simp
  next
    case False
    with Cons obtain ys zs where "xs = ys @ x # zs" "P x" "\<forall>y\<in>set ys. \<not> P y" by auto
    with False show ?thesis by (intro exI [of _ "a # ys"] exI [of _ zs]) simp
  qed
qed

lemma sum_list_nonneg_int: "(\<And>x. x \<in> set xs \<Longrightarrow> 0 \<le> f x) \<Longrightarrow> 0 \<le> sum_list (map f xs)" for f :: "'a \<Rightarrow> int"
  by (induction xs) auto

lemma sum_list_filter_le:
  fixes f :: "'a \<Rightarrow> int"
  assumes "\<And>x. x \<in> set xs \<Longrightarrow> 0 \<le> f x"
  shows "sum_list (map f (filter P xs)) \<le> sum_list (map f xs)"
  using assms by (induction xs) (auto simp: add_increasing)

section \<open>Time\<close>

type_synonym instant = int
type_synonym duration = int

definition seconds :: "int \<Rightarrow> duration" where "seconds n = n * 1000000"
definition minutes :: "int \<Rightarrow> duration" where "minutes n = n * 60000000"
definition hours :: "int \<Rightarrow> duration" where "hours n = n * 3600000000"
definition days :: "int \<Rightarrow> duration" where "days n = n * 86400000000"

lemmas time_defs = seconds_def minutes_def hours_def days_def

end
