(* ===== verification/Transitions.thy ===== *)
theory Transitions
  imports Prelude
begin

text \<open>
  The contract shared by the status machines of leads, payments and opportunities: a table of
  permitted moves and a guarded step that either returns its target or raises. Clients drive a
  machine with a sequence of requested targets and treat a refusal as a no-op (the webhook
  handler of payments does exactly that), so the lemmas speak about such runs.
\<close>

locale transition_machine =
  fixes allowed :: "'s \<Rightarrow> 's list"
    and step :: "'s \<Rightarrow> 's \<Rightarrow> ('e, 's) res"
  assumes step_target: "step s t = Inr u \<Longrightarrow> u = t"
    and step_allowed: "step s t = Inr u \<Longrightarrow> s \<noteq> t \<Longrightarrow> t \<in> set (allowed s)"
    and step_same: "step s s = Inr s"
begin

definition move :: "'s \<Rightarrow> 's \<Rightarrow> 's" where
  "move s t = (case step s t of Inl _ \<Rightarrow> s | Inr u \<Rightarrow> u)"

definition run :: "'s \<Rightarrow> 's list \<Rightarrow> 's" where
  "run s ts = foldl move s ts"

definition closed :: "('s \<Rightarrow> bool) \<Rightarrow> bool" where
  "closed P = (\<forall>s t. P s \<longrightarrow> t \<in> set (allowed s) \<longrightarrow> P t)"

lemma move_cases: "move s t = s \<or> move s t = t \<and> t \<in> set (allowed s)"
  by (cases "step s t"; cases "s = t") (auto simp: move_def dest: step_target step_allowed)

lemma move_idem: "move (move s t) t = move s t"
  by (cases "step s t") (auto simp: move_def step_same dest: step_target)

lemma closed_move: "closed P \<Longrightarrow> P s \<Longrightarrow> P (move s t)"
  using move_cases [of s t] by (auto simp: closed_def)

lemma closed_run: "closed P \<Longrightarrow> P s \<Longrightarrow> P (run s ts)"
  by (induction ts arbitrary: s) (auto simp: run_def closed_move)

lemma terminal_run: "allowed s = [] \<Longrightarrow> run s ts = s"
  using closed_run [of "\<lambda>x. x = s" s ts] by (auto simp: closed_def)

lemma run_reachable: "(s, run s ts) \<in> {(x, y). y \<in> set (allowed x)}\<^sup>*"
proof (induction ts arbitrary: s)
  case Nil
  then show ?case by (simp add: run_def)
next
  case (Cons t ts)
  have "(s, move s t) \<in> {(x, y). y \<in> set (allowed x)}\<^sup>*"
    using move_cases [of s t] by auto
  with Cons [of "move s t"] show ?case by (auto simp: run_def)
qed

lemma run_redelivery: "run s (ts @ [t, t]) = run s (ts @ [t])"
  by (simp add: run_def move_idem)

end

end
