(* ===== verification/Py_Str.thy ===== *)
theory Py_Str
  imports Prelude
begin

text \<open>
  The part of Python's \<^verbatim>\<open>str\<close> that the modelled code uses. A \<^verbatim>\<open>str\<close> is a \<open>string\<close> whose
  characters are code points 0 to 255 (Latin-1); on that range every function below computes
  what CPython computes, including the non-ASCII white space, digits and letters.
\<close>

section \<open>Character classes\<close>

definition code :: "char \<Rightarrow> nat" where
  "code c = of_char c"

lemma code_lt [simp]: "code c < 256"
  unfolding code_def by (metis mod_less_divisor of_char_mod_256 zero_less_numeral)

lemma char_of_code [simp]: "char_of (code c) = c"
  by (simp add: code_def)

lemma code_char_of [simp]: "n < 256 \<Longrightarrow> code (char_of n) = n"
  by (simp add: code_def)

text \<open>\<^verbatim>\<open>str.isspace\<close>, also the class \<^verbatim>\<open>\s\<close> of \<^verbatim>\<open>re\<close>.\<close>

definition is_space :: "char \<Rightarrow> bool" where
  "is_space c = (let n = code c in 9 \<le> n \<and> n \<le> 13 \<or> 28 \<le> n \<and> n \<le> 32 \<or> n = 133 \<or> n = 160)"

text \<open>The ASCII digits: \<^verbatim>\<open>[0-9]\<close>, and \<^verbatim>\<open>\d\<close> on this range.\<close>

definition is_dec :: "char \<Rightarrow> bool" where
  "is_dec c = (let n = code c in 48 \<le> n \<and> n \<le> 57)"

text \<open>\<^verbatim>\<open>str.isdigit\<close> also accepts the superscripts two, three and one.\<close>

definition is_digit :: "char \<Rightarrow> bool" where
  "is_digit c = (is_dec c \<or> code c \<in> {178, 179, 185})"

definition py_isdigit :: "string \<Rightarrow> bool" where
  "py_isdigit s = (s \<noteq> [] \<and> list_all is_digit s)"

definition is_az :: "char \<Rightarrow> bool" where
  "is_az c = (let n = code c in 97 \<le> n \<and> n \<le> 122)"

definition is_AZ :: "char \<Rightarrow> bool" where
  "is_AZ c = (let n = code c in 65 \<le> n \<and> n \<le> 90)"

text \<open>The class \<^verbatim>\<open>\w\<close> of \<^verbatim>\<open>re\<close>.\<close>

definition is_word :: "char \<Rightarrow> bool" where
  "is_word c = (is_az c \<or> is_AZ c \<or> is_dec c \<or> code c = 95
     \<or> code c \<in> {170, 178, 179, 181, 185, 186, 188, 189, 190}
     \<or> 192 \<le> code c \<and> code c \<noteq> 215 \<and> code c \<noteq> 247)"

section \<open>Case\<close>

definition lower_char :: "char \<Rightarrow> char" where
  "lower_char c = (let n = code c in
     if 65 \<le> n \<and> n \<le> 90 \<or> 192 \<le> n \<and> n \<le> 222 \<and> n \<noteq> 215 then char_of (n + 32) else c)"

definition py_lower :: "string \<Rightarrow> string" where
  "py_lower s = map lower_char s"

lemma code_lower_char:
  "code (lower_char c) = (let n = code c in
     if 65 \<le> n \<and> n \<le> 90 \<or> 192 \<le> n \<and> n \<le> 222 \<and> n \<noteq> 215 then n + 32 else n)"
  by (auto simp: lower_char_def Let_def)

lemma lower_char_idem [simp]: "lower_char (lower_char c) = lower_char c"
  by (auto simp: lower_char_def Let_def)

lemma lower_char_not_AZ: "\<not> is_AZ (lower_char c)"
  by (auto simp: is_AZ_def code_lower_char Let_def)

lemma py_lower_idem [simp]: "py_lower (py_lower s) = py_lower s"
  by (simp add: py_lower_def)

lemma py_lower_simps [simp]:
  "py_lower [] = []"
  "py_lower (c # s) = lower_char c # py_lower s"
  "py_lower (s @ t) = py_lower s @ py_lower t"
  "length (py_lower s) = length s"
  "py_lower s = [] \<longleftrightarrow> s = []"
  by (simp_all add: py_lower_def)

lemma is_space_lower_char [simp]: "is_space (lower_char c) = is_space c"
  by (auto simp: is_space_def code_lower_char Let_def)

section \<open>Stripping\<close>

definition lstrip_by :: "(char \<Rightarrow> bool) \<Rightarrow> string \<Rightarrow> string" where
  "lstrip_by p s = dropWhile p s"

definition rstrip_by :: "(char \<Rightarrow> bool) \<Rightarrow> string \<Rightarrow> string" where
  "rstrip_by p s = rev (dropWhile p (rev s))"

definition strip_by :: "(char \<Rightarrow> bool) \<Rightarrow> string \<Rightarrow> string" where
  "strip_by p s = rstrip_by p (lstrip_by p s)"

definition py_strip :: "string \<Rightarrow> string" where
  "py_strip s = strip_by is_space s"

lemma rstrip_by_snoc [simp]:
  "rstrip_by p [] = []"
  "rstrip_by p (s @ [c]) = (if p c then rstrip_by p s else s @ [c])"
  by (simp_all add: rstrip_by_def)

lemma rstrip_by_idem [simp]: "rstrip_by p (rstrip_by p s) = rstrip_by p s"
  by (simp add: rstrip_by_def dropWhile_idem)

lemma prefix_rstrip_by: "prefix (rstrip_by p s) s"
  by (metis rstrip_by_def rev_rev_ident suffix_dropWhile suffix_to_prefix)

lemma hd_strip_by: "strip_by p s \<noteq> [] \<Longrightarrow> \<not> p (hd (strip_by p s))"
proof -
  assume ne: "strip_by p s \<noteq> []"
  let ?t = "dropWhile p s"
  have pre: "prefix (strip_by p s) ?t"
    by (simp add: strip_by_def lstrip_by_def prefix_rstrip_by)
  with ne have "?t \<noteq> []" by fastforce
  moreover have "hd (strip_by p s) = hd ?t"
    using pre ne by (auto simp: prefix_def)
  ultimately show ?thesis by (simp add: hd_dropWhile)
qed

lemma last_strip_by: "strip_by p s \<noteq> [] \<Longrightarrow> \<not> p (last (strip_by p s))"
  by (metis (no_types) hd_dropWhile hd_rev rev_is_Nil_conv rstrip_by_def strip_by_def rev_rev_ident)

lemma strip_by_fixed:
  "s = [] \<or> \<not> p (hd s) \<and> \<not> p (last s) \<Longrightarrow> strip_by p s = s"
  unfolding strip_by_def lstrip_by_def rstrip_by_def
  by (metis dropWhile_eq_self_iff hd_rev rev_is_Nil_conv rev_rev_ident)

lemma strip_by_idem [simp]: "strip_by p (strip_by p s) = strip_by p s"
  by (rule strip_by_fixed) (metis hd_strip_by last_strip_by)

lemma py_strip_idem [simp]: "py_strip (py_strip s) = py_strip s"
  by (simp add: py_strip_def)

lemma set_strip_by: "set (strip_by p s) \<subseteq> set s"
  unfolding strip_by_def lstrip_by_def rstrip_by_def
  by (metis dual_order.trans set_dropWhileD set_rev subsetI)

lemma dropWhile_py_lower: "dropWhile is_space (py_lower s) = py_lower (dropWhile is_space s)"
  by (induction s) auto

lemma rev_py_lower: "rev (py_lower s) = py_lower (rev s)"
  by (simp add: py_lower_def rev_map)

lemma py_strip_lower: "py_strip (py_lower s) = py_lower (py_strip s)"
  by (simp add: py_strip_def strip_by_def lstrip_by_def rstrip_by_def dropWhile_py_lower rev_py_lower)

section \<open>Searching, replacing, splitting\<close>

definition py_startswith :: "string \<Rightarrow> string \<Rightarrow> bool" where
  "py_startswith s p = prefix p s"

definition py_endswith :: "string \<Rightarrow> string \<Rightarrow> bool" where
  "py_endswith s p = suffix p s"

text \<open>\<^verbatim>\<open>needle in haystack\<close>.\<close>

fun py_contains :: "string \<Rightarrow> string \<Rightarrow> bool" where
  "py_contains p [] = (p = [])"
| "py_contains p (c # s) = (prefix p (c # s) \<or> py_contains p s)"

lemma py_contains_iff: "py_contains p s \<longleftrightarrow> sublist p s"
  by (induction s) (auto simp: sublist_Cons_right)

definition py_count :: "char \<Rightarrow> string \<Rightarrow> nat" where
  "py_count c s = count_list s c"

text \<open>
  \<^verbatim>\<open>s.replace(old, new)\<close> and \<^verbatim>\<open>s.split(sep)\<close> for a non-empty \<open>old\<close> and \<open>sep\<close>, the only ones the
  code uses: leftmost, non-overlapping occurrences.
\<close>

function py_replace :: "string \<Rightarrow> string \<Rightarrow> string \<Rightarrow> string" where
  "py_replace old new [] = []"
| "py_replace old new (c # s) =
     (if old \<noteq> [] \<and> prefix old (c # s)
      then new @ py_replace old new (drop (length old - 1) s)
      else c # py_replace old new s)"
  by pat_completeness auto
termination
  by (relation "measure (\<lambda>(old, new, s). length s)") auto

function py_split :: "string \<Rightarrow> string \<Rightarrow> string list" where
  "py_split sep [] = [[]]"
| "py_split sep (c # s) =
     (if sep \<noteq> [] \<and> prefix sep (c # s)
      then [] # py_split sep (drop (length sep - 1) s)
      else (case py_split sep s of [] \<Rightarrow> [[c]] | w # ws \<Rightarrow> (c # w) # ws))"
  by pat_completeness auto
termination
  by (relation "measure (\<lambda>(sep, s). length s)") auto

lemma py_split_not_Nil [simp]: "py_split sep s \<noteq> []"
  by (induction sep s rule: py_split.induct) (auto split: list.splits)

text \<open>\<^verbatim>\<open>s.split(sep)[0]\<close>, which is \<^verbatim>\<open>s.partition(sep)[0]\<close> for one-character separators.\<close>

definition before :: "char \<Rightarrow> string \<Rightarrow> string" where
  "before c s = takeWhile (\<lambda>d. d \<noteq> c) s"

definition after :: "char \<Rightarrow> string \<Rightarrow> string" where
  "after c s = drop 1 (dropWhile (\<lambda>d. d \<noteq> c) s)"

lemma hd_py_split_char: "hd (py_split [c] s) = before c s"
  by (induction s) (auto simp: before_def split: list.splits)

section \<open>Numbers as text\<close>

definition dec_val :: "char \<Rightarrow> int" where
  "dec_val c = int (code c) - 48"

definition dec_char :: "nat \<Rightarrow> char" where
  "dec_char n = char_of (48 + n)"

definition parse_dec :: "string \<Rightarrow> int option" where
  "parse_dec s = (if s \<noteq> [] \<and> list_all is_dec s
     then Some (foldl (\<lambda>a c. 10 * a + dec_val c) 0 s) else None)"

fun show_nat :: "nat \<Rightarrow> string" where
  "show_nat n = (if n < 10 then [dec_char n] else show_nat (n div 10) @ [dec_char (n mod 10)])"

declare show_nat.simps [simp del]

definition show_int :: "int \<Rightarrow> string" where
  "show_int i = (if i < 0 then ''-'' @ show_nat (nat (- i)) else show_nat (nat i))"

lemma code_dec_char: "n < 10 \<Longrightarrow> code (dec_char n) = 48 + n"
  by (simp add: dec_char_def)

lemma is_dec_dec_char: "n < 10 \<Longrightarrow> is_dec (dec_char n)"
  by (simp add: is_dec_def code_dec_char)

lemma show_nat_ne [simp]: "show_nat n \<noteq> []"
  by (subst show_nat.simps) simp

lemma show_nat_dec: "list_all is_dec (show_nat n)"
proof (induction n rule: show_nat.induct)
  case (1 n)
  then show ?case
    by (cases "n < 10") (auto simp: show_nat.simps [of n] is_dec_dec_char)
qed

lemma foldl_show_nat: "foldl (\<lambda>a c. 10 * a + dec_val c) 0 (show_nat n) = int n"
proof (induction n rule: show_nat.induct)
  case (1 n)
  show ?case
  proof (cases "n < 10")
    case True
    then show ?thesis by (simp add: show_nat.simps [of n] dec_val_def code_dec_char)
  next
    case False
    then have "foldl (\<lambda>a c. 10 * a + dec_val c) 0 (show_nat (n div 10)) = int (n div 10)"
      by (rule 1)
    with False show ?thesis
      by (simp add: show_nat.simps [of n] dec_val_def code_dec_char zdiv_int zmod_int)
  qed
qed

lemma parse_show_nat [simp]: "parse_dec (show_nat n) = Some (int n)"
  by (simp add: parse_dec_def show_nat_dec foldl_show_nat)

lemma show_nat_inj [simp]: "show_nat m = show_nat n \<longleftrightarrow> m = n"
  by (metis of_nat_eq_iff option.inject parse_show_nat)

section \<open>ASCII folding\<close>

text \<open>
  \<^verbatim>\<open>unicodedata.normalize("NFKD", s).encode("ascii", "ignore").decode()\<close>: each character is
  replaced by the ASCII characters of its compatibility decomposition. Reordering of combining
  marks does not change what survives, so the function works character by character.
\<close>

definition ascii_fold_char :: "char \<Rightarrow> string" where
  "ascii_fold_char c = (let n = code c in
     if n < 128 then [c]
     else if n \<in> {160, 168, 175, 180, 184} then '' ''
     else if n = 170 then ''a'' else if n = 186 then ''o''
     else if n = 178 then ''2'' else if n = 179 then ''3'' else if n = 185 then ''1''
     else if n = 188 then ''14'' else if n = 189 then ''12'' else if n = 190 then ''34''
     else if 192 \<le> n \<and> n \<le> 197 then ''A'' else if n = 199 then ''C''
     else if 200 \<le> n \<and> n \<le> 203 then ''E'' else if 204 \<le> n \<and> n \<le> 207 then ''I''
     else if n = 209 then ''N'' else if 210 \<le> n \<and> n \<le> 214 then ''O''
     else if 217 \<le> n \<and> n \<le> 220 then ''U'' else if n = 221 then ''Y''
     else if 224 \<le> n \<and> n \<le> 229 then ''a'' else if n = 231 then ''c''
     else if 232 \<le> n \<and> n \<le> 235 then ''e'' else if 236 \<le> n \<and> n \<le> 239 then ''i''
     else if n = 241 then ''n'' else if 242 \<le> n \<and> n \<le> 246 then ''o''
     else if 249 \<le> n \<and> n \<le> 252 then ''u'' else if n \<in> {253, 255} then ''y''
     else [])"

definition ascii_fold :: "string \<Rightarrow> string" where
  "ascii_fold s = concat (map ascii_fold_char s)"

lemma ascii_fold_ascii: "list_all (\<lambda>c. code c < 128) s \<Longrightarrow> ascii_fold s = s"
  by (induction s) (auto simp: ascii_fold_def ascii_fold_char_def Let_def)

end
