(* ===== verification/Shared_Text.thy ===== *)
theory Shared_Text
  imports Py_Str
begin

text \<open>
  \<^verbatim>\<open>shared/utils/phone.py\<close>, \<^verbatim>\<open>shared/utils/text.py\<close> and \<^verbatim>\<open>shared/utils/spreadsheet.py\<close>: the
  normalisers behind duplicate detection, slugs, imports and masked output. The lemmas show that
  a normalised phone number has the E.164 shape and is a fixed point, that a slug is a non-empty
  DNS label, and what the spreadsheet guard leaves alone.
\<close>

section \<open>Phone numbers\<close>

datatype phone_error = Phone_required | Indian_mobile_required | International_length | No_country_code

definition INDIA_CC :: string where "INDIA_CC = ''91''"

text \<open>\<^verbatim>\<open>^[6-9][0-9]{9}$\<close> on text without a newline.\<close>

definition INDIA_MOBILE :: "string \<Rightarrow> bool" where
  "INDIA_MOBILE s = (length s = 10 \<and> list_all is_dec s
     \<and> 54 \<le> code (hd s) \<and> code (hd s) \<le> 57)"

definition phone_char :: "char \<Rightarrow> bool" where
  "phone_char c = (is_dec c \<or> c = CHR ''+'')"

definition normalize_phone :: "string option \<Rightarrow> string \<Rightarrow> (phone_error, string) res" where
  "normalize_phone raw default_country =
     (case raw of
        None \<Rightarrow> Inl Phone_required
      | Some r \<Rightarrow>
        let cleaned0 = filter phone_char (py_strip r);
            cleaned = (if py_startswith cleaned0 ''00'' then ''+'' @ drop 2 cleaned0 else cleaned0)
        in if py_startswith cleaned ''+'' then
             (let digits = drop 1 cleaned in
              if py_startswith digits INDIA_CC then
                (let national = drop (length INDIA_CC) digits in
                 if \<not> INDIA_MOBILE national then Inl Indian_mobile_required
                 else Inr (''+'' @ INDIA_CC @ national))
              else if \<not> (8 \<le> length digits \<and> length digits \<le> 15) \<or> \<not> py_isdigit digits
              then Inl International_length
              else Inr (''+'' @ digits))
           else if default_country = INDIA_CC then
             (let c1 = (if py_startswith cleaned ''0'' then drop 1 cleaned else cleaned);
                  c2 = (if py_startswith c1 INDIA_CC \<and> length c1 = 12 then drop 2 c1 else c1)
              in if \<not> INDIA_MOBILE c2 then Inl Indian_mobile_required
                 else Inr (''+'' @ INDIA_CC @ c2))
           else Inl No_country_code)"

definition try_normalize_phone :: "string option \<Rightarrow> string option" where
  "try_normalize_phone raw =
     (case raw of
        None \<Rightarrow> None
      | Some r \<Rightarrow> if r = [] then None
                  else (case normalize_phone (Some r) INDIA_CC of Inl _ \<Rightarrow> None | Inr p \<Rightarrow> Some p))"

definition phone_last4 :: "string \<Rightarrow> string" where
  "phone_last4 e = drop (length e - 4) e"

definition mask_phone :: "string \<Rightarrow> string" where
  "mask_phone e =
     (if length e \<le> 5 then replicate (length e) (CHR ''*'')
      else take 3 e @ replicate (length e - 7) (CHR ''X'') @ drop (length e - 4) e)"

text \<open>The E.164 shape: an Indian mobile, or a plus sign and 8 to 15 digits.\<close>

definition e164 :: "string \<Rightarrow> bool" where
  "e164 p = (case p of
       [] \<Rightarrow> False
     | c # d \<Rightarrow> c = CHR ''+'' \<and> list_all is_dec d
         \<and> (if py_startswith d INDIA_CC then INDIA_MOBILE (drop 2 d)
            else 8 \<le> length d \<and> length d \<le> 15))"

lemma is_dec_not_space: "is_dec c \<Longrightarrow> \<not> is_space c"
  by (auto simp: is_dec_def is_space_def Let_def)

lemma phone_char_digit: "phone_char c \<Longrightarrow> is_digit c \<Longrightarrow> is_dec c"
  by (auto simp: phone_char_def is_digit_def code_def)

lemma is_dec_91 [simp]: "is_dec (CHR ''9'')" "is_dec (CHR ''1'')" "\<not> is_dec (CHR ''+'')"
  by (simp_all add: is_dec_def code_def)

lemma plus_not_space [simp]: "\<not> is_space (CHR ''+'')"
  by (simp add: is_space_def code_def)

lemma e164_Indian: "INDIA_MOBILE n \<Longrightarrow> e164 (CHR ''+'' # INDIA_CC @ n)"
  by (simp add: e164_def INDIA_CC_def INDIA_MOBILE_def py_startswith_def)

lemma normalize_phone_sound: "normalize_phone raw cc = Inr p \<Longrightarrow> e164 p"
proof -
  assume *: "normalize_phone raw cc = Inr p"
  then obtain r where r: "raw = Some r"
    by (auto simp: normalize_phone_def split: option.splits)
  define c0 where "c0 = filter phone_char (py_strip r)"
  define c where "c = (if py_startswith c0 ''00'' then ''+'' @ drop 2 c0 else c0)"
  have "list_all phone_char c0" by (simp add: c0_def list_all_iff)
  then have "list_all phone_char c"
    by (auto simp: c_def list_all_iff phone_char_def dest: in_set_dropD)
  then have dig: "list_all is_digit (drop 1 c) \<Longrightarrow> list_all is_dec (drop 1 c)"
    by (auto simp: list_all_iff dest: in_set_dropD intro: phone_char_digit)
  show ?thesis
  proof (cases "py_startswith c ''+''")
    case True
    show ?thesis
    proof (cases "py_startswith (drop 1 c) INDIA_CC")
      case True2: True
      then have "p = CHR ''+'' # INDIA_CC @ drop 2 (drop 1 c)" "INDIA_MOBILE (drop 2 (drop 1 c))"
        using * True r by (auto simp: normalize_phone_def c_def [symmetric] c0_def [symmetric]
            Let_def INDIA_CC_def numeral_2_eq_2 numeral_3_eq_3 split: if_splits)
      then show ?thesis by (simp add: e164_Indian)
    next
      case False
      then have "p = CHR ''+'' # drop 1 c" "8 \<le> length (drop 1 c)" "length (drop 1 c) \<le> 15"
          "list_all is_digit (drop 1 c)"
        using * True r by (auto simp: normalize_phone_def c_def [symmetric] c0_def [symmetric]
            Let_def py_isdigit_def split: if_splits)
      with dig False show ?thesis by (simp add: e164_def)
    qed
  next
    case False
    with * r show ?thesis
      by (auto simp: normalize_phone_def c_def [symmetric] c0_def [symmetric] Let_def
          intro: e164_Indian split: if_splits)
  qed
qed

lemma phone_char_e164: "e164 p \<Longrightarrow> filter phone_char (py_strip p) = p"
proof -
  assume "e164 p"
  then obtain d where d: "p = CHR ''+'' # d" "list_all is_dec d"
    by (auto simp: e164_def split: list.splits)
  then have "\<not> is_space (last p)"
    by (cases d rule: rev_cases) (auto simp: is_dec_not_space)
  then have "py_strip p = p" using d
    unfolding py_strip_def by (intro strip_by_fixed) auto
  moreover have "filter phone_char p = p"
    using d by (auto simp: phone_char_def list_all_iff intro: filter_True)
  ultimately show ?thesis by simp
qed

lemma normalize_phone_fixed: "e164 p \<Longrightarrow> normalize_phone (Some p) cc = Inr p"
proof -
  assume p: "e164 p"
  then obtain d where d: "p = CHR ''+'' # d" "list_all is_dec d"
      "if py_startswith d INDIA_CC then INDIA_MOBILE (drop 2 d) else 8 \<le> length d \<and> length d \<le> 15"
    by (auto simp: e164_def split: list.splits)
  have "\<not> py_startswith p ''00''" "py_startswith p ''+''"
    using d(1) by (auto simp: py_startswith_def)
  moreover have "8 \<le> length d \<Longrightarrow> py_isdigit d"
    using d(2) by (auto simp: is_digit_def py_isdigit_def list_all_iff)
  moreover have "py_startswith d INDIA_CC \<Longrightarrow> INDIA_CC @ drop (length INDIA_CC) d = d"
    by (auto simp: py_startswith_def prefix_def)
  moreover have "length INDIA_CC = 2" by (simp add: INDIA_CC_def)
  ultimately show ?thesis
    using d phone_char_e164 [OF p]
    by (cases "py_startswith d INDIA_CC") (simp_all add: normalize_phone_def Let_def)
qed

section \<open>Slugs and keys\<close>

definition slug_char :: "char \<Rightarrow> bool" where
  "slug_char c = (is_az c \<or> is_dec c)"

text \<open>\<^verbatim>\<open>re.sub\<close> with a class followed by \<^verbatim>\<open>+\<close>: every maximal run of matching characters becomes \<open>r\<close>.\<close>

function sub_runs :: "(char \<Rightarrow> bool) \<Rightarrow> string \<Rightarrow> string \<Rightarrow> string" where
  "sub_runs p r [] = []"
| "sub_runs p r (c # s) = (if p c then r @ sub_runs p r (dropWhile p s) else c # sub_runs p r s)"
  by pat_completeness auto
termination
  by (relation "measure (\<lambda>(p, r, s). length s)") (auto simp: le_imp_less_Suc length_dropWhile_le)

definition RESERVED_SLUGS :: "string list" where
  "RESERVED_SLUGS = [''api'', ''app'', ''www'', ''admin'', ''platform'', ''support'', ''status'',
     ''sandbox'', ''staging'', ''dev'', ''mail'', ''static'', ''assets'', ''public'', ''internal'']"

datatype text_error = Empty_slug | Invalid_email

definition is_dash :: "char \<Rightarrow> bool" where
  "is_dash c = (c = CHR ''-'')"

definition slugify :: "string \<Rightarrow> nat \<Rightarrow> (text_error, string) res" where
  "slugify value max_length =
     (let base = py_lower (ascii_fold value);
          slug = strip_by is_dash (take max_length
                   (strip_by is_dash (sub_runs (\<lambda>c. \<not> slug_char c) ''-'' base)))
      in if slug = [] then Inl Empty_slug else Inr slug)"

definition is_reserved_slug :: "string \<Rightarrow> bool" where
  "is_reserved_slug slug = (slug \<in> set RESERVED_SLUGS)"

text \<open>\<^verbatim>\<open>normalize_email\<close>; \<open>nfc\<close> is canonical composition, the identity on Latin-1 text.\<close>

definition normalize_email :: "string \<Rightarrow> (text_error, string) res" where
  "normalize_email value =
     (let email = py_lower (py_strip value)
      in if py_count (CHR ''@'') email \<noteq> 1 \<or> py_startswith email ''@'' \<or> py_endswith email ''@''
         then Inl Invalid_email else Inr email)"

definition normalize_name_key :: "string \<Rightarrow> string" where
  "normalize_name_key value =
     py_strip (sub_runs is_space '' ''
       (sub_runs (\<lambda>c. \<not> slug_char c) '' '' (py_lower (ascii_fold value))))"

definition truncate :: "string \<Rightarrow> nat \<Rightarrow> string \<Rightarrow> string" where
  "truncate value limit suf =
     (if length value \<le> limit then value
      else take (limit - length suf) value @ suf)"

lemma sub_runs_chars: "set (sub_runs p r s) \<subseteq> {c \<in> set s. \<not> p c} \<union> set r"
proof (induction p r s rule: sub_runs.induct)
  case (2 p r c s)
  then show ?case by (auto dest: set_dropWhileD)
qed simp

lemma slugify_shape:
  assumes "slugify v n = Inr s"
  shows "s \<noteq> [] \<and> length s \<le> n \<and> (\<forall>c\<in>set s. slug_char c \<or> c = CHR ''-'')
    \<and> hd s \<noteq> CHR ''-'' \<and> last s \<noteq> CHR ''-''"
proof -
  define t where "t = sub_runs (\<lambda>c. \<not> slug_char c) ''-'' (py_lower (ascii_fold v))"
  have s: "s = strip_by is_dash (take n (strip_by is_dash t))" and ne: "s \<noteq> []"
    using assms by (auto simp: slugify_def t_def Let_def split: if_splits)
  have "set s \<subseteq> set t"
    unfolding s using set_strip_by by (meson in_set_takeD subset_iff)
  moreover have "set t \<subseteq> {c. slug_char c \<or> c = CHR ''-''}"
    unfolding t_def using sub_runs_chars by fastforce
  moreover have "length s \<le> n"
  proof -
    have "length (strip_by p u) \<le> length u" for p u
      unfolding strip_by_def rstrip_by_def lstrip_by_def
      by (metis (no_types) dual_order.trans length_dropWhile_le length_rev)
    from this [of is_dash "take n (strip_by is_dash t)"] show ?thesis by (simp add: s)
  qed
  ultimately show ?thesis
    using ne hd_strip_by [of is_dash "take n (strip_by is_dash t)"]
      last_strip_by [of is_dash "take n (strip_by is_dash t)"]
    by (auto simp: s [symmetric] is_dash_def)
qed

section \<open>Spreadsheet formulas\<close>

definition FORMULA_PREFIXES :: "char list" where
  "FORMULA_PREFIXES = [CHR ''='', CHR ''+'', CHR ''-'', CHR ''@'']"

definition control_lead :: "char \<Rightarrow> bool" where
  "control_lead c = (code c \<in> {9, 13, 10})"

definition looks_like_formula :: "string \<Rightarrow> bool" where
  "looks_like_formula value =
     (case dropWhile control_lead value of [] \<Rightarrow> False | c # _ \<Rightarrow> c \<in> set FORMULA_PREFIXES)"

definition neutralise_formula :: "string \<Rightarrow> string" where
  "neutralise_formula value =
     (if value = [] then value
      else let stripped = dropWhile control_lead value
           in if \<not> looks_like_formula value then value
              else if hd stripped = CHR ''-'' \<and> py_isdigit (take 1 (drop 1 stripped))
                   then value
                   else CHR 0x27 # value)"

text \<open>A cell the guard leaves alone although a spreadsheet evaluates it: a minus sign and a digit.\<close>

definition minus_digit :: "string \<Rightarrow> bool" where
  "minus_digit value =
     (case dropWhile control_lead value of
        c # d # _ \<Rightarrow> c = CHR ''-'' \<and> is_digit d | _ \<Rightarrow> False)"

lemma minus_digit_take:
  "hd (dropWhile control_lead v) = CHR ''-''
     \<and> py_isdigit (take 1 (drop 1 (dropWhile control_lead v)))
   \<Longrightarrow> dropWhile control_lead v \<noteq> [] \<Longrightarrow> minus_digit v"
  by (cases "dropWhile control_lead v" rule: remdups_adj.cases)
    (auto simp: minus_digit_def py_isdigit_def)

lemma quote_not_formula: "\<not> looks_like_formula (CHR 0x27 # v)"
  by (simp add: looks_like_formula_def control_lead_def code_def FORMULA_PREFIXES_def)

lemma neutralise_safe: "\<not> looks_like_formula (neutralise_formula v) \<or> minus_digit v"
proof (cases "looks_like_formula v")
  case False
  then have "neutralise_formula v = v" by (simp add: neutralise_formula_def Let_def)
  with False show ?thesis by simp
next
  case True
  then have "dropWhile control_lead v \<noteq> []"
    by (intro notI) (simp add: looks_like_formula_def del: dropWhile_eq_Nil_conv)
  then show ?thesis
    using True quote_not_formula minus_digit_take
    by (auto simp: neutralise_formula_def Let_def)
qed

lemma neutralise_keeps: "suffix v (neutralise_formula v)"
  by (simp add: neutralise_formula_def Let_def suffix_Cons)

end
