(* ===== verification/Lead_Lifecycle.thy ===== *)
theory Lead_Lifecycle
  imports Complex_Main Transitions Shared_Text
begin

text \<open>
  \<^verbatim>\<open>domain/leads/lifecycle.py\<close>: the lead status machine, the natural key of a lead, duplicate
  detection and what is done with the candidates it finds.
\<close>

section \<open>Status machine\<close>

datatype LeadStatus = NEW | QUALIFIED | CONTACTED | NURTURING | CONVERTED | DISQUALIFIED | ARCHIVED

definition LeadStatus_value :: "LeadStatus \<Rightarrow> string" where
  "LeadStatus_value s = (case s of NEW \<Rightarrow> ''new'' | QUALIFIED \<Rightarrow> ''qualified''
     | CONTACTED \<Rightarrow> ''contacted'' | NURTURING \<Rightarrow> ''nurturing'' | CONVERTED \<Rightarrow> ''converted''
     | DISQUALIFIED \<Rightarrow> ''disqualified'' | ARCHIVED \<Rightarrow> ''archived'')"

definition lead_statuses :: "LeadStatus list" where
  "lead_statuses = [NEW, QUALIFIED, CONTACTED, NURTURING, CONVERTED, DISQUALIFIED, ARCHIVED]"

definition LeadStatus_of :: "string \<Rightarrow> LeadStatus option" where
  "LeadStatus_of v = List.find (\<lambda>s. LeadStatus_value s = v) lead_statuses"

definition TERMINAL :: "LeadStatus list" where
  "TERMINAL = [CONVERTED, DISQUALIFIED, ARCHIVED]"

fun ALLOWED_TRANSITIONS :: "LeadStatus \<Rightarrow> LeadStatus list" where
  "ALLOWED_TRANSITIONS NEW = [QUALIFIED, CONTACTED, NURTURING, DISQUALIFIED, ARCHIVED]"
| "ALLOWED_TRANSITIONS QUALIFIED = [CONTACTED, NURTURING, CONVERTED, DISQUALIFIED, ARCHIVED]"
| "ALLOWED_TRANSITIONS CONTACTED = [QUALIFIED, NURTURING, CONVERTED, DISQUALIFIED, ARCHIVED]"
| "ALLOWED_TRANSITIONS NURTURING = [CONTACTED, QUALIFIED, CONVERTED, DISQUALIFIED, ARCHIVED]"
| "ALLOWED_TRANSITIONS CONVERTED = []"
| "ALLOWED_TRANSITIONS DISQUALIFIED = [NURTURING, ARCHIVED]"
| "ALLOWED_TRANSITIONS ARCHIVED = [NEW]"

definition REQUIRES_REASON :: "LeadStatus list" where
  "REQUIRES_REASON = [DISQUALIFIED]"

datatype lead_error =
    Unknown_status string
  | Cannot_move LeadStatus LeadStatus
  | Reason_required LeadStatus

definition can_transition :: "string \<Rightarrow> string \<Rightarrow> (lead_error, bool) res" where
  "can_transition current target =
     (case LeadStatus_of target of
        None \<Rightarrow> Inl (Unknown_status target)
      | Some tgt \<Rightarrow> (case LeadStatus_of current of
          None \<Rightarrow> Inl (Unknown_status current)
        | Some cur \<Rightarrow> Inr (tgt \<in> set (ALLOWED_TRANSITIONS cur))))"

text \<open>\<^verbatim>\<open>assert_transition\<close> after both arguments became enum members; \<open>reason\<close> is falsy when absent or empty.\<close>

definition lead_step :: "string option \<Rightarrow> LeadStatus \<Rightarrow> LeadStatus \<Rightarrow> (lead_error, LeadStatus) res" where
  "lead_step reason cur tgt =
     (if cur = tgt then Inr tgt
      else if tgt \<notin> set (ALLOWED_TRANSITIONS cur) then Inl (Cannot_move cur tgt)
      else if tgt \<in> set REQUIRES_REASON \<and> (reason = None \<or> reason = Some [])
           then Inl (Reason_required tgt)
      else Inr tgt)"

definition assert_transition :: "string \<Rightarrow> string \<Rightarrow> string option \<Rightarrow> (lead_error, LeadStatus) res" where
  "assert_transition current target reason =
     (case LeadStatus_of current of
        None \<Rightarrow> Inl (Unknown_status current)
      | Some cur \<Rightarrow> (case LeadStatus_of target of
          None \<Rightarrow> Inl (Unknown_status target)
        | Some tgt \<Rightarrow> lead_step reason cur tgt))"

interpretation lead: transition_machine ALLOWED_TRANSITIONS "lead_step reason"
  for reason
  by unfold_locales (auto simp: lead_step_def split: if_splits)

lemma LeadStatus_of_value [simp]: "LeadStatus_of (LeadStatus_value s) = Some s"
  by (cases s) (simp_all add: LeadStatus_of_def lead_statuses_def LeadStatus_value_def)

lemma LeadStatus_of_Some: "LeadStatus_of v = Some s \<Longrightarrow> v = LeadStatus_value s"
  by (auto simp: LeadStatus_of_def dest: find_Some_split)

text \<open>Moves of a lead as a step relation: the reason given with a move is arbitrary.\<close>

inductive lead_moves :: "LeadStatus \<Rightarrow> LeadStatus \<Rightarrow> bool" where
  "lead_step reason s t = Inr u \<Longrightarrow> lead_moves s u"

inductive_simps lead_moves_from: "lead_moves s t"

lemma lead_moves_iff: "lead_moves s t \<longleftrightarrow> s = t \<or> t \<in> set (ALLOWED_TRANSITIONS s)"
proof
  show "lead_moves s t \<Longrightarrow> s = t \<or> t \<in> set (ALLOWED_TRANSITIONS s)"
    by (auto simp: lead_moves_from lead_step_def split: if_splits)
  assume "s = t \<or> t \<in> set (ALLOWED_TRANSITIONS s)"
  then have "lead_step (Some ''x'') s t = Inr t" by (auto simp: lead_step_def)
  then show "lead_moves s t" by (rule lead_moves.intros)
qed

section \<open>Natural key\<close>

definition dedupe_key :: "string option \<Rightarrow> string option \<Rightarrow> string option \<Rightarrow> string option" where
  "dedupe_key email phone name =
     (if email \<noteq> None \<and> email \<noteq> Some [] then Some (''e:'' @ py_lower (py_strip (the email)))
      else case (case phone of None \<Rightarrow> None | Some p \<Rightarrow> if p = [] then None else try_normalize_phone (Some p)) of
        Some normalized \<Rightarrow> Some (''p:'' @ normalized)
      | None \<Rightarrow>
          if name \<noteq> None \<and> name \<noteq> Some [] then
            (let key = normalize_name_key (the name)
             in if key = [] then None else Some (''n:'' @ key))
          else None)"

section \<open>Duplicate detection\<close>

text \<open>A row is a dictionary: a key may be missing, bound to \<^verbatim>\<open>None\<close> or bound to text.\<close>

datatype cell = Missing | PyNone | Text string

definition cell_or_empty :: "cell \<Rightarrow> string" where
  "cell_or_empty c = (case c of Text s \<Rightarrow> s | _ \<Rightarrow> [])"

text \<open>\<^verbatim>\<open>f"{row.get(k, '')}"\<close>: a missing key prints nothing, \<^verbatim>\<open>None\<close> prints its name.\<close>

definition cell_print :: "cell \<Rightarrow> string" where
  "cell_print c = (case c of Missing \<Rightarrow> [] | PyNone \<Rightarrow> ''None'' | Text s \<Rightarrow> s)"

record lead_row =
  row_id :: string
  row_email :: cell
  row_phone :: cell
  row_first_name :: cell
  row_last_name :: cell
  row_company :: cell
  row_source :: cell

datatype match_reason = Email_exact | Phone_exact | Name_and_company | Name_and_source_window

fun MATCH_WEIGHTS :: "match_reason \<Rightarrow> rat" where
  "MATCH_WEIGHTS Email_exact = 1"
| "MATCH_WEIGHTS Phone_exact = 0.95"
| "MATCH_WEIGHTS Name_and_company = 0.72"
| "MATCH_WEIGHTS Name_and_source_window = 0.55"

definition AUTO_MERGE_THRESHOLD :: rat where "AUTO_MERGE_THRESHOLD = 0.95"
definition REVIEW_THRESHOLD :: rat where "REVIEW_THRESHOLD = 0.50"

record DuplicateCandidate =
  cand_lead_id :: string
  cand_match_reason :: match_reason
  cand_confidence :: rat

definition norm_email :: "lead_row \<Rightarrow> string" where
  "norm_email r = py_lower (py_strip (cell_or_empty (row_email r)))"

definition norm_phone :: "lead_row \<Rightarrow> string option" where
  "norm_phone r = try_normalize_phone
     (case row_phone r of Text p \<Rightarrow> Some p | _ \<Rightarrow> None)"

definition name_key :: "lead_row \<Rightarrow> string" where
  "name_key r = normalize_name_key
     (cell_print (row_first_name r) @ '' '' @ cell_print (row_last_name r))"

definition company_key :: "lead_row \<Rightarrow> string" where
  "company_key r = normalize_name_key (cell_or_empty (row_company r))"

definition match_reason_of :: "lead_row \<Rightarrow> lead_row \<Rightarrow> match_reason option" where
  "match_reason_of candidate row =
     (if norm_email candidate \<noteq> [] \<and> norm_email row \<noteq> [] \<and> norm_email candidate = norm_email row
      then Some Email_exact
      else if norm_phone candidate \<noteq> None \<and> norm_phone row \<noteq> None
              \<and> norm_phone candidate = norm_phone row
      then Some Phone_exact
      else if name_key candidate \<noteq> [] \<and> company_key candidate \<noteq> []
              \<and> name_key candidate = name_key row \<and> company_key candidate = company_key row
      then Some Name_and_company
      else if name_key candidate \<noteq> [] \<and> name_key candidate = name_key row
              \<and> cell_or_empty (row_source candidate) \<noteq> [] \<and> row_source candidate = row_source row
      then Some Name_and_source_window
      else None)"

definition duplicate_of :: "lead_row \<Rightarrow> lead_row \<Rightarrow> DuplicateCandidate option" where
  "duplicate_of candidate row =
     map_option (\<lambda>reason. \<lparr>cand_lead_id = row_id row, cand_match_reason = reason,
         cand_confidence = MATCH_WEIGHTS reason\<rparr>) (match_reason_of candidate row)"

text \<open>\<^verbatim>\<open>sorted(..., reverse=True)\<close> keeps the order of equal elements, as sorting by the negated key does.\<close>

definition find_duplicates :: "lead_row \<Rightarrow> lead_row list \<Rightarrow> DuplicateCandidate list" where
  "find_duplicates candidate existing =
     sort_key (\<lambda>c. - cand_confidence c) (List.map_filter (duplicate_of candidate) existing)"

definition duplicate_resolution :: "DuplicateCandidate list \<Rightarrow> string" where
  "duplicate_resolution candidates =
     (case candidates of
        [] \<Rightarrow> ''create''
      | best # _ \<Rightarrow>
          if cand_confidence best \<ge> AUTO_MERGE_THRESHOLD then ''merge''
          else if cand_confidence best \<ge> REVIEW_THRESHOLD then ''review''
          else ''create'')"

definition same_identity :: "lead_row \<Rightarrow> lead_row \<Rightarrow> bool" where
  "same_identity a b = (norm_email a \<noteq> [] \<and> norm_email a = norm_email b
     \<or> norm_phone a \<noteq> None \<and> norm_phone a = norm_phone b)"

lemma weight_merge: "MATCH_WEIGHTS r \<ge> AUTO_MERGE_THRESHOLD \<longleftrightarrow> r = Email_exact \<or> r = Phone_exact"
  by (cases r) (simp_all add: AUTO_MERGE_THRESHOLD_def)

lemma weight_review: "MATCH_WEIGHTS r \<ge> REVIEW_THRESHOLD"
  by (cases r) (simp_all add: REVIEW_THRESHOLD_def)

lemma same_identity_reason:
  "same_identity a b \<longleftrightarrow> match_reason_of a b = Some Email_exact \<or> match_reason_of a b = Some Phone_exact"
  by (auto simp: same_identity_def match_reason_of_def)

lemma set_map_filter_duplicate:
  "set (List.map_filter (duplicate_of c) rows) = {d. \<exists>r\<in>set rows. duplicate_of c r = Some d}"
  by (force simp: map_filter_def)

lemma find_duplicates_Nil: "find_duplicates c rows = [] \<longleftrightarrow> (\<forall>r\<in>set rows. match_reason_of c r = None)"
proof -
  have "find_duplicates c rows = [] \<longleftrightarrow> set (List.map_filter (duplicate_of c) rows) = {}"
    unfolding find_duplicates_def by (metis set_empty set_sort)
  also have "\<dots> \<longleftrightarrow> (\<forall>r\<in>set rows. duplicate_of c r = None)"
    unfolding set_map_filter_duplicate by (auto, metis option.exhaust)
  also have "\<dots> \<longleftrightarrow> (\<forall>r\<in>set rows. match_reason_of c r = None)"
    by (simp add: duplicate_of_def)
  finally show ?thesis .
qed

lemma find_duplicates_best:
  assumes "find_duplicates c rows = best # rest"
  shows "\<exists>r\<in>set rows. duplicate_of c r = Some best"
    and "r \<in> set rows \<Longrightarrow> duplicate_of c r = Some d \<Longrightarrow> cand_confidence d \<le> cand_confidence best"
proof -
  have set: "set (best # rest) = {d. \<exists>r\<in>set rows. duplicate_of c r = Some d}"
    using assms set_map_filter_duplicate [of c rows] by (metis find_duplicates_def set_sort)
  then show "\<exists>r\<in>set rows. duplicate_of c r = Some best"
    by auto
  have "sorted (map (\<lambda>c. - cand_confidence c) (best # rest))"
    by (metis assms find_duplicates_def sorted_sort_key)
  then have "\<forall>d\<in>set (best # rest). cand_confidence d \<le> cand_confidence best" by auto
  then show "r \<in> set rows \<Longrightarrow> duplicate_of c r = Some d \<Longrightarrow> cand_confidence d \<le> cand_confidence best"
    using set by blast
qed

lemma resolution_iff_best:
  "duplicate_resolution ds = ''merge'' \<longleftrightarrow> ds \<noteq> [] \<and> cand_confidence (hd ds) \<ge> AUTO_MERGE_THRESHOLD"
  by (auto simp: duplicate_resolution_def split: list.splits)

section \<open>Properties\<close>

text \<open>Whatever targets are requested and whatever reasons accompany them, a converted lead stays
  converted, no lead becomes converted without having been qualified, contacted or nurtured, and
  repeating a request changes nothing.\<close>

theorem lead_conversion_is_final:
  "lead.run reason CONVERTED ts = CONVERTED
   \<and> (lead_moves s CONVERTED \<longrightarrow> s \<in> {CONVERTED, QUALIFIED, CONTACTED, NURTURING})
   \<and> lead.run reason s (ts @ [t, t]) = lead.run reason s (ts @ [t])"
  using lead.terminal_run [of CONVERTED reason ts] lead.run_redelivery [of reason s ts t]
  by (cases s) (simp_all add: lead_moves_iff)

theorem lead_conversion_is_final_witness:
  "lead.run None CONVERTED [NEW, ARCHIVED] = CONVERTED
   \<and> (lead_moves QUALIFIED CONVERTED \<and> QUALIFIED \<in> {CONVERTED, QUALIFIED, CONTACTED, NURTURING})"
  using lead_conversion_is_final [of None "[NEW, ARCHIVED]" QUALIFIED CONVERTED]
  by (simp add: lead_moves_iff)

text \<open>A capture is merged automatically exactly when some stored lead has the same normalised
  email address or the same normalised phone number; any weaker resemblance goes to review, and
  only a capture that resembles nothing is created outright.\<close>

theorem duplicate_resolution_correct:
  "(duplicate_resolution (find_duplicates c rows) = ''merge'' \<longleftrightarrow> (\<exists>r\<in>set rows. same_identity c r))
   \<and> (duplicate_resolution (find_duplicates c rows) = ''create''
       \<longleftrightarrow> (\<forall>r\<in>set rows. match_reason_of c r = None))"
proof (cases "find_duplicates c rows")
  case Nil
  then have "\<forall>r\<in>set rows. match_reason_of c r = None" by (simp add: find_duplicates_Nil)
  with Nil show ?thesis
    by (auto simp: duplicate_resolution_def same_identity_reason)
next
  case (Cons best rest)
  note best = find_duplicates_best [OF Cons]
  then obtain b reason where b: "b \<in> set rows" "match_reason_of c b = Some reason"
      and conf: "cand_confidence best = MATCH_WEIGHTS reason"
    by (auto simp: duplicate_of_def)
  have "MATCH_WEIGHTS reason \<ge> AUTO_MERGE_THRESHOLD \<longleftrightarrow> (\<exists>r\<in>set rows. same_identity c r)"
  proof
    assume "MATCH_WEIGHTS reason \<ge> AUTO_MERGE_THRESHOLD"
    then show "\<exists>r\<in>set rows. same_identity c r"
      using b by (auto simp: weight_merge same_identity_reason)
  next
    assume "\<exists>r\<in>set rows. same_identity c r"
    then obtain r w where r: "r \<in> set rows" "match_reason_of c r = Some w" "w = Email_exact \<or> w = Phone_exact"
      by (auto simp: same_identity_reason)
    then have "MATCH_WEIGHTS w \<le> cand_confidence best"
      using best(2) [of r] by (auto simp: duplicate_of_def)
    with r(3) weight_merge [of w] conf show "MATCH_WEIGHTS reason \<ge> AUTO_MERGE_THRESHOLD" by auto
  qed
  moreover have "\<not> (\<forall>r\<in>set rows. match_reason_of c r = None)" using b by auto
  ultimately show ?thesis
    using Cons conf weight_review [of reason] by (auto simp: duplicate_resolution_def)
qed

definition sample_row :: "string \<Rightarrow> cell \<Rightarrow> lead_row" where
  "sample_row i email = \<lparr>row_id = i, row_email = email, row_phone = Missing, row_first_name = Text ''Asha'',
     row_last_name = PyNone, row_company = Missing, row_source = Missing\<rparr>"

theorem duplicate_resolution_correct_witness:
  "same_identity (sample_row ''1'' (Text '' A@X.in'')) (sample_row ''2'' (Text ''a@x.IN''))
   \<and> duplicate_resolution (find_duplicates (sample_row ''1'' (Text '' A@X.in''))
        [sample_row ''2'' (Text ''a@x.IN'')]) = ''merge''"
proof -
  have "same_identity (sample_row ''1'' (Text '' A@X.in'')) (sample_row ''2'' (Text ''a@x.IN''))"
    by code_simp
  with duplicate_resolution_correct
    [of "sample_row ''1'' (Text '' A@X.in'')" "[sample_row ''2'' (Text ''a@x.IN'')]"]
  show ?thesis by simp
qed

end
