(* ===== verification/Py_Json.thy ===== *)
theory Py_Json
  imports Complex_Main Py_Str
begin

text \<open>
  The Python values that JSON documents decode to, and the operations the sources apply to them:
  \<^verbatim>\<open>dict.get\<close>, truth testing, \<^verbatim>\<open>isinstance\<close>, equality across \<^verbatim>\<open>bool\<close>, \<^verbatim>\<open>int\<close> and \<^verbatim>\<open>float\<close>,
  ordering comparisons (undefined for mixed types), membership, \<^verbatim>\<open>str\<close> and \<^verbatim>\<open>repr\<close>. An operation
  that Python refuses returns the exception it raises. A float \<open>JFloat m k\<close> is the number
  \<open>m / 10\<^sup>k\<close> of its shortest decimal form, with \<open>k \<ge> 1\<close>; magnitudes that print in scientific
  notation are outside the model.
\<close>

datatype json =
    JNull
  | JBool bool
  | JInt int
  | JFloat int nat
  | JStr string
  | JList "json list"
  | JDict "(string \<times> json) list"

type_synonym jdict = "(string \<times> json) list"

datatype py_exc = AttributeError | TypeError | KeyError | IndexError | ValueError

section \<open>Reading values\<close>

definition dget :: "string \<Rightarrow> jdict \<Rightarrow> json" where
  "dget k d = (case map_of d k of None \<Rightarrow> JNull | Some v \<Rightarrow> v)"

definition dget_or :: "string \<Rightarrow> json \<Rightarrow> jdict \<Rightarrow> json" where
  "dget_or k dflt d = (case map_of d k of None \<Rightarrow> dflt | Some v \<Rightarrow> v)"

text \<open>\<^verbatim>\<open>x.get(k)\<close>: only a dictionary has the attribute.\<close>

definition jget :: "string \<Rightarrow> json \<Rightarrow> (py_exc, json) res" where
  "jget k j = (case j of JDict d \<Rightarrow> Inr (dget k d) | _ \<Rightarrow> Inl AttributeError)"

definition jdict_of :: "json \<Rightarrow> (py_exc, jdict) res" where
  "jdict_of j = (case j of JDict d \<Rightarrow> Inr d | _ \<Rightarrow> Inl AttributeError)"

definition truthy :: "json \<Rightarrow> bool" where
  "truthy j = (case j of JNull \<Rightarrow> False | JBool b \<Rightarrow> b | JInt i \<Rightarrow> i \<noteq> 0 | JFloat m _ \<Rightarrow> m \<noteq> 0
     | JStr s \<Rightarrow> s \<noteq> [] | JList xs \<Rightarrow> xs \<noteq> [] | JDict d \<Rightarrow> d \<noteq> [])"

definition por :: "json \<Rightarrow> json \<Rightarrow> json" where
  "por a b = (if truthy a then a else b)"

definition is_jstr :: "json \<Rightarrow> bool" where "is_jstr j = (case j of JStr _ \<Rightarrow> True | _ \<Rightarrow> False)"
definition is_jlist :: "json \<Rightarrow> bool" where "is_jlist j = (case j of JList _ \<Rightarrow> True | _ \<Rightarrow> False)"
definition is_jdict :: "json \<Rightarrow> bool" where "is_jdict j = (case j of JDict _ \<Rightarrow> True | _ \<Rightarrow> False)"

text \<open>\<^verbatim>\<open>value not in (None, "", [], {})\<close>: a zero or a \<^verbatim>\<open>False\<close> is present.\<close>

definition is_present :: "json \<Rightarrow> bool" where
  "is_present v \<longleftrightarrow> v \<notin> {JNull, JStr [], JList [], JDict []}"

text \<open>\<^verbatim>\<open>isinstance(x, int)\<close> holds of booleans too, which count as 0 and 1.\<close>

definition as_int :: "json \<Rightarrow> int option" where
  "as_int j = (case j of JInt i \<Rightarrow> Some i | JBool b \<Rightarrow> Some (of_bool b) | _ \<Rightarrow> None)"

definition int_between :: "int \<Rightarrow> json \<Rightarrow> int \<Rightarrow> bool" where
  "int_between low j high = (case as_int j of None \<Rightarrow> False | Some i \<Rightarrow> low \<le> i \<and> i \<le> high)"

definition hashable :: "json \<Rightarrow> bool" where
  "hashable j = (\<not> is_jlist j \<and> \<not> is_jdict j)"

text \<open>\<^verbatim>\<open>x in frozenset_of_strings\<close>.\<close>

definition in_strset :: "json \<Rightarrow> string list \<Rightarrow> (py_exc, bool) res" where
  "in_strset j S = (if hashable j then Inr (case j of JStr s \<Rightarrow> s \<in> set S | _ \<Rightarrow> False) else Inl TypeError)"

text \<open>\<^verbatim>\<open>x in tuple_of_strings\<close>: compares by equality and never raises.\<close>

definition in_strtuple :: "json \<Rightarrow> string list \<Rightarrow> bool" where
  "in_strtuple j S = (case j of JStr s \<Rightarrow> s \<in> set S | _ \<Rightarrow> False)"

text \<open>\<^verbatim>\<open>for x in v\<close>.\<close>

definition iterate :: "json \<Rightarrow> (py_exc, json list) res" where
  "iterate j = (case j of JList xs \<Rightarrow> Inr xs | JStr s \<Rightarrow> Inr (map (\<lambda>c. JStr [c]) s)
     | JDict d \<Rightarrow> Inr (map (\<lambda>e. JStr (fst e)) d) | _ \<Rightarrow> Inl TypeError)"

section \<open>Printing\<close>

definition hex_digit :: "nat \<Rightarrow> char" where
  "hex_digit n = ''0123456789abcdef'' ! n"

definition printable :: "char \<Rightarrow> bool" where
  "printable c = (let n = code c in 32 \<le> n \<and> n \<le> 126 \<or> 161 \<le> n \<and> n \<noteq> 173)"

definition repr_char :: "char \<Rightarrow> char \<Rightarrow> string" where
  "repr_char q c =
     (if c = q \<or> c = CHR 0x5C then [CHR 0x5C, c]
      else if code c = 9 then [CHR 0x5C, CHR ''t'']
      else if code c = 10 then [CHR 0x5C, CHR ''n'']
      else if code c = 13 then [CHR 0x5C, CHR ''r'']
      else if printable c then [c]
      else [CHR 0x5C, CHR ''x'', hex_digit (code c div 16), hex_digit (code c mod 16)])"

definition repr_str :: "string \<Rightarrow> string" where
  "repr_str s = (let q = (if CHR 0x27 \<in> set s \<and> CHR 0x22 \<notin> set s then CHR 0x22 else CHR 0x27)
     in [q] @ concat (map (repr_char q) s) @ [q])"

definition zfill :: "nat \<Rightarrow> string \<Rightarrow> string" where
  "zfill n s = replicate (n - length s) (CHR ''0'') @ s"

definition float_str :: "int \<Rightarrow> nat \<Rightarrow> string" where
  "float_str m k = (let a = nat \<bar>m\<bar> in
     (if m < 0 then ''-'' else []) @ show_nat (a div 10 ^ k) @ ''.'' @ zfill k (show_nat (a mod 10 ^ k)))"

fun intersperse_comma :: "string list \<Rightarrow> string" where
  "intersperse_comma [] = []"
| "intersperse_comma [s] = s"
| "intersperse_comma (s # ss) = s @ '', '' @ intersperse_comma ss"

fun py_repr :: "json \<Rightarrow> string" where
  "py_repr JNull = ''None''"
| "py_repr (JBool b) = (if b then ''True'' else ''False'')"
| "py_repr (JInt i) = show_int i"
| "py_repr (JFloat m k) = float_str m k"
| "py_repr (JStr s) = repr_str s"
| "py_repr (JList xs) = ''['' @ intersperse_comma (map py_repr xs) @ '']''"
| "py_repr (JDict d) = ''{'' @ intersperse_comma (map (\<lambda>(k, v). repr_str k @ '': '' @ py_repr v) d) @ ''}''"

definition py_str :: "json \<Rightarrow> string" where
  "py_str j = (case j of JStr s \<Rightarrow> s | _ \<Rightarrow> py_repr j)"

lemma py_str_JStr [simp]: "py_str (JStr s) = s"
  by (simp add: py_str_def)

section \<open>Comparison\<close>

definition num_val :: "json \<Rightarrow> rat option" where
  "num_val j = (case j of JBool b \<Rightarrow> Some (of_bool b) | JInt i \<Rightarrow> Some (of_int i)
     | JFloat m k \<Rightarrow> Some (of_int m / 10 ^ k) | _ \<Rightarrow> None)"

fun py_eq :: "json \<Rightarrow> json \<Rightarrow> bool"
and py_eq_list :: "json list \<Rightarrow> json list \<Rightarrow> bool"
and py_eq_entries :: "(string \<times> json) list \<Rightarrow> jdict \<Rightarrow> bool" where
  "py_eq (JStr s) b = (case b of JStr t \<Rightarrow> s = t | _ \<Rightarrow> False)"
| "py_eq (JList xs) b = (case b of JList ys \<Rightarrow> py_eq_list xs ys | _ \<Rightarrow> False)"
| "py_eq (JDict d) b = (case b of JDict e \<Rightarrow> length d = length e \<and> py_eq_entries d e | _ \<Rightarrow> False)"
| "py_eq JNull b = (b = JNull)"
| "py_eq (JBool x) b = (num_val b = Some (of_bool x))"
| "py_eq (JInt i) b = (num_val b = Some (of_int i))"
| "py_eq (JFloat m k) b = (num_val b = Some (of_int m / 10 ^ k))"
| "py_eq_list [] ys = (ys = [])"
| "py_eq_list (x # xs) ys = (case ys of [] \<Rightarrow> False | y # ys' \<Rightarrow> py_eq x y \<and> py_eq_list xs ys')"
| "py_eq_entries [] e = True"
| "py_eq_entries ((k, v) # d) e =
     ((case map_of e k of None \<Rightarrow> False | Some w \<Rightarrow> py_eq v w) \<and> py_eq_entries d e)"

text \<open>
  \<open>py_cmp True\<close> is \<^verbatim>\<open><\<close>, \<open>py_cmp False\<close> is \<^verbatim>\<open><=\<close>; \<^verbatim>\<open>None\<close> is the \<^verbatim>\<open>TypeError\<close> of an unordered pair.
  Lists compare at the first position where they differ.
\<close>

fun py_cmp :: "bool \<Rightarrow> json \<Rightarrow> json \<Rightarrow> bool option"
and py_cmp_list :: "bool \<Rightarrow> json list \<Rightarrow> json list \<Rightarrow> bool option" where
  "py_cmp strict (JStr s) b = (case b of JStr t \<Rightarrow> Some (if strict then s < t else s \<le> t) | _ \<Rightarrow> None)"
| "py_cmp strict (JList xs) b = (case b of JList ys \<Rightarrow> py_cmp_list strict xs ys | _ \<Rightarrow> None)"
| "py_cmp strict (JDict d) b = None"
| "py_cmp strict JNull b = None"
| "py_cmp strict (JBool x) b = (case num_val b of None \<Rightarrow> None
     | Some r \<Rightarrow> Some (if strict then of_bool x < r else of_bool x \<le> r))"
| "py_cmp strict (JInt i) b = (case num_val b of None \<Rightarrow> None
     | Some r \<Rightarrow> Some (if strict then of_int i < r else of_int i \<le> r))"
| "py_cmp strict (JFloat m k) b = (case num_val b of None \<Rightarrow> None
     | Some r \<Rightarrow> Some (if strict then of_int m / 10 ^ k < r else of_int m / 10 ^ k \<le> r))"
| "py_cmp_list strict [] ys = Some (ys \<noteq> [] \<or> \<not> strict)"
| "py_cmp_list strict (x # xs) ys = (case ys of [] \<Rightarrow> Some False
     | y # ys' \<Rightarrow> if py_eq x y then py_cmp_list strict xs ys' else py_cmp strict x y)"

text \<open>\<^verbatim>\<open>a in b\<close>.\<close>

definition py_in :: "json \<Rightarrow> json \<Rightarrow> bool option" where
  "py_in a b = (case b of
      JList ys \<Rightarrow> Some (list_ex (py_eq a) ys)
    | JStr t \<Rightarrow> (case a of JStr s \<Rightarrow> Some (py_contains s t) | _ \<Rightarrow> None)
    | JDict d \<Rightarrow> if hashable a then Some (case a of JStr s \<Rightarrow> has_key s d | _ \<Rightarrow> False) else None
    | _ \<Rightarrow> None)"

text \<open>\<^verbatim>\<open>int(x)\<close>: floats truncate towards zero, text may carry a sign and single underscores between digits.\<close>

definition int_digits :: "string \<Rightarrow> int option" where
  "int_digits s = (let parts = py_split ''_'' s
     in if list_all (\<lambda>p. p \<noteq> []) parts then parse_dec (concat parts) else None)"

definition int_of_text :: "string \<Rightarrow> int option" where
  "int_of_text s = (case py_strip s of
      [] \<Rightarrow> None
    | c # ds \<Rightarrow> if c = CHR ''-'' then map_option uminus (int_digits ds)
               else if c = CHR ''+'' then int_digits ds
               else int_digits (c # ds))"

definition py_int :: "json \<Rightarrow> (py_exc, int) res" where
  "py_int j = (case j of
      JInt i \<Rightarrow> Inr i
    | JBool b \<Rightarrow> Inr (of_bool b)
    | JFloat m k \<Rightarrow> Inr (sgn m * (\<bar>m\<bar> div 10 ^ k))
    | JStr s \<Rightarrow> (case int_of_text s of None \<Rightarrow> Inl ValueError | Some i \<Rightarrow> Inr i)
    | _ \<Rightarrow> Inl TypeError)"

lemma dget_aput [simp]: "dget k (aput k v d) = v"
  by (simp add: dget_def)

lemma jget_JDict [simp]: "jget k (JDict d) = Inr (dget k d)"
  by (simp add: jget_def)

lemma jget_Inr: "jget k j = Inr v \<longleftrightarrow> (\<exists>d. j = JDict d \<and> v = dget k d)"
  by (auto simp: jget_def split: json.splits)

lemma in_strset_Inr_True: "in_strset j S = Inr True \<longleftrightarrow> (\<exists>s\<in>set S. j = JStr s)"
  by (auto simp: in_strset_def hashable_def is_jlist_def is_jdict_def split: json.splits)

end
