(* ===== verification/Lead_Qualification.thy ===== *)
theory Lead_Qualification
  imports Py_Json
begin

text \<open>
  \<^verbatim>\<open>domain/leads/qualification.py\<close>: rubric scores, their bands, and what a reviewer's decision makes of a score. The
  quotient is a float in the source, rounded half to even; for weights below \<open>2\<^sup>4\<^sup>0\<close> that is the rounding of the exact
  quotient, which the model uses. Reasons are kept as values, the source's sentences are their renderings.
\<close>

definition HOT_THRESHOLD :: int where "HOT_THRESHOLD = 80"
definition WARM_THRESHOLD :: int where "WARM_THRESHOLD = 40"
definition NEUTRAL_DEGRADED_SCORE :: int where "NEUTRAL_DEGRADED_SCORE = 50"

datatype Category = HOT | WARM | COLD

definition Category_value :: "Category \<Rightarrow> string" where
  "Category_value c = (case c of HOT \<Rightarrow> ''hot'' | WARM \<Rightarrow> ''warm'' | COLD \<Rightarrow> ''cold'')"

datatype ReviewState = R_PENDING | R_ACCEPTED | R_EDITED | R_REJECTED | R_DEFERRED

definition ReviewState_value :: "ReviewState \<Rightarrow> string" where
  "ReviewState_value s = (case s of R_PENDING \<Rightarrow> ''pending'' | R_ACCEPTED \<Rightarrow> ''accepted'' | R_EDITED \<Rightarrow> ''edited''
     | R_REJECTED \<Rightarrow> ''rejected'' | R_DEFERRED \<Rightarrow> ''deferred'')"

definition ReviewState_of :: "string \<Rightarrow> ReviewState option" where
  "ReviewState_of v = List.find (\<lambda>s. ReviewState_value s = v) [R_PENDING, R_ACCEPTED, R_EDITED, R_REJECTED, R_DEFERRED]"

definition categorize :: "int \<Rightarrow> (py_exc, Category) res" where
  "categorize score =
     (if \<not> (0 \<le> score \<and> score \<le> 100) then Inl ValueError
      else if score \<ge> HOT_THRESHOLD then Inr HOT
      else if score \<ge> WARM_THRESHOLD then Inr WARM
      else Inr COLD)"

record Criterion =
  cr_key :: string
  cr_label :: string
  cr_weight :: int
  cr_required :: bool

datatype reason =
    Provided string
  | Required_missing string
  | Unavailable string
  | Edited_to int
  | Rejected_by_reviewer
  | Reviewer_note string
  | Ai_reason string
  | Prompt_not_promoted

text \<open>Evidence from the capture: the criterion and the value found.\<close>

record QualificationResult =
  qr_score :: int
  qr_category :: Category
  qr_evidence :: "(string \<times> json) list"
  qr_reasons :: "reason list"
  qr_missing :: "string list"
  qr_by :: string
  qr_degraded :: bool
  qr_review :: ReviewState

definition round_half_even :: "int \<Rightarrow> int \<Rightarrow> int" where
  "round_half_even n d =
     (let q = n div d; r = n mod d in
      if 2 * r < d then q else if 2 * r > d then q + 1 else if even q then q else q + 1)"

definition py_round_quotient :: "int \<Rightarrow> int \<Rightarrow> int" where
  "py_round_quotient n d = (if d < 0 then round_half_even (- n) (- d) else round_half_even n d)"

definition total_weight :: "Criterion list \<Rightarrow> int" where
  "total_weight criteria = (let w = sum_list (map cr_weight criteria) in if w = 0 then 1 else w)"

definition criterion_reasons :: "jdict \<Rightarrow> Criterion \<Rightarrow> reason list" where
  "criterion_reasons capture c =
     (if is_present (dget (cr_key c) capture) then [Provided (cr_label c)]
      else if cr_required c then [Required_missing (cr_label c)] else [])"

definition score_from_rubric :: "Criterion list \<Rightarrow> jdict \<Rightarrow> (py_exc, QualificationResult) res" where
  "score_from_rubric criteria capture =
     (let found = filter (\<lambda>c. is_present (dget (cr_key c) capture)) criteria;
          earned = sum_list (map cr_weight found);
          score = py_round_quotient (earned * 100) (total_weight criteria) in
      rbind (categorize score) (\<lambda>category. Inr
        \<lparr>qr_score = score, qr_category = category,
         qr_evidence = map (\<lambda>c. (cr_key c, dget (cr_key c) capture)) found,
         qr_reasons = concat (map (criterion_reasons capture) criteria),
         qr_missing = map cr_key (filter (\<lambda>c. \<not> is_present (dget (cr_key c) capture)) criteria),
         qr_by = ''rule'', qr_degraded = False, qr_review = R_PENDING\<rparr>))"

definition degraded_result :: "string \<Rightarrow> (py_exc, QualificationResult) res" where
  "degraded_result why =
     rbind (categorize NEUTRAL_DEGRADED_SCORE) (\<lambda>category. Inr
       \<lparr>qr_score = NEUTRAL_DEGRADED_SCORE, qr_category = category, qr_evidence = [], qr_reasons = [Unavailable why],
        qr_missing = [], qr_by = ''rule'', qr_degraded = True, qr_review = R_PENDING\<rparr>)"

definition reviewed :: "ReviewState \<Rightarrow> int option \<Rightarrow> QualificationResult \<Rightarrow> (py_exc, int \<times> string \<times> reason list) res" where
  "reviewed state edited_score result =
     (case state of
        R_EDITED \<Rightarrow> (case edited_score of None \<Rightarrow> Inl ValueError
                    | Some s \<Rightarrow> Inr (s, ''manual'', qr_reasons result @ [Edited_to s]))
      | R_REJECTED \<Rightarrow> Inr (qr_score result, ''manual'', qr_reasons result @ [Rejected_by_reviewer])
      | _ \<Rightarrow> Inr (qr_score result, qr_by result, qr_reasons result))"

definition apply_human_decision :: "QualificationResult \<Rightarrow> string \<Rightarrow> int option \<Rightarrow> string option \<Rightarrow> (py_exc, QualificationResult) res" where
  "apply_human_decision result decision edited_score remark =
     (case ReviewState_of decision of
        None \<Rightarrow> Inl ValueError
      | Some state \<Rightarrow> rbind (reviewed state edited_score result) (\<lambda>(score, by, reasons).
          rbind (categorize score) (\<lambda>category. Inr (result\<lparr>qr_score := score, qr_category := category,
            qr_reasons := reasons @ (case remark of None \<Rightarrow> [] | Some t \<Rightarrow> if t = [] then [] else [Reviewer_note t]),
            qr_by := by, qr_review := state\<rparr>))))"

section \<open>Rounding\<close>

lemma round_half_even_mono:
  assumes "d > 0" and "n \<le> m" shows "round_half_even n d \<le> round_half_even m d"
proof (cases "n div d = m div d")
  case True
  moreover have "n mod d \<le> m mod d" using assms(2) True by (metis mult_div_mod_eq add_le_cancel_left)
  ultimately show ?thesis by (auto simp: round_half_even_def Let_def)
next
  case False
  then have "n div d + 1 \<le> m div d" using zdiv_mono1 [OF assms(2,1)] by linarith
  then show ?thesis by (auto simp: round_half_even_def Let_def)
qed

lemma round_half_even_mult: "d > 0 \<Longrightarrow> round_half_even (k * d) d = k"
  by (simp add: round_half_even_def)

lemma categorize_Inr: "categorize s = Inr c \<longleftrightarrow> 0 \<le> s \<and> s \<le> 100 \<and>
    c = (if s \<ge> 80 then HOT else if s \<ge> 40 then WARM else COLD)"
  by (auto simp: categorize_def HOT_THRESHOLD_def WARM_THRESHOLD_def)

section \<open>Scores\<close>

definition earned_weight :: "Criterion list \<Rightarrow> jdict \<Rightarrow> int" where
  "earned_weight criteria capture = sum_list (map cr_weight (filter (\<lambda>c. is_present (dget (cr_key c) capture)) criteria))"

definition weights_ok :: "Criterion list \<Rightarrow> bool" where
  "weights_ok criteria \<longleftrightarrow> list_all (\<lambda>c. 0 \<le> cr_weight c) criteria"

lemma total_weight_pos: "weights_ok criteria \<Longrightarrow> 0 < total_weight criteria"
  using sum_list_nonneg_int [of criteria cr_weight]
  by (auto simp: total_weight_def weights_ok_def list_all_iff Let_def less_le)

lemma earned_bounds: "weights_ok criteria \<Longrightarrow> 0 \<le> earned_weight criteria capture \<and> earned_weight criteria capture \<le> total_weight criteria"
proof -
  assume w: "weights_ok criteria"
  then have "0 \<le> earned_weight criteria capture"
    unfolding earned_weight_def by (intro sum_list_nonneg_int) (auto simp: weights_ok_def list_all_iff)
  moreover have "earned_weight criteria capture \<le> sum_list (map cr_weight criteria)"
    unfolding earned_weight_def using w by (intro sum_list_filter_le) (auto simp: weights_ok_def list_all_iff)
  ultimately show ?thesis by (auto simp: total_weight_def Let_def)
qed

lemma rubric_score:
  assumes "weights_ok criteria"
  shows "\<exists>r. score_from_rubric criteria capture = Inr r \<and> 0 \<le> qr_score r \<and> qr_score r \<le> 100
    \<and> qr_score r = round_half_even (earned_weight criteria capture * 100) (total_weight criteria)"
proof -
  let ?s = "round_half_even (earned_weight criteria capture * 100) (total_weight criteria)"
  note d = total_weight_pos [OF assms] and e = earned_bounds [OF assms, of capture]
  have "?s \<le> round_half_even (100 * total_weight criteria) (total_weight criteria)"
    using e by (intro round_half_even_mono [OF d]) simp
  then have "?s \<le> 100" by (simp add: round_half_even_mult [OF d])
  moreover have "round_half_even (0 * total_weight criteria) (total_weight criteria) \<le> ?s"
    using e by (intro round_half_even_mono [OF d]) simp
  then have "0 \<le> ?s" using round_half_even_mult [OF d, of 0] by simp
  ultimately show ?thesis using d
    by (auto simp: score_from_rubric_def Let_def earned_weight_def [symmetric] py_round_quotient_def categorize_def rbind_def)
qed

lemma earned_mono:
  assumes "weights_ok criteria" and "\<And>c. c \<in> set criteria \<Longrightarrow> is_present (dget (cr_key c) capture) \<Longrightarrow> is_present (dget (cr_key c) capture')"
  shows "earned_weight criteria capture \<le> earned_weight criteria capture'"
  using assms by (induction criteria) (auto simp: earned_weight_def weights_ok_def)

lemma rubric_fields: "score_from_rubric criteria capture = Inr r \<Longrightarrow>
    qr_category r = (if qr_score r \<ge> 80 then HOT else if qr_score r \<ge> 40 then WARM else COLD)
    \<and> set (qr_missing r) = {cr_key c | c. c \<in> set criteria \<and> \<not> is_present (dget (cr_key c) capture)}"
  by (auto simp: score_from_rubric_def Let_def rbind_eq_Inr categorize_Inr)

text \<open>With weights that are not negative the rubric always produces a score between 0 and 100, banded at 40 and 80; the
  missing fields are exactly those without a value; and filling in more of the capture never lowers the score.\<close>

theorem rubric_scoring:
  assumes "weights_ok criteria"
    and "list_all (\<lambda>c. is_present (dget (cr_key c) capture) \<longrightarrow> is_present (dget (cr_key c) capture')) criteria"
  shows "\<exists>r r'. score_from_rubric criteria capture = Inr r \<and> score_from_rubric criteria capture' = Inr r'
    \<and> 0 \<le> qr_score r \<and> qr_score r \<le> qr_score r' \<and> qr_score r' \<le> 100
    \<and> qr_category r = (if qr_score r \<ge> 80 then HOT else if qr_score r \<ge> 40 then WARM else COLD)
    \<and> set (qr_missing r) = {cr_key c | c. c \<in> set criteria \<and> \<not> is_present (dget (cr_key c) capture)}"
proof -
  obtain r r' where r: "score_from_rubric criteria capture = Inr r" "0 \<le> qr_score r"
      "qr_score r = round_half_even (earned_weight criteria capture * 100) (total_weight criteria)"
    and r': "score_from_rubric criteria capture' = Inr r'" "qr_score r' \<le> 100"
      "qr_score r' = round_half_even (earned_weight criteria capture' * 100) (total_weight criteria)"
    using rubric_score [OF assms(1), of capture] rubric_score [OF assms(1), of capture'] by blast
  have "earned_weight criteria capture \<le> earned_weight criteria capture'"
    using assms by (intro earned_mono) (auto simp: list_all_iff)
  then have "qr_score r \<le> qr_score r'"
    unfolding r(3) r'(3) by (intro round_half_even_mono total_weight_pos assms(1)) simp
  then show ?thesis using r r' rubric_fields [OF r(1)] by blast
qed

definition sample_rubric :: "Criterion list" where
  "sample_rubric = [\<lparr>cr_key = ''budget'', cr_label = ''Budget'', cr_weight = 50, cr_required = True\<rparr>,
     \<lparr>cr_key = ''city'', cr_label = ''City'', cr_weight = 25, cr_required = False\<rparr>,
     \<lparr>cr_key = ''timeline'', cr_label = ''Timeline'', cr_weight = 25, cr_required = False\<rparr>]"

theorem rubric_scoring_witness:
  "\<exists>r r'. score_from_rubric sample_rubric [(''city'', JStr ''Pune'')] = Inr r
    \<and> score_from_rubric sample_rubric [(''city'', JStr ''Pune''), (''budget'', JInt 0)] = Inr r'
    \<and> 0 \<le> qr_score r \<and> qr_score r \<le> qr_score r' \<and> qr_score r' \<le> 100"
proof -
  have w: "weights_ok sample_rubric" by code_simp
  have more_filled: "list_all (\<lambda>c. is_present (dget (cr_key c) [(''city'', JStr ''Pune'')])
      \<longrightarrow> is_present (dget (cr_key c) [(''city'', JStr ''Pune''), (''budget'', JInt 0)])) sample_rubric" by code_simp
  show ?thesis using rubric_scoring [OF w more_filled] by (elim exE conjE) (intro exI conjI)
qed

text \<open>A reviewer's decision keeps the score within its bounds, and only an edit changes it.\<close>

lemma ReviewState_of_Some: "ReviewState_of v = Some s \<Longrightarrow> v = ReviewState_value s"
  unfolding ReviewState_of_def by (drule find_Some_split) (elim exE conjE, simp)

lemma reviewed_score: "reviewed state edited result = Inr (s, by, rs) \<Longrightarrow> state \<noteq> R_EDITED \<Longrightarrow> s = qr_score result"
  by (auto simp: reviewed_def split: ReviewState.splits)

lemma human_decision_score:
  assumes "apply_human_decision result decision edited remark = Inr r"
  shows "0 \<le> qr_score r \<and> qr_score r \<le> 100 \<and> (decision \<noteq> ''edited'' \<longrightarrow> qr_score r = qr_score result)"
proof -
  obtain state s by' rs c where st: "ReviewState_of decision = Some state" "reviewed state edited result = Inr (s, by', rs)"
      "categorize s = Inr c" "qr_score r = s"
    using assms by (auto simp: apply_human_decision_def rbind_eq_Inr split: option.splits)
  moreover have "state = R_EDITED \<Longrightarrow> decision = ''edited''"
    using ReviewState_of_Some [OF st(1)] by (simp add: ReviewState_value_def)
  ultimately show ?thesis using reviewed_score [OF st(2)] by (auto simp: categorize_Inr)
qed

end
