(* ===== verification/First_Response.thy ===== *)
theory First_Response
  imports Prelude
begin

text \<open>
  \<^verbatim>\<open>domain/leads/first_response.py\<close>: the single rule that decides whether a recorded contact answers a prospect.
  Channels, directions and outcomes are text, as they arrive from the timeline and from providers.
\<close>

definition CUSTOMER_CONTACT_CHANNELS :: "string list" where
  "CUSTOMER_CONTACT_CHANNELS = [''call'', ''email'', ''whatsapp'', ''meeting'', ''sms'', ''webchat'']"

definition INTERNAL_ONLY_CHANNELS :: "string list" where
  "INTERNAL_ONLY_CHANNELS = [''note'', ''task'', ''status_change'', ''system'']"

definition OUTBOUND :: string where "OUTBOUND = ''outbound''"
definition INBOUND :: string where "INBOUND = ''inbound''"
definition DIRECTIONS :: "string list" where "DIRECTIONS = [OUTBOUND, INBOUND]"

definition ENGAGED_OUTCOMES :: "string list" where
  "ENGAGED_OUTCOMES = [''spoke'', ''meeting_held'', ''sent'']"

definition UNENGAGED_OUTCOMES :: "string list" where
  "UNENGAGED_OUTCOMES = [''no_answer'', ''meeting_scheduled'', ''received'', ''failed'', ''cancelled'', ''no_show'']"

definition OUTCOMES :: "string list" where "OUTCOMES = ENGAGED_OUTCOMES @ UNENGAGED_OUTCOMES"

definition OUTCOMES_BY_CHANNEL :: "(string, string list) adict" where
  "OUTCOMES_BY_CHANNEL =
     [(''call'', [''spoke'', ''no_answer'']),
      (''meeting'', [''meeting_held'', ''meeting_scheduled'', ''cancelled'', ''no_show'']),
      (''email'', [''sent'', ''received'', ''failed'']),
      (''whatsapp'', [''sent'', ''received'', ''failed'']),
      (''sms'', [''sent'', ''received'', ''failed'']),
      (''webchat'', [''sent'', ''received'', ''failed''])]"

definition INBOUND_ENGAGED_OUTCOMES :: "string list" where
  "INBOUND_ENGAGED_OUTCOMES = [''spoke'', ''meeting_held'']"

lemmas outcome_tables = CUSTOMER_CONTACT_CHANNELS_def INTERNAL_ONLY_CHANNELS_def OUTBOUND_def INBOUND_def DIRECTIONS_def
  ENGAGED_OUTCOMES_def UNENGAGED_OUTCOMES_def OUTCOMES_def OUTCOMES_BY_CHANNEL_def INBOUND_ENGAGED_OUTCOMES_def

definition is_customer_contact :: "string \<Rightarrow> bool" where
  "is_customer_contact channel \<longleftrightarrow> channel \<in> set CUSTOMER_CONTACT_CHANNELS"

definition is_valid_outcome :: "string \<Rightarrow> string \<Rightarrow> bool" where
  "is_valid_outcome channel outcome \<longleftrightarrow>
     (case map_of OUTCOMES_BY_CHANNEL channel of None \<Rightarrow> False | Some outcomes \<Rightarrow> outcome \<in> set outcomes)"

definition qualifies_as_first_response :: "string \<Rightarrow> string \<Rightarrow> string option \<Rightarrow> bool" where
  "qualifies_as_first_response channel direction outcome =
     (if \<not> is_customer_contact channel then False
      else if direction \<notin> set DIRECTIONS then False
      else case outcome of
        None \<Rightarrow> direction = OUTBOUND
      | Some o' \<Rightarrow>
          if o' \<notin> set OUTCOMES then False
          else if o' \<in> set UNENGAGED_OUTCOMES then False
          else if direction = OUTBOUND then True
          else o' \<in> set INBOUND_ENGAGED_OUTCOMES)"

definition default_direction :: string where "default_direction = OUTBOUND"

text \<open>Internal channels never count, and supplying an outcome can only make an outbound contact count less.\<close>

lemma internal_never_qualifies: "channel \<in> set INTERNAL_ONLY_CHANNELS \<Longrightarrow> \<not> qualifies_as_first_response channel direction outcome"
  by (auto simp: qualifies_as_first_response_def is_customer_contact_def outcome_tables)

lemma outcome_only_restricts:
  "qualifies_as_first_response channel OUTBOUND (Some outcome) \<Longrightarrow> qualifies_as_first_response channel OUTBOUND None"
  by (auto simp: qualifies_as_first_response_def outcome_tables split: if_splits)

lemma inbound_needs_conversation:
  "qualifies_as_first_response channel INBOUND outcome \<Longrightarrow> outcome \<in> {Some ''spoke'', Some ''meeting_held''}"
  by (auto simp: qualifies_as_first_response_def outcome_tables split: if_splits option.splits)

end
