(* ===== verification/Tables.thy ===== *)
theory Tables
  imports Prelude
begin

text \<open>
  Database tables as lists of rows in insertion order. A query for one row is \<open>row_at\<close>, an update through
  the ORM is \<open>set_row\<close> (the row with the same key is replaced), an insert with \<^verbatim>\<open>on_conflict_do_nothing\<close> is
  \<open>add_row\<close>. The lemmas say what a lookup returns after each of them and what stays of the key column.
\<close>

definition row_at :: "('r \<Rightarrow> 'k) \<Rightarrow> 'k \<Rightarrow> 'r list \<Rightarrow> 'r option" where
  "row_at key k rows = List.find (\<lambda>r. key r = k) rows"

definition set_row :: "('r \<Rightarrow> 'k) \<Rightarrow> 'r \<Rightarrow> 'r list \<Rightarrow> 'r list" where
  "set_row key r rows = map (\<lambda>x. if key x = key r then r else x) rows"

definition add_row :: "('r \<Rightarrow> 'k) \<Rightarrow> 'r \<Rightarrow> 'r list \<Rightarrow> 'r list" where
  "add_row key r rows = (if row_at key (key r) rows = None then rows @ [r] else rows)"

lemma row_at_Some: "row_at key k rows = Some r \<Longrightarrow> r \<in> set rows \<and> key r = k"
  unfolding row_at_def by (auto simp: find_Some_iff)

lemma row_at_None: "row_at key k rows = None \<longleftrightarrow> k \<notin> key ` set rows"
  unfolding row_at_def by (auto simp: find_None_iff)

lemma row_at_append: "row_at key k (rows @ [r]) =
    (case row_at key k rows of None \<Rightarrow> if key r = k then Some r else None | Some x \<Rightarrow> Some x)"
  by (induction rows) (auto simp: row_at_def)

lemma row_at_set_row: "row_at key k (set_row key r rows) =
    (if k = key r then (case row_at key k rows of None \<Rightarrow> None | Some _ \<Rightarrow> Some r) else row_at key k rows)"
  by (induction rows) (auto simp: row_at_def set_row_def split: option.splits)

lemma row_at_add_row: "row_at key k (add_row key r rows) =
    (case row_at key k rows of None \<Rightarrow> if key r = k then Some r else None | Some x \<Rightarrow> Some x)"
  by (auto simp: add_row_def row_at_append split: option.splits)

lemma keys_set_row [simp]: "map key (set_row key r rows) = map key rows"
  by (simp add: set_row_def)

lemma set_row_cases: "x \<in> set (set_row key r rows) \<Longrightarrow> x = r \<or> x \<in> set rows \<and> key x \<noteq> key r"
  by (auto simp: set_row_def split: if_splits)

lemma set_row_new: "key r \<in> key ` set rows \<Longrightarrow> r \<in> set (set_row key r rows)"
  by (auto simp: set_row_def)

lemma set_row_old: "x \<in> set rows \<Longrightarrow> key x \<noteq> key r \<Longrightarrow> x \<in> set (set_row key r rows)"
  by (auto simp: set_row_def)

lemma length_set_row [simp]: "length (set_row key r rows) = length rows"
  by (simp add: set_row_def)

lemma distinct_add_row: "distinct (map key rows) \<Longrightarrow> distinct (map key (add_row key r rows))"
  by (auto simp: add_row_def row_at_None)

lemma set_add_row: "set (add_row key r rows) = (if row_at key (key r) rows = None then insert r (set rows) else set rows)"
  by (auto simp: add_row_def)

lemma row_at_unique: "distinct (map key rows) \<Longrightarrow> r \<in> set rows \<Longrightarrow> row_at key (key r) rows = Some r"
  by (induction rows) (auto simp: row_at_def image_iff)

lemma row_at_iff: "distinct (map key rows) \<Longrightarrow> row_at key k rows = Some r \<longleftrightarrow> r \<in> set rows \<and> key r = k"
  using row_at_unique row_at_Some by metis

lemma set_row_same: "row_at key (key r) rows = Some r \<Longrightarrow> distinct (map key rows) \<Longrightarrow> set_row key r rows = rows"
  unfolding set_row_def by (rule map_idI) (metis row_at_unique option.inject)

end
