(* ===== verification/Shared_Canonical.thy ===== *)
theory Shared_Canonical
  imports Py_Json "HOL-Library.Multiset"
begin

text \<open>
  \<^verbatim>\<open>shared/utils/text.py\<close>: \<^verbatim>\<open>canonical_json\<close> and \<^verbatim>\<open>content_hash\<close>, which pin a workflow version to
  its document. Latin-1 text is already in normal form C, so \<^verbatim>\<open>nfc\<close> is the identity on it. The
  digest itself is the argument \<open>sha256_hex\<close> (\<^verbatim>\<open>hashlib\<close>).
\<close>

fun norm_json :: "json \<Rightarrow> json" where
  "norm_json (JDict d) = JDict (sort_key fst (map (\<lambda>(k, v). (k, norm_json v)) d))"
| "norm_json (JList xs) = JList (map norm_json xs)"
| "norm_json (JFloat m k) = (if m mod 10 ^ k = 0 then JInt (m div 10 ^ k) else JFloat m k)"
| "norm_json JNull = JNull"
| "norm_json (JBool b) = JBool b"
| "norm_json (JInt i) = JInt i"
| "norm_json (JStr s) = JStr s"

definition json_char :: "char \<Rightarrow> string" where
  "json_char c =
     (if c = CHR 0x22 \<or> c = CHR 0x5C then [CHR 0x5C, c]
      else if code c = 8 then [CHR 0x5C, CHR ''b'']
      else if code c = 9 then [CHR 0x5C, CHR ''t'']
      else if code c = 10 then [CHR 0x5C, CHR ''n'']
      else if code c = 12 then [CHR 0x5C, CHR ''f'']
      else if code c = 13 then [CHR 0x5C, CHR ''r'']
      else if code c < 32 then [CHR 0x5C] @ ''u00'' @ [hex_digit (code c div 16), hex_digit (code c mod 16)]
      else [c])"

definition json_string :: "string \<Rightarrow> string" where
  "json_string s = [CHR 0x22] @ concat (map json_char s) @ [CHR 0x22]"

fun join_comma :: "string list \<Rightarrow> string" where
  "join_comma [] = []"
| "join_comma [s] = s"
| "join_comma (s # ss) = s @ '','' @ join_comma ss"

fun json_dumps :: "json \<Rightarrow> string" where
  "json_dumps JNull = ''null''"
| "json_dumps (JBool b) = (if b then ''true'' else ''false'')"
| "json_dumps (JInt i) = show_int i"
| "json_dumps (JFloat m k) = float_str m k"
| "json_dumps (JStr s) = json_string s"
| "json_dumps (JList xs) = ''['' @ join_comma (map json_dumps xs) @ '']''"
| "json_dumps (JDict d) = ''{'' @ join_comma (map (\<lambda>(k, v). json_string k @ '':'' @ json_dumps v) d) @ ''}''"

definition canonical_json :: "json \<Rightarrow> string" where
  "canonical_json value = json_dumps (norm_json value)"

definition content_hash :: "(string \<Rightarrow> string) \<Rightarrow> json \<Rightarrow> string" where
  "content_hash sha256_hex value = sha256_hex (canonical_json value)"

text \<open>Two spellings of the same document: keys in another order, an integral float as an integer, at any depth.\<close>

inductive respelled :: "json \<Rightarrow> json \<Rightarrow> bool" where
  respelled_refl: "respelled a a"
| respelled_trans: "respelled a b \<Longrightarrow> respelled b c \<Longrightarrow> respelled a c"
| respelled_keys: "mset d = mset e \<Longrightarrow> distinct (map fst d) \<Longrightarrow> respelled (JDict d) (JDict e)"
| respelled_value: "respelled a b \<Longrightarrow> respelled (JDict (xs @ (k, a) # ys)) (JDict (xs @ (k, b) # ys))"
| respelled_elem: "respelled a b \<Longrightarrow> respelled (JList (xs @ a # ys)) (JList (xs @ b # ys))"
| respelled_float: "respelled (JFloat (i * 10 ^ k) k) (JInt i)"

lemma norm_json_respelled: "respelled a b \<Longrightarrow> norm_json a = norm_json b"
proof (induction rule: respelled.induct)
  case (respelled_keys d e)
  let ?n = "map (\<lambda>(k, v). (k, norm_json v))"
  have fst_n: "map fst (?n d) = map fst d" by (simp add: case_prod_beta comp_def)
  then have "inj_on fst (set (?n d))" using respelled_keys(2) by (metis distinct_map)
  moreover have "mset (?n d) = mset (sort_key fst (?n e))" using respelled_keys(1) by simp
  ultimately have "sort_key fst (?n d) = sort_key fst (?n e)"
    by (intro sort_key_inj_key_eq) simp_all
  then show ?case by simp
qed simp_all

text \<open>The canonical text of a document, and with it the content hash that pins a workflow version,
  does not depend on the order in which the keys of its objects were written nor on whether an
  integral number was spelled as a float, at any depth of the document.\<close>

theorem content_hash_stable:
  assumes "respelled doc doc'"
  shows "content_hash sha256_hex doc = content_hash sha256_hex doc'"
  using norm_json_respelled [OF assms] by (simp add: content_hash_def canonical_json_def)

theorem content_hash_stable_witness:
  "content_hash id (JDict [(''b'', JFloat 20 1), (''a'', JNull)])
     = content_hash id (JDict [(''a'', JNull), (''b'', JFloat 20 1)])"
  by (rule content_hash_stable, rule respelled_keys) simp_all

end
