(* ===== verification/Idempotency.thy ===== *)
theory Idempotency
  imports Tables Shared_Canonical
begin

text \<open>
  \<^verbatim>\<open>application/idempotency.py\<close>: durable idempotency of mutations. A reservation is a row that commits together with
  the mutation it guards and carries the response. The advisory lock serialises requests with the same key, so a
  request is one transaction; when the guarded operation raises, the reservation is rolled back with it.
\<close>

record idem_row =
  id_tenant :: string
  id_scope :: string
  id_key :: string
  id_hash :: string
  id_status :: int
  id_body :: jdict
  id_state :: string
  id_created :: instant
  id_expires :: instant

text \<open>\<^verbatim>\<open>UniqueConstraint("tenant_id", "scope", "idempotency_key")\<close>.\<close>

definition idem_slot :: "idem_row \<Rightarrow> string \<times> string \<times> string" where
  "idem_slot r = (id_tenant r, id_scope r, id_key r)"

datatype idem_error = Key_required | Key_too_long | Key_reused | Still_processing

definition hash_payload :: "(string \<Rightarrow> string) \<Rightarrow> json \<Rightarrow> string" where
  "hash_payload sha256_hex payload = sha256_hex (canonical_json payload)"

text \<open>What a reservation is: a stored response to replay, or a fresh row.\<close>

datatype reservation = Replay jdict | Reserved idem_row

definition reserve_idempotency :: "instant \<Rightarrow> string \<Rightarrow> string \<Rightarrow> string option \<Rightarrow> string \<Rightarrow> idem_row list
    \<Rightarrow> (idem_error, reservation) res" where
  "reserve_idempotency now tenant scope key request_hash rows =
     (let normalized = py_strip (case key of None \<Rightarrow> [] | Some k \<Rightarrow> k) in
      if normalized = [] then Inl Key_required
      else if length normalized > 200 then Inl Key_too_long
      else case row_at idem_slot (tenant, scope, normalized) rows of
        Some existing \<Rightarrow>
          if id_hash existing \<noteq> request_hash then Inl Key_reused
          else if id_state existing = ''completed'' then Inr (Replay (id_body existing))
          else Inl Still_processing
      | None \<Rightarrow> Inr (Reserved
          \<lparr>id_tenant = tenant, id_scope = scope, id_key = normalized, id_hash = request_hash, id_status = 0, id_body = [],
           id_state = ''in_progress'', id_created = now, id_expires = now + hours 24\<rparr>))"

definition complete :: "int \<Rightarrow> jdict \<Rightarrow> idem_row \<Rightarrow> idem_row" where
  "complete status body r = r\<lparr>id_status := status, id_body := body, id_state := ''completed''\<rparr>"

text \<open>
  The shape of every guarded service: reserve, run the operation on the business state, store its response. The state
  and the reservations commit together or not at all.
\<close>

definition guarded :: "instant \<Rightarrow> string \<Rightarrow> string \<Rightarrow> string option \<Rightarrow> string
    \<Rightarrow> ('s \<Rightarrow> ('e, 's \<times> jdict) res) \<Rightarrow> 's \<times> idem_row list \<Rightarrow> ('s \<times> idem_row list) \<times> (idem_error + 'e, jdict) res" where
  "guarded now tenant scope key request_hash operation st =
     (case reserve_idempotency now tenant scope key request_hash (snd st) of
        Inl err \<Rightarrow> (st, Inl (Inl err))
      | Inr (Replay body) \<Rightarrow> (st, Inr body)
      | Inr (Reserved r) \<Rightarrow>
          (case operation (fst st) of
             Inl err \<Rightarrow> (st, Inl (Inr err))
           | Inr (s', body) \<Rightarrow> ((s', snd st @ [complete 200 body r]), Inr body)))"

section \<open>The first answer is the only one\<close>

definition key_text :: "string option \<Rightarrow> string" where
  "key_text key = py_strip (case key of None \<Rightarrow> [] | Some k \<Rightarrow> k)"

lemma complete_simps [simp]:
  "idem_slot (complete status body r) = idem_slot r" "id_state (complete status body r) = ''completed''"
  "id_hash (complete status body r) = id_hash r" "id_body (complete status body r) = body"
  by (simp_all add: complete_def idem_slot_def)

lemma reserve_fresh: "reserve_idempotency now tenant scope key h rows = Inr (Reserved r) \<Longrightarrow>
    row_at idem_slot (tenant, scope, key_text key) rows = None \<and> idem_slot r = (tenant, scope, key_text key) \<and> id_hash r = h
      \<and> key_text key \<noteq> [] \<and> length (key_text key) \<le> 200"
  by (auto simp: reserve_idempotency_def key_text_def Let_def idem_slot_def split: if_splits option.splits)

lemma guarded_answered:
  "guarded now tenant scope key h operation st = (st', Inr body) \<Longrightarrow>
     \<exists>r. row_at idem_slot (tenant, scope, key_text key) (snd st') = Some r \<and> id_state r = ''completed'' \<and> id_hash r = h
       \<and> id_body r = body \<and> key_text key \<noteq> [] \<and> length (key_text key) \<le> 200"
  unfolding guarded_def
  by (auto simp: row_at_append dest!: reserve_fresh split: sum.splits reservation.splits)
    (auto simp: reserve_idempotency_def key_text_def Let_def split: if_splits option.splits)

lemma guarded_keeps_row:
  assumes "guarded now tenant scope key h operation st = (st', res)" and "row_at idem_slot k (snd st) = Some r"
  shows "row_at idem_slot k (snd st') = Some r"
  using assms by (auto simp: guarded_def row_at_append split: sum.splits reservation.splits)

lemma guarded_replay:
  assumes "row_at idem_slot (tenant, scope, key_text key) (snd st) = Some r" "id_state r = ''completed''"
    and "key_text key \<noteq> []" "length (key_text key) \<le> 200"
  shows "guarded now tenant scope key h operation st = (st, if id_hash r = h then Inr (id_body r) else Inl (Inl Key_reused))"
  using assms by (simp add: guarded_def reserve_idempotency_def key_text_def Let_def)

end
