(* ===== verification/Permissions.thy ===== *)
theory Permissions
  imports Prelude
begin

text \<open>
  \<^verbatim>\<open>domain/auth/permissions.py\<close>: the permission catalogue, the built-in role matrix, scopes and the
  validation of custom roles. Permission sets are lists read through \<open>set\<close>; the role tables are the
  source's, one entry per resource.
\<close>

section \<open>Catalogue\<close>

datatype Role = OWNER | ADMIN | MANAGER | MEMBER | VIEWER | SUPPORT
datatype Scope = GLOBAL | BRANCH | TEAM | SELF

definition RESOURCES :: "string list" where
  "RESOURCES = [''tenant'', ''billing'', ''subscription'', ''user'', ''role'', ''branch'', ''team'', ''contact'',
     ''account'', ''lead'', ''deal'', ''pipeline'', ''task'', ''note'', ''activity'', ''tag'',
     ''custom_field'', ''saved_view'', ''form'', ''import'', ''export'', ''conversation'', ''message'', ''channel'',
     ''message_template'', ''consent'', ''appointment'', ''appointment_type'', ''resource'', ''document'', ''document_template'', ''file'',
     ''signature'', ''payment'', ''invoice'', ''payment_link'', ''workflow'', ''approval'', ''analytics'', ''report'',
     ''ai'', ''prompt'', ''api_key'', ''webhook'', ''integration'', ''audit_log'', ''privacy_request'', ''notification'',
     ''support_access'']"

definition ACTIONS :: "string list" where
  "ACTIONS = [''create'', ''read'', ''update'', ''delete'', ''list'', ''export'', ''assign'', ''merge'',
     ''approve'', ''execute'', ''configure'', ''publish'', ''transfer'', ''impersonate'', ''send'', ''refund'']"

definition perm :: "string \<Rightarrow> string \<Rightarrow> string" where
  "perm resource action = resource @ '':'' @ action"

definition ALL_PERMISSIONS :: "string list" where
  "ALL_PERMISSIONS = concat (map (\<lambda>r. map (perm r) ACTIONS) RESOURCES)"

definition CRUD :: "string list" where "CRUD = [''create'', ''read'', ''update'', ''delete'', ''list'']"
definition RU :: "string list" where "RU = [''read'', ''list'']"
definition LOG :: "string list" where "LOG = [''create'', ''read'', ''list'']"

definition expand :: "(string \<times> string list) list \<Rightarrow> string list" where
  "expand spec = concat (map (\<lambda>(r, actions). map (perm r) actions) spec)"

definition OWNER_ONLY :: "string list" where
  "OWNER_ONLY = [perm ''tenant'' ''delete'', perm ''tenant'' ''transfer'', perm ''billing'' ''configure'',
     perm ''subscription'' ''delete'', perm ''payment'' ''configure'', perm ''support_access'' ''approve'']"

definition SENSITIVE_PERMISSIONS :: "string list" where
  "SENSITIVE_PERMISSIONS = OWNER_ONLY @ [perm ''payment'' ''refund'', perm ''export'' ''create'', perm ''form'' ''publish'', perm ''api_key'' ''create'',
     perm ''user'' ''impersonate'', perm ''audit_log'' ''export'', perm ''privacy_request'' ''delete'', perm ''tenant'' ''configure'']"

definition OWNER_PERMS :: "string list" where
  "OWNER_PERMS = filter (\<lambda>p. p \<noteq> perm ''user'' ''impersonate'') ALL_PERMISSIONS"

definition ADMIN_SPEC :: "(string \<times> string list) list" where
  "ADMIN_SPEC = [(''tenant'', [''read'', ''update'', ''configure'']), (''billing'', [''read'']), (''subscription'', [''read'', ''update'']),
     (''user'', CRUD @ [''assign'']), (''role'', CRUD), (''branch'', CRUD),
     (''team'', CRUD), (''contact'', CRUD @ [''assign'', ''merge'', ''export'']), (''account'', CRUD @ [''merge'', ''export'']),
     (''lead'', CRUD @ [''assign'', ''merge'', ''export'']), (''deal'', CRUD @ [''assign'', ''export'']), (''pipeline'', CRUD),
     (''task'', CRUD @ [''assign'']), (''note'', CRUD), (''activity'', LOG),
     (''tag'', CRUD), (''custom_field'', CRUD), (''saved_view'', CRUD),
     (''form'', CRUD @ [''publish'']), (''import'', LOG), (''export'', LOG),
     (''conversation'', CRUD @ [''assign'', ''send'']), (''message'', [''create'', ''read'', ''list'', ''send'']), (''channel'', CRUD @ [''configure'']),
     (''message_template'', CRUD), (''consent'', [''create'', ''read'', ''list'', ''update'']), (''appointment'', CRUD @ [''assign'']),
     (''appointment_type'', CRUD), (''resource'', CRUD), (''document'', CRUD @ [''send'']),
     (''document_template'', CRUD), (''file'', [''create'', ''read'', ''list'', ''delete'']), (''signature'', LOG),
     (''payment'', [''read'', ''list'', ''create'']), (''invoice'', CRUD), (''payment_link'', CRUD),
     (''workflow'', CRUD @ [''execute'']), (''approval'', [''read'', ''list'', ''approve'']), (''analytics'', [''read'', ''list'', ''export'']),
     (''report'', CRUD @ [''export'']), (''ai'', [''read'', ''execute'']), (''prompt'', RU),
     (''api_key'', [''create'', ''read'', ''list'', ''delete'']), (''webhook'', CRUD), (''integration'', CRUD @ [''configure'']),
     (''audit_log'', [''read'', ''list'', ''export'']), (''privacy_request'', LOG), (''notification'', [''read'', ''list'', ''update''])]"

definition MANAGER_SPEC :: "(string \<times> string list) list" where
  "MANAGER_SPEC = [(''tenant'', [''read'']), (''user'', RU), (''branch'', RU),
     (''team'', [''read'', ''list'', ''update'']), (''contact'', [''create'', ''read'', ''update'', ''list'', ''assign'', ''merge'', ''export'']), (''account'', [''create'', ''read'', ''update'', ''list'']),
     (''lead'', [''create'', ''read'', ''update'', ''list'', ''assign'', ''merge'', ''export'']), (''deal'', [''create'', ''read'', ''update'', ''list'', ''assign'', ''export'']), (''pipeline'', RU),
     (''task'', CRUD @ [''assign'']), (''note'', CRUD), (''activity'', LOG),
     (''tag'', LOG), (''custom_field'', RU), (''saved_view'', CRUD),
     (''form'', CRUD @ [''publish'']), (''import'', LOG), (''export'', LOG),
     (''conversation'', [''create'', ''read'', ''update'', ''list'', ''assign'', ''send'']), (''message'', [''create'', ''read'', ''list'', ''send'']), (''channel'', RU),
     (''message_template'', [''create'', ''read'', ''list'', ''update'']), (''consent'', LOG), (''appointment'', CRUD @ [''assign'']),
     (''appointment_type'', RU), (''resource'', RU), (''document'', [''create'', ''read'', ''update'', ''list'', ''send'']),
     (''document_template'', RU), (''file'', LOG), (''signature'', LOG),
     (''payment'', RU), (''invoice'', [''create'', ''read'', ''list'', ''update'']), (''payment_link'', LOG),
     (''workflow'', [''create'', ''read'', ''update'', ''list'', ''execute'']), (''approval'', [''read'', ''list'', ''approve'']), (''analytics'', [''read'', ''list'', ''export'']),
     (''report'', CRUD @ [''export'']), (''ai'', [''read'', ''execute'']), (''audit_log'', RU),
     (''notification'', [''read'', ''list'', ''update''])]"

definition MEMBER_SPEC :: "(string \<times> string list) list" where
  "MEMBER_SPEC = [(''tenant'', [''read'']), (''user'', [''read'']), (''contact'', [''create'', ''read'', ''update'', ''list'']),
     (''account'', RU), (''lead'', [''create'', ''read'', ''update'', ''list'']), (''deal'', [''create'', ''read'', ''update'', ''list'']),
     (''pipeline'', RU), (''task'', [''create'', ''read'', ''update'', ''list'']), (''note'', CRUD),
     (''activity'', LOG), (''tag'', RU), (''custom_field'', RU),
     (''saved_view'', CRUD), (''form'', RU), (''conversation'', [''read'', ''update'', ''list'', ''send'']),
     (''message'', [''create'', ''read'', ''list'', ''send'']), (''channel'', RU), (''consent'', RU),
     (''appointment'', [''create'', ''read'', ''update'', ''list'']), (''appointment_type'', RU), (''document'', LOG),
     (''document_template'', RU), (''file'', LOG), (''payment_link'', LOG),
     (''invoice'', RU), (''workflow'', [''read'', ''list'', ''execute'']), (''analytics'', [''read'']),
     (''report'', RU), (''ai'', [''read'', ''execute'']), (''notification'', [''read'', ''list'', ''update''])]"

definition VIEWER_SPEC :: "(string \<times> string list) list" where
  "VIEWER_SPEC = [(''tenant'', RU), (''user'', RU), (''branch'', RU),
     (''team'', RU), (''contact'', RU), (''account'', RU),
     (''lead'', RU), (''deal'', RU), (''pipeline'', RU),
     (''task'', RU), (''note'', RU), (''activity'', RU),
     (''tag'', RU), (''saved_view'', RU), (''form'', RU),
     (''conversation'', RU), (''message'', RU), (''channel'', RU),
     (''consent'', RU), (''appointment'', RU), (''document'', RU),
     (''payment'', RU), (''invoice'', RU), (''workflow'', RU),
     (''analytics'', RU), (''report'', RU), (''audit_log'', RU),
     (''notification'', RU)]"

definition SUPPORT_SPEC :: "(string \<times> string list) list" where
  "SUPPORT_SPEC = [(''tenant'', [''read'']), (''user'', RU), (''audit_log'', RU),
     (''conversation'', RU), (''lead'', RU), (''contact'', RU),
     (''workflow'', RU), (''payment'', RU), (''notification'', RU)]"

fun ROLE_PERMISSIONS :: "Role \<Rightarrow> string list" where
  "ROLE_PERMISSIONS OWNER = OWNER_PERMS"
| "ROLE_PERMISSIONS ADMIN = expand ADMIN_SPEC"
| "ROLE_PERMISSIONS MANAGER = expand MANAGER_SPEC"
| "ROLE_PERMISSIONS MEMBER = expand MEMBER_SPEC"
| "ROLE_PERMISSIONS VIEWER = expand VIEWER_SPEC"
| "ROLE_PERMISSIONS SUPPORT = expand SUPPORT_SPEC"

fun DEFAULT_ROLE_SCOPE :: "Role \<Rightarrow> Scope" where
  "DEFAULT_ROLE_SCOPE OWNER = GLOBAL"
| "DEFAULT_ROLE_SCOPE ADMIN = GLOBAL"
| "DEFAULT_ROLE_SCOPE MANAGER = TEAM"
| "DEFAULT_ROLE_SCOPE MEMBER = SELF"
| "DEFAULT_ROLE_SCOPE VIEWER = TEAM"
| "DEFAULT_ROLE_SCOPE SUPPORT = GLOBAL"

definition Role_of :: "string \<Rightarrow> Role option" where
  "Role_of v = map_of [(''owner'', OWNER), (''admin'', ADMIN), (''manager'', MANAGER), (''member'', MEMBER),
     (''viewer'', VIEWER), (''support'', SUPPORT)] v"

section \<open>Operations\<close>

text \<open>Roles may be given by name; an unknown name is a \<^verbatim>\<open>ValueError\<close>.\<close>

definition permissions_for :: "string list \<Rightarrow> (string, string list) res" where
  "permissions_for roles = rfold (\<lambda>granted raw. case Role_of raw of
      None \<Rightarrow> Inl raw | Some role \<Rightarrow> Inr (granted @ ROLE_PERMISSIONS role)) [] roles"

text \<open>The position in \<^verbatim>\<open>[SELF, TEAM, BRANCH, GLOBAL]\<close>.\<close>

fun scope_rank :: "Scope \<Rightarrow> nat" where
  "scope_rank SELF = 0" | "scope_rank TEAM = 1" | "scope_rank BRANCH = 2" | "scope_rank GLOBAL = 3"

definition widest_scope :: "string list \<Rightarrow> (string, Scope) res" where
  "widest_scope roles = rfold (\<lambda>best raw. case Role_of raw of
      None \<Rightarrow> Inl raw
    | Some role \<Rightarrow> Inr (if scope_rank (DEFAULT_ROLE_SCOPE role) > scope_rank best
                        then DEFAULT_ROLE_SCOPE role else best)) SELF roles"

definition allows :: "string list \<Rightarrow> string \<Rightarrow> string \<Rightarrow> bool" where
  "allows permissions resource action = (perm resource action \<in> set permissions)"

datatype custom_role_error = Unknown_permissions "string list" | Owner_only_permissions "string list" | Too_many

definition validate_custom_role :: "string list \<Rightarrow> nat \<Rightarrow> (custom_role_error, unit) res" where
  "validate_custom_role permissions max_permissions =
     (let unknown = filter (\<lambda>p. p \<notin> set ALL_PERMISSIONS) permissions;
          forbidden = filter (\<lambda>p. p \<in> set OWNER_ONLY) permissions
      in if unknown \<noteq> [] then Inl (Unknown_permissions (take 5 (sorted_set unknown)))
         else if forbidden \<noteq> [] then Inl (Owner_only_permissions (sorted_set forbidden))
         else if card (set permissions) > max_permissions then Inl Too_many
         else Inr ())"

section \<open>Comparing tables\<close>

text \<open>Inclusion of role tables, decided entry by entry.\<close>

definition spec_le :: "(string \<times> string list) list \<Rightarrow> (string \<times> string list) list \<Rightarrow> bool" where
  "spec_le s t = list_all (\<lambda>(r, as). list_all (\<lambda>a. list_ex (\<lambda>(r', as'). r = r' \<and> a \<in> set as') t) as) s"

definition spec_known :: "(string \<times> string list) list \<Rightarrow> bool" where
  "spec_known s = list_all (\<lambda>(r, as). r \<in> set RESOURCES \<and> list_all (\<lambda>a. a \<in> set ACTIONS) as) s"

lemma set_expand: "set (expand s) = {perm r a |r a. \<exists>as. (r, as) \<in> set s \<and> a \<in> set as}"
  by (fastforce simp: expand_def)

lemma spec_le_expand: "spec_le s t \<Longrightarrow> set (expand s) \<subseteq> set (expand t)"
  by (fastforce simp: spec_le_def list_all_iff list_ex_iff set_expand)

lemma set_ALL_PERMISSIONS: "set ALL_PERMISSIONS = {perm r a |r a. r \<in> set RESOURCES \<and> a \<in> set ACTIONS}"
  by (auto simp: ALL_PERMISSIONS_def)

lemma spec_known_expand: "spec_known s \<Longrightarrow> set (expand s) \<subseteq> set ALL_PERMISSIONS"
  by (fastforce simp: spec_known_def list_all_iff set_expand set_ALL_PERMISSIONS)

lemma specs_known:
  "spec_known ADMIN_SPEC" "spec_known MANAGER_SPEC" "spec_known MEMBER_SPEC" "spec_known VIEWER_SPEC" "spec_known SUPPORT_SPEC"
  by code_simp+

lemma role_tables_ordered:
  "spec_le MANAGER_SPEC ADMIN_SPEC" "spec_le MEMBER_SPEC MANAGER_SPEC" "spec_le SUPPORT_SPEC VIEWER_SPEC"
  by code_simp+

lemma impersonation_not_admin: "perm ''user'' ''impersonate'' \<notin> set (expand ADMIN_SPEC)" 
  "perm ''user'' ''impersonate'' \<notin> set (expand VIEWER_SPEC)"
  by code_simp+

lemma owner_only_disjoint:
  "list_all (\<lambda>p. p \<notin> set (expand ADMIN_SPEC)) OWNER_ONLY" "list_all (\<lambda>p. p \<notin> set (expand VIEWER_SPEC)) OWNER_ONLY"
  by code_simp+

lemma set_OWNER_PERMS: "set OWNER_PERMS = set ALL_PERMISSIONS - {perm ''user'' ''impersonate''}"
  by (auto simp: OWNER_PERMS_def)

lemma role_chain:
  "set (ROLE_PERMISSIONS MEMBER) \<subseteq> set (ROLE_PERMISSIONS MANAGER)"
  "set (ROLE_PERMISSIONS MANAGER) \<subseteq> set (ROLE_PERMISSIONS ADMIN)"
  "set (ROLE_PERMISSIONS SUPPORT) \<subseteq> set (ROLE_PERMISSIONS VIEWER)"
  "set (ROLE_PERMISSIONS ADMIN) \<subseteq> set (ROLE_PERMISSIONS OWNER)"
  "set (ROLE_PERMISSIONS VIEWER) \<subseteq> set (ROLE_PERMISSIONS OWNER)"
  unfolding ROLE_PERMISSIONS.simps set_OWNER_PERMS
  using spec_le_expand [OF role_tables_ordered(1)] spec_le_expand [OF role_tables_ordered(2)]
    spec_le_expand [OF role_tables_ordered(3)] spec_known_expand [OF specs_known(1)]
    spec_known_expand [OF specs_known(4)] impersonation_not_admin
  by blast+

lemma owner_only_outside:
  assumes "role \<noteq> OWNER" "p \<in> set OWNER_ONLY"
  shows "p \<notin> set (ROLE_PERMISSIONS role)"
proof -
  have "p \<notin> set (ROLE_PERMISSIONS ADMIN)" "p \<notin> set (ROLE_PERMISSIONS VIEWER)"
    using assms(2) owner_only_disjoint by (simp_all add: list_all_iff)
  with role_chain assms(1) show ?thesis by (cases role) blast+
qed

lemma permissions_for_set:
  assumes "permissions_for roles = Inr ps"
  shows "set ps = (\<Union>r\<in>set roles. case Role_of r of None \<Rightarrow> {} | Some role \<Rightarrow> set (ROLE_PERMISSIONS role))"
proof -
  have "set ps = set acc \<union> (\<Union>r\<in>set roles. case Role_of r of None \<Rightarrow> {} | Some role \<Rightarrow> set (ROLE_PERMISSIONS role))"
    if "rfold (\<lambda>granted raw. case Role_of raw of None \<Rightarrow> Inl raw | Some role \<Rightarrow> Inr (granted @ ROLE_PERMISSIONS role)) acc roles = Inr ps"
    for acc
    using that by (induction roles arbitrary: acc) (auto split: option.splits)
  with assms show ?thesis by (fastforce simp: permissions_for_def)
qed

section \<open>Properties\<close>

text \<open>The built-in roles form the intended order: support is included in viewer, member in manager, manager in admin,
  and everything in owner, while no role but owner holds any owner-only permission.\<close>

theorem role_matrix_ordered:
  "set (ROLE_PERMISSIONS SUPPORT) \<subseteq> set (ROLE_PERMISSIONS VIEWER)
   \<and> set (ROLE_PERMISSIONS MEMBER) \<subseteq> set (ROLE_PERMISSIONS MANAGER)
   \<and> set (ROLE_PERMISSIONS MANAGER) \<subseteq> set (ROLE_PERMISSIONS ADMIN)
   \<and> set (ROLE_PERMISSIONS role) \<subseteq> set (ROLE_PERMISSIONS OWNER)
   \<and> (role \<noteq> OWNER \<longrightarrow> set (ROLE_PERMISSIONS role) \<inter> set OWNER_ONLY = {})"
proof -
  have "set (ROLE_PERMISSIONS role) \<subseteq> set (ROLE_PERMISSIONS OWNER)" using role_chain by (cases role) blast+
  moreover have "role \<noteq> OWNER \<Longrightarrow> set (ROLE_PERMISSIONS role) \<inter> set OWNER_ONLY = {}" using owner_only_outside by blast
  ultimately show ?thesis using role_chain by blast
qed

theorem role_matrix_ordered_witness: "set (ROLE_PERMISSIONS ADMIN) \<inter> set OWNER_ONLY = {}"
  using role_matrix_ordered [of ADMIN] by blast

text \<open>An actor holds an owner-only permission only through the owner role, and a custom role that passes validation
  contains only catalogued permissions, none of them owner-only, within the cap.\<close>

theorem owner_only_not_delegated:
  assumes "permissions_for roles = Inr granted" and "validate_custom_role custom cap = Inr ()"
  shows "(set granted \<inter> set OWNER_ONLY \<noteq> {} \<longrightarrow> ''owner'' \<in> set roles)
    \<and> set custom \<subseteq> set ALL_PERMISSIONS \<and> set custom \<inter> set OWNER_ONLY = {} \<and> card (set custom) \<le> cap"
proof -
  have "''owner'' \<in> set roles" if p: "p \<in> set granted" "p \<in> set OWNER_ONLY" for p
  proof -
    from p(1) obtain r role where r: "r \<in> set roles" "Role_of r = Some role" "p \<in> set (ROLE_PERMISSIONS role)"
      by (auto simp: permissions_for_set [OF assms(1)] split: option.splits)
    with owner_only_outside p(2) have "role = OWNER" by blast
    with r show ?thesis by (auto simp: Role_of_def split: if_splits)
  qed
  moreover have "set custom \<subseteq> set ALL_PERMISSIONS \<and> set custom \<inter> set OWNER_ONLY = {} \<and> card (set custom) \<le> cap"
    using assms(2) by (auto simp: validate_custom_role_def Let_def filter_empty_conv split: if_splits)
  ultimately show ?thesis by blast
qed

theorem owner_only_not_delegated_witness:
  "set [''lead:read''] \<inter> set OWNER_ONLY = {} \<and> card (set [''lead:read'']) \<le> 200"
proof -
  have "Role_of ''viewer'' = Some VIEWER" by code_simp
  then have a: "permissions_for [''viewer''] = Inr (ROLE_PERMISSIONS VIEWER)"
    by (simp add: permissions_for_def del: ROLE_PERMISSIONS.simps)
  have p: "''lead:read'' = perm ''lead'' ''read''" by (simp add: perm_def)
  have all: "''lead:read'' \<in> set ALL_PERMISSIONS"
  proof -
    have "''lead'' \<in> set RESOURCES" "''read'' \<in> set ACTIONS" by code_simp+
    then show ?thesis unfolding p set_ALL_PERMISSIONS by blast
  qed
  have "''lead:read'' \<notin> set OWNER_ONLY" by code_simp
  with all have "validate_custom_role [''lead:read''] 200 = Inr ()" by (simp add: validate_custom_role_def)
  from owner_only_not_delegated [OF a this] show ?thesis by blast
qed

text \<open>The effective scope of an actor is the widest default scope among the assigned roles, and \<^verbatim>\<open>self\<close> without any.\<close>

theorem widest_scope_is_maximum:
  assumes "widest_scope roles = Inr s"
  shows "(\<forall>r\<in>set roles. \<forall>role. Role_of r = Some role \<longrightarrow> scope_rank (DEFAULT_ROLE_SCOPE role) \<le> scope_rank s)
    \<and> (s = SELF \<or> (\<exists>r\<in>set roles. \<exists>role. Role_of r = Some role \<and> DEFAULT_ROLE_SCOPE role = s))"
proof -
  have "(\<forall>r\<in>set roles. \<forall>role. Role_of r = Some role \<longrightarrow> scope_rank (DEFAULT_ROLE_SCOPE role) \<le> scope_rank s)
      \<and> scope_rank b \<le> scope_rank s
      \<and> (s = b \<or> (\<exists>r\<in>set roles. \<exists>role. Role_of r = Some role \<and> DEFAULT_ROLE_SCOPE role = s))"
    if "rfold (\<lambda>best raw. case Role_of raw of None \<Rightarrow> Inl raw | Some role \<Rightarrow>
        Inr (if scope_rank (DEFAULT_ROLE_SCOPE role) > scope_rank best then DEFAULT_ROLE_SCOPE role else best)) b roles = Inr s" for b
    using that
  proof (induction roles arbitrary: b)
    case (Cons r rs)
    then obtain role where role: "Role_of r = Some role" by (auto split: option.splits)
    from Cons.IH [of "if scope_rank (DEFAULT_ROLE_SCOPE role) > scope_rank b then DEFAULT_ROLE_SCOPE role else b"]
      Cons.prems role show ?case by (auto split: if_splits)
  qed simp
  from this [of SELF] assms show ?thesis by (auto simp: widest_scope_def)
qed

theorem widest_scope_is_maximum_witness:
  "widest_scope [''member'', ''manager''] = Inr TEAM \<and> scope_rank (DEFAULT_ROLE_SCOPE MANAGER) \<le> scope_rank TEAM"
proof -
  have w: "widest_scope [''member'', ''manager''] = Inr TEAM" by code_simp
  from widest_scope_is_maximum [OF this] show ?thesis using w by (simp add: Role_of_def)
qed

end
