(* ===== verification/Repository.thy ===== *)
theory Repository
  imports Permissions Tables Py_Json
begin

text \<open>
  \<^verbatim>\<open>infrastructure/database/repositories/base.py\<close>: object reads under tenant and role scope, and optimistic
  concurrency. A model is described by the scoping columns it carries: \<open>None\<close> when it lacks the column,
  \<open>Some None\<close> when the value is null. Audit and outbox rows are shared by the services that use it.
\<close>

record EffectivePermissions =
  ep_permissions :: "string list"
  ep_scope :: Scope
  ep_branch_ids :: "string list"
  ep_team_ids :: "string list"
  ep_user_id :: "string option"

record scope_columns =
  co_branch :: "string option option"
  co_team :: "string option option"
  co_assignee :: "string option option"

text \<open>\<^verbatim>\<open>_apply_scope\<close>: without the column the query is not narrowed; with it, no identifiers mean no rows.\<close>

definition column_in :: "string list \<Rightarrow> string option option \<Rightarrow> bool" where
  "column_in ids col = (case col of None \<Rightarrow> True | Some None \<Rightarrow> False | Some (Some i) \<Rightarrow> i \<in> set ids)"

definition in_scope :: "EffectivePermissions \<Rightarrow> scope_columns \<Rightarrow> bool" where
  "in_scope perms c = (case ep_scope perms of
      GLOBAL \<Rightarrow> True
    | BRANCH \<Rightarrow> column_in (ep_branch_ids perms) (co_branch c)
    | TEAM \<Rightarrow> column_in (ep_team_ids perms) (co_team c)
    | SELF \<Rightarrow> column_in (case ep_user_id perms of None \<Rightarrow> [] | Some u \<Rightarrow> if u = [] then [] else [u]) (co_assignee c))"

text \<open>What a repository reads of a row of its model.\<close>

record 'r model =
  mo_id :: "'r \<Rightarrow> string"
  mo_tenant :: "'r \<Rightarrow> string"
  mo_deleted :: "'r \<Rightarrow> bool"
  mo_scope :: "'r \<Rightarrow> scope_columns"

definition visible :: "'r model \<Rightarrow> string \<Rightarrow> EffectivePermissions \<Rightarrow> 'r \<Rightarrow> bool" where
  "visible m tenant perms r \<longleftrightarrow> mo_tenant m r = tenant \<and> \<not> mo_deleted m r \<and> in_scope perms (mo_scope m r)"

definition get_scoped :: "'r model \<Rightarrow> string \<Rightarrow> EffectivePermissions \<Rightarrow> string \<Rightarrow> 'r list \<Rightarrow> 'r option" where
  "get_scoped m tenant perms i rows = List.find (\<lambda>r. mo_id m r = i \<and> visible m tenant perms r) rows"

definition bump_version :: "int \<Rightarrow> int option \<Rightarrow> (int, int) res" where
  "bump_version current expected =
     (case expected of None \<Rightarrow> Inr (current + 1) | Some e \<Rightarrow> if e \<noteq> current then Inl current else Inr (current + 1))"

text \<open>The principal a service acts for (\<^verbatim>\<open>_PrincipalScoped\<close>, \<^verbatim>\<open>LeadService.for_principal\<close>).\<close>

record actor =
  ac_tenant :: string
  ac_user :: string
  ac_perms :: EffectivePermissions

text \<open>
  Rows of the audit log and of the outbox, as far as the services choose their content: the values of an audit row are
  those handed to the recorder, before it redacts them.
\<close>

record event_row =
  er_type :: string
  er_tenant :: string
  er_resource :: string
  er_actor :: string
  er_data :: jdict

definition opt_json :: "string option \<Rightarrow> json" where
  "opt_json s = (case s of None \<Rightarrow> JNull | Some t \<Rightarrow> JStr t)"

definition event_of :: "actor \<Rightarrow> string \<Rightarrow> string \<Rightarrow> jdict \<Rightarrow> event_row" where
  "event_of a kind resource data =
     \<lparr>er_type = kind, er_tenant = ac_tenant a, er_resource = resource, er_actor = ac_user a, er_data = data\<rparr>"

lemma get_scoped_Some: "get_scoped m tenant perms i rows = Some r \<Longrightarrow>
    r \<in> set rows \<and> mo_id m r = i \<and> mo_tenant m r = tenant \<and> \<not> mo_deleted m r \<and> in_scope perms (mo_scope m r)"
  by (auto simp: get_scoped_def find_Some_iff visible_def)

lemma bump_version_Inr: "bump_version v e = Inr v' \<longleftrightarrow> v' = v + 1 \<and> (e = None \<or> e = Some v)"
  by (auto simp: bump_version_def split: option.splits if_splits)

end
