(* ===== verification/Lead_Service.thy ===== *)
theory Lead_Service
  imports Lead_Lifecycle Lead_Qualification First_Response Idempotency Repository
begin

text \<open>
  \<^verbatim>\<open>application/leads/service.py\<close>, \<^verbatim>\<open>application/leads/lifecycle_ops.py\<close> and \<^verbatim>\<open>application/leads/first_response.py\<close> over the
  tables of \<^verbatim>\<open>models/leads.py\<close>. Every operation is one transaction. A result pairs the tables after it with what the
  caller receives, because \<^verbatim>\<open>capture\<close> reads the lead back after its commit and may answer with an error then. Column
  lengths are not modelled. Times are instants where the source stores or prints a timestamp.
\<close>

section \<open>Tables\<close>

record Lead =
  ld_id :: string
  ld_tenant :: string
  ld_first_name :: string
  ld_last_name :: "string option"
  ld_email :: "string option"
  ld_phone :: "string option"
  ld_source :: string
  ld_source_channel :: "string option"
  ld_capture :: jdict
  ld_utm :: jdict
  ld_score :: "int option"
  ld_category :: "string option"
  ld_qualified_by :: "string option"
  ld_qualified_at :: "instant option"
  ld_reviewer_state :: "string option"
  ld_status :: string
  ld_disqualify_reason :: "string option"
  ld_assignee :: "string option"
  ld_branch :: "string option"
  ld_team :: "string option"
  ld_dedupe_key :: "string option"
  ld_contact :: "string option"
  ld_converted_at :: "instant option"
  ld_merged_into :: "string option"
  ld_first_response :: "instant option"
  ld_deleted_at :: "instant option"
  ld_version :: int
  ld_created_by :: string
  ld_updated_by :: "string option"

record LeadSourceEvent =
  se_tenant :: string
  se_source :: string
  se_key :: string
  se_lead :: "string option"
  se_dedupe_key :: "string option"
  se_outcome :: string
  se_duplicate_of :: "string option"

record contact_row =
  ct_id :: string
  ct_tenant :: string
  ct_first_name :: string
  ct_last_name :: "string option"
  ct_email :: "string option"
  ct_phone :: "string option"
  ct_source :: string
  ct_custom_fields :: jdict
  ct_assignee :: "string option"
  ct_branch :: "string option"
  ct_created_by :: string
  ct_version :: int
  ct_deleted_at :: "instant option"

record candidate_row =
  dc_tenant :: string
  dc_lead :: string
  dc_candidate :: string
  dc_reason :: match_reason
  dc_confidence :: rat
  dc_resolution :: string
  dc_resolved_by :: "string option"

record lead_db =
  lb_leads :: "Lead list"
  lb_source_events :: "LeadSourceEvent list"
  lb_contacts :: "contact_row list"
  lb_candidates :: "candidate_row list"
  lb_idempotency :: "idem_row list"
  lb_audit :: "event_row list"
  lb_outbox :: "event_row list"

definition lead_model :: "Lead model" where
  "lead_model = \<lparr>mo_id = ld_id, mo_tenant = ld_tenant, mo_deleted = (\<lambda>r. ld_deleted_at r \<noteq> None),
     mo_scope = (\<lambda>r. \<lparr>co_branch = Some (ld_branch r), co_team = Some (ld_team r), co_assignee = Some (ld_assignee r)\<rparr>)\<rparr>"

datatype lead_fault =
    Lead_not_found
  | First_name_missing
  | Event_repeated
  | Bad_move lead_error
  | Stale_version int
  | Check_violated
  | May_not_update
  | May_not_assign
  | Some_not_found int int
  | Idempotency_refused idem_error
  | Py_error py_exc
  | Self_merge
  | Loser_converted
  | Survivor_merged_away
  | Weak_reason
  | Was_converted
  | Was_merged
  | Already_open
  | Contact_refused

type_synonym 'a lead_outcome = "lead_db \<times> (lead_fault, 'a) res"

definition audit_lead :: "event_row \<Rightarrow> lead_db \<Rightarrow> lead_db" where
  "audit_lead e db = db\<lparr>lb_audit := lb_audit db @ [e]\<rparr>"

definition emit_lead :: "event_row \<Rightarrow> lead_db \<Rightarrow> lead_db" where
  "emit_lead e db = db\<lparr>lb_outbox := lb_outbox db @ [e]\<rparr>"

definition put_lead :: "Lead \<Rightarrow> lead_db \<Rightarrow> lead_db" where
  "put_lead r db = db\<lparr>lb_leads := set_row ld_id r (lb_leads db)\<rparr>"

definition scoped_lead :: "actor \<Rightarrow> string \<Rightarrow> lead_db \<Rightarrow> Lead option" where
  "scoped_lead a i db = get_scoped lead_model (ac_tenant a) (ac_perms a) i (lb_leads db)"

section \<open>Capture\<close>

record lead_payload =
  lp_first_name :: "string option"
  lp_last_name :: "string option"
  lp_email :: "string option"
  lp_phone :: "string option"
  lp_source :: "string option"
  lp_source_channel :: "string option"
  lp_capture :: jdict
  lp_utm :: jdict
  lp_assignee :: "string option"
  lp_branch :: "string option"
  lp_team :: "string option"

text \<open>\<^verbatim>\<open>_own_team_id\<close>, \<^verbatim>\<open>_own_branch_id\<close>: the only member of the set, if there is exactly one.\<close>

definition only_one :: "string list \<Rightarrow> string option" where
  "only_one ids = (case remdups ids of [i] \<Rightarrow> Some i | _ \<Rightarrow> None)"

definition or_else :: "string option \<Rightarrow> string option \<Rightarrow> string option" where
  "or_else a b = (case a of None \<Rightarrow> b | Some _ \<Rightarrow> a)"

definition new_lead :: "actor \<Rightarrow> string \<Rightarrow> lead_payload \<Rightarrow> string \<Rightarrow> Lead" where
  "new_lead a i p first_name =
     \<lparr>ld_id = i, ld_tenant = ac_tenant a, ld_first_name = first_name, ld_last_name = lp_last_name p, ld_email = lp_email p,
      ld_phone = lp_phone p, ld_source = (case lp_source p of None \<Rightarrow> ''manual'' | Some s \<Rightarrow> s), ld_source_channel = lp_source_channel p,
      ld_capture = lp_capture p, ld_utm = lp_utm p, ld_score = None, ld_category = None, ld_qualified_by = None, ld_qualified_at = None,
      ld_reviewer_state = None, ld_status = ''new'', ld_disqualify_reason = None,
      ld_assignee = or_else (lp_assignee p) (Some (ac_user a)),
      ld_branch = or_else (lp_branch p) (only_one (ep_branch_ids (ac_perms a))),
      ld_team = or_else (lp_team p) (only_one (ep_team_ids (ac_perms a))),
      ld_dedupe_key = dedupe_key (lp_email p) (lp_phone p) (lp_first_name p), ld_contact = None, ld_converted_at = None,
      ld_merged_into = None, ld_first_response = None, ld_deleted_at = None, ld_version = 1, ld_created_by = ac_user a,
      ld_updated_by = None\<rparr>"

definition event_slot :: "LeadSourceEvent \<Rightarrow> string \<times> string \<times> string" where
  "event_slot e = (se_tenant e, se_source e, se_key e)"

definition source_event :: "Lead \<Rightarrow> string option \<Rightarrow> LeadSourceEvent" where
  "source_event r key = \<lparr>se_tenant = ld_tenant r, se_source = ld_source r,
     se_key = (case key of None \<Rightarrow> ld_id r | Some k \<Rightarrow> if k = [] then ld_id r else k), se_lead = Some (ld_id r),
     se_dedupe_key = ld_dedupe_key r, se_outcome = ''created'', se_duplicate_of = None\<rparr>"

definition capture :: "actor \<Rightarrow> string \<Rightarrow> lead_payload \<Rightarrow> string option \<Rightarrow> lead_db \<Rightarrow> Lead lead_outcome" where
  "capture a fresh p key db =
     (case lp_first_name p of
        None \<Rightarrow> (db, Inl First_name_missing)
      | Some first_name \<Rightarrow>
          let r = new_lead a fresh p first_name; e = source_event r key in
          if event_slot e \<in> event_slot ` set (lb_source_events db) then (db, Inl Event_repeated)
          else
            let db' =
              emit_lead (event_of a ''lead.created'' fresh [(''source'', JStr (ld_source r)), (''dedupe_key'', opt_json (ld_dedupe_key r))])
              (audit_lead (event_of a ''lead.create'' fresh [(''source'', JStr (ld_source r)), (''status'', JStr (ld_status r)),
                  (''assignee_id'', opt_json (ld_assignee r))])
              (db\<lparr>lb_leads := lb_leads db @ [r], lb_source_events := lb_source_events db @ [e]\<rparr>))
            in (db', case scoped_lead a fresh db' of None \<Rightarrow> Inl Lead_not_found | Some l \<Rightarrow> Inr l))"

section \<open>Update\<close>

text \<open>The changes of \<^verbatim>\<open>LeadUpdate\<close> (\<^verbatim>\<open>api/v1/schemas.py\<close>): the fields the client sent, each perhaps null.\<close>

datatype lead_change =
    Set_first_name "string option"
  | Set_last_name "string option"
  | Set_status "string option"
  | Set_assignee "string option"
  | Set_capture "jdict option"
  | Set_disqualify_reason "string option"

definition change_field :: "lead_change \<Rightarrow> string" where
  "change_field c = (case c of Set_first_name _ \<Rightarrow> ''first_name'' | Set_last_name _ \<Rightarrow> ''last_name'' | Set_status _ \<Rightarrow> ''status''
     | Set_assignee _ \<Rightarrow> ''assignee_id'' | Set_capture _ \<Rightarrow> ''capture'' | Set_disqualify_reason _ \<Rightarrow> ''disqualify_reason'')"

definition status_change :: "lead_change list \<Rightarrow> string option" where
  "status_change changes = (case List.find (\<lambda>c. change_field c = ''status'') changes of Some (Set_status v) \<Rightarrow> v | _ \<Rightarrow> None)"

definition reason_change :: "lead_change list \<Rightarrow> string option" where
  "reason_change changes = (case List.find (\<lambda>c. change_field c = ''disqualify_reason'') changes of
      Some (Set_disqualify_reason v) \<Rightarrow> v | _ \<Rightarrow> None)"

text \<open>\<^verbatim>\<open>setattr\<close> for the values that are not null.\<close>

definition apply_change :: "Lead \<Rightarrow> lead_change \<Rightarrow> Lead" where
  "apply_change r c =
     (case c of
        Set_first_name (Some v) \<Rightarrow> r\<lparr>ld_first_name := v\<rparr>
      | Set_last_name (Some v) \<Rightarrow> r\<lparr>ld_last_name := Some v\<rparr>
      | Set_status (Some v) \<Rightarrow> r\<lparr>ld_status := v\<rparr>
      | Set_assignee (Some v) \<Rightarrow> r\<lparr>ld_assignee := Some v\<rparr>
      | Set_capture (Some v) \<Rightarrow> r\<lparr>ld_capture := v\<rparr>
      | Set_disqualify_reason (Some v) \<Rightarrow> r\<lparr>ld_disqualify_reason := Some v\<rparr>
      | _ \<Rightarrow> r)"

definition moved :: "Lead \<Rightarrow> string option \<Rightarrow> string option \<Rightarrow> (lead_fault, unit) res" where
  "moved r target reason = (case target of
      None \<Rightarrow> Inr ()
    | Some t \<Rightarrow> if t = [] then Inr () else
        (case assert_transition (ld_status r) t reason of Inl err \<Rightarrow> Inl (Bad_move err) | Inr _ \<Rightarrow> Inr ()))"

definition bumped :: "Lead \<Rightarrow> int option \<Rightarrow> (lead_fault, Lead) res" where
  "bumped r expected = (case bump_version (ld_version r) expected of
      Inl v \<Rightarrow> Inl (Stale_version v) | Inr v \<Rightarrow> Inr (r\<lparr>ld_version := v\<rparr>))"

text \<open>The constraint \<^verbatim>\<open>status_valid\<close> refuses any other status at the commit.\<close>

definition LEAD_STATUSES :: "string list" where
  "LEAD_STATUSES = [''new'', ''qualified'', ''contacted'', ''nurturing'', ''converted'', ''disqualified'', ''archived'']"

text \<open>The columns that \<^verbatim>\<open>_serialize\<close> exposes and an update may change, and their difference for the audit row.\<close>

definition lead_columns :: "Lead \<Rightarrow> jdict" where
  "lead_columns r = [(''first_name'', JStr (ld_first_name r)), (''last_name'', opt_json (ld_last_name r)), (''status'', JStr (ld_status r)),
     (''capture'', JDict (ld_capture r)), (''assignee_id'', opt_json (ld_assignee r)), (''version'', JInt (ld_version r))]"

definition diff_for_audit :: "string list \<Rightarrow> jdict \<Rightarrow> jdict \<Rightarrow> jdict" where
  "diff_for_audit names old_values new_values =
     map (\<lambda>k. (k, dget k new_values)) (filter (\<lambda>k. \<not> py_eq (dget k old_values) (dget k new_values)) names)"

definition updated_lead :: "actor \<Rightarrow> lead_change list \<Rightarrow> int option \<Rightarrow> Lead \<Rightarrow> (lead_fault, Lead) res" where
  "updated_lead a changes expected r =
     rbind (moved r (status_change changes) (reason_change changes)) (\<lambda>_.
     rbind (bumped (foldl apply_change r changes) expected) (\<lambda>r'.
       if ld_status r' \<in> set LEAD_STATUSES then Inr (r'\<lparr>ld_updated_by := Some (ac_user a)\<rparr>) else Inl Check_violated))"

definition update_lead :: "actor \<Rightarrow> string \<Rightarrow> lead_change list \<Rightarrow> int option \<Rightarrow> lead_db \<Rightarrow> Lead lead_outcome" where
  "update_lead a i changes expected db =
     (case scoped_lead a i db of
        None \<Rightarrow> (db, Inl Lead_not_found)
      | Some r \<Rightarrow>
          (case updated_lead a changes expected r of
             Inl err \<Rightarrow> (db, Inl err)
           | Inr r' \<Rightarrow>
               (emit_lead (event_of a ''lead.updated'' i [(''changed'', JList (map JStr (sorted_set (map change_field changes))))])
                (audit_lead (event_of a ''lead.update'' i
                   (diff_for_audit (sorted_set (''version'' # map change_field changes)) (lead_columns r) (lead_columns r')))
                (put_lead r' db)), Inr r')))"

section \<open>Bulk update\<close>

text \<open>A key that is absent from the changes is \<open>None\<close>; a null assignee is \<open>Some None\<close>.\<close>

record bulk_changes =
  bc_status :: "string option option"
  bc_assignee :: "string option option"
  bc_reason :: "string option option"

definition bulk_fields :: "bulk_changes \<Rightarrow> string list" where
  "bulk_fields c = (if bc_assignee c = None then [] else [''assignee_id'']) @ (if bc_status c = None then [] else [''status''])"

definition bulk_request :: "string list \<Rightarrow> bulk_changes \<Rightarrow> json" where
  "bulk_request ids c = JDict [(''lead_ids'', JList (map JStr ids)),
     (''changes'', JDict ((case bc_status c of None \<Rightarrow> [] | Some v \<Rightarrow> [(''status'', opt_json v)])
       @ (case bc_assignee c of None \<Rightarrow> [] | Some v \<Rightarrow> [(''assignee_id'', opt_json v)])
       @ (case bc_reason c of None \<Rightarrow> [] | Some v \<Rightarrow> [(''disqualify_reason'', opt_json v)])))]"

definition bulk_target :: "bulk_changes \<Rightarrow> string option" where
  "bulk_target c = (case bc_status c of None \<Rightarrow> None | Some v \<Rightarrow> v)"

text \<open>One row of the loop: the row after it, and whether it changed.\<close>

definition bulk_status :: "bulk_changes \<Rightarrow> Lead \<Rightarrow> (lead_fault, Lead) res" where
  "bulk_status c r = (case bulk_target c of
      None \<Rightarrow> Inr r
    | Some t \<Rightarrow> (case assert_transition (ld_status r) t (case bc_reason c of None \<Rightarrow> None | Some v \<Rightarrow> v) of
        Inl err \<Rightarrow> Inl (Bad_move err) | Inr _ \<Rightarrow> Inr (r\<lparr>ld_status := t\<rparr>)))"

definition bulk_assign :: "bulk_changes \<Rightarrow> Lead \<Rightarrow> Lead" where
  "bulk_assign c r = (case bc_assignee c of None \<Rightarrow> r | Some v \<Rightarrow> r\<lparr>ld_assignee := v\<rparr>)"

definition bulk_row :: "bulk_changes \<Rightarrow> Lead \<Rightarrow> (lead_fault, Lead \<times> bool) res" where
  "bulk_row c r = rbind (bulk_status c r) (\<lambda>r1. let r2 = bulk_assign c r1
     in Inr (r2, ld_status r2 \<noteq> ld_status r \<or> ld_assignee r2 \<noteq> ld_assignee r))"

definition bulk_step :: "actor \<Rightarrow> string \<Rightarrow> bulk_changes \<Rightarrow> lead_db \<times> string list \<Rightarrow> Lead \<Rightarrow> (lead_fault, lead_db \<times> string list) res" where
  "bulk_step a operation c st r =
     rbind (bulk_row c r) (\<lambda>(r', changed).
       if changed then Inr (
         emit_lead (event_of a ''lead.updated'' (ld_id r)
             [(''changed'', JList (map JStr (bulk_fields c))), (''bulk_operation_id'', JStr operation)])
           (put_lead (r'\<lparr>ld_version := ld_version r + 1, ld_updated_by := Some (ac_user a)\<rparr>) (fst st)), snd st @ [ld_id r])
       else Inr st)"

definition bulk_rows :: "actor \<Rightarrow> string list \<Rightarrow> lead_db \<Rightarrow> Lead list" where
  "bulk_rows a ids db = sort_key ld_id (filter (\<lambda>r. ld_id r \<in> set ids \<and> visible lead_model (ac_tenant a) (ac_perms a) r) (lb_leads db))"

text \<open>The operation that the reservation guards; the summary in the audit row and in the event.\<close>

definition bulk_operation :: "actor \<Rightarrow> string \<Rightarrow> string list \<Rightarrow> bulk_changes \<Rightarrow> lead_db \<Rightarrow> (lead_fault, lead_db \<times> jdict) res" where
  "bulk_operation a operation ids c db =
     (let rows = bulk_rows a ids db in
      if length rows \<noteq> length ids then Inl (Some_not_found (int (length ids)) (int (length rows)))
      else rbind (rfold (bulk_step a operation c) (db, []) rows) (\<lambda>(db', changed).
        let summary = [(''requested_count'', JInt (int (length ids))), (''changed_count'', JInt (int (length changed))),
                       (''changed_fields'', JList (map JStr (bulk_fields c)))] in
        Inr (emit_lead (event_of a ''bulk.operation.completed'' operation summary)
              (audit_lead (event_of a ''bulk.operation'' operation ((''status'', JStr ''completed'') # summary)) db'),
             [(''operation_id'', JStr operation), (''status'', JStr ''completed''), (''requested_count'', JInt (int (length ids))),
              (''changed_count'', JInt (int (length changed))), (''changed_lead_ids'', JList (map JStr changed)),
              (''changed_fields'', JList (map JStr (bulk_fields c)))])))"

definition bulk_update :: "(string \<Rightarrow> string) \<Rightarrow> instant \<Rightarrow> actor \<Rightarrow> string \<Rightarrow> string list \<Rightarrow> bulk_changes \<Rightarrow> string option
    \<Rightarrow> lead_db \<Rightarrow> jdict lead_outcome" where
  "bulk_update sha256_hex now a operation lead_ids c key db =
     (if ''lead:update'' \<notin> set (ep_permissions (ac_perms a)) then (db, Inl May_not_update)
      else if bc_assignee c \<noteq> None \<and> ''lead:assign'' \<notin> set (ep_permissions (ac_perms a)) then (db, Inl May_not_assign)
      else
        let ids = sorted_set lead_ids in
        case guarded now (ac_tenant a) ''lead.bulk.update'' key (hash_payload sha256_hex (bulk_request ids c))
               (bulk_operation a operation ids c) (db, lb_idempotency db) of
          ((db', rows), result) \<Rightarrow> (db'\<lparr>lb_idempotency := rows\<rparr>,
             case result of Inr body \<Rightarrow> Inr body | Inl (Inl err) \<Rightarrow> Inl (Idempotency_refused err) | Inl (Inr err) \<Rightarrow> Inl err))"

section \<open>Qualification\<close>

definition persist_qualification :: "instant \<Rightarrow> actor \<Rightarrow> string \<Rightarrow> QualificationResult \<Rightarrow> string \<Rightarrow> lead_db \<Rightarrow> QualificationResult lead_outcome" where
  "persist_qualification now a i q audit_action db =
     (case scoped_lead a i db of
        None \<Rightarrow> (db, Inl Lead_not_found)
      | Some r \<Rightarrow>
          let r' = r\<lparr>ld_score := Some (qr_score q), ld_category := Some (Category_value (qr_category q)), ld_qualified_by := Some (qr_by q),
                     ld_qualified_at := Some now, ld_reviewer_state := Some (ReviewState_value (qr_review q)), ld_version := ld_version r + 1\<rparr> in
          (emit_lead (event_of a ''lead.qualified'' i [(''score'', JInt (qr_score q)), (''category'', JStr (Category_value (qr_category q))),
              (''degraded'', JBool (qr_degraded q))])
           (audit_lead (event_of a audit_action i [(''qualification_score'', JInt (qr_score q)),
              (''category'', JStr (Category_value (qr_category q))), (''reviewer_state'', JStr (ReviewState_value (qr_review q))),
              (''qualified_by'', JStr (qr_by q)), (''degraded'', JBool (qr_degraded q))])
           (put_lead r' db)), Inr q))"

text \<open>
  What the AI gateway answers: the prompt is not promoted, the call failed for a reason, or a structured answer with its
  score (as \<^verbatim>\<open>int()\<close> reads it) and reasons.
\<close>

datatype ai_answer = No_prompt | Ai_failed string | Ai_scored int "string list"

definition qualify_with_ai :: "ai_answer \<Rightarrow> Criterion list \<Rightarrow> jdict \<Rightarrow> (py_exc, QualificationResult) res" where
  "qualify_with_ai answer criteria capture_data =
     (case answer of
        No_prompt \<Rightarrow> rbind (score_from_rubric criteria capture_data) (\<lambda>q.
          Inr (q\<lparr>qr_reasons := qr_reasons q @ [Prompt_not_promoted], qr_by := ''rule'', qr_degraded := True, qr_review := R_PENDING\<rparr>))
      | Ai_failed why \<Rightarrow> rbind (score_from_rubric criteria capture_data) (\<lambda>q. rbind (degraded_result why) (\<lambda>d.
          Inr (q\<lparr>qr_reasons := qr_reasons q @ qr_reasons d, qr_by := ''rule'', qr_degraded := True, qr_review := R_PENDING\<rparr>)))
      | Ai_scored score reasons \<Rightarrow> rbind (categorize score) (\<lambda>category.
          Inr \<lparr>qr_score = score, qr_category = category, qr_evidence = [], qr_reasons = map Ai_reason reasons, qr_missing = [],
               qr_by = ''ai'', qr_degraded = False, qr_review = R_PENDING\<rparr>))"

datatype qualify_mode = Rule_mode | Manual_mode | Ai_mode

definition qualification_of :: "qualify_mode \<Rightarrow> int option \<Rightarrow> string option \<Rightarrow> ai_answer \<Rightarrow> Criterion list \<Rightarrow> jdict
    \<Rightarrow> (py_exc, QualificationResult) res" where
  "qualification_of mode manual_score remarks answer criteria capture_data =
     (case mode of
        Manual_mode \<Rightarrow> (case manual_score of None \<Rightarrow> Inl ValueError
          | Some s \<Rightarrow> rbind (score_from_rubric criteria capture_data) (\<lambda>q. apply_human_decision q ''edited'' (Some s) remarks))
      | Ai_mode \<Rightarrow> qualify_with_ai answer criteria capture_data
      | Rule_mode \<Rightarrow> score_from_rubric criteria capture_data)"

definition qualify :: "instant \<Rightarrow> actor \<Rightarrow> Criterion list \<Rightarrow> ai_answer \<Rightarrow> string \<Rightarrow> qualify_mode \<Rightarrow> int option \<Rightarrow> string option
    \<Rightarrow> lead_db \<Rightarrow> QualificationResult lead_outcome" where
  "qualify now a criteria answer i mode manual_score remarks db =
     (case scoped_lead a i db of
        None \<Rightarrow> (db, Inl Lead_not_found)
      | Some r \<Rightarrow>
          (case qualification_of mode manual_score remarks answer criteria (ld_capture r) of
             Inl err \<Rightarrow> (db, Inl (Py_error err))
           | Inr q \<Rightarrow> persist_qualification now a i q ''lead.qualify'' db))"

definition review_qualification :: "instant \<Rightarrow> actor \<Rightarrow> Criterion list \<Rightarrow> string \<Rightarrow> string \<Rightarrow> int option \<Rightarrow> string option
    \<Rightarrow> lead_db \<Rightarrow> QualificationResult lead_outcome" where
  "review_qualification now a criteria i decision edited_score remark db =
     (case scoped_lead a i db of
        None \<Rightarrow> (db, Inl Lead_not_found)
      | Some r \<Rightarrow>
          (case rbind (score_from_rubric criteria (ld_capture r)) (\<lambda>base. apply_human_decision base decision edited_score remark) of
             Inl err \<Rightarrow> (db, Inl (Py_error err))
           | Inr q \<Rightarrow> persist_qualification now a i q ''lead.qualification_review'' db))"

section \<open>Conversion\<close>

definition new_contact :: "actor \<Rightarrow> string \<Rightarrow> Lead \<Rightarrow> contact_row" where
  "new_contact a contact r =
     \<lparr>ct_id = contact, ct_tenant = ac_tenant a, ct_first_name = ld_first_name r, ct_last_name = ld_last_name r, ct_email = ld_email r,
      ct_phone = ld_phone r, ct_source = ld_source r, ct_custom_fields = ld_capture r, ct_assignee = ld_assignee r,
      ct_branch = ld_branch r, ct_created_by = ac_user a, ct_version = 1, ct_deleted_at = None\<rparr>"

text \<open>The check \<^verbatim>\<open>email_or_phone\<close> and the unique index \<^verbatim>\<open>uq_contacts_tenant_email_active\<close>, at the commit of a new contact.\<close>

definition contact_accepted :: "contact_row \<Rightarrow> contact_row list \<Rightarrow> bool" where
  "contact_accepted c rows \<longleftrightarrow> (ct_email c \<noteq> None \<or> ct_phone c \<noteq> None)
     \<and> (ct_email c = None \<or> \<not> list_ex (\<lambda>x. ct_tenant x = ct_tenant c \<and> ct_email x = ct_email c \<and> ct_deleted_at x = None) rows)"

definition convert :: "instant \<Rightarrow> actor \<Rightarrow> string \<Rightarrow> string \<Rightarrow> lead_db \<Rightarrow> string lead_outcome" where
  "convert now a contact i db =
     (case scoped_lead a i db of
        None \<Rightarrow> (db, Inl Lead_not_found)
      | Some r \<Rightarrow>
          (case assert_transition (ld_status r) ''converted'' None of
             Inl err \<Rightarrow> (db, Inl (Bad_move err))
           | Inr _ \<Rightarrow>
               if \<not> contact_accepted (new_contact a contact r) (lb_contacts db) then (db, Inl Contact_refused) else
               (emit_lead (event_of a ''lead.converted'' i [(''contact_id'', JStr contact)])
                (audit_lead (event_of a ''lead.convert'' i [(''status'', JStr ''converted''), (''contact_id'', JStr contact)])
                (put_lead (r\<lparr>ld_status := ''converted'', ld_contact := Some contact, ld_converted_at := Some now, ld_version := ld_version r + 1\<rparr>)
                (db\<lparr>lb_contacts := lb_contacts db @ [new_contact a contact r]\<rparr>))), Inr contact)))"

section \<open>Merging, disqualifying, restoring\<close>

text \<open>\<^verbatim>\<open>_load\<close>: the tenant filter only.\<close>

definition load_lead :: "string \<Rightarrow> bool \<Rightarrow> string \<Rightarrow> lead_db \<Rightarrow> Lead option" where
  "load_lead tenant include_deleted i db =
     List.find (\<lambda>r. ld_id r = i \<and> ld_tenant r = tenant \<and> (include_deleted \<or> ld_deleted_at r = None)) (lb_leads db)"

definition fill_text :: "string option \<Rightarrow> string option \<Rightarrow> string option" where
  "fill_text mine theirs = (if (mine = None \<or> mine = Some []) \<and> theirs \<noteq> None \<and> theirs \<noteq> Some [] then theirs else mine)"

definition fill_value :: "'a option \<Rightarrow> 'a option \<Rightarrow> 'a option" where
  "fill_value mine theirs = (if mine = None then theirs else mine)"

text \<open>\<^verbatim>\<open>{**theirs, **mine}\<close>: the survivor's values win, new keys come first in the order of the loser.\<close>

definition merge_dicts :: "jdict \<Rightarrow> jdict \<Rightarrow> jdict" where
  "merge_dicts theirs mine = foldl (\<lambda>d e. aput (fst e) (snd e) d) theirs mine"

definition survivor_of :: "actor \<Rightarrow> Lead \<Rightarrow> Lead \<Rightarrow> Lead" where
  "survivor_of a s l = s\<lparr>ld_last_name := fill_text (ld_last_name s) (ld_last_name l), ld_email := fill_text (ld_email s) (ld_email l),
     ld_phone := fill_text (ld_phone s) (ld_phone l), ld_source_channel := fill_text (ld_source_channel s) (ld_source_channel l),
     ld_score := fill_value (ld_score s) (ld_score l), ld_category := fill_text (ld_category s) (ld_category l),
     ld_assignee := fill_value (ld_assignee s) (ld_assignee l), ld_branch := fill_value (ld_branch s) (ld_branch l),
     ld_team := fill_value (ld_team s) (ld_team l), ld_capture := merge_dicts (ld_capture l) (ld_capture s),
     ld_utm := merge_dicts (ld_utm l) (ld_utm s), ld_updated_by := Some (ac_user a), ld_version := ld_version s + 1\<rparr>"

definition filled_fields :: "Lead \<Rightarrow> Lead \<Rightarrow> string list" where
  "filled_fields s l =
     (if fill_value (ld_assignee s) (ld_assignee l) \<noteq> ld_assignee s then [''assignee_id''] else [])
     @ (if fill_value (ld_branch s) (ld_branch l) \<noteq> ld_branch s then [''branch_id''] else [])
     @ (if fill_text (ld_category s) (ld_category l) \<noteq> ld_category s then [''category''] else [])
     @ (if fill_text (ld_email s) (ld_email l) \<noteq> ld_email s then [''email''] else [])
     @ (if fill_text (ld_last_name s) (ld_last_name l) \<noteq> ld_last_name s then [''last_name''] else [])
     @ (if fill_text (ld_phone s) (ld_phone l) \<noteq> ld_phone s then [''phone''] else [])
     @ (if fill_value (ld_score s) (ld_score l) \<noteq> ld_score s then [''qualification_score''] else [])
     @ (if fill_text (ld_source_channel s) (ld_source_channel l) \<noteq> ld_source_channel s then [''source_channel''] else [])
     @ (if fill_value (ld_team s) (ld_team l) \<noteq> ld_team s then [''team_id''] else [])"

definition merged_loser :: "instant \<Rightarrow> actor \<Rightarrow> string \<Rightarrow> Lead \<Rightarrow> Lead" where
  "merged_loser now a survivor l = l\<lparr>ld_merged_into := Some survivor, ld_status := ''archived'', ld_deleted_at := Some now,
     ld_updated_by := Some (ac_user a), ld_version := ld_version l + 1\<rparr>"

definition resolve_candidates :: "actor \<Rightarrow> string list \<Rightarrow> candidate_row list \<Rightarrow> candidate_row list" where
  "resolve_candidates a ids = map (\<lambda>c. if dc_tenant c = ac_tenant a \<and> dc_lead c \<in> set ids
      then c\<lparr>dc_resolution := ''merged'', dc_resolved_by := Some (ac_user a)\<rparr> else c)"

definition merge_leads :: "instant \<Rightarrow> actor \<Rightarrow> string \<Rightarrow> string \<Rightarrow> lead_db \<Rightarrow> int lead_outcome" where
  "merge_leads now a survivor_id loser_id db =
     (if survivor_id = loser_id then (db, Inl Self_merge)
      else case (load_lead (ac_tenant a) False survivor_id db, load_lead (ac_tenant a) False loser_id db) of
        (Some s, Some l) \<Rightarrow>
          if ld_status l = ''converted'' then (db, Inl Loser_converted)
          else if ld_merged_into s \<noteq> None then (db, Inl Survivor_merged_away)
          else
            (audit_lead (event_of a ''lead.merged_away'' loser_id [(''merged_into_id'', JStr survivor_id), (''status'', JStr ''archived'')])
             (audit_lead (event_of a ''lead.merged'' survivor_id
                [(''filled_fields'', JList (map JStr (filled_fields s l))), (''version'', JInt (ld_version s + 1))])
             (put_lead (merged_loser now a survivor_id l) (put_lead (survivor_of a s l)
             (db\<lparr>lb_candidates := resolve_candidates a [survivor_id, loser_id] (lb_candidates db)\<rparr>)))), Inr (ld_version s + 1))
      | _ \<Rightarrow> (db, Inl Lead_not_found))"

definition disqualify_lead :: "actor \<Rightarrow> string \<Rightarrow> string \<Rightarrow> lead_db \<Rightarrow> int lead_outcome" where
  "disqualify_lead a i reason db =
     (let cleaned = py_strip reason in
      if length cleaned < 3 then (db, Inl Weak_reason)
      else case load_lead (ac_tenant a) False i db of
        None \<Rightarrow> (db, Inl Lead_not_found)
      | Some r \<Rightarrow>
          (case assert_transition (ld_status r) ''disqualified'' (Some cleaned) of
             Inl err \<Rightarrow> (db, Inl (Bad_move err))
           | Inr _ \<Rightarrow>
               (audit_lead (event_of a ''lead.disqualified'' i [(''status'', JStr ''disqualified''), (''reason'', JStr (take 200 cleaned))])
                (put_lead (r\<lparr>ld_status := ''disqualified'', ld_disqualify_reason := Some (take 200 cleaned),
                   ld_updated_by := Some (ac_user a), ld_version := ld_version r + 1\<rparr>) db), Inr (ld_version r + 1))))"

definition restore_lead :: "actor \<Rightarrow> string \<Rightarrow> lead_db \<Rightarrow> int lead_outcome" where
  "restore_lead a i db =
     (case load_lead (ac_tenant a) True i db of
        None \<Rightarrow> (db, Inl Lead_not_found)
      | Some r \<Rightarrow>
          if ld_status r = ''converted'' then (db, Inl Was_converted)
          else if ld_merged_into r \<noteq> None then (db, Inl Was_merged)
          else if ld_status r \<notin> {''disqualified'', ''archived''} then (db, Inl Already_open)
          else
            (audit_lead (event_of a ''lead.restored'' i [(''status'', JStr ''new'')])
             (put_lead (r\<lparr>ld_status := ''new'', ld_disqualify_reason := None, ld_deleted_at := None,
                ld_updated_by := Some (ac_user a), ld_version := ld_version r + 1\<rparr>) db), Inr (ld_version r + 1)))"

section \<open>Duplicate candidates\<close>

definition MAX_SCAN :: nat where "MAX_SCAN = 5000"

definition cell_of :: "string option \<Rightarrow> cell" where
  "cell_of v = (case v of None \<Rightarrow> PyNone | Some t \<Rightarrow> Text t)"

text \<open>\<^verbatim>\<open>_row\<close>: the keys it binds; there is no \<^verbatim>\<open>company\<close> among them.\<close>

definition duplicate_row :: "Lead \<Rightarrow> lead_row" where
  "duplicate_row r = \<lparr>row_id = ld_id r, row_email = cell_of (ld_email r), row_phone = cell_of (ld_phone r),
     row_first_name = Text (ld_first_name r), row_last_name = cell_of (ld_last_name r), row_company = Missing,
     row_source = Text (ld_source r)\<rparr>"

definition new_candidate :: "string \<Rightarrow> string \<Rightarrow> DuplicateCandidate \<Rightarrow> candidate_row" where
  "new_candidate tenant i c = \<lparr>dc_tenant = tenant, dc_lead = i, dc_candidate = cand_lead_id c, dc_reason = cand_match_reason c,
     dc_confidence = cand_confidence c, dc_resolution = ''pending'', dc_resolved_by = None\<rparr>"

definition deduplicate :: "actor \<Rightarrow> string \<Rightarrow> bool \<Rightarrow> lead_db \<Rightarrow> DuplicateCandidate list lead_outcome" where
  "deduplicate a i persist db =
     (case load_lead (ac_tenant a) False i db of
        None \<Rightarrow> (db, Inl Lead_not_found)
      | Some r \<Rightarrow>
          let others = take MAX_SCAN (filter (\<lambda>l. ld_tenant l = ac_tenant a \<and> ld_id l \<noteq> i \<and> ld_deleted_at l = None \<and> ld_merged_into l = None)
                (lb_leads db));
              candidates = find_duplicates (duplicate_row r) (map duplicate_row others);
              existing = map dc_candidate (filter (\<lambda>c. dc_tenant c = ac_tenant a \<and> dc_lead c = i) (lb_candidates db))
          in (if persist then db\<lparr>lb_candidates := lb_candidates db
                @ map (new_candidate (ac_tenant a) i) (filter (\<lambda>c. cand_lead_id c \<notin> set existing) candidates)\<rparr> else db, Inr candidates))"

section \<open>First response\<close>

definition stamp_first_response :: "string \<Rightarrow> string \<Rightarrow> instant \<Rightarrow> Lead \<Rightarrow> Lead" where
  "stamp_first_response tenant i occurred_at r =
     (if ld_id r = i \<and> ld_tenant r = tenant \<and> ld_first_response r = None then r\<lparr>ld_first_response := Some occurred_at\<rparr> else r)"

definition record_first_response :: "actor \<Rightarrow> string \<Rightarrow> string \<Rightarrow> string \<Rightarrow> instant \<Rightarrow> string \<Rightarrow> string option \<Rightarrow> lead_db \<Rightarrow> bool lead_outcome" where
  "record_first_response a i channel direction occurred_at source outcome db =
     (if \<not> qualifies_as_first_response channel direction outcome then (db, Inr False)
      else if \<not> list_ex (\<lambda>r. ld_id r = i \<and> ld_tenant r = ac_tenant a \<and> ld_first_response r = None) (lb_leads db) then (db, Inr False)
      else (emit_lead (event_of a ''lead.first_response_recorded'' i [(''channel'', JStr channel), (''direction'', JStr direction),
              (''outcome'', opt_json outcome), (''source'', JStr source), (''occurred_at'', JInt occurred_at)])
            (db\<lparr>lb_leads := map (stamp_first_response (ac_tenant a) i occurred_at) (lb_leads db)\<rparr>), Inr True))"

end
