(* ===== verification/Refinement.thy ===== *)
theory Refinement
  imports Main
begin

text \<open>
  Labelled simulation: a concrete step function with an invariant, and an abstraction onto states in which the step of
  an operation is one abstract step with the same label. The label keeps the abstract side honest: what an operation
  may do is said operation by operation, so a run cannot be explained by some other path between the same states.
  Clients prove it once per operation and obtain it for every step of every run.
\<close>

text \<open>Every operation of a run satisfies its precondition in the state it meets.\<close>

primrec run_ok :: "('s \<Rightarrow> 'o \<Rightarrow> 's) \<Rightarrow> ('s \<Rightarrow> 'o \<Rightarrow> bool) \<Rightarrow> 's \<Rightarrow> 'o list \<Rightarrow> bool" where
  "run_ok step ok s [] \<longleftrightarrow> True"
| "run_ok step ok s (op # ops) \<longleftrightarrow> ok s op \<and> run_ok step ok (step s op) ops"

lemma run_ok_append: "run_ok step ok s (xs @ ys) \<longleftrightarrow> run_ok step ok s xs \<and> run_ok step ok (foldl step s xs) ys"
  by (induction xs arbitrary: s) auto

locale simulation =
  fixes step :: "'s \<Rightarrow> 'o \<Rightarrow> 's"
    and ok :: "'s \<Rightarrow> 'o \<Rightarrow> bool"
    and inv :: "'s \<Rightarrow> bool"
    and abs :: "'s \<Rightarrow> 'a"
    and moves :: "'o \<Rightarrow> 'a \<Rightarrow> 'a \<Rightarrow> bool"
  assumes inv_kept: "inv s \<Longrightarrow> ok s op \<Longrightarrow> inv (step s op)"
    and simulates: "inv s \<Longrightarrow> ok s op \<Longrightarrow> moves op (abs s) (abs (step s op))"
begin

lemma kept_run: "inv s \<Longrightarrow> run_ok step ok s ops \<Longrightarrow> inv (foldl step s ops)"
  by (induction ops arbitrary: s) (simp_all add: inv_kept)

lemma simulates_next:
  assumes "inv s" and "run_ok step ok s (ops @ [op])"
  shows "moves op (abs (foldl step s ops)) (abs (foldl step s (ops @ [op])))"
proof -
  have "inv (foldl step s ops)" and "ok (foldl step s ops) op" using assms by (simp_all add: run_ok_append kept_run)
  then show ?thesis by (simp add: simulates)
qed

text \<open>An abstract property that abstract steps keep holds of every state a run passes through.\<close>

lemma abstract_kept:
  assumes "\<And>op a b. moves op a b \<Longrightarrow> P a \<Longrightarrow> P b" and "inv s" and "run_ok step ok s ops" and "P (abs s)"
  shows "P (abs (foldl step s ops))"
  using assms(3)
proof (induction ops rule: rev_induct)
  case Nil
  then show ?case using assms(4) by simp
next
  case (snoc op ops)
  then have "P (abs (foldl step s ops))" by (simp add: run_ok_append)
  then show ?case by (rule assms(1) [OF simulates_next [OF assms(2) snoc.prems]])
qed

end

end
