(* ===== verification/Lead_Service_Safety.thy ===== *)
theory Lead_Service_Safety
  imports Lead_Service Refinement
begin

text \<open>
  What the lead operations do to the table of leads, whatever their order: every operation is a sequence of four kinds of
  writes. From these follow the refinement of the lifecycle, the forest of merges and the permanence of a first response.
\<close>

section \<open>Operations\<close>

datatype lead_op =
    Capture actor string lead_payload "string option"
  | Update actor string "lead_change list" "int option"
  | Bulk "string \<Rightarrow> string" instant actor string "string list" bulk_changes "string option"
  | Qualify instant actor "Criterion list" ai_answer string qualify_mode "int option" "string option"
  | Review instant actor "Criterion list" string string "int option" "string option"
  | Convert instant actor string string
  | Merge instant actor string string
  | Disqualify actor string string
  | Restore actor string
  | Deduplicate actor string bool
  | Respond actor string string string instant string "string option"

fun lead_apply :: "lead_db \<Rightarrow> lead_op \<Rightarrow> lead_db" where
  "lead_apply db (Capture a fresh p key) = fst (capture a fresh p key db)"
| "lead_apply db (Update a i changes expected) = fst (update_lead a i changes expected db)"
| "lead_apply db (Bulk sha now a operation ids c key) = fst (bulk_update sha now a operation ids c key db)"
| "lead_apply db (Qualify now a criteria answer i mode score remarks) = fst (qualify now a criteria answer i mode score remarks db)"
| "lead_apply db (Review now a criteria i decision score remark) = fst (review_qualification now a criteria i decision score remark db)"
| "lead_apply db (Convert now a contact i) = fst (convert now a contact i db)"
| "lead_apply db (Merge now a survivor loser) = fst (merge_leads now a survivor loser db)"
| "lead_apply db (Disqualify a i reason) = fst (disqualify_lead a i reason db)"
| "lead_apply db (Restore a i) = fst (restore_lead a i db)"
| "lead_apply db (Deduplicate a i persist) = fst (deduplicate a i persist db)"
| "lead_apply db (Respond a i channel direction t source outcome) = fst (record_first_response a i channel direction t source outcome db)"

text \<open>New identifiers are fresh; the changes of an update are a dictionary.\<close>

fun lead_op_ok :: "lead_db \<Rightarrow> lead_op \<Rightarrow> bool" where
  "lead_op_ok db (Capture a fresh p key) \<longleftrightarrow> fresh \<notin> set (map ld_id (lb_leads db))"
| "lead_op_ok db (Update a i changes expected) \<longleftrightarrow> distinct (map change_field changes)"
| "lead_op_ok db op \<longleftrightarrow> True"

text \<open>The first responses an operation may record.\<close>

fun stamps :: "lead_op \<Rightarrow> (string \<times> instant) set" where
  "stamps (Respond a i channel direction t source outcome) =
     (if qualifies_as_first_response channel direction outcome then {(i, t)} else {})"
| "stamps op = {}"

section \<open>Writes\<close>

definition status_ok :: "string \<Rightarrow> string \<Rightarrow> bool" where
  "status_ok s s' \<longleftrightarrow> s' = s \<or> (\<exists>x y. LeadStatus_of s = Some x \<and> LeadStatus_of s' = Some y
     \<and> (lead_moves x y \<or> x \<in> {DISQUALIFIED, ARCHIVED} \<and> y = NEW))"

inductive lead_write :: "(string \<times> instant) set \<Rightarrow> Lead list \<Rightarrow> Lead list \<Rightarrow> bool" for F where
  added: "ld_id r \<notin> ld_id ` set rows \<Longrightarrow> ld_status r = ''new'' \<Longrightarrow> ld_merged_into r = None \<Longrightarrow> ld_first_response r = None
     \<Longrightarrow> lead_write F rows (rows @ [r])"
| changed: "row_at ld_id (ld_id r) rows = Some r \<Longrightarrow> ld_id r' = ld_id r \<Longrightarrow> ld_merged_into r = None \<Longrightarrow> ld_merged_into r' = None
     \<Longrightarrow> ld_first_response r' = ld_first_response r \<Longrightarrow> status_ok (ld_status r) (ld_status r')
     \<Longrightarrow> lead_write F rows (set_row ld_id r' rows)"
| merged: "row_at ld_id (ld_id l) rows = Some l \<Longrightarrow> ld_id l' = ld_id l \<Longrightarrow> ld_merged_into l = None \<Longrightarrow> ld_status l \<noteq> ''converted''
     \<Longrightarrow> row_at ld_id (ld_id s) rows = Some s \<Longrightarrow> ld_merged_into s = None \<Longrightarrow> ld_id s \<noteq> ld_id l
     \<Longrightarrow> ld_merged_into l' = Some (ld_id s) \<Longrightarrow> ld_deleted_at l' \<noteq> None \<Longrightarrow> ld_status l' = ''archived'' \<Longrightarrow> ld_first_response l' = ld_first_response l
     \<Longrightarrow> lead_write F rows (set_row ld_id l' rows)"
| stamped: "row_at ld_id (ld_id r) rows = Some r \<Longrightarrow> ld_first_response r = None \<Longrightarrow> (ld_id r, t) \<in> F
     \<Longrightarrow> lead_write F rows (set_row ld_id (r\<lparr>ld_first_response := Some t\<rparr>) rows)"

text \<open>What the lookups and the writes of the service leave of the table.\<close>

definition lead_wf :: "lead_db \<Rightarrow> bool" where
  "lead_wf db \<longleftrightarrow> distinct (map ld_id (lb_leads db))
     \<and> (\<forall>r\<in>set (lb_leads db). ld_merged_into r \<noteq> None \<longrightarrow> ld_deleted_at r \<noteq> None)"

lemma lead_tables [simp]:
  "lb_leads (audit_lead e db) = lb_leads db" "lb_leads (emit_lead e db) = lb_leads db"
  "lb_leads (put_lead r db) = set_row ld_id r (lb_leads db)"
  by (simp_all add: audit_lead_def emit_lead_def put_lead_def)

lemma scoped_leadD:
  assumes "lead_wf db" and "scoped_lead a i db = Some r"
  shows "row_at ld_id (ld_id r) (lb_leads db) = Some r \<and> ld_id r = i \<and> ld_merged_into r = None \<and> ld_deleted_at r = None"
proof -
  have "r \<in> set (lb_leads db)" "ld_id r = i" "ld_deleted_at r = None"
    using get_scoped_Some [OF assms(2) [unfolded scoped_lead_def]] by (simp_all add: lead_model_def)
  then show ?thesis using assms(1) by (auto simp: lead_wf_def row_at_unique)
qed

lemma load_leadD:
  assumes "lead_wf db" and "load_lead tenant d i db = Some r"
  shows "row_at ld_id (ld_id r) (lb_leads db) = Some r \<and> ld_id r = i \<and> (d \<or> ld_merged_into r = None \<and> ld_deleted_at r = None)"
proof -
  have "r \<in> set (lb_leads db)" "ld_id r = i" "d \<or> ld_deleted_at r = None"
    using assms(2) by (auto simp: load_lead_def find_Some_iff)
  then show ?thesis using assms(1) by (auto simp: lead_wf_def row_at_unique)
qed

lemma status_ok_refl [simp]: "status_ok s s"
  by (simp add: status_ok_def)

lemma assert_status_ok: "assert_transition s t reason = Inr u \<Longrightarrow> status_ok s t"
  unfolding assert_transition_def status_ok_def
  by (auto intro: lead_moves.intros dest: lead.step_target split: option.splits)

lemma row_change:
  assumes "lead_wf db" "scoped_lead a i db = Some r" "ld_id r' = ld_id r" "ld_merged_into r' = ld_merged_into r"
    "ld_first_response r' = ld_first_response r" "status_ok (ld_status r) (ld_status r')"
  shows "lead_write F (lb_leads db) (set_row ld_id r' (lb_leads db))"
  using scoped_leadD [OF assms(1,2)] assms(3-) by (intro lead_write.changed [of r]) auto

lemma loaded_change:
  assumes "lead_wf db" "load_lead tenant d i db = Some r" "ld_merged_into r = None" "ld_id r' = ld_id r" "ld_merged_into r' = None"
    "ld_first_response r' = ld_first_response r" "status_ok (ld_status r) (ld_status r')"
  shows "lead_write F (lb_leads db) (set_row ld_id r' (lb_leads db))"
  using load_leadD [OF assms(1,2)] assms(3-) by (intro lead_write.changed [of r]) auto

section \<open>Every operation is a sequence of writes\<close>

lemma apply_change_simps [simp]:
  "ld_id (apply_change r c) = ld_id r" "ld_merged_into (apply_change r c) = ld_merged_into r"
  "ld_first_response (apply_change r c) = ld_first_response r"
  by (simp_all add: apply_change_def split: lead_change.split option.split)

lemma apply_changes_simps [simp]:
  "ld_id (foldl apply_change r cs) = ld_id r" "ld_merged_into (foldl apply_change r cs) = ld_merged_into r"
  "ld_first_response (foldl apply_change r cs) = ld_first_response r"
  by (induction cs arbitrary: r) simp_all

lemma status_change_simps: "status_change [] = None"
  "status_change (c # cs) = (if change_field c = ''status'' then (case c of Set_status v \<Rightarrow> v | _ \<Rightarrow> None) else status_change cs)"
  by (simp_all add: status_change_def)

lemma status_change_None: "''status'' \<notin> set (map change_field cs) \<Longrightarrow> status_change cs = None"
  by (induction cs) (auto simp: status_change_simps)

lemma apply_changes_status:
  "distinct (map change_field cs) \<Longrightarrow>
     ld_status (foldl apply_change r cs) = (case status_change cs of None \<Rightarrow> ld_status r | Some v \<Rightarrow> v)"
proof (induction cs arbitrary: r)
  case Nil
  then show ?case by (simp add: status_change_simps)
next
  case (Cons c cs)
  show ?case
  proof (cases "change_field c = ''status''")
    case True
    then obtain v where c: "c = Set_status v" by (cases c) (simp_all add: change_field_def)
    have "status_change cs = None" using Cons.prems True by (intro status_change_None) simp
    then show ?thesis using Cons c True by (simp add: status_change_simps apply_change_def split: option.split)
  next
    case False
    then have "ld_status (apply_change r c) = ld_status r"
      by (cases c) (simp_all add: change_field_def apply_change_def split: option.split)
    then show ?thesis using Cons False by (simp add: status_change_simps split: option.split)
  qed
qed

lemma updated_lead_row:
  assumes "updated_lead a changes expected r = Inr r'" and "distinct (map change_field changes)"
  shows "ld_id r' = ld_id r \<and> ld_merged_into r' = ld_merged_into r \<and> ld_first_response r' = ld_first_response r
    \<and> status_ok (ld_status r) (ld_status r')"
proof -
  have m: "moved r (status_change changes) (reason_change changes) = Inr ()" and s: "ld_status r' \<noteq> []"
    and st: "ld_status r' = ld_status (foldl apply_change r changes)"
    and rest: "ld_id r' = ld_id r" "ld_merged_into r' = ld_merged_into r" "ld_first_response r' = ld_first_response r"
    using assms(1) by (auto simp: updated_lead_def rbind_eq_Inr bumped_def LEAD_STATUSES_def split: sum.splits if_splits)
  have "status_ok (ld_status r) (ld_status r')"
    using m s unfolding st apply_changes_status [OF assms(2)]
    by (auto simp: moved_def intro: assert_status_ok split: option.splits if_splits sum.splits)
  with rest show ?thesis by simp
qed

lemma update_writes:
  assumes "lead_wf db" "distinct (map change_field changes)"
  shows "(lead_write F)\<^sup>*\<^sup>* (lb_leads db) (lb_leads (fst (update_lead a i changes expected db)))"
proof -
  have "lead_write F (lb_leads db) (set_row ld_id r' (lb_leads db))"
    if "scoped_lead a i db = Some r" "updated_lead a changes expected r = Inr r'" for r r'
    using updated_lead_row [OF that(2) assms(2)] by (intro row_change [OF assms(1) that(1)]) auto
  then show ?thesis by (auto simp: update_lead_def split: option.split sum.split)
qed

lemma bulk_assign_simps [simp]: "ld_id (bulk_assign c r) = ld_id r" "ld_merged_into (bulk_assign c r) = ld_merged_into r"
  "ld_first_response (bulk_assign c r) = ld_first_response r" "ld_status (bulk_assign c r) = ld_status r"
  by (simp_all add: bulk_assign_def split: option.split)

lemma bulk_status_row: "bulk_status c r = Inr r' \<Longrightarrow> ld_id r' = ld_id r \<and> ld_merged_into r' = ld_merged_into r
    \<and> ld_first_response r' = ld_first_response r \<and> status_ok (ld_status r) (ld_status r')"
  by (cases "bulk_target c") (auto simp: bulk_status_def intro: assert_status_ok split: sum.splits)

lemma bulk_row_row: "bulk_row c r = Inr (r', changed) \<Longrightarrow> ld_id r' = ld_id r \<and> ld_merged_into r' = ld_merged_into r
    \<and> ld_first_response r' = ld_first_response r \<and> status_ok (ld_status r) (ld_status r')"
  by (auto simp: bulk_row_def rbind_eq_Inr Let_def dest: bulk_status_row)

lemma bulk_steps_write:
  assumes "rfold (bulk_step a operation c) (db, ids) rows = Inr (db', ids')" "distinct (map ld_id rows)"
    and "\<forall>r\<in>set rows. row_at ld_id (ld_id r) (lb_leads db) = Some r \<and> ld_merged_into r = None"
  shows "(lead_write F)\<^sup>*\<^sup>* (lb_leads db) (lb_leads db')"
  using assms
proof (induction rows arbitrary: db ids)
  case Nil
  then show ?case by simp
next
  case (Cons r rows)
  obtain st where "bulk_step a operation c (db, ids) r = Inr st"
    using Cons.prems(1) by (cases "bulk_step a operation c (db, ids) r") simp_all
  then obtain r' changed where row: "bulk_row c r = Inr (r', changed)"
    by (cases "bulk_row c r") (auto simp: bulk_step_def)
  have here: "row_at ld_id (ld_id r) (lb_leads db) = Some r" and un: "ld_merged_into r = None" using Cons.prems(3) by simp_all
  note r' = bulk_row_row [OF row]
  show ?case
  proof (cases changed)
    case True
    let ?r = "r'\<lparr>ld_version := ld_version r + 1, ld_updated_by := Some (ac_user a)\<rparr>"
    let ?db = "emit_lead (event_of a ''lead.updated'' (ld_id r)
        [(''changed'', JList (map JStr (bulk_fields c))), (''bulk_operation_id'', JStr operation)]) (put_lead ?r db)"
    have step: "bulk_step a operation c (db, ids) r = Inr (?db, ids @ [ld_id r])"
      using row True by (simp add: bulk_step_def)
    have "lead_write F (lb_leads db) (lb_leads ?db)"
      unfolding lead_tables by (rule lead_write.changed [OF here]) (use r' un in simp_all)
    moreover have "(lead_write F)\<^sup>*\<^sup>* (lb_leads ?db) (lb_leads db')"
    proof (rule Cons.IH)
      show "rfold (bulk_step a operation c) (?db, ids @ [ld_id r]) rows = Inr (db', ids')"
        using Cons.prems(1) step by simp
      show "\<forall>q\<in>set rows. row_at ld_id (ld_id q) (lb_leads ?db) = Some q \<and> ld_merged_into q = None"
      proof
        fix q assume q: "q \<in> set rows"
        then have "ld_id q \<noteq> ld_id r" using Cons.prems(2) by (metis distinct.simps(2) image_eqI list.set_map list.simps(9))
        then show "row_at ld_id (ld_id q) (lb_leads ?db) = Some q \<and> ld_merged_into q = None"
          using bspec [OF Cons.prems(3), of q] q r' by (simp add: row_at_set_row)
      qed
    qed (use Cons.prems(2) in simp)
    ultimately show ?thesis by (rule converse_rtranclp_into_rtranclp)
  next
    case False
    have step: "bulk_step a operation c (db, ids) r = Inr (db, ids)"
      using row False by (simp add: bulk_step_def)
    show ?thesis
    proof (rule Cons.IH)
      show "rfold (bulk_step a operation c) (db, ids) rows = Inr (db', ids')" using Cons.prems(1) step by simp
    qed (use Cons.prems(2,3) in simp_all)
  qed
qed

lemma bulk_writes:
  assumes "lead_wf db"
  shows "(lead_write F)\<^sup>*\<^sup>* (lb_leads db) (lb_leads (fst (bulk_update sha now a operation ids c key db)))"
proof -
  have rows: "distinct (map ld_id (bulk_rows a ids db))" for ids
    using assms by (auto simp: bulk_rows_def lead_wf_def distinct_map elim: inj_on_subset)
  have rows_in: "\<forall>r\<in>set (bulk_rows a ids db). row_at ld_id (ld_id r) (lb_leads db) = Some r \<and> ld_merged_into r = None" for ids
    using assms by (auto simp: bulk_rows_def lead_wf_def visible_def lead_model_def row_at_unique)
  have run: "(lead_write F)\<^sup>*\<^sup>* (lb_leads db) (lb_leads db')" if op: "bulk_operation a operation ids c db = Inr (db', body)" for ids db' body
  proof -
    obtain db1 changed where "rfold (bulk_step a operation c) (db, []) (bulk_rows a ids db) = Inr (db1, changed)" "lb_leads db' = lb_leads db1"
      using op by (auto simp: bulk_operation_def Let_def rbind_eq_Inr split: if_splits)
    then show ?thesis using bulk_steps_write [OF _ rows rows_in] by metis
  qed
  show ?thesis
    by (auto simp: bulk_update_def guarded_def Let_def dest!: run split: sum.split reservation.split)
qed

lemma persist_writes:
  assumes "lead_wf db"
  shows "(lead_write F)\<^sup>*\<^sup>* (lb_leads db) (lb_leads (fst (persist_qualification now a i q action db)))"
proof (cases "scoped_lead a i db")
  case None
  then show ?thesis by (simp add: persist_qualification_def)
next
  case (Some r)
  then show ?thesis by (auto simp: persist_qualification_def Let_def intro!: r_into_rtranclp row_change [OF assms Some])
qed

lemma convert_writes:
  assumes "lead_wf db"
  shows "(lead_write F)\<^sup>*\<^sup>* (lb_leads db) (lb_leads (fst (convert now a contact i db)))"
proof (cases "scoped_lead a i db")
  case None
  then show ?thesis by (simp add: convert_def)
next
  case (Some r)
  show ?thesis
  proof (cases "assert_transition (ld_status r) ''converted'' None")
    case (Inl e)
    then show ?thesis using Some by (simp add: convert_def)
  next
    case (Inr u)
    then show ?thesis using Some assert_status_ok [OF Inr]
      by (auto simp: convert_def split: if_splits intro!: r_into_rtranclp row_change [OF assms Some])
  qed
qed

lemma disqualify_writes:
  assumes "lead_wf db"
  shows "(lead_write F)\<^sup>*\<^sup>* (lb_leads db) (lb_leads (fst (disqualify_lead a i reason db)))"
proof (cases "load_lead (ac_tenant a) False i db")
  case None
  then show ?thesis by (simp add: disqualify_lead_def Let_def)
next
  case (Some r)
  have un: "ld_merged_into r = None" using load_leadD [OF assms Some] by simp
  show ?thesis
  proof (cases "assert_transition (ld_status r) ''disqualified'' (Some (py_strip reason))")
    case (Inl e)
    then show ?thesis using Some by (simp add: disqualify_lead_def Let_def)
  next
    case (Inr u)
    then show ?thesis using Some un assert_status_ok [OF Inr]
      by (auto simp: disqualify_lead_def Let_def intro!: r_into_rtranclp loaded_change [OF assms Some])
  qed
qed

lemma restore_status_ok: "s \<in> {''disqualified'', ''archived''} \<Longrightarrow> status_ok s ''new''"
proof -
  assume s: "s \<in> {''disqualified'', ''archived''}"
  have "LeadStatus_of ''disqualified'' = Some DISQUALIFIED" "LeadStatus_of ''archived'' = Some ARCHIVED" "LeadStatus_of ''new'' = Some NEW"
    by code_simp+
  with s show ?thesis unfolding status_ok_def by blast
qed

lemma restore_writes:
  assumes "lead_wf db"
  shows "(lead_write F)\<^sup>*\<^sup>* (lb_leads db) (lb_leads (fst (restore_lead a i db)))"
proof (cases "load_lead (ac_tenant a) True i db")
  case None
  then show ?thesis by (simp add: restore_lead_def)
next
  case (Some r)
  show ?thesis
  proof (cases "ld_merged_into r = None \<and> ld_status r \<in> {''disqualified'', ''archived''}")
    case True
    then show ?thesis using Some restore_status_ok [of "ld_status r"]
      by (auto simp: restore_lead_def intro!: r_into_rtranclp loaded_change [OF assms Some])
  next
    case False
    then show ?thesis using Some by (auto simp: restore_lead_def)
  qed
qed

lemma survivor_of_simps [simp]: "ld_id (survivor_of a s l) = ld_id s" "ld_merged_into (survivor_of a s l) = ld_merged_into s"
  "ld_first_response (survivor_of a s l) = ld_first_response s" "ld_status (survivor_of a s l) = ld_status s"
  by (simp_all add: survivor_of_def)

lemma merged_loser_simps [simp]: "ld_id (merged_loser now a s l) = ld_id l" "ld_merged_into (merged_loser now a s l) = Some s"
  "ld_first_response (merged_loser now a s l) = ld_first_response l" "ld_status (merged_loser now a s l) = ''archived''"
  "ld_deleted_at (merged_loser now a s l) = Some now"
  by (simp_all add: merged_loser_def)

lemma merge_writes:
  assumes "lead_wf db"
  shows "(lead_write F)\<^sup>*\<^sup>* (lb_leads db) (lb_leads (fst (merge_leads now a si li db)))"
proof (cases "\<exists>s l. si \<noteq> li \<and> load_lead (ac_tenant a) False si db = Some s \<and> load_lead (ac_tenant a) False li db = Some l
    \<and> ld_status l \<noteq> ''converted'' \<and> ld_merged_into s = None")
  case False
  then have "fst (merge_leads now a si li db) = db"
    by (auto simp: merge_leads_def split: option.split)
  then show ?thesis by simp
next
  case True
  then obtain s l where sl: "si \<noteq> li" "load_lead (ac_tenant a) False si db = Some s" "load_lead (ac_tenant a) False li db = Some l"
    "ld_status l \<noteq> ''converted''" "ld_merged_into s = None" by blast
  note s = load_leadD [OF assms sl(2)] and l = load_leadD [OF assms sl(3)]
  let ?rows = "set_row ld_id (survivor_of a s l) (lb_leads db)"
  have "lead_write F (lb_leads db) ?rows" using s sl(5) by (intro lead_write.changed [of s]) auto
  moreover have "lead_write F ?rows (set_row ld_id (merged_loser now a si l) ?rows)"
  proof (rule lead_write.merged [of l _ _ "survivor_of a s l"])
    show "row_at ld_id (ld_id l) ?rows = Some l" using s l sl(1) by (auto simp: row_at_set_row)
    show "row_at ld_id (ld_id (survivor_of a s l)) ?rows = Some (survivor_of a s l)" using s by (auto simp: row_at_set_row)
  qed (use s l sl in simp_all)
  moreover have "lb_leads (fst (merge_leads now a si li db)) = set_row ld_id (merged_loser now a si l) ?rows"
    using sl by (simp add: merge_leads_def put_lead_def)
  ultimately show ?thesis by simp
qed

lemma capture_writes:
  assumes "fresh \<notin> set (map ld_id (lb_leads db))"
  shows "(lead_write F)\<^sup>*\<^sup>* (lb_leads db) (lb_leads (fst (capture a fresh p key db)))"
proof (cases "lp_first_name p")
  case None
  then show ?thesis by (simp add: capture_def)
next
  case (Some name)
  have "lead_write F (lb_leads db) (lb_leads db @ [new_lead a fresh p name])"
    using assms by (intro lead_write.added) (auto simp: new_lead_def)
  then show ?thesis using Some by (auto simp: capture_def Let_def)
qed

lemma respond_writes:
  assumes "lead_wf db"
  shows "(lead_write (stamps (Respond a i channel direction t source outcome)))\<^sup>*\<^sup>* (lb_leads db)
     (lb_leads (fst (record_first_response a i channel direction t source outcome db)))"
proof (cases "qualifies_as_first_response channel direction outcome
    \<and> (\<exists>r\<in>set (lb_leads db). ld_id r = i \<and> ld_tenant r = ac_tenant a \<and> ld_first_response r = None)")
  case True
  then obtain r where q: "qualifies_as_first_response channel direction outcome"
    and r: "r \<in> set (lb_leads db)" "ld_id r = i" "ld_tenant r = ac_tenant a" "ld_first_response r = None" by blast
  have here: "row_at ld_id (ld_id r) (lb_leads db) = Some r" using assms r(1) by (simp add: lead_wf_def row_at_unique)
  have "map (stamp_first_response (ac_tenant a) i t) (lb_leads db) = set_row ld_id (r\<lparr>ld_first_response := Some t\<rparr>) (lb_leads db)"
    unfolding set_row_def
  proof (rule map_cong [OF refl])
    fix x assume "x \<in> set (lb_leads db)"
    then have "ld_id x = ld_id r \<longleftrightarrow> x = r" using assms r(1) by (auto simp: lead_wf_def distinct_map inj_on_eq_iff)
    then show "stamp_first_response (ac_tenant a) i t x
        = (if ld_id x = ld_id (r\<lparr>ld_first_response := Some t\<rparr>) then r\<lparr>ld_first_response := Some t\<rparr> else x)"
      using r by (auto simp: stamp_first_response_def)
  qed
  moreover have "lead_write {(i, t)} (lb_leads db) (set_row ld_id (r\<lparr>ld_first_response := Some t\<rparr>) (lb_leads db))"
    using here r by (intro lead_write.stamped) auto
  moreover have "list_ex (\<lambda>r. ld_id r = i \<and> ld_tenant r = ac_tenant a \<and> ld_first_response r = None) (lb_leads db)"
    using r by (auto simp: list_ex_iff)
  ultimately show ?thesis using q by (simp add: record_first_response_def r_into_rtranclp)
next
  case False
  then have "fst (record_first_response a i channel direction t source outcome db) = db"
    by (auto simp: record_first_response_def list_ex_iff)
  then show ?thesis by simp
qed

lemma lead_op_writes:
  assumes "lead_wf db" and "lead_op_ok db op"
  shows "(lead_write (stamps op))\<^sup>*\<^sup>* (lb_leads db) (lb_leads (lead_apply db op))"
proof (cases op)
  case (Capture a fresh p key)
  then show ?thesis using capture_writes assms(2) by simp
next
  case (Update a i changes expected)
  then show ?thesis using update_writes assms by simp
next
  case (Bulk sha now a operation ids c key)
  then show ?thesis using bulk_writes [OF assms(1)] by simp
next
  case (Qualify now a criteria answer i mode score remarks)
  then show ?thesis using persist_writes [OF assms(1)] by (simp add: qualify_def split: option.split sum.split)
next
  case (Review now a criteria i decision score remark)
  then show ?thesis using persist_writes [OF assms(1)] by (simp add: review_qualification_def split: option.split sum.split)
next
  case (Convert now a contact i)
  then show ?thesis using convert_writes [OF assms(1)] by simp
next
  case (Merge now a survivor loser)
  then show ?thesis using merge_writes [OF assms(1)] by simp
next
  case (Disqualify a i reason)
  then show ?thesis using disqualify_writes [OF assms(1)] by simp
next
  case (Restore a i)
  then show ?thesis using restore_writes [OF assms(1)] by simp
next
  case (Deduplicate a i persist)
  then show ?thesis by (simp add: deduplicate_def Let_def split: option.split)
next
  case (Respond a i channel direction t source outcome)
  then show ?thesis using respond_writes [OF assms(1)] by simp
qed

section \<open>Invariant\<close>

definition merges :: "Lead list \<Rightarrow> (string \<times> string) set" where
  "merges rows = {(ld_id r, s) | r s. r \<in> set rows \<and> ld_merged_into r = Some s}"

definition lead_rows_ok :: "Lead list \<Rightarrow> bool" where
  "lead_rows_ok rows \<longleftrightarrow> distinct (map ld_id rows)
     \<and> (\<forall>r\<in>set rows. (ld_merged_into r \<noteq> None \<longrightarrow> ld_deleted_at r \<noteq> None \<and> ld_status r = ''archived'') \<and> LeadStatus_of (ld_status r) \<noteq> None)
     \<and> acyclic (merges rows) \<and> snd ` merges rows \<subseteq> ld_id ` set rows"

definition lead_inv :: "lead_db \<Rightarrow> bool" where
  "lead_inv db \<longleftrightarrow> lead_rows_ok (lb_leads db)"

lemma lead_inv_wf: "lead_inv db \<Longrightarrow> lead_wf db"
  by (auto simp: lead_inv_def lead_rows_ok_def lead_wf_def)

lemma merges_append: "ld_merged_into r = None \<Longrightarrow> merges (rows @ [r]) = merges rows"
  by (auto simp: merges_def)

lemma merges_iff: "distinct (map ld_id rows) \<Longrightarrow>
    (i, s) \<in> merges rows \<longleftrightarrow> (\<exists>r. row_at ld_id i rows = Some r \<and> ld_merged_into r = Some s)"
  by (auto simp: merges_def row_at_iff)

lemma merges_set_row:
  assumes "distinct (map ld_id rows)" "row_at ld_id (ld_id r) rows = Some r" "ld_id r' = ld_id r"
    "ld_merged_into r = None \<or> ld_merged_into r' = ld_merged_into r"
  shows "merges (set_row ld_id r' rows) = merges rows \<union> {(ld_id r, s) | s. ld_merged_into r' = Some s}"
proof -
  have d: "distinct (map ld_id (set_row ld_id r' rows))" using assms(1) by simp
  have "(i, s) \<in> merges (set_row ld_id r' rows) \<longleftrightarrow> (i, s) \<in> merges rows \<or> i = ld_id r \<and> ld_merged_into r' = Some s" for i s
    unfolding merges_iff [OF d] merges_iff [OF assms(1)] using assms(2-4) by (auto simp: row_at_set_row)
  then show ?thesis by auto
qed

lemma lead_rows_set_row:
  assumes "lead_rows_ok rows" "row_at ld_id (ld_id r) rows = Some r" "ld_id r' = ld_id r"
    and "LeadStatus_of (ld_status r') \<noteq> None" "ld_merged_into r' \<noteq> None \<Longrightarrow> ld_deleted_at r' \<noteq> None \<and> ld_status r' = ''archived''"
    and "acyclic (merges (set_row ld_id r' rows))" "snd ` merges (set_row ld_id r' rows) \<subseteq> ld_id ` set rows"
  shows "lead_rows_ok (set_row ld_id r' rows)"
proof -
  have "ld_id ` set (set_row ld_id r' rows) = ld_id ` set rows" using keys_set_row by (metis list.set_map)
  then show ?thesis using assms unfolding lead_rows_ok_def by (auto dest!: set_row_cases)
qed

lemma status_ok_valid: "status_ok s s' \<Longrightarrow> LeadStatus_of s \<noteq> None \<Longrightarrow> LeadStatus_of s' \<noteq> None"
  by (auto simp: status_ok_def)

lemma archived_status [simp]: "LeadStatus_of ''archived'' = Some ARCHIVED" "LeadStatus_of ''new'' = Some NEW"
  "LeadStatus_of ''converted'' = Some CONVERTED"
  by code_simp+

lemma acyclic_sink: "acyclic R \<Longrightarrow> s \<notin> fst ` R \<Longrightarrow> s \<noteq> l \<Longrightarrow> acyclic (insert (l, s) R)"
proof -
  assume R: "acyclic R" "s \<notin> fst ` R" "s \<noteq> l"
  have "(s, l) \<notin> R\<^sup>*"
  proof
    assume "(s, l) \<in> R\<^sup>*"
    then obtain z where "(s, z) \<in> R" using R(3) by (meson converse_rtranclE)
    then show False using R(2) by force
  qed
  then show ?thesis using R(1) by (simp add: acyclic_insert)
qed

lemma lead_rows_write:
  assumes "lead_write F rows rows'" and "lead_rows_ok rows"
  shows "lead_rows_ok rows'"
  using assms
proof (induction rule: lead_write.induct)
  case (added r rows)
  then show ?case by (auto simp: lead_rows_ok_def merges_append)
next
  case (changed r rows r')
  have "merges (set_row ld_id r' rows) = merges rows"
    using changed by (subst merges_set_row [of rows r r']) (auto simp: lead_rows_ok_def)
  then show ?case using changed row_at_Some [OF changed(1)]
    by (intro lead_rows_set_row [of rows r r']) (auto simp: lead_rows_ok_def dest: status_ok_valid)
next
  case (merged l rows l' s)
  have m: "merges (set_row ld_id l' rows) = insert (ld_id l, ld_id s) (merges rows)"
    using merged by (subst merges_set_row [of rows l l']) (auto simp: lead_rows_ok_def)
  have "s \<in> set rows" using row_at_Some [OF merged(5)] by simp
  have "ld_id s \<notin> fst ` merges rows"
    using merged.prems merged(5,6) by (auto simp: lead_rows_ok_def merges_iff)
  then have "acyclic (merges (set_row ld_id l' rows))"
    unfolding m using merged.prems merged(7) by (intro acyclic_sink) (simp_all add: lead_rows_ok_def)
  then show ?case using merged m \<open>s \<in> set rows\<close>
    by (intro lead_rows_set_row [of rows l l']) (auto simp: lead_rows_ok_def)
next
  case (stamped r rows t)
  let ?r = "r\<lparr>ld_first_response := Some t\<rparr>"
  have "merges (set_row ld_id ?r rows) = merges rows"
    using stamped row_at_Some [OF stamped(1)] by (subst merges_set_row [of rows r ?r]) (auto simp: lead_rows_ok_def merges_def)
  then show ?case using stamped row_at_Some [OF stamped(1)]
    by (intro lead_rows_set_row [of rows r ?r]) (auto simp: lead_rows_ok_def)
qed

lemma lead_inv_apply: "lead_inv db \<Longrightarrow> lead_op_ok db op \<Longrightarrow> lead_inv (lead_apply db op)"
proof -
  assume "lead_inv db" "lead_op_ok db op"
  then have w: "(lead_write (stamps op))\<^sup>*\<^sup>* (lb_leads db) (lb_leads (lead_apply db op))" and "lead_rows_ok (lb_leads db)"
    using lead_op_writes lead_inv_wf by (auto simp: lead_inv_def)
  from w this(2) show ?thesis unfolding lead_inv_def
    by (induction rule: rtranclp_induct) (auto intro: lead_rows_write)
qed

section \<open>Refinement of the lifecycle\<close>

text \<open>The abstract board: which lead is in which status. The lifecycle, written out as the moves a lead may make, and what
  each operation may do to the board: nothing, or one move of the leads it names, to the status it asks for.\<close>

definition board :: "Lead list \<Rightarrow> string \<rightharpoonup> LeadStatus" where
  "board rows i = (case row_at ld_id i rows of None \<Rightarrow> None | Some r \<Rightarrow> LeadStatus_of (ld_status r))"

definition lifecycle :: "(LeadStatus \<times> LeadStatus) set" where
  "lifecycle = {(NEW, QUALIFIED), (NEW, CONTACTED), (NEW, NURTURING), (NEW, DISQUALIFIED), (NEW, ARCHIVED),
     (QUALIFIED, CONTACTED), (QUALIFIED, NURTURING), (QUALIFIED, CONVERTED), (QUALIFIED, DISQUALIFIED), (QUALIFIED, ARCHIVED),
     (CONTACTED, QUALIFIED), (CONTACTED, NURTURING), (CONTACTED, CONVERTED), (CONTACTED, DISQUALIFIED), (CONTACTED, ARCHIVED),
     (NURTURING, CONTACTED), (NURTURING, QUALIFIED), (NURTURING, CONVERTED), (NURTURING, DISQUALIFIED), (NURTURING, ARCHIVED),
     (DISQUALIFIED, NURTURING), (DISQUALIFIED, ARCHIVED), (ARCHIVED, NEW)}"

definition given :: "string option \<Rightarrow> bool" where
  "given reason \<longleftrightarrow> reason \<noteq> None \<and> reason \<noteq> Some []"

fun may_move :: "lead_op \<Rightarrow> string \<Rightarrow> LeadStatus \<Rightarrow> LeadStatus \<Rightarrow> bool" where
  "may_move (Update a j changes expected) i s t \<longleftrightarrow> i = j \<and> (s, t) \<in> lifecycle \<and> status_change changes = Some (LeadStatus_value t)
     \<and> (t = DISQUALIFIED \<longrightarrow> given (reason_change changes))"
| "may_move (Bulk sha now a operation ids c key) i s t \<longleftrightarrow> i \<in> set ids \<and> (s, t) \<in> lifecycle
     \<and> bc_status c = Some (Some (LeadStatus_value t)) \<and> (t = DISQUALIFIED \<longrightarrow> (\<exists>reason. bc_reason c = Some reason \<and> given reason))"
| "may_move (Convert now a contact j) i s t \<longleftrightarrow> i = j \<and> (s, t) \<in> lifecycle \<and> t = CONVERTED"
| "may_move (Merge now a survivor loser) i s t \<longleftrightarrow> i = loser \<and> i \<noteq> survivor \<and> s \<noteq> CONVERTED \<and> t = ARCHIVED"
| "may_move (Disqualify a j reason) i s t \<longleftrightarrow> i = j \<and> (s, t) \<in> lifecycle \<and> t = DISQUALIFIED \<and> 3 \<le> length (py_strip reason)"
| "may_move (Restore a j) i s t \<longleftrightarrow> i = j \<and> s \<in> {DISQUALIFIED, ARCHIVED} \<and> t = NEW"
| "may_move op i s t \<longleftrightarrow> False"

fun may_add :: "lead_op \<Rightarrow> string \<Rightarrow> LeadStatus \<Rightarrow> bool" where
  "may_add (Capture a fresh p key) i t \<longleftrightarrow> i = fresh \<and> t = NEW"
| "may_add op i t \<longleftrightarrow> False"

definition board_step :: "lead_op \<Rightarrow> (string \<rightharpoonup> LeadStatus) \<Rightarrow> (string \<rightharpoonup> LeadStatus) \<Rightarrow> bool" where
  "board_step op b b' \<longleftrightarrow> (\<forall>i. b' i = b i \<or> b i = None \<and> (\<exists>t. b' i = Some t \<and> may_add op i t)
     \<or> (\<exists>s t. b i = Some s \<and> b' i = Some t \<and> may_move op i s t))"

lemma board_append: "ld_id r \<notin> ld_id ` set rows \<Longrightarrow> board (rows @ [r]) = (board rows)(ld_id r := LeadStatus_of (ld_status r))"
proof
  fix i assume "ld_id r \<notin> ld_id ` set rows"
  then have "row_at ld_id (ld_id r) rows = None" by (simp add: row_at_None)
  then show "board (rows @ [r]) i = ((board rows)(ld_id r := LeadStatus_of (ld_status r))) i"
    by (auto simp: board_def row_at_append split: option.splits)
qed

lemma board_set_row: "row_at ld_id (ld_id r) rows = Some r \<Longrightarrow> ld_id r' = ld_id r \<Longrightarrow>
    board (set_row ld_id r' rows) = (board rows)(ld_id r := LeadStatus_of (ld_status r'))"
  by (auto simp: board_def row_at_set_row fun_eq_iff)

lemma board_at: "row_at ld_id (ld_id r) rows = Some r \<Longrightarrow> board rows (ld_id r) = LeadStatus_of (ld_status r)"
  by (simp add: board_def)

lemma board_step_refl [simp]: "board_step op b b"
  by (simp add: board_step_def)

lemma board_step_row:
  assumes "row_at ld_id (ld_id r) rows = Some r" "ld_id r' = ld_id r" "LeadStatus_of (ld_status r) = Some s" "LeadStatus_of (ld_status r') = Some t"
    and "t = s \<or> may_move op (ld_id r) s t"
  shows "board_step op (board rows) (board (set_row ld_id r' rows))"
  using assms(5) board_at [OF assms(1)] by (auto simp: board_step_def board_set_row [OF assms(1,2)] assms(3,4))

lemma allowed_lifecycle: "t \<in> set (ALLOWED_TRANSITIONS s) \<longleftrightarrow> (s, t) \<in> lifecycle"
  by (cases s; cases t) (simp_all add: lifecycle_def)

lemma assert_transition_lifecycle:
  assumes "assert_transition current target reason = Inr t"
  shows "\<exists>s. LeadStatus_of current = Some s \<and> LeadStatus_of target = Some t \<and> target = LeadStatus_value t
    \<and> (t = s \<or> (s, t) \<in> lifecycle \<and> (t = DISQUALIFIED \<longrightarrow> given reason))"
  using assms unfolding allowed_lifecycle [symmetric]
  by (auto simp: assert_transition_def lead_step_def REQUIRES_REASON_def given_def dest: LeadStatus_of_Some split: option.splits if_splits)

lemma update_board:
  assumes "lead_inv db" "distinct (map change_field changes)"
  shows "board_step (Update a i changes expected) (board (lb_leads db)) (board (lb_leads (fst (update_lead a i changes expected db))))"
proof (cases "\<exists>r r'. scoped_lead a i db = Some r \<and> updated_lead a changes expected r = Inr r'")
  case False
  then have "fst (update_lead a i changes expected db) = db" by (auto simp: update_lead_def split: option.split sum.split)
  then show ?thesis by simp
next
  case True
  then obtain r r' where r: "scoped_lead a i db = Some r" "updated_lead a changes expected r = Inr r'" by blast
  note here = scoped_leadD [OF lead_inv_wf [OF assms(1)] r(1)]
  have m: "moved r (status_change changes) (reason_change changes) = Inr ()" and ne: "ld_status r' \<noteq> []"
    and st: "ld_status r' = (case status_change changes of None \<Rightarrow> ld_status r | Some v \<Rightarrow> v)"
    using r(2) apply_changes_status [OF assms(2), of r]
    by (auto simp: updated_lead_def rbind_eq_Inr bumped_def LEAD_STATUSES_def split: sum.splits if_splits)
  obtain s where s: "LeadStatus_of (ld_status r) = Some s"
    using assms(1) here row_at_Some [of ld_id] by (metis lead_inv_def lead_rows_ok_def not_None_eq)
  have "\<exists>t. LeadStatus_of (ld_status r') = Some t \<and> (t = s \<or> may_move (Update a i changes expected) (ld_id r) s t)"
  proof (cases "status_change changes")
    case None
    then show ?thesis using st s by simp
  next
    case (Some v)
    then obtain t where "assert_transition (ld_status r) v (reason_change changes) = Inr t"
      using m ne st by (auto simp: moved_def split: if_splits sum.splits)
    from assert_transition_lifecycle [OF this] show ?thesis using Some st s here by auto
  qed
  then show ?thesis using r s here updated_lead_row [OF r(2) assms(2)]
    by (auto simp: update_lead_def intro: board_step_row)
qed

lemma bulk_row_board:
  assumes "bulk_row c r = Inr (r', changed)" "LeadStatus_of (ld_status r) = Some s" "ld_id r \<in> set ids"
  shows "\<exists>t. LeadStatus_of (ld_status r') = Some t \<and> (t = s \<or> may_move (Bulk sha now a operation ids c key) (ld_id r) s t)"
proof -
  obtain r1 where r1: "bulk_status c r = Inr r1" "ld_status r' = ld_status r1"
    using assms(1) by (auto simp: bulk_row_def rbind_eq_Inr Let_def)
  show ?thesis
  proof (cases "bulk_target c")
    case None
    then show ?thesis using r1 assms(2) by (simp add: bulk_status_def)
  next
    case (Some v)
    then obtain t where t: "assert_transition (ld_status r) v (case bc_reason c of None \<Rightarrow> None | Some v \<Rightarrow> v) = Inr t" "ld_status r1 = v"
      using r1(1) by (auto simp: bulk_status_def split: sum.splits)
    have "bc_status c = Some (Some v)" using Some by (auto simp: bulk_target_def split: option.splits)
    with assert_transition_lifecycle [OF t(1)] t(2) r1(2) assms(2,3) show ?thesis
      by (auto simp: given_def split: option.splits)
  qed
qed

lemma bulk_steps_board:
  assumes "rfold (bulk_step a operation c) (db, seen) rows = Inr (db', seen')" "distinct (map ld_id rows)"
    and "\<forall>r\<in>set rows. row_at ld_id (ld_id r) (lb_leads db) = Some r \<and> ld_id r \<in> set ids \<and> LeadStatus_of (ld_status r) \<noteq> None"
  shows "board (lb_leads db') i = board (lb_leads db) i \<or> i \<in> ld_id ` set rows
    \<and> (\<exists>s t. board (lb_leads db) i = Some s \<and> board (lb_leads db') i = Some t \<and> may_move (Bulk sha now a operation ids c key) i s t)"
  using assms
proof (induction rows arbitrary: db seen)
  case Nil
  then show ?case by simp
next
  case (Cons r rows)
  obtain st where st: "bulk_step a operation c (db, seen) r = Inr st" using Cons.prems(1)
    by (cases "bulk_step a operation c (db, seen) r") simp_all
  then obtain r' changed where row: "bulk_row c r = Inr (r', changed)" by (cases "bulk_row c r") (auto simp: bulk_step_def)
  have here: "row_at ld_id (ld_id r) (lb_leads db) = Some r" and "ld_id r \<in> set ids" using Cons.prems(3) by simp_all
  obtain s where s: "LeadStatus_of (ld_status r) = Some s" using Cons.prems(3) by auto
  from bulk_row_board [OF row s \<open>ld_id r \<in> set ids\<close>] obtain t where t: "LeadStatus_of (ld_status r') = Some t"
    "t = s \<or> may_move (Bulk sha now a operation ids c key) (ld_id r) s t" by blast
  have id: "ld_id r' = ld_id r" using bulk_row_row [OF row] by simp
  obtain r2 where r2: "lb_leads (fst st) = lb_leads db \<or> lb_leads (fst st) = set_row ld_id r2 (lb_leads db)" "ld_id r2 = ld_id r" "ld_status r2 = ld_status r'"
  proof (cases changed)
    case True
    with st row id show thesis
      by (intro that [of "r'\<lparr>ld_version := ld_version r + 1, ld_updated_by := Some (ac_user a)\<rparr>"]) (auto simp: bulk_step_def)
  next
    case False
    with st row id show thesis by (intro that [of r']) (auto simp: bulk_step_def)
  qed
  have mine: "board (lb_leads (fst st)) i = board (lb_leads db) i \<or> i = ld_id r \<and> board (lb_leads db) i = Some s \<and> board (lb_leads (fst st)) i = Some t" for i
    using r2 t(1) board_set_row [OF here r2(2)] board_at [OF here] s by (cases "i = ld_id r") auto
  have others: "ld_id r \<notin> ld_id ` set rows" using Cons.prems(2) by simp
  have later: "\<forall>q\<in>set rows. row_at ld_id (ld_id q) (lb_leads (fst st)) = Some q \<and> ld_id q \<in> set ids \<and> LeadStatus_of (ld_status q) \<noteq> None"
  proof
    fix q assume q: "q \<in> set rows"
    then have "ld_id q \<noteq> ld_id r" using others by (metis image_eqI)
    then have "row_at ld_id (ld_id q) (lb_leads (fst st)) = row_at ld_id (ld_id q) (lb_leads db)" using r2(1,2) by (auto simp: row_at_set_row)
    with q Cons.prems(3) show "row_at ld_id (ld_id q) (lb_leads (fst st)) = Some q \<and> ld_id q \<in> set ids \<and> LeadStatus_of (ld_status q) \<noteq> None" by simp
  qed
  have run: "rfold (bulk_step a operation c) (fst st, snd st) rows = Inr (db', seen')" using Cons.prems(1) st by simp
  have "distinct (map ld_id rows)" using Cons.prems(2) by simp
  from Cons.IH [OF run this later] have rest: "board (lb_leads db') i = board (lb_leads (fst st)) i \<or> i \<in> ld_id ` set rows
      \<and> (\<exists>s t. board (lb_leads (fst st)) i = Some s \<and> board (lb_leads db') i = Some t \<and> may_move (Bulk sha now a operation ids c key) i s t)" .
  show ?case
  proof (cases "i = ld_id r")
    case True
    then show ?thesis using rest others mine [of i] t(2) by auto
  next
    case False
    then show ?thesis using rest mine [of i] by auto
  qed
qed

lemma bulk_board:
  assumes "lead_inv db"
  shows "board_step (Bulk sha now a operation ids c key) (board (lb_leads db)) (board (lb_leads (fst (bulk_update sha now a operation ids c key db))))"
proof -
  have wf: "lead_wf db" using assms by (rule lead_inv_wf)
  let ?rows = "bulk_rows a (sorted_set ids) db"
  have rows: "distinct (map ld_id ?rows)"
    using wf by (auto simp: bulk_rows_def lead_wf_def distinct_map elim: inj_on_subset)
  have rows_in: "\<forall>r\<in>set ?rows. row_at ld_id (ld_id r) (lb_leads db) = Some r \<and> ld_id r \<in> set ids \<and> LeadStatus_of (ld_status r) \<noteq> None"
    using wf assms by (auto simp: bulk_rows_def lead_wf_def lead_inv_def lead_rows_ok_def row_at_unique)
  have run: "board_step (Bulk sha now a operation ids c key) (board (lb_leads db)) (board (lb_leads db'))"
    if op: "bulk_operation a operation (sorted_set ids) c db = Inr (db', body)" for db' body
  proof -
    obtain db1 changed where "rfold (bulk_step a operation c) (db, []) ?rows = Inr (db1, changed)" "lb_leads db' = lb_leads db1"
      using op by (auto simp: bulk_operation_def Let_def rbind_eq_Inr split: if_splits)
    then show ?thesis using bulk_steps_board [OF _ rows rows_in] unfolding board_step_def by metis
  qed
  show ?thesis
    by (auto simp: bulk_update_def guarded_def Let_def dest!: run split: sum.split reservation.split)
qed

lemma same_status_board:
  assumes "lead_inv db" "scoped_lead a i db = Some r" "ld_id r' = ld_id r" "ld_status r' = ld_status r"
  shows "board_step op (board (lb_leads db)) (board (set_row ld_id r' (lb_leads db)))"
proof -
  have here: "row_at ld_id (ld_id r) (lb_leads db) = Some r" using scoped_leadD [OF lead_inv_wf [OF assms(1)] assms(2)] by blast
  then have "board (set_row ld_id r' (lb_leads db)) = board (lb_leads db)"
    using board_set_row [OF here assms(3)] board_at [OF here] assms(4) by (simp add: fun_upd_idem)
  then show ?thesis by simp
qed

lemma persist_board:
  assumes "lead_inv db"
  shows "board_step op (board (lb_leads db)) (board (lb_leads (fst (persist_qualification now a i q action db))))"
proof (cases "scoped_lead a i db")
  case None
  then show ?thesis by (simp add: persist_qualification_def)
next
  case (Some r)
  then show ?thesis by (auto simp: persist_qualification_def Let_def intro!: same_status_board [OF assms Some])
qed

lemma convert_board:
  assumes "lead_inv db"
  shows "board_step (Convert now a contact i) (board (lb_leads db)) (board (lb_leads (fst (convert now a contact i db))))"
proof (cases "\<exists>r t. scoped_lead a i db = Some r \<and> assert_transition (ld_status r) ''converted'' None = Inr t
    \<and> contact_accepted (new_contact a contact r) (lb_contacts db)")
  case False
  then have "fst (convert now a contact i db) = db" by (auto simp: convert_def split: option.split sum.split)
  then show ?thesis by simp
next
  case True
  then obtain r t where r: "scoped_lead a i db = Some r" "assert_transition (ld_status r) ''converted'' None = Inr t"
    "contact_accepted (new_contact a contact r) (lb_contacts db)" by blast
  note here = scoped_leadD [OF lead_inv_wf [OF assms] r(1)]
  from assert_transition_lifecycle [OF r(2)] obtain s where "LeadStatus_of (ld_status r) = Some s" "t = CONVERTED"
    "t = s \<or> (s, t) \<in> lifecycle" by auto
  with r here show ?thesis by (auto simp: convert_def intro!: board_step_row [where s = s and t = t])
qed

lemma disqualify_board:
  assumes "lead_inv db"
  shows "board_step (Disqualify a i reason) (board (lb_leads db)) (board (lb_leads (fst (disqualify_lead a i reason db))))"
proof (cases "\<exists>r t. load_lead (ac_tenant a) False i db = Some r \<and> assert_transition (ld_status r) ''disqualified'' (Some (py_strip reason)) = Inr t
    \<and> 3 \<le> length (py_strip reason)")
  case False
  then have "fst (disqualify_lead a i reason db) = db" by (auto simp: disqualify_lead_def Let_def split: option.split sum.split)
  then show ?thesis by simp
next
  case True
  then obtain r t where r: "load_lead (ac_tenant a) False i db = Some r"
    "assert_transition (ld_status r) ''disqualified'' (Some (py_strip reason)) = Inr t" "3 \<le> length (py_strip reason)" by blast
  note here = load_leadD [OF lead_inv_wf [OF assms] r(1)]
  have d: "LeadStatus_of ''disqualified'' = Some DISQUALIFIED" by code_simp
  from assert_transition_lifecycle [OF r(2)] obtain s where "LeadStatus_of (ld_status r) = Some s"
    "t = DISQUALIFIED" "t = s \<or> (s, t) \<in> lifecycle" using d by auto
  with d r here show ?thesis by (auto simp: disqualify_lead_def Let_def intro!: board_step_row [where s = s and t = t])
qed

lemma restore_board:
  assumes "lead_inv db"
  shows "board_step (Restore a i) (board (lb_leads db)) (board (lb_leads (fst (restore_lead a i db))))"
proof (cases "\<exists>r. load_lead (ac_tenant a) True i db = Some r \<and> ld_merged_into r = None \<and> ld_status r \<in> {''disqualified'', ''archived''}")
  case False
  then have "fst (restore_lead a i db) = db" by (auto simp: restore_lead_def split: option.split)
  then show ?thesis by simp
next
  case True
  then obtain r where r: "load_lead (ac_tenant a) True i db = Some r" "ld_merged_into r = None" "ld_status r \<in> {''disqualified'', ''archived''}"
    by blast
  note here = load_leadD [OF lead_inv_wf [OF assms] r(1)]
  have "LeadStatus_of ''disqualified'' = Some DISQUALIFIED" by code_simp
  with r(3) obtain s where "LeadStatus_of (ld_status r) = Some s" "s \<in> {DISQUALIFIED, ARCHIVED}" by auto
  with r here show ?thesis by (auto simp: restore_lead_def intro!: board_step_row [where s = s and t = NEW])
qed

lemma merge_board:
  assumes "lead_inv db"
  shows "board_step (Merge now a si li) (board (lb_leads db)) (board (lb_leads (fst (merge_leads now a si li db))))"
proof (cases "\<exists>s l. si \<noteq> li \<and> load_lead (ac_tenant a) False si db = Some s \<and> load_lead (ac_tenant a) False li db = Some l
    \<and> ld_status l \<noteq> ''converted'' \<and> ld_merged_into s = None")
  case False
  then have "fst (merge_leads now a si li db) = db" by (auto simp: merge_leads_def split: option.split)
  then show ?thesis by simp
next
  case True
  then obtain s l where sl: "si \<noteq> li" "load_lead (ac_tenant a) False si db = Some s" "load_lead (ac_tenant a) False li db = Some l"
    "ld_status l \<noteq> ''converted''" "ld_merged_into s = None" by blast
  note s = load_leadD [OF lead_inv_wf [OF assms] sl(2)] and l = load_leadD [OF lead_inv_wf [OF assms] sl(3)]
  let ?rows = "set_row ld_id (survivor_of a s l) (lb_leads db)"
  have here: "row_at ld_id (ld_id s) (lb_leads db) = Some s" using s by blast
  then have same: "board ?rows = board (lb_leads db)"
    using board_set_row [OF here, of "survivor_of a s l"] board_at [OF here] by (simp add: fun_upd_idem)
  have "row_at ld_id (ld_id l) ?rows = Some l" using s l sl(1) by (auto simp: row_at_set_row)
  moreover obtain x where x: "LeadStatus_of (ld_status l) = Some x"
    using assms l row_at_Some [of ld_id] by (metis lead_inv_def lead_rows_ok_def not_None_eq)
  moreover have "x \<noteq> CONVERTED" using sl(4) LeadStatus_of_Some [OF x] by (auto simp: LeadStatus_value_def)
  ultimately have "board_step (Merge now a si li) (board ?rows) (board (set_row ld_id (merged_loser now a si l) ?rows))"
    using l sl(1) by (intro board_step_row [where s = x and t = ARCHIVED]) auto
  moreover have "lb_leads (fst (merge_leads now a si li db)) = set_row ld_id (merged_loser now a si l) ?rows"
    using sl by (simp add: merge_leads_def put_lead_def)
  ultimately show ?thesis using same by simp
qed

lemma capture_board:
  assumes "fresh \<notin> set (map ld_id (lb_leads db))"
  shows "board_step (Capture a fresh p key) (board (lb_leads db)) (board (lb_leads (fst (capture a fresh p key db))))"
proof (cases "lb_leads (fst (capture a fresh p key db)) = lb_leads db")
  case False
  then obtain name where new: "lb_leads (fst (capture a fresh p key db)) = lb_leads db @ [new_lead a fresh p name]"
    by (auto simp: capture_def Let_def split: option.splits if_splits)
  have "row_at ld_id fresh (lb_leads db) = None" using assms unfolding row_at_None by simp
  then have "board (lb_leads db) fresh = None" by (simp add: board_def)
  then show ?thesis unfolding new using board_append [of "new_lead a fresh p name" "lb_leads db"] assms
    by (auto simp: board_step_def new_lead_def)
qed simp

lemma respond_board: "board (lb_leads (fst (record_first_response a i channel direction t source outcome db))) = board (lb_leads db)"
proof -
  have "board (map (stamp_first_response tenant i t) rows) j = board rows j" for tenant rows j
    by (induction rows) (auto simp: board_def row_at_def stamp_first_response_def)
  then show ?thesis by (auto simp: record_first_response_def fun_eq_iff)
qed

interpretation lead_sim: simulation lead_apply lead_op_ok lead_inv "\<lambda>db. board (lb_leads db)" board_step
proof
  fix db op assume inv: "lead_inv db" and ok: "lead_op_ok db op"
  show "lead_inv (lead_apply db op)" using inv ok by (rule lead_inv_apply)
  show "board_step op (board (lb_leads db)) (board (lb_leads (lead_apply db op)))"
  proof (cases op)
    case (Qualify now a criteria answer i mode score remarks)
    then show ?thesis using persist_board [OF inv] by (simp add: qualify_def split: option.split sum.split)
  next
    case (Review now a criteria i decision score remark)
    then show ?thesis using persist_board [OF inv] by (simp add: review_qualification_def split: option.split sum.split)
  next
    case (Deduplicate a i persist)
    then show ?thesis by (simp add: deduplicate_def Let_def split: option.split)
  qed (use ok in \<open>simp_all add: update_board bulk_board convert_board disqualify_board restore_board merge_board capture_board respond_board inv\<close>)
qed

lemma converted_kept: "board_step op b b' \<Longrightarrow> b i = Some CONVERTED \<Longrightarrow> b' i = Some CONVERTED"
proof -
  assume "board_step op b b'" and b: "b i = Some CONVERTED"
  then consider "b' i = b i" | t where "may_move op i CONVERTED t" unfolding board_step_def by (metis option.inject option.distinct(1))
  then show "b' i = Some CONVERTED"
  proof cases
    case 2
    then show ?thesis by (cases op) (simp_all add: lifecycle_def)
  qed (use b in simp)
qed

section \<open>Chains of merges\<close>

lemma finite_merges: "finite (merges rows)"
proof -
  have "merges rows \<subseteq> (\<lambda>r. (ld_id r, the (ld_merged_into r))) ` set rows" by (force simp: merges_def)
  then show ?thesis by (rule finite_subset) simp
qed

lemma merge_chain_end:
  assumes "lead_rows_ok rows" and "r \<in> set rows"
  shows "\<exists>e\<in>set rows. (ld_id r, ld_id e) \<in> (merges rows)\<^sup>* \<and> ld_merged_into e = None"
proof -
  have wf: "wf ((merges rows)\<inverse>)"
    using assms(1) by (intro finite_acyclic_wf_converse finite_merges) (simp add: lead_rows_ok_def)
  have "\<forall>r\<in>set rows. ld_id r = i \<longrightarrow> (\<exists>e\<in>set rows. (ld_id r, ld_id e) \<in> (merges rows)\<^sup>* \<and> ld_merged_into e = None)" for i
  proof (induction i rule: wf_induct_rule [OF wf])
    case (1 i)
    show ?case
    proof (intro ballI impI)
      fix r assume r: "r \<in> set rows" "ld_id r = i"
      show "\<exists>e\<in>set rows. (ld_id r, ld_id e) \<in> (merges rows)\<^sup>* \<and> ld_merged_into e = None"
      proof (cases "ld_merged_into r")
        case None
        then show ?thesis using r(1) by (intro bexI [of _ r]) simp_all
      next
        case (Some s)
        then have m: "(i, s) \<in> merges rows" using r by (auto simp: merges_def)
        have "s \<in> ld_id ` set rows"
          using assms(1) m unfolding lead_rows_ok_def by (elim conjE) (drule subsetD, rule image_eqI [of _ snd], simp_all)
        then obtain q where q: "q \<in> set rows" "ld_id q = s" by blast
        have "(s, i) \<in> (merges rows)\<inverse>" using m by simp
        from bspec [OF 1 [OF this] q(1)] q(2) obtain e
          where e: "e \<in> set rows" "(s, ld_id e) \<in> (merges rows)\<^sup>*" "ld_merged_into e = None" by blast
        have "(ld_id r, ld_id e) \<in> (merges rows)\<^sup>*" unfolding r(2) using m e(2) by (rule converse_rtrancl_into_rtrancl)
        with e show ?thesis by blast
      qed
    qed
  qed
  from bspec [OF this assms(2)] show ?thesis by simp
qed

section \<open>First responses\<close>

definition answered_at :: "Lead list \<Rightarrow> string \<Rightarrow> instant option" where
  "answered_at rows i = (case row_at ld_id i rows of None \<Rightarrow> None | Some r \<Rightarrow> ld_first_response r)"

lemma answered_write:
  assumes "lead_write F rows rows'"
  shows "answered_at rows' i = answered_at rows i \<or> answered_at rows i = None \<and> (\<exists>t. (i, t) \<in> F \<and> answered_at rows' i = Some t)"
  using assms
proof (cases rule: lead_write.cases)
  case (added r)
  then have "row_at ld_id (ld_id r) rows = None" by (simp add: row_at_None)
  then show ?thesis using added by (auto simp: answered_at_def row_at_append split: option.split)
next
  case (changed r r')
  then show ?thesis by (auto simp: answered_at_def row_at_set_row)
next
  case (merged l l' s)
  then show ?thesis by (auto simp: answered_at_def row_at_set_row)
next
  case (stamped r t)
  then show ?thesis by (cases "i = ld_id r") (simp_all add: answered_at_def row_at_set_row)
qed

lemma answered_writes:
  assumes "(lead_write F)\<^sup>*\<^sup>* rows rows'"
  shows "answered_at rows' i = answered_at rows i \<or> answered_at rows i = None \<and> (\<exists>t. (i, t) \<in> F \<and> answered_at rows' i = Some t)"
  using assms
proof (induction rule: rtranclp_induct)
  case base
  then show ?case by simp
next
  case (step rows1 rows2)
  then show ?case using answered_write [OF step(2), of i] by auto
qed

lemma answered_run:
  assumes "lead_inv db" and "run_ok lead_apply lead_op_ok db ops"
  shows "answered_at (lb_leads (foldl lead_apply db ops)) i = answered_at (lb_leads db) i
    \<or> answered_at (lb_leads db) i = None
      \<and> (\<exists>op\<in>set ops. \<exists>t. (i, t) \<in> stamps op \<and> answered_at (lb_leads (foldl lead_apply db ops)) i = Some t)"
  using assms
proof (induction ops arbitrary: db)
  case Nil
  then show ?case by simp
next
  case (Cons op ops)
  have "(lead_write (stamps op))\<^sup>*\<^sup>* (lb_leads db) (lb_leads (lead_apply db op))"
    using Cons.prems by (intro lead_op_writes lead_inv_wf) simp_all
  note one = answered_writes [OF this, of i]
  have "lead_inv (lead_apply db op)" using Cons.prems by (intro lead_inv_apply) simp_all
  note rest = Cons.IH [OF this]
  show ?case using one rest Cons.prems(2) by auto
qed

section \<open>Idempotent bulk updates\<close>

lemma idem_tables [simp]: "lb_idempotency (audit_lead e db) = lb_idempotency db"
  "lb_idempotency (emit_lead e db) = lb_idempotency db" "lb_idempotency (put_lead r db) = lb_idempotency db"
  by (simp_all add: audit_lead_def emit_lead_def put_lead_def)


lemma persist_keeps_idem [simp]: "lb_idempotency (fst (persist_qualification now a i q action db)) = lb_idempotency db"
  by (simp add: persist_qualification_def Let_def split: option.split)





section \<open>Properties\<close>

lemma lead_inv_empty: "lb_leads db = [] \<Longrightarrow> lead_inv db"
  by (simp add: lead_inv_def lead_rows_ok_def merges_def acyclic_def)

definition lead_user :: actor where
  "lead_user = \<lparr>ac_tenant = ''t'', ac_user = ''u'', ac_perms = \<lparr>ep_permissions = [''lead:update'', ''lead:assign''], ep_scope = SELF,
     ep_branch_ids = [], ep_team_ids = [], ep_user_id = Some ''u''\<rparr>\<rparr>"

definition sample_payload :: "string \<Rightarrow> lead_payload" where
  "sample_payload name = \<lparr>lp_first_name = Some name, lp_last_name = None, lp_email = None, lp_phone = Some ''+919876543210'', lp_source = None,
     lp_source_channel = None, lp_capture = [], lp_utm = [], lp_assignee = None, lp_branch = None, lp_team = None\<rparr>"

definition empty_lead_db :: lead_db where
  "empty_lead_db = \<lparr>lb_leads = [], lb_source_events = [], lb_contacts = [], lb_candidates = [], lb_idempotency = [], lb_audit = [],
     lb_outbox = []\<rparr>"

definition sample_ops :: "lead_op list" where
  "sample_ops = [Capture lead_user ''l'' (sample_payload ''Asha'') None, Capture lead_user ''m'' (sample_payload ''Ravi'') None,
     Capture lead_user ''n'' (sample_payload ''Mina'') None, Update lead_user ''l'' [Set_status (Some ''contacted'')] None,
     Convert 7 lead_user ''c'' ''l'', Disqualify lead_user ''l'' ''no budget'', Disqualify lead_user ''m'' ''no budget'',
     Restore lead_user ''m'', Merge 8 lead_user ''l'' ''m'', Merge 9 lead_user ''m'' ''n'', Restore lead_user ''m'',
     Respond lead_user ''n'' ''call'' ''outbound'' 10 ''timeline'' (Some ''no_answer''),
     Respond lead_user ''n'' ''call'' ''outbound'' 11 ''timeline'' (Some ''spoke''),
     Respond lead_user ''n'' ''email'' ''outbound'' 12 ''timeline'' None]"

text \<open>C13. The lead services implement the lifecycle, operation by operation. In a run of captures, updates, bulk updates,
  qualifications, reviews, conversions, merges, disqualifications, restorations, duplicate searches and first responses, in any
  order and whatever they answer, each operation leaves the status of a lead or makes one move that is its own: an update or
  a bulk update moves only the leads it names, only to the status it asks for, only along the lifecycle and to disqualified only
  with a reason; a conversion goes along the lifecycle to converted; a disqualification needs a reason of three characters; a
  merge archives its loser, which is not converted; a restoration reopens a disqualified or archived lead; a capture adds
  one new lead; the other operations change no status; no lead disappears. A converted lead stays converted.\<close>

theorem lead_service_refines_lifecycle:
  assumes "lead_inv db" and "run_ok lead_apply lead_op_ok db (ops @ [op])"
  shows "board_step op (board (lb_leads (foldl lead_apply db ops))) (board (lb_leads (foldl lead_apply db (ops @ [op]))))
    \<and> (board (lb_leads db) i = Some CONVERTED \<longrightarrow> board (lb_leads (foldl lead_apply db (ops @ [op]))) i = Some CONVERTED)"
proof
  show "board_step op (board (lb_leads (foldl lead_apply db ops))) (board (lb_leads (foldl lead_apply db (ops @ [op]))))"
    using assms by (rule lead_sim.simulates_next)
  show "board (lb_leads db) i = Some CONVERTED \<longrightarrow> board (lb_leads (foldl lead_apply db (ops @ [op]))) i = Some CONVERTED"
  proof
    assume "board (lb_leads db) i = Some CONVERTED"
    with assms show "board (lb_leads (foldl lead_apply db (ops @ [op]))) i = Some CONVERTED"
      by (intro lead_sim.abstract_kept [where P = "\<lambda>b. b i = Some CONVERTED"]) (rule converted_kept)
  qed
qed

lemma sample_ops_ok: "run_ok lead_apply lead_op_ok empty_lead_db sample_ops"
  by code_simp

lemma empty_inv: "lead_inv empty_lead_db"
  by (rule lead_inv_empty) (simp add: empty_lead_db_def)

theorem lead_service_refines_lifecycle_witness:
  "board_step (last sample_ops) (board (lb_leads (foldl lead_apply empty_lead_db (butlast sample_ops))))
      (board (lb_leads (foldl lead_apply empty_lead_db sample_ops)))
   \<and> map (board (lb_leads (foldl lead_apply empty_lead_db sample_ops))) [''l'', ''m'', ''n''] = [Some CONVERTED, Some ARCHIVED, Some NEW]"
proof
  have split: "butlast sample_ops @ [last sample_ops] = sample_ops" by (simp add: sample_ops_def)
  show "board_step (last sample_ops) (board (lb_leads (foldl lead_apply empty_lead_db (butlast sample_ops))))
      (board (lb_leads (foldl lead_apply empty_lead_db sample_ops)))"
    using lead_service_refines_lifecycle [OF empty_inv, of "butlast sample_ops" "last sample_ops"] sample_ops_ok unfolding split by blast
  show "map (board (lb_leads (foldl lead_apply empty_lead_db sample_ops))) [''l'', ''m'', ''n''] = [Some CONVERTED, Some ARCHIVED, Some NEW]"
    by code_simp
qed

text \<open>C14. A merged lead can be followed to the record it became: from every lead the chain of \<^verbatim>\<open>merged_into_id\<close> ends, without a
  cycle, at a stored lead that is not merged away; merged leads stay archived and deleted.\<close>

theorem merge_chains_end:
  assumes "lb_leads db = []" and "run_ok lead_apply lead_op_ok db ops" and "rows = lb_leads (foldl lead_apply db ops)" and "r \<in> set rows"
  shows "(\<exists>e\<in>set rows. (ld_id r, ld_id e) \<in> (merges rows)\<^sup>* \<and> ld_merged_into e = None) \<and> acyclic (merges rows)
    \<and> (ld_merged_into r \<noteq> None \<longrightarrow> ld_status r = ''archived'' \<and> ld_deleted_at r \<noteq> None)"
proof -
  have "lead_rows_ok rows"
    using lead_sim.kept_run [OF lead_inv_empty [OF assms(1)] assms(2)] by (simp add: lead_inv_def assms(3))
  then show ?thesis using merge_chain_end assms(4) by (auto simp: lead_rows_ok_def)
qed

theorem merge_chains_end_witness:
  "\<exists>rows r e. rows = lb_leads (foldl lead_apply empty_lead_db sample_ops) \<and> r = rows ! 1 \<and> ld_id r = ''m'' \<and> ld_merged_into r = Some ''l''
    \<and> e \<in> set rows \<and> (ld_id r, ld_id e) \<in> (merges rows)\<^sup>* \<and> ld_merged_into e = None \<and> ld_status r = ''archived''"
proof -
  let ?rows = "lb_leads (foldl lead_apply empty_lead_db sample_ops)"
  have facts: "1 < length ?rows" "ld_id (?rows ! 1) = ''m''" "ld_merged_into (?rows ! 1) = Some ''l''" by code_simp+
  then have "?rows ! 1 \<in> set ?rows" by (intro nth_mem)
  from merge_chains_end [OF _ sample_ops_ok refl this] facts(3)
  obtain e where "e \<in> set ?rows" "(ld_id (?rows ! 1), ld_id e) \<in> (merges ?rows)\<^sup>*" "ld_merged_into e = None" "ld_status (?rows ! 1) = ''archived''"
    by (auto simp: empty_lead_db_def)
  then show ?thesis using facts by blast
qed

text \<open>A recorded first response is never restated, and one is recorded only by a contact that reached the customer: after any
  sequence of operations the time is the one recorded before, or that of a contact in the sequence that qualifies.\<close>

theorem first_response_permanent:
  assumes "lead_inv db" and "run_ok lead_apply lead_op_ok db ops" and "answered_at (lb_leads (foldl lead_apply db ops)) i = after_run"
  shows "after_run = answered_at (lb_leads db) i \<or> answered_at (lb_leads db) i = None
    \<and> (\<exists>a channel direction t source outcome. Respond a i channel direction t source outcome \<in> set ops
        \<and> qualifies_as_first_response channel direction outcome \<and> after_run = Some t)"
proof -
  have "\<exists>a channel direction source outcome. op = Respond a i channel direction t source outcome \<and> qualifies_as_first_response channel direction outcome"
    if "(i, t) \<in> stamps op" for op t
    using that by (cases op) (auto split: if_splits)
  then show ?thesis using answered_run [OF assms(1,2), of i] assms(3) by metis
qed

theorem first_response_permanent_witness:
  "answered_at (lb_leads (foldl lead_apply empty_lead_db sample_ops)) ''n'' = Some 11
   \<and> (\<exists>a channel direction t source outcome. Respond a ''n'' channel direction t source outcome \<in> set sample_ops
        \<and> qualifies_as_first_response channel direction outcome \<and> Some 11 = Some t)"
proof
  show a: "answered_at (lb_leads (foldl lead_apply empty_lead_db sample_ops)) ''n'' = Some 11" by code_simp
  show "\<exists>a channel direction t source outcome. Respond a ''n'' channel direction t source outcome \<in> set sample_ops
        \<and> qualifies_as_first_response channel direction outcome \<and> Some 11 = Some t"
    using first_response_permanent [OF empty_inv sample_ops_ok a] by (simp add: answered_at_def row_at_def empty_lead_db_def)
qed





text \<open>Converting is not idempotent: the lifecycle accepts the move from converted to converted, so only the uniqueness of
  email addresses stops a second conversion. A lead without one is converted again, into a second contact.\<close>

theorem conversion_repeats:
  assumes "distinct (map ld_id (lb_leads db))" and "scoped_lead a i db = Some r" and "convert now a contact i db = (db1, Inr contact)"
  shows "(if ld_email r = None
      then \<exists>db2. convert later a contact' i db1 = (db2, Inr contact')
        \<and> lb_contacts db2 = lb_contacts db @ [new_contact a contact r, new_contact a contact' r]
      else convert later a contact' i db1 = (db1, Inl Contact_refused))"
proof -
  let ?r = "r\<lparr>ld_status := ''converted'', ld_contact := Some contact, ld_converted_at := Some now, ld_version := ld_version r + 1\<rparr>"
  have db1: "lb_leads db1 = set_row ld_id ?r (lb_leads db)" "lb_contacts db1 = lb_contacts db @ [new_contact a contact r]"
    and ok: "contact_accepted (new_contact a contact r) (lb_contacts db)"
    using assms(2,3) by (auto simp: convert_def audit_lead_def emit_lead_def put_lead_def split: sum.splits if_splits)
  have in_db: "r \<in> set (lb_leads db)" "ld_id r = i" "visible lead_model (ac_tenant a) (ac_perms a) r"
    using assms(2) by (auto simp: scoped_lead_def get_scoped_def find_Some_iff lead_model_def)
  have "visible lead_model (ac_tenant a) (ac_perms a) ?r" using in_db(3) by (simp add: visible_def lead_model_def)
  moreover have "List.find (\<lambda>x. ld_id x = i) (set_row ld_id ?r (lb_leads db)) = Some ?r"
    using row_at_set_row [of ld_id i ?r "lb_leads db"] row_at_unique [OF assms(1) in_db(1)] in_db(2) by (simp add: row_at_def)
  ultimately have again: "scoped_lead a i db1 = Some ?r"
    unfolding scoped_lead_def get_scoped_def db1(1) by (auto simp: find_Some_iff lead_model_def)
  have same: "new_contact a c ?r = new_contact a c r" for c by (simp add: new_contact_def)
  have "contact_accepted (new_contact a contact' r) (lb_contacts db1) \<longleftrightarrow> ld_email r = None"
    using ok by (auto simp: contact_accepted_def new_contact_def db1(2))
  moreover have "assert_transition ''converted'' ''converted'' None = Inr CONVERTED"
    by (simp add: assert_transition_def lead_step_def)
  ultimately show ?thesis using again db1(2) same
    by (auto simp: convert_def audit_lead_def emit_lead_def put_lead_def)
qed

theorem conversion_repeats_witness:
  "\<exists>db1 db2 r. convert 7 lead_user ''c'' ''l'' (foldl lead_apply empty_lead_db (take 4 sample_ops)) = (db1, Inr ''c'')
    \<and> convert 8 lead_user ''d'' ''l'' db1 = (db2, Inr ''d'') \<and> lb_contacts db2 = [new_contact lead_user ''c'' r, new_contact lead_user ''d'' r]"
proof -
  let ?db = "foldl lead_apply empty_lead_db (take 4 sample_ops)"
  have d: "distinct (map ld_id (lb_leads ?db))" and none: "lb_contacts ?db = []"
    and e: "map_option ld_email (scoped_lead lead_user ''l'' ?db) = Some None" by code_simp+
  then obtain r where r: "scoped_lead lead_user ''l'' ?db = Some r" "ld_email r = None" by auto
  have "snd (convert 7 lead_user ''c'' ''l'' ?db) = Inr ''c''" by code_simp
  then have "convert 7 lead_user ''c'' ''l'' ?db = (fst (convert 7 lead_user ''c'' ''l'' ?db), Inr ''c'')" by (metis prod.collapse)
  from conversion_repeats [OF d r(1) this, of 8 "''d''"] this none r(2) show ?thesis by auto
qed

end
