(* ===== verification/Workflow_Approvals.thy ===== *)
theory Workflow_Approvals
  imports Tables Py_Json
begin

text \<open>
  \<^verbatim>\<open>application/workflows/approvals.py\<close>: decisions on a suspended workflow execution. The tables are those
  of \<^verbatim>\<open>infrastructure/database/models/workflows.py\<close> with the columns the handlers read and write, shared
  with the execution tasks. A call is one transaction that locks the rows it changes, so it is one state
  change; row level security restricts every query to the tenant of the session.
\<close>

section \<open>Tables\<close>

record Principal =
  pr_tenant :: string
  pr_user :: string
  pr_roles :: "string list"

record decision_row =
  de_actor :: string
  de_decision :: string
  de_comment :: string
  de_assignees :: "string list"
  de_at :: instant

record approval_row =
  ap_id :: string
  ap_tenant :: string
  ap_execution :: string
  ap_node :: string
  ap_state :: string
  ap_strategy :: string
  ap_quorum :: int
  ap_assignees :: "json list"
  ap_decisions :: "decision_row list"
  ap_summary :: string
  ap_due_at :: "instant option"
  ap_resolved_at :: "instant option"
  ap_timeout_path :: json

text \<open>The column \<^verbatim>\<open>context\<close> of an execution is split into the keys the code stores there.\<close>

record execution_row =
  ex_id :: string
  ex_tenant :: string
  ex_workflow :: string
  ex_version :: string
  ex_content_hash :: string
  ex_trigger_payload :: jdict
  ex_entity :: jdict
  ex_waiting_on :: "string option"
  ex_resume_nodes :: "string list"
  ex_state :: string
  ex_key :: string
  ex_started_at :: "instant option"
  ex_finished_at :: "instant option"
  ex_resume_at :: "instant option"
  ex_error :: jdict
  ex_dry_run :: bool
  ex_correlation :: "string option"
  ex_trigger_type :: string
  ex_trigger_event :: "string option"

record log_row =
  lg_type :: string
  lg_tenant :: string
  lg_resource :: string
  lg_actor :: "string option"
  lg_values :: jdict

record node_row =
  nx_type :: string
  nx_state :: string
  nx_key :: "string option"
  nx_output :: jdict
  nx_error :: jdict
  nx_finished_at :: "instant option"

text \<open>Node executions are keyed by execution, node and attempt (constraint \<^verbatim>\<open>exec_node_attempt\<close>).\<close>

record wf_db =
  wf_approvals :: "approval_row list"
  wf_executions :: "execution_row list"
  wf_nodes :: "(string \<times> string \<times> int, node_row) adict"
  wf_audit :: "log_row list"
  wf_outbox :: "log_row list"

section \<open>Who may decide\<close>

text \<open>The set \<^verbatim>\<open>({user_token} | role_tokens) & allowed\<close>, as a list.\<close>

definition matching_assignees :: "json list \<Rightarrow> Principal \<Rightarrow> string list" where
  "matching_assignees assignees who =
     filter (\<lambda>t. t \<in> set (map py_str assignees))
       ((''user:'' @ pr_user who) # map (\<lambda>role. ''role:'' @ role) (pr_roles who))"

definition list_pending_approvals :: "Principal \<Rightarrow> wf_db \<Rightarrow> approval_row list" where
  "list_pending_approvals who db =
     filter (\<lambda>a. matching_assignees (ap_assignees a) who \<noteq> [])
       (take 200 (filter (\<lambda>a. ap_tenant a = pr_tenant who \<and> ap_state a = ''requested'') (wf_approvals db)))"

section \<open>When a vote is decided\<close>

definition resolved_state :: "string \<Rightarrow> int \<Rightarrow> json list \<Rightarrow> decision_row list \<Rightarrow> string option" where
  "resolved_state strategy quorum assignees decisions =
     (let approved = filter (\<lambda>d. de_decision d = ''approved'') decisions;
          rejected = filter (\<lambda>d. de_decision d = ''rejected'') decisions in
      if strategy = ''any'' then
        (if approved \<noteq> [] then Some ''approved'' else if rejected \<noteq> [] then Some ''rejected'' else None)
      else if strategy = ''all'' then
        (if rejected \<noteq> [] then Some ''rejected''
         else if list_all (\<lambda>t. t \<in> set (concat (map de_assignees approved))) (map py_str assignees)
         then Some ''approved'' else None)
      else if int (length approved) \<ge> quorum then Some ''approved''
      else if int (length rejected) > max 0 (int (length assignees) - quorum) then Some ''rejected''
      else None)"

definition approval_vote :: "approval_row \<Rightarrow> string option" where
  "approval_vote a = resolved_state (ap_strategy a) (ap_quorum a) (ap_assignees a) (ap_decisions a)"

section \<open>The decision handler\<close>

datatype approval_error = Bad_decision | Approval_not_found | Not_assigned | Already_resolved | Already_decided
  | Execution_missing

record decide_receipt =
  dr_approval :: approval_row
  dr_duplicate :: bool
  dr_resume :: bool

definition visible_approval :: "string \<Rightarrow> string \<Rightarrow> wf_db \<Rightarrow> approval_row option" where
  "visible_approval tenant approval_id db =
     (case row_at ap_id approval_id (wf_approvals db) of
        None \<Rightarrow> None | Some a \<Rightarrow> if ap_tenant a = tenant then Some a else None)"

definition visible_execution :: "string \<Rightarrow> string \<Rightarrow> wf_db \<Rightarrow> execution_row option" where
  "visible_execution tenant execution_id db =
     (case row_at ex_id execution_id (wf_executions db) of
        None \<Rightarrow> None | Some e \<Rightarrow> if ex_tenant e = tenant then Some e else None)"

definition put_execution :: "execution_row \<Rightarrow> wf_db \<Rightarrow> wf_db" where
  "put_execution e db = db\<lparr>wf_executions := set_row ex_id e (wf_executions db)\<rparr>"

definition put_approval :: "approval_row \<Rightarrow> wf_db \<Rightarrow> wf_db" where
  "put_approval a db = db\<lparr>wf_approvals := set_row ap_id a (wf_approvals db)\<rparr>"

definition add_audit :: "log_row \<Rightarrow> wf_db \<Rightarrow> wf_db" where
  "add_audit r db = db\<lparr>wf_audit := wf_audit db @ [r]\<rparr>"

definition add_outbox :: "log_row \<Rightarrow> wf_db \<Rightarrow> wf_db" where
  "add_outbox r db = db\<lparr>wf_outbox := wf_outbox db @ [r]\<rparr>"

definition new_decision :: "instant \<Rightarrow> Principal \<Rightarrow> string \<Rightarrow> string \<Rightarrow> approval_row \<Rightarrow> decision_row" where
  "new_decision now who decision comment a =
     \<lparr>de_actor = pr_user who, de_decision = decision, de_comment = take 1000 comment,
      de_assignees = sorted_set (matching_assignees (ap_assignees a) who), de_at = now\<rparr>"

definition decided :: "instant \<Rightarrow> decision_row \<Rightarrow> approval_row \<Rightarrow> approval_row" where
  "decided now d a =
     (let a' = a\<lparr>ap_decisions := ap_decisions a @ [d]\<rparr>
      in case approval_vote a' of None \<Rightarrow> a' | Some s \<Rightarrow> a'\<lparr>ap_state := s, ap_resolved_at := Some now\<rparr>)"

definition resolve_execution :: "instant \<Rightarrow> approval_row \<Rightarrow> string option \<Rightarrow> execution_row \<Rightarrow> execution_row" where
  "resolve_execution now a resolved e =
     (if resolved = Some ''approved'' then e\<lparr>ex_resume_at := Some now\<rparr>
      else if resolved = Some ''rejected'' then
        e\<lparr>ex_state := ''failed'', ex_finished_at := Some now, ex_resume_at := None,
          ex_error := [(''reason'', JStr ''approval rejected''), (''approval_id'', JStr (ap_id a))]\<rparr>
      else e)"

definition record_decision :: "instant \<Rightarrow> Principal \<Rightarrow> string \<Rightarrow> string \<Rightarrow> approval_row \<Rightarrow> execution_row \<Rightarrow> wf_db
    \<Rightarrow> decide_receipt \<times> wf_db" where
  "record_decision now who decision comment a e db =
     (let a' = decided now (new_decision now who decision comment a) a;
          resolved = approval_vote a';
          db1 = put_execution (resolve_execution now a' resolved e) (put_approval a' db);
          db2 = add_audit \<lparr>lg_type = ''workflow.approval_decided'', lg_tenant = pr_tenant who, lg_resource = ap_id a,
                  lg_actor = Some (pr_user who),
                  lg_values = [(''decision'', JStr decision), (''state'', JStr (ap_state a'))]\<rparr> db1;
          db3 = (case resolved of None \<Rightarrow> db2 | Some s \<Rightarrow>
                  add_outbox \<lparr>lg_type = (if s = ''approved'' then ''approval.approved'' else ''approval.rejected''),
                    lg_tenant = pr_tenant who, lg_resource = ap_id a, lg_actor = Some (pr_user who),
                    lg_values = [(''execution_id'', JStr (ap_execution a)), (''node_id'', JStr (ap_node a))]\<rparr> db2)
      in (\<lparr>dr_approval = a', dr_duplicate = False, dr_resume = (resolved = Some ''approved'')\<rparr>, db3))"

definition decide_approval :: "instant \<Rightarrow> string \<Rightarrow> string \<Rightarrow> string \<Rightarrow> Principal \<Rightarrow> wf_db
    \<Rightarrow> (approval_error, decide_receipt \<times> wf_db) res" where
  "decide_approval now approval_id decision comment who db =
     (if decision \<notin> {''approved'', ''rejected''} then Inl Bad_decision
      else case visible_approval (pr_tenant who) approval_id db of
        None \<Rightarrow> Inl Approval_not_found
      | Some a \<Rightarrow>
          let prior = List.find (\<lambda>d. de_actor d = pr_user who) (ap_decisions a) in
          if matching_assignees (ap_assignees a) who = [] then Inl Not_assigned
          else if ap_state a \<noteq> ''requested'' then
            (if (case prior of None \<Rightarrow> False | Some d \<Rightarrow> de_decision d = decision)
             then Inr (\<lparr>dr_approval = a, dr_duplicate = True, dr_resume = False\<rparr>, db)
             else Inl Already_resolved)
          else if prior \<noteq> None then Inl Already_decided
          else case visible_execution (pr_tenant who) (ap_execution a) db of
                 None \<Rightarrow> Inl Execution_missing
               | Some e \<Rightarrow> Inr (record_decision now who decision comment a e db))"

section \<open>Votes\<close>

lemma approval_vote_decided [simp]: "approval_vote (decided now d a) = approval_vote (a\<lparr>ap_decisions := ap_decisions a @ [d]\<rparr>)"
  by (simp add: decided_def approval_vote_def Let_def split: option.split)

lemma decided_simps [simp]:
  "ap_id (decided now d a) = ap_id a" "ap_tenant (decided now d a) = ap_tenant a"
  "ap_execution (decided now d a) = ap_execution a" "ap_node (decided now d a) = ap_node a"
  "ap_strategy (decided now d a) = ap_strategy a" "ap_quorum (decided now d a) = ap_quorum a"
  "ap_assignees (decided now d a) = ap_assignees a" "ap_decisions (decided now d a) = ap_decisions a @ [d]"
  by (simp_all add: decided_def Let_def split: option.split)

lemma ap_state_decided:
  "ap_state (decided now d a) = (case approval_vote (decided now d a) of None \<Rightarrow> ap_state a | Some s \<Rightarrow> s)"
  by (simp add: decided_def Let_def approval_vote_def split: option.split)

lemma resolved_values: "resolved_state st q as ds = Some s \<Longrightarrow> s = ''approved'' \<or> s = ''rejected''"
  by (auto simp: resolved_state_def Let_def split: if_splits)

text \<open>What the approving side of a resolved vote consists of, by strategy.\<close>

lemma resolved_approved:
  assumes "resolved_state strategy quorum assignees ds = Some ''approved''"
  shows "strategy = ''any'' \<Longrightarrow> \<exists>d\<in>set ds. de_decision d = ''approved''"
    and "strategy = ''all'' \<Longrightarrow> (\<forall>d\<in>set ds. de_decision d \<noteq> ''rejected'')
           \<and> (\<forall>t\<in>set assignees. \<exists>d\<in>set ds. de_decision d = ''approved'' \<and> py_str t \<in> set (de_assignees d))"
    and "strategy \<notin> {''any'', ''all''} \<Longrightarrow> quorum \<le> int (length (filter (\<lambda>d. de_decision d = ''approved'') ds))"
  using assms by (auto simp: resolved_state_def Let_def filter_empty_conv list_all_iff split: if_splits)

lemma length_two_filters:
  assumes "\<forall>d\<in>set ds. P d \<longleftrightarrow> \<not> Q d"
  shows "length (filter P ds) + length (filter Q ds) = length ds"
  using assms by (induction ds) auto

section \<open>The invariant of an approval\<close>

definition approval_ok :: "approval_row \<Rightarrow> bool" where
  "approval_ok a \<longleftrightarrow>
     ap_state a = (case approval_vote a of None \<Rightarrow> ''requested'' | Some s \<Rightarrow> s)
     \<and> distinct (map de_actor (ap_decisions a))
     \<and> (\<forall>d\<in>set (ap_decisions a). de_decision d \<in> {''approved'', ''rejected''} \<and> de_assignees d \<noteq> []
          \<and> set (de_assignees d) \<subseteq> set (map py_str (ap_assignees a)))"

lemma approval_ok_approved: "approval_ok a \<Longrightarrow> ap_state a = ''approved'' \<Longrightarrow>
    resolved_state (ap_strategy a) (ap_quorum a) (ap_assignees a) (ap_decisions a) = Some ''approved''"
  unfolding approval_ok_def approval_vote_def by (auto split: option.splits)

lemma approval_ok_states: "approval_ok a \<Longrightarrow> ap_state a \<in> {''requested'', ''approved'', ''rejected''}"
  unfolding approval_ok_def approval_vote_def
  by (cases "resolved_state (ap_strategy a) (ap_quorum a) (ap_assignees a) (ap_decisions a)") (auto dest: resolved_values)

lemma set_matching: "set (matching_assignees assignees who) \<subseteq> set (map py_str assignees)"
  by (auto simp: matching_assignees_def)

lemma approval_ok_decided:
  assumes "approval_ok a" and "ap_state a = ''requested''" and "decision \<in> {''approved'', ''rejected''}"
    and "matching_assignees (ap_assignees a) who \<noteq> []"
    and "List.find (\<lambda>d. de_actor d = pr_user who) (ap_decisions a) = None"
  shows "approval_ok (decided now (new_decision now who decision comment a) a)"
proof -
  let ?d = "new_decision now who decision comment a"
  have "set (de_assignees ?d) = set (matching_assignees (ap_assignees a) who)" by (simp add: new_decision_def)
  then have tokens: "de_assignees ?d \<noteq> [] \<and> set (de_assignees ?d) \<subseteq> set (map py_str (ap_assignees a))"
    using assms(4) set_matching by (metis set_empty)
  have "de_actor ?d \<notin> de_actor ` set (ap_decisions a)"
    using assms(5) by (auto simp: new_decision_def find_None_iff)
  moreover have "de_decision ?d \<in> {''approved'', ''rejected''}" using assms(3) by (simp add: new_decision_def)
  ultimately show ?thesis
    using assms(1,2) tokens unfolding approval_ok_def ap_state_decided by (simp split: option.split)
qed

text \<open>The two outcomes of a call that does not raise.\<close>

lemma decide_cases:
  assumes "decide_approval now i decision comment who db = Inr (r, db')"
  obtains (duplicate) "db' = db" "dr_duplicate r" "\<not> dr_resume r"
  | (recorded) a e where "row_at ap_id i (wf_approvals db) = Some a" "ap_tenant a = pr_tenant who" "ap_state a = ''requested''"
      "matching_assignees (ap_assignees a) who \<noteq> []"
      "List.find (\<lambda>d. de_actor d = pr_user who) (ap_decisions a) = None"
      "row_at ex_id (ap_execution a) (wf_executions db) = Some e"
      "decision \<in> {''approved'', ''rejected''}"
      "(r, db') = record_decision now who decision comment a e db"
  using assms unfolding decide_approval_def visible_approval_def visible_execution_def
  by (auto simp: Let_def split: if_splits option.splits)

lemma record_decision_tables:
  assumes "(r, db') = record_decision now who decision comment a e db"
  shows "wf_approvals db' = set_row ap_id (decided now (new_decision now who decision comment a) a) (wf_approvals db)"
    and "wf_executions db' = set_row ex_id (resolve_execution now (decided now (new_decision now who decision comment a) a)
           (approval_vote (decided now (new_decision now who decision comment a) a)) e) (wf_executions db)"
    and "dr_resume r \<longleftrightarrow> approval_vote (decided now (new_decision now who decision comment a) a) = Some ''approved''"
  using assms
  by (auto simp: record_decision_def Let_def add_audit_def add_outbox_def put_execution_def put_approval_def split: option.splits)

lemma decide_approval_ok:
  assumes "decide_approval now i decision comment who db = Inr (r, db')" and "\<forall>a\<in>set (wf_approvals db). approval_ok a"
  shows "\<forall>a\<in>set (wf_approvals db'). approval_ok a"
  using assms(1)
proof (cases rule: decide_cases)
  case duplicate
  with assms(2) show ?thesis by simp
next
  case (recorded a e)
  have "approval_ok a" using assms(2) row_at_Some [OF recorded(1)] by blast
  then have "approval_ok (decided now (new_decision now who decision comment a) a)"
    by (rule approval_ok_decided [OF _ recorded(3) recorded(7) recorded(4) recorded(5)])
  with assms(2) show ?thesis
    unfolding record_decision_tables(1) [OF recorded(8)] by (auto dest: set_row_cases)
qed

section \<open>Runs\<close>

record decide_call =
  dc_now :: instant
  dc_approval :: string
  dc_decision :: string
  dc_comment :: string
  dc_principal :: Principal

text \<open>A call that raises leaves the database as it was: its transaction is rolled back.\<close>

definition decide_step :: "wf_db \<Rightarrow> decide_call \<Rightarrow> wf_db" where
  "decide_step db c =
     (case decide_approval (dc_now c) (dc_approval c) (dc_decision c) (dc_comment c) (dc_principal c) db of
        Inl _ \<Rightarrow> db | Inr (_, db') \<Rightarrow> db')"

definition requested_by :: "decide_call list \<Rightarrow> approval_row \<Rightarrow> decision_row \<Rightarrow> bool" where
  "requested_by calls a d \<longleftrightarrow> (\<exists>c\<in>set calls. dc_approval c = ap_id a \<and> pr_user (dc_principal c) = de_actor d
     \<and> pr_tenant (dc_principal c) = ap_tenant a \<and> dc_decision c = de_decision d
     \<and> set (de_assignees d) = set (matching_assignees (ap_assignees a) (dc_principal c)))"

lemma decide_step_ok:
  "\<forall>a\<in>set (wf_approvals db). approval_ok a \<Longrightarrow> \<forall>a\<in>set (wf_approvals (decide_step db c)). approval_ok a"
  unfolding decide_step_def
  by (cases "decide_approval (dc_now c) (dc_approval c) (dc_decision c) (dc_comment c) (dc_principal c) db")
    (auto dest: decide_approval_ok)

lemma requested_by_mono: "requested_by calls a d \<Longrightarrow> requested_by (calls @ [c]) a d"
  by (auto simp: requested_by_def)

lemma requested_by_fields: "requested_by calls (decided now d' a) d = requested_by calls a d"
  by (simp add: requested_by_def)

lemma decide_step_requested:
  assumes "\<forall>a\<in>set (wf_approvals db). \<forall>d\<in>set (ap_decisions a). requested_by calls a d"
  shows "\<forall>a\<in>set (wf_approvals (decide_step db c)). \<forall>d\<in>set (ap_decisions a). requested_by (calls @ [c]) a d"
proof (cases "decide_approval (dc_now c) (dc_approval c) (dc_decision c) (dc_comment c) (dc_principal c) db")
  case (Inl e)
  then show ?thesis using assms requested_by_mono by (fastforce simp: decide_step_def)
next
  case (Inr p)
  obtain r db' where p: "p = (r, db')" by force
  from Inr p have dec: "decide_approval (dc_now c) (dc_approval c) (dc_decision c) (dc_comment c) (dc_principal c) db = Inr (r, db')"
    by simp
  have step: "decide_step db c = db'" using dec by (simp add: decide_step_def)
  from dec show ?thesis
  proof (cases rule: decide_cases)
    case duplicate
    then show ?thesis using assms requested_by_mono step by fastforce
  next
    case (recorded a e)
    let ?d = "new_decision (dc_now c) (dc_principal c) (dc_decision c) (dc_comment c) a"
    have a: "a \<in> set (wf_approvals db)" "ap_id a = dc_approval c" using row_at_Some [OF recorded(1)] by simp_all
    have "requested_by (calls @ [c]) a ?d"
      using a(2) recorded(2) unfolding requested_by_def by (intro bexI [of _ c]) (simp_all add: new_decision_def)
    then have new: "\<forall>d\<in>set (ap_decisions (decided (dc_now c) ?d a)). requested_by (calls @ [c]) (decided (dc_now c) ?d a) d"
      using assms a(1) requested_by_mono by (auto simp: requested_by_fields)
    then show ?thesis
      using assms requested_by_mono unfolding step record_decision_tables(1) [OF recorded(8)]
      by (blast dest: set_row_cases)
  qed
qed

lemma decide_run:
  assumes "\<forall>a\<in>set (wf_approvals db). ap_state a = ''requested'' \<and> ap_decisions a = [] \<and> approval_vote a = None"
  shows "\<forall>a\<in>set (wf_approvals (foldl decide_step db calls)).
           approval_ok a \<and> (\<forall>d\<in>set (ap_decisions a). requested_by calls a d)"
proof (induction calls rule: rev_induct)
  case Nil
  then show ?case using assms by (auto simp: approval_ok_def)
next
  case (snoc c calls)
  then show ?case
    using decide_step_ok [of "foldl decide_step db calls" c]
      decide_step_requested [of "foldl decide_step db calls" calls c] by auto
qed

definition fresh_approval :: "approval_row \<Rightarrow> bool" where
  "fresh_approval a \<longleftrightarrow> ap_state a = ''requested'' \<and> ap_decisions a = [] \<and> ap_assignees a \<noteq> [] \<and> 1 \<le> ap_quorum a"

lemma fresh_approval_vote: "fresh_approval a \<Longrightarrow> approval_vote a = None"
  by (cases "ap_assignees a") (auto simp: fresh_approval_def approval_vote_def resolved_state_def Let_def)

definition approves :: "decide_call \<Rightarrow> approval_row \<Rightarrow> bool" where
  "approves c a \<longleftrightarrow> dc_approval c = ap_id a \<and> pr_tenant (dc_principal c) = ap_tenant a \<and> dc_decision c = ''approved''
     \<and> matching_assignees (ap_assignees a) (dc_principal c) \<noteq> []"

lemma requested_by_approves:
  assumes "requested_by calls a d" and "de_decision d = ''approved''" and "de_assignees d \<noteq> []"
  shows "\<exists>c\<in>set calls. approves c a \<and> pr_user (dc_principal c) = de_actor d
    \<and> set (de_assignees d) = set (matching_assignees (ap_assignees a) (dc_principal c))"
proof -
  from assms(1) obtain c where c: "c \<in> set calls" "dc_approval c = ap_id a" "pr_user (dc_principal c) = de_actor d"
    "pr_tenant (dc_principal c) = ap_tenant a" "dc_decision c = de_decision d"
    "set (de_assignees d) = set (matching_assignees (ap_assignees a) (dc_principal c))"
    by (auto simp: requested_by_def)
  then have "matching_assignees (ap_assignees a) (dc_principal c) \<noteq> []" using assms(3) by (metis set_empty)
  with c assms(2) show ?thesis unfolding approves_def by (intro bexI [of _ c]) simp_all
qed

lemma quorum_actors:
  assumes "approval_ok a" and "\<forall>d\<in>set (ap_decisions a). requested_by calls a d"
  shows "int (length (filter (\<lambda>d. de_decision d = ''approved'') (ap_decisions a)))
    \<le> int (card {u. \<exists>c\<in>set calls. approves c a \<and> pr_user (dc_principal c) = u})"
proof -
  let ?ds = "filter (\<lambda>d. de_decision d = ''approved'') (ap_decisions a)"
  let ?U = "{u. \<exists>c\<in>set calls. approves c a \<and> pr_user (dc_principal c) = u}"
  have "distinct (map de_actor (ap_decisions a))" and ne: "\<forall>d\<in>set (ap_decisions a). de_assignees d \<noteq> []"
    using assms(1) by (simp_all add: approval_ok_def)
  then have "distinct (map de_actor ?ds)" by (simp add: distinct_map_filter)
  then have len: "length ?ds = card (set (map de_actor ?ds))" using distinct_card [of "map de_actor ?ds"] by simp
  have sub: "set (map de_actor ?ds) \<subseteq> ?U"
  proof
    fix u assume "u \<in> set (map de_actor ?ds)"
    then obtain d where d: "d \<in> set (ap_decisions a)" "de_decision d = ''approved''" "u = de_actor d" by auto
    from requested_by_approves [OF bspec [OF assms(2) d(1)] d(2) bspec [OF ne d(1)]] d(3) show "u \<in> ?U" by blast
  qed
  have "?U \<subseteq> (\<lambda>c. pr_user (dc_principal c)) ` set calls" by blast
  then have fin: "finite ?U" by (rule finite_subset) simp
  show ?thesis unfolding len of_nat_le_iff by (rule card_mono [OF fin sub])
qed

section \<open>Properties\<close>

text \<open>C12. An approval is granted only by the people it was assigned to, whatever decisions are submitted by whomever
  in whatever order: an approved row of strategy \<^verbatim>\<open>any\<close> was approved by an assignee of its tenant, one of strategy
  \<^verbatim>\<open>all\<close> by callers who together hold every assignee token, and one with a quorum by that many different users;
  a row without resolution is still requested.\<close>

theorem approval_outcome_legitimate:
  assumes "\<forall>a\<in>set (wf_approvals db). fresh_approval a"
    and "a \<in> set (wf_approvals (foldl decide_step db calls))"
  shows "ap_state a \<in> {''requested'', ''approved'', ''rejected''}
    \<and> (ap_state a = ''approved'' \<longrightarrow>
         (ap_strategy a = ''any'' \<longrightarrow> (\<exists>c\<in>set calls. approves c a))
       \<and> (ap_strategy a = ''all'' \<longrightarrow> (\<forall>t\<in>set (ap_assignees a). \<exists>c\<in>set calls. approves c a
            \<and> py_str t \<in> set (matching_assignees (ap_assignees a) (dc_principal c))))
       \<and> (ap_strategy a \<notin> {''any'', ''all''} \<longrightarrow>
            ap_quorum a \<le> int (card {u. \<exists>c\<in>set calls. approves c a \<and> pr_user (dc_principal c) = u})))"
proof -
  have "\<forall>a\<in>set (wf_approvals db). ap_state a = ''requested'' \<and> ap_decisions a = [] \<and> approval_vote a = None"
    using assms(1) fresh_approval_vote by (simp add: fresh_approval_def)
  from decide_run [OF this] assms(2)
  have ok: "approval_ok a" and req: "\<forall>d\<in>set (ap_decisions a). requested_by calls a d" by blast+
  from ok have ds: "\<forall>d\<in>set (ap_decisions a). de_assignees d \<noteq> []" by (simp add: approval_ok_def)
  show ?thesis
  proof (intro conjI impI)
    show "ap_state a \<in> {''requested'', ''approved'', ''rejected''}" by (rule approval_ok_states [OF ok])
  next
    assume "ap_state a = ''approved''" and "ap_strategy a = ''any''"
    then show "\<exists>c\<in>set calls. approves c a"
      using resolved_approved(1) [OF approval_ok_approved [OF ok]] req ds requested_by_approves by blast
  next
    assume st: "ap_state a = ''approved''" and all: "ap_strategy a = ''all''"
    show "\<forall>t\<in>set (ap_assignees a). \<exists>c\<in>set calls. approves c a
            \<and> py_str t \<in> set (matching_assignees (ap_assignees a) (dc_principal c))"
      using resolved_approved(2) [OF approval_ok_approved [OF ok st] all] req ds requested_by_approves by metis
  next
    assume "ap_state a = ''approved''" and "ap_strategy a \<notin> {''any'', ''all''}"
    then show "ap_quorum a \<le> int (card {u. \<exists>c\<in>set calls. approves c a \<and> pr_user (dc_principal c) = u})"
      using resolved_approved(3) [OF approval_ok_approved [OF ok]] quorum_actors [OF ok req] by (meson order_trans)
  qed
qed

definition sample_approval :: approval_row where
  "sample_approval = \<lparr>ap_id = ''a1'', ap_tenant = ''t'', ap_execution = ''e1'', ap_node = ''ask'', ap_state = ''requested'',
     ap_strategy = ''quorum'', ap_quorum = 2, ap_assignees = [JStr ''user:u1'', JStr ''role:manager'', JStr ''role:owner''],
     ap_decisions = [], ap_summary = [], ap_due_at = None, ap_resolved_at = None, ap_timeout_path = JNull\<rparr>"

definition sample_execution :: execution_row where
  "sample_execution = \<lparr>ex_id = ''e1'', ex_tenant = ''t'', ex_workflow = ''w'', ex_version = ''v'', ex_content_hash = ''h'',
     ex_trigger_payload = [], ex_entity = [], ex_waiting_on = Some ''ask'', ex_resume_nodes = [''pay''],
     ex_state = ''waiting'', ex_key = ''k'', ex_started_at = Some 0, ex_finished_at = None, ex_resume_at = None,
     ex_error = [], ex_dry_run = False, ex_correlation = None,
     ex_trigger_type = ''manual'', ex_trigger_event = None\<rparr>"

definition sample_wf_db :: wf_db where
  "sample_wf_db = \<lparr>wf_approvals = [sample_approval], wf_executions = [sample_execution], wf_nodes = [], wf_audit = [], wf_outbox = []\<rparr>"

definition sample_call :: "string \<Rightarrow> string list \<Rightarrow> decide_call" where
  "sample_call u roles = \<lparr>dc_now = 5, dc_approval = ''a1'', dc_decision = ''approved'', dc_comment = [],
     dc_principal = \<lparr>pr_tenant = ''t'', pr_user = u, pr_roles = roles\<rparr>\<rparr>"

theorem approval_outcome_legitimate_witness:
  "\<exists>a\<in>set (wf_approvals (foldl decide_step sample_wf_db [sample_call ''u1'' [], sample_call ''u2'' [''manager'']])).
     ap_state a = ''approved''
     \<and> 2 \<le> int (card {u. \<exists>c\<in>set [sample_call ''u1'' [], sample_call ''u2'' [''manager'']]. approves c a
              \<and> pr_user (dc_principal c) = u})"
proof -
  let ?calls = "[sample_call ''u1'' [], sample_call ''u2'' [''manager'']]"
  have fresh: "\<forall>a\<in>set (wf_approvals sample_wf_db). fresh_approval a"
    by (simp add: sample_wf_db_def sample_approval_def fresh_approval_def)
  have "map (\<lambda>a. (ap_state a, ap_strategy a, ap_quorum a)) (wf_approvals (foldl decide_step sample_wf_db ?calls))
      = [(''approved'', ''quorum'', 2)]" by code_simp
  then obtain a where a: "wf_approvals (foldl decide_step sample_wf_db ?calls) = [a]" "ap_state a = ''approved''"
    "ap_strategy a = ''quorum''" "ap_quorum a = 2" by auto
  then have "a \<in> set (wf_approvals (foldl decide_step sample_wf_db ?calls))" by simp
  from approval_outcome_legitimate [OF fresh this]
  have "2 \<le> int (card {u. \<exists>c\<in>set ?calls. approves c a \<and> pr_user (dc_principal c) = u})"
    using a(2-4) by simp
  with a show ?thesis by (intro bexI [of _ a]) simp_all
qed

lemma decide_step_resolved:
  assumes "row_at ap_id i (wf_approvals db) = Some a" and "ap_state a \<noteq> ''requested''"
  shows "row_at ap_id i (wf_approvals (decide_step db c)) = Some a"
proof (cases "decide_approval (dc_now c) (dc_approval c) (dc_decision c) (dc_comment c) (dc_principal c) db")
  case (Inl e)
  then show ?thesis using assms(1) by (simp add: decide_step_def)
next
  case (Inr p)
  obtain r db' where p: "p = (r, db')" by force
  then have step: "decide_step db c = db'" using Inr by (simp add: decide_step_def)
  from Inr [unfolded p] show ?thesis
  proof (cases rule: decide_cases)
    case duplicate
    then show ?thesis using assms(1) step by simp
  next
    case (recorded b e)
    then have "i \<noteq> ap_id b" using assms row_at_Some [OF recorded(1)] by auto
    then show ?thesis
      unfolding step record_decision_tables(1) [OF recorded(8)] by (simp add: row_at_set_row assms(1))
  qed
qed

text \<open>A resolved approval is final: no later submission by anybody changes its state, its decisions or its time of
  resolution, and an assignee who repeats the decision already recorded for them is answered as a duplicate that
  does not resume the execution again.\<close>

theorem approval_resolution_final:
  assumes "row_at ap_id i (wf_approvals db) = Some a" and "ap_state a \<noteq> ''requested''"
  shows "row_at ap_id i (wf_approvals (foldl decide_step db calls)) = Some a
    \<and> (decide_approval now i decision comment who (foldl decide_step db calls) = Inr (r, db') \<longrightarrow>
         db' = foldl decide_step db calls \<and> dr_duplicate r \<and> \<not> dr_resume r)"
proof -
  have row: "row_at ap_id i (wf_approvals (foldl decide_step db calls)) = Some a"
    by (induction calls rule: rev_induct) (use assms decide_step_resolved in auto)
  have "db' = foldl decide_step db calls \<and> dr_duplicate r \<and> \<not> dr_resume r"
    if "decide_approval now i decision comment who (foldl decide_step db calls) = Inr (r, db')"
    using that by (cases rule: decide_cases) (use row assms(2) in auto)
  with row show ?thesis by blast
qed

theorem approval_resolution_final_witness:
  "ap_state (sample_approval\<lparr>ap_state := ''approved''\<rparr>) \<noteq> ''requested''
   \<and> row_at ap_id ''a1'' (wf_approvals (foldl decide_step (sample_wf_db\<lparr>wf_approvals := [sample_approval\<lparr>ap_state := ''approved''\<rparr>]\<rparr>)
        [sample_call ''u1'' []])) = Some (sample_approval\<lparr>ap_state := ''approved''\<rparr>)"
proof -
  have "row_at ap_id ''a1'' (wf_approvals (sample_wf_db\<lparr>wf_approvals := [sample_approval\<lparr>ap_state := ''approved''\<rparr>]\<rparr>))
      = Some (sample_approval\<lparr>ap_state := ''approved''\<rparr>)"
    by (simp add: row_at_def sample_approval_def)
  moreover have "ap_state (sample_approval\<lparr>ap_state := ''approved''\<rparr>) \<noteq> ''requested''" by simp
  ultimately show ?thesis using approval_resolution_final by blast
qed

text \<open>C33. A vote ends when there is a decision for every assignee token: for each strategy that validation accepts and a quorum
  of at most the number of tokens, an approval with at least as many decisions as tokens, which together cover every token, is
  resolved. (The number matters: one manager who is assigned both by name and by role covers both tokens with the one decision
  they may take, and a quorum of two then stays open.)\<close>

theorem approval_vote_ends:
  assumes "strategy \<in> {''any'', ''all'', ''quorum''}" and "assignees \<noteq> []"
    and "1 \<le> quorum" and "quorum \<le> int (length assignees)"
    and "\<forall>d\<in>set ds. de_decision d \<in> {''approved'', ''rejected''}"
    and "length assignees \<le> length ds" and "set (map py_str assignees) \<subseteq> (\<Union>d\<in>set ds. set (de_assignees d))"
  shows "resolved_state strategy quorum assignees ds \<noteq> None"
proof -
  let ?yes = "filter (\<lambda>d. de_decision d = ''approved'') ds" and ?no = "filter (\<lambda>d. de_decision d = ''rejected'') ds"
  have ne: "ds \<noteq> []" using assms(2,6) by auto
  have split: "length ?yes + length ?no = length ds" by (rule length_two_filters) (use assms(5) in auto)
  have all: "?yes = ds" if "?no = []" using that assms(5) by (auto simp: filter_empty_conv filter_id_conv)
  consider "strategy = ''any''" | "strategy = ''all''" | "strategy = ''quorum''" using assms(1) by blast
  then show ?thesis
  proof cases
    case 1
    then show ?thesis using all ne by (auto simp: resolved_state_def Let_def)
  next
    case 2
    have "list_all (\<lambda>t. t \<in> set (concat (map de_assignees ds))) (map py_str assignees)"
      using assms(7) by (auto simp: list_all_iff)
    then show ?thesis using 2 all by (cases "?no = []") (simp_all add: resolved_state_def Let_def)
  next
    case 3
    have "quorum \<le> int (length ?yes) \<or> max 0 (int (length assignees) - quorum) < int (length ?no)"
      using split assms(3,4,6) by linarith
    then show ?thesis using 3 by (auto simp: resolved_state_def Let_def)
  qed
qed

theorem approval_vote_ends_witness:
  "resolved_state ''quorum'' 2 [JStr ''user:u1'', JStr ''user:u2'']
     [\<lparr>de_actor = ''u1'', de_decision = ''approved'', de_comment = [], de_assignees = [''user:u1''], de_at = 0\<rparr>,
      \<lparr>de_actor = ''u2'', de_decision = ''rejected'', de_comment = [], de_assignees = [''user:u2''], de_at = 0\<rparr>] \<noteq> None"
  by (rule approval_vote_ends) simp_all

end
