(* ===== verification/Workflow_Graph.thy ===== *)
theory Workflow_Graph
  imports Prelude
begin

text \<open>
  The graph algorithms of \<^verbatim>\<open>domain/workflows/dsl.py\<close>: cycle detection by a coloured
  depth-first search (\<^verbatim>\<open>_has_cycle\<close>), the search for an upstream approval
  (\<^verbatim>\<open>_has_upstream_approval\<close>) and the nodes the entry node cannot reach
  (\<^verbatim>\<open>_unreachable_nodes\<close>). Edges are pairs of node identifiers in document order. Each
  algorithm is proved equivalent to its specification over the edge relation.
\<close>

section \<open>Adjacency dictionaries\<close>

text \<open>\<^verbatim>\<open>for edge in edges: d.setdefault(k, []).append(v)\<close>; a missing key reads as the empty list.\<close>

definition adj_build :: "('k \<times> 'v) list \<Rightarrow> 'k \<Rightarrow> 'v list" where
  "adj_build es = foldl (\<lambda>d e. d(fst e := d (fst e) @ [snd e])) (\<lambda>_. []) es"

definition succs :: "('k \<times> 'v) list \<Rightarrow> 'k \<Rightarrow> 'v list" where
  "succs es n = map snd (filter (\<lambda>e. fst e = n) es)"

lemma adj_build_succs [simp, code]: "adj_build es = succs es"
proof (induction es rule: rev_induct)
  case Nil
  then show ?case by (simp add: adj_build_def succs_def)
next
  case (snoc e es)
  then show ?case by (auto simp: adj_build_def succs_def fun_eq_iff)
qed

lemma set_succs [simp]: "set (succs es n) = {v. (n, v) \<in> set es}"
  by (force simp: succs_def)

lemma succs_empty: "n \<notin> fst ` set es \<Longrightarrow> succs es n = []"
  by (induction es) (auto simp: succs_def)

section \<open>Cycle detection\<close>

datatype colour = WHITE | GREY | BLACK

text \<open>
  The recursion of \<^verbatim>\<open>visit\<close> threads the colour table. The first argument is the recursion
  budget; \<^verbatim>\<open>None\<close> stands for exhausting it. \<open>visit_total\<close> below shows that one more than the
  number of white nodes is always enough.
\<close>

fun visit :: "nat \<Rightarrow> ('k \<Rightarrow> 'k list) \<Rightarrow> ('k \<Rightarrow> colour) \<Rightarrow> 'k \<Rightarrow> (bool \<times> ('k \<Rightarrow> colour)) option"
and visit_neighbours :: "nat \<Rightarrow> ('k \<Rightarrow> 'k list) \<Rightarrow> ('k \<Rightarrow> colour) \<Rightarrow> 'k list
      \<Rightarrow> (bool \<times> ('k \<Rightarrow> colour)) option" where
  "visit 0 adj c n = None"
| "visit (Suc fuel) adj c n =
     (case visit_neighbours fuel adj (c(n := GREY)) (adj n) of
        None \<Rightarrow> None
      | Some (True, c') \<Rightarrow> Some (True, c')
      | Some (False, c') \<Rightarrow> Some (False, c'(n := BLACK)))"
| "visit_neighbours fuel adj c [] = Some (False, c)"
| "visit_neighbours fuel adj c (v # vs) =
     (if c v = GREY then Some (True, c)
      else if c v = WHITE then
        (case visit fuel adj c v of
           None \<Rightarrow> None
         | Some (True, c') \<Rightarrow> Some (True, c')
         | Some (False, c') \<Rightarrow> visit_neighbours fuel adj c' vs)
      else visit_neighbours fuel adj c vs)"

text \<open>\<^verbatim>\<open>any(colour[n] == _WHITE and visit(n) for n in list(node_ids))\<close>.\<close>

fun visit_roots :: "nat \<Rightarrow> ('k \<Rightarrow> 'k list) \<Rightarrow> ('k \<Rightarrow> colour) \<Rightarrow> 'k list \<Rightarrow> bool option" where
  "visit_roots fuel adj c [] = Some False"
| "visit_roots fuel adj c (n # ns) =
     (if c n = WHITE then
        (case visit fuel adj c n of
           None \<Rightarrow> None
         | Some (True, c') \<Rightarrow> Some True
         | Some (False, c') \<Rightarrow> visit_roots fuel adj c' ns)
      else visit_roots fuel adj c ns)"

definition inner_edges :: "'k list \<Rightarrow> ('k \<times> 'k) list \<Rightarrow> ('k \<times> 'k) list" where
  "inner_edges ids es = filter (\<lambda>e. fst e \<in> set ids \<and> snd e \<in> set ids) es"

definition has_cycle :: "'k list \<Rightarrow> ('k \<times> 'k) list \<Rightarrow> bool option" where
  "has_cycle node_ids es =
     visit_roots (Suc (length node_ids)) (adj_build (inner_edges node_ids es)) (\<lambda>_. WHITE) node_ids"

subsection \<open>Correctness of the search\<close>

definition adj_rel :: "('k \<Rightarrow> 'k list) \<Rightarrow> ('k \<times> 'k) set" where
  "adj_rel adj = {(u, v). v \<in> set (adj u)}"

text \<open>What the colours mean between two steps: nothing black is on a cycle and black nodes only lead to black nodes.\<close>

definition black_done :: "('k \<Rightarrow> 'k list) \<Rightarrow> ('k \<Rightarrow> colour) \<Rightarrow> bool" where
  "black_done adj c = (\<forall>u. c u = BLACK \<longrightarrow> (\<forall>v\<in>set (adj u). c v = BLACK) \<and> (u, u) \<notin> (adj_rel adj)\<^sup>+)"

definition grey_reach :: "('k \<Rightarrow> 'k list) \<Rightarrow> ('k \<Rightarrow> colour) \<Rightarrow> 'k \<Rightarrow> bool" where
  "grey_reach adj c n = (\<forall>g. c g = GREY \<longrightarrow> (g, n) \<in> (adj_rel adj)\<^sup>*)"

definition whites :: "'k set \<Rightarrow> ('k \<Rightarrow> colour) \<Rightarrow> 'k set" where
  "whites V c = {v \<in> V. c v = WHITE}"

text \<open>How a completed, unsuccessful visit changes the table.\<close>

definition blackened :: "('k \<Rightarrow> colour) \<Rightarrow> ('k \<Rightarrow> colour) \<Rightarrow> bool" where
  "blackened c c' = (\<forall>u. c' u = c u \<or> c u = WHITE \<and> c' u = BLACK)"

lemma blackened_trans: "blackened c c' \<Longrightarrow> blackened c' c'' \<Longrightarrow> blackened c c''"
  unfolding blackened_def by (metis colour.distinct)

lemma blackened_whites: "blackened c c' \<Longrightarrow> whites V c' \<subseteq> whites V c"
  unfolding blackened_def whites_def by force

lemma grey_reach_blackened: "blackened c c' \<Longrightarrow> grey_reach adj c n \<Longrightarrow> grey_reach adj c' n"
  unfolding blackened_def grey_reach_def by (metis colour.distinct(5))

lemma black_closed: "(u, v) \<in> (adj_rel adj)\<^sup>* \<Longrightarrow> black_done adj c \<Longrightarrow> c u = BLACK \<Longrightarrow> c v = BLACK"
  by (induction rule: rtrancl_induct) (auto simp: black_done_def adj_rel_def)

lemma black_done_blacken:
  assumes inv: "black_done adj c" and n: "c n = GREY" and succ: "\<forall>v\<in>set (adj n). c v = BLACK"
  shows "black_done adj (c(n := BLACK))"
proof -
  have "(n, n) \<notin> (adj_rel adj)\<^sup>+"
  proof
    assume "(n, n) \<in> (adj_rel adj)\<^sup>+"
    then obtain v where "v \<in> set (adj n)" "(v, n) \<in> (adj_rel adj)\<^sup>*"
      by (metis (mono_tags, lifting) adj_rel_def case_prodD mem_Collect_eq tranclD)
    with inv succ n show False using black_closed by fastforce
  qed
  with inv succ show ?thesis by (auto simp: black_done_def)
qed

definition visit_spec :: "('k \<Rightarrow> 'k list) \<Rightarrow> ('k \<Rightarrow> colour) \<Rightarrow> 'k set \<Rightarrow> (bool \<times> ('k \<Rightarrow> colour)) option \<Rightarrow> bool" where
  "visit_spec adj c target r = (case r of
      None \<Rightarrow> False
    | Some (True, _) \<Rightarrow> \<exists>u. (u, u) \<in> (adj_rel adj)\<^sup>+
    | Some (False, c') \<Rightarrow> black_done adj c' \<and> blackened c c' \<and> (\<forall>v\<in>target. c' v = BLACK))"

lemma visit_spec_cases:
  assumes "visit_spec adj c target r"
  obtains c' where "r = Some (True, c')" "\<exists>u. (u, u) \<in> (adj_rel adj)\<^sup>+"
  | c' where "r = Some (False, c')" "black_done adj c'" "blackened c c'" "\<forall>v\<in>target. c' v = BLACK"
  using assms by (auto simp: visit_spec_def split: option.splits bool.splits)

definition closed_on :: "'k set \<Rightarrow> ('k \<Rightarrow> 'k list) \<Rightarrow> bool" where
  "closed_on V adj = (finite V \<and> (\<forall>u\<in>V. set (adj u) \<subseteq> V))"

lemma card_whites_mono: "closed_on V adj \<Longrightarrow> blackened c c' \<Longrightarrow> card (whites V c') \<le> card (whites V c)"
  by (rule card_mono [OF _ blackened_whites]) (auto simp: closed_on_def whites_def)

lemma visit_step:
  assumes spec: "visit_spec adj (c(n := GREY)) (set (adj n)) r" and white: "c n = WHITE"
  shows "visit_spec adj c {n} (case r of None \<Rightarrow> None | Some (True, c') \<Rightarrow> Some (True, c')
           | Some (False, c') \<Rightarrow> Some (False, c'(n := BLACK)))"
  using spec
proof (cases rule: visit_spec_cases)
  case (1 c')
  then show ?thesis by (simp add: visit_spec_def)
next
  case (2 c')
  have "c' n = GREY" using 2(3) by (metis blackened_def colour.distinct(1) fun_upd_same)
  then have "black_done adj (c'(n := BLACK))" using 2 by (intro black_done_blacken) auto
  moreover have "blackened c (c'(n := BLACK))"
    using 2(3) white by (auto simp: blackened_def split: if_splits)
  ultimately show ?thesis using 2(1) by (simp add: visit_spec_def)
qed

text \<open>The precondition of the loop over the neighbours of the grey node on top of the path.\<close>

definition on_path :: "('k \<Rightarrow> 'k list) \<Rightarrow> ('k \<Rightarrow> colour) \<Rightarrow> 'k list \<Rightarrow> bool" where
  "on_path adj c vs = (\<forall>v\<in>set vs. \<exists>n. (n, v) \<in> adj_rel adj \<and> c n = GREY \<and> grey_reach adj c n)"

lemma on_path_grey: "on_path adj c (v # vs) \<Longrightarrow> grey_reach adj c v"
  unfolding on_path_def grey_reach_def by (meson list.set_intros(1) rtrancl.simps)

lemma on_path_cycle: "on_path adj c (v # vs) \<Longrightarrow> c v = GREY \<Longrightarrow> \<exists>u. (u, u) \<in> (adj_rel adj)\<^sup>+"
  unfolding on_path_def grey_reach_def by (meson list.set_intros(1) rtrancl_into_trancl2)

lemma on_path_tail: "on_path adj c (v # vs) \<Longrightarrow> blackened c c' \<Longrightarrow> on_path adj c' vs"
  unfolding on_path_def by (metis blackened_def colour.distinct(1) grey_reach_blackened list.set_intros(2))

lemma visit_spec_weaken:
  assumes "visit_spec adj c' S r" "blackened c c'" "c' v = BLACK"
  shows "visit_spec adj c (insert v S) r"
  using assms(1)
proof (cases rule: visit_spec_cases)
  case (1 c'')
  then show ?thesis by (simp add: visit_spec_def)
next
  case (2 c'')
  have "c'' v = BLACK" using 2(3) assms(3) by (metis blackened_def colour.distinct(3))
  with 2 show ?thesis using blackened_trans [OF assms(2) 2(3)] by (simp add: visit_spec_def)
qed

lemma visit_total:
  "closed_on V adj \<Longrightarrow> n \<in> V \<Longrightarrow> c n = WHITE \<Longrightarrow> card (whites V c) < fuel \<Longrightarrow> black_done adj c
     \<Longrightarrow> grey_reach adj c n \<Longrightarrow> visit_spec adj c {n} (visit fuel adj c n)"
  "closed_on V adj \<Longrightarrow> set vs \<subseteq> V \<Longrightarrow> card (whites V c) < fuel \<Longrightarrow> black_done adj c
     \<Longrightarrow> on_path adj c vs \<Longrightarrow> visit_spec adj c (set vs) (visit_neighbours fuel adj c vs)"
proof (induction fuel adj c n and fuel adj c vs rule: visit_visit_neighbours.induct)
  case (1 adj c n)
  then show ?case by simp
next
  case (2 fuel adj c n)
  note prems = "2.prems"
  let ?c = "c(n := GREY)"
  have "whites V c = insert n (whites V ?c)" "n \<notin> whites V ?c" "finite (whites V ?c)"
    using prems(1-3) by (auto simp: whites_def closed_on_def)
  then have "card (whites V ?c) < fuel" using prems(4) by simp
  moreover have "black_done adj ?c" using prems(3,5) by (auto simp: black_done_def)
  moreover have "on_path adj ?c (adj n)"
    using prems(6) by (auto simp: on_path_def grey_reach_def adj_rel_def)
  moreover have "set (adj n) \<subseteq> V" using prems(1,2) by (simp add: closed_on_def)
  ultimately have "visit_spec adj ?c (set (adj n)) (visit_neighbours fuel adj ?c (adj n))"
    by (intro "2.IH" prems(1))
  then show ?case unfolding visit.simps by (rule visit_step) (rule prems(3))
next
  case (3 fuel adj c)
  then show ?case by (simp add: visit_spec_def blackened_def)
next
  case (4 fuel adj c v vs)
  note prems = "4.prems" and IH = "4.IH"
  have tail: "visit_spec adj c' (set vs) (visit_neighbours fuel adj c' vs)"
    if "blackened c c'" "black_done adj c'" and
      ih: "closed_on V adj \<Longrightarrow> set vs \<subseteq> V \<Longrightarrow> card (whites V c') < fuel \<Longrightarrow> black_done adj c'
         \<Longrightarrow> on_path adj c' vs \<Longrightarrow> visit_spec adj c' (set vs) (visit_neighbours fuel adj c' vs)" for c'
  proof (rule ih)
    show "card (whites V c') < fuel" using card_whites_mono [OF prems(1) that(1)] prems(3) by linarith
    show "on_path adj c' vs" by (rule on_path_tail [OF prems(5) that(1)])
  qed (use prems(1,2) that(2) in simp_all)
  show ?case
  proof (cases "c v")
    case GREY
    with on_path_cycle [OF prems(5)] show ?thesis by (simp add: visit_spec_def)
  next
    case BLACK
    have refl: "blackened c c" by (simp add: blackened_def)
    have "visit_spec adj c (set vs) (visit_neighbours fuel adj c vs)"
      by (rule tail [OF refl prems(4)], rule IH(3)) (use BLACK in simp_all)
    from visit_spec_weaken [OF this refl BLACK] show ?thesis using BLACK by simp
  next
    case WHITE
    have "visit_spec adj c {v} (visit fuel adj c v)"
      by (rule IH(1)) (use WHITE prems on_path_grey [OF prems(5)] in simp_all)
    then show ?thesis
    proof (cases rule: visit_spec_cases)
      case (1 c')
      with WHITE show ?thesis by (simp add: visit_spec_def)
    next
      case (2 c')
      have "visit_spec adj c' (set vs) (visit_neighbours fuel adj c' vs)"
        by (rule tail [OF 2(3,2)], rule IH(2) [of "(False, c')" False c']) (use WHITE 2(1) in simp_all)
      from visit_spec_weaken [OF this 2(3)] 2 WHITE show ?thesis by simp
    qed
  qed
qed

lemma blackened_black: "blackened c c' \<Longrightarrow> c u = BLACK \<Longrightarrow> c' u = BLACK"
  unfolding blackened_def by (metis colour.distinct(3))

lemma blackened_no_grey: "blackened c c' \<Longrightarrow> \<forall>u. c u \<noteq> GREY \<Longrightarrow> \<forall>u. c' u \<noteq> GREY"
  unfolding blackened_def by (metis colour.distinct(5))

lemma visit_roots_spec:
  assumes closed: "closed_on V adj" and outside: "\<And>u. u \<notin> V \<Longrightarrow> adj u = []"
  shows "set ns \<subseteq> V \<Longrightarrow> card (whites V c) < fuel \<Longrightarrow> black_done adj c \<Longrightarrow> \<forall>u. c u \<noteq> GREY
     \<Longrightarrow> V \<subseteq> set ns \<union> {u. c u = BLACK}
     \<Longrightarrow> visit_roots fuel adj c ns = Some (\<exists>u. (u, u) \<in> (adj_rel adj)\<^sup>+)"
proof (induction ns arbitrary: c)
  case Nil
  have "u \<in> V" if "(u, u) \<in> (adj_rel adj)\<^sup>+" for u
    using tranclD [OF that] outside by (fastforce simp: adj_rel_def)
  with Nil show ?case by (auto simp: black_done_def)
next
  case (Cons n ns)
  note prems = Cons.prems
  show ?case
  proof (cases "c n = WHITE")
    case False
    then have "c n = BLACK" using prems(4) colour.exhaust by metis
    with prems have "visit_roots fuel adj c ns = Some (\<exists>u. (u, u) \<in> (adj_rel adj)\<^sup>+)"
      by (intro Cons.IH) auto
    with False show ?thesis by simp
  next
    case True
    have "visit_spec adj c {n} (visit fuel adj c n)"
      by (rule visit_total(1) [OF closed]) (use True prems in \<open>simp_all add: grey_reach_def\<close>)
    then show ?thesis
    proof (cases rule: visit_spec_cases)
      case (1 c')
      with True show ?thesis by simp
    next
      case (2 c')
      have card: "card (whites V c') < fuel"
        using card_whites_mono [OF closed 2(3)] prems(2) by linarith
      have "V \<subseteq> set ns \<union> {u. c' u = BLACK}"
        using prems(5) 2(4) blackened_black [OF 2(3)] by auto
      then have "visit_roots fuel adj c' ns = Some (\<exists>u. (u, u) \<in> (adj_rel adj)\<^sup>+)"
        using prems(1) card 2(2) blackened_no_grey [OF 2(3) prems(4)] by (intro Cons.IH) auto
      with True 2(1) show ?thesis by simp
    qed
  qed
qed

lemma adj_rel_succs: "adj_rel (succs es) = set es"
  by (auto simp: adj_rel_def)

lemma card_set_less: "card (set xs) < Suc (length xs)"
  by (simp add: card_length le_imp_less_Suc)

lemma set_inner_edges: "set (inner_edges ids es) = set es \<inter> set ids \<times> set ids"
  by (auto simp: inner_edges_def)

lemma closed_on_inner: "closed_on (set ids) (succs (inner_edges ids es))"
  unfolding closed_on_def set_succs set_inner_edges by auto

lemma succs_inner_outside: "u \<notin> set ids \<Longrightarrow> succs (inner_edges ids es) u = []"
  by (rule succs_empty) (unfold set_inner_edges, auto)

lemma has_cycle_correct:
  "has_cycle node_ids es = Some (\<not> acyclic (set es \<inter> set node_ids \<times> set node_ids))"
proof -
  let ?adj = "succs (inner_edges node_ids es)"
  have "has_cycle node_ids es = Some (\<exists>u. (u, u) \<in> (adj_rel ?adj)\<^sup>+)"
    unfolding has_cycle_def adj_build_succs
  proof (rule visit_roots_spec [where V = "set node_ids"])
    show "card (whites (set node_ids) (\<lambda>_. WHITE)) < Suc (length node_ids)"
      by (simp add: whites_def card_set_less)
  qed (simp_all add: closed_on_inner succs_inner_outside black_done_def)
  then show ?thesis by (simp add: adj_rel_succs set_inner_edges acyclic_def)
qed

section \<open>Searches with an explicit stack\<close>

text \<open>
  Both searches pop the end of the stack, skip what they have seen and push the neighbours. They
  end because each unseen node with neighbours is expanded once.
\<close>

function upstream_loop :: "('k \<times> 'k) list \<Rightarrow> 'k set \<Rightarrow> 'k set \<Rightarrow> 'k list \<Rightarrow> bool" where
  "upstream_loop inc approval_ids seen stack =
     (if stack = [] then False
      else let current = last stack; rest = butlast stack in
        if current \<in> seen then upstream_loop inc approval_ids seen rest
        else if current \<in> approval_ids then True
        else upstream_loop inc approval_ids (insert current seen) (rest @ adj_build inc current))"
  by pat_completeness auto

function reach_loop :: "('k \<times> 'k) list \<Rightarrow> 'k set \<Rightarrow> 'k list \<Rightarrow> 'k set" where
  "reach_loop es reachable stack =
     (if stack = [] then reachable
      else let current = last stack; rest = butlast stack in
        if current \<in> reachable then reach_loop es reachable rest
        else reach_loop es (insert current reachable) (rest @ adj_build es current))"
  by pat_completeness auto

definition search_measure :: "('k \<times> 'k) list \<Rightarrow> 'k set \<Rightarrow> 'k list \<Rightarrow> nat \<times> nat" where
  "search_measure es seen stack = (card (fst ` set es - seen), length stack)"

lemma search_measure_skip:
  "stack \<noteq> [] \<Longrightarrow> (search_measure es seen (butlast stack), search_measure es seen stack) \<in> less_than <*lex*> less_than"
  by (simp add: search_measure_def)

lemma search_measure_push:
  assumes "stack \<noteq> []" and "v \<notin> seen"
  shows "(search_measure es (insert v seen) (butlast stack @ succs es v), search_measure es seen stack)
    \<in> less_than <*lex*> less_than"
proof (cases "v \<in> fst ` set es")
  case True
  then have "fst ` set es - insert v seen \<subset> fst ` set es - seen" using assms(2) by auto
  then have "card (fst ` set es - insert v seen) < card (fst ` set es - seen)"
    by (intro psubset_card_mono) auto
  then show ?thesis by (simp add: search_measure_def)
next
  case False
  then have "fst ` set es - insert v seen = fst ` set es - seen" by auto
  with assms(1) False show ?thesis by (simp add: search_measure_def succs_empty)
qed

termination upstream_loop
  by (relation "inv_image (less_than <*lex*> less_than) (\<lambda>(inc, _, seen, stack). search_measure inc seen stack)")
    (use search_measure_skip search_measure_push in \<open>auto simp: wf_lex_prod\<close>)

termination reach_loop
  by (relation "inv_image (less_than <*lex*> less_than) (\<lambda>(es, seen, stack). search_measure es seen stack)")
    (use search_measure_skip search_measure_push in \<open>auto simp: wf_lex_prod\<close>)

declare upstream_loop.simps [simp del] reach_loop.simps [simp del]


definition frontier :: "('k \<times> 'k) list \<Rightarrow> 'k set \<Rightarrow> 'k list \<Rightarrow> bool" where
  "frontier es seen stack = (\<forall>s\<in>seen. set (succs es s) \<subseteq> seen \<union> set stack)"

lemma set_stack: "stack \<noteq> [] \<Longrightarrow> set stack = insert (last stack) (set (butlast stack))"
  by (metis append_butlast_last_id list.simps(15) rotate1.simps(2) set_rotate1 sup_bot_right Un_insert_right set_append list.set(1))

lemma frontier_skip: "frontier es seen stack \<Longrightarrow> stack \<noteq> [] \<Longrightarrow> last stack \<in> seen \<Longrightarrow> frontier es seen (butlast stack)"
  using set_stack [of stack] by (auto simp: frontier_def)

lemma frontier_push:
  "frontier es seen stack \<Longrightarrow> stack \<noteq> []
   \<Longrightarrow> frontier es (insert (last stack) seen) (butlast stack @ succs es (last stack))"
  using set_stack [of stack] by (fastforce simp: frontier_def)

lemma frontier_closed:
  assumes "(x, y) \<in> (set es)\<^sup>*" and "frontier es seen stack" and "x \<in> seen"
  shows "y \<in> seen \<union> (set es)\<^sup>* `` set stack"
  using assms(1)
proof (induction rule: rtrancl_induct)
  case base
  then show ?case using assms(3) by simp
next
  case (step y z)
  show ?case
  proof (cases "y \<in> seen")
    case True
    with step.hyps(2) assms(2) have "z \<in> seen \<union> set stack" by (auto simp: frontier_def)
    then show ?thesis by auto
  next
    case False
    with step have "y \<in> (set es)\<^sup>* `` set stack" by simp
    with step.hyps(2) show ?thesis by (meson ImageE ImageI UnI2 rtrancl.rtrancl_into_rtrancl)
  qed
qed

lemma Image_rtrancl_step: "R\<^sup>* `` {x} = insert x (R\<^sup>* `` (R `` {x}))"
  by (auto intro: converse_rtrancl_into_rtrancl elim: converse_rtranclE)

lemma reachable_skip:
  assumes "frontier es seen stack" "stack \<noteq> []" "last stack \<in> seen"
  shows "seen \<union> (set es)\<^sup>* `` set stack = seen \<union> (set es)\<^sup>* `` set (butlast stack)"
  using frontier_closed [OF _ frontier_skip [OF assms] assms(3)] by (auto simp: set_stack [OF assms(2)])

lemma reachable_push:
  assumes "stack \<noteq> []"
  shows "(set es)\<^sup>* `` set stack
    = insert (last stack) ((set es)\<^sup>* `` set (butlast stack @ succs es (last stack)))"
proof -
  have "(set es)\<^sup>* `` set stack = (set es)\<^sup>* `` {last stack} \<union> (set es)\<^sup>* `` set (butlast stack)"
    by (simp add: set_stack [OF assms] Image_Un [symmetric])
  also have "\<dots> = insert (last stack) ((set es)\<^sup>* `` (set es `` {last stack}) \<union> (set es)\<^sup>* `` set (butlast stack))"
    by (subst Image_rtrancl_step) simp
  also have "set es `` {last stack} = set (succs es (last stack))" by auto
  finally show ?thesis by (simp add: Image_Un Un_commute)
qed

lemma reach_loop_correct:
  "frontier es seen stack \<Longrightarrow> reach_loop es seen stack = seen \<union> (set es)\<^sup>* `` set stack"
proof (induction es seen stack rule: reach_loop.induct)
  case (1 es seen stack)
  show ?case
  proof (cases "stack = []")
    case True
    then show ?thesis by (simp add: reach_loop.simps)
  next
    case ne: False
    show ?thesis
    proof (cases "last stack \<in> seen")
      case True
      with ne have "reach_loop es seen stack = reach_loop es seen (butlast stack)"
        by (simp add: reach_loop.simps [of es seen stack] Let_def)
      with 1 ne True show ?thesis by (simp add: frontier_skip reachable_skip)
    next
      case False
      with ne have "reach_loop es seen stack
          = reach_loop es (insert (last stack) seen) (butlast stack @ succs es (last stack))"
        by (simp add: reach_loop.simps [of es seen stack] Let_def)
      also have "\<dots> = insert (last stack) seen \<union> (set es)\<^sup>* `` set (butlast stack @ succs es (last stack))"
        using "1.IH"(2) [OF ne refl refl False] "1.prems" ne frontier_push by fastforce
      finally show ?thesis using reachable_push [OF ne, of es] by simp
    qed
  qed
qed

lemma upstream_loop_correct:
  "frontier inc seen stack \<Longrightarrow> seen \<inter> A = {}
   \<Longrightarrow> upstream_loop inc A seen stack \<longleftrightarrow> (\<exists>a\<in>A. a \<in> (set inc)\<^sup>* `` set stack)"
proof (induction inc A seen stack rule: upstream_loop.induct)
  case (1 inc A seen stack)
  let ?cur = "last stack"
  show ?case
  proof (cases "stack = []")
    case True
    then show ?thesis by (simp add: upstream_loop.simps)
  next
    case ne: False
    consider "?cur \<in> seen" | "?cur \<notin> seen" "?cur \<in> A" | "?cur \<notin> seen" "?cur \<notin> A" by blast
    then show ?thesis
    proof cases
      case 1
      then have "upstream_loop inc A seen stack = upstream_loop inc A seen (butlast stack)"
        using ne by (simp add: upstream_loop.simps [of inc A seen stack] Let_def)
      also have "\<dots> \<longleftrightarrow> (\<exists>a\<in>A. a \<in> (set inc)\<^sup>* `` set (butlast stack))"
        using "1.IH"(1) [OF ne refl refl 1] "1.prems" frontier_skip [OF _ ne 1] by blast
      finally show ?thesis using reachable_skip [OF "1.prems"(1) ne 1] "1.prems"(2) by blast
    next
      case 2
      then show ?thesis
        using ne reachable_push [OF ne, of inc] by (auto simp: upstream_loop.simps [of inc A seen stack])
    next
      case 3
      then have "upstream_loop inc A seen stack
          = upstream_loop inc A (insert ?cur seen) (butlast stack @ succs inc ?cur)"
        using ne by (simp add: upstream_loop.simps [of inc A seen stack] Let_def)
      also have "\<dots> \<longleftrightarrow> (\<exists>a\<in>A. a \<in> (set inc)\<^sup>* `` set (butlast stack @ succs inc ?cur))"
        using "1.IH"(2) [OF ne refl refl 3] "1.prems" frontier_push [OF _ ne] 3 by force
      finally show ?thesis using reachable_push [OF ne, of inc] 3(2) by auto
    qed
  qed
qed

section \<open>The two graph checks\<close>

definition has_upstream_approval :: "'k \<Rightarrow> 'k list \<Rightarrow> ('k \<times> 'k) list \<Rightarrow> bool" where
  "has_upstream_approval node_id approval_ids es =
     (if approval_ids = [] then False
      else let incoming = map prod.swap es
           in upstream_loop incoming (set approval_ids) {} (adj_build incoming node_id))"

definition unreachable_nodes :: "'k::linorder list \<Rightarrow> ('k \<times> 'k) list \<Rightarrow> 'k set" where
  "unreachable_nodes ids es =
     (if ids = [] then {}
      else let roots = filter (\<lambda>i. i \<notin> snd ` set es) (sorted_set ids)
           in case roots of
                [] \<Rightarrow> {}
              | entry # _ \<Rightarrow> set ids - reach_loop (filter (\<lambda>e. fst e \<in> set ids) es) {} [entry])"

lemma has_upstream_approval_correct:
  "has_upstream_approval n as es \<longleftrightarrow> (\<exists>a\<in>set as. (a, n) \<in> (set es)\<^sup>+)"
proof -
  have swap: "set (map prod.swap es) = (set es)\<inverse>" by (force simp: converse_unfold)
  have "has_upstream_approval n as es \<longleftrightarrow> (\<exists>a\<in>set as. a \<in> ((set es)\<inverse>)\<^sup>* `` ((set es)\<inverse> `` {n}))"
    unfolding has_upstream_approval_def Let_def adj_build_succs
    using upstream_loop_correct [of "map prod.swap es" "{}" _ "set as"]
    by (simp add: frontier_def swap Image_singleton del: set_map)
  also have "\<dots> \<longleftrightarrow> (\<exists>a\<in>set as. (a, n) \<in> (set es)\<^sup>* O set es)"
    unfolding rtrancl_converse by auto
  also have "\<dots> \<longleftrightarrow> (\<exists>a\<in>set as. (a, n) \<in> (set es)\<^sup>+)" by (simp add: trancl_unfold_right)
  finally show ?thesis .
qed


text \<open>The entry node is the least identifier that no edge targets; the warning lists what it cannot reach.\<close>

lemma unreachable_nodes_correct:
  assumes "roots = set ids - snd ` set es"
  shows "unreachable_nodes ids es =
     (if roots = {} then {}
      else {n \<in> set ids. (Min roots, n) \<notin> {e \<in> set es. fst e \<in> set ids}\<^sup>*})"
proof -
  let ?rs = "filter (\<lambda>i. i \<notin> snd ` set es) (sorted_set ids)"
  have rs: "set ?rs = roots" "sorted ?rs" using assms sorted_filter [of "\<lambda>x. x" "sorted_set ids"] by auto
  show ?thesis
  proof (cases ?rs)
    case Nil
    with rs show ?thesis by (simp add: unreachable_nodes_def)
  next
    case (Cons entry rest)
    then have "ids \<noteq> []" using rs(1) assms by auto
    have "Min roots = entry"
      using rs unfolding Cons by (intro Min_eqI) auto
    moreover have "reach_loop (filter (\<lambda>e. fst e \<in> set ids) es) {} [entry]
        = {e \<in> set es. fst e \<in> set ids}\<^sup>* `` {entry}"
      by (subst reach_loop_correct) (simp_all add: frontier_def)
    ultimately show ?thesis
      using Cons rs(1) \<open>ids \<noteq> []\<close> by (auto simp: unreachable_nodes_def)
  qed
qed

end
