(* ===== verification/Workflow_Dsl.thy ===== *)
theory Workflow_Dsl
  imports Workflow_Graph Shared_Canonical
begin

text \<open>
  \<^verbatim>\<open>domain/workflows/dsl.py\<close>: the restricted workflow language. A document is the dictionary its
  JSON decodes to. \<open>validate_workflow\<close> collects every problem, \<open>compile_workflow\<close> turns a valid
  document into the execution plan that a version row pins. The messages of the source become
  constructors that carry the values the message interpolates.
\<close>

section \<open>Catalogue\<close>

definition MAX_NAME :: nat where "MAX_NAME = 200"
definition MAX_DESCRIPTION :: nat where "MAX_DESCRIPTION = 2000"
definition MAX_NODES :: nat where "MAX_NODES = 200"
definition MAX_LOOP_DEFAULT :: int where "MAX_LOOP_DEFAULT = 1000"
definition MAX_LOOP_HARD :: int where "MAX_LOOP_HARD = 10000"

datatype NodeType = NCondition | NAction | NDelay | NApproval | NSubworkflow | NParallel | NLoop

definition NodeType_value :: "NodeType \<Rightarrow> string" where
  "NodeType_value t = (case t of NCondition \<Rightarrow> ''condition'' | NAction \<Rightarrow> ''action'' | NDelay \<Rightarrow> ''delay''
     | NApproval \<Rightarrow> ''approval'' | NSubworkflow \<Rightarrow> ''subworkflow'' | NParallel \<Rightarrow> ''parallel'' | NLoop \<Rightarrow> ''loop'')"

definition node_type_list :: "NodeType list" where
  "node_type_list = [NCondition, NAction, NDelay, NApproval, NSubworkflow, NParallel, NLoop]"

text \<open>\<^verbatim>\<open>NodeType(value)\<close>: any value that is not the text of a member is a \<^verbatim>\<open>ValueError\<close>.\<close>

definition NodeType_of :: "json \<Rightarrow> NodeType option" where
  "NodeType_of j = List.find (\<lambda>t. j = JStr (NodeType_value t)) node_type_list"

definition Category_values :: "string list" where
  "Category_values = [''lead_nurture'', ''deal_automation'', ''notification'', ''approval'', ''custom'']"

definition ErrorPolicy_values :: "string list" where
  "ErrorPolicy_values = [''stop'', ''continue'', ''custom'']"

definition TRIGGER_TYPES :: "string list" where
  "TRIGGER_TYPES = [''entity.created'', ''entity.updated'', ''entity.field_changed'',
     ''deal.stage_changed'', ''schedule.at'', ''schedule.cron'', ''schedule.relative'',
     ''form.submitted'', ''message.inbound'', ''payment.event'', ''appointment.event'',
     ''document.event'', ''approval.event'', ''threshold.aggregate'', ''webhook.custom'', ''manual'']"

record ActionSpec =
  spec_key :: string
  spec_permission :: string
  spec_feature_flag :: "string option"
  spec_retry_class :: string
  spec_timeout_seconds :: int
  spec_external_effect :: bool
  spec_irreversible :: bool
  spec_requires_approval :: bool
  spec_queue :: string

definition plain_spec :: "string \<Rightarrow> string \<Rightarrow> ActionSpec" where
  "plain_spec k p = \<lparr>spec_key = k, spec_permission = p, spec_feature_flag = None,
     spec_retry_class = ''transient'', spec_timeout_seconds = 60, spec_external_effect = False,
     spec_irreversible = False, spec_requires_approval = False, spec_queue = ''workflow-standard''\<rparr>"

definition ACTION_CATALOG :: "ActionSpec list" where
  "ACTION_CATALOG = [
     plain_spec ''lead.create'' ''lead:create'',
     plain_spec ''lead.update'' ''lead:update'',
     plain_spec ''lead.assign'' ''lead:assign'',
     plain_spec ''contact.create'' ''contact:create'',
     plain_spec ''contact.update'' ''contact:update'',
     plain_spec ''deal.create'' ''deal:create'',
     plain_spec ''deal.update'' ''deal:update'',
     plain_spec ''deal.move_stage'' ''deal:update'',
     plain_spec ''task.create'' ''task:create'',
     plain_spec ''tag.add'' ''tag:update'',
     plain_spec ''tag.remove'' ''tag:update'',
     plain_spec ''note.create'' ''note:create'',
     plain_spec ''activity.create'' ''activity:create'',
     (plain_spec ''message.send_whatsapp'' ''message:send'')
       \<lparr>spec_feature_flag := Some ''whatsapp_enabled'', spec_retry_class := ''provider'',
        spec_external_effect := True, spec_queue := ''workflow-critical''\<rparr>,
     (plain_spec ''message.send_email'' ''message:send'')
       \<lparr>spec_feature_flag := Some ''email_enabled'', spec_retry_class := ''provider'',
        spec_external_effect := True\<rparr>,
     (plain_spec ''message.send_sms'' ''message:send'')
       \<lparr>spec_feature_flag := Some ''sms_enabled'', spec_retry_class := ''provider'',
        spec_external_effect := True\<rparr>,
     (plain_spec ''notification.in_app'' ''notification:create'') \<lparr>spec_queue := ''workflow-notification''\<rparr>,
     plain_spec ''appointment.create'' ''appointment:create'',
     (plain_spec ''appointment.cancel'' ''appointment:update'')
       \<lparr>spec_irreversible := True, spec_requires_approval := True\<rparr>,
     plain_spec ''document.generate'' ''document:create'',
     (plain_spec ''document.send'' ''document:send'')
       \<lparr>spec_feature_flag := Some ''signatures_enabled'', spec_external_effect := True,
        spec_requires_approval := True\<rparr>,
     (plain_spec ''payment.create_link'' ''payment_link:create'')
       \<lparr>spec_feature_flag := Some ''payments_enabled'', spec_external_effect := True,
        spec_requires_approval := True\<rparr>,
     (plain_spec ''payment.refund'' ''payment:refund'')
       \<lparr>spec_feature_flag := Some ''payments_enabled'', spec_external_effect := True,
        spec_irreversible := True, spec_requires_approval := True\<rparr>,
     (plain_spec ''webhook.call'' ''webhook:execute'')
       \<lparr>spec_retry_class := ''provider'', spec_external_effect := True, spec_queue := ''workflow-webhook''\<rparr>,
     (plain_spec ''ai.task'' ''ai:execute'')
       \<lparr>spec_feature_flag := Some ''ai_enabled'', spec_retry_class := ''provider'',
        spec_timeout_seconds := 120, spec_queue := ''workflow-ai''\<rparr>,
     plain_spec ''analytics.emit'' ''analytics:read'']"

definition action_spec :: "string \<Rightarrow> ActionSpec option" where
  "action_spec k = List.find (\<lambda>s. spec_key s = k) ACTION_CATALOG"

definition ALLOWED_EXPRESSION_ROOTS :: "string list" where
  "ALLOWED_EXPRESSION_ROOTS = [''event'', ''entity'', ''workflow'', ''node'', ''trigger'', ''now'']"

definition ALLOWED_FUNCTIONS :: "string list" where
  "ALLOWED_FUNCTIONS = [''now'', ''uuid'', ''lower'', ''upper'', ''trim'', ''concat'', ''length'',
     ''contains'', ''startswith'', ''endswith'', ''replace'', ''split'', ''join'', ''json_get'',
     ''json_set'', ''base64_encode'', ''base64_decode'', ''to_number'', ''to_string'', ''coalesce'',
     ''date_add'', ''date_diff'', ''format_date'']"

definition FORBIDDEN_EXPRESSION_TOKENS :: "string list" where
  "FORBIDDEN_EXPRESSION_TOKENS = [''__'', ''import'', ''eval'', ''exec'', ''open('', ''os.'', ''sys.'',
     ''subprocess'', ''lambda'', ''globals'', ''locals'', ''getattr'', ''setattr'', ''compile'',
     ''input('', ''require('', ''process.'', ''child_process'', ''fetch('', ''XMLHttpRequest'']"

definition COMPARISON_OPERATORS :: "string list" where
  "COMPARISON_OPERATORS = [''eq'', ''ne'', ''gt'', ''gte'', ''lt'', ''lte'', ''in'', ''not_in'',
     ''contains'', ''not_contains'', ''starts_with'', ''ends_with'', ''is_empty'', ''is_not_empty'',
     ''matches'', ''between'']"

definition LOGICAL_OPERATORS :: "string list" where
  "LOGICAL_OPERATORS = [''and'', ''or'', ''not'']"

section \<open>Problems and reports\<close>

datatype expr_problem = Forbidden_token string | Expression_too_long | Unavailable_root string

datatype node_problem =
    No_string_id
  | Duplicate_id string
  | Unknown_node_type json
  | Unknown_action json
  | Approval_missing json
  | Condition_missing
  | Children_missing
  | Unsupported_operator json
  | Left_missing
  | Left_expression expr_problem
  | Bad_delay
  | Bad_max_iterations
  | Unsupported_join json
  | Assignees_missing
  | Unsupported_strategy string
  | Bad_quorum
  | Input_expression string expr_problem

datatype edge_problem = Unknown_source json | Unknown_target json | Edge_expression expr_problem

datatype problem =
    Bad_name
  | Bad_description
  | Unknown_category json
  | Unknown_trigger json
  | No_nodes
  | Too_many_nodes
  | At_node nat node_problem
  | At_edge nat edge_problem
  | Cycle_detected
  | Policy_range string int int
  | Unknown_error_policy json
  | Bad_retry_strategy

datatype dsl_error = Crash py_exc | RecursionError | DslValidationError "problem list"

record ValidationReport =
  rep_valid :: bool
  rep_problems :: "problem list"
  rep_warnings :: "string list list"
  rep_node_count :: nat
  rep_external_effect_nodes :: "string list"
  rep_approval_required_nodes :: "string list"
  rep_content_hash :: string

section \<open>Expressions and conditions\<close>

definition segment_problems :: "string \<Rightarrow> expr_problem list" where
  "segment_problems segment =
     (let candidate = py_strip segment
      in if candidate = [] \<or> CHR ''.'' \<notin> set candidate \<and> CHR ''('' \<notin> set candidate then []
         else let root = py_strip (before (CHR ''('') (before (CHR ''.'') candidate))
              in if root \<noteq> [] \<and> root \<notin> set ALLOWED_EXPRESSION_ROOTS \<and> root \<notin> set ALLOWED_FUNCTIONS
                 then [Unavailable_root root] else [])"

definition validate_expression :: "string \<Rightarrow> expr_problem list" where
  "validate_expression expr =
     (case List.find (\<lambda>token. py_contains token (py_lower expr)) FORBIDDEN_EXPRESSION_TOKENS of
        Some token \<Rightarrow> [Forbidden_token token]
      | None \<Rightarrow> (if length expr > 2000 then [Expression_too_long] else [])
          @ concat (map segment_problems (py_split ''{{'' (py_replace ''}}'' ''{{'' expr))))"

definition validate_condition :: "jdict \<Rightarrow> (py_exc, node_problem list) res" where
  "validate_condition node =
     (case dget ''condition'' node of
        JDict cond \<Rightarrow>
          rbind (in_strset (dget ''operator'' cond) LOGICAL_OPERATORS) (\<lambda>logical.
            if logical then
              (case por (dget ''conditions'' cond) (JList []) of
                 JList (_ # _) \<Rightarrow> Inr []
               | _ \<Rightarrow> Inr [Children_missing])
            else
              rbind (in_strset (dget ''operator'' cond) COMPARISON_OPERATORS) (\<lambda>comparison.
                Inr ((if comparison then [] else [Unsupported_operator (dget ''operator'' cond)])
                  @ (if has_key ''left'' cond then [] else [Left_missing])
                  @ (case dget ''left'' cond of JStr s \<Rightarrow> map Left_expression (validate_expression s)
                     | _ \<Rightarrow> []))))
      | _ \<Rightarrow> Inr [Condition_missing])"

section \<open>Graph checks on documents\<close>

definition edge_pairs :: "json list \<Rightarrow> (py_exc, (string \<times> string) list) res" where
  "edge_pairs edges = rmap (\<lambda>e. rbind (jget ''source'' e) (\<lambda>s. rbind (jget ''target'' e) (\<lambda>t.
     Inr (py_str s, py_str t)))) edges"

text \<open>\<^verbatim>\<open>{n.get("id") for n in nodes if n.get("type") == "approval"}\<close>: the elements must be hashable.\<close>

definition approval_ids :: "json list \<Rightarrow> (py_exc, json list) res" where
  "approval_ids nodes = rfold (\<lambda>acc n. rbind (jget ''type'' n) (\<lambda>ty.
     if ty = JStr ''approval'' then
       rbind (jget ''id'' n) (\<lambda>i. if hashable i then Inr (acc @ [i]) else Inl TypeError)
     else Inr acc)) [] nodes"

definition str_ids :: "json list \<Rightarrow> string list" where
  "str_ids js = List.map_filter (\<lambda>j. case j of JStr s \<Rightarrow> Some s | _ \<Rightarrow> None) js"

definition upstream_approval :: "string \<Rightarrow> json list \<Rightarrow> json \<Rightarrow> (py_exc, bool) res" where
  "upstream_approval node_id nodes edges =
     rbind (approval_ids nodes) (\<lambda>ids.
       if ids = [] then Inr False
       else rbind (iterate edges) (\<lambda>es. rbind (edge_pairs es) (\<lambda>ps.
              Inr (has_upstream_approval node_id (str_ids ids) ps))))"

section \<open>Nodes\<close>

record node_check =
  nc_problems :: "node_problem list"
  nc_external :: "string list"
  nc_approvals :: "string list"

definition no_check :: node_check where
  "no_check = \<lparr>nc_problems = [], nc_external = [], nc_approvals = []\<rparr>"

definition check_action :: "string \<Rightarrow> jdict \<Rightarrow> json list \<Rightarrow> json \<Rightarrow> (py_exc, node_check) res" where
  "check_action node_id node nodes edges =
     (case action_spec (py_str (dget ''action'' node)) of
        None \<Rightarrow> Inr (no_check\<lparr>nc_problems := [Unknown_action (dget ''action'' node)]\<rparr>)
      | Some spec \<Rightarrow>
          let ext = (if spec_external_effect spec then [node_id] else [])
          in if spec_requires_approval spec then
               rbind (upstream_approval node_id nodes edges) (\<lambda>up.
                 Inr (if up then no_check\<lparr>nc_external := ext\<rparr>
                      else \<lparr>nc_problems = [Approval_missing (dget ''action'' node)], nc_external = ext,
                            nc_approvals = [node_id]\<rparr>))
             else Inr (no_check\<lparr>nc_external := ext\<rparr>))"

definition check_approval :: "string \<Rightarrow> jdict \<Rightarrow> node_check" where
  "check_approval node_id node =
     (let assignees = dget ''assignees'' node;
          count = (case assignees of JList xs \<Rightarrow> Some (int (length xs)) | _ \<Rightarrow> None);
          strategy = py_str (por (dget ''strategy'' node) (JStr ''any''));
          quorum = as_int (dget_or ''quorum'' (JInt 1) node)
      in \<lparr>nc_problems =
            (if count = None \<or> count = Some 0 then [Assignees_missing] else [])
            @ (if strategy \<notin> {''any'', ''all'', ''quorum''} then [Unsupported_strategy strategy] else [])
            @ (if strategy = ''quorum'' \<and>
                  (case (quorum, count) of (Some q, Some n) \<Rightarrow> q < 1 \<or> q > n | _ \<Rightarrow> True)
               then [Bad_quorum] else []),
          nc_external = [], nc_approvals = [node_id]\<rparr>)"

definition check_typed :: "NodeType \<Rightarrow> string \<Rightarrow> jdict \<Rightarrow> json list \<Rightarrow> json \<Rightarrow> (py_exc, node_check) res" where
  "check_typed ty node_id node nodes edges =
     (let flag = (\<lambda>b p. Inr (no_check\<lparr>nc_problems := (if b then [] else [p])\<rparr>)) in
      case ty of
        NAction \<Rightarrow> check_action node_id node nodes edges
      | NCondition \<Rightarrow> rbind (validate_condition node) (\<lambda>ps. Inr (no_check\<lparr>nc_problems := ps\<rparr>))
      | NDelay \<Rightarrow> flag (int_between 1 (dget ''delay_seconds'' node) 31536000) Bad_delay
      | NLoop \<Rightarrow> flag (int_between 1 (dget_or ''max_iterations'' (JInt MAX_LOOP_DEFAULT) node) MAX_LOOP_HARD)
                  Bad_max_iterations
      | NParallel \<Rightarrow>
          (let join = dget_or ''join'' (JStr ''all'') node
           in flag (in_strtuple join [''all'', ''any'', ''majority'', ''count'']) (Unsupported_join join))
      | NApproval \<Rightarrow> Inr (check_approval node_id node)
      | NSubworkflow \<Rightarrow> Inr no_check)"

definition input_problems :: "jdict \<Rightarrow> (py_exc, node_problem list) res" where
  "input_problems node =
     rbind (jdict_of (por (dget ''inputs'' node) (JDict []))) (\<lambda>inputs.
       Inr (concat (map (\<lambda>(key, v). case v of
           JStr s \<Rightarrow> if py_contains ''{{'' s then map (Input_expression key) (validate_expression s) else []
         | _ \<Rightarrow> []) inputs)))"

text \<open>The state of the loop over the nodes: \<^verbatim>\<open>node_ids\<close>, \<^verbatim>\<open>problems\<close>, \<^verbatim>\<open>external\<close> and \<^verbatim>\<open>approvals\<close>.\<close>

record node_scan =
  ns_ids :: "string list"
  ns_problems :: "problem list"
  ns_external :: "string list"
  ns_approvals :: "string list"

definition add_problems :: "nat \<Rightarrow> node_problem list \<Rightarrow> node_scan \<Rightarrow> node_scan" where
  "add_problems index ps st = st\<lparr>ns_problems := ns_problems st @ map (At_node index) ps\<rparr>"

definition scan_node :: "json list \<Rightarrow> json \<Rightarrow> node_scan \<Rightarrow> nat \<times> json \<Rightarrow> (py_exc, node_scan) res" where
  "scan_node nodes edges st entry =
     rbind (jdict_of (snd entry)) (\<lambda>node.
       let index = fst entry in
       case dget ''id'' node of
         JStr (c # cs) \<Rightarrow>
           (let node_id = c # cs;
                st1 = (if node_id \<in> set (ns_ids st) then add_problems index [Duplicate_id node_id] st
                       else st\<lparr>ns_ids := ns_ids st @ [node_id]\<rparr>)
            in case NodeType_of (dget ''type'' node) of
                 None \<Rightarrow> Inr (add_problems index [Unknown_node_type (dget ''type'' node)] st1)
               | Some ty \<Rightarrow>
                   rbind (check_typed ty node_id node nodes edges) (\<lambda>chk.
                   rbind (input_problems node) (\<lambda>ips.
                     Inr ((add_problems index (nc_problems chk @ ips) st1)
                       \<lparr>ns_external := ns_external st1 @ nc_external chk,
                        ns_approvals := ns_approvals st1 @ nc_approvals chk\<rparr>))))
       | _ \<Rightarrow> Inr (add_problems index [No_string_id] st))"

section \<open>Edges and policy\<close>

definition scan_edge :: "string list \<Rightarrow> nat \<times> json \<Rightarrow> (py_exc, problem list) res" where
  "scan_edge node_ids entry =
     rbind (jdict_of (snd entry)) (\<lambda>edge.
       let source = dget ''source'' edge; target = dget ''target'' edge in
       rbind (in_strset source node_ids) (\<lambda>has_source.
       rbind (in_strset target node_ids) (\<lambda>has_target.
         Inr (map (At_edge (fst entry))
           ((if has_source then [] else [Unknown_source source])
            @ (if has_target then [] else [Unknown_target target])
            @ (case dget ''condition'' edge of JStr s \<Rightarrow> map Edge_expression (validate_expression s)
               | _ \<Rightarrow> []))))))"

text \<open>\<^verbatim>\<open>policy[key]\<close> under \<^verbatim>\<open>if key in policy\<close>, for whatever value the document has there.\<close>

definition policy_lookup :: "string \<Rightarrow> json \<Rightarrow> (py_exc, json option) res" where
  "policy_lookup key policy = (case policy of
      JDict d \<Rightarrow> Inr (map_of d key)
    | JList xs \<Rightarrow> if list_ex (py_eq (JStr key)) xs then Inl TypeError else Inr None
    | JStr s \<Rightarrow> if py_contains key s then Inl TypeError else Inr None
    | _ \<Rightarrow> Inl TypeError)"

definition POLICY_CHECKS :: "(string \<times> int \<times> int) list" where
  "POLICY_CHECKS = [(''concurrency'', 1, 100), (''timeout_seconds'', 60, 86400), (''retry_attempts'', 0, 10),
     (''retry_initial_seconds'', 1, 300), (''retry_max_seconds'', 60, 3600)]"

definition validate_policy :: "json \<Rightarrow> (py_exc, problem list) res" where
  "validate_policy policy =
     rbind (rmap (\<lambda>(key, low, high). rbind (policy_lookup key policy) (\<lambda>v. Inr (case v of
         None \<Rightarrow> []
       | Some x \<Rightarrow> if int_between low x high then [] else [Policy_range key low high]))) POLICY_CHECKS) (\<lambda>ranges.
     rbind (policy_lookup ''error_policy'' policy) (\<lambda>ep.
     rbind (policy_lookup ''retry_strategy'' policy) (\<lambda>rs.
       Inr (concat ranges
         @ (case ep of None \<Rightarrow> [] | Some x \<Rightarrow>
              if in_strtuple x ErrorPolicy_values then [] else [Unknown_error_policy x])
         @ (case rs of None \<Rightarrow> [] | Some x \<Rightarrow>
              if in_strtuple x [''fixed'', ''exponential'', ''linear''] then [] else [Bad_retry_strategy])))))"

section \<open>Whole documents\<close>

definition canonical_hash :: "(string \<Rightarrow> string) \<Rightarrow> jdict \<Rightarrow> string" where
  "canonical_hash sha256_hex doc = content_hash sha256_hex
     (JDict (filter (\<lambda>e. fst e \<notin> {''version'', ''content_hash'', ''updated_at''}) doc))"

definition head_problems :: "jdict \<Rightarrow> (py_exc, problem list) res" where
  "head_problems doc =
     rbind (jget ''type'' (por (dget ''trigger'' doc) (JDict []))) (\<lambda>ty.
     rbind (in_strset ty TRIGGER_TYPES) (\<lambda>known.
       Inr ((case dget_or ''name'' (JStr []) doc of
               JStr name \<Rightarrow> if 1 \<le> length name \<and> length name \<le> MAX_NAME then [] else [Bad_name]
             | _ \<Rightarrow> [Bad_name])
         @ (if length (py_str (dget_or ''description'' (JStr []) doc)) > MAX_DESCRIPTION
            then [Bad_description] else [])
         @ (if in_strtuple (dget_or ''category'' (JStr ''custom'') doc) Category_values
            then [] else [Unknown_category (dget ''category'' doc)])
         @ (if known then [] else [Unknown_trigger ty]))))"

definition doc_nodes :: "jdict \<Rightarrow> json list" where
  "doc_nodes doc = (case por (dget ''nodes'' doc) (JList []) of JList xs \<Rightarrow> xs | _ \<Rightarrow> [])"

definition empty_scan :: node_scan where
  "empty_scan = \<lparr>ns_ids = [], ns_problems = [], ns_external = [], ns_approvals = []\<rparr>"

definition node_ids_for_reach :: "json list \<Rightarrow> (py_exc, string list) res" where
  "node_ids_for_reach nodes = rfold (\<lambda>acc n. rbind (jget ''id'' n) (\<lambda>i.
     Inr (if truthy i then acc @ [py_str i] else acc))) [] nodes"

definition cycle_problems :: "string list \<Rightarrow> json \<Rightarrow> (string \<times> string) list \<Rightarrow> (dsl_error, problem list) res" where
  "cycle_problems node_ids edges pairs =
     (if node_ids \<noteq> [] \<and> truthy edges then
        (case has_cycle node_ids pairs of
           None \<Rightarrow> Inl RecursionError
         | Some c \<Rightarrow> Inr (if c then [Cycle_detected] else []))
      else Inr [])"

definition lift_crash :: "(py_exc, 'a) res \<Rightarrow> (dsl_error, 'a) res" where
  "lift_crash r = (case r of Inl e \<Rightarrow> Inl (Crash e) | Inr x \<Rightarrow> Inr x)"

definition validate_workflow :: "(string \<Rightarrow> string) \<Rightarrow> jdict \<Rightarrow> (dsl_error, ValidationReport) res" where
  "validate_workflow sha256_hex doc =
     (let nodes = doc_nodes doc; edges = por (dget ''edges'' doc) (JList []) in
      rbind (lift_crash (head_problems doc)) (\<lambda>hps.
      rbind (lift_crash (rfold (scan_node nodes edges) empty_scan (enumerate 0 nodes))) (\<lambda>scan.
      rbind (lift_crash (iterate edges)) (\<lambda>es.
      rbind (lift_crash (rmap (scan_edge (ns_ids scan)) (enumerate 0 es))) (\<lambda>eps.
      rbind (lift_crash (edge_pairs es)) (\<lambda>pairs.
      rbind (cycle_problems (ns_ids scan) edges pairs) (\<lambda>cps.
      rbind (lift_crash (node_ids_for_reach nodes)) (\<lambda>ids.
      rbind (lift_crash (validate_policy (por (dget ''global_policy'' doc) (JDict [])))) (\<lambda>pps.
        let problems = hps
              @ (if nodes = [] then [No_nodes] else [])
              @ (if length nodes > MAX_NODES then [Too_many_nodes] else [])
              @ ns_problems scan @ concat eps @ cps @ pps;
            unreachable = unreachable_nodes ids pairs
        in Inr \<lparr>rep_valid = (problems = []), rep_problems = problems,
             rep_warnings = (if unreachable = {} then [] else [sorted_list_of_set unreachable]),
             rep_node_count = length nodes, rep_external_effect_nodes = ns_external scan,
             rep_approval_required_nodes = ns_approvals scan,
             rep_content_hash = canonical_hash sha256_hex doc\<rparr>)))))))))"

section \<open>Compilation\<close>

record plan_edge =
  pe_target :: string
  pe_condition :: json
  pe_label :: json
  pe_priority :: int

record plan =
  plan_content_hash :: string
  plan_entry_nodes :: "string list"
  plan_nodes :: "(string, jdict) adict"
  plan_adjacency :: "(string, plan_edge list) adict"
  plan_trigger :: json
  plan_global_policy :: jdict
  plan_external_effect_nodes :: "string list"
  plan_validation :: ValidationReport

definition jindex :: "string \<Rightarrow> json \<Rightarrow> (py_exc, json) res" where
  "jindex k j = (case j of JDict d \<Rightarrow> (case map_of d k of None \<Rightarrow> Inl KeyError | Some v \<Rightarrow> Inr v)
     | _ \<Rightarrow> Inl TypeError)"

definition add_edge :: "(string, plan_edge list) adict \<Rightarrow> json \<Rightarrow> (py_exc, (string, plan_edge list) adict) res" where
  "add_edge adjacency edge =
     rbind (jindex ''source'' edge) (\<lambda>s.
     rbind (jindex ''target'' edge) (\<lambda>t.
     rbind (jdict_of edge) (\<lambda>d.
     rbind (py_int (dget_or ''priority'' (JInt 0) d)) (\<lambda>p.
       let old = (case map_of adjacency (py_str s) of None \<Rightarrow> [] | Some es \<Rightarrow> es)
       in Inr (aput (py_str s) (old @ [\<lparr>pe_target = py_str t, pe_condition = dget ''condition'' d,
            pe_label = dget ''label'' d, pe_priority = p\<rparr>]) adjacency)))))"

definition default_policy :: jdict where
  "default_policy = [(''error_policy'', JStr ''stop''), (''concurrency'', JInt 10),
     (''timeout_seconds'', JInt 3600), (''retry_attempts'', JInt 3),
     (''retry_strategy'', JStr ''exponential''), (''retry_initial_seconds'', JInt 1),
     (''retry_max_seconds'', JInt 60)]"

definition merge_dict :: "jdict \<Rightarrow> jdict \<Rightarrow> jdict" where
  "merge_dict base over = foldl (\<lambda>d (k, v). aput k v d) base over"

definition node_table :: "(string \<times> jdict) list \<Rightarrow> (string, jdict) adict" where
  "node_table entries = foldl (\<lambda>d (k, v). aput k v d) [] entries"

definition compile_workflow :: "(string \<Rightarrow> string) \<Rightarrow> jdict \<Rightarrow> (dsl_error, plan) res" where
  "compile_workflow sha256_hex doc =
     rbind (validate_workflow sha256_hex doc) (\<lambda>report.
       if \<not> rep_valid report then Inl (DslValidationError (rep_problems report))
       else
         rbind (lift_crash (iterate (dget_or ''edges'' (JList []) doc))) (\<lambda>edges.
         rbind (lift_crash (rfold add_edge [] edges)) (\<lambda>adjacency.
         rbind (lift_crash (rmap (\<lambda>e. rbind (jindex ''target'' e) (\<lambda>t. Inr (py_str t))) edges)) (\<lambda>targets_all.
         rbind (lift_crash (rmap (\<lambda>n. rbind (jindex ''id'' n) (\<lambda>i. rbind (jdict_of n) (\<lambda>d. Inr (py_str i, d))))
             (doc_nodes doc))) (\<lambda>entries.
         rbind (lift_crash (case por (dget ''global_policy'' doc) (JDict []) of
             JDict d \<Rightarrow> Inr d | _ \<Rightarrow> Inl TypeError)) (\<lambda>policy.
           Inr \<lparr>plan_content_hash = rep_content_hash report,
                plan_entry_nodes = filter (\<lambda>i. i \<notin> set targets_all) (map fst entries),
                plan_nodes = node_table entries,
                plan_adjacency = map (\<lambda>(k, es). (k, sort_key (\<lambda>e. - pe_priority e) es)) adjacency,
                plan_trigger = dget_or ''trigger'' (JDict []) doc,
                plan_global_policy = merge_dict default_policy policy,
                plan_external_effect_nodes = rep_external_effect_nodes report,
                plan_validation = report\<rparr>))))))"

end
