(* ===== verification/Workflow_Condition.thy ===== *)
theory Workflow_Condition
  imports Py_Json
begin

text \<open>
  The expression part of \<^verbatim>\<open>application/workflows/executor.py\<close>: \<^verbatim>\<open>resolve_path\<close> and
  \<^verbatim>\<open>evaluate_condition\<close>. A comparison Python cannot order counts as false, as the source catches
  \<^verbatim>\<open>TypeError\<close> there; exceptions raised while descending into child conditions propagate.
\<close>

section \<open>Paths\<close>

definition path_step :: "json option \<Rightarrow> string \<Rightarrow> (py_exc, json option) res" where
  "path_step node part = (case node of
      None \<Rightarrow> Inr None
    | Some (JDict d) \<Rightarrow> Inr (Some (dget part d))
    | Some (JList xs) \<Rightarrow>
        if py_isdigit part then
          (case int_of_text part of
             None \<Rightarrow> Inl ValueError
           | Some i \<Rightarrow> Inr (Some (if nat i < length xs then xs ! nat i else JNull)))
        else Inr None
    | Some _ \<Rightarrow> Inr None)"

text \<open>The state \<^verbatim>\<open>None\<close> is the early \<^verbatim>\<open>return None\<close>; a \<^verbatim>\<open>None\<close> value met on the way also ends there.\<close>

definition resolve_path :: "jdict \<Rightarrow> string \<Rightarrow> (py_exc, json) res" where
  "resolve_path base path =
     rbind (rfold path_step (Some (JDict base)) (py_split ''.'' path)) (\<lambda>r.
       Inr (case r of None \<Rightarrow> JNull | Some v \<Rightarrow> v))"

definition operand :: "json \<Rightarrow> jdict \<Rightarrow> (py_exc, json) res" where
  "operand v scope = (case v of
      JStr s \<Rightarrow> if py_startswith s ''{{'' \<and> py_endswith s ''}}''
                then resolve_path scope (py_strip (strip_by (\<lambda>c. c \<in> {CHR ''{'', CHR ''}'', CHR '' ''}) s))
                else Inr v
    | _ \<Rightarrow> Inr v)"

section \<open>Comparisons\<close>

definition or_false :: "bool option \<Rightarrow> bool" where
  "or_false b = (case b of None \<Rightarrow> False | Some x \<Rightarrow> x)"

definition is_empty_value :: "json \<Rightarrow> bool" where
  "is_empty_value j = list_ex (py_eq j) [JNull, JStr [], JList [], JDict []]"

definition compare :: "json \<Rightarrow> json \<Rightarrow> json \<Rightarrow> bool" where
  "compare operator left right =
     (if operator = JStr ''eq'' then py_eq left right
      else if operator = JStr ''ne'' then \<not> py_eq left right
      else if operator = JStr ''gt'' then left \<noteq> JNull \<and> or_false (py_cmp True right left)
      else if operator = JStr ''gte'' then left \<noteq> JNull \<and> or_false (py_cmp False right left)
      else if operator = JStr ''lt'' then left \<noteq> JNull \<and> or_false (py_cmp True left right)
      else if operator = JStr ''lte'' then left \<noteq> JNull \<and> or_false (py_cmp False left right)
      else if operator = JStr ''in'' then or_false (py_in left (por right (JList [])))
      else if operator = JStr ''not_in'' then or_false (map_option Not (py_in left (por right (JList []))))
      else if operator = JStr ''contains'' then or_false (py_in right (por left (JStr [])))
      else if operator = JStr ''not_contains'' then or_false (map_option Not (py_in right (por left (JStr []))))
      else if operator = JStr ''starts_with'' then py_startswith (py_str (por left (JStr []))) (py_str right)
      else if operator = JStr ''ends_with'' then py_endswith (py_str (por left (JStr []))) (py_str right)
      else if operator = JStr ''is_empty'' then is_empty_value left
      else if operator = JStr ''is_not_empty'' then \<not> is_empty_value left
      else if operator = JStr ''between'' then
        (case right of JList [low, high] \<Rightarrow> or_false (py_cmp False low left) \<and> or_false (py_cmp False left high)
         | _ \<Rightarrow> False)
      else False)"

section \<open>Conditions\<close>

lemma rmap_cong [fundef_cong]:
  assumes "xs = ys" and "\<And>x. x \<in> set ys \<Longrightarrow> f x = g x"
  shows "rmap f xs = rmap g ys"
proof -
  have "rmap f ys = rmap g ys" using assms(2)
  proof (induction ys)
    case (Cons y ys)
    then have "f y = g y" "rmap f ys = rmap g ys" by simp_all
    then show ?case by (simp only: rmap.simps)
  qed simp
  then show ?thesis using assms(1) by simp
qed

lemma size_dict_value: "map_of d k = Some v \<Longrightarrow> size v < size (JDict d)"
proof (induction d)
  case Nil
  then show ?case by simp
next
  case (Cons e d)
  then show ?case by (cases e) (auto split: if_splits)
qed

lemma size_dict_elem: "map_of d k = Some (JList xs) \<Longrightarrow> c \<in> set xs \<Longrightarrow> size c < size (JDict d)"
  using size_dict_value [of d k "JList xs"] size_list_estimation' [of c xs "size c" size] by simp

lemma not_operator_size: "dget ''operator'' cond = JStr ''not'' \<Longrightarrow> size (JDict []) < size (JDict cond)"
  by (cases cond) (auto simp: dget_def)

function (sequential) evaluate_condition :: "jdict \<Rightarrow> json \<Rightarrow> (py_exc, bool) res" where
  "evaluate_condition scope (JDict cond) =
     (if dget ''operator'' cond \<in> {JStr ''and'', JStr ''or''} then
        rbind (case map_of cond ''conditions'' of
            None \<Rightarrow> Inr []
          | Some (JList cs) \<Rightarrow> rmap (evaluate_condition scope) cs
          | Some (JStr s) \<Rightarrow> if s = [] then Inr [] else Inl AttributeError
          | Some (JDict d) \<Rightarrow> if d = [] then Inr [] else Inl AttributeError
          | Some _ \<Rightarrow> Inl TypeError) (\<lambda>results.
        Inr (if dget ''operator'' cond = JStr ''and'' then list_all id results else list_ex id results))
      else if dget ''operator'' cond = JStr ''not'' then
        rbind (case map_of cond ''conditions'' of
            None \<Rightarrow> evaluate_condition scope (JDict [])
          | Some (JList (c # _)) \<Rightarrow> evaluate_condition scope c
          | Some (JList []) \<Rightarrow> Inl IndexError
          | Some (JStr s) \<Rightarrow> if s = [] then Inl IndexError else Inl AttributeError
          | Some (JDict d) \<Rightarrow> Inl KeyError
          | Some _ \<Rightarrow> Inl TypeError) (\<lambda>r. Inr (\<not> r))
      else
        rbind (operand (dget ''left'' cond) scope) (\<lambda>left.
        rbind (operand (dget ''right'' cond) scope) (\<lambda>right.
          Inr (compare (dget ''operator'' cond) left right))))"
| "evaluate_condition scope _ = Inl AttributeError"
  by pat_completeness auto

termination
proof (relation "measure (\<lambda>(scope, c). size c)")
  show "\<And>scope cond x2 x6 z. map_of cond ''conditions'' = Some x2 \<Longrightarrow> x2 = JList x6 \<Longrightarrow> z \<in> set x6
     \<Longrightarrow> ((scope, z), scope, JDict cond) \<in> measure (\<lambda>(scope, c). size c)"
    using size_dict_elem by (metis case_prod_conv in_measure)
qed (use size_dict_elem not_operator_size in \<open>auto simp del: json.size\<close>)

text \<open>\<^verbatim>\<open>matches\<close> passes validation and has no case here: such a condition is always false.\<close>

lemma compare_matches: "compare (JStr ''matches'') left right = False"
  by (simp add: compare_def)

end
