(* ===== verification/Retry_Circuit.thy ===== *)
theory Retry_Circuit
  imports Complex_Main Prelude
begin

text \<open>
  \<^verbatim>\<open>infrastructure/integrations/retry.py\<close>, the classification part of
  \<^verbatim>\<open>infrastructure/celery/reliability.py\<close> and \<^verbatim>\<open>infrastructure/integrations/circuit.py\<close>. Seconds are
  rationals (the sources use floats, whose rounding is not modelled); the random draw of the
  jitter and the monotonic clock are arguments.
\<close>

section \<open>Retry classes\<close>

datatype RetryClass = TRANSIENT | PROVIDER | TERMINAL | RATE_LIMITED

definition RetryClass_of :: "string \<Rightarrow> RetryClass option" where
  "RetryClass_of v = (if v = ''transient'' then Some TRANSIENT else if v = ''provider'' then Some PROVIDER
     else if v = ''terminal'' then Some TERMINAL else if v = ''rate_limited'' then Some RATE_LIMITED else None)"

definition STATUS_CLASS :: "(int \<times> RetryClass) list" where
  "STATUS_CLASS = [(400, TERMINAL), (401, TERMINAL), (403, TERMINAL), (404, TERMINAL), (409, TERMINAL),
     (422, TERMINAL), (408, TRANSIENT), (425, TRANSIENT), (429, RATE_LIMITED), (500, PROVIDER),
     (502, PROVIDER), (503, PROVIDER), (504, PROVIDER)]"

definition classify_status :: "int \<Rightarrow> RetryClass" where
  "classify_status status = (case map_of STATUS_CLASS status of
      Some c \<Rightarrow> c | None \<Rightarrow> if status \<ge> 500 then PROVIDER else TERMINAL)"

definition should_retry :: "RetryClass \<Rightarrow> int \<Rightarrow> int \<Rightarrow> bool" where
  "should_retry c attempt max_attempts = (if c = TERMINAL then False else attempt < max_attempts)"

record BackoffPolicy =
  bp_strategy :: string
  bp_initial_seconds :: rat
  bp_max_seconds :: rat
  bp_jitter :: rat

definition default_backoff :: BackoffPolicy where
  "default_backoff = \<lparr>bp_strategy = ''exponential'', bp_initial_seconds = 1, bp_max_seconds = 60, bp_jitter = 0.2\<rparr>"

text \<open>\<open>draw\<close> is the value of \<^verbatim>\<open>random.random()\<close>: \<^verbatim>\<open>uniform(a, b)\<close> is \<open>a + (b - a) * draw\<close>.\<close>

definition backoff_base :: "int \<Rightarrow> BackoffPolicy \<Rightarrow> rat" where
  "backoff_base attempt p =
     min (if bp_strategy p = ''fixed'' then bp_initial_seconds p
          else if bp_strategy p = ''linear'' then bp_initial_seconds p * of_int attempt
          else bp_initial_seconds p * 2 ^ nat (attempt - 1)) (bp_max_seconds p)"

definition backoff_delay :: "int \<Rightarrow> BackoffPolicy \<Rightarrow> rat \<Rightarrow> rat option" where
  "backoff_delay attempt p draw =
     (if attempt < 1 then None
      else let base = backoff_base attempt p; spread = base * bp_jitter p
           in Some (max 0 (base + (- spread + (spread - (- spread)) * draw))))"

section \<open>Exceptions\<close>

datatype app_error = ValidationError | Unauthenticated | TokenExpired | Forbidden | NotFound | Conflict
  | PreconditionFailed | RateLimited rat | FeatureNotAvailable | QuotaExceeded | ProviderUnavailable
  | IdempotencyConflict | TenantContextMissing

text \<open>Built-in exceptions stand for their subclasses; \<open>DomainError\<close> for every rule violation of the domain layer.\<close>

datatype exn = App app_error | DomainError | CircuitOpenError | ConnectionError | TimeoutError
  | PyTypeError | PyValueError | PyKeyError | PyAttributeError | OtherError string

definition TERMINAL_EXCEPTIONS :: "exn list" where
  "TERMINAL_EXCEPTIONS = [App ValidationError, App Unauthenticated, App Forbidden, App NotFound, App Conflict,
     App PreconditionFailed, App QuotaExceeded, PyTypeError, PyValueError, PyKeyError, PyAttributeError]"

definition classify_exception :: "exn \<Rightarrow> RetryClass" where
  "classify_exception exc =
     (case exc of
        App (RateLimited _) \<Rightarrow> RATE_LIMITED
      | _ \<Rightarrow>
        if exc \<in> {App ProviderUnavailable, CircuitOpenError, ConnectionError, TimeoutError} then PROVIDER
        else if exc = DomainError then TERMINAL
        else if exc \<in> set TERMINAL_EXCEPTIONS then TERMINAL
        else TRANSIENT)"

definition is_retryable :: "exn \<Rightarrow> int \<Rightarrow> int \<Rightarrow> bool" where
  "is_retryable exc attempt max_attempts = should_retry (classify_exception exc) attempt max_attempts"

definition retry_delay :: "exn \<Rightarrow> int \<Rightarrow> BackoffPolicy \<Rightarrow> rat \<Rightarrow> rat option" where
  "retry_delay exc attempt p draw =
     map_option (\<lambda>delay. case exc of App (RateLimited suggested) \<Rightarrow> max delay suggested | _ \<Rightarrow> delay)
       (backoff_delay attempt p draw)"

section \<open>Circuit breaker\<close>

datatype CircuitState = CLOSED | OPEN | HALF_OPEN

record CircuitPolicy =
  failure_threshold :: int
  failure_window_seconds :: rat
  open_seconds :: rat
  half_open_successes :: int
  half_open_max_trials :: int

definition default_circuit_policy :: CircuitPolicy where
  "default_circuit_policy = \<lparr>failure_threshold = 5, failure_window_seconds = 60, open_seconds = 30,
     half_open_successes = 3, half_open_max_trials = 1\<rparr>"

definition ANTHROPIC_POLICY :: CircuitPolicy where
  "ANTHROPIC_POLICY = default_circuit_policy\<lparr>failure_threshold := 3, failure_window_seconds := 15\<rparr>"

record CircuitBreaker =
  cb_state :: CircuitState
  cb_failures :: "rat list"
  cb_opened_at :: rat
  cb_half_open_successes :: int
  cb_half_open_trials :: int

definition new_breaker :: CircuitBreaker where
  "new_breaker = \<lparr>cb_state = CLOSED, cb_failures = [], cb_opened_at = 0, cb_half_open_successes = 0,
     cb_half_open_trials = 0\<rparr>"

definition trip :: "rat \<Rightarrow> CircuitBreaker \<Rightarrow> CircuitBreaker" where
  "trip moment b = b\<lparr>cb_state := OPEN, cb_opened_at := moment, cb_failures := [],
     cb_half_open_successes := 0, cb_half_open_trials := 0\<rparr>"

definition cool_down :: "CircuitPolicy \<Rightarrow> rat \<Rightarrow> CircuitBreaker \<Rightarrow> CircuitBreaker" where
  "cool_down p moment b =
     (if cb_state b = OPEN \<and> moment - cb_opened_at b \<ge> open_seconds p
      then b\<lparr>cb_state := HALF_OPEN, cb_half_open_successes := 0, cb_half_open_trials := 0\<rparr> else b)"

definition allow :: "CircuitPolicy \<Rightarrow> rat \<Rightarrow> CircuitBreaker \<Rightarrow> bool \<times> CircuitBreaker" where
  "allow p moment b =
     (let b' = cool_down p moment b in
      case cb_state b' of
        OPEN \<Rightarrow> (False, b')
      | HALF_OPEN \<Rightarrow> if cb_half_open_trials b' \<ge> half_open_max_trials p then (False, b')
                     else (True, b'\<lparr>cb_half_open_trials := cb_half_open_trials b' + 1\<rparr>)
      | CLOSED \<Rightarrow> (True, b'))"

text \<open>\<^verbatim>\<open>require\<close> raises \<^verbatim>\<open>CircuitOpen\<close> with the remaining wait when the call is refused.\<close>

definition require :: "CircuitPolicy \<Rightarrow> rat \<Rightarrow> CircuitBreaker \<Rightarrow> (rat, unit) res \<times> CircuitBreaker" where
  "require p moment b = (case allow p moment b of
      (True, b') \<Rightarrow> (Inr (), b')
    | (False, b') \<Rightarrow> (Inl (max 0 (open_seconds p - (moment - cb_opened_at b'))), b'))"

definition recent :: "CircuitPolicy \<Rightarrow> rat \<Rightarrow> rat list \<Rightarrow> rat list" where
  "recent p moment ts = filter (\<lambda>t. moment - t < failure_window_seconds p) ts"

definition record_success :: "CircuitPolicy \<Rightarrow> rat \<Rightarrow> CircuitBreaker \<Rightarrow> CircuitBreaker" where
  "record_success p moment b =
     (if cb_state b = HALF_OPEN then
        let b' = b\<lparr>cb_half_open_successes := cb_half_open_successes b + 1, cb_half_open_trials := 0\<rparr>
        in if cb_half_open_successes b' \<ge> half_open_successes p
           then b'\<lparr>cb_state := CLOSED, cb_failures := []\<rparr> else b'
      else b\<lparr>cb_failures := recent p moment (cb_failures b)\<rparr>)"

definition record_failure :: "CircuitPolicy \<Rightarrow> rat \<Rightarrow> CircuitBreaker \<Rightarrow> CircuitBreaker" where
  "record_failure p moment b =
     (if cb_state b = HALF_OPEN then trip moment b
      else let b' = b\<lparr>cb_failures := recent p moment (cb_failures b) @ [moment]\<rparr>
           in if int (length (cb_failures b')) \<ge> failure_threshold p then trip moment b' else b')"

text \<open>\<^verbatim>\<open>CircuitRegistry.get\<close>: one breaker per provider name, created on first use.\<close>

definition registry_policy :: "string \<Rightarrow> CircuitPolicy option \<Rightarrow> CircuitPolicy" where
  "registry_policy name policy = (case policy of Some p \<Rightarrow> p
     | None \<Rightarrow> if name = ''anthropic'' then ANTHROPIC_POLICY else default_circuit_policy)"

definition registry_get :: "string \<Rightarrow> CircuitPolicy option
    \<Rightarrow> (string, CircuitPolicy \<times> CircuitBreaker) adict
    \<Rightarrow> (CircuitPolicy \<times> CircuitBreaker) \<times> (string, CircuitPolicy \<times> CircuitBreaker) adict" where
  "registry_get name policy breakers = (case map_of breakers name of
      Some b \<Rightarrow> (b, breakers)
    | None \<Rightarrow> (let b = (registry_policy name policy, new_breaker) in (b, aput name b breakers)))"

section \<open>Runs of a breaker\<close>

datatype breaker_op = Call rat | Succeed rat | Fail rat

fun op_time :: "breaker_op \<Rightarrow> rat" where
  "op_time (Call t) = t" | "op_time (Succeed t) = t" | "op_time (Fail t) = t"

text \<open>The state after an operation, and whether it let a call through.\<close>

fun breaker_step :: "CircuitPolicy \<Rightarrow> CircuitBreaker \<Rightarrow> breaker_op \<Rightarrow> CircuitBreaker" where
  "breaker_step p b (Call t) = snd (allow p t b)"
| "breaker_step p b (Succeed t) = record_success p t b"
| "breaker_step p b (Fail t) = record_failure p t b"

fun admits :: "CircuitPolicy \<Rightarrow> CircuitBreaker \<Rightarrow> breaker_op \<Rightarrow> bool" where
  "admits p b (Call t) = fst (allow p t b)"
| "admits p b _ = False"

inductive breaker_reach :: "CircuitPolicy \<Rightarrow> CircuitBreaker \<Rightarrow> bool" for p where
  reach_new: "breaker_reach p new_breaker"
| reach_step: "breaker_reach p b \<Longrightarrow> breaker_reach p (breaker_step p b a)"

definition breaker_inv :: "CircuitPolicy \<Rightarrow> CircuitBreaker \<Rightarrow> bool" where
  "breaker_inv p b =
     (int (length (cb_failures b)) < failure_threshold p
      \<and> 0 \<le> cb_half_open_trials b \<and> cb_half_open_trials b \<le> half_open_max_trials p
      \<and> 0 \<le> cb_half_open_successes b
      \<and> (cb_state b = HALF_OPEN \<longrightarrow> cb_half_open_successes b < half_open_successes p))"

locale circuit_policy =
  fixes p :: CircuitPolicy
  assumes threshold_pos: "1 \<le> failure_threshold p"
    and successes_pos: "1 \<le> half_open_successes p"
    and trials_pos: "1 \<le> half_open_max_trials p"
    and open_pos: "0 < open_seconds p"
begin

lemma inv_new: "breaker_inv p new_breaker"
  using threshold_pos trials_pos by (simp add: breaker_inv_def new_breaker_def)

lemma inv_trip: "breaker_inv p b \<Longrightarrow> breaker_inv p (trip m b)"
  using threshold_pos trials_pos by (simp add: breaker_inv_def trip_def)

lemma inv_allow: "breaker_inv p b \<Longrightarrow> breaker_inv p (snd (allow p m b))"
  using successes_pos trials_pos
  by (auto simp: breaker_inv_def allow_def cool_down_def Let_def split: CircuitState.splits)

lemma length_recent: "int (length (recent p m ts)) \<le> int (length ts)"
  by (simp add: recent_def)

lemma inv_success: "breaker_inv p b \<Longrightarrow> breaker_inv p (record_success p m b)"
  using threshold_pos trials_pos length_recent [of m "cb_failures b"]
  by (auto simp: breaker_inv_def record_success_def Let_def)

lemma inv_failure: "breaker_inv p b \<Longrightarrow> breaker_inv p (record_failure p m b)"
  using inv_trip [of b m] threshold_pos trials_pos
  by (auto simp: breaker_inv_def record_failure_def trip_def Let_def)

lemma inv_step: "breaker_inv p b \<Longrightarrow> breaker_inv p (breaker_step p b a)"
  by (cases a) (simp_all add: inv_allow inv_success inv_failure)

lemma inv_reach: "breaker_reach p b \<Longrightarrow> breaker_inv p b"
  by (induction rule: breaker_reach.induct) (simp_all add: inv_new inv_step)

text \<open>Until the cool-down is over the breaker stays open, whatever is recorded.\<close>

lemma open_step:
  assumes "cb_state b = OPEN" "cb_opened_at b \<le> op_time a" "op_time a < cb_opened_at b + open_seconds p"
  shows "cb_state (breaker_step p b a) = OPEN" "cb_opened_at b \<le> cb_opened_at (breaker_step p b a)"
    "\<not> admits p b a"
  using assms
  by (cases a; auto simp: allow_def cool_down_def record_success_def record_failure_def trip_def Let_def)+

lemma open_run:
  assumes "cb_state b = OPEN" "lo \<le> cb_opened_at b"
    "\<forall>a\<in>set acts. op_time a < lo + open_seconds p" "sorted (map op_time acts)"
    "\<forall>a\<in>set acts. cb_opened_at b \<le> op_time a"
  shows "cb_state (foldl (breaker_step p) b acts) = OPEN
    \<and> (\<forall>xs a ys. acts = xs @ a # ys \<longrightarrow> \<not> admits p (foldl (breaker_step p) b xs) a)"
  using assms
proof (induction acts arbitrary: b)
  case Nil
  then show ?case by simp
next
  case (Cons a acts)
  have a: "cb_opened_at b \<le> op_time a" "op_time a < cb_opened_at b + open_seconds p"
    using Cons.prems by auto
  note step = open_step [OF Cons.prems(1) a]
  have opened: "cb_opened_at (breaker_step p b a) \<in> {cb_opened_at b, op_time a}"
    using Cons.prems(1) a by (cases a) (auto simp: allow_def cool_down_def record_success_def record_failure_def
        trip_def Let_def)
  have IH: "cb_state (foldl (breaker_step p) (breaker_step p b a) acts) = OPEN
      \<and> (\<forall>xs c ys. acts = xs @ c # ys \<longrightarrow> \<not> admits p (foldl (breaker_step p) (breaker_step p b a) xs) c)"
    by (rule Cons.IH) (use Cons.prems step opened in auto)
  have "\<not> admits p (foldl (breaker_step p) b xs) c" if "a # acts = xs @ c # ys" for xs c ys
    using that step(3) IH by (cases xs) auto
  with IH show ?case by simp
qed

end

interpretation default_circuit: circuit_policy default_circuit_policy
  by unfold_locales (simp_all add: default_circuit_policy_def)

interpretation anthropic_circuit: circuit_policy ANTHROPIC_POLICY
  by unfold_locales (simp_all add: ANTHROPIC_POLICY_def default_circuit_policy_def)

lemma circuit_policy_registry: "circuit_policy (registry_policy name None)"
  by (simp add: registry_policy_def default_circuit.circuit_policy_axioms anthropic_circuit.circuit_policy_axioms)

section \<open>Properties\<close>

text \<open>The backoff delay is defined for every attempt from 1 on, stays within the jitter band around the
  unjittered delay, is never negative and never exceeds the configured maximum by more than the jitter.\<close>

theorem backoff_delay_bounds:
  assumes "1 \<le> attempt" "0 \<le> bp_initial_seconds p" "0 \<le> bp_max_seconds p"
    and "0 \<le> bp_jitter p" "bp_jitter p \<le> 1" "0 \<le> draw" "draw \<le> 1"
  shows "\<exists>d. backoff_delay attempt p draw = Some d \<and> 0 \<le> d
    \<and> backoff_base attempt p * (1 - bp_jitter p) \<le> d \<and> d \<le> backoff_base attempt p * (1 + bp_jitter p)
    \<and> d \<le> bp_max_seconds p * (1 + bp_jitter p)"
proof -
  let ?b = "backoff_base attempt p" and ?j = "bp_jitter p"
  have b: "0 \<le> ?b" "?b \<le> bp_max_seconds p" using assms by (auto simp: backoff_base_def)
  have bj: "0 \<le> ?b * ?j" "?b * ?j \<le> ?b" using b assms by (simp_all add: mult_left_le)
  have "0 \<le> ?b * ?j * draw" "?b * ?j * draw \<le> ?b * ?j"
    using bj assms by (simp_all add: mult_left_le)
  then have d: "?b * (1 - ?j) \<le> ?b + (- (?b * ?j) + (?b * ?j - (- (?b * ?j))) * draw)"
      "?b + (- (?b * ?j) + (?b * ?j - (- (?b * ?j))) * draw) \<le> ?b * (1 + ?j)"
    by (simp_all add: algebra_simps)
  moreover have "?b * (1 + ?j) \<le> bp_max_seconds p * (1 + ?j)"
    using b assms by (intro mult_right_mono) auto
  moreover have "0 \<le> ?b * (1 - ?j)" using b assms by simp
  moreover define x where "x = ?b + (- (?b * ?j) + (?b * ?j - (- (?b * ?j))) * draw)"
  moreover have "backoff_delay attempt p draw = Some (max 0 x)"
    using assms(1) unfolding x_def backoff_delay_def Let_def by simp
  ultimately show ?thesis by (intro exI [of _ "max 0 x"]) linarith
qed

theorem backoff_delay_bounds_witness:
  "\<exists>d. backoff_delay 9 default_backoff (1/2) = Some d \<and> 48 \<le> d \<and> d \<le> 72"
proof -
  have "backoff_base 9 default_backoff = 60" by (simp add: backoff_base_def default_backoff_def)
  with backoff_delay_bounds [of 9 default_backoff "1/2"] show ?thesis
    by (auto simp: default_backoff_def)
qed

text \<open>Whatever calls, successes and failures a provider breaker of the registry has seen, it holds fewer
  recent failures than its threshold, at most one trial call is outstanding when half open, and a
  half-open breaker has not yet collected the successes that close it.\<close>

theorem breaker_invariant:
  assumes "breaker_reach (registry_policy name None) b"
  shows "int (length (cb_failures b)) < failure_threshold (registry_policy name None)
    \<and> cb_half_open_trials b \<in> {0, 1}
    \<and> (cb_state b = HALF_OPEN \<longrightarrow> cb_half_open_successes b \<in> {0, 1, 2})"
proof -
  have "breaker_inv (registry_policy name None) b"
    using circuit_policy.inv_reach [OF circuit_policy_registry assms] .
  then show ?thesis
    by (auto simp: breaker_inv_def registry_policy_def ANTHROPIC_POLICY_def default_circuit_policy_def split: if_splits)
qed

theorem breaker_invariant_witness:
  "breaker_reach (registry_policy ''anthropic'' None) new_breaker
   \<and> int (length (cb_failures new_breaker)) < failure_threshold (registry_policy ''anthropic'' None)"
  using breaker_invariant [OF reach_new [of "registry_policy ''anthropic'' None"]] reach_new by simp

text \<open>Once a breaker has opened, no call is let through before its 30 second cool-down is over, whatever
  successes and failures of calls still in flight are reported meanwhile.\<close>

theorem breaker_open_refuses:
  assumes "cb_state b = OPEN" and "sorted (map op_time acts)"
    and "\<forall>a\<in>set acts. cb_opened_at b \<le> op_time a \<and> op_time a < cb_opened_at b + 30"
    and "acts = xs @ a # ys"
  shows "\<not> admits (registry_policy name None) (foldl (breaker_step (registry_policy name None)) b xs) a"
proof -
  have "open_seconds (registry_policy name None) = 30"
    by (simp add: registry_policy_def ANTHROPIC_POLICY_def default_circuit_policy_def)
  then show ?thesis
    using circuit_policy.open_run [OF circuit_policy_registry, of b "cb_opened_at b" acts name] assms by simp
qed

theorem breaker_open_refuses_witness:
  "\<not> admits (registry_policy ''sms'' None)
     (foldl (breaker_step (registry_policy ''sms'' None)) (trip 100 new_breaker) [Fail 101, Succeed 102]) (Call 129)"
  by (rule breaker_open_refuses [of "trip 100 new_breaker" "[Fail 101, Succeed 102, Call 129]" "[Fail 101, Succeed 102]"
      "Call 129" "[]" "''sms''"]) (simp_all add: trip_def)

text \<open>A half-open breaker that allows one trial at a time.\<close>

definition trial :: "int \<Rightarrow> CircuitBreaker \<Rightarrow> CircuitBreaker" where
  "trial n b = b\<lparr>cb_state := HALF_OPEN, cb_half_open_successes := n, cb_half_open_trials := 1\<rparr>"

lemma call_cooled:
  assumes "cb_state b = OPEN" "cb_opened_at b + open_seconds p \<le> t" "half_open_max_trials p = 1"
  shows "allow p t b = (True, trial 0 b)"
proof -
  have "open_seconds p \<le> t - cb_opened_at b" using assms(2) by simp
  with assms(1,3) show ?thesis by (simp add: allow_def cool_down_def trial_def)
qed

lemma trial_success:
  assumes "half_open_max_trials p = 1" "n + 1 < half_open_successes p"
  shows "snd (allow p t' (record_success p t (trial n b))) = trial (n + 1) b"
  using assms by (simp add: allow_def cool_down_def record_success_def trial_def)

lemma trial_last: "half_open_successes p \<le> n + 1 \<Longrightarrow>
    cb_state (record_success p t (trial n b)) = CLOSED \<and> cb_failures (record_success p t (trial n b)) = []"
  by (simp add: record_success_def trial_def)

lemma trial_failure: "record_failure p t (trial n b) = trip t (trial n b)"
  by (simp add: record_failure_def trial_def)

text \<open>An open breaker recovers: after the cool-down three trial calls that succeed, each let through in turn,
  close it again with an empty failure history, and the first failing trial opens it again at once.\<close>

theorem breaker_recovers:
  assumes "cb_state b = OPEN" and "cb_opened_at b + 30 \<le> t" and "p = registry_policy name None"
  shows "admits p b (Call t)
    \<and> (let b1 = breaker_step p b (Call t) in
        cb_state (breaker_step p b1 (Fail t1)) = OPEN \<and> cb_opened_at (breaker_step p b1 (Fail t1)) = t1
        \<and> (let b2 = foldl (breaker_step p) b1 [Succeed t1, Call t2, Succeed t3, Call t4, Succeed t5]
           in cb_state b2 = CLOSED \<and> cb_failures b2 = []))"
proof -
  have p: "open_seconds p = 30" "half_open_successes p = 3" "half_open_max_trials p = 1"
    unfolding assms(3) by (simp_all add: registry_policy_def ANTHROPIC_POLICY_def default_circuit_policy_def)
  have call: "allow p t b = (True, trial 0 b)" using assms(1,2) p by (intro call_cooled) simp_all
  have "foldl (breaker_step p) (trial 0 b) [Succeed t1, Call t2, Succeed t3, Call t4, Succeed t5]
      = record_success p t5 (trial 2 b)"
    using trial_success [of p 0] trial_success [of p 1] p by simp
  then show ?thesis
    using trial_last [of p 2 t5 b] p call by (simp add: trial_failure trip_def del: foldl.simps)
qed

theorem breaker_recovers_witness: "admits default_circuit_policy (trip 0 new_breaker) (Call 30)"
proof (rule conjunct1 [OF breaker_recovers])
  show "default_circuit_policy = registry_policy ''sms'' None" by (simp add: registry_policy_def)
qed (simp_all add: trip_def)

text \<open>Classification keeps its first rule for the listed exceptions only: a domain rule violation and
  every listed terminal exception is never retried, while a missing feature entitlement, an expired
  token, a missing tenant context and an idempotency conflict are classified transient and retried.\<close>

theorem terminal_failures_not_retried:
  "(\<forall>exc\<in>insert DomainError (set TERMINAL_EXCEPTIONS). \<not> is_retryable exc attempt max_attempts)
   \<and> (\<forall>exc\<in>{App FeatureNotAvailable, App TokenExpired, App TenantContextMissing, App IdempotencyConflict}.
        is_retryable exc attempt max_attempts \<longleftrightarrow> attempt < max_attempts)"
  by (simp add: is_retryable_def classify_exception_def should_retry_def TERMINAL_EXCEPTIONS_def)

theorem terminal_failures_not_retried_witness:
  "\<not> is_retryable (App Forbidden) 1 3 \<and> is_retryable (App FeatureNotAvailable) 1 3"
  using terminal_failures_not_retried [of 1 3] by (simp add: TERMINAL_EXCEPTIONS_def)

end
