(* ===== verification/Workflow_Engine.thy ===== *)
theory Workflow_Engine
  imports Workflow_Dsl Workflow_Condition Retry_Circuit
begin

text \<open>
  \<^verbatim>\<open>application/workflows/executor.py\<close>: the engine that runs a compiled plan. The collaborators the
  source injects (action runner, kill check, clock) are the fields of \<open>engine_env\<close>; the runner sees
  every earlier call, so it may behave statefully. The calls made to it are recorded in the state,
  which is what the safety theorems speak about. Instants stand for their ISO text in node outputs.
\<close>

section \<open>Types\<close>

datatype ExecutionState = E_PENDING | E_RUNNING | E_WAITING | E_COMPLETED | E_FAILED | E_CANCELLED
datatype NodeState = N_PENDING | N_RUNNING | N_RETRYING | N_COMPLETED | N_FAILED | N_SKIPPED

record ExecutionContext =
  ctx_execution_id :: string
  ctx_tenant_id :: string
  ctx_workflow_id :: string
  ctx_version_id :: string
  ctx_content_hash :: string
  ctx_trigger_payload :: jdict
  ctx_entity :: jdict
  ctx_variables :: jdict
  ctx_dry_run :: bool
  ctx_correlation_id :: "string option"
  ctx_started_at :: instant

record NodeResult =
  nr_node_id :: string
  nr_state :: NodeState
  nr_attempt :: int
  nr_output :: jdict
  nr_error :: jdict
  nr_idempotency_key :: string
  nr_skipped_reason :: "string option"

record ExecutionResult =
  er_execution_id :: string
  er_state :: ExecutionState
  er_nodes :: "NodeResult list"
  er_error :: jdict
  er_resume_at :: "instant option"
  er_waiting_on :: "string option"
  er_resume_nodes :: "string list"
  er_external_effects :: "string list"

text \<open>One call of the action runner and what it may do.\<close>

record action_call =
  call_node :: string
  call_action :: string
  call_inputs :: json
  call_key :: string

datatype action_outcome = Done jdict | Terminal_action string | Killed | Failed exn string string

datatype engine_error = Hash_mismatch | Workflow_killed | Engine_crash py_exc

record engine_env =
  env_run :: "action_call list \<Rightarrow> action_call \<Rightarrow> action_outcome"
  env_killed :: "nat \<Rightarrow> bool"
  env_now :: "nat \<Rightarrow> instant"
  env_delay_now :: "nat \<Rightarrow> instant"

section \<open>Idempotency keys\<close>

definition execution_idempotency_key :: "string \<Rightarrow> string \<Rightarrow> string \<Rightarrow> string" where
  "execution_idempotency_key workflow_id version_id trigger_event_id =
     ''wf:'' @ workflow_id @ '':'' @ version_id @ '':'' @ trigger_event_id"

definition action_idempotency_key :: "string \<Rightarrow> string \<Rightarrow> int \<Rightarrow> string" where
  "action_idempotency_key execution_id node_id attempt = execution_id @ '':'' @ node_id @ '':'' @ show_int attempt"

definition inbound_idempotency_key :: "string \<Rightarrow> string \<Rightarrow> string" where
  "inbound_idempotency_key provider event_id = ''inbound:'' @ provider @ '':'' @ event_id"

section \<open>Scope and successors\<close>

definition scope_of :: "ExecutionContext \<Rightarrow> jdict" where
  "scope_of context =
     [(''event'', JDict (ctx_trigger_payload context)), (''entity'', JDict (ctx_entity context)),
      (''trigger'', JDict (ctx_trigger_payload context)),
      (''workflow'', JDict [(''id'', JStr (ctx_workflow_id context)),
         (''execution_id'', JStr (ctx_execution_id context)), (''content_hash'', JStr (ctx_content_hash context))]),
      (''node'', JDict (ctx_variables context))]"

definition wrong_branch :: "bool option \<Rightarrow> json \<Rightarrow> bool" where
  "wrong_branch branch label = (case branch of
      None \<Rightarrow> False
    | Some b \<Rightarrow> in_strtuple label [''true'', ''false''] \<and> (label = JStr ''true'') \<noteq> b)"

definition plan_edges :: "plan \<Rightarrow> string \<Rightarrow> plan_edge list" where
  "plan_edges p node_id = (case map_of (plan_adjacency p) node_id of None \<Rightarrow> [] | Some es \<Rightarrow> es)"

definition follow_edge :: "jdict \<Rightarrow> bool option \<Rightarrow> string list \<Rightarrow> plan_edge \<Rightarrow> (py_exc, string list) res" where
  "follow_edge scope branch out edge =
     (if wrong_branch branch (pe_label edge) then Inr out
      else if is_jdict (pe_condition edge) then
        rbind (evaluate_condition scope (pe_condition edge)) (\<lambda>ok.
          Inr (if ok then out @ [pe_target edge] else out))
      else Inr (out @ [pe_target edge]))"

definition next_nodes :: "plan \<Rightarrow> string \<Rightarrow> jdict \<Rightarrow> bool option \<Rightarrow> (py_exc, string list) res" where
  "next_nodes p node_id scope branch = rfold (follow_edge scope branch) [] (plan_edges p node_id)"

section \<open>Retries\<close>

text \<open>The class that decides about a retry: the catalogue entry of the action may override the exception.\<close>

definition effective_class :: "string \<Rightarrow> exn \<Rightarrow> RetryClass" where
  "effective_class action exc =
     (let classified = classify_exception exc in
      case action_spec action of
        None \<Rightarrow> classified
      | Some spec \<Rightarrow>
          if classified = TERMINAL then classified
          else if spec_retry_class spec = ''none'' then TERMINAL
          else if classified = RATE_LIMITED then classified
          else (case RetryClass_of (spec_retry_class spec) of None \<Rightarrow> TERMINAL | Some c \<Rightarrow> c))"

definition failed_result :: "string \<Rightarrow> int \<Rightarrow> string \<Rightarrow> jdict \<Rightarrow> NodeResult" where
  "failed_result node_id attempt key err =
     \<lparr>nr_node_id = node_id, nr_state = N_FAILED, nr_attempt = attempt, nr_output = [], nr_error = err,
      nr_idempotency_key = key, nr_skipped_reason = None\<rparr>"

definition completed_result :: "string \<Rightarrow> int \<Rightarrow> string \<Rightarrow> jdict \<Rightarrow> NodeResult" where
  "completed_result node_id attempt key output =
     \<lparr>nr_node_id = node_id, nr_state = N_COMPLETED, nr_attempt = attempt, nr_output = output, nr_error = [],
      nr_idempotency_key = key, nr_skipped_reason = None\<rparr>"

definition dry_result :: "string \<Rightarrow> string \<Rightarrow> int \<Rightarrow> string \<Rightarrow> NodeResult" where
  "dry_result action node_id attempt key =
     \<lparr>nr_node_id = node_id, nr_state = N_SKIPPED, nr_attempt = attempt,
      nr_output = [(''dry_run'', JBool True), (''would_call'', JStr action),
        (''external_effect'', JBool (case action_spec action of None \<Rightarrow> False | Some s \<Rightarrow> spec_external_effect s))],
      nr_error = [], nr_idempotency_key = key,
      nr_skipped_reason = Some ''dry run performs no external effect''\<rparr>"

text \<open>
  \<^verbatim>\<open>for attempt in range(1, max_attempts + 1)\<close> from the given attempt on. The calls made so far are
  threaded through.
\<close>

function attempts_from :: "engine_env \<Rightarrow> ExecutionContext \<Rightarrow> string \<Rightarrow> string \<Rightarrow> json \<Rightarrow> int \<Rightarrow> int
    \<Rightarrow> action_call list \<Rightarrow> (engine_error, NodeResult) res \<times> action_call list" where
  "attempts_from env context action node_id inputs max_attempts attempt calls =
     (if attempt > max_attempts
      then (Inr (failed_result node_id max_attempts [] [(''message'', JStr ''exhausted'')]), calls)
      else
        let key = action_idempotency_key (ctx_execution_id context) node_id attempt in
        if ctx_dry_run context then (Inr (dry_result action node_id attempt key), calls)
        else
          let call = \<lparr>call_node = node_id, call_action = action, call_inputs = inputs, call_key = key\<rparr>;
              calls' = calls @ [call]
          in case env_run env calls call of
               Done output \<Rightarrow> (Inr (completed_result node_id attempt key output), calls')
             | Terminal_action msg \<Rightarrow> (Inr (failed_result node_id attempt key
                 [(''type'', JStr ''terminal''), (''message'', JStr msg), (''retried'', JBool False)]), calls')
             | Killed \<Rightarrow> (Inl Workflow_killed, calls')
             | Failed exc name msg \<Rightarrow>
                 if \<not> should_retry (effective_class action exc) attempt max_attempts
                 then (Inr (failed_result node_id attempt key
                        [(''type'', JStr name), (''message'', JStr msg), (''attempts'', JInt attempt)]), calls')
                 else attempts_from env context action node_id inputs max_attempts (attempt + 1) calls')"
  by pat_completeness auto
termination
  by (relation "measure (\<lambda>(env, context, action, node_id, inputs, max_attempts, attempt, calls).
        nat (max_attempts + 1 - attempt))") auto

declare attempts_from.simps [simp del]

definition policy_index :: "string \<Rightarrow> plan \<Rightarrow> (py_exc, json) res" where
  "policy_index k p = (case map_of (plan_global_policy p) k of None \<Rightarrow> Inl KeyError | Some v \<Rightarrow> Inr v)"

definition lift_engine :: "(py_exc, 'a) res \<Rightarrow> (engine_error, 'a) res" where
  "lift_engine r = (case r of Inl e \<Rightarrow> Inl (Engine_crash e) | Inr x \<Rightarrow> Inr x)"

text \<open>The backoff values only set how long the worker sleeps between attempts.\<close>

definition run_with_retry :: "engine_env \<Rightarrow> plan \<Rightarrow> ExecutionContext \<Rightarrow> jdict \<Rightarrow> action_call list
    \<Rightarrow> (engine_error, NodeResult) res \<times> action_call list" where
  "run_with_retry env p context node calls =
     (case rbind (policy_index ''retry_attempts'' p) (\<lambda>dflt. py_int (dget_or ''retry_attempts'' dflt node)) of
        Inl e \<Rightarrow> (Inl (Engine_crash e), calls)
      | Inr n \<Rightarrow> attempts_from env context (py_str (dget ''action'' node)) (py_str (dget ''id'' node))
                  (dget_or ''inputs'' (JDict []) node) (n + 1) 1 calls)"

section \<open>The execution loop\<close>

record engine_state =
  es_queue :: "string list"
  es_visited :: "string set"
  es_loops :: "string \<Rightarrow> int"
  es_results :: "NodeResult list"
  es_external :: "string list"
  es_calls :: "action_call list"
  es_persisted :: "NodeResult list"
  es_step :: nat

datatype step_outcome = Continue engine_state | Stop ExecutionResult engine_state | Raise engine_error engine_state

definition finish :: "ExecutionContext \<Rightarrow> ExecutionState \<Rightarrow> jdict \<Rightarrow> engine_state \<Rightarrow> ExecutionResult" where
  "finish context state err st =
     \<lparr>er_execution_id = ctx_execution_id context, er_state = state, er_nodes = es_results st, er_error = err,
      er_resume_at = None, er_waiting_on = None, er_resume_nodes = [], er_external_effects = es_external st\<rparr>"

definition add_result :: "NodeResult \<Rightarrow> engine_state \<Rightarrow> engine_state" where
  "add_result r st = st\<lparr>es_results := es_results st @ [r]\<rparr>"

text \<open>\<^verbatim>\<open>queue.extend(self._next_nodes(...)); continue\<close>.\<close>

definition push_next :: "plan \<Rightarrow> ExecutionContext \<Rightarrow> string \<Rightarrow> bool option \<Rightarrow> engine_state \<Rightarrow> step_outcome" where
  "push_next p context node_id branch st =
     (case next_nodes p node_id (scope_of context) branch of
        Inl e \<Rightarrow> Raise (Engine_crash e) st
      | Inr ns \<Rightarrow> Continue (st\<lparr>es_queue := es_queue st @ ns\<rparr>))"

definition plain_result :: "string \<Rightarrow> NodeState \<Rightarrow> jdict \<Rightarrow> jdict \<Rightarrow> NodeResult" where
  "plain_result node_id state output err =
     \<lparr>nr_node_id = node_id, nr_state = state, nr_attempt = 1, nr_output = output, nr_error = err,
      nr_idempotency_key = [], nr_skipped_reason = None\<rparr>"

definition suspend :: "plan \<Rightarrow> ExecutionContext \<Rightarrow> string \<Rightarrow> instant option \<Rightarrow> engine_state \<Rightarrow> step_outcome" where
  "suspend p context node_id resume_at st =
     (case next_nodes p node_id (scope_of context) None of
        Inl e \<Rightarrow> Raise (Engine_crash e) st
      | Inr ns \<Rightarrow> Stop ((finish context E_WAITING [] st)
          \<lparr>er_resume_at := resume_at, er_waiting_on := Some node_id, er_resume_nodes := ns\<rparr>) st)"

definition stop_on_error :: "plan \<Rightarrow> bool" where
  "stop_on_error p = (map_of (plan_global_policy p) ''error_policy'' = Some (JStr ''stop''))"

definition run_loop_node :: "plan \<Rightarrow> ExecutionContext \<Rightarrow> string \<Rightarrow> jdict \<Rightarrow> engine_state \<Rightarrow> step_outcome" where
  "run_loop_node p context node_id node st =
     (case py_int (dget_or ''max_iterations'' (JInt 1000) node) of
        Inl e \<Rightarrow> Raise (Engine_crash e) st
      | Inr n \<Rightarrow>
          let limit = min n MAX_LOOP_HARD;
              count = es_loops st node_id + 1;
              st1 = st\<lparr>es_loops := (es_loops st)(node_id := count)\<rparr>
          in if count > limit then
               let st2 = add_result (plain_result node_id N_FAILED [] [(''reason'', JStr ''loop limit reached'')]) st1
               in if stop_on_error p
                  then Stop (finish context E_FAILED [(''node_id'', JStr node_id), (''reason'', JStr ''loop limit reached'')] st2) st2
                  else Continue st2
             else push_next p context node_id None (st1\<lparr>es_visited := es_visited st1 - {node_id}\<rparr>))"

definition run_action_node :: "engine_env \<Rightarrow> plan \<Rightarrow> ExecutionContext \<Rightarrow> string \<Rightarrow> jdict \<Rightarrow> engine_state \<Rightarrow> step_outcome" where
  "run_action_node env p context node_id node st =
     (case run_with_retry env p context node (es_calls st) of
        (Inl e, calls) \<Rightarrow> Raise e (st\<lparr>es_calls := calls\<rparr>)
      | (Inr result, calls) \<Rightarrow>
          let external = (case action_spec (py_str (dget ''action'' node)) of
                None \<Rightarrow> False | Some s \<Rightarrow> spec_external_effect s) \<and> nr_state result = N_COMPLETED;
              st1 = (add_result result st)\<lparr>es_calls := calls,
                es_external := es_external st @ (if external then [node_id] else []),
                es_persisted := es_persisted st @ [result]\<rparr>
          in if nr_state result = N_FAILED \<and> stop_on_error p
             then Stop (finish context E_FAILED ((''node_id'', JStr node_id) # nr_error result) st1) st1
             else push_next p context node_id None st1)"

definition run_node :: "engine_env \<Rightarrow> plan \<Rightarrow> ExecutionContext \<Rightarrow> string \<Rightarrow> jdict \<Rightarrow> engine_state \<Rightarrow> step_outcome" where
  "run_node env p context node_id node st =
     (let ty = dget ''type'' node in
      if ty = JStr ''condition'' then
        (case evaluate_condition (scope_of context) (dget_or ''condition'' (JDict []) node) of
           Inl e \<Rightarrow> Raise (Engine_crash e) st
         | Inr passed \<Rightarrow> push_next p context node_id (Some passed)
             (add_result (plain_result node_id N_COMPLETED [(''result'', JBool passed)] []) st))
      else if ty = JStr ''delay'' then
        (case rbind (jindex ''delay_seconds'' (JDict node)) py_int of
           Inl e \<Rightarrow> Raise (Engine_crash e) st
         | Inr n \<Rightarrow>
             let resume_at = env_delay_now env (es_step st) + seconds n
             in suspend p context node_id (Some resume_at)
                  (add_result (plain_result node_id N_COMPLETED [(''resume_at'', JInt resume_at)] []) st))
      else if ty = JStr ''approval'' then
        suspend p context node_id None
          (add_result (plain_result node_id N_PENDING [(''approval'', JStr ''requested'')] []) st)
      else if ty = JStr ''loop'' then run_loop_node p context node_id node st
      else if ty = JStr ''parallel'' then
        push_next p context node_id None
          (add_result (plain_result node_id N_COMPLETED [(''join'', dget_or ''join'' (JStr ''all'') node)] []) st)
      else if ty = JStr ''action'' then run_action_node env p context node_id node st
      else push_next p context node_id None st)"

definition node_is_loop :: "plan \<Rightarrow> string \<Rightarrow> bool" where
  "node_is_loop p node_id = (case map_of (plan_nodes p) node_id of None \<Rightarrow> False
     | Some node \<Rightarrow> dget ''type'' node = JStr ''loop'')"

text \<open>\<^verbatim>\<open>queue.pop(0)\<close> and \<^verbatim>\<open>visited.add(node_id)\<close>.\<close>

definition pop_queue :: "engine_state \<Rightarrow> engine_state" where
  "pop_queue st = st\<lparr>es_queue := tl (es_queue st), es_step := Suc (es_step st)\<rparr>"

definition mark_visited :: "string \<Rightarrow> engine_state \<Rightarrow> engine_state" where
  "mark_visited node_id st = st\<lparr>es_visited := insert node_id (es_visited st)\<rparr>"

text \<open>One turn of \<^verbatim>\<open>while queue\<close>, for a queue that is not empty.\<close>

definition engine_step :: "engine_env \<Rightarrow> plan \<Rightarrow> ExecutionContext \<Rightarrow> instant \<Rightarrow> engine_state \<Rightarrow> step_outcome" where
  "engine_step env p context deadline st =
     (if env_killed env (es_step st)
      then Stop (finish context E_CANCELLED [(''reason'', JStr ''kill switch engaged'')] st) st
      else if env_now env (es_step st) > deadline
      then Stop (finish context E_FAILED [(''reason'', JStr ''workflow timeout exceeded'')] st) st
      else
        let node_id = hd (es_queue st); st1 = pop_queue st
        in if node_id \<in> es_visited st1 \<and> \<not> node_is_loop p node_id then Continue st1
           else let st2 = mark_visited node_id st1
                in case map_of (plan_nodes p) node_id of
                     None \<Rightarrow> Continue st2
                   | Some node \<Rightarrow> run_node env p context node_id node st2)"

subsection \<open>Termination\<close>

text \<open>How often a node may still be expanded: a loop node until its limit, any other node once.\<close>

definition loop_limit :: "jdict \<Rightarrow> int" where
  "loop_limit node = (case py_int (dget_or ''max_iterations'' (JInt 1000) node) of
      Inl _ \<Rightarrow> 0 | Inr n \<Rightarrow> min n MAX_LOOP_HARD)"

definition budget :: "plan \<Rightarrow> engine_state \<Rightarrow> string \<Rightarrow> nat" where
  "budget p st i = (case map_of (plan_nodes p) i of
      None \<Rightarrow> 0
    | Some node \<Rightarrow> if dget ''type'' node = JStr ''loop'' then nat (loop_limit node - es_loops st i)
                   else if i \<in> es_visited st then 0 else 1)"

definition total_budget :: "plan \<Rightarrow> engine_state \<Rightarrow> nat" where
  "total_budget p st = (\<Sum>i\<in>fst ` set (plan_nodes p). budget p st i)"

lemma total_budget_le: "(\<And>i. budget p st' i \<le> budget p st i) \<Longrightarrow> total_budget p st' \<le> total_budget p st"
  unfolding total_budget_def by (rule sum_mono) simp

lemma total_budget_less:
  assumes "\<And>i. budget p st' i \<le> budget p st i" and "budget p st' n < budget p st n"
  shows "total_budget p st' < total_budget p st"
proof -
  have "n \<in> fst ` set (plan_nodes p)"
    using assms(2) by (auto simp: budget_def dest: map_of_SomeD intro: rev_image_eqI split: option.splits)
  then show ?thesis unfolding total_budget_def using assms by (intro sum_strict_mono_ex1) auto
qed

lemma push_next_Continue:
  "push_next p context n branch st = Continue st' \<Longrightarrow>
     \<exists>ns. next_nodes p n (scope_of context) branch = Inr ns \<and> st' = st\<lparr>es_queue := es_queue st @ ns\<rparr>"
  by (auto simp: push_next_def split: sum.splits)

lemma suspend_not_Continue [simp]: "suspend p context n r st \<noteq> Continue st'"
  by (simp add: suspend_def split: sum.splits)

lemma run_node_plain:
  assumes "run_node env p context n node st = Continue st'" and "dget ''type'' node \<noteq> JStr ''loop''"
  shows "es_visited st' = es_visited st" "es_loops st' = es_loops st" "es_step st' = es_step st"
  using assms
  by (auto simp: run_node_def run_action_node_def add_result_def Let_def dest!: push_next_Continue
      split: if_splits sum.splits prod.splits)

lemma run_loop_node_Continue:
  assumes "run_loop_node p context n node st = Continue st'"
  shows "es_loops st' = (es_loops st)(n := es_loops st n + 1)"
    and "es_visited st' = es_visited st \<or> es_visited st' = es_visited st - {n}"
    and "es_queue st' = es_queue st \<or> es_loops st n + 1 \<le> loop_limit node"
  using assms
  by (auto simp: run_loop_node_def loop_limit_def add_result_def Let_def dest!: push_next_Continue
      split: if_splits sum.splits)

definition engine_measure :: "plan \<Rightarrow> engine_state \<Rightarrow> nat \<times> nat" where
  "engine_measure p st = (total_budget p st, length (es_queue st))"

lemma pop_queue_simps [simp]:
  "es_queue (pop_queue st) = tl (es_queue st)" "es_visited (pop_queue st) = es_visited st"
  "es_loops (pop_queue st) = es_loops st" "es_results (pop_queue st) = es_results st"
  "es_external (pop_queue st) = es_external st" "es_calls (pop_queue st) = es_calls st"
  "es_persisted (pop_queue st) = es_persisted st"
  by (simp_all add: pop_queue_def)

lemma mark_visited_simps [simp]:
  "es_queue (mark_visited n st) = es_queue st" "es_visited (mark_visited n st) = insert n (es_visited st)"
  "es_loops (mark_visited n st) = es_loops st" "es_results (mark_visited n st) = es_results st"
  "es_external (mark_visited n st) = es_external st" "es_calls (mark_visited n st) = es_calls st"
  "es_persisted (mark_visited n st) = es_persisted st"
  by (simp_all add: mark_visited_def)

text \<open>The ways a turn can go on, and the ways it can end.\<close>

lemma engine_step_cases:
  obtains (halt) r where "engine_step env p context deadline st = Stop r st" "er_external_effects r = es_external st"
      "er_state r \<noteq> E_WAITING" "er_state r \<noteq> E_COMPLETED"
  | (skip) "hd (es_queue st) \<in> es_visited st" "\<not> node_is_loop p (hd (es_queue st))"
      "engine_step env p context deadline st = Continue (pop_queue st)"
  | (unknown) "map_of (plan_nodes p) (hd (es_queue st)) = None"
      "engine_step env p context deadline st = Continue (mark_visited (hd (es_queue st)) (pop_queue st))"
  | (run) node where "map_of (plan_nodes p) (hd (es_queue st)) = Some node"
      "hd (es_queue st) \<notin> es_visited st \<or> node_is_loop p (hd (es_queue st))"
      "engine_step env p context deadline st
        = run_node env p context (hd (es_queue st)) node (mark_visited (hd (es_queue st)) (pop_queue st))"
proof (cases "env_killed env (es_step st) \<or> env_now env (es_step st) > deadline")
  case True
  then show ?thesis
    by (intro halt [of "if env_killed env (es_step st)
         then finish context E_CANCELLED [(''reason'', JStr ''kill switch engaged'')] st
         else finish context E_FAILED [(''reason'', JStr ''workflow timeout exceeded'')] st"])
      (auto simp add: engine_step_def finish_def)
next
  case go: False
  show ?thesis
  proof (cases "hd (es_queue st) \<in> es_visited st \<and> \<not> node_is_loop p (hd (es_queue st))")
    case True
    with go show ?thesis by (intro skip) (simp_all add: engine_step_def)
  next
    case False
    show ?thesis
    proof (cases "map_of (plan_nodes p) (hd (es_queue st))")
      case None
      with go False show ?thesis by (intro unknown) (auto simp add: engine_step_def Let_def)
    next
      case (Some node)
      with go False show ?thesis by (intro run [of node]) (auto simp add: engine_step_def Let_def)
    qed
  qed
qed

lemma run_node_decreases:
  assumes "map_of (plan_nodes p) n = Some node" "n \<notin> es_visited st \<or> node_is_loop p n"
    and "run_node env p context n node (mark_visited n st) = Continue st'"
  shows "total_budget p st' < total_budget p st \<or> total_budget p st' \<le> total_budget p st \<and> es_queue st' = es_queue st"
proof (cases "dget ''type'' node = JStr ''loop''")
  case False
  note plain = run_node_plain [OF assms(3) False]
  have "budget p st' i \<le> budget p st i" for i
    using plain by (simp add: budget_def split: option.splits)
  moreover have "budget p st' n < budget p st n"
    using plain assms(1,2) False by (simp add: budget_def node_is_loop_def)
  ultimately have "total_budget p st' < total_budget p st" by (rule total_budget_less)
  then show ?thesis by simp
next
  case True
  then have "run_loop_node p context n node (mark_visited n st) = Continue st'"
    using assms(3) by (simp add: run_node_def)
  note loop = run_loop_node_Continue [OF this, simplified]
  have le: "budget p st' i \<le> budget p st i" for i
  proof (cases "i = n")
    case True
    with loop(1) assms(1) \<open>dget ''type'' node = JStr ''loop''\<close> show ?thesis by (simp add: budget_def)
  next
    case False
    with loop(1,2) show ?thesis by (auto simp: budget_def split: option.splits)
  qed
  from loop(3) show ?thesis
  proof
    assume "es_loops st n + 1 \<le> loop_limit node"
    then have "budget p st' n < budget p st n"
      using loop(1) assms(1) True by (simp add: budget_def)
    then show ?thesis using total_budget_less [OF le] by blast
  qed (simp add: total_budget_le [OF le])
qed

lemma total_budget_eq: "es_visited s = es_visited t \<Longrightarrow> es_loops s = es_loops t \<Longrightarrow> total_budget p s = total_budget p t"
  unfolding total_budget_def by (rule sum.cong) (simp_all add: budget_def split: option.splits)

lemma engine_step_decreases:
  assumes "engine_step env p context deadline st = Continue st'" and "es_queue st \<noteq> []"
  shows "(engine_measure p st', engine_measure p st) \<in> less_than <*lex*> less_than"
proof (cases rule: engine_step_cases [of env p "context" deadline st])
  case (halt r)
  with assms(1) show ?thesis by simp
next
  case skip
  then have st': "st' = pop_queue st" using assms(1) by simp
  have "total_budget p (pop_queue st) = total_budget p st" by (rule total_budget_eq) simp_all
  with assms(2) show ?thesis by (simp add: engine_measure_def st')
next
  case unknown
  have "total_budget p st' \<le> total_budget p st"
    using unknown assms(1) by (intro total_budget_le) (auto simp: budget_def split: option.splits)
  with unknown assms show ?thesis by (auto simp: engine_measure_def)
next
  case (run node)
  have "total_budget p (pop_queue st) = total_budget p st" by (rule total_budget_eq) simp_all
  moreover have "length (tl (es_queue st)) < length (es_queue st)" using assms(2) by simp
  ultimately show ?thesis
    using run_node_decreases [OF run(1), of "pop_queue st" env "context" st'] run(2,3) assms(1)
    by (auto simp: engine_measure_def)
qed

function exec_loop :: "engine_env \<Rightarrow> plan \<Rightarrow> ExecutionContext \<Rightarrow> instant \<Rightarrow> engine_state
    \<Rightarrow> (engine_error, ExecutionResult) res \<times> engine_state" where
  "exec_loop env p context deadline st =
     (if es_queue st = [] then (Inr (finish context E_COMPLETED [] st), st)
      else case engine_step env p context deadline st of
             Continue st' \<Rightarrow> exec_loop env p context deadline st'
           | Stop r st' \<Rightarrow> (Inr r, st')
           | Raise e st' \<Rightarrow> (Inl e, st'))"
  by pat_completeness auto
termination
  by (relation "inv_image (less_than <*lex*> less_than) (\<lambda>(env, p, context, deadline, st). engine_measure p st)")
    (use engine_step_decreases in \<open>auto simp: wf_lex_prod\<close>)

declare exec_loop.simps [simp del]

definition start_state :: "string list \<Rightarrow> engine_state" where
  "start_state queue = \<lparr>es_queue = queue, es_visited = {}, es_loops = (\<lambda>_. 0), es_results = [], es_external = [],
     es_calls = [], es_persisted = [], es_step = 0\<rparr>"

text \<open>\<open>resume_from\<close> is the list of node identifiers to continue from, when given.\<close>

definition execute :: "engine_env \<Rightarrow> plan \<Rightarrow> ExecutionContext \<Rightarrow> string list option
    \<Rightarrow> (engine_error, ExecutionResult) res \<times> engine_state" where
  "execute env p context resume_from =
     (let st = start_state (case resume_from of None \<Rightarrow> plan_entry_nodes p | Some ns \<Rightarrow> ns) in
      if plan_content_hash p \<noteq> ctx_content_hash context then (Inl Hash_mismatch, st)
      else case rbind (policy_index ''timeout_seconds'' p) py_int of
             Inl e \<Rightarrow> (Inl (Engine_crash e), st)
           | Inr n \<Rightarrow> exec_loop env p context (ctx_started_at context + seconds n) st)"

definition replay_context :: "ExecutionContext \<Rightarrow> string \<Rightarrow> instant \<Rightarrow> ExecutionContext" where
  "replay_context original new_execution_id now = original\<lparr>ctx_execution_id := new_execution_id,
     ctx_variables := aput ''_replay_of'' (JStr (ctx_execution_id original)) (ctx_variables original),
     ctx_started_at := now\<rparr>"

end
