(* ===== verification/Workflow_Dsl_Proofs.thy ===== *)
theory Workflow_Dsl_Proofs
  imports Workflow_Dsl
begin

text \<open>
  What acceptance by \<open>validate_workflow\<close> guarantees about a document and what
  \<open>compile_workflow\<close> then produces, over the graph the document describes.
\<close>

section \<open>The graph a document describes\<close>

definition node_id :: "json \<Rightarrow> string" where
  "node_id n = (case n of JDict d \<Rightarrow> (case dget ''id'' d of JStr s \<Rightarrow> s | _ \<Rightarrow> []) | _ \<Rightarrow> [])"

definition node_kind :: "json \<Rightarrow> NodeType option" where
  "node_kind n = (case n of JDict d \<Rightarrow> NodeType_of (dget ''type'' d) | _ \<Rightarrow> None)"

definition edge_of :: "json \<Rightarrow> string \<times> string" where
  "edge_of e = (case e of JDict d \<Rightarrow> (py_str (dget ''source'' d), py_str (dget ''target'' d)) | _ \<Rightarrow> ([], []))"

definition doc_edges :: "jdict \<Rightarrow> json list" where
  "doc_edges doc = (case iterate (por (dget ''edges'' doc) (JList [])) of Inl _ \<Rightarrow> [] | Inr es \<Rightarrow> es)"

definition doc_graph :: "jdict \<Rightarrow> (string \<times> string) set" where
  "doc_graph doc = edge_of ` set (doc_edges doc)"

definition doc_ids :: "jdict \<Rightarrow> string list" where
  "doc_ids doc = map node_id (doc_nodes doc)"

text \<open>An action node whose catalogue entry demands an approval.\<close>

definition gated :: "json \<Rightarrow> bool" where
  "gated n = (case n of JDict d \<Rightarrow> node_kind n = Some NAction \<and>
     (case action_spec (py_str (dget ''action'' d)) of None \<Rightarrow> False | Some s \<Rightarrow> spec_requires_approval s)
   | _ \<Rightarrow> False)"

section \<open>One node\<close>

definition node_ok :: "json list \<Rightarrow> json \<Rightarrow> json \<Rightarrow> bool" where
  "node_ok nodes edges n = (\<exists>d ty chk. n = JDict d \<and> node_id n \<noteq> [] \<and> dget ''id'' d = JStr (node_id n)
     \<and> node_kind n = Some ty \<and> check_typed ty (node_id n) d nodes edges = Inr chk \<and> nc_problems chk = []
     \<and> input_problems d = Inr [])"

lemma ns_problems_add [simp]:
  "ns_problems (add_problems i ps st) = ns_problems st @ map (At_node i) ps"
  "ns_ids (add_problems i ps st) = ns_ids st"
  by (simp_all add: add_problems_def)

lemma scan_node_ok:
  assumes "scan_node nodes edges st x = Inr st'" and "ns_problems st' = []"
  shows "ns_problems st = [] \<and> node_ok nodes edges (snd x)
    \<and> ns_ids st' = ns_ids st @ [node_id (snd x)] \<and> node_id (snd x) \<notin> set (ns_ids st)"
proof -
  from assms obtain d where d: "snd x = JDict d" by (cases "snd x") (auto simp: scan_node_def jdict_of_def)
  from assms d obtain c cs where i: "dget ''id'' d = JStr (c # cs)"
    by (auto simp: scan_node_def jdict_of_def Let_def split: json.splits list.splits)
  from assms d i obtain ty where ty: "NodeType_of (dget ''type'' d) = Some ty"
    by (auto simp: scan_node_def jdict_of_def Let_def split: option.splits)
  with assms d i obtain chk ips where chk: "check_typed ty (c # cs) d nodes edges = Inr chk"
      "input_problems d = Inr ips"
    by (auto simp: scan_node_def jdict_of_def Let_def rbind_eq_Inr)
  from assms d i ty chk
  have "ns_problems st = []" "nc_problems chk = []" "ips = []" "c # cs \<notin> set (ns_ids st)"
      "ns_ids st' = ns_ids st @ [c # cs]"
    by (auto simp: scan_node_def jdict_of_def Let_def split: if_splits)
  with d i ty chk show ?thesis by (auto simp: node_ok_def node_id_def node_kind_def)
qed

lemma scan_nodes_ok:
  "rfold (scan_node nodes edges) st xs = Inr st' \<Longrightarrow> ns_problems st' = []
   \<Longrightarrow> ns_problems st = [] \<and> list_all (node_ok nodes edges) (map snd xs)
     \<and> ns_ids st' = ns_ids st @ map node_id (map snd xs) \<and> (distinct (ns_ids st) \<longrightarrow> distinct (ns_ids st'))"
proof (induction xs arbitrary: st)
  case Nil
  then show ?case by simp
next
  case (Cons x xs)
  then obtain s where s: "scan_node nodes edges st x = Inr s" "rfold (scan_node nodes edges) s xs = Inr st'"
    by (auto split: sum.splits)
  note rest = Cons.IH [OF s(2) Cons.prems(2)]
  then have "ns_problems s = []" by blast
  note one = scan_node_ok [OF s(1) this]
  have "distinct (ns_ids st')" if "distinct (ns_ids st)"
  proof -
    from that one have "distinct (ns_ids s)" by simp
    with rest show ?thesis by blast
  qed
  with one rest show ?case by simp
qed

section \<open>Approvals upstream\<close>

lemma NodeType_of_approval: "NodeType_of (JStr ''approval'') = Some NApproval"
  by code_simp

definition from_approvals :: "json list \<Rightarrow> json list \<Rightarrow> bool" where
  "from_approvals nodes acc = (\<forall>i. JStr i \<in> set acc \<longrightarrow>
     (\<exists>a\<in>set nodes. node_kind a = Some NApproval \<and> node_id a = i))"

lemma approval_ids_step:
  assumes "x \<in> set nodes" "from_approvals nodes s"
    and step: "rbind (jget ''type'' x) (\<lambda>ty. if ty = JStr ''approval'' then
         rbind (jget ''id'' x) (\<lambda>i. if hashable i then Inr (s @ [i]) else Inl TypeError) else Inr s) = Inr s'"
  shows "from_approvals nodes s'"
proof -
  from step obtain d where d: "x = JDict d" by (auto simp: rbind_eq_Inr jget_Inr)
  show ?thesis
  proof (cases "dget ''type'' d = JStr ''approval''")
    case False
    with step d assms(2) show ?thesis by simp
  next
    case True
    with step d have s': "s' = s @ [dget ''id'' d]" by (auto split: if_splits)
    have "node_kind x = Some NApproval" using d True NodeType_of_approval by (simp add: node_kind_def)
    moreover have "node_id x = i" if "dget ''id'' d = JStr i" for i using that d by (simp add: node_id_def)
    ultimately show ?thesis using assms(1,2) s' unfolding from_approvals_def by fastforce
  qed
qed

lemma approval_ids_nodes:
  assumes "approval_ids nodes = Inr js" and "JStr i \<in> set js"
  shows "\<exists>a\<in>set nodes. node_kind a = Some NApproval \<and> node_id a = i"
proof -
  have "from_approvals nodes js"
    by (rule rfold_invariant [OF assms(1) [unfolded approval_ids_def]])
      (simp add: from_approvals_def, rule approval_ids_step)
  with assms(2) show ?thesis by (simp add: from_approvals_def)
qed

lemma edge_pairs_Inr: "edge_pairs es = Inr ps \<Longrightarrow> ps = map edge_of es"
  by (auto simp: edge_pairs_def rmap_Inr_iff rbind_eq_Inr jget_Inr edge_of_def
      list_all2_conv_all_nth intro!: nth_equalityI)

lemma upstream_approval_sound:
  assumes "upstream_approval i nodes edges = Inr True" and "iterate edges = Inr es"
  shows "\<exists>a\<in>set nodes. node_kind a = Some NApproval \<and> (node_id a, i) \<in> (edge_of ` set es)\<^sup>+"
proof -
  from assms obtain js ps where js: "approval_ids nodes = Inr js" and ps: "edge_pairs es = Inr ps"
      and up: "has_upstream_approval i (str_ids js) ps"
    by (auto simp: upstream_approval_def rbind_eq_Inr split: if_splits)
  then obtain a where a: "a \<in> set (str_ids js)" "(a, i) \<in> (set ps)\<^sup>+"
    by (auto simp: has_upstream_approval_correct)
  from a(1) have "JStr a \<in> set js" by (auto simp: str_ids_def map_filter_def split: json.splits)
  from approval_ids_nodes [OF js this] a(2) edge_pairs_Inr [OF ps] show ?thesis by auto
qed

lemma check_action_gated:
  assumes "check_typed NAction i d nodes edges = Inr chk" "nc_problems chk = []"
    and "action_spec (py_str (dget ''action'' d)) = Some s" "spec_requires_approval s"
  shows "upstream_approval i nodes edges = Inr True"
  using assms
  by (auto simp: check_typed_def check_action_def no_check_def Let_def rbind_eq_Inr split: if_splits)

section \<open>Edges\<close>

lemma scan_edge_ok:
  assumes "scan_edge ids x = Inr []"
  shows "edge_of (snd x) \<in> set ids \<times> set ids"
proof -
  from assms obtain d where d: "snd x = JDict d" by (cases "snd x") (auto simp: scan_edge_def jdict_of_def)
  from assms d have "in_strset (dget ''source'' d) ids = Inr True" "in_strset (dget ''target'' d) ids = Inr True"
    by (auto simp: scan_edge_def jdict_of_def Let_def rbind_eq_Inr split: if_splits)
  with d show ?thesis by (auto simp: in_strset_Inr_True edge_of_def)
qed

lemma set_map_snd_enumerate [simp]: "snd ` set (enumerate n xs) = set xs"
  by (metis map_snd_enumerate set_map)

lemma scan_edges_ok:
  assumes "rmap (scan_edge ids) (enumerate 0 es) = Inr eps" and "\<forall>xs\<in>set eps. xs = []"
  shows "edge_of ` set es \<subseteq> set ids \<times> set ids"
proof -
  have "edge_of (snd x) \<in> set ids \<times> set ids" if "x \<in> set (enumerate 0 es)" for x
  proof -
    from rmap_each [OF assms(1) that] assms(2) have "scan_edge ids x = Inr []" by auto
    then show ?thesis by (rule scan_edge_ok)
  qed
  then have "edge_of ` (snd ` set (enumerate 0 es)) \<subseteq> set ids \<times> set ids" by blast
  then show ?thesis unfolding set_map_snd_enumerate .
qed

section \<open>Whole documents\<close>

lemma lift_crash_Inr [simp]: "lift_crash r = Inr x \<longleftrightarrow> r = Inr x"
  by (cases r) (simp_all add: lift_crash_def)

text \<open>The facts an accepted document gives its readers.\<close>

definition accepted :: "jdict \<Rightarrow> bool" where
  "accepted doc = (doc_nodes doc \<noteq> [] \<and> length (doc_nodes doc) \<le> MAX_NODES
     \<and> iterate (por (dget ''edges'' doc) (JList [])) = Inr (doc_edges doc)
     \<and> list_all (node_ok (doc_nodes doc) (por (dget ''edges'' doc) (JList []))) (doc_nodes doc)
     \<and> distinct (doc_ids doc) \<and> doc_graph doc \<subseteq> set (doc_ids doc) \<times> set (doc_ids doc)
     \<and> acyclic (doc_graph doc))"

lemma cycle_problems_acyclic:
  assumes "cycle_problems ids edges ps = Inr []" "set ps \<subseteq> set ids \<times> set ids" "iterate edges = Inr es"
    and "ps = map edge_of es"
  shows "acyclic (set ps)"
proof (cases "ids \<noteq> [] \<and> truthy edges")
  case True
  have "set ps \<inter> set ids \<times> set ids = set ps" using assms(2) by blast
  with assms(1) True show ?thesis
    by (auto simp: cycle_problems_def has_cycle_correct split: if_splits)
next
  case False
  then have "ps = []" using assms(2-4)
    by (auto simp: truthy_def iterate_def split: json.splits if_splits)
  then show ?thesis by (simp add: acyclic_def)
qed

lemma validate_accepted:
  assumes "validate_workflow sha doc = Inr r" and "rep_valid r"
  shows "accepted doc"
proof -
  let ?edges = "por (dget ''edges'' doc) (JList [])"
  from assms(1) obtain hps scan es eps ps cps pps where
      "head_problems doc = Inr hps" "validate_policy (por (dget ''global_policy'' doc) (JDict [])) = Inr pps"
      and scan: "rfold (scan_node (doc_nodes doc) ?edges) empty_scan (enumerate 0 (doc_nodes doc)) = Inr scan"
      and es: "iterate ?edges = Inr es"
      and eps: "rmap (scan_edge (ns_ids scan)) (enumerate 0 es) = Inr eps"
      and ps: "edge_pairs es = Inr ps" and cps: "cycle_problems (ns_ids scan) ?edges ps = Inr cps"
      and valid: "rep_valid r \<longleftrightarrow> (hps @ (if doc_nodes doc = [] then [No_nodes] else [])
        @ (if length (doc_nodes doc) > MAX_NODES then [Too_many_nodes] else [])
        @ ns_problems scan @ concat eps @ cps @ pps) = []"
    unfolding validate_workflow_def Let_def rbind_eq_Inr lift_crash_Inr
    by (elim exE conjE) (rule that, assumption+, drule Inr_inject, drule sym, simp)
  from valid assms(2) have size: "doc_nodes doc \<noteq> []" "length (doc_nodes doc) \<le> MAX_NODES"
      and clean: "ns_problems scan = []" and no_eps: "\<forall>xs\<in>set eps. xs = []" and no_cps: "cps = []"
    by (auto split: if_splits)
  note nodes = scan_nodes_ok [OF scan clean, unfolded map_snd_enumerate]
  have ids: "ns_ids scan = doc_ids doc" and dist: "distinct (ns_ids scan)"
    using nodes by (auto simp: empty_scan_def doc_ids_def)
  have edges: "doc_edges doc = es" using es by (simp add: doc_edges_def)
  have graph: "doc_graph doc = set ps" using edge_pairs_Inr [OF ps] by (simp add: doc_graph_def edges)
  have sub: "doc_graph doc \<subseteq> set (doc_ids doc) \<times> set (doc_ids doc)"
    using scan_edges_ok [OF eps no_eps] by (simp add: ids edges doc_graph_def)
  have "acyclic (doc_graph doc)"
    using cycle_problems_acyclic [OF cps [unfolded no_cps] _ es edge_pairs_Inr [OF ps]] sub by (simp add: graph ids)
  moreover have "distinct (doc_ids doc)" using dist ids by simp
  ultimately show ?thesis using nodes size es sub unfolding accepted_def edges by blast
qed

lemma accepted_gated:
  assumes "accepted doc" "n \<in> set (doc_nodes doc)" "gated n"
  shows "\<exists>a\<in>set (doc_nodes doc). node_kind a = Some NApproval \<and> (node_id a, node_id n) \<in> (doc_graph doc)\<^sup>+"
proof -
  let ?edges = "por (dget ''edges'' doc) (JList [])"
  from assms have ok: "node_ok (doc_nodes doc) ?edges n" and es: "iterate ?edges = Inr (doc_edges doc)"
    by (auto simp: accepted_def list_all_iff)
  from ok assms(3) obtain d s chk where
      "check_typed NAction (node_id n) d (doc_nodes doc) ?edges = Inr chk" "nc_problems chk = []"
      "action_spec (py_str (dget ''action'' d)) = Some s" "spec_requires_approval s"
    by (auto simp: node_ok_def gated_def split: option.splits)
  then have "upstream_approval (node_id n) (doc_nodes doc) ?edges = Inr True" by (rule check_action_gated)
  from upstream_approval_sound [OF this es] show ?thesis by (simp add: doc_graph_def)
qed

section \<open>Compiled plans\<close>

lemma iterate_edges_default:
  "iterate (dget_or ''edges'' (JList []) doc) = Inr es
   \<Longrightarrow> iterate (por (dget ''edges'' doc) (JList [])) = Inr es"
  by (auto simp: dget_or_def dget_def por_def truthy_def iterate_def split: option.splits json.splits if_splits)

definition adjacent :: "(string, plan_edge list) adict \<Rightarrow> string \<Rightarrow> plan_edge list" where
  "adjacent adjacency k = (case map_of adjacency k of None \<Rightarrow> [] | Some es \<Rightarrow> es)"

lemma jindex_dget: "jindex k j = Inr v \<Longrightarrow> \<exists>d. j = JDict d \<and> dget k d = v"
  by (auto simp: jindex_def dget_def split: json.splits option.splits)

lemma add_edge_adjacent:
  assumes "add_edge adj e = Inr adj'"
  shows "map pe_target (adjacent adj' k)
    = map pe_target (adjacent adj k) @ (if fst (edge_of e) = k then [snd (edge_of e)] else [])"
proof -
  from assms obtain s tgt d p where parts: "jindex ''source'' e = Inr s" "jindex ''target'' e = Inr tgt" "e = JDict d"
      and adj': "adj' = aput (py_str s) (adjacent adj (py_str s) @ [\<lparr>pe_target = py_str tgt,
        pe_condition = dget ''condition'' d, pe_label = dget ''label'' d, pe_priority = p\<rparr>]) adj"
    by (auto simp: add_edge_def rbind_eq_Inr adjacent_def jdict_of_def Let_def split: json.splits)
  have "edge_of e = (py_str s, py_str tgt)"
    using jindex_dget [OF parts(1)] jindex_dget [OF parts(2)] parts(3) by (auto simp: edge_of_def)
  then show ?thesis unfolding adj' by (simp add: adjacent_def)
qed

lemma add_edges_adjacent:
  "rfold add_edge adj es = Inr adj'
   \<Longrightarrow> map pe_target (adjacent adj' k) = map pe_target (adjacent adj k) @ succs (map edge_of es) k"
proof (induction es arbitrary: adj)
  case Nil
  then show ?case by (simp add: succs_def)
next
  case (Cons e es)
  then obtain a where "add_edge adj e = Inr a" "rfold add_edge a es = Inr adj'" by (auto split: sum.splits)
  with Cons.IH [of a] add_edge_adjacent [of adj e a k] show ?case by (simp add: succs_def)
qed

lemma adjacent_sorted:
  "adjacent (map (\<lambda>(k, es). (k, sort_key f es)) adj) k = sort_key f (adjacent adj k)"
  by (induction adj) (auto simp: adjacent_def)

lemma sorted_rev_sort_key: "sorted (rev (map f (sort_key (\<lambda>x. - f x) xs)))" for f :: "'a \<Rightarrow> int"
proof -
  have "sorted (map (\<lambda>x. - f x) (sort_key (\<lambda>x. - f x) xs))" by (rule sorted_sort_key)
  then show ?thesis by (simp add: sorted_map sorted_wrt_rev sorted_wrt_map rev_map [symmetric])
qed

lemma keys_foldl_aput: "fst ` set (foldl (\<lambda>d (k, v). aput k v d) acc xs) = fst ` set acc \<union> fst ` set xs"
  by (induction xs arbitrary: acc) (simp_all add: keys_aput case_prod_beta)

text \<open>In a finite acyclic graph every node is reached from one without predecessors.\<close>

lemma acyclic_from_source:
  assumes "finite E" "acyclic E"
  shows "\<exists>s. (s, x) \<in> E\<^sup>* \<and> s \<notin> snd ` E"
proof (induction x rule: wf_induct_rule [OF finite_acyclic_wf [OF assms]])
  case (1 x)
  show ?case
  proof (cases "x \<in> snd ` E")
    case True
    then obtain y where y: "(y, x) \<in> E" by auto
    from "1.IH" [OF y] obtain s where "(s, y) \<in> E\<^sup>*" "s \<notin> snd ` E" by blast
    with y show ?thesis by (meson rtrancl.rtrancl_into_rtrancl)
  next
    case False
    then show ?thesis by blast
  qed
qed

lemma compile_parts:
  assumes "compile_workflow sha doc = Inr p"
  obtains adj where "accepted doc" "rfold add_edge [] (doc_edges doc) = Inr adj"
    "plan_adjacency p = map (\<lambda>(k, es). (k, sort_key (\<lambda>e. - pe_priority e) es)) adj"
    "plan_entry_nodes p = filter (\<lambda>i. i \<notin> snd ` doc_graph doc) (doc_ids doc)"
    "fst ` set (plan_nodes p) = set (doc_ids doc)"
proof -
  from assms obtain r edges adj targets entries where
      r: "validate_workflow sha doc = Inr r" "rep_valid r"
      and edges: "iterate (dget_or ''edges'' (JList []) doc) = Inr edges"
      and adj: "rfold add_edge [] edges = Inr adj"
      and targets: "rmap (\<lambda>e. rbind (jindex ''target'' e) (\<lambda>t. Inr (py_str t))) edges = Inr targets"
      and entries: "rmap (\<lambda>n. rbind (jindex ''id'' n) (\<lambda>i. rbind (jdict_of n) (\<lambda>d. Inr (py_str i, d))))
             (doc_nodes doc) = Inr entries"
      and p: "plan_adjacency p = map (\<lambda>(k, es). (k, sort_key (\<lambda>e. - pe_priority e) es)) adj"
        "plan_entry_nodes p = filter (\<lambda>i. i \<notin> set targets) (map fst entries)"
        "plan_nodes p = node_table entries"
    by (auto simp: compile_workflow_def rbind_eq_Inr split: if_splits)
  have acc: "accepted doc" using r by (rule validate_accepted)
  have es: "doc_edges doc = edges" using iterate_edges_default [OF edges] by (simp add: doc_edges_def)
  have t: "targets = map (snd \<circ> edge_of) edges"
    using targets by (auto simp: rmap_Inr_iff rbind_eq_Inr edge_of_def list_all2_conv_all_nth
        dest!: jindex_dget intro!: nth_equalityI)
  have ids: "map fst entries = doc_ids doc"
  proof -
    have "list_all2 (\<lambda>n e. fst e = node_id n) (doc_nodes doc) entries"
      using entries [unfolded rmap_Inr_iff]
    proof (rule list.rel_mono_strong)
      fix n e
      assume "n \<in> set (doc_nodes doc)"
        and e: "rbind (jindex ''id'' n) (\<lambda>i. rbind (jdict_of n) (\<lambda>d. Inr (py_str i, d))) = Inr e"
      then have "node_ok (doc_nodes doc) (por (dget ''edges'' doc) (JList [])) n"
        using acc by (simp add: accepted_def list_all_iff)
      then obtain d where "n = JDict d" "dget ''id'' d = JStr (node_id n)" by (auto simp: node_ok_def)
      with e show "fst e = node_id n" by (auto simp: rbind_eq_Inr dest!: jindex_dget)
    qed
    then show ?thesis by (auto simp: doc_ids_def list_all2_conv_all_nth intro!: nth_equalityI)
  qed
  have "fst ` set (plan_nodes p) = set (doc_ids doc)"
    using p(3) ids keys_foldl_aput [of "[]" entries] by (metis node_table_def list.set_map list.set(1) image_empty sup_bot_left)
  with acc adj p ids t show thesis by (intro that [of adj]) (auto simp: es doc_graph_def image_image)
qed

section \<open>Properties\<close>

text \<open>C2. A document that validation accepts has between 1 and 200 nodes with distinct non-empty
  identifiers, its edges connect declared nodes and form no cycle, and every action that the
  catalogue marks as needing an approval has an approval node upstream of it.\<close>

theorem validate_workflow_sound:
  assumes "validate_workflow sha256_hex doc = Inr report" and "rep_valid report"
  shows "doc_ids doc \<noteq> [] \<and> length (doc_ids doc) \<le> 200 \<and> distinct (doc_ids doc) \<and> [] \<notin> set (doc_ids doc)
    \<and> doc_graph doc \<subseteq> set (doc_ids doc) \<times> set (doc_ids doc) \<and> acyclic (doc_graph doc)
    \<and> (\<forall>n\<in>set (doc_nodes doc). gated n \<longrightarrow>
        (\<exists>a\<in>set (doc_nodes doc). node_kind a = Some NApproval \<and> (node_id a, node_id n) \<in> (doc_graph doc)\<^sup>+))"
proof -
  have acc: "accepted doc" using assms by (rule validate_accepted)
  then have "[] \<notin> set (doc_ids doc)" by (auto simp: accepted_def doc_ids_def list_all_iff node_ok_def)
  with acc accepted_gated [OF acc] show ?thesis
    by (auto simp: accepted_def doc_ids_def MAX_NODES_def)
qed

definition sample_doc :: jdict where
  "sample_doc = [(''name'', JStr ''Refund''), (''trigger'', JDict [(''type'', JStr ''manual'')]),
     (''nodes'', JList [
        JDict [(''id'', JStr ''ask''), (''type'', JStr ''approval''), (''assignees'', JList [JStr ''owner''])],
        JDict [(''id'', JStr ''pay''), (''type'', JStr ''action''), (''action'', JStr ''payment.refund'')]]),
     (''edges'', JList [JDict [(''source'', JStr ''ask''), (''target'', JStr ''pay'')]])]"

lemma sample_doc_valid: "validate_workflow (\<lambda>_. ''h'') sample_doc = Inr
    \<lparr>rep_valid = True, rep_problems = [], rep_warnings = [], rep_node_count = 2,
     rep_external_effect_nodes = [''pay''], rep_approval_required_nodes = [''ask''], rep_content_hash = ''h''\<rparr>"
  by code_simp

theorem validate_workflow_sound_witness:
  "doc_ids sample_doc = [''ask'', ''pay''] \<and> acyclic (doc_graph sample_doc)"
proof -
  have "doc_ids sample_doc = [''ask'', ''pay'']" by code_simp
  with validate_workflow_sound [OF sample_doc_valid] show ?thesis by simp
qed

text \<open>C7. A compiled plan can start and can reach everything: every node of the document is reachable
  from an entry node of the plan, the plan has exactly the declared nodes, and the outgoing edges
  it lists for a node lead to exactly the graph successors of that node, by falling priority.\<close>

theorem compile_workflow_correct:
  assumes "compile_workflow sha256_hex doc = Inr plan"
  shows "plan_entry_nodes plan \<noteq> []
    \<and> fst ` set (plan_nodes plan) = set (doc_ids doc)
    \<and> (\<forall>i\<in>set (doc_ids doc). \<exists>e\<in>set (plan_entry_nodes plan). (e, i) \<in> (doc_graph doc)\<^sup>*)
    \<and> (\<forall>i. set (map pe_target (adjacent (plan_adjacency plan) i)) = doc_graph doc `` {i}
         \<and> sorted (rev (map pe_priority (adjacent (plan_adjacency plan) i))))"
proof -
  from assms obtain adj where acc: "accepted doc" and adj: "rfold add_edge [] (doc_edges doc) = Inr adj"
      and p: "plan_adjacency plan = map (\<lambda>(k, es). (k, sort_key (\<lambda>e. - pe_priority e) es)) adj"
        "plan_entry_nodes plan = filter (\<lambda>i. i \<notin> snd ` doc_graph doc) (doc_ids doc)"
        "fst ` set (plan_nodes plan) = set (doc_ids doc)"
    by (rule compile_parts)
  have reach: "\<exists>e\<in>set (plan_entry_nodes plan). (e, i) \<in> (doc_graph doc)\<^sup>*" if "i \<in> set (doc_ids doc)" for i
  proof -
    have "finite (doc_graph doc)" by (simp add: doc_graph_def)
    with acc obtain s where s: "(s, i) \<in> (doc_graph doc)\<^sup>*" "s \<notin> snd ` doc_graph doc"
      using acyclic_from_source by (metis accepted_def)
    moreover have "s \<in> set (doc_ids doc)"
      using s(1) acc that by (auto simp: accepted_def elim: converse_rtranclE)
    ultimately show ?thesis using p(2) by auto
  qed
  have "set (map pe_target (adjacent (plan_adjacency plan) i)) = doc_graph doc `` {i}" for i
  proof -
    have "set (map pe_target (adjacent (plan_adjacency plan) i)) = set (map pe_target (adjacent adj i))"
      by (simp add: p(1) adjacent_sorted)
    also have "\<dots> = set (succs (map edge_of (doc_edges doc)) i)"
      unfolding add_edges_adjacent [OF adj] by (simp add: adjacent_def)
    also have "\<dots> = doc_graph doc `` {i}" by (auto simp: doc_graph_def)
    finally show ?thesis .
  qed
  moreover have "sorted (rev (map pe_priority (adjacent (plan_adjacency plan) i)))" for i
    by (simp add: p(1) adjacent_sorted sorted_rev_sort_key)
  moreover have "doc_ids doc \<noteq> []" using acc by (simp add: accepted_def doc_ids_def)
  then have "plan_entry_nodes plan \<noteq> []" using reach by (metis ex_in_conv empty_iff list.set(1) set_empty)
  ultimately show ?thesis using reach p(3) by blast
qed

theorem compile_workflow_correct_witness:
  "\<exists>plan. compile_workflow (\<lambda>_. ''h'') sample_doc = Inr plan \<and> plan_entry_nodes plan \<noteq> []
     \<and> fst ` set (plan_nodes plan) = {''ask'', ''pay''}"
proof -
  have "is_ok (compile_workflow (\<lambda>_. ''h'') sample_doc)" by code_simp
  then obtain plan where c: "compile_workflow (\<lambda>_. ''h'') sample_doc = Inr plan" by (auto simp: is_ok_iff)
  have "doc_ids sample_doc = [''ask'', ''pay'']" by code_simp
  with c compile_workflow_correct [OF c] show ?thesis by auto
qed

text \<open>C30. The coloured depth-first search of \<^verbatim>\<open>_has_cycle\<close> always returns, whatever the order in which the
  set of node identifiers is iterated, and it answers true exactly when the edges between declared
  nodes contain a cycle.\<close>

theorem has_cycle_iff:
  "has_cycle node_ids edges = Some (\<not> acyclic {e \<in> set edges. fst e \<in> set node_ids \<and> snd e \<in> set node_ids})"
proof -
  have "set edges \<inter> set node_ids \<times> set node_ids = {e \<in> set edges. fst e \<in> set node_ids \<and> snd e \<in> set node_ids}"
    by auto
  then show ?thesis by (simp add: has_cycle_correct)
qed

text \<open>The backward search of \<^verbatim>\<open>_has_upstream_approval\<close> answers true exactly when some approval node
  reaches the node along at least one edge.\<close>

theorem has_upstream_approval_iff:
  "has_upstream_approval node_id approvals edges \<longleftrightarrow> (\<exists>a\<in>set approvals. (a, node_id) \<in> (set edges)\<^sup>+)"
  by (rule has_upstream_approval_correct)

text \<open>The unreachable-node warning is exact: it lists the nodes that the least root identifier does
  not reach through edges leaving declared nodes, and nothing when there is no root.\<close>

theorem unreachable_nodes_exact:
  "unreachable_nodes ids edges =
     (let roots = set ids - snd ` set edges
      in if roots = {} then {} else {n \<in> set ids. (Min roots, n) \<notin> {e \<in> set edges. fst e \<in> set ids}\<^sup>*})"
  unfolding Let_def by (rule unreachable_nodes_correct) simp

text \<open>An expression without reported problems is at most 2000 characters long, contains none of the
  forbidden tokens in any letter case (the token \<^verbatim>\<open>XMLHttpRequest\<close> excepted, which is compared in mixed
  case against lowered text and so never found), and every dotted or called segment of it starts
  from an allowed root or function.\<close>

theorem validate_expression_sound:
  assumes "validate_expression expr = []"
  shows "length expr \<le> 2000
    \<and> (\<forall>token\<in>set FORBIDDEN_EXPRESSION_TOKENS. \<not> sublist token (py_lower expr))
    \<and> (\<forall>segment\<in>set (py_split ''{{'' (py_replace ''}}'' ''{{'' expr)).
         CHR ''.'' \<in> set (py_strip segment) \<or> CHR ''('' \<in> set (py_strip segment) \<longrightarrow>
         py_strip (before (CHR ''('') (before (CHR ''.'') (py_strip segment)))
           \<in> {[]} \<union> set ALLOWED_EXPRESSION_ROOTS \<union> set ALLOWED_FUNCTIONS)"
proof -
  from assms have "List.find (\<lambda>token. py_contains token (py_lower expr)) FORBIDDEN_EXPRESSION_TOKENS = None"
      and "\<not> length expr > 2000"
      and seg: "\<forall>segment\<in>set (py_split ''{{'' (py_replace ''}}'' ''{{'' expr)). segment_problems segment = []"
    by (auto simp: validate_expression_def split: option.splits if_splits)
  moreover from seg have "\<forall>segment\<in>set (py_split ''{{'' (py_replace ''}}'' ''{{'' expr)).
         CHR ''.'' \<in> set (py_strip segment) \<or> CHR ''('' \<in> set (py_strip segment) \<longrightarrow>
         py_strip (before (CHR ''('') (before (CHR ''.'') (py_strip segment)))
           \<in> {[]} \<union> set ALLOWED_EXPRESSION_ROOTS \<union> set ALLOWED_FUNCTIONS"
    by (fastforce simp: segment_problems_def Let_def split: if_splits)
  ultimately show ?thesis by (simp add: find_None_iff py_contains_iff)
qed

theorem validate_expression_sound_witness:
  "length ''{{ entity.score }}'' \<le> 2000 \<and> \<not> sublist ''eval'' (py_lower ''{{ entity.score }}'')"
proof -
  have "validate_expression ''{{ entity.score }}'' = []" by code_simp
  from validate_expression_sound [OF this] show ?thesis by (simp add: FORBIDDEN_EXPRESSION_TOKENS_def)
qed

text \<open>The forbidden token \<^verbatim>\<open>XMLHttpRequest\<close> is dead: the search text is lowered first, so no expression
  is ever rejected for it.\<close>

lemma xmlhttprequest_never_reported: "Forbidden_token ''XMLHttpRequest'' \<notin> set (validate_expression expr)"
proof -
  have "\<not> py_contains ''XMLHttpRequest'' (py_lower expr)"
  proof
    assume "py_contains ''XMLHttpRequest'' (py_lower expr)"
    then have "CHR ''X'' \<in> set (py_lower expr)" by (auto simp: py_contains_iff dest: set_mono_sublist)
    then obtain c where "lower_char c = CHR ''X''" by (auto simp: py_lower_def)
    moreover have "is_AZ (CHR ''X'')" by code_simp
    ultimately show False using lower_char_not_AZ [of c] by simp
  qed
  moreover have "Forbidden_token t \<notin> set (segment_problems s)" for t s
    by (auto simp: segment_problems_def Let_def)
  ultimately show ?thesis
    by (auto simp: validate_expression_def dest: find_Some_split split: option.splits if_splits)
qed

end
