(* ===== verification/Workflow_Engine_Safety.thy ===== *)
theory Workflow_Engine_Safety
  imports Workflow_Engine Workflow_Dsl_Proofs
begin

text \<open>
  What an execution can and cannot do: which calls reach the action runner, how often, and which
  nodes an execution can get to before an approval is given.
\<close>

section \<open>Invariants of the loop\<close>

definition outcome_state :: "step_outcome \<Rightarrow> engine_state" where
  "outcome_state o' = (case o' of Continue s \<Rightarrow> s | Stop _ s \<Rightarrow> s | Raise _ s \<Rightarrow> s)"

lemma outcome_state_simps [simp]:
  "outcome_state (Continue s) = s" "outcome_state (Stop r s) = s" "outcome_state (Raise e s) = s"
  by (simp_all add: outcome_state_def)

lemma exec_loop_invariant:
  assumes "I st"
    and "\<And>s. I s \<Longrightarrow> es_queue s \<noteq> [] \<Longrightarrow> I (outcome_state (engine_step env p ctx deadline s))"
  shows "I (snd (exec_loop env p ctx deadline st))"
  using assms
proof (induction env p ctx deadline st rule: exec_loop.induct [case_names loop])
  case (loop env p ctx deadline st)
  show ?case
  proof (cases "es_queue st = []")
    case True
    with loop.prems(1) show ?thesis by (simp add: exec_loop.simps)
  next
    case False
    with loop.prems have I: "I (outcome_state (engine_step env p ctx deadline st))" by blast
    show ?thesis
    proof (cases "engine_step env p ctx deadline st")
      case (Continue s)
      with I False show ?thesis
        using loop.IH [OF False Continue] loop.prems(2) by (simp add: exec_loop.simps [of env p ctx deadline st])
    qed (use I False in \<open>simp_all add: exec_loop.simps [of env p ctx deadline st]\<close>)
  qed
qed

lemma exec_loop_result:
  assumes "fst (exec_loop env p ctx deadline st) = Inr r"
    and "\<And>s r s'. engine_step env p ctx deadline s = Stop r s' \<Longrightarrow> Q r s'"
    and "\<And>s. Q (finish ctx E_COMPLETED [] s) s"
  shows "Q r (snd (exec_loop env p ctx deadline st))"
  using assms
proof (induction env p ctx deadline st rule: exec_loop.induct [case_names loop])
  case (loop env p ctx deadline st)
  show ?case
  proof (cases "es_queue st = []")
    case True
    with loop.prems show ?thesis by (auto simp: exec_loop.simps)
  next
    case False
    show ?thesis
    proof (cases "engine_step env p ctx deadline st")
      case (Continue s)
      with False show ?thesis
        using loop.IH [OF False Continue] loop.prems by (simp add: exec_loop.simps [of env p ctx deadline st])
    qed (use loop.prems False in \<open>auto simp: exec_loop.simps [of env p ctx deadline st]\<close>)
  qed
qed

section \<open>Where a turn takes the queue and the calls\<close>

lemma next_nodes_targets:
  assumes "next_nodes p n scope branch = Inr ns"
  shows "set ns \<subseteq> set (map pe_target (plan_edges p n))"
proof -
  have "set ns \<subseteq> pe_target ` set (plan_edges p n)"
    by (rule rfold_invariant [where P = "\<lambda>out. set out \<subseteq> pe_target ` set (plan_edges p n)",
          OF assms [unfolded next_nodes_def]])
      (auto simp: follow_edge_def rbind_eq_Inr split: if_splits)
  then show ?thesis by simp
qed

definition suspends :: "jdict \<Rightarrow> bool" where
  "suspends node = (dget ''type'' node = JStr ''approval'' \<or> dget ''type'' node = JStr ''delay'')"

text \<open>A turn at node \<open>n\<close> adds only successors of \<open>n\<close> to the queue, the given calls and effects.\<close>

definition turn :: "plan \<Rightarrow> string \<Rightarrow> engine_state \<Rightarrow> action_call list \<Rightarrow> string list \<Rightarrow> engine_state \<Rightarrow> bool" where
  "turn p n st calls external s =
     (set (es_queue s) \<subseteq> set (es_queue st) \<union> set (map pe_target (plan_edges p n))
      \<and> es_calls s = calls \<and> es_external s = external)"

lemma turn_push_next:
  "turn p n st (es_calls st) (es_external st) (outcome_state (push_next p ctx n b st))"
proof (cases "next_nodes p n (scope_of ctx) b")
  case (Inl e)
  then show ?thesis by (simp add: push_next_def turn_def)
next
  case (Inr ns)
  with next_nodes_targets [OF this] show ?thesis by (auto simp: push_next_def turn_def)
qed

lemma suspend_state [simp]: "outcome_state (suspend p ctx n r st) = st"
  by (simp add: suspend_def split: sum.splits)

lemma add_result_simps [simp]:
  "es_queue (add_result r st) = es_queue st" "es_calls (add_result r st) = es_calls st"
  "es_external (add_result r st) = es_external st"
  by (simp_all add: add_result_def)

lemma turn_cong:
  "turn p n st' calls external s \<Longrightarrow> es_queue st' = es_queue st \<Longrightarrow> turn p n st calls external s"
  by (simp add: turn_def)

lemma turn_run_loop_node:
  "turn p n st (es_calls st) (es_external st) (outcome_state (run_loop_node p ctx n node st))"
proof (cases "py_int (dget_or ''max_iterations'' (JInt 1000) node)")
  case (Inl e)
  then show ?thesis by (simp add: run_loop_node_def turn_def)
next
  case (Inr k)
  let ?st = "st\<lparr>es_loops := (es_loops st)(n := es_loops st n + 1), es_visited := es_visited st - {n}\<rparr>"
  have "turn p n st (es_calls st) (es_external st) (outcome_state (push_next p ctx n None ?st))"
    using turn_push_next [of p n ?st ctx None] by (simp add: turn_def)
  with Inr show ?thesis by (simp add: run_loop_node_def Let_def turn_def)
qed

definition effect :: "string \<Rightarrow> jdict \<Rightarrow> (engine_error, NodeResult) res \<Rightarrow> string list" where
  "effect n node r = (case r of Inl _ \<Rightarrow> [] | Inr result \<Rightarrow>
     if (case action_spec (py_str (dget ''action'' node)) of None \<Rightarrow> False | Some s \<Rightarrow> spec_external_effect s)
        \<and> nr_state result = N_COMPLETED then [n] else [])"

lemma turn_run_action_node:
  assumes "run_with_retry env p ctx node (es_calls st) = (r, calls)"
  shows "turn p n st calls (es_external st @ effect n node r) (outcome_state (run_action_node env p ctx n node st))"
proof (cases r)
  case (Inl e)
  with assms show ?thesis by (simp add: run_action_node_def turn_def effect_def)
next
  case (Inr result)
  let ?st = "(add_result result st)\<lparr>es_calls := calls, es_external := es_external st @ effect n node r,
    es_persisted := es_persisted st @ [result]\<rparr>"
  have "turn p n st calls (es_external st @ effect n node r) (outcome_state (push_next p ctx n None ?st))"
    using turn_push_next [of p n ?st ctx None] by (simp add: turn_def)
  moreover have "turn p n st calls (es_external st @ effect n node r) ?st" by (simp add: turn_def)
  moreover have "outcome_state (run_action_node env p ctx n node st) \<in> {outcome_state (push_next p ctx n None ?st), ?st}"
    using assms Inr by (simp add: run_action_node_def Let_def effect_def)
  ultimately show ?thesis by auto
qed

lemma turn_refl: "turn p n st (es_calls st) (es_external st) st"
  by (simp add: turn_def)

lemma turn_run_node:
  obtains (act) r calls where "dget ''type'' node = JStr ''action''"
      "run_with_retry env p ctx node (es_calls st) = (r, calls)"
      "turn p n st calls (es_external st @ effect n node r) (outcome_state (run_node env p ctx n node st))"
  | (wait) "suspends node" "es_queue (outcome_state (run_node env p ctx n node st)) = es_queue st"
      "turn p n st (es_calls st) (es_external st) (outcome_state (run_node env p ctx n node st))"
  | (other) "\<not> suspends node" "dget ''type'' node \<noteq> JStr ''action''"
      "turn p n st (es_calls st) (es_external st) (outcome_state (run_node env p ctx n node st))"
proof -
  have push: "turn p n st (es_calls st) (es_external st) (outcome_state (push_next p ctx n b (add_result r st)))" for b r
    using turn_push_next [of p n "add_result r st" ctx b] by (simp add: turn_def)
  consider "dget ''type'' node = JStr ''action''" | "suspends node"
    | "\<not> suspends node" "dget ''type'' node \<noteq> JStr ''action''" by blast
  then show thesis
  proof cases
    case 1
    obtain r calls where r: "run_with_retry env p ctx node (es_calls st) = (r, calls)" by fastforce
    have "run_node env p ctx n node st = run_action_node env p ctx n node st" using 1 by (simp add: run_node_def)
    with turn_run_action_node [OF r] 1 r show thesis by (intro act) simp_all
  next
    case 2
    then show thesis by (intro wait) (auto simp: run_node_def suspends_def turn_def Let_def split: sum.splits)
  next
    case 3
    then show thesis
      by (intro other)
        (simp_all add: run_node_def suspends_def Let_def push turn_run_loop_node turn_push_next turn_refl split: sum.splits)
  qed
qed

section \<open>Attempts\<close>

definition attempt_call :: "ExecutionContext \<Rightarrow> string \<Rightarrow> string \<Rightarrow> json \<Rightarrow> int \<Rightarrow> action_call" where
  "attempt_call ctx action nid inputs i = \<lparr>call_node = nid, call_action = action, call_inputs = inputs,
     call_key = action_idempotency_key (ctx_execution_id ctx) nid i\<rparr>"

text \<open>Attempts \<open>a\<close> to \<open>b\<close> were made after the calls \<open>h\<close>, and every one but the last failed in a way that may be retried.\<close>

definition attempted :: "engine_env \<Rightarrow> ExecutionContext \<Rightarrow> string \<Rightarrow> string \<Rightarrow> json \<Rightarrow> action_call list \<Rightarrow> int \<Rightarrow> int
    \<Rightarrow> action_call list \<Rightarrow> bool" where
  "attempted env ctx action nid inputs h a b calls =
     (calls = h @ map (attempt_call ctx action nid inputs) [a..b]
      \<and> (\<forall>i\<in>{a..<b}. \<exists>exc m1 m2. effective_class action exc \<noteq> TERMINAL
          \<and> env_run env (h @ map (attempt_call ctx action nid inputs) [a..i - 1])
              (attempt_call ctx action nid inputs i) = Failed exc m1 m2))"

lemma attempted_Cons:
  assumes "attempted env ctx action nid inputs (h @ [attempt_call ctx action nid inputs a]) (a + 1) b calls"
    and "a \<le> b" and "env_run env h (attempt_call ctx action nid inputs a) = Failed exc m1 m2"
    and "effective_class action exc \<noteq> TERMINAL"
  shows "attempted env ctx action nid inputs h a b calls"
proof -
  let ?c = "attempt_call ctx action nid inputs"
  have ab: "map ?c [a..b] = ?c a # map ?c [a + 1..b]" using assms(2) by (simp add: upto_rec1)
  have "\<exists>exc m1 m2. effective_class action exc \<noteq> TERMINAL \<and> env_run env (h @ map ?c [a..i - 1]) (?c i) = Failed exc m1 m2"
    if i: "i \<in> {a..<b}" for i
  proof (cases "i = a")
    case True
    with assms(3,4) show ?thesis by auto
  next
    case False
    with i have "i \<in> {a + 1..<b}" "map ?c [a..i - 1] = ?c a # map ?c [a + 1..i - 1]"
      by (auto simp: upto_rec1)
    with assms(1) show ?thesis by (fastforce simp: attempted_def)
  qed
  with assms(1) ab show ?thesis by (simp add: attempted_def)
qed

lemma attempts_from_calls:
  "ctx_dry_run ctx = False \<Longrightarrow> a \<le> mx \<Longrightarrow>
   \<exists>b. a \<le> b \<and> b \<le> mx \<and>
     attempted env ctx action nid inputs h a b (snd (attempts_from env ctx action nid inputs mx a h))"
proof (induction env ctx action nid inputs mx a h rule: attempts_from.induct [case_names step])
  case (step env ctx action nid inputs mx a h)
  let ?call = "attempt_call ctx action nid inputs a"
  have one: "attempted env ctx action nid inputs h a a (h @ [?call])" by (simp add: attempted_def)
  note unfold = attempts_from.simps [of env ctx action nid inputs mx a h]
  show ?case
  proof (cases "env_run env h ?call")
    case (Failed exc m1 m2)
    show ?thesis
    proof (cases "should_retry (effective_class action exc) a mx")
      case True
      then have "a + 1 \<le> mx" "effective_class action exc \<noteq> TERMINAL" by (auto simp: should_retry_def split: if_splits)
      then obtain b where "a + 1 \<le> b" "b \<le> mx" "attempted env ctx action nid inputs (h @ [?call]) (a + 1) b
          (snd (attempts_from env ctx action nid inputs mx (a + 1) (h @ [?call])))"
        using step.IH [OF _ refl _ refl refl Failed [unfolded attempt_call_def]] True step.prems
        by (fastforce simp: attempt_call_def)
      moreover have "snd (attempts_from env ctx action nid inputs mx a h)
          = snd (attempts_from env ctx action nid inputs mx (a + 1) (h @ [?call]))"
        using step.prems True Failed unfolding unfold by (simp add: Let_def attempt_call_def)
      ultimately show ?thesis
        using attempted_Cons [OF _ _ Failed] \<open>effective_class action exc \<noteq> TERMINAL\<close> by (intro exI [of _ b]) auto
    next
      case False
      then have "snd (attempts_from env ctx action nid inputs mx a h) = h @ [?call]"
        using step.prems Failed unfolding unfold by (simp add: Let_def attempt_call_def)
      with one step.prems show ?thesis by auto
    qed
  qed (use one step.prems in \<open>auto simp: unfold Let_def attempt_call_def intro!: exI [of _ a]\<close>)
qed

lemma attempts_from_dry:
  assumes "ctx_dry_run ctx"
  shows "snd (attempts_from env ctx action nid inputs mx a h) = h"
    and "fst (attempts_from env ctx action nid inputs mx a h) = Inr r \<Longrightarrow> nr_state r \<noteq> N_COMPLETED"
proof -
  have eq: "attempts_from env ctx action nid inputs mx a h =
      (if a > mx then (Inr (failed_result nid mx [] [(''message'', JStr ''exhausted'')]), h)
       else (Inr (dry_result action nid a (action_idempotency_key (ctx_execution_id ctx) nid a)), h))"
    using assms by (simp add: attempts_from.simps [of env ctx action nid inputs mx a h] Let_def)
  then show "snd (attempts_from env ctx action nid inputs mx a h) = h" by simp
  show "fst (attempts_from env ctx action nid inputs mx a h) = Inr r \<Longrightarrow> nr_state r \<noteq> N_COMPLETED"
    using eq by (auto simp: dry_result_def failed_result_def split: if_splits)
qed

lemma run_with_retry_dry:
  assumes "ctx_dry_run ctx"
  shows "snd (run_with_retry env p ctx node h) = h" and "effect n node (fst (run_with_retry env p ctx node h)) = []"
  using assms attempts_from_dry [OF assms]
  by (auto simp: run_with_retry_def effect_def split: sum.splits)

lemma run_with_retry_calls:
  "\<forall>c\<in>set (snd (run_with_retry env p ctx node h)) - set h. call_node c = py_str (dget ''id'' node)"
proof (cases "ctx_dry_run ctx")
  case True
  then show ?thesis by (simp add: run_with_retry_dry)
next
  case False
  show ?thesis
  proof (cases "rbind (policy_index ''retry_attempts'' p) (\<lambda>dflt. py_int (dget_or ''retry_attempts'' dflt node))")
    case (Inl e)
    then show ?thesis by (simp add: run_with_retry_def)
  next
    case (Inr n)
    show ?thesis
    proof (cases "1 \<le> n + 1")
      case True
      let ?act = "py_str (dget ''action'' node)" and ?id = "py_str (dget ''id'' node)"
        and ?inp = "dget_or ''inputs'' (JDict []) node"
      from attempts_from_calls [OF _ True, of ctx env ?act ?id ?inp h] False obtain b where
        "attempted env ctx ?act ?id ?inp h 1 b (snd (attempts_from env ctx ?act ?id ?inp (n + 1) 1 h))" by blast
      with Inr show ?thesis by (auto simp: run_with_retry_def attempted_def attempt_call_def)
    next
      case False
      with Inr show ?thesis by (simp add: run_with_retry_def attempts_from.simps)
    qed
  qed
qed

section \<open>Which nodes an execution reaches\<close>

text \<open>The edges an execution can cross without being resumed: those leaving nodes that do not suspend it.\<close>

definition open_edges :: "plan \<Rightarrow> (string \<times> string) set" where
  "open_edges p = {(a, b). \<exists>node. map_of (plan_nodes p) a = Some node \<and> \<not> suspends node
     \<and> b \<in> set (map pe_target (plan_edges p a))}"

definition plan_keyed :: "plan \<Rightarrow> bool" where
  "plan_keyed p = (\<forall>k node. map_of (plan_nodes p) k = Some node \<longrightarrow> py_str (dget ''id'' node) = k)"

definition confined :: "plan \<Rightarrow> string list \<Rightarrow> engine_state \<Rightarrow> bool" where
  "confined p start st = (set (es_queue st) \<union> call_node ` set (es_calls st) \<subseteq> (open_edges p)\<^sup>* `` set start)"

lemma turn_subset:
  "turn p n st calls external s \<Longrightarrow> set (es_queue st) \<subseteq> S \<Longrightarrow> pe_target ` set (plan_edges p n) \<subseteq> S
   \<Longrightarrow> call_node ` set calls \<subseteq> S \<Longrightarrow> set (es_queue s) \<union> call_node ` set (es_calls s) \<subseteq> S"
  unfolding turn_def set_map by (metis le_sup_iff subset_trans)

lemma confined_run_node:
  assumes inv: "confined p start st" and n: "n \<in> (open_edges p)\<^sup>* `` set start"
    and node: "map_of (plan_nodes p) n = Some node" and keyed: "plan_keyed p"
  shows "confined p start (outcome_state (run_node env p ctx n node st))"
proof -
  let ?s = "outcome_state (run_node env p ctx n node st)"
  have open_step: "pe_target ` set (plan_edges p n) \<subseteq> (open_edges p)\<^sup>* `` set start" if "\<not> suspends node"
  proof -
    have "(n, b) \<in> open_edges p" if "b \<in> pe_target ` set (plan_edges p n)" for b
      using that node \<open>\<not> suspends node\<close> by (auto simp: open_edges_def)
    with n show ?thesis by (meson Image_iff rtrancl.rtrancl_into_rtrancl subsetI)
  qed
  show ?thesis
  proof (cases rule: turn_run_node [of node env p ctx st n])
    case (act r calls)
    then have "\<not> suspends node" by (simp add: suspends_def)
    have "call_node ` set calls \<subseteq> (open_edges p)\<^sup>* `` set start"
    proof
      fix x assume "x \<in> call_node ` set calls"
      then obtain c where c: "c \<in> set calls" "x = call_node c" by blast
      show "x \<in> (open_edges p)\<^sup>* `` set start"
      proof (cases "c \<in> set (es_calls st)")
        case True
        with inv c show ?thesis by (auto simp: confined_def)
      next
        case False
        with c act(2) have "x = py_str (dget ''id'' node)"
          using run_with_retry_calls [of env p ctx node "es_calls st"] by simp
        with keyed node n show ?thesis by (auto simp: plan_keyed_def)
      qed
    qed
    then show ?thesis
      unfolding confined_def
      by (intro turn_subset [OF act(3) _ open_step [OF \<open>\<not> suspends node\<close>]])
        (use inv in \<open>simp_all add: confined_def\<close>)
  next
    case wait
    with inv show ?thesis by (simp add: confined_def turn_def)
  next
    case other
    then show ?thesis
      unfolding confined_def
      by (intro turn_subset [OF other(3) _ open_step [OF other(1)]]) (use inv in \<open>simp_all add: confined_def\<close>)
  qed
qed

lemma confined_step:
  assumes "confined p start st" "plan_keyed p" "es_queue st \<noteq> []"
  shows "confined p start (outcome_state (engine_step env p ctx deadline st))"
proof (cases rule: engine_step_cases [of env p ctx deadline st])
  case (halt r)
  with assms(1) show ?thesis by simp
next
  case skip
  with assms(1,3) show ?thesis by (auto simp: confined_def dest: list.set_sel(2))
next
  case unknown
  with assms(1,3) show ?thesis by (auto simp: confined_def dest: list.set_sel(2))
next
  case (run node)
  have "confined p start (mark_visited (hd (es_queue st)) (pop_queue st))"
    using assms(1,3) by (auto simp: confined_def dest: list.set_sel(2))
  moreover have "hd (es_queue st) \<in> (open_edges p)\<^sup>* `` set start"
    using assms(1,3) by (meson UnI1 hd_in_set subsetD confined_def)
  ultimately show ?thesis using confined_run_node [OF _ _ run(1) assms(2)] run(3) by simp
qed

lemma execute_invariant:
  assumes "I (start_state (case resume of None \<Rightarrow> plan_entry_nodes p | Some ns \<Rightarrow> ns))"
    and "\<And>s deadline. I s \<Longrightarrow> es_queue s \<noteq> [] \<Longrightarrow> I (outcome_state (engine_step env p ctx deadline s))"
  shows "I (snd (execute env p ctx resume))"
  using assms by (auto simp: execute_def Let_def intro!: exec_loop_invariant [where I = I] split: sum.splits)

section \<open>Compiled plans are keyed by node identifier\<close>

lemma foldl_aput_entries:
  "map_of (foldl (\<lambda>d (k, v). aput k v d) acc xs) k = Some v \<Longrightarrow> map_of acc k = Some v \<or> (k, v) \<in> set xs"
  by (induction xs arbitrary: acc) (fastforce split: if_splits)+

lemma compile_plan_keyed:
  assumes "compile_workflow sha doc = Inr p"
  shows "plan_keyed p"
proof -
  from assms obtain entries where
      entries: "rmap (\<lambda>n. rbind (jindex ''id'' n) (\<lambda>i. rbind (jdict_of n) (\<lambda>d. Inr (py_str i, d)))) (doc_nodes doc) = Inr entries"
      and p: "plan_nodes p = node_table entries"
    by (auto simp: compile_workflow_def rbind_eq_Inr split: if_splits)
  have "py_str (dget ''id'' d) = k" if "(k, d) \<in> set entries" for k d
  proof -
    from rmap_source [OF entries that]
    obtain n where "rbind (jindex ''id'' n) (\<lambda>i. rbind (jdict_of n) (\<lambda>d. Inr (py_str i, d))) = Inr (k, d)" by blast
    then show ?thesis by (auto simp: rbind_eq_Inr jdict_of_def dest!: jindex_dget)
  qed
  then show ?thesis
    unfolding plan_keyed_def p node_table_def
    using foldl_aput_entries [of "[]" entries] by (metis map_of.simps(1) option.distinct(1))
qed

lemma execute_confined:
  assumes "compile_workflow sha doc = Inr p" and "c \<in> set (es_calls (snd (execute env p ctx resume)))"
  shows "call_node c \<in> (open_edges p)\<^sup>* `` set (case resume of None \<Rightarrow> plan_entry_nodes p | Some ns \<Rightarrow> ns)"
proof -
  let ?start = "case resume of None \<Rightarrow> plan_entry_nodes p | Some ns \<Rightarrow> ns"
  have "confined p ?start (snd (execute env p ctx resume))"
  proof (rule execute_invariant)
    show "confined p ?start (start_state ?start)" by (auto simp: confined_def start_state_def)
  qed (rule confined_step [OF _ compile_plan_keyed [OF assms(1)]])
  with assms(2) show ?thesis unfolding confined_def by blast
qed

section \<open>Properties\<close>

text \<open>C3. A dry run performs no external effect at all: whatever the plan, the starting point and the
  behaviour of the collaborators, the action runner is never called and no external effect is reported.\<close>

theorem dry_run_performs_nothing:
  assumes "ctx_dry_run ctx"
  shows "es_calls (snd (execute env p ctx resume)) = [] \<and> es_external (snd (execute env p ctx resume)) = []"
proof (rule execute_invariant [where I = "\<lambda>s. es_calls s = [] \<and> es_external s = []"])
  show "es_calls (start_state q) = [] \<and> es_external (start_state q) = []" for q by (simp add: start_state_def)
  fix s :: engine_state and deadline
  assume inv: "es_calls s = [] \<and> es_external s = []"
  show "es_calls (outcome_state (engine_step env p ctx deadline s)) = []
      \<and> es_external (outcome_state (engine_step env p ctx deadline s)) = []"
  proof (cases rule: engine_step_cases [of env p ctx deadline s])
    case (run node)
    let ?s = "mark_visited (hd (es_queue s)) (pop_queue s)"
    show ?thesis
    proof (cases rule: turn_run_node [of node env p ctx ?s "hd (es_queue s)"])
      case (act r calls)
      with run_with_retry_dry(1) [OF assms, of env p node "es_calls ?s"] inv
      have "calls = []" and "effect (hd (es_queue s)) node r = []"
        using run_with_retry_dry(2) [OF assms, of "hd (es_queue s)" node env p "es_calls ?s"] by auto
      with act(3) inv run(3) show ?thesis by (simp add: turn_def)
    qed (use inv run(3) in \<open>simp_all add: turn_def\<close>)
  qed (use inv in simp_all)
qed

definition sample_context :: "bool \<Rightarrow> ExecutionContext" where
  "sample_context dry = \<lparr>ctx_execution_id = ''e1'', ctx_tenant_id = ''t'', ctx_workflow_id = ''w'', ctx_version_id = ''v'',
     ctx_content_hash = ''h'', ctx_trigger_payload = [], ctx_entity = [], ctx_variables = [], ctx_dry_run = dry,
     ctx_correlation_id = None, ctx_started_at = 0\<rparr>"

definition calm_env :: engine_env where
  "calm_env = \<lparr>env_run = (\<lambda>_ _. Done []), env_killed = (\<lambda>_. False), env_now = (\<lambda>_. 0), env_delay_now = (\<lambda>_. 0)\<rparr>"

definition compiled :: "jdict \<Rightarrow> plan" where
  "compiled doc = (case compile_workflow (\<lambda>_. ''h'') doc of Inr p \<Rightarrow> p | Inl _ \<Rightarrow> undefined)"

theorem dry_run_performs_nothing_witness:
  "ctx_dry_run (sample_context True)
   \<and> es_calls (snd (execute calm_env (compiled sample_doc) (sample_context True) (Some [''pay'']))) = []"
proof -
  have "ctx_dry_run (sample_context True)" by (simp add: sample_context_def)
  with dry_run_performs_nothing show ?thesis by blast
qed

text \<open>An approval gate holds at run time: an execution of a compiled plan calls the action of a node only if
  the node is reachable from where the execution started along edges that leave no approval and no delay node.\<close>

theorem approval_gate_holds:
  assumes "compile_workflow sha256_hex doc = Inr p"
    and "c \<in> set (es_calls (snd (execute env p ctx resume)))"
  shows "\<exists>start\<in>set (case resume of None \<Rightarrow> plan_entry_nodes p | Some ns \<Rightarrow> ns). (start, call_node c) \<in> (open_edges p)\<^sup>*"
  using execute_confined [OF assms] by blast

theorem approval_gate_holds_witness:
  "compile_workflow (\<lambda>_. ''h'') sample_doc = Inr (compiled sample_doc)
   \<and> call_node (hd (es_calls (snd (execute calm_env (compiled sample_doc) (sample_context False) (Some [''pay'']))))) = ''pay''
   \<and> (\<exists>start\<in>{''pay''}. (start, ''pay'') \<in> (open_edges (compiled sample_doc))\<^sup>*)"
proof -
  let ?calls = "es_calls (snd (execute calm_env (compiled sample_doc) (sample_context False) (Some [''pay''])))"
  have "is_ok (compile_workflow (\<lambda>_. ''h'') sample_doc)" by code_simp
  then have c: "compile_workflow (\<lambda>_. ''h'') sample_doc = Inr (compiled sample_doc)"
    by (auto simp: is_ok_iff compiled_def)
  have "map call_node ?calls = [''pay'']" by code_simp
  then obtain x where "?calls = [x]" "call_node x = ''pay''" by auto
  with c approval_gate_holds [OF c, of x calm_env "sample_context False" "Some [''pay'']"] show ?thesis by simp
qed

text \<open>Running an action node makes at most one call more than the configured number of retries, each under its
  own idempotency key \<^verbatim>\<open>execution:node:attempt\<close>, and retries only after failures whose class is not terminal.\<close>

theorem run_with_retry_bounded:
  assumes "policy_index ''retry_attempts'' p = Inr dflt" and "py_int (dget_or ''retry_attempts'' dflt node) = Inr n"
    and "0 \<le> n" and "\<not> ctx_dry_run ctx"
  shows "\<exists>b. 1 \<le> b \<and> b \<le> n + 1
    \<and> map call_key (drop (length h) (snd (run_with_retry env p ctx node h)))
        = map (action_idempotency_key (ctx_execution_id ctx) (py_str (dget ''id'' node))) [1..b]
    \<and> distinct (map call_key (drop (length h) (snd (run_with_retry env p ctx node h))))
    \<and> attempted env ctx (py_str (dget ''action'' node)) (py_str (dget ''id'' node))
        (dget_or ''inputs'' (JDict []) node) h 1 b (snd (run_with_retry env p ctx node h))"
proof -
  let ?act = "py_str (dget ''action'' node)" and ?id = "py_str (dget ''id'' node)"
    and ?inp = "dget_or ''inputs'' (JDict []) node"
  have eq: "run_with_retry env p ctx node h = attempts_from env ctx ?act ?id ?inp (n + 1) 1 h"
    using assms(1,2) by (simp add: run_with_retry_def)
  obtain b where b: "1 \<le> b" "b \<le> n + 1" "attempted env ctx ?act ?id ?inp h 1 b (snd (run_with_retry env p ctx node h))"
    using attempts_from_calls [of ctx 1 "n + 1" env ?act ?id ?inp h] assms(3,4) eq by auto
  have keys: "map call_key (drop (length h) (snd (run_with_retry env p ctx node h)))
      = map (action_idempotency_key (ctx_execution_id ctx) ?id) [1..b]"
    using b(3) by (simp add: attempted_def attempt_call_def)
  have "inj_on (action_idempotency_key (ctx_execution_id ctx) ?id) {1..b}"
    by (auto simp: inj_on_def action_idempotency_key_def show_int_def)
  then have "distinct (map (action_idempotency_key (ctx_execution_id ctx) ?id) [1..b])"
    by (simp add: distinct_map)
  with b keys show ?thesis by auto
qed

theorem run_with_retry_bounded_witness:
  "\<exists>b. 1 \<le> b \<and> b \<le> 4 \<and>
     map call_key (snd (run_with_retry calm_env (compiled sample_doc) (sample_context False)
        [(''id'', JStr ''pay''), (''action'', JStr ''payment.refund'')] []))
       = map (action_idempotency_key ''e1'' ''pay'') [1..b]"
proof -
  have "policy_index ''retry_attempts'' (compiled sample_doc) = Inr (JInt 3)" by code_simp
  from run_with_retry_bounded [OF this, of "[(''id'', JStr ''pay''), (''action'', JStr ''payment.refund'')]" 3
      "sample_context False" "[]" calm_env]
  show ?thesis by (auto simp: dget_or_def dget_def py_int_def sample_context_def)
qed

definition bypass_doc :: jdict where
  "bypass_doc = [(''name'', JStr ''Bypass''), (''trigger'', JDict [(''type'', JStr ''manual'')]),
     (''nodes'', JList [
        JDict [(''id'', JStr ''start''), (''type'', JStr ''parallel'')],
        JDict [(''id'', JStr ''ask''), (''type'', JStr ''approval''), (''assignees'', JList [JStr ''owner''])],
        JDict [(''id'', JStr ''cancel''), (''type'', JStr ''action''), (''action'', JStr ''appointment.cancel'')]]),
     (''edges'', JList [
        JDict [(''source'', JStr ''start''), (''target'', JStr ''cancel'')],
        JDict [(''source'', JStr ''start''), (''target'', JStr ''ask'')],
        JDict [(''source'', JStr ''ask''), (''target'', JStr ''cancel'')]])]"

text \<open>Validation asks for an approval on some path to an action that needs one, not on all: a document in which one path to
  such an action passes an approval and another does not is accepted, and the engine hands the action to its runner before
  any approval is requested. Cancelling an appointment is one of these actions, irreversible by the catalogue and carried out by the dispatcher.\<close>

lemma approval_bypass:
  "is_ok (compile_workflow (\<lambda>_. ''h'') bypass_doc)
   \<and> map call_action (es_calls (snd (execute calm_env (compiled bypass_doc) (sample_context False) None))) = [''appointment.cancel'']
   \<and> map nr_node_id (es_results (snd (execute calm_env (compiled bypass_doc) (sample_context False) None)))
       = [''start'', ''cancel'', ''ask'']"
  by code_simp

definition branch_doc :: jdict where
  "branch_doc = [(''name'', JStr ''Two branches''), (''trigger'', JDict [(''type'', JStr ''manual'')]),
     (''nodes'', JList [
        JDict [(''id'', JStr ''pause''), (''type'', JStr ''delay''), (''delay_seconds'', JInt 60)],
        JDict [(''id'', JStr ''later''), (''type'', JStr ''action''), (''action'', JStr ''note.create'')],
        JDict [(''id'', JStr ''other''), (''type'', JStr ''action''), (''action'', JStr ''task.create'')]]),
     (''edges'', JList [JDict [(''source'', JStr ''pause''), (''target'', JStr ''later'')]])]"

definition resume_of :: "(engine_error, ExecutionResult) res \<Rightarrow> string list" where
  "resume_of r = (case r of Inl _ \<Rightarrow> [] | Inr er \<Rightarrow> er_resume_nodes er)"

text \<open>Suspending at a node forgets the rest of the queue: in a valid document with two entry nodes, a delay and an
  independent action, the execution waits on the delay, the resumption runs only what follows the delay, and
  the independent action is never called.\<close>

theorem suspension_drops_branches:
  "plan_entry_nodes (compiled branch_doc) = [''pause'', ''other'']
   \<and> resume_of (fst (execute calm_env (compiled branch_doc) (sample_context False) None)) = [''later'']
   \<and> es_calls (snd (execute calm_env (compiled branch_doc) (sample_context False) None)) = []
   \<and> map call_node (es_calls (snd (execute calm_env (compiled branch_doc) (sample_context False) (Some [''later''])))) = [''later'']"
  by code_simp

end
