(* ===== verification/Workflow_Runtime.thy ===== *)
theory Workflow_Runtime
  imports Workflow_Approvals Workflow_Engine_Safety
begin

text \<open>
  \<^verbatim>\<open>infrastructure/celery/tasks/workflow.py\<close> and \<^verbatim>\<open>process_due_work\<close> of \<^verbatim>\<open>tasks/scheduled.py\<close>: the tasks that
  run a pinned workflow version, store its suspension, ask for approvals and resume it. A task runs two
  transactions with the engine between them, and tasks of several workers interleave; \<open>rt_step\<close> is that
  system, with every transaction of these tasks and of \<^verbatim>\<open>decide_approval\<close> as one step.

  Published versions are immutable, so \<^verbatim>\<open>versions\<close> is a parameter: the content stored for a tenant and a
  version identifier. New row identifiers (\<^verbatim>\<open>uuid7\<close>) are arguments.
\<close>

section \<open>The tasks\<close>

definition ExecutionState_value :: "ExecutionState \<Rightarrow> string" where
  "ExecutionState_value s = (case s of E_PENDING \<Rightarrow> ''pending'' | E_RUNNING \<Rightarrow> ''running'' | E_WAITING \<Rightarrow> ''waiting''
     | E_COMPLETED \<Rightarrow> ''completed'' | E_FAILED \<Rightarrow> ''failed'' | E_CANCELLED \<Rightarrow> ''cancelled'')"

definition NodeState_value :: "NodeState \<Rightarrow> string" where
  "NodeState_value s = (case s of N_PENDING \<Rightarrow> ''pending'' | N_RUNNING \<Rightarrow> ''running'' | N_RETRYING \<Rightarrow> ''retrying''
     | N_COMPLETED \<Rightarrow> ''completed'' | N_FAILED \<Rightarrow> ''failed'' | N_SKIPPED \<Rightarrow> ''skipped'')"

datatype begin_outcome = Begin_missing | Begin_done string | Begun execution_row jdict wf_db

definition begin_execution :: "(string \<Rightarrow> string \<Rightarrow> jdict option) \<Rightarrow> instant \<Rightarrow> string \<Rightarrow> string \<Rightarrow> wf_db \<Rightarrow> begin_outcome" where
  "begin_execution versions now tenant execution_id db =
     (case visible_execution tenant execution_id db of
        None \<Rightarrow> Begin_missing
      | Some e \<Rightarrow>
          if ex_state e \<in> {''completed'', ''failed'', ''cancelled''} then Begin_done (ex_state e)
          else case versions tenant (ex_version e) of
                 None \<Rightarrow> Begin_missing
               | Some doc \<Rightarrow> Begun e doc (put_execution (e\<lparr>ex_state := ''running'',
                   ex_started_at := (case ex_started_at e of None \<Rightarrow> Some now | Some t \<Rightarrow> Some t), ex_resume_at := None\<rparr>) db))"

definition engine_context :: "instant \<Rightarrow> execution_row \<Rightarrow> ExecutionContext" where
  "engine_context now e =
     \<lparr>ctx_execution_id = ex_id e, ctx_tenant_id = ex_tenant e, ctx_workflow_id = ex_workflow e, ctx_version_id = ex_version e,
      ctx_content_hash = ex_content_hash e, ctx_trigger_payload = ex_trigger_payload e, ctx_entity = ex_entity e,
      ctx_variables = [], ctx_dry_run = ex_dry_run e, ctx_correlation_id = ex_correlation e, ctx_started_at = now\<rparr>"

datatype task_error = Task_not_found | Task_compile dsl_error | Task_engine engine_error | Task_crash py_exc

definition run_engine :: "(string \<Rightarrow> string) \<Rightarrow> engine_env \<Rightarrow> instant \<Rightarrow> execution_row \<Rightarrow> jdict \<Rightarrow> string list option
    \<Rightarrow> (task_error, ExecutionResult) res \<times> action_call list" where
  "run_engine sha256_hex env now e doc resume_from =
     (case compile_workflow sha256_hex doc of
        Inl err \<Rightarrow> (Inl (Task_compile err), [])
      | Inr p \<Rightarrow> (case execute env p (engine_context now e) resume_from of
           (Inl err, st) \<Rightarrow> (Inl (Task_engine err), es_calls st)
         | (Inr r, st) \<Rightarrow> (Inr r, es_calls st)))"

text \<open>A node of a compiled document is an object; \<open>node_attr\<close> is its \<^verbatim>\<open>get\<close>.\<close>

definition node_attr :: "string \<Rightarrow> json \<Rightarrow> json" where
  "node_attr k n = (case n of JDict d \<Rightarrow> dget k d | _ \<Rightarrow> JNull)"

definition persist_node :: "instant \<Rightarrow> string \<Rightarrow> jdict \<Rightarrow> wf_db \<Rightarrow> NodeResult \<Rightarrow> wf_db" where
  "persist_node now execution_id doc db r =
     (let types = map_of (rev (map (\<lambda>n. (py_str (node_attr ''id'' n), py_str (node_attr ''type'' n))) (doc_nodes doc)));
          key = (execution_id, nr_node_id r, nr_attempt r);
          state = NodeState_value (nr_state r);
          row = \<lparr>nx_type = (case types (nr_node_id r) of None \<Rightarrow> ''unknown'' | Some t \<Rightarrow> t), nx_state = state,
                 nx_key = (if nr_idempotency_key r = [] then None else Some (nr_idempotency_key r)),
                 nx_output = nr_output r, nx_error = nr_error r,
                 nx_finished_at = (if state \<in> {''pending'', ''running''} then None else Some now)\<rparr>
      in db\<lparr>wf_nodes := aput key (case map_of (wf_nodes db) key of None \<Rightarrow> row
             | Some old \<Rightarrow> row\<lparr>nx_type := nx_type old\<rparr>) (wf_nodes db)\<rparr>)"

definition approval_key :: "approval_row \<Rightarrow> string \<times> string" where
  "approval_key a = (ap_execution a, ap_node a)"

definition approval_request :: "instant \<Rightarrow> string \<Rightarrow> string \<Rightarrow> string \<Rightarrow> string \<Rightarrow> jdict \<Rightarrow> (py_exc, approval_row) res" where
  "approval_request now fresh tenant execution_id waiting_on node =
     rbind (py_int (por (dget ''due_seconds'' node) (JInt 0))) (\<lambda>due_seconds.
     rbind (py_int (por (dget ''quorum'' node) (JInt 1))) (\<lambda>quorum.
     rbind (iterate (dget_or ''assignees'' (JList []) node)) (\<lambda>assignees.
       Inr \<lparr>ap_id = fresh, ap_tenant = tenant, ap_execution = execution_id, ap_node = waiting_on, ap_state = ''requested'',
            ap_strategy = py_str (por (dget ''strategy'' node) (JStr ''any'')), ap_quorum = quorum,
            ap_assignees = map (\<lambda>v. JStr (py_str v)) assignees, ap_decisions = [],
            ap_summary = take 1000 (py_str (por (dget ''summary'' node) (JStr ''Workflow approval required''))),
            ap_due_at = (if due_seconds > 0 then Some (now + seconds due_seconds) else None), ap_resolved_at = None, ap_timeout_path = dget ''timeout_path'' node\<rparr>)))"

definition add_approval :: "approval_row \<Rightarrow> wf_db \<Rightarrow> wf_db" where
  "add_approval a db =
     (if row_at approval_key (approval_key a) (wf_approvals db) \<noteq> None then db
      else let entry = \<lparr>lg_type = ''workflow.approval_requested'', lg_tenant = ap_tenant a, lg_resource = ap_id a, lg_actor = None,
                 lg_values = [(''execution_id'', JStr (ap_execution a)), (''node_id'', JStr (ap_node a))]\<rparr>
           in add_outbox (entry\<lparr>lg_type := ''approval.requested''\<rparr>)
                (add_audit entry (db\<lparr>wf_approvals := wf_approvals db @ [a]\<rparr>)))"

definition persist_approval :: "instant \<Rightarrow> string \<Rightarrow> string \<Rightarrow> string \<Rightarrow> jdict \<Rightarrow> string option \<Rightarrow> wf_db \<Rightarrow> (py_exc, wf_db) res" where
  "persist_approval now fresh tenant execution_id doc waiting_on db =
     (case waiting_on of
        None \<Rightarrow> Inr db
      | Some w \<Rightarrow>
          if w = [] then Inr db
          else case List.find (\<lambda>n. py_str (node_attr ''id'' n) = w) (doc_nodes doc) of
                 Some (JDict node) \<Rightarrow>
                   if dget ''type'' node = JStr ''approval''
                   then rbind (approval_request now fresh tenant execution_id w node) (\<lambda>a. Inr (add_approval a db))
                   else Inr db
               | _ \<Rightarrow> Inr db)"

definition finished_row :: "instant \<Rightarrow> ExecutionResult \<Rightarrow> execution_row \<Rightarrow> execution_row" where
  "finished_row now r e = e\<lparr>ex_state := ExecutionState_value (er_state r), ex_resume_at := er_resume_at r, ex_error := er_error r,
     ex_waiting_on := er_waiting_on r, ex_resume_nodes := er_resume_nodes r,
     ex_finished_at := (if er_state r \<in> {E_COMPLETED, E_FAILED} then Some now else ex_finished_at e)\<rparr>"

definition stored_result :: "instant \<Rightarrow> jdict \<Rightarrow> ExecutionResult \<Rightarrow> execution_row \<Rightarrow> wf_db \<Rightarrow> wf_db" where
  "stored_result now doc r e db =
     (let db1 = put_execution (finished_row now r e) db;
          db2 = add_audit \<lparr>lg_type = ''workflow.executed'', lg_tenant = ex_tenant e, lg_resource = ex_id e, lg_actor = None,
                  lg_values = [(''workflow_id'', JStr (ex_workflow e)), (''version_id'', JStr (ex_version e)),
                    (''state'', JStr (ExecutionState_value (er_state r))), (''is_dry_run'', JBool (ex_dry_run e))]\<rparr> db1
      in foldl (persist_node now (ex_id e) doc) db2 (er_nodes r))"

definition finish_execution :: "instant \<Rightarrow> string \<Rightarrow> string \<Rightarrow> string \<Rightarrow> jdict \<Rightarrow> ExecutionResult \<Rightarrow> wf_db \<Rightarrow> (task_error, wf_db) res" where
  "finish_execution now fresh tenant execution_id doc r db =
     (case visible_execution tenant execution_id db of
        None \<Rightarrow> Inl Task_not_found
      | Some e \<Rightarrow>
          (case persist_approval now fresh tenant execution_id doc (er_waiting_on r) (stored_result now doc r e db) of
             Inl err \<Rightarrow> Inl (Task_crash err) | Inr db' \<Rightarrow> Inr db'))"

datatype task_outcome = Ran ExecutionResult | Skipped string

definition execute_workflow_once :: "(string \<Rightarrow> string) \<Rightarrow> (string \<Rightarrow> string \<Rightarrow> jdict option) \<Rightarrow> engine_env \<Rightarrow> bool \<Rightarrow> instant
    \<Rightarrow> string \<Rightarrow> string \<Rightarrow> string \<Rightarrow> string list option \<Rightarrow> wf_db \<Rightarrow> (task_error, task_outcome) res \<times> wf_db \<times> action_call list" where
  "execute_workflow_once sha256_hex versions env killed now fresh tenant execution_id resume_from db =
     (if killed then (Inr (Skipped ''cancelled''), db, [])
      else case begin_execution versions now tenant execution_id db of
        Begin_missing \<Rightarrow> (Inl Task_not_found, db, [])
      | Begin_done s \<Rightarrow> (Inr (Skipped s), db, [])
      | Begun e doc db1 \<Rightarrow>
          (case run_engine sha256_hex env now e doc resume_from of
             (Inl err, calls) \<Rightarrow> (Inl err, db1, calls)
           | (Inr r, calls) \<Rightarrow>
               (case finish_execution now fresh tenant execution_id doc r db1 of
                  Inl err \<Rightarrow> (Inl err, db1, calls)
                | Inr db2 \<Rightarrow> (Inr (Ran r), db2, calls))))"

text \<open>The first transaction of \<^verbatim>\<open>_resume_execution_once\<close>: whether, and from which nodes, to continue.\<close>

definition resume_request :: "string \<Rightarrow> string \<Rightarrow> wf_db \<Rightarrow> string + string list" where
  "resume_request tenant execution_id db =
     (case visible_execution tenant execution_id db of
        None \<Rightarrow> Inl []
      | Some e \<Rightarrow>
          if ex_state e \<noteq> ''waiting'' then Inl []
          else
            let waiting_on = (case ex_waiting_on e of None \<Rightarrow> [] | Some w \<Rightarrow> w);
                approval = (if waiting_on = [] then None
                  else case row_at approval_key (ex_id e, waiting_on) (wf_approvals db) of
                         None \<Rightarrow> None | Some a \<Rightarrow> if ap_tenant a = tenant then Some a else None)
            in if (case approval of None \<Rightarrow> False | Some a \<Rightarrow> ap_state a \<noteq> ''approved'') then Inl ''approval is not approved''
               else if ex_resume_nodes e = [] then Inl ''no durable continuation''
               else Inr (ex_resume_nodes e))"

definition resume_execution_once :: "(string \<Rightarrow> string) \<Rightarrow> (string \<Rightarrow> string \<Rightarrow> jdict option) \<Rightarrow> engine_env \<Rightarrow> bool \<Rightarrow> instant
    \<Rightarrow> string \<Rightarrow> string \<Rightarrow> string \<Rightarrow> wf_db \<Rightarrow> (task_error, task_outcome) res \<times> wf_db \<times> action_call list" where
  "resume_execution_once sha256_hex versions env killed now fresh tenant execution_id db =
     (case resume_request tenant execution_id db of
        Inl reason \<Rightarrow> (Inr (Skipped reason), db, [])
      | Inr nodes \<Rightarrow> execute_workflow_once sha256_hex versions env killed now fresh tenant execution_id (Some nodes) db)"

definition due_executions :: "instant \<Rightarrow> wf_db \<Rightarrow> execution_row list" where
  "due_executions now db = take 100 (filter (\<lambda>e. ex_state e = ''waiting''
     \<and> (case ex_resume_at e of None \<Rightarrow> False | Some t \<Rightarrow> t \<le> now)) (wf_executions db))"

text \<open>The resumptions to enqueue and the database with their wake-up times cleared.\<close>

definition process_due_work :: "instant \<Rightarrow> wf_db \<Rightarrow> (string \<times> string) list \<times> wf_db" where
  "process_due_work now db =
     (map (\<lambda>e. (ex_tenant e, ex_id e)) (due_executions now db),
      foldl (\<lambda>d e. put_execution (e\<lparr>ex_resume_at := None\<rparr>) d) db (due_executions now db))"

end
