(* ===== verification/Workflow_Runtime_Safety.thy ===== *)
theory Workflow_Runtime_Safety
  imports Workflow_Runtime
begin

text \<open>
  The interleaved system of workflow tasks and approval decisions, and its safety theorem: nothing behind an
  approval node is called before that approval is approved.
\<close>

section \<open>What the engine reports when it suspends\<close>

lemma exec_loop_outcome:
  assumes "I st" and "\<And>s. I s \<Longrightarrow> es_queue s \<noteq> [] \<Longrightarrow> I (outcome_state (engine_step env p ctx deadline s))"
    and "fst (exec_loop env p ctx deadline st) = Inr r"
  shows "(\<exists>s s'. I s \<and> es_queue s \<noteq> [] \<and> engine_step env p ctx deadline s = Stop r s') \<or> (\<exists>s. r = finish ctx E_COMPLETED [] s)"
  using assms
proof (induction env p ctx deadline st rule: exec_loop.induct [case_names loop])
  case (loop env p ctx deadline st)
  show ?case
  proof (cases "es_queue st = []")
    case True
    then have "fst (exec_loop env p ctx deadline st) = Inr (finish ctx E_COMPLETED [] st)"
      by (simp add: exec_loop.simps)
    then show ?thesis using loop.prems(3) by auto
  next
    case False
    have I: "I (outcome_state (engine_step env p ctx deadline st))" by (rule loop.prems(2) [OF loop.prems(1) False])
    show ?thesis
    proof (cases "engine_step env p ctx deadline st")
      case (Continue s)
      have "exec_loop env p ctx deadline st = exec_loop env p ctx deadline s"
        using False Continue by (simp add: exec_loop.simps [of env p ctx deadline st])
      then show ?thesis
        using loop.IH [OF False Continue _ loop.prems(2)] I loop.prems(3) Continue by simp
    next
      case (Stop r' s)
      then have "r' = r" using loop.prems(3) False by (simp add: exec_loop.simps [of env p ctx deadline st])
      with Stop False loop.prems(1) show ?thesis by blast
    next
      case (Raise e s)
      then show ?thesis using loop.prems(3) False by (simp add: exec_loop.simps [of env p ctx deadline st])
    qed
  qed
qed

definition reports :: "plan \<Rightarrow> string set \<Rightarrow> ExecutionResult \<Rightarrow> bool" where
  "reports p S r \<longleftrightarrow> er_waiting_on r = None \<and> er_resume_nodes r = []
     \<or> (\<exists>w node. er_waiting_on r = Some w \<and> w \<in> S \<and> map_of (plan_nodes p) w = Some node
          \<and> set (er_resume_nodes r) \<subseteq> set (map pe_target (plan_edges p w)))"

lemma reports_cases [consumes 1, case_names none waits]:
  assumes "reports p S r"
  obtains "er_waiting_on r = None" "er_resume_nodes r = []"
  | w node where "er_waiting_on r = Some w" "w \<in> S" "map_of (plan_nodes p) w = Some node"
      "set (er_resume_nodes r) \<subseteq> set (map pe_target (plan_edges p w))"
  using assms unfolding reports_def by metis

lemma finish_reports: "reports p S (finish ctx s err st)"
  by (simp add: reports_def finish_def)

lemma push_next_not_Stop: "push_next p ctx n b st \<noteq> Stop r s"
  by (simp add: push_next_def split: sum.split)

lemma suspend_reports:
  assumes "suspend p ctx n rat st = Stop r s" and "n \<in> S" and "map_of (plan_nodes p) n = Some node"
  shows "reports p S r"
proof -
  from assms(1) obtain ns where ns: "next_nodes p n (scope_of ctx) None = Inr ns"
    and r: "er_waiting_on r = Some n" "er_resume_nodes r = ns"
    by (auto simp: suspend_def split: sum.splits)
  from next_nodes_targets [OF ns] r assms(2,3) show ?thesis unfolding reports_def by blast
qed

lemma run_node_reports:
  assumes "run_node env p ctx n node st = Stop r s" and "n \<in> S" and "map_of (plan_nodes p) n = Some node"
  shows "reports p S r"
proof -
  have loop: "reports p S r" if "run_loop_node p ctx n node st = Stop r s"
    using that finish_reports push_next_not_Stop
    by (auto simp: run_loop_node_def Let_def split: sum.splits if_splits)
  have act: "reports p S r" if "run_action_node env p ctx n node st = Stop r s"
    using that finish_reports push_next_not_Stop
    by (auto simp: run_action_node_def Let_def split: sum.splits if_splits prod.splits)
  show ?thesis
    using assms(1) loop act suspend_reports [OF _ assms(2,3)] push_next_not_Stop
    unfolding run_node_def Let_def by (auto split: if_splits sum.splits)
qed

lemma step_reports:
  assumes "engine_step env p ctx deadline s = Stop r s'" and "hd (es_queue s) \<in> S"
  shows "reports p S r"
proof (cases "env_killed env (es_step s) \<or> env_now env (es_step s) > deadline")
  case True
  then show ?thesis using assms(1) finish_reports unfolding engine_step_def by (auto split: if_splits)
next
  case False
  then obtain node where "map_of (plan_nodes p) (hd (es_queue s)) = Some node"
    "run_node env p ctx (hd (es_queue s)) node (mark_visited (hd (es_queue s)) (pop_queue s)) = Stop r s'"
    using assms(1) unfolding engine_step_def by (auto simp: Let_def split: if_splits option.splits)
  then show ?thesis using run_node_reports assms(2) by blast
qed

lemma execute_reports:
  assumes "plan_keyed p" and "fst (execute env p ctx resume) = Inr r"
  shows "reports p ((open_edges p)\<^sup>* `` set (case resume of None \<Rightarrow> plan_entry_nodes p | Some ns \<Rightarrow> ns)) r"
proof -
  let ?start = "case resume of None \<Rightarrow> plan_entry_nodes p | Some ns \<Rightarrow> ns"
  let ?S = "(open_edges p)\<^sup>* `` set ?start"
  from assms(2) obtain deadline where run: "fst (exec_loop env p ctx deadline (start_state ?start)) = Inr r"
    by (auto simp: execute_def Let_def split: if_splits sum.splits)
  have "confined p ?start (start_state ?start)" by (auto simp: confined_def start_state_def)
  from exec_loop_outcome [where I = "confined p ?start", OF this confined_step [OF _ assms(1)] run]
  consider s s' where "confined p ?start s" "es_queue s \<noteq> []" "engine_step env p ctx deadline s = Stop r s'"
    | s where "r = finish ctx E_COMPLETED [] s" by blast
  then show ?thesis
  proof cases
    case 1
    have hd: "hd (es_queue s) \<in> ?S" using 1(1,2) by (meson UnI1 hd_in_set subsetD confined_def)
    show ?thesis by (rule step_reports [OF 1(3) hd])
  next
    case 2
    then show ?thesis using finish_reports by simp
  qed
qed

section \<open>The plan and its document\<close>

lemma plan_node_in_doc:
  assumes "compile_workflow sha doc = Inr p" and "map_of (plan_nodes p) w = Some node"
  shows "w \<noteq> [] \<and> List.find (\<lambda>n. py_str (node_attr ''id'' n) = w) (doc_nodes doc) = Some (JDict node)"
proof -
  from assms(1) obtain entries r where
      entries: "rmap (\<lambda>n. rbind (jindex ''id'' n) (\<lambda>i. rbind (jdict_of n) (\<lambda>d. Inr (py_str i, d)))) (doc_nodes doc) = Inr entries"
      and p: "plan_nodes p = node_table entries" and r: "validate_workflow sha doc = Inr r" "rep_valid r"
    by (auto simp: compile_workflow_def rbind_eq_Inr split: if_splits)
  have acc: "accepted doc" using r by (rule validate_accepted)
  have ids: "py_str (node_attr ''id'' n) = node_id n \<and> node_id n \<noteq> []" if "n \<in> set (doc_nodes doc)" for n
    using acc that by (auto simp: accepted_def list_all_iff node_ok_def node_attr_def)
  have "(w, node) \<in> set entries"
    using assms(2) foldl_aput_entries [of "[]" entries w node] by (simp add: p node_table_def)
  from rmap_source [OF entries this] obtain n where n: "n \<in> set (doc_nodes doc)"
    "rbind (jindex ''id'' n) (\<lambda>i. rbind (jdict_of n) (\<lambda>d. Inr (py_str i, d))) = Inr (w, node)" by blast
  then have nd: "n = JDict node" "py_str (dget ''id'' node) = w"
    by (auto simp: rbind_eq_Inr jdict_of_def split: json.splits dest!: jindex_dget)
  then have w: "node_id n = w" "w \<noteq> []" using ids [OF n(1)] by (simp_all add: node_attr_def)
  have "List.find (\<lambda>n. py_str (node_attr ''id'' n) = w) (doc_nodes doc) = row_at node_id w (doc_nodes doc)"
    unfolding row_at_def by (rule find_cong) (simp_all add: ids)
  also have "\<dots> = Some n"
    using row_at_unique [of node_id "doc_nodes doc" n] acc n(1) w(1) by (simp add: accepted_def doc_ids_def)
  finally show ?thesis using nd w by simp
qed

section \<open>The interleaved system\<close>

text \<open>
  A task message stays deliverable, so a worker may take it again (at-least-once delivery). The calls of an
  engine run are recorded with the execution they belong to.
\<close>

record runtime =
  rt_db :: wf_db
  rt_jobs :: "(string \<times> string \<times> string list option) list"
  rt_results :: "(string \<times> string \<times> jdict \<times> ExecutionResult) list"
  rt_calls :: "(string \<times> action_call) list"

inductive rt_step :: "(string \<Rightarrow> string) \<Rightarrow> (string \<Rightarrow> string \<Rightarrow> jdict option) \<Rightarrow> runtime \<Rightarrow> runtime \<Rightarrow> bool" for sha versions where
  create: "ex_id e \<notin> ex_id ` set (wf_executions (rt_db s)) \<Longrightarrow> ex_waiting_on e = None \<Longrightarrow> ex_resume_nodes e = []
    \<Longrightarrow> rt_step sha versions s (s\<lparr>rt_db := (rt_db s)\<lparr>wf_executions := wf_executions (rt_db s) @ [e]\<rparr>\<rparr>)"
| enqueue: "rt_step sha versions s (s\<lparr>rt_jobs := (tenant, i, None) # rt_jobs s\<rparr>)"
| resume: "resume_request tenant i (rt_db s) = Inr nodes
    \<Longrightarrow> rt_step sha versions s (s\<lparr>rt_jobs := (tenant, i, Some nodes) # rt_jobs s\<rparr>)"
| start: "(tenant, i, from) \<in> set (rt_jobs s) \<Longrightarrow> begin_execution versions now tenant i (rt_db s) = Begun e doc db
    \<Longrightarrow> run_engine sha env now e doc from = (res, calls)
    \<Longrightarrow> rt_step sha versions s (s\<lparr>rt_db := db, rt_calls := rt_calls s @ map (Pair i) calls,
          rt_results := (case res of Inl _ \<Rightarrow> rt_results s | Inr r \<Rightarrow> (tenant, i, doc, r) # rt_results s)\<rparr>)"
| store: "(tenant, i, doc, r) \<in> set (rt_results s) \<Longrightarrow> fresh \<notin> ap_id ` set (wf_approvals (rt_db s))
    \<Longrightarrow> finish_execution now fresh tenant i doc r (rt_db s) = Inr db
    \<Longrightarrow> rt_step sha versions s (s\<lparr>rt_db := db, rt_results := remove1 (tenant, i, doc, r) (rt_results s)\<rparr>)"
| decide: "decide_approval now i decision comment who (rt_db s) = Inr (r, db)
    \<Longrightarrow> rt_step sha versions s (s\<lparr>rt_db := db\<rparr>)"
| sweep: "process_due_work now (rt_db s) = (due, db) \<Longrightarrow> rt_step sha versions s (s\<lparr>rt_db := db\<rparr>)"

definition idle :: "runtime \<Rightarrow> bool" where
  "idle s \<longleftrightarrow> wf_executions (rt_db s) = [] \<and> wf_approvals (rt_db s) = [] \<and> rt_jobs s = [] \<and> rt_results s = [] \<and> rt_calls s = []"

section \<open>What has been cleared\<close>

definition approved_nodes :: "wf_db \<Rightarrow> string \<Rightarrow> string set" where
  "approved_nodes db i = {ap_node a |a. a \<in> set (wf_approvals db) \<and> ap_execution a = i \<and> ap_state a = ''approved''}"

text \<open>The edges that may be crossed: an edge leaving an approval node only once that approval is approved.\<close>

definition cleared_edges :: "plan \<Rightarrow> string set \<Rightarrow> (string \<times> string) set" where
  "cleared_edges p A = {(a, b). \<exists>node. map_of (plan_nodes p) a = Some node \<and> b \<in> set (map pe_target (plan_edges p a))
     \<and> (dget ''type'' node = JStr ''approval'' \<longrightarrow> a \<in> A)}"

type_synonym identity = "string \<times> string \<times> string"

definition identity :: "execution_row \<Rightarrow> identity" where
  "identity e = (ex_id e, ex_tenant e, ex_version e)"

definition plan_for :: "(string \<Rightarrow> string) \<Rightarrow> (string \<Rightarrow> string \<Rightarrow> jdict option) \<Rightarrow> identity \<Rightarrow> plan \<Rightarrow> bool" where
  "plan_for sha versions idn p \<longleftrightarrow> (\<exists>doc. versions (fst (snd idn)) (snd (snd idn)) = Some doc \<and> compile_workflow sha doc = Inr p)"

definition cleared :: "(string \<Rightarrow> string) \<Rightarrow> (string \<Rightarrow> string \<Rightarrow> jdict option) \<Rightarrow> wf_db \<Rightarrow> identity \<Rightarrow> string \<Rightarrow> bool" where
  "cleared sha versions db idn n \<longleftrightarrow> (\<exists>p. plan_for sha versions idn p
     \<and> n \<in> (cleared_edges p (approved_nodes db (fst idn)))\<^sup>* `` set (plan_entry_nodes p))"

lemma open_edges_cleared: "open_edges p \<subseteq> cleared_edges p A"
  by (auto simp: open_edges_def cleared_edges_def suspends_def)

lemma cleared_edges_mono: "A \<subseteq> B \<Longrightarrow> cleared_edges p A \<subseteq> cleared_edges p B"
  by (auto simp: cleared_edges_def)

lemma plan_for_unique: "plan_for sha versions idn p \<Longrightarrow> plan_for sha versions idn q \<Longrightarrow> p = q"
  by (auto simp: plan_for_def)

lemma cleared_mono:
  assumes "approved_nodes db i \<subseteq> approved_nodes db' i" and "cleared sha versions db (i, t, v) n"
  shows "cleared sha versions db' (i, t, v) n"
proof -
  have "(cleared_edges p (approved_nodes db i))\<^sup>* \<subseteq> (cleared_edges p (approved_nodes db' i))\<^sup>*" for p
    by (rule rtrancl_mono) (rule cleared_edges_mono [OF assms(1)])
  with assms(2) show ?thesis unfolding cleared_def by (auto 4 3)
qed

lemma cleared_steps:
  assumes "plan_for sha versions idn p" and "(a, b) \<in> (cleared_edges p (approved_nodes db (fst idn)))\<^sup>*" and "cleared sha versions db idn a"
  shows "cleared sha versions db idn b"
proof -
  from assms(3) obtain q n where q: "plan_for sha versions idn q" "n \<in> set (plan_entry_nodes q)"
    "(n, a) \<in> (cleared_edges q (approved_nodes db (fst idn)))\<^sup>*" by (auto simp: cleared_def)
  have "q = p" using plan_for_unique q(1) assms(1) by blast
  with q assms(1,2) show ?thesis unfolding cleared_def by (meson ImageI rtrancl_trans)
qed

text \<open>A suspension that has been reached: what follows it is cleared once its approval, if any, is given.\<close>

definition suspended :: "(string \<Rightarrow> string) \<Rightarrow> (string \<Rightarrow> string \<Rightarrow> jdict option) \<Rightarrow> wf_db \<Rightarrow> identity \<Rightarrow> string \<Rightarrow> string list \<Rightarrow> bool" where
  "suspended sha versions db idn w ns \<longleftrightarrow> (\<exists>p node. plan_for sha versions idn p \<and> cleared sha versions db idn w
     \<and> map_of (plan_nodes p) w = Some node \<and> set ns \<subseteq> set (map pe_target (plan_edges p w)))"

lemma suspended_cleared:
  assumes "suspended sha versions db idn w ns" and "n \<in> set ns"
    and "\<And>p node. plan_for sha versions idn p \<Longrightarrow> map_of (plan_nodes p) w = Some node \<Longrightarrow> dget ''type'' node = JStr ''approval''
      \<Longrightarrow> w \<in> approved_nodes db (fst idn)"
  shows "cleared sha versions db idn n"
proof -
  from assms(1) obtain p node where p: "plan_for sha versions idn p" "cleared sha versions db idn w"
    "map_of (plan_nodes p) w = Some node" "set ns \<subseteq> set (map pe_target (plan_edges p w))" by (auto simp: suspended_def)
  then have "(w, n) \<in> cleared_edges p (approved_nodes db (fst idn))"
    using assms(2,3) unfolding cleared_edges_def by blast
  then show ?thesis using cleared_steps [OF p(1) _ p(2)] by blast
qed

section \<open>The invariant\<close>

definition identities :: "wf_db \<Rightarrow> identity set" where
  "identities db = identity ` set (wf_executions db)"

definition reached :: "(string \<Rightarrow> string) \<Rightarrow> (string \<Rightarrow> string \<Rightarrow> jdict option) \<Rightarrow> wf_db \<Rightarrow> identity \<Rightarrow> string option \<Rightarrow> string list \<Rightarrow> bool" where
  "reached sha versions db idn waiting ns =
     (case waiting of None \<Rightarrow> ns = [] | Some w \<Rightarrow> suspended sha versions db idn w ns)"

definition awaited :: "(string \<Rightarrow> string) \<Rightarrow> (string \<Rightarrow> string \<Rightarrow> jdict option) \<Rightarrow> wf_db \<Rightarrow> identity \<Rightarrow> string option \<Rightarrow> bool" where
  "awaited sha versions db idn waiting \<longleftrightarrow> (\<forall>w p node. waiting = Some w \<longrightarrow> plan_for sha versions idn p \<longrightarrow>
     map_of (plan_nodes p) w = Some node \<longrightarrow> dget ''type'' node = JStr ''approval'' \<longrightarrow>
     (fst idn, w) \<in> approval_key ` set (wf_approvals db))"

definition row_ok :: "(string \<Rightarrow> string) \<Rightarrow> (string \<Rightarrow> string \<Rightarrow> jdict option) \<Rightarrow> wf_db \<Rightarrow> execution_row \<Rightarrow> bool" where
  "row_ok sha versions db e \<longleftrightarrow> reached sha versions db (identity e) (ex_waiting_on e) (ex_resume_nodes e)
     \<and> awaited sha versions db (identity e) (ex_waiting_on e)"

definition store_ok :: "(string \<Rightarrow> string) \<Rightarrow> (string \<Rightarrow> string \<Rightarrow> jdict option) \<Rightarrow> wf_db \<Rightarrow> bool" where
  "store_ok sha versions db \<longleftrightarrow> distinct (map ex_id (wf_executions db)) \<and> distinct (map ap_id (wf_approvals db))
     \<and> (\<forall>a\<in>set (wf_approvals db). \<exists>v. (ap_execution a, ap_tenant a, v) \<in> identities db)
     \<and> (\<forall>e\<in>set (wf_executions db). row_ok sha versions db e)"

definition job_ok :: "(string \<Rightarrow> string) \<Rightarrow> (string \<Rightarrow> string \<Rightarrow> jdict option) \<Rightarrow> wf_db \<Rightarrow> string \<times> string \<times> string list option \<Rightarrow> bool" where
  "job_ok sha versions db job \<longleftrightarrow> (case job of (t, i, None) \<Rightarrow> True
     | (t, i, Some ns) \<Rightarrow> \<exists>v. (i, t, v) \<in> identities db \<and> (\<forall>n\<in>set ns. cleared sha versions db (i, t, v) n))"

definition result_ok :: "(string \<Rightarrow> string) \<Rightarrow> (string \<Rightarrow> string \<Rightarrow> jdict option) \<Rightarrow> wf_db \<Rightarrow> string \<times> string \<times> jdict \<times> ExecutionResult \<Rightarrow> bool" where
  "result_ok sha versions db res \<longleftrightarrow> (case res of (t, i, doc, r) \<Rightarrow> \<exists>v. (i, t, v) \<in> identities db \<and> versions t v = Some doc
     \<and> reached sha versions db (i, t, v) (er_waiting_on r) (er_resume_nodes r))"

definition call_ok :: "(string \<Rightarrow> string) \<Rightarrow> (string \<Rightarrow> string \<Rightarrow> jdict option) \<Rightarrow> wf_db \<Rightarrow> string \<times> action_call \<Rightarrow> bool" where
  "call_ok sha versions db call \<longleftrightarrow> (\<exists>t v. (fst call, t, v) \<in> identities db \<and> cleared sha versions db (fst call, t, v) (call_node (snd call)))"

definition rt_inv :: "(string \<Rightarrow> string) \<Rightarrow> (string \<Rightarrow> string \<Rightarrow> jdict option) \<Rightarrow> runtime \<Rightarrow> bool" where
  "rt_inv sha versions s \<longleftrightarrow> store_ok sha versions (rt_db s) \<and> (\<forall>j\<in>set (rt_jobs s). job_ok sha versions (rt_db s) j)
     \<and> (\<forall>r\<in>set (rt_results s). result_ok sha versions (rt_db s) r) \<and> (\<forall>c\<in>set (rt_calls s). call_ok sha versions (rt_db s) c)"

subsection \<open>Growth of the store\<close>

text \<open>No transaction takes an execution, an approval request or a given approval away.\<close>

definition grows :: "wf_db \<Rightarrow> wf_db \<Rightarrow> bool" where
  "grows db db' \<longleftrightarrow> identities db \<subseteq> identities db' \<and> (\<forall>i. approved_nodes db i \<subseteq> approved_nodes db' i)
     \<and> approval_key ` set (wf_approvals db) \<subseteq> approval_key ` set (wf_approvals db')"

lemma growsD:
  assumes "grows db db'"
  shows "x \<in> identities db \<Longrightarrow> x \<in> identities db'" and "approved_nodes db i \<subseteq> approved_nodes db' i"
    and "k \<in> approval_key ` set (wf_approvals db) \<Longrightarrow> k \<in> approval_key ` set (wf_approvals db')"
  using assms unfolding grows_def by auto

lemma cleared_grows: "grows db db' \<Longrightarrow> cleared sha versions db idn n \<Longrightarrow> cleared sha versions db' idn n"
  by (cases idn) (simp add: cleared_mono [OF growsD(2)])

lemma suspended_grows:
  assumes "grows db db'" and "suspended sha versions db idn w ns"
  shows "suspended sha versions db' idn w ns"
proof -
  from assms(2) obtain p node where p: "plan_for sha versions idn p" "cleared sha versions db idn w"
    "map_of (plan_nodes p) w = Some node" "set ns \<subseteq> set (map pe_target (plan_edges p w))" by (auto simp: suspended_def)
  from p(1,3,4) cleared_grows [OF assms(1) p(2)] show ?thesis
    unfolding suspended_def by (intro exI [of _ p] exI [of _ node] conjI)
qed

lemma reached_grows: "grows db db' \<Longrightarrow> reached sha versions db idn w ns \<Longrightarrow> reached sha versions db' idn w ns"
  by (cases w) (simp_all add: reached_def suspended_grows)

lemma awaited_grows:
  assumes "grows db db'" and "awaited sha versions db idn w"
  shows "awaited sha versions db' idn w"
  using assms(2) unfolding awaited_def by (intro allI impI) (rule growsD(3) [OF assms(1)], simp)

lemma row_ok_grows: "grows db db' \<Longrightarrow> row_ok sha versions db e \<Longrightarrow> row_ok sha versions db' e"
  by (simp add: row_ok_def reached_grows awaited_grows)

lemma job_ok_grows:
  assumes g: "grows db db'" and ok: "job_ok sha versions db j"
  shows "job_ok sha versions db' j"
proof (cases j)
  case (fields t i src)
  show ?thesis
  proof (cases src)
    case None
    then show ?thesis by (simp add: job_ok_def fields)
  next
    case (Some ns)
    from ok obtain v where v: "(i, t, v) \<in> identities db" "\<forall>n\<in>set ns. cleared sha versions db (i, t, v) n"
      by (auto simp: job_ok_def fields Some)
    with growsD(1) [OF g v(1)] cleared_grows [OF g] show ?thesis
      unfolding job_ok_def fields Some by (simp, intro exI [of _ v] conjI ballI) simp_all
  qed
qed

lemma result_ok_grows:
  assumes g: "grows db db'" and ok: "result_ok sha versions db r"
  shows "result_ok sha versions db' r"
proof (cases r)
  case (fields t i doc x)
  from ok obtain v where v: "(i, t, v) \<in> identities db" "versions t v = Some doc"
    "reached sha versions db (i, t, v) (er_waiting_on x) (er_resume_nodes x)" by (auto simp: result_ok_def fields)
  with growsD(1) [OF g v(1)] reached_grows [OF g v(3)] show ?thesis
    unfolding result_ok_def fields by (simp, intro exI [of _ v] conjI)
qed

lemma call_ok_grows:
  assumes g: "grows db db'" and ok: "call_ok sha versions db c"
  shows "call_ok sha versions db' c"
proof -
  from ok obtain t v where v: "(fst c, t, v) \<in> identities db" "cleared sha versions db (fst c, t, v) (call_node (snd c))"
    by (auto simp: call_ok_def)
  with growsD(1) [OF g v(1)] cleared_grows [OF g v(2)] show ?thesis
    unfolding call_ok_def by (intro exI [of _ t] exI [of _ v] conjI)
qed

text \<open>A step that only moves the store.\<close>

lemma rt_inv_store:
  assumes "rt_inv sha versions s" and "grows (rt_db s) db" and "store_ok sha versions db"
  shows "rt_inv sha versions (s\<lparr>rt_db := db\<rparr>)"
proof -
  have "job_ok sha versions db j" if "j \<in> set (rt_jobs s)" for j
    using assms(1) that job_ok_grows [OF assms(2)] by (simp add: rt_inv_def)
  moreover have "result_ok sha versions db r" if "r \<in> set (rt_results s)" for r
    using assms(1) that result_ok_grows [OF assms(2)] by (simp add: rt_inv_def)
  moreover have "call_ok sha versions db c" if "c \<in> set (rt_calls s)" for c
    using assms(1) that call_ok_grows [OF assms(2)] by (simp add: rt_inv_def)
  ultimately show ?thesis using assms(3) by (simp add: rt_inv_def)
qed

lemma grows_same: "wf_approvals db' = wf_approvals db \<Longrightarrow> wf_executions db' = wf_executions db \<Longrightarrow> grows db db'"
  by (simp add: grows_def identities_def approved_nodes_def)

lemma grows_trans: "grows a b \<Longrightarrow> grows b c \<Longrightarrow> grows a c"
  unfolding grows_def by (meson subset_trans)

lemma store_ok_same:
  assumes "store_ok sha versions db" and "wf_approvals db' = wf_approvals db" and "wf_executions db' = wf_executions db"
  shows "store_ok sha versions db'"
  using assms row_ok_grows [OF grows_same [OF assms(2,3)]] unfolding store_ok_def by (auto simp: identities_def)

lemma identities_set_row:
  assumes "row_at ex_id (ex_id e') (wf_executions db) = Some e" and "identity e' = identity e"
    and "wf_executions db' = set_row ex_id e' (wf_executions db)" and "distinct (map ex_id (wf_executions db))"
  shows "identities db' = identities db"
proof -
  have "identity (if ex_id x = ex_id e' then e' else x) = identity x" if "x \<in> set (wf_executions db)" for x
    using row_at_unique [OF assms(4) that] assms(1,2) by auto
  then have "map (\<lambda>x. identity (if ex_id x = ex_id e' then e' else x)) (wf_executions db) = map identity (wf_executions db)"
    by simp
  then have "map identity (wf_executions db') = map identity (wf_executions db)" by (simp add: assms(3) set_row_def comp_def)
  then show ?thesis unfolding identities_def by (metis list.set_map)
qed

text \<open>Replacing the row of an execution.\<close>

lemma store_put_execution:
  assumes "store_ok sha versions db" and "row_at ex_id (ex_id e') (wf_executions db) = Some e" and "identity e' = identity e"
    and "row_ok sha versions db e'" and "wf_executions db' = set_row ex_id e' (wf_executions db)" and "wf_approvals db' = wf_approvals db"
  shows "grows db db' \<and> store_ok sha versions db'"
proof -
  have dist: "distinct (map ex_id (wf_executions db))" using assms(1) by (simp add: store_ok_def)
  have ids: "identities db' = identities db" by (rule identities_set_row [OF assms(2,3,5) dist])
  then have grows: "grows db db'" by (simp add: grows_def approved_nodes_def assms(6))
  have "row_ok sha versions db' x" if "x \<in> set (wf_executions db')" for x
    using that assms(1,4) row_ok_grows [OF grows] set_row_cases unfolding assms(5) store_ok_def by metis
  then show ?thesis using grows assms(1) ids by (simp add: store_ok_def assms(5,6))
qed

subsection \<open>The steps\<close>

lemma visible_executionD:
  assumes "visible_execution t i db = Some e"
  shows "row_at ex_id i (wf_executions db) = Some e" "e \<in> set (wf_executions db)" "ex_id e = i" "ex_tenant e = t"
    "identity e = (i, t, ex_version e)" "(i, t, ex_version e) \<in> identities db"
proof -
  show row: "row_at ex_id i (wf_executions db) = Some e" and t: "ex_tenant e = t"
    using assms by (auto simp: visible_execution_def split: option.splits if_splits)
  from row_at_Some [OF row] show e: "e \<in> set (wf_executions db)" and i: "ex_id e = i" by simp_all
  then show idn: "identity e = (i, t, ex_version e)" using t by (simp add: identity_def)
  with e show "(i, t, ex_version e) \<in> identities db" unfolding identities_def by (metis imageI)
qed

lemma identities_unique:
  assumes "store_ok sha versions db" and "(i, t, v) \<in> identities db" and "(i, t', v') \<in> identities db"
  shows "t = t' \<and> v = v'"
proof -
  from assms(2,3) obtain e e' where "e \<in> set (wf_executions db)" "e' \<in> set (wf_executions db)"
    "identity e = (i, t, v)" "identity e' = (i, t', v')" unfolding identities_def by (metis imageE)
  moreover from this have "e = e'"
    using assms(1) row_at_unique [of ex_id "wf_executions db"] unfolding store_ok_def identity_def by (metis option.inject prod.inject)
  ultimately show ?thesis by simp
qed

lemma resume_request_ok:
  assumes "store_ok sha versions db" and "resume_request t i db = Inr ns"
  shows "job_ok sha versions db (t, i, Some ns)"
proof -
  from assms(2) obtain e where e: "visible_execution t i db = Some e" "ns = ex_resume_nodes e" "ns \<noteq> []"
    by (auto simp: resume_request_def Let_def split: option.splits if_splits)
  note ex = visible_executionD [OF e(1)]
  have ok: "row_ok sha versions db e" using assms(1) ex(2) by (simp add: store_ok_def)
  then obtain w where w: "ex_waiting_on e = Some w" "suspended sha versions db (identity e) w ns"
    using e(2,3) by (auto simp: row_ok_def reached_def split: option.splits)
  have "w \<in> approved_nodes db i"
    if p: "plan_for sha versions (identity e) p" and node: "map_of (plan_nodes p) w = Some node" "dget ''type'' node = JStr ''approval''"
    for p node
  proof -
    have "w \<noteq> []" using p plan_node_in_doc [OF _ node(1)] by (auto simp: plan_for_def)
    have "(i, w) \<in> approval_key ` set (wf_approvals db)"
      using ok p node w(1) unfolding row_ok_def awaited_def ex(5) by auto
    then obtain a where a: "row_at approval_key (i, w) (wf_approvals db) = Some a"
      using row_at_None [of approval_key "(i, w)" "wf_approvals db"] by (cases "row_at approval_key (i, w) (wf_approvals db)") auto
    from row_at_Some [OF a] have a_in: "a \<in> set (wf_approvals db)" "ap_execution a = i" "ap_node a = w"
      by (simp_all add: approval_key_def)
    then have "ap_tenant a = t"
      using assms(1) identities_unique [OF assms(1) _ ex(6)] unfolding store_ok_def by blast
    then have "ap_state a = ''approved''"
      using assms(2) e(1) w(1) a \<open>w \<noteq> []\<close> ex(3) by (auto simp: resume_request_def Let_def split: if_splits)
    then show ?thesis using a_in unfolding approved_nodes_def by blast
  qed
  then have "cleared sha versions db (identity e) n" if "n \<in> set ns" for n
    using suspended_cleared [OF w(2) that] by (simp add: ex(5))
  then show ?thesis using ex(5,6) by (auto simp: job_ok_def)
qed

lemma begin_ok:
  assumes "store_ok sha versions db" and "begin_execution versions now t i db = Begun e doc db'"
  shows "grows db db' \<and> store_ok sha versions db'"
    and "visible_execution t i db = Some e" and "versions t (ex_version e) = Some doc"
proof -
  show vis: "visible_execution t i db = Some e" and "versions t (ex_version e) = Some doc"
    using assms(2) by (auto simp: begin_execution_def split: option.splits if_splits)
  note ex = visible_executionD [OF vis]
  define e' where "e' = e\<lparr>ex_state := ''running'',
    ex_started_at := (case ex_started_at e of None \<Rightarrow> Some now | Some t \<Rightarrow> Some t), ex_resume_at := None\<rparr>"
  have db': "db' = put_execution e' db"
    using assms(2) by (auto simp: begin_execution_def e'_def split: option.splits if_splits)
  have "row_ok sha versions db e" using assms(1) ex(2) by (simp add: store_ok_def)
  then have ok: "row_ok sha versions db e'" by (simp add: row_ok_def e'_def identity_def)
  have row: "row_at ex_id (ex_id e') (wf_executions db) = Some e" using ex(1,3) by (simp add: e'_def)
  have "identity e' = identity e" by (simp add: e'_def identity_def)
  from store_put_execution [OF assms(1) row this ok, of db'] show "grows db db' \<and> store_ok sha versions db'"
    by (simp add: db' put_execution_def)
qed

lemma run_engine_ok:
  assumes "run_engine sha env now e doc src = (res, calls)" and "versions (ex_tenant e) (ex_version e) = Some doc"
    and "identity e \<in> identities db" and "job_ok sha versions db (ex_tenant e, ex_id e, src)" and "store_ok sha versions db"
  shows "\<forall>c\<in>set calls. call_ok sha versions db (ex_id e, c)"
    and "res = Inr r \<Longrightarrow> result_ok sha versions db (ex_tenant e, ex_id e, doc, r)"
proof -
  let ?id = "identity e"
  have idn: "?id = (ex_id e, ex_tenant e, ex_version e)" by (simp add: identity_def)
  have start: "cleared sha versions db ?id n"
    if "compile_workflow sha doc = Inr p" "n \<in> (open_edges p)\<^sup>* `` set (case src of None \<Rightarrow> plan_entry_nodes p | Some ns \<Rightarrow> ns)" for p n
  proof -
    have p: "plan_for sha versions ?id p" using that(1) assms(2) by (auto simp: plan_for_def identity_def)
    from that(2) obtain a where a: "a \<in> set (case src of None \<Rightarrow> plan_entry_nodes p | Some ns \<Rightarrow> ns)" "(a, n) \<in> (open_edges p)\<^sup>*" by blast
    have "cleared sha versions db ?id a"
    proof (cases src)
      case None
      then show ?thesis using a(1) p unfolding cleared_def by auto
    next
      case (Some ns)
      with assms(4) obtain v where "(ex_id e, ex_tenant e, v) \<in> identities db" "\<forall>n\<in>set ns. cleared sha versions db (ex_id e, ex_tenant e, v) n"
        by (auto simp: job_ok_def)
      moreover from this have "v = ex_version e" using identities_unique [OF assms(5)] assms(3) idn by metis
      ultimately show ?thesis using a(1) Some idn by simp
    qed
    moreover have "(a, n) \<in> (cleared_edges p (approved_nodes db (fst ?id)))\<^sup>*"
      using a(2) rtrancl_mono [OF open_edges_cleared] by blast
    ultimately show ?thesis using cleared_steps [OF p] by blast
  qed
  show "\<forall>c\<in>set calls. call_ok sha versions db (ex_id e, c)"
  proof
    fix c assume c: "c \<in> set calls"
    with assms(1) obtain p where p: "compile_workflow sha doc = Inr p"
      "c \<in> set (es_calls (snd (execute env p (engine_context now e) src)))"
      by (auto simp: run_engine_def split: sum.splits prod.splits)
    then have "call_node c \<in> (open_edges p)\<^sup>* `` set (case src of None \<Rightarrow> plan_entry_nodes p | Some ns \<Rightarrow> ns)"
      using execute_confined [OF p] by blast
    from start [OF p(1) this] assms(3) idn show "call_ok sha versions db (ex_id e, c)"
      unfolding call_ok_def by auto
  qed
  assume "res = Inr r"
  with assms(1) obtain p where p: "compile_workflow sha doc = Inr p" "fst (execute env p (engine_context now e) src) = Inr r"
    by (auto simp: run_engine_def split: sum.splits prod.splits)
  have plan: "plan_for sha versions ?id p" using p(1) assms(2) by (auto simp: plan_for_def identity_def)
  have "reports p ((open_edges p)\<^sup>* `` set (case src of None \<Rightarrow> plan_entry_nodes p | Some ns \<Rightarrow> ns)) r"
    by (rule execute_reports [OF compile_plan_keyed [OF p(1)] p(2)])
  then have "reached sha versions db ?id (er_waiting_on r) (er_resume_nodes r)"
  proof (cases rule: reports_cases)
    case none
    then show ?thesis by (simp add: reached_def)
  next
    case (waits w node)
    then show ?thesis using plan start [OF p(1) waits(2)] by (auto simp: reached_def suspended_def)
  qed
  then show "result_ok sha versions db (ex_tenant e, ex_id e, doc, r)"
    using assms(2,3) idn by (auto simp: result_ok_def)
qed

lemma wf_tables_persist_node [simp]:
  "wf_approvals (persist_node now i doc db r) = wf_approvals db" "wf_executions (persist_node now i doc db r) = wf_executions db"
  by (simp_all add: persist_node_def Let_def)

lemma wf_tables_persist_nodes [simp]:
  "wf_approvals (foldl (persist_node now i doc) db rs) = wf_approvals db"
  "wf_executions (foldl (persist_node now i doc) db rs) = wf_executions db"
  by (induction rs arbitrary: db) simp_all

lemma wf_tables_log [simp]:
  "wf_approvals (add_audit r db) = wf_approvals db" "wf_executions (add_audit r db) = wf_executions db"
  "wf_approvals (add_outbox r db) = wf_approvals db" "wf_executions (add_outbox r db) = wf_executions db"
  "wf_approvals (put_execution e db) = wf_approvals db" "wf_executions (put_execution e db) = set_row ex_id e (wf_executions db)"
  by (simp_all add: add_audit_def add_outbox_def put_execution_def)

lemma wf_tables_add_approval:
  "wf_approvals (add_approval a db) = add_row approval_key a (wf_approvals db)" "wf_executions (add_approval a db) = wf_executions db"
  by (simp_all add: add_approval_def add_row_def Let_def)

lemma approval_request_fields:
  assumes "approval_request now fresh t i w node = Inr a"
  shows "ap_id a = fresh" "ap_tenant a = t" "ap_execution a = i" "ap_node a = w" "ap_state a = ''requested''"
  using assms by (auto simp: approval_request_def rbind_eq_Inr)

text \<open>Adding the approval request: the one table that grows, and the key is there afterwards.\<close>

lemma add_approval_ok:
  assumes ok: "store_ok sha versions db" and fresh: "ap_id a \<notin> ap_id ` set (wf_approvals db)"
    and owner: "\<exists>v. (ap_execution a, ap_tenant a, v) \<in> identities db"
  shows "grows db (add_approval a db) \<and> store_ok sha versions (add_approval a db)
    \<and> approval_key a \<in> approval_key ` set (wf_approvals (add_approval a db))"
proof -
  let ?db = "add_approval a db"
  have sub: "set (wf_approvals db) \<subseteq> set (wf_approvals ?db)" and rev: "set (wf_approvals ?db) \<subseteq> insert a (set (wf_approvals db))"
    by (auto simp: wf_tables_add_approval set_add_row)
  have ids: "identities ?db = identities db" by (simp add: identities_def wf_tables_add_approval)
  have grows: "grows db ?db" using sub ids by (auto simp: grows_def approved_nodes_def)
  have "distinct (map ap_id (wf_approvals ?db))"
    using ok fresh by (auto simp: store_ok_def wf_tables_add_approval add_row_def)
  moreover have "\<forall>x\<in>set (wf_approvals ?db). \<exists>v. (ap_execution x, ap_tenant x, v) \<in> identities ?db"
    using ok owner rev unfolding ids store_ok_def by blast
  moreover have "\<forall>e\<in>set (wf_executions ?db). row_ok sha versions ?db e"
    using ok row_ok_grows [OF grows] by (simp add: store_ok_def wf_tables_add_approval)
  ultimately have "store_ok sha versions ?db" using ok by (simp add: store_ok_def wf_tables_add_approval)
  moreover have "approval_key a \<in> approval_key ` set (wf_approvals ?db)"
    using row_at_None [of approval_key "approval_key a" "wf_approvals db"]
    by (auto simp: wf_tables_add_approval set_add_row)
  ultimately show ?thesis using grows by blast
qed

lemma create_ok:
  assumes "store_ok sha versions db" and "ex_id e \<notin> ex_id ` set (wf_executions db)" and "ex_waiting_on e = None" and "ex_resume_nodes e = []"
  shows "grows db (db\<lparr>wf_executions := wf_executions db @ [e]\<rparr>) \<and> store_ok sha versions (db\<lparr>wf_executions := wf_executions db @ [e]\<rparr>)"
proof -
  let ?db = "db\<lparr>wf_executions := wf_executions db @ [e]\<rparr>"
  have ids: "identities ?db = insert (identity e) (identities db)" by (auto simp: identities_def)
  have grows: "grows db ?db" using ids by (auto simp: grows_def approved_nodes_def)
  have "row_ok sha versions ?db e" using assms(3,4) by (simp add: row_ok_def reached_def awaited_def)
  moreover have "\<forall>x\<in>set (wf_executions db). row_ok sha versions ?db x"
    using assms(1) row_ok_grows [OF grows] by (simp add: store_ok_def)
  moreover have "\<forall>a\<in>set (wf_approvals db). \<exists>v. (ap_execution a, ap_tenant a, v) \<in> identities ?db"
    using assms(1) unfolding ids store_ok_def by blast
  ultimately have "store_ok sha versions ?db" using assms(1,2) unfolding store_ok_def by simp
  with grows show ?thesis by blast
qed

lemma persist_approval_cases:
  assumes "persist_approval now fresh t i doc waiting db = Inr db'"
  obtains (none) "db' = db"
      "\<And>w node. waiting = Some w \<Longrightarrow> w \<noteq> [] \<Longrightarrow> List.find (\<lambda>n. py_str (node_attr ''id'' n) = w) (doc_nodes doc) = Some (JDict node)
        \<Longrightarrow> dget ''type'' node \<noteq> JStr ''approval''"
  | (added) w node a where "waiting = Some w" "approval_request now fresh t i w node = Inr a" "db' = add_approval a db"
proof (cases waiting)
  case None
  then show ?thesis using assms none by (simp add: persist_approval_def)
next
  case (Some w)
  show ?thesis
  proof (cases "\<exists>node. w \<noteq> [] \<and> List.find (\<lambda>n. py_str (node_attr ''id'' n) = w) (doc_nodes doc) = Some (JDict node)
      \<and> dget ''type'' node = JStr ''approval''")
    case True
    then obtain node where node: "w \<noteq> []" "List.find (\<lambda>n. py_str (node_attr ''id'' n) = w) (doc_nodes doc) = Some (JDict node)"
      "dget ''type'' node = JStr ''approval''" by blast
    with assms Some obtain a where "approval_request now fresh t i w node = Inr a" "db' = add_approval a db"
      by (auto simp: persist_approval_def rbind_eq_Inr)
    then show ?thesis using added Some by blast
  next
    case False
    have "db' = db"
      using assms Some False by (auto simp: persist_approval_def split: if_splits option.splits json.splits)
    then show ?thesis using none False Some by auto
  qed
qed

text \<open>Storing a result, on the tables alone: the approval request first, then the row of the execution.\<close>

lemma finish_tables:
  assumes "finish_execution now fresh t i doc r db = Inr db'"
  obtains e base where "visible_execution t i db = Some e"
    "persist_approval now fresh t i doc (er_waiting_on r) db = Inr base"
    "wf_approvals db' = wf_approvals base" "wf_executions base = wf_executions db"
    "wf_executions db' = set_row ex_id (finished_row now r e) (wf_executions db)"
proof -
  from assms obtain e where e: "visible_execution t i db = Some e"
    by (auto simp: finish_execution_def split: option.splits)
  let ?db3 = "stored_result now doc r e db"
  have db3: "wf_approvals ?db3 = wf_approvals db"
      "wf_executions ?db3 = set_row ex_id (finished_row now r e) (wf_executions db)"
    by (simp_all add: stored_result_def Let_def)
  from assms e have pers: "persist_approval now fresh t i doc (er_waiting_on r) ?db3 = Inr db'"
    by (auto simp: finish_execution_def split: sum.splits)
  obtain base where base: "persist_approval now fresh t i doc (er_waiting_on r) db = Inr base"
    "wf_approvals base = wf_approvals db'" "wf_executions base = wf_executions db" "wf_executions db' = wf_executions ?db3"
    using pers db3(1)
    by (auto simp: persist_approval_def rbind_eq_Inr wf_tables_add_approval split: option.splits if_splits json.splits)
  with e db3 show thesis by (intro that [of e base]) simp_all
qed

lemma finish_ok:
  assumes ok: "store_ok sha versions db" and res: "result_ok sha versions db (t, i, doc, r)"
    and fresh: "fresh \<notin> ap_id ` set (wf_approvals db)" and fin: "finish_execution now fresh t i doc r db = Inr db'"
  shows "grows db db' \<and> store_ok sha versions db'"
proof -
  from fin obtain e base where e: "visible_execution t i db = Some e"
    and pers: "persist_approval now fresh t i doc (er_waiting_on r) db = Inr base"
    and tables: "wf_approvals db' = wf_approvals base" "wf_executions base = wf_executions db"
      "wf_executions db' = set_row ex_id (finished_row now r e) (wf_executions db)"
    by (rule finish_tables)
  note ex = visible_executionD [OF e]
  from res obtain v where v: "(i, t, v) \<in> identities db" "versions t v = Some doc"
    "reached sha versions db (i, t, v) (er_waiting_on r) (er_resume_nodes r)" by (auto simp: result_ok_def)
  have vv: "v = ex_version e" using identities_unique [OF ok v(1) ex(6)] by simp
  let ?e = "finished_row now r e"
  have idn: "identity ?e = (i, t, v)" "ex_id ?e = i" "ex_waiting_on ?e = er_waiting_on r" "ex_resume_nodes ?e = er_resume_nodes r"
    using ex(3,4) vv by (simp_all add: finished_row_def identity_def)
  have base: "grows db base \<and> store_ok sha versions base \<and> awaited sha versions base (i, t, v) (er_waiting_on r)"
    using pers
  proof (cases rule: persist_approval_cases)
    case none
    have "awaited sha versions db (i, t, v) (er_waiting_on r)"
      unfolding awaited_def using none(2) plan_node_in_doc v(2) by (fastforce simp: plan_for_def)
    with none(1) ok show ?thesis using grows_same [of db db] by simp
  next
    case (added w node a)
    note a = approval_request_fields [OF added(2)]
    have "grows db base \<and> store_ok sha versions base \<and> approval_key a \<in> approval_key ` set (wf_approvals base)"
      unfolding added(3) by (rule add_approval_ok [OF ok]) (use fresh a v(1) in auto)
    then show ?thesis using added(1) a by (auto simp: awaited_def approval_key_def)
  qed
  have row: "row_at ex_id (ex_id ?e) (wf_executions base) = Some e" using ex(1) tables(2) idn(2) by simp
  have same: "identity ?e = identity e" using idn(1) ex(5) vv by simp
  have "row_ok sha versions base ?e"
    using base reached_grows [OF _ v(3)] unfolding row_ok_def idn by blast
  from store_put_execution [OF _ row same this, of db'] base tables
  have "grows base db' \<and> store_ok sha versions db'" by simp
  with base show ?thesis using grows_trans by blast
qed

lemma resolve_execution_simps [simp]:
  "ex_id (resolve_execution now a s e) = ex_id e" "identity (resolve_execution now a s e) = identity e"
  "ex_waiting_on (resolve_execution now a s e) = ex_waiting_on e" "ex_resume_nodes (resolve_execution now a s e) = ex_resume_nodes e"
  by (simp_all add: resolve_execution_def identity_def)

lemma put_approval_ok:
  assumes ok: "store_ok sha versions db" and row: "row_at ap_id (ap_id a) (wf_approvals db) = Some a" and req: "ap_state a \<noteq> ''approved''"
    and tables: "wf_approvals db' = set_row ap_id (decided now d a) (wf_approvals db)" "wf_executions db' = wf_executions db"
  shows "grows db db' \<and> store_ok sha versions db'"
proof -
  let ?a = "decided now d a"
  have dist: "distinct (map ap_id (wf_approvals db))" using ok by (simp add: store_ok_def)
  have a: "a \<in> set (wf_approvals db)" using row_at_Some [OF row] by simp
  have new: "?a \<in> set (wf_approvals db')" using a unfolding tables(1) by (intro set_row_new) auto
  have old: "x \<in> set (wf_approvals db') \<or> x = a" if "x \<in> set (wf_approvals db)" for x
    using that row row_at_unique [OF dist that] set_row_old [of x "wf_approvals db" ap_id ?a] unfolding tables(1)
    by (metis decided_simps(1) option.inject)
  have ids: "identities db' = identities db" by (simp add: identities_def tables(2))
  have "approval_key ` set (wf_approvals db) \<subseteq> approval_key ` set (wf_approvals db')"
  proof
    fix k assume "k \<in> approval_key ` set (wf_approvals db)"
    then obtain x where x: "x \<in> set (wf_approvals db)" "k = approval_key x" by blast
    have "approval_key ?a = approval_key a" by (simp add: approval_key_def)
    with old [OF x(1)] new x(2) show "k \<in> approval_key ` set (wf_approvals db')" by (metis imageI)
  qed
  moreover have "approved_nodes db i \<subseteq> approved_nodes db' i" for i
    using old req unfolding approved_nodes_def by blast
  ultimately have grows: "grows db db'" by (simp add: grows_def ids)
  have "\<exists>v. (ap_execution x, ap_tenant x, v) \<in> identities db'" if "x \<in> set (wf_approvals db')" for x
  proof -
    from set_row_cases [OF that [unfolded tables(1)]] show ?thesis
      using ok a unfolding ids store_ok_def by fastforce
  qed
  moreover have "\<forall>e\<in>set (wf_executions db'). row_ok sha versions db' e"
    using ok row_ok_grows [OF grows] by (simp add: store_ok_def tables(2))
  ultimately show ?thesis using grows ok by (simp add: store_ok_def tables)
qed

lemma decide_ok:
  assumes ok: "store_ok sha versions db" and dec: "decide_approval now i decision comment who db = Inr (r, db')"
  shows "grows db db' \<and> store_ok sha versions db'"
  using dec
proof (cases rule: decide_cases)
  case duplicate
  then show ?thesis using ok grows_same by simp
next
  case (recorded a e)
  let ?d = "new_decision now who decision comment a" and ?base = "put_approval (decided now (new_decision now who decision comment a) a) db"
  have row: "row_at ap_id (ap_id a) (wf_approvals db) = Some a" using recorded(1) row_at_Some [OF recorded(1)] by simp
  have base: "grows db ?base \<and> store_ok sha versions ?base"
    by (rule put_approval_ok [OF ok row, where d = ?d]) (simp_all add: recorded(3) put_approval_def)
  let ?e = "resolve_execution now (decided now ?d a) (approval_vote (decided now ?d a)) e"
  have exec: "wf_executions ?base = wf_executions db" by (simp add: put_approval_def)
  have e: "row_at ex_id (ex_id ?e) (wf_executions ?base) = Some e" using recorded(6) row_at_Some [OF recorded(6)] exec by simp
  have "row_ok sha versions ?base e" using base row_at_Some [OF e] by (simp add: store_ok_def)
  then have "row_ok sha versions ?base ?e" by (simp add: row_ok_def)
  from store_put_execution [OF conjunct2 [OF base] e _ this, of db'] record_decision_tables(1,2) [OF recorded(8)]
  have "grows ?base db' \<and> store_ok sha versions db'" by (simp add: put_approval_def)
  with base show ?thesis using grows_trans by blast
qed

lemma sweep_ok:
  assumes "store_ok sha versions db" and "set due \<subseteq> set (wf_executions db)"
  shows "grows db (foldl (\<lambda>d e. put_execution (e\<lparr>ex_resume_at := None\<rparr>) d) db due)
    \<and> store_ok sha versions (foldl (\<lambda>d e. put_execution (e\<lparr>ex_resume_at := None\<rparr>) d) db due)"
  using assms(2)
proof (induction due rule: rev_induct)
  case Nil
  then show ?case using assms(1) grows_same by simp
next
  case (snoc e due)
  let ?d = "foldl (\<lambda>d e. put_execution (e\<lparr>ex_resume_at := None\<rparr>) d) db due" and ?e = "e\<lparr>ex_resume_at := None\<rparr>"
  have IH: "grows db ?d" "store_ok sha versions ?d" and e: "e \<in> set (wf_executions db)" using snoc by auto
  have "identity e \<in> identities ?d" using growsD(1) [OF IH(1)] e by (simp add: identities_def)
  then obtain x where x: "x \<in> set (wf_executions ?d)" "identity e = identity x" unfolding identities_def by blast
  then have row: "row_at ex_id (ex_id ?e) (wf_executions ?d) = Some x"
    using IH(2) row_at_unique [of ex_id "wf_executions ?d" x] by (simp add: store_ok_def identity_def)
  have same: "identity ?e = identity x" using x(2) by (simp add: identity_def)
  have "row_ok sha versions ?d e" using assms(1) e row_ok_grows [OF IH(1)] by (simp add: store_ok_def)
  then have "row_ok sha versions ?d ?e" by (simp add: row_ok_def identity_def)
  from store_put_execution [OF IH(2) row same this, of "put_execution ?e ?d"] IH(1) show ?case
    using grows_trans by simp
qed

lemma rt_inv_step:
  assumes "rt_step sha versions s s'" and inv: "rt_inv sha versions s"
  shows "rt_inv sha versions s'"
  using assms(1)
proof cases
  case (create e)
  then show ?thesis using rt_inv_store [OF inv] create_ok [of sha versions "rt_db s" e] inv by (simp add: rt_inv_def)
next
  case (enqueue t i)
  then show ?thesis using inv by (simp add: rt_inv_def job_ok_def)
next
  case (resume t i ns)
  then show ?thesis using inv resume_request_ok [of sha versions "rt_db s" t i ns] by (simp add: rt_inv_def)
next
  case (start t i src now e doc db env res calls)
  have ok: "store_ok sha versions (rt_db s)" using inv by (simp add: rt_inv_def)
  note b = begin_ok [OF ok start(3)] and ex = visible_executionD [OF begin_ok(2) [OF ok start(3)]]
  have inv': "rt_inv sha versions (s\<lparr>rt_db := db\<rparr>)" using rt_inv_store [OF inv] b(1) by blast
  have idn: "identity e \<in> identities db" using growsD(1) ex(5,6) b(1) by metis
  have job: "job_ok sha versions db (ex_tenant e, ex_id e, src)"
    using inv' start(2) ex(3,4) by (auto simp: rt_inv_def)
  have vers: "versions (ex_tenant e) (ex_version e) = Some doc" using b(3) ex(4) by simp
  note run = run_engine_ok [OF start(4) vers idn job conjunct2 [OF b(1)]]
  have "\<forall>c\<in>set (map (Pair i) calls). call_ok sha versions db c" using run(1) ex(3) by simp
  moreover have "\<forall>x\<in>set (case res of Inl _ \<Rightarrow> rt_results s | Inr r \<Rightarrow> (t, i, doc, r) # rt_results s). result_ok sha versions db x"
    using inv' run(2) ex(3,4) by (auto simp: rt_inv_def split: sum.splits)
  ultimately show ?thesis using inv' start(1) by (auto simp: rt_inv_def)
next
  case (store t i doc r fresh now db)
  have ok: "store_ok sha versions (rt_db s)" and "result_ok sha versions (rt_db s) (t, i, doc, r)"
    using inv store(2) by (auto simp: rt_inv_def)
  from finish_ok [OF this store(3,4)] rt_inv_store [OF inv] have "rt_inv sha versions (s\<lparr>rt_db := db\<rparr>)" by blast
  then show ?thesis using store(1) by (auto simp: rt_inv_def dest: notin_set_remove1 set_remove1_subset [THEN subsetD])
next
  case (decide now i decision comment who r db)
  then show ?thesis using rt_inv_store [OF inv] decide_ok [of sha versions "rt_db s"] inv by (auto simp: rt_inv_def)
next
  case (sweep now due db)
  have ok: "store_ok sha versions (rt_db s)" using inv by (simp add: rt_inv_def)
  have "set (due_executions now (rt_db s)) \<subseteq> set (wf_executions (rt_db s))"
    by (auto simp: due_executions_def dest: in_set_takeD)
  from sweep_ok [OF ok this] have "grows (rt_db s) db \<and> store_ok sha versions db"
    using sweep(2) by (auto simp: process_due_work_def)
  then show ?thesis unfolding sweep(1) by (intro rt_inv_store [OF inv]) simp_all
qed

lemma rt_inv_reachable:
  assumes "(rt_step sha versions)\<^sup>*\<^sup>* s0 s" and "idle s0"
  shows "rt_inv sha versions s"
  using assms(1)
proof (induction rule: rtranclp_induct)
  case base
  then show ?case using assms(2) by (simp add: idle_def rt_inv_def store_ok_def)
next
  case (step s s')
  then show ?case using rt_inv_step by blast
qed

section \<open>Tasks as steps\<close>

text \<open>The functions of the tasks are sequences of these steps: delivering a task message adds its steps to the system.\<close>

lemma execute_once_steps:
  assumes "execute_workflow_once sha versions env False now fresh t i src (rt_db s) = (Inr (Ran r), db, calls)"
    and "(t, i, src) \<in> set (rt_jobs s)" and "fresh \<notin> ap_id ` set (wf_approvals (rt_db s))"
  shows "(rt_step sha versions)\<^sup>*\<^sup>* s (s\<lparr>rt_calls := rt_calls s @ map (Pair i) calls, rt_db := db\<rparr>)"
proof -
  from assms(1) obtain e doc db1 where b: "begin_execution versions now t i (rt_db s) = Begun e doc db1"
      and run: "run_engine sha env now e doc src = (Inr r, calls)"
      and fin: "finish_execution now fresh t i doc r db1 = Inr db"
    by (auto simp: execute_workflow_once_def split: begin_outcome.splits prod.splits sum.splits)
  let ?s1 = "s\<lparr>rt_db := db1, rt_calls := rt_calls s @ map (Pair i) calls, rt_results := (t, i, doc, r) # rt_results s\<rparr>"
  have one: "rt_step sha versions s ?s1" using rt_step.start [OF assms(2) b run] by simp
  have "wf_approvals db1 = wf_approvals (rt_db s)"
    using b by (auto simp: begin_execution_def split: option.splits if_splits)
  then have "fresh \<notin> ap_id ` set (wf_approvals (rt_db ?s1))" using assms(3) by simp
  from rt_step.store [OF _ this, of t i doc r now db] fin
  have "rt_step sha versions ?s1 (s\<lparr>rt_calls := rt_calls s @ map (Pair i) calls, rt_db := db\<rparr>)" by simp
  with one show ?thesis by (meson converse_rtranclp_into_rtranclp rtranclp.rtrancl_refl)
qed

section \<open>Properties\<close>

text \<open>C1. Approvals hold end to end. Whatever tasks are delivered, however often and in whatever interleaving with other
  workers, wake-ups and approval decisions, an action is called for an execution only if its node can be reached
  from an entry node of the pinned plan without leaving any approval node whose approval has not been approved
  for that very execution.\<close>

theorem approval_gate_end_to_end:
  assumes "(rt_step sha versions)\<^sup>*\<^sup>* s0 s" and "idle s0" and "(i, c) \<in> set (rt_calls s)"
  shows "\<exists>e\<in>set (wf_executions (rt_db s)). \<exists>doc p. ex_id e = i \<and> versions (ex_tenant e) (ex_version e) = Some doc
    \<and> compile_workflow sha doc = Inr p
    \<and> (\<exists>start\<in>set (plan_entry_nodes p). (start, call_node c) \<in> (cleared_edges p (approved_nodes (rt_db s) i))\<^sup>*)"
proof -
  have "call_ok sha versions (rt_db s) (i, c)"
    using rt_inv_reachable [OF assms(1,2)] assms(3) by (auto simp: rt_inv_def)
  then obtain t v where idn: "(i, t, v) \<in> identities (rt_db s)" and cl: "cleared sha versions (rt_db s) (i, t, v) (call_node c)"
    by (auto simp: call_ok_def)
  from idn obtain e where "e \<in> set (wf_executions (rt_db s))" "identity e = (i, t, v)" unfolding identities_def by (metis imageE)
  with cl show ?thesis unfolding cleared_def plan_for_def by (intro bexI [of _ e]) (auto simp: identity_def)
qed

definition runtime_doc :: jdict where
  "runtime_doc = [(''name'', JStr ''Refund''), (''trigger'', JDict [(''type'', JStr ''manual'')]),
     (''nodes'', JList [
        JDict [(''id'', JStr ''ask''), (''type'', JStr ''approval''), (''assignees'', JList [JStr ''role:owner''])],
        JDict [(''id'', JStr ''pay''), (''type'', JStr ''action''), (''action'', JStr ''payment.refund'')]]),
     (''edges'', JList [JDict [(''source'', JStr ''ask''), (''target'', JStr ''pay'')]])]"

definition runtime_versions :: "string \<Rightarrow> string \<Rightarrow> jdict option" where
  "runtime_versions t v = (if t = ''t'' \<and> v = ''v'' then Some runtime_doc else None)"

definition runtime_row :: execution_row where
  "runtime_row = sample_execution\<lparr>ex_state := ''pending'', ex_waiting_on := None, ex_resume_nodes := []\<rparr>"

definition idle_runtime :: runtime where
  "idle_runtime = \<lparr>rt_db = \<lparr>wf_approvals = [], wf_executions = [], wf_nodes = [], wf_audit = [], wf_outbox = []\<rparr>,
     rt_jobs = [], rt_results = [], rt_calls = []\<rparr>"

definition owner :: Principal where
  "owner = \<lparr>pr_tenant = ''t'', pr_user = ''u'', pr_roles = [''owner'']\<rparr>"

definition db_created :: wf_db where
  "db_created = (rt_db idle_runtime)\<lparr>wf_executions := [runtime_row]\<rparr>"

definition task_db :: "(task_error, task_outcome) res \<times> wf_db \<times> action_call list \<Rightarrow> wf_db" where
  "task_db x = fst (snd x)"

definition first_task :: "(task_error, task_outcome) res \<times> wf_db \<times> action_call list" where
  "first_task = execute_workflow_once (\<lambda>_. ''h'') runtime_versions calm_env False 0 ''a1'' ''t'' ''e1'' None db_created"

definition db_decided :: wf_db where
  "db_decided = (case decide_approval 1 ''a1'' ''approved'' [] owner (task_db first_task) of Inl _ \<Rightarrow> db_created | Inr x \<Rightarrow> snd x)"

definition second_task :: "(task_error, task_outcome) res \<times> wf_db \<times> action_call list" where
  "second_task = execute_workflow_once (\<lambda>_. ''h'') runtime_versions calm_env False 2 ''a2'' ''t'' ''e1'' (Some [''pay'']) db_decided"

lemma ran_parts:
  "(case fst x of Inr (Ran _) \<Rightarrow> True | _ \<Rightarrow> False) \<Longrightarrow> \<exists>r. x = (Inr (Ran r), task_db x, snd (snd x))"
  by (cases x) (auto simp: task_db_def split: sum.splits task_outcome.splits)

lemma chained_steps: "r a b \<Longrightarrow> r b c \<Longrightarrow> r\<^sup>*\<^sup>* c d \<Longrightarrow> r d e \<Longrightarrow> r e f \<Longrightarrow> r\<^sup>*\<^sup>* f g \<Longrightarrow> r\<^sup>*\<^sup>* a g"
  by (meson converse_rtranclp_into_rtranclp rtranclp_trans)

text \<open>A refund behind an approval: requested, approved by the owner, resumed and then called.\<close>

lemma sample_trace:
  "\<exists>s c. (rt_step (\<lambda>_. ''h'') runtime_versions)\<^sup>*\<^sup>* idle_runtime s \<and> (''e1'', c) \<in> set (rt_calls s) \<and> call_node c = ''pay''"
proof -
  let ?step = "rt_step (\<lambda>_. ''h'') runtime_versions"
  let ?s1 = "idle_runtime\<lparr>rt_db := db_created\<rparr>"
  let ?s2 = "?s1\<lparr>rt_jobs := [(''t'', ''e1'', None)]\<rparr>"
  have one: "?step idle_runtime ?s1"
    using rt_step.create [of runtime_row idle_runtime] by (simp add: db_created_def idle_runtime_def runtime_row_def)
  have two: "?step ?s1 ?s2" using rt_step.enqueue [of "\<lambda>_. ''h''" runtime_versions ?s1 "''t''" "''e1''"] by (simp add: idle_runtime_def)
  have "case fst first_task of Inr (Ran _) \<Rightarrow> True | _ \<Rightarrow> False" by code_simp
  then obtain r1 where t1: "first_task = (Inr (Ran r1), task_db first_task, snd (snd first_task))" using ran_parts by blast
  have c1: "snd (snd first_task) = []" by code_simp
  let ?s3 = "?s2\<lparr>rt_calls := rt_calls ?s2 @ map (Pair ''e1'') [], rt_db := task_db first_task\<rparr>"
  have three: "?step\<^sup>*\<^sup>* ?s2 ?s3"
    by (rule execute_once_steps [where r = r1 and fresh = "''a1''" and env = calm_env and now = 0 and src = None and t = "''t''"])
      (use t1 c1 in \<open>simp_all add: first_task_def [symmetric]\<close>, simp add: db_created_def idle_runtime_def)
  have "is_ok (decide_approval 1 ''a1'' ''approved'' [] owner (task_db first_task))" by code_simp
  then obtain x where x: "decide_approval 1 ''a1'' ''approved'' [] owner (task_db first_task) = Inr x" by (auto simp: is_ok_iff)
  let ?s4 = "?s3\<lparr>rt_db := db_decided\<rparr>"
  have four: "?step ?s3 ?s4"
    by (rule rt_step.decide [where r = "fst x"]) (use x in \<open>simp add: db_decided_def\<close>)
  let ?s5 = "?s4\<lparr>rt_jobs := (''t'', ''e1'', Some [''pay'']) # rt_jobs ?s4\<rparr>"
  have "resume_request ''t'' ''e1'' db_decided = Inr [''pay'']" by code_simp
  then have five: "?step ?s4 ?s5" by (intro rt_step.resume) simp
  have "case fst second_task of Inr (Ran _) \<Rightarrow> True | _ \<Rightarrow> False" by code_simp
  then obtain r2 where t2: "second_task = (Inr (Ran r2), task_db second_task, snd (snd second_task))" using ran_parts by blast
  let ?s6 = "?s5\<lparr>rt_calls := rt_calls ?s5 @ map (Pair ''e1'') (snd (snd second_task)), rt_db := task_db second_task\<rparr>"
  have "map ap_id (wf_approvals db_decided) = [''a1'']" by code_simp
  then have "set (map ap_id (wf_approvals db_decided)) = {''a1''}" by (simp only: list.set)
  then have fresh: "''a2'' \<notin> ap_id ` set (wf_approvals db_decided)" by (simp only: set_map) simp
  have six: "?step\<^sup>*\<^sup>* ?s5 ?s6"
    by (rule execute_once_steps [where r = r2 and fresh = "''a2''" and env = calm_env and now = 2 and src = "Some [''pay'']" and t = "''t''"])
      (use t2 fresh in \<open>simp_all add: second_task_def [symmetric]\<close>)
  have "map call_node (snd (snd second_task)) = [''pay'']" by code_simp
  then obtain c where c: "snd (snd second_task) = [c]" "call_node c = ''pay''" by auto
  have "?step\<^sup>*\<^sup>* idle_runtime ?s6" by (rule chained_steps [OF one two three four five six])
  moreover have "(''e1'', c) \<in> set (rt_calls ?s6)" using c(1) by simp
  ultimately show ?thesis using c(2) by blast
qed

theorem approval_gate_end_to_end_witness:
  "idle idle_runtime \<and> (\<exists>s c. (rt_step (\<lambda>_. ''h'') runtime_versions)\<^sup>*\<^sup>* idle_runtime s \<and> (''e1'', c) \<in> set (rt_calls s)
     \<and> call_node c = ''pay'' \<and> (\<exists>e\<in>set (wf_executions (rt_db s)). \<exists>doc p. ex_id e = ''e1'' \<and> compile_workflow (\<lambda>_. ''h'') doc = Inr p
       \<and> (\<exists>start\<in>set (plan_entry_nodes p). (start, ''pay'') \<in> (cleared_edges p (approved_nodes (rt_db s) ''e1''))\<^sup>*)))"
proof -
  have idle: "idle idle_runtime" by (simp add: idle_def idle_runtime_def)
  from sample_trace obtain s c where s: "(rt_step (\<lambda>_. ''h'') runtime_versions)\<^sup>*\<^sup>* idle_runtime s"
    "(''e1'', c) \<in> set (rt_calls s)" "call_node c = ''pay''" by blast
  from approval_gate_end_to_end [OF s(1) idle s(2)] s(3) idle s(1,2) show ?thesis by metis
qed

end
