(* ===== verification/Outbox.thy ===== *)
theory Outbox
  imports Tables Py_Json
begin

text \<open>
  \<^verbatim>\<open>infrastructure/messaging/outbox.py\<close>: the transactional outbox and its poller. A handler is a name whose
  behaviour is a parameter: given the deliveries made so far and the payload it returns or raises, so handlers
  may be stateful. Deliveries are recorded with the key of the event. Rows that another poller holds locked
  (\<^verbatim>\<open>SKIP LOCKED\<close>) are an argument of the cycle.
\<close>

section \<open>The dispatcher\<close>

type_synonym event_key = "string \<times> instant"
type_synonym delivery = "event_key \<times> string"
type_synonym behaviour = "delivery list \<Rightarrow> string \<Rightarrow> json \<Rightarrow> string option"

record outbox_event =
  oe_id :: string
  oe_occurred :: instant
  oe_type :: string
  oe_payload :: json
  oe_processed :: "instant option"
  oe_attempts :: int
  oe_error :: "string option"
  oe_available :: "instant option"

definition BATCH_SIZE :: nat where "BATCH_SIZE = 100"
definition MAX_ATTEMPTS :: int where "MAX_ATTEMPTS = 8"
definition BACKOFF_BASE_SECONDS :: int where "BACKOFF_BASE_SECONDS = 2"

record DispatchStats =
  st_claimed :: nat
  st_dispatched :: nat
  st_failed :: nat
  st_dead_lettered :: nat

record dispatcher =
  dp_handlers :: "(string, string list) adict"
  dp_wildcard :: "string list"

definition subscribe :: "string \<Rightarrow> string \<Rightarrow> dispatcher \<Rightarrow> dispatcher" where
  "subscribe event_type handler d =
     (if event_type = ''*'' then d\<lparr>dp_wildcard := dp_wildcard d @ [handler]\<rparr>
      else d\<lparr>dp_handlers := aput event_type
        ((case map_of (dp_handlers d) event_type of None \<Rightarrow> [] | Some hs \<Rightarrow> hs) @ [handler]) (dp_handlers d)\<rparr>)"

definition handlers_for :: "dispatcher \<Rightarrow> string \<Rightarrow> string list" where
  "handlers_for d event_type = (case map_of (dp_handlers d) event_type of None \<Rightarrow> [] | Some hs \<Rightarrow> hs) @ dp_wildcard d"

definition event_key :: "outbox_event \<Rightarrow> event_key" where
  "event_key r = (oe_id r, oe_occurred r)"

text \<open>\<^verbatim>\<open>for handler in handlers: await handler(row["payload"])\<close>: the first exception ends the loop.\<close>

fun run_handlers :: "behaviour \<Rightarrow> event_key \<Rightarrow> json \<Rightarrow> string list \<Rightarrow> delivery list \<Rightarrow> string option \<times> delivery list" where
  "run_handlers run k payload [] sent = (None, sent)"
| "run_handlers run k payload (h # hs) sent =
     (case run sent h payload of
        None \<Rightarrow> run_handlers run k payload hs (sent @ [(k, h)])
      | Some err \<Rightarrow> (Some err, sent @ [(k, h)]))"

definition claimable :: "instant \<Rightarrow> (event_key \<Rightarrow> bool) \<Rightarrow> outbox_event \<Rightarrow> bool" where
  "claimable now locked r \<longleftrightarrow> oe_processed r = None
     \<and> (case oe_available r of None \<Rightarrow> True | Some t \<Rightarrow> t \<le> now) \<and> \<not> locked (event_key r)"

definition claim :: "nat \<Rightarrow> instant \<Rightarrow> (event_key \<Rightarrow> bool) \<Rightarrow> outbox_event list \<Rightarrow> outbox_event list" where
  "claim batch now locked rows = take batch (sort_key oe_occurred (filter (claimable now locked) rows))"

definition failed_row :: "instant \<Rightarrow> string \<Rightarrow> outbox_event \<Rightarrow> outbox_event" where
  "failed_row now err r =
     (let attempts = oe_attempts r + 1; terminal = (attempts \<ge> MAX_ATTEMPTS) in
      r\<lparr>oe_attempts := attempts, oe_error := Some (take 2000 err),
        oe_available := Some (now + seconds (BACKOFF_BASE_SECONDS ^ nat (min attempts 6))),
        oe_processed := (if terminal then Some now else None)\<rparr>)"

record poller =
  po_rows :: "outbox_event list"
  po_log :: "delivery list"
  po_stats :: DispatchStats

definition dispatch_row :: "dispatcher \<Rightarrow> behaviour \<Rightarrow> instant \<Rightarrow> poller \<Rightarrow> outbox_event \<Rightarrow> poller" where
  "dispatch_row d run now p r =
     (case run_handlers run (event_key r) (oe_payload r) (handlers_for d (oe_type r)) (po_log p) of
        (Some err, sent) \<Rightarrow>
          let r' = failed_row now err r; st = po_stats p in
          p\<lparr>po_rows := set_row event_key r' (po_rows p), po_log := sent,
            po_stats := st\<lparr>st_failed := st_failed st + 1,
              st_dead_lettered := st_dead_lettered st + (if oe_processed r' \<noteq> None then 1 else 0)\<rparr>\<rparr>
      | (None, sent) \<Rightarrow>
          p\<lparr>po_rows := set_row event_key (r\<lparr>oe_processed := Some now\<rparr>) (po_rows p), po_log := sent,
            po_stats := (po_stats p)\<lparr>st_dispatched := st_dispatched (po_stats p) + 1\<rparr>\<rparr>)"

definition run_once :: "dispatcher \<Rightarrow> nat \<Rightarrow> behaviour \<Rightarrow> instant \<Rightarrow> (event_key \<Rightarrow> bool) \<Rightarrow> outbox_event list \<Rightarrow> delivery list \<Rightarrow> poller" where
  "run_once d batch run now locked rows sent =
     (let claimed = claim batch now locked rows in
      foldl (dispatch_row d run now)
        \<lparr>po_rows = rows, po_log = sent,
         po_stats = \<lparr>st_claimed = length claimed, st_dispatched = 0, st_failed = 0, st_dead_lettered = 0\<rparr>\<rparr> claimed)"

section \<open>What an event has been through\<close>

definition delivered_to_all :: "dispatcher \<Rightarrow> delivery list \<Rightarrow> outbox_event \<Rightarrow> bool" where
  "delivered_to_all d sent r \<longleftrightarrow>
     (\<exists>before after. sent = before @ map (Pair (event_key r)) (handlers_for d (oe_type r)) @ after)"

definition event_ok :: "dispatcher \<Rightarrow> delivery list \<Rightarrow> outbox_event \<Rightarrow> bool" where
  "event_ok d sent r \<longleftrightarrow> 0 \<le> oe_attempts r \<and> oe_attempts r \<le> MAX_ATTEMPTS
     \<and> (oe_processed r = None \<longrightarrow> oe_attempts r < MAX_ATTEMPTS)
     \<and> (oe_processed r \<noteq> None \<longrightarrow> oe_attempts r = MAX_ATTEMPTS \<or> delivered_to_all d sent r)
     \<and> (distinct (handlers_for d (oe_type r)) \<longrightarrow> (\<forall>h. int (count_list sent (event_key r, h))
          \<le> oe_attempts r + (if oe_processed r \<noteq> None \<and> oe_attempts r < MAX_ATTEMPTS then 1 else 0)))"

lemma run_handlers_log:
  assumes "run_handlers run k payload hs sent = (res, sent')"
  obtains tried rest where "hs = tried @ rest" "sent' = sent @ map (Pair k) tried" "res = None \<Longrightarrow> rest = []"
  using assms
proof (induction hs arbitrary: sent thesis)
  case Nil
  then show ?case by simp
next
  case (Cons h hs)
  show ?case
  proof (cases "run sent h payload")
    case None
    then have "run_handlers run k payload hs (sent @ [(k, h)]) = (res, sent')" using Cons.prems(2) by simp
    then obtain tried rest where "hs = tried @ rest" "sent' = (sent @ [(k, h)]) @ map (Pair k) tried" "res = None \<Longrightarrow> rest = []"
      using Cons.IH by blast
    then show ?thesis using Cons.prems(1) [of "h # tried" rest] by simp
  next
    case (Some err)
    then show ?thesis using Cons.prems by (intro Cons.prems(1) [of "[h]" hs]) auto
  qed
qed

lemma delivered_more: "delivered_to_all d sent r \<Longrightarrow> delivered_to_all d (sent @ extra) r"
  unfolding delivered_to_all_def by (metis append.assoc)

lemma count_other: "k \<noteq> k' \<Longrightarrow> count_list (map (Pair k') hs) (k, h) = 0"
  by (induction hs) auto

lemma count_own: "distinct hs \<Longrightarrow> count_list (map (Pair k) hs) (k, h) \<le> 1"
  by (induction hs) (auto simp: count_list_0_iff)

text \<open>Deliveries of one event leave the account of every other event as it is.\<close>

lemma event_ok_other: "event_ok d sent r \<Longrightarrow> event_key r \<noteq> k \<Longrightarrow> event_ok d (sent @ map (Pair k) hs) r"
  unfolding event_ok_def by (auto simp: count_list_append count_other delivered_more)

lemma count_attempt:
  assumes "distinct hs"
  shows "int (count_list (sent @ map (Pair k) hs) (k, h)) \<le> int (count_list sent (k, h)) + 1"
  using count_own [OF assms, of k h] by (simp add: count_list_append)

lemma event_ok_count:
  assumes "event_ok d sent r" and "oe_processed r = None" and "distinct (handlers_for d (oe_type r))"
  shows "int (count_list sent (event_key r, h)) \<le> oe_attempts r"
  using assms unfolding event_ok_def by simp

lemma event_ok_success:
  assumes "event_ok d sent r" and "oe_processed r = None"
  shows "event_ok d (sent @ map (Pair (event_key r)) (handlers_for d (oe_type r))) (r\<lparr>oe_processed := Some now\<rparr>)"
proof -
  let ?hs = "handlers_for d (oe_type r)" and ?r = "r\<lparr>oe_processed := Some now\<rparr>"
  have key: "event_key ?r = event_key r" by (simp add: event_key_def)
  have att: "0 \<le> oe_attempts r" "oe_attempts r < MAX_ATTEMPTS" using assms by (auto simp: event_ok_def)
  have "delivered_to_all d (sent @ map (Pair (event_key r)) ?hs) ?r"
    unfolding delivered_to_all_def key by (intro exI [of _ sent] exI [of _ "[]"]) simp
  moreover have "int (count_list (sent @ map (Pair (event_key r)) ?hs) (event_key r, h)) \<le> oe_attempts r + 1" if "distinct ?hs" for h
    using count_attempt [OF that, of sent "event_key r" h] event_ok_count [OF assms that, of h] by simp
  ultimately show ?thesis using att unfolding event_ok_def key by simp
qed

lemma event_ok_failure:
  assumes "event_ok d sent r" and "oe_processed r = None" and "handlers_for d (oe_type r) = tried @ rest"
  shows "event_ok d (sent @ map (Pair (event_key r)) tried) (failed_row now err r)"
proof -
  let ?r = "failed_row now err r"
  have r: "event_key ?r = event_key r" "oe_type ?r = oe_type r" "oe_attempts ?r = oe_attempts r + 1"
    "oe_processed ?r = (if oe_attempts r + 1 \<ge> MAX_ATTEMPTS then Some now else None)"
    by (simp_all add: event_key_def failed_row_def Let_def)
  have att: "0 \<le> oe_attempts r" "oe_attempts r < MAX_ATTEMPTS" using assms(1,2) by (auto simp: event_ok_def)
  have "int (count_list (sent @ map (Pair (event_key r)) tried) (event_key r, h)) \<le> oe_attempts r + 1"
    if "distinct (handlers_for d (oe_type r))" for h
  proof -
    have "distinct tried" using that assms(3) by simp
    from count_attempt [OF this, of sent "event_key r" h] event_ok_count [OF assms(1,2) that, of h] show ?thesis by simp
  qed
  then show ?thesis using att unfolding event_ok_def r by simp
qed

section \<open>Cycles\<close>

definition rows_ok :: "dispatcher \<Rightarrow> outbox_event list \<Rightarrow> delivery list \<Rightarrow> bool" where
  "rows_ok d rows sent \<longleftrightarrow> distinct (map event_key rows) \<and> (\<forall>r\<in>set rows. event_ok d sent r)"

lemma event_key_updates [simp]:
  "event_key (r\<lparr>oe_processed := x\<rparr>) = event_key r" "event_key (failed_row now err r) = event_key r"
  by (simp_all add: event_key_def failed_row_def Let_def)

lemma rows_ok_set_row:
  assumes "rows_ok d rows sent" and "event_ok d (sent @ map (Pair (event_key r)) hs) r"
  shows "rows_ok d (set_row event_key r rows) (sent @ map (Pair (event_key r)) hs)"
proof -
  have "event_ok d (sent @ map (Pair (event_key r)) hs) x" if "x \<in> set (set_row event_key r rows)" for x
    using set_row_cases [OF that] assms event_ok_other [of d sent x "event_key r" hs] by (auto simp: rows_ok_def)
  then show ?thesis using assms(1) by (simp add: rows_ok_def)
qed

lemma dispatch_row_cases:
  obtains (success) "dispatch_row d run now p r = p\<lparr>po_rows := set_row event_key (r\<lparr>oe_processed := Some now\<rparr>) (po_rows p),
        po_log := po_log p @ map (Pair (event_key r)) (handlers_for d (oe_type r)),
        po_stats := (po_stats p)\<lparr>st_dispatched := st_dispatched (po_stats p) + 1\<rparr>\<rparr>"
  | (failure) err tried rest st where "handlers_for d (oe_type r) = tried @ rest"
      "dispatch_row d run now p r = p\<lparr>po_rows := set_row event_key (failed_row now err r) (po_rows p),
        po_log := po_log p @ map (Pair (event_key r)) tried, po_stats := st\<rparr>"
proof -
  obtain res sent where eq: "run_handlers run (event_key r) (oe_payload r) (handlers_for d (oe_type r)) (po_log p) = (res, sent)"
    by force
  then obtain tried rest where t: "handlers_for d (oe_type r) = tried @ rest" "sent = po_log p @ map (Pair (event_key r)) tried"
    "res = None \<longrightarrow> rest = []" by (rule run_handlers_log) auto
  show thesis
  proof (cases res)
    case None
    then show thesis using eq t by (intro success) (simp add: dispatch_row_def)
  next
    case (Some err)
    then show thesis using eq t by (intro failure) (auto simp: dispatch_row_def Let_def)
  qed
qed

lemma rows_ok_dispatch:
  assumes "rows_ok d (po_rows p) (po_log p)" and "r \<in> set (po_rows p)" and "oe_processed r = None"
  shows "rows_ok d (po_rows (dispatch_row d run now p r)) (po_log (dispatch_row d run now p r))"
proof -
  have ok: "event_ok d (po_log p) r" using assms(1,2) by (simp add: rows_ok_def)
  show ?thesis
  proof (cases rule: dispatch_row_cases [of d run now p r])
    case success
    then show ?thesis using rows_ok_set_row [OF assms(1) , of "r\<lparr>oe_processed := Some now\<rparr>"] event_ok_success [OF ok assms(3)] by simp
  next
    case (failure err tried rest st)
    then show ?thesis
      using rows_ok_set_row [OF assms(1), of "failed_row now err r"] event_ok_failure [OF ok assms(3) failure(1)] by simp
  qed
qed

lemma dispatch_row_others:
  assumes "x \<in> set (po_rows p)" and "event_key x \<noteq> event_key r"
  shows "x \<in> set (po_rows (dispatch_row d run now p r))"
  by (cases rule: dispatch_row_cases [of d run now p r]) (use assms in \<open>simp_all add: set_row_old\<close>)

lemma claim_rows:
  "set (claim batch now locked rows) \<subseteq> {r \<in> set rows. claimable now locked r}"
  "distinct (map event_key rows) \<Longrightarrow> distinct (map event_key (claim batch now locked rows))"
proof -
  show "set (claim batch now locked rows) \<subseteq> {r \<in> set rows. claimable now locked r}"
    unfolding claim_def using set_take_subset by fastforce
  assume "distinct (map event_key rows)"
  then have "inj_on event_key (set rows)" "distinct rows" by (simp_all add: distinct_map)
  then have "distinct (sort_key oe_occurred (filter (claimable now locked) rows))"
    "inj_on event_key (set (sort_key oe_occurred (filter (claimable now locked) rows)))" by (auto intro: inj_on_subset)
  then show "distinct (map event_key (claim batch now locked rows))"
    unfolding claim_def take_map [symmetric] by (simp add: distinct_map)
qed

lemma rows_ok_fold:
  assumes "rows_ok d (po_rows p) (po_log p)" and "\<forall>r\<in>set rs. r \<in> set (po_rows p) \<and> oe_processed r = None"
    and "distinct (map event_key rs)"
  shows "rows_ok d (po_rows (foldl (dispatch_row d run now) p rs)) (po_log (foldl (dispatch_row d run now) p rs))"
  using assms
proof (induction rs arbitrary: p)
  case Nil
  then show ?case by simp
next
  case (Cons r rs)
  have "rows_ok d (po_rows (dispatch_row d run now p r)) (po_log (dispatch_row d run now p r))"
    using Cons.prems by (intro rows_ok_dispatch) simp_all
  moreover have "\<forall>x\<in>set rs. x \<in> set (po_rows (dispatch_row d run now p r)) \<and> oe_processed x = None"
    using Cons.prems dispatch_row_others by (metis distinct.simps(2) image_eqI list.set_intros(2) list.set_map list.simps(9))
  ultimately show ?case using Cons.IH Cons.prems(3) by simp
qed

lemma rows_ok_run_once:
  assumes "rows_ok d rows sent"
  shows "rows_ok d (po_rows (run_once d batch run now locked rows sent)) (po_log (run_once d batch run now locked rows sent))"
  unfolding run_once_def Let_def
  by (rule rows_ok_fold) (use assms claim_rows [where batch = batch and now = now and locked = locked and rows = rows] in \<open>auto simp: rows_ok_def claimable_def\<close>)

section \<open>Runs of publishers and pollers\<close>

datatype outbox_op = Publish outbox_event | Poll instant "event_key \<Rightarrow> bool" behaviour

text \<open>An insert with a key that is in use violates the primary key and is rolled back.\<close>

fun outbox_step :: "dispatcher \<Rightarrow> outbox_event list \<times> delivery list \<Rightarrow> outbox_op \<Rightarrow> outbox_event list \<times> delivery list" where
  "outbox_step d (rows, sent) (Publish r) =
     (if event_key r \<in> event_key ` set rows \<or> event_key r \<in> fst ` set sent then (rows, sent)
      else (rows @ [r\<lparr>oe_processed := None, oe_attempts := 0, oe_error := None, oe_available := None\<rparr>], sent))"
| "outbox_step d (rows, sent) (Poll now locked run) =
     (let p = run_once d BATCH_SIZE run now locked rows sent in (po_rows p, po_log p))"

lemma rows_ok_step:
  assumes "rows_ok d (fst s) (snd s)"
  shows "rows_ok d (fst (outbox_step d s x)) (snd (outbox_step d s x))"
proof (cases x)
  case (Publish r)
  let ?r = "r\<lparr>oe_processed := None, oe_attempts := 0, oe_error := None, oe_available := None\<rparr>"
  have "event_ok d (snd s) ?r" if "event_key r \<notin> fst ` set (snd s)"
  proof -
    have "(event_key r, h) \<notin> set (snd s)" for h using that by force
    then have "count_list (snd s) (event_key r, h) = 0" for h by (simp add: count_list_0_iff)
    then show ?thesis by (simp add: event_ok_def MAX_ATTEMPTS_def event_key_def)
  qed
  then show ?thesis using assms Publish by (cases s) (auto simp: rows_ok_def event_key_def)
next
  case (Poll now locked run)
  then show ?thesis using rows_ok_run_once [OF assms] by (cases s) (simp add: Let_def)
qed

lemma rows_ok_run: "rows_ok d rows sent \<Longrightarrow> rows_ok d (fst (foldl (outbox_step d) (rows, sent) ops)) (snd (foldl (outbox_step d) (rows, sent) ops))"
  by (induction ops rule: rev_induct) (simp_all add: rows_ok_step)

section \<open>Draining the backlog\<close>

definition pending :: "outbox_event list \<Rightarrow> outbox_event list" where
  "pending rows = filter (\<lambda>r. oe_processed r = None) rows"

lemma pending_set_row:
  assumes "distinct (map event_key rows)" and "r \<in> set rows" and "oe_processed r = None" and "event_key r' = event_key r"
    and "oe_processed r' \<noteq> None"
  shows "Suc (length (pending (set_row event_key r' rows))) = length (pending rows)"
  using assms
proof (induction rows)
  case Nil
  then show ?case by simp
next
  case (Cons x rows)
  show ?case
  proof (cases "x = r")
    case True
    then have "set_row event_key r' rows = rows"
      using Cons.prems(1,4) unfolding set_row_def by (intro map_idI) (auto simp: image_iff)
    then show ?thesis using True Cons.prems by (simp add: pending_def set_row_def)
  next
    case False
    then have "r \<in> set rows" using Cons.prems(2) by simp
    then have "event_key x \<noteq> event_key r" using Cons.prems(1) by force
    then show ?thesis using Cons.IH Cons.prems \<open>r \<in> set rows\<close> by (simp add: pending_def set_row_def)
  qed
qed

lemma run_handlers_calm: "(\<And>l h. run l h payload = None) \<Longrightarrow> fst (run_handlers run k payload hs sent) = None"
  by (induction hs arbitrary: sent) simp_all

lemma dispatch_calm:
  assumes "\<forall>l h x. run l h x = None"
  shows "po_rows (dispatch_row d run now p r) = set_row event_key (r\<lparr>oe_processed := Some now\<rparr>) (po_rows p)"
proof -
  obtain res sent where eq: "run_handlers run (event_key r) (oe_payload r) (handlers_for d (oe_type r)) (po_log p) = (res, sent)"
    by force
  then have "res = None" using run_handlers_calm [of run "oe_payload r"] assms by (metis fst_conv)
  then show ?thesis using eq by (simp add: dispatch_row_def)
qed

text \<open>After a calm batch every row is either untouched or processed.\<close>

lemma fold_calm:
  assumes "\<forall>l h x. run l h x = None" and "distinct (map event_key (po_rows p))"
    and "\<forall>r\<in>set rs. r \<in> set (po_rows p) \<and> oe_processed r = None" and "distinct (map event_key rs)"
  shows "length (pending (po_rows (foldl (dispatch_row d run now) p rs))) + length rs = length (pending (po_rows p))
    \<and> map event_key (po_rows (foldl (dispatch_row d run now) p rs)) = map event_key (po_rows p)
    \<and> set (pending (po_rows (foldl (dispatch_row d run now) p rs))) \<subseteq> set (pending (po_rows p))"
  using assms(2-4)
proof (induction rs arbitrary: p)
  case Nil
  then show ?case by simp
next
  case (Cons r rs)
  let ?p = "dispatch_row d run now p r" and ?r = "r\<lparr>oe_processed := Some now\<rparr>"
  have rows: "po_rows ?p = set_row event_key ?r (po_rows p)" by (rule dispatch_calm [OF assms(1)])
  have keys: "map event_key (po_rows ?p) = map event_key (po_rows p)" by (simp add: rows)
  have one: "Suc (length (pending (po_rows ?p))) = length (pending (po_rows p))"
    unfolding rows by (rule pending_set_row [where r = r]) (use Cons.prems in simp_all)
  have sub: "set (pending (po_rows ?p)) \<subseteq> set (pending (po_rows p))"
    unfolding rows by (auto simp: pending_def dest!: set_row_cases)
  have rest: "\<forall>x\<in>set rs. x \<in> set (po_rows ?p) \<and> oe_processed x = None"
    using Cons.prems dispatch_row_others by (metis distinct.simps(2) image_eqI list.set_intros(2) list.set_map list.simps(9))
  have "distinct (map event_key rs)" "distinct (map event_key (po_rows ?p))" using Cons.prems(1,3) keys by simp_all
  from Cons.IH [OF this(2) rest this(1)] one sub keys show ?case by auto
qed

lemma claim_all:
  assumes "\<forall>r\<in>set (pending rows). \<forall>t. oe_available r = Some t \<longrightarrow> t \<le> now"
  shows "length (claim batch now (\<lambda>_. False) rows) = min (length (pending rows)) batch"
proof -
  have "filter (claimable now (\<lambda>_. False)) rows = pending rows"
    unfolding pending_def by (rule filter_cong) (use assms in \<open>auto simp: claimable_def pending_def split: option.splits\<close>)
  then show ?thesis by (simp add: claim_def)
qed

lemma run_once_calm:
  assumes "\<forall>l h x. run l h x = None" and "distinct (map event_key rows)"
    and "\<forall>r\<in>set (pending rows). \<forall>t. oe_available r = Some t \<longrightarrow> t \<le> now"
  shows "let rows' = po_rows (run_once d batch run now (\<lambda>_. False) rows sent) in
    length (pending rows') = length (pending rows) - batch \<and> map event_key rows' = map event_key rows
    \<and> set (pending rows') \<subseteq> set (pending rows)"
proof -
  let ?p = "\<lparr>po_rows = rows, po_log = sent,
    po_stats = \<lparr>st_claimed = length (claim batch now (\<lambda>_. False) rows), st_dispatched = 0, st_failed = 0, st_dead_lettered = 0\<rparr>\<rparr>"
  have "\<forall>r\<in>set (claim batch now (\<lambda>_. False) rows). r \<in> set (po_rows ?p) \<and> oe_processed r = None"
    using claim_rows(1) [where batch = batch and now = now and rows = rows and locked = "\<lambda>_. False"] by (auto simp: claimable_def)
  from fold_calm [OF assms(1) _ this claim_rows(2) [OF assms(2)], of d now] assms(2) claim_all [OF assms(3), of batch]
  show ?thesis unfolding run_once_def Let_def by auto
qed

section \<open>Properties\<close>

text \<open>C19. At-least-once delivery: whatever events are published and however the handlers behave in whatever sequence of
  polling cycles, an event leaves the outbox only after every subscribed handler has returned for it, in the
  order of subscription, or after eight failed attempts; no handler ever sees the same event more than eight
  times.\<close>

theorem outbox_at_least_once:
  assumes "foldl (outbox_step d) ([], []) ops = (rows, sent)" and "r \<in> set rows"
  shows "0 \<le> oe_attempts r \<and> oe_attempts r \<le> 8
    \<and> (oe_processed r = None \<longrightarrow> oe_attempts r < 8)
    \<and> (oe_processed r \<noteq> None \<longrightarrow> oe_attempts r = 8 \<or> delivered_to_all d sent r)
    \<and> (distinct (handlers_for d (oe_type r)) \<longrightarrow> (\<forall>h. count_list sent (event_key r, h) \<le> 8))"
proof -
  have "rows_ok d [] []" by (simp add: rows_ok_def)
  from rows_ok_run [OF this, of ops] assms have ok: "event_ok d sent r" by (simp add: rows_ok_def)
  have "count_list sent (event_key r, h) \<le> 8" if "distinct (handlers_for d (oe_type r))" for h
  proof -
    have "int (count_list sent (event_key r, h))
        \<le> oe_attempts r + (if oe_processed r \<noteq> None \<and> oe_attempts r < MAX_ATTEMPTS then 1 else 0)"
      using ok that unfolding event_ok_def by blast
    also have "\<dots> \<le> 8" using ok by (auto simp: event_ok_def MAX_ATTEMPTS_def)
    finally show ?thesis by simp
  qed
  then show ?thesis using ok by (auto simp: event_ok_def MAX_ATTEMPTS_def)
qed

definition sample_event_row :: outbox_event where
  "sample_event_row = \<lparr>oe_id = ''e'', oe_occurred = 0, oe_type = ''lead.created'', oe_payload = JNull, oe_processed = None,
     oe_attempts = 0, oe_error = None, oe_available = None\<rparr>"

definition sample_dispatcher :: dispatcher where
  "sample_dispatcher = subscribe ''*'' ''trigger'' (subscribe ''lead.created'' ''notify'' \<lparr>dp_handlers = [], dp_wildcard = []\<rparr>)"

theorem outbox_at_least_once_witness:
  "\<exists>rows sent r. foldl (outbox_step sample_dispatcher) ([], [])
       [Publish sample_event_row, Poll 1 (\<lambda>_. False) (\<lambda>_ _ _. Some ''x''), Poll 9000000 (\<lambda>_. False) (\<lambda>_ _ _. None)] = (rows, sent)
     \<and> r \<in> set rows \<and> oe_processed r \<noteq> None \<and> delivered_to_all sample_dispatcher sent r"
proof -
  let ?s = "foldl (outbox_step sample_dispatcher) ([], [])
       [Publish sample_event_row, Poll 1 (\<lambda>_. False) (\<lambda>_ _ _. Some ''x''), Poll 9000000 (\<lambda>_. False) (\<lambda>_ _ _. None)]"
  have "map (\<lambda>r. (oe_processed r, oe_attempts r)) (fst ?s) = [(Some 9000000, 1)]" by code_simp
  then obtain r where r: "fst ?s = [r]" "oe_processed r = Some 9000000" "oe_attempts r = 1" by auto
  then have s: "?s = ([r], snd ?s)" by (metis prod.collapse)
  from outbox_at_least_once [OF s] r(2,3) have "delivered_to_all sample_dispatcher (snd ?s) r" by simp
  with s r(2) show ?thesis by (intro exI [of _ "[r]"] exI [of _ "snd ?s"] exI [of _ r]) simp
qed

text \<open>C20. The backlog drains: when no handler fails and every pending event is available, polling once per hundred
  pending events leaves no event unprocessed.\<close>

theorem outbox_drains:
  assumes "\<forall>l h x. run l h x = None" and "distinct (map event_key rows)"
    and "\<forall>r\<in>set (pending rows). \<forall>t. oe_available r = Some t \<longrightarrow> (\<forall>now\<in>set nows. t \<le> now)"
    and "length (pending rows) \<le> BATCH_SIZE * length nows"
  shows "pending (fst (foldl (outbox_step d) (rows, sent) (map (\<lambda>now. Poll now (\<lambda>_. False) run) nows))) = []"
  using assms(2-4)
proof (induction nows arbitrary: rows sent)
  case Nil
  then show ?case by simp
next
  case (Cons now nows)
  let ?p = "run_once d BATCH_SIZE run now (\<lambda>_. False) rows sent"
  have "\<forall>r\<in>set (pending rows). \<forall>t. oe_available r = Some t \<longrightarrow> t \<le> now" using Cons.prems(2) by simp
  from run_once_calm [OF assms(1) Cons.prems(1) this, of d BATCH_SIZE sent]
  have p: "length (pending (po_rows ?p)) = length (pending rows) - BATCH_SIZE" "map event_key (po_rows ?p) = map event_key rows"
    "set (pending (po_rows ?p)) \<subseteq> set (pending rows)" by (simp_all add: Let_def)
  have "pending (fst (foldl (outbox_step d) (po_rows ?p, po_log ?p) (map (\<lambda>now. Poll now (\<lambda>_. False) run) nows))) = []"
    by (rule Cons.IH) (use p Cons.prems in auto)
  then show ?case by (simp add: Let_def)
qed

theorem outbox_drains_witness:
  "pending (fst (foldl (outbox_step sample_dispatcher) ([sample_event_row], []) (map (\<lambda>now. Poll now (\<lambda>_. False) (\<lambda>_ _ _. None)) [1]))) = []"
  by (rule outbox_drains) (simp_all add: sample_event_row_def pending_def BATCH_SIZE_def)

end
