(* ===== verification/Rate_Limit.thy ===== *)
theory Rate_Limit
  imports Prelude
begin

text \<open>
  \<^verbatim>\<open>infrastructure/caching/rate_limit.py\<close>: the sliding-window limiter. Its Lua script runs atomically on one
  sorted set per policy and subject; the commands are modelled on that set, a list of scores and members
  without two entries for one member. Times are milliseconds. The key expires one window after the last
  admission, when every entry is outside the window anyway, so expiry is not represented. An unreachable
  server is \<^verbatim>\<open>None\<close>.
\<close>

section \<open>The policies\<close>

record LimitPolicy =
  lp_name :: string
  lp_limit :: int
  lp_window_seconds :: int

record LimitDecision =
  ld_allowed :: bool
  ld_remaining :: int
  ld_retry_after_seconds :: int
  ld_policy :: string

definition policy :: "string \<Rightarrow> int \<Rightarrow> int \<Rightarrow> LimitPolicy" where
  "policy name limit window = \<lparr>lp_name = name, lp_limit = limit, lp_window_seconds = window\<rparr>"

definition POLICIES :: "LimitPolicy list" where
  "POLICIES = [policy ''login_ip'' 5 900, policy ''login_account'' 20 3600, policy ''refresh_user'' 10 60,
     policy ''google_ip'' 5 60, policy ''mfa_user'' 5 300, policy ''password_reset_email'' 3 3600,
     policy ''api_user_second'' 60 1, policy ''api_user_minute'' 600 60, policy ''api_user_hour'' 10000 3600,
     policy ''inbox_read'' 30 1, policy ''inbox_send'' 10 1, policy ''socket_connect'' 5 60,
     policy ''lead_bulk_tenant'' 10 60, policy ''contact_import_tenant'' 5 3600, policy ''export_user'' 5 60,
     policy ''file_user'' 30 60, policy ''developer_key'' 300 60, policy ''developer_key_paid'' 3000 60,
     policy ''ai_copilot_user'' 20 60, policy ''ai_qualify_tenant'' 30 60, policy ''ai_generate_user'' 30 60,
     policy ''ai_summarize_user'' 20 60, policy ''public_form_ip'' 10 60, policy ''webchat_session_ip'' 5 60]"

section \<open>The script\<close>

type_synonym zset = "(int \<times> string) list"

definition zremrangebyscore :: "int \<Rightarrow> int \<Rightarrow> zset \<Rightarrow> zset" where
  "zremrangebyscore low high z = filter (\<lambda>e. \<not> (low \<le> fst e \<and> fst e \<le> high)) z"

definition zadd :: "int \<Rightarrow> string \<Rightarrow> zset \<Rightarrow> zset" where
  "zadd score member z = (score, member) # filter (\<lambda>e. snd e \<noteq> member) z"

definition lowest_score :: "zset \<Rightarrow> int" where
  "lowest_score z = Min (set (map fst z))"

text \<open>The result triple of the script and the set it leaves.\<close>

definition limit_script :: "int \<Rightarrow> int \<Rightarrow> int \<Rightarrow> string \<Rightarrow> zset \<Rightarrow> (int \<times> int \<times> int) \<times> zset" where
  "limit_script now window limit member z =
     (let z1 = zremrangebyscore 0 (now - window) z; count = int (length z1) in
      if count < limit then ((1, limit - count - 1, 0), zadd now member z1)
      else ((0, 0, window - (now - lowest_score z1)), z1))"

definition eval_limit :: "LimitPolicy \<Rightarrow> int \<Rightarrow> string \<Rightarrow> zset option \<Rightarrow> LimitDecision \<times> zset option" where
  "eval_limit p now_ms member z =
     (case z of
        None \<Rightarrow> (\<lparr>ld_allowed = True, ld_remaining = lp_limit p, ld_retry_after_seconds = 0, ld_policy = lp_name p\<rparr>, None)
      | Some z \<Rightarrow>
          (case limit_script now_ms (lp_window_seconds p * 1000) (lp_limit p) member z of
             ((a, remaining, retry), z') \<Rightarrow>
               (\<lparr>ld_allowed = (a \<noteq> 0), ld_remaining = remaining,
                 ld_retry_after_seconds = (if a \<noteq> 0 then 0 else max 1 (retry div 1000)), ld_policy = lp_name p\<rparr>, Some z')))"

definition check_limit :: "string \<Rightarrow> int \<Rightarrow> string \<Rightarrow> zset option \<Rightarrow> (LimitDecision \<times> zset option) option" where
  "check_limit policy_name now_ms member z =
     (case List.find (\<lambda>p. lp_name p = policy_name) POLICIES of
        None \<Rightarrow> None | Some p \<Rightarrow> Some (eval_limit p now_ms member z))"

section \<open>Request sequences\<close>

text \<open>
  Requests of one subject under one policy, as times, member names and whether the server answers. The times of those
  admitted, marked when the server counted them, and the set left behind; a request whose call fails does not touch it.
\<close>

fun serve :: "LimitPolicy \<Rightarrow> zset \<Rightarrow> (int \<times> string \<times> bool) list \<Rightarrow> (int \<times> bool) list \<times> zset" where
  "serve p z [] = ([], z)"
| "serve p z ((now, member, up) # reqs) =
     (case eval_limit p now member (if up then Some z else None) of
        (dec, z') \<Rightarrow> (case serve p (case z' of None \<Rightarrow> z | Some z1 \<Rightarrow> z1) reqs of
          (admitted, z2) \<Rightarrow> ((if ld_allowed dec then [(now, up)] else []) @ admitted, z2)))"

definition counted :: "(int \<times> bool) list \<Rightarrow> int list" where
  "counted admitted = map fst (filter snd admitted)"

definition within_window :: "int \<Rightarrow> int \<Rightarrow> int list \<Rightarrow> nat" where
  "within_window t w ts = length (filter (\<lambda>x. t - w < x \<and> x \<le> t) ts)"

text \<open>The set holds every admission of the current window, under different members.\<close>

definition tracks :: "int \<Rightarrow> int \<Rightarrow> zset \<Rightarrow> int list \<Rightarrow> bool" where
  "tracks t w z past \<longleftrightarrow> distinct (map snd z) \<and> (\<forall>e\<in>set z. 0 \<le> fst e \<and> fst e \<le> t) \<and> (\<forall>x\<in>set past. x \<le> t)
     \<and> (\<forall>t'\<ge>t. within_window t' w past = within_window t' w (map fst z))"

lemma within_window_Nil [simp]: "within_window t w [] = 0"
  by (simp add: within_window_def)

lemma within_window_Cons: "within_window t w (x # xs) = (if t - w < x \<and> x \<le> t then 1 else 0) + within_window t w xs"
  by (simp add: within_window_def)

lemma within_window_append: "within_window t w (xs @ ys) = within_window t w xs + within_window t w ys"
  by (simp add: within_window_def)

lemma within_window_zrem:
  "t' - w \<ge> t - w \<Longrightarrow> (\<forall>e\<in>set z. 0 \<le> fst e) \<Longrightarrow>
    within_window t' w (map fst (zremrangebyscore 0 (t - w) z)) = within_window t' w (map fst z)"
  by (induction z) (auto simp: within_window_def zremrangebyscore_def)

lemma zrem_all_within:
  assumes "\<forall>e\<in>set z. 0 \<le> fst e \<and> fst e \<le> t"
  shows "within_window t w (map fst (zremrangebyscore 0 (t - w) z)) = length (zremrangebyscore 0 (t - w) z)"
  using assms by (induction z) (auto simp: within_window_def zremrangebyscore_def)

lemma zadd_new: "m \<notin> snd ` set z \<Longrightarrow> zadd s m z = (s, m) # z"
  unfolding zadd_def by (simp add: filter_id_conv) (metis imageI)

lemma zrem_subset: "set (zremrangebyscore a b z) \<subseteq> set z"
  by (auto simp: zremrangebyscore_def)

lemma zrem_distinct: "distinct (map snd z) \<Longrightarrow> distinct (map snd (zremrangebyscore a b z))"
  by (simp add: zremrangebyscore_def distinct_map_filter)

text \<open>One request: the set keeps tracking, and an admission finds fewer than the limit in its window.\<close>

lemma limit_step:
  assumes tr: "tracks t0 (lp_window_seconds p * 1000) z past" and "t0 \<le> now" and "0 \<le> now" and "0 < lp_window_seconds p"
    and new: "m \<notin> snd ` set z"
  obtains (admitted) z' where "eval_limit p now m (Some z) = (\<lparr>ld_allowed = True,
        ld_remaining = lp_limit p - int (within_window now (lp_window_seconds p * 1000) past) - 1,
        ld_retry_after_seconds = 0, ld_policy = lp_name p\<rparr>, Some z')"
      "int (within_window now (lp_window_seconds p * 1000) past) < lp_limit p"
      "tracks now (lp_window_seconds p * 1000) z' (past @ [now])" "snd ` set z' \<subseteq> insert m (snd ` set z)"
  | (refused) z' dec where "eval_limit p now m (Some z) = (dec, Some z')" "\<not> ld_allowed dec"
      "lp_limit p \<le> int (within_window now (lp_window_seconds p * 1000) past)"
      "tracks now (lp_window_seconds p * 1000) z' past" "snd ` set z' \<subseteq> snd ` set z"
proof -
  let ?w = "lp_window_seconds p * 1000"
  let ?z1 = "zremrangebyscore 0 (now - ?w) z"
  have scores: "\<forall>e\<in>set z. 0 \<le> fst e \<and> fst e \<le> now" using tr assms(2) by (auto simp: tracks_def)
  have count: "length ?z1 = within_window now ?w past"
    using zrem_all_within [OF scores] within_window_zrem [of now ?w now z] scores tr assms(2) by (simp add: tracks_def)
  have tr1: "tracks now ?w ?z1 past"
    unfolding tracks_def
  proof (intro conjI allI impI)
    show "distinct (map snd ?z1)" using tr zrem_distinct by (simp add: tracks_def)
    show "\<forall>e\<in>set ?z1. 0 \<le> fst e \<and> fst e \<le> now" using scores zrem_subset by blast
    show "\<forall>x\<in>set past. x \<le> now" using tr assms(2) by (auto simp: tracks_def)
    fix t' assume "now \<le> t'"
    then show "within_window t' ?w past = within_window t' ?w (map fst ?z1)"
      using within_window_zrem [of now ?w t' z] scores tr assms(2) by (simp add: tracks_def)
  qed
  have sub: "snd ` set ?z1 \<subseteq> snd ` set z" using zrem_subset by blast
  show thesis
  proof (cases "int (length ?z1) < lp_limit p")
    case True
    have add: "zadd now m ?z1 = (now, m) # ?z1" using new sub by (intro zadd_new) blast
    have "tracks now ?w ((now, m) # ?z1) (past @ [now])"
      unfolding tracks_def
    proof (intro conjI allI impI)
      show "distinct (map snd ((now, m) # ?z1))" using tr1 new sub by (auto simp: tracks_def)
      show "\<forall>e\<in>set ((now, m) # ?z1). 0 \<le> fst e \<and> fst e \<le> now" using tr1 assms(3) by (simp add: tracks_def)
      show "\<forall>x\<in>set (past @ [now]). x \<le> now" using tr1 by (simp add: tracks_def)
      fix t' assume "now \<le> t'"
      then show "within_window t' ?w (past @ [now]) = within_window t' ?w (map fst ((now, m) # ?z1))"
        using tr1 by (simp add: tracks_def within_window_append within_window_Cons)
    qed
    moreover have "snd ` set ((now, m) # ?z1) \<subseteq> insert m (snd ` set z)" using sub by auto
    ultimately show thesis
      using True count add by (intro admitted [of "(now, m) # ?z1"]) (simp_all add: eval_limit_def limit_script_def Let_def)
  next
    case False
    then show thesis
      using count tr1 sub by (intro refused) (auto simp: eval_limit_def limit_script_def Let_def)
  qed
qed

lemma window_bound_step:
  assumes "\<forall>x\<in>set past. x \<le> now" and "within_window now w past < n" and "within_window t w past \<le> n"
  shows "within_window t w (past @ [now]) \<le> n"
proof (cases "t - w < now \<and> now \<le> t")
  case True
  have "length (filter (\<lambda>x. t - w < x \<and> x \<le> t) past) \<le> length (filter (\<lambda>x. now - w < x \<and> x \<le> now) past)"
    using assms(1) True by (induction past) auto
  then show ?thesis using assms(2) by (auto simp: within_window_def)
next
  case False
  then show ?thesis using assms(3) by (auto simp: within_window_def)
qed

lemma tracks_later: "tracks t w z past \<Longrightarrow> t \<le> t' \<Longrightarrow> tracks t' w z past"
  by (fastforce simp: tracks_def)

lemma counted_simps [simp]: "counted [] = []" "counted ((x, up) # xs) = (if up then [x] else []) @ counted xs" "counted (xs @ ys) = counted xs @ counted ys"
  by (simp_all add: counted_def)

lemma serve_append: "serve p z (xs @ ys) = (fst (serve p z xs) @ fst (serve p (snd (serve p z xs)) ys), snd (serve p (snd (serve p z xs)) ys))"
  by (induction p z xs rule: serve.induct) (auto split: prod.split)

lemma subset_through: "A \<subseteq> B' \<union> R \<Longrightarrow> B' \<subseteq> insert m B \<Longrightarrow> A \<subseteq> B \<union> insert m R"
  by blast

text \<open>Requests in the order of time keep the set in step with what was counted, and no window overfull.\<close>

lemma serve_run:
  assumes "tracks t0 (lp_window_seconds p * 1000) z past" and "sorted (map fst reqs)" and "\<forall>r\<in>set reqs. t0 \<le> fst r \<and> 0 \<le> fst r \<and> fst r \<le> t1"
    and "t0 \<le> t1" and "distinct (map (fst \<circ> snd) reqs)" and "snd ` set z \<inter> (fst \<circ> snd) ` set reqs = {}"
    and "0 < lp_window_seconds p" and "0 \<le> lp_limit p" and "\<forall>t. int (within_window t (lp_window_seconds p * 1000) past) \<le> lp_limit p"
  shows "tracks t1 (lp_window_seconds p * 1000) (snd (serve p z reqs)) (past @ counted (fst (serve p z reqs)))
    \<and> snd ` set (snd (serve p z reqs)) \<subseteq> snd ` set z \<union> (fst \<circ> snd) ` set reqs
    \<and> (\<forall>t. int (within_window t (lp_window_seconds p * 1000) (past @ counted (fst (serve p z reqs)))) \<le> lp_limit p)"
  using assms
proof (induction reqs arbitrary: t0 z past)
  case Nil
  then show ?case using tracks_later[OF Nil.prems(1,4)] by simp
next
  case (Cons req reqs)
  obtain now m up where req: "req = (now, m, up)" by (rule prod_cases3)
  let ?w = "lp_window_seconds p * 1000"
  have rest: "sorted (map fst reqs)" "\<forall>r\<in>set reqs. now \<le> fst r \<and> 0 \<le> fst r \<and> fst r \<le> t1" "distinct (map (fst \<circ> snd) reqs)"
      "m \<notin> (fst \<circ> snd) ` set reqs" "now \<le> t1"
    using Cons.prems(2,3,5) req by (auto simp: comp_def)
  have step: "t0 \<le> now" "0 \<le> now" "m \<notin> snd ` set z" using Cons.prems(3,6) req by auto
  have apart: "snd ` set z' \<inter> (fst \<circ> snd) ` set reqs = {}" if "snd ` set z' \<subseteq> insert m (snd ` set z)" for z' :: zset
    using that rest(4) Cons.prems(6) unfolding list.set image_insert by blast
  have members: "(fst \<circ> snd) ` set (req # reqs) = insert m ((fst \<circ> snd) ` set reqs)" by (simp add: req)
  have reach: "A \<subseteq> snd ` set z \<union> (fst \<circ> snd) ` set (req # reqs)"
    if "A \<subseteq> snd ` set z' \<union> (fst \<circ> snd) ` set reqs" "snd ` set z' \<subseteq> insert m (snd ` set z)" for A and z' :: zset
    unfolding members using that by (rule subset_through)
  show ?case
  proof (cases up)
    case False
    then have run: "serve p z (req # reqs) = ((now, False) # fst (serve p z reqs), snd (serve p z reqs))"
      by (simp add: req eval_limit_def split: prod.split)
    from Cons.IH[OF tracks_later[OF Cons.prems(1) step(1)] rest(1,2,5,3) apart Cons.prems(7-9)]
    show ?thesis unfolding run by (auto simp: req)
  next
    case True
    show ?thesis
    proof (cases rule: limit_step[OF Cons.prems(1) step(1,2) Cons.prems(7) step(3), case_names admitted refused])
      case (admitted z')
      have run: "serve p z (req # reqs) = ((now, True) # fst (serve p z' reqs), snd (serve p z' reqs))"
        using admitted(1) True by (simp add: req split: prod.split)
      have "\<forall>x\<in>set past. x \<le> now" using Cons.prems(1) step(1) by (auto simp: tracks_def)
      then have "\<forall>t. int (within_window t ?w (past @ [now])) \<le> lp_limit p"
        using window_bound_step[of past now ?w "nat (lp_limit p)"] admitted(2) Cons.prems(9)
        by (simp add: le_nat_iff zless_nat_eq_int_zless Cons.prems(8))
      from Cons.IH[OF admitted(3) rest(1,2,5,3) apart[OF admitted(4)] Cons.prems(7,8) this]
      show ?thesis unfolding run using reach[OF _ admitted(4)] by simp
    next
      case (refused z' dec)
      have run: "serve p z (req # reqs) = serve p z' reqs" using refused(1,2) True by (simp add: req split: prod.split)
      have sub: "snd ` set z' \<subseteq> insert m (snd ` set z)" using refused(5) by blast
      from Cons.IH[OF refused(4) rest(1,2,5,3) apart[OF sub] Cons.prems(7-9)] show ?thesis unfolding run using reach[OF _ sub] by simp
    qed
  qed
qed

section \<open>Properties\<close>

text \<open>C28. The limiter is an exact sliding window over the requests its server sees, when they reach it in the order of the times
  their callers read: a request is admitted exactly when the server does not answer, in which case it is not counted, or when fewer
  counted requests than the limit lie in the window that ends with it. Hence any interval as long as the window contains at most the limit
  of counted requests.\<close>

theorem rate_limit_window:
  assumes "sorted (map fst reqs)" and "distinct (map (fst \<circ> snd) reqs)" and "\<forall>r\<in>set reqs. 0 \<le> fst r"
    and "0 < lp_window_seconds p" and "0 \<le> lp_limit p"
  shows "int (length (filter (\<lambda>x. t - lp_window_seconds p * 1000 < x \<and> x \<le> t) (counted (fst (serve p [] reqs))))) \<le> lp_limit p
    \<and> (\<forall>earlier now m up later. reqs = earlier @ (now, m, up) # later \<longrightarrow>
         fst (serve p [] (earlier @ [(now, m, up)])) = fst (serve p [] earlier)
           @ (if up \<and> lp_limit p \<le> int (length (filter (\<lambda>x. now - lp_window_seconds p * 1000 < x \<and> x \<le> now) (counted (fst (serve p [] earlier)))))
              then [] else [(now, up)]))"
proof (intro conjI allI impI)
  let ?w = "lp_window_seconds p * 1000"
  have start: "tracks 0 ?w [] []" "\<forall>t. int (within_window t ?w []) \<le> lp_limit p" using assms(5) by (simp_all add: tracks_def)
  define t1 where "t1 = Max (insert 0 (fst ` set reqs))"
  have "\<forall>r\<in>set reqs. 0 \<le> fst r \<and> 0 \<le> fst r \<and> fst r \<le> t1" "0 \<le> t1" using assms(3) by (simp_all add: t1_def)
  from serve_run[OF start(1) assms(1) this assms(2) _ assms(4,5) start(2)]
  show "int (length (filter (\<lambda>x. t - ?w < x \<and> x \<le> t) (counted (fst (serve p [] reqs))))) \<le> lp_limit p" by (simp add: within_window_def)
  fix earlier now m up later assume reqs: "reqs = earlier @ (now, m, up) # later"
  have e: "sorted (map fst earlier)" "\<forall>r\<in>set earlier. 0 \<le> fst r \<and> 0 \<le> fst r \<and> fst r \<le> now" "0 \<le> now" "distinct (map (fst \<circ> snd) earlier)"
    "m \<notin> (fst \<circ> snd) ` set earlier"
    using assms(1,2,3) by (auto simp: reqs sorted_append)
  note run = serve_run[OF start(1) e(1-4) _ assms(4,5) start(2), simplified]
  have new: "m \<notin> snd ` set (snd (serve p [] earlier))" using run e(5) by auto
  have tr: "tracks now ?w (snd (serve p [] earlier)) (counted (fst (serve p [] earlier)))" using run by simp
  show "fst (serve p [] (earlier @ [(now, m, up)])) = fst (serve p [] earlier)
      @ (if up \<and> lp_limit p \<le> int (length (filter (\<lambda>x. now - ?w < x \<and> x \<le> now) (counted (fst (serve p [] earlier)))))
         then [] else [(now, up)])"
    by (cases rule: limit_step[OF tr order.refl e(3) assms(4) new])
      (simp_all add: serve_append within_window_def, simp_all add: eval_limit_def)
qed

theorem rate_limit_window_witness:
  "fst (serve (policy ''x'' 2 1) [] [(0, ''a'', True), (10, ''b'', True), (20, ''c'', True), (30, ''d'', False), (1005, ''e'', True)])
     = [(0, True), (10, True), (30, False), (1005, True)]
   \<and> int (length (filter (\<lambda>x. 1005 - 1 * 1000 < x \<and> x \<le> 1005)
       (counted (fst (serve (policy ''x'' 2 1) [] [(0, ''a'', True), (10, ''b'', True), (20, ''c'', True), (30, ''d'', False), (1005, ''e'', True)]))))) \<le> 2"
proof -
  let ?r = "[(0, ''a'', True), (10, ''b'', True), (20, ''c'', True), (30, ''d'', False), (1005, ''e'', True)] :: (int \<times> string \<times> bool) list"
  have "fst (serve (policy ''x'' 2 1) [] ?r) = [(0, True), (10, True), (30, False), (1005, True)]" by code_simp
  moreover have ok: "sorted (map fst ?r)" "distinct (map (fst \<circ> snd) ?r)" "\<forall>r\<in>set ?r. 0 \<le> fst r" by simp_all
  have "int (length (filter (\<lambda>x. 1005 - 1 * 1000 < x \<and> x \<le> 1005) (counted (fst (serve (policy ''x'' 2 1) [] ?r))))) \<le> 2"
    using rate_limit_window[OF ok, of "policy ''x'' 2 1" 1005] by (simp add: policy_def)
  ultimately show ?thesis by blast
qed

text \<open>A refused request is told a time that suffices when it is not rounded: the retry value lies within the window,
  and a request made that much later, with nothing in between, is admitted. The seconds reported to the caller are
  that value rounded down, at least one.\<close>

theorem rate_limit_retry:
  assumes "limit_script now w limit m z = ((0, 0, retry), z')" and "\<forall>e\<in>set z. 0 \<le> fst e \<and> fst e \<le> now"
    and "int (length z) \<le> limit" and "0 < limit" and "0 < w" and "now + retry \<le> later"
  shows "0 < retry \<and> retry \<le> w \<and> fst (fst (limit_script later w limit m' z')) = 1"
proof -
  let ?z1 = "zremrangebyscore 0 (now - w) z"
  have z': "z' = ?z1" and retry: "retry = w - (now - lowest_score ?z1)" and full: "limit \<le> int (length ?z1)"
    using assms(1) by (auto simp: limit_script_def Let_def split: if_splits)
  have ne: "?z1 \<noteq> []" using full assms(4) by auto
  then have "lowest_score ?z1 \<in> set (map fst ?z1)" unfolding lowest_score_def by (intro Min_in) auto
  then obtain m0 where low: "(lowest_score ?z1, m0) \<in> set ?z1" by auto
  then have bounds: "now - w < lowest_score ?z1" "lowest_score ?z1 \<le> now"
    using assms(2) by (auto simp: zremrangebyscore_def)
  have "length (zremrangebyscore 0 (later - w) ?z1) < length ?z1"
    unfolding zremrangebyscore_def [of 0 "later - w"]
    by (rule length_filter_less [OF low]) (use retry assms(2,6) low zrem_subset in fastforce)
  also have "length ?z1 \<le> length z" by (simp add: zremrangebyscore_def)
  finally have "int (length (zremrangebyscore 0 (later - w) ?z1)) < limit" using assms(3) by simp
  then show ?thesis using retry bounds by (simp add: limit_script_def z' Let_def)
qed

theorem rate_limit_retry_witness:
  "limit_script 20 1000 1 ''b'' [(0, ''a'')] = ((0, 0, 980), [(0, ''a'')]) \<and> fst (fst (limit_script 1000 1000 1 ''c'' [(0, ''a'')])) = 1"
proof -
  have s: "limit_script 20 1000 1 ''b'' [(0, ''a'')] = ((0, 0, 980), [(0, ''a'')])"
    by (simp add: limit_script_def zremrangebyscore_def lowest_score_def)
  from rate_limit_retry [OF s, of 1000 "''c''"] s show ?thesis by simp
qed

end
