(* ===== verification/Auth_Sessions.thy ===== *)
theory Auth_Sessions
  imports Tables Py_Json
begin

text \<open>
  Refresh-token sessions: \<^verbatim>\<open>infrastructure/auth/tokens.py\<close> (rotation policy, session cap),
  \<^verbatim>\<open>application/auth/service.py\<close> (issue, refresh, logout) and \<^verbatim>\<open>application/auth/sessions.py\<close> (inventory and
  revocation). The state is the table of refresh tokens, the audit log, the access tokens handed out and the
  revocation list in the cache, which may be unreachable. Random identifiers are arguments;
  \<^verbatim>\<open>sha256_hex\<close> is a parameter.
\<close>

section \<open>Rotation policy\<close>

definition ACCESS_TTL_SECONDS :: int where "ACCESS_TTL_SECONDS = 900"
definition REFRESH_TTL_SECONDS :: int where "REFRESH_TTL_SECONDS = 604800"
definition MAX_SESSIONS_PER_USER :: int where "MAX_SESSIONS_PER_USER = 10"
definition IDLE_REAUTH_SECONDS :: int where "IDLE_REAUTH_SECONDS = 7200"
definition HARD_REAUTH_SECONDS :: int where "HARD_REAUTH_SECONDS = 28800"

record refresh_row =
  rf_tenant :: string
  rf_user :: string
  rf_jti :: string
  rf_hash :: string
  rf_family :: string
  rf_parent :: "string option"
  rf_created :: instant
  rf_expires :: instant
  rf_revoked :: "instant option"
  rf_reason :: "string option"
  rf_last_used :: "instant option"

definition parse_refresh_token :: "string \<Rightarrow> string option" where
  "parse_refresh_token plaintext =
     (let jti = takeWhile (\<lambda>c. c \<noteq> CHR ''.'') plaintext; secret = drop (Suc (length jti)) plaintext
      in if jti = [] \<or> secret = [] then None else Some jti)"

record RotationOutcome =
  ro_accepted :: bool
  ro_reuse_detected :: bool
  ro_revoke_family :: "string option"
  ro_reason :: "string option"

definition refuse_rotation :: "string \<Rightarrow> RotationOutcome" where
  "refuse_rotation reason = \<lparr>ro_accepted = False, ro_reuse_detected = False, ro_revoke_family = None, ro_reason = Some reason\<rparr>"

definition evaluate_rotation :: "string option \<Rightarrow> string \<Rightarrow> instant option \<Rightarrow> instant option \<Rightarrow> string option \<Rightarrow> instant \<Rightarrow> RotationOutcome" where
  "evaluate_rotation stored_hash presented_hash revoked_at expires_at family_id now =
     (if stored_hash \<noteq> Some presented_hash then refuse_rotation ''unknown refresh token''
      else if revoked_at \<noteq> None then
        \<lparr>ro_accepted = False, ro_reuse_detected = True, ro_revoke_family = family_id,
         ro_reason = Some ''refresh token reuse detected; the session family was revoked''\<rparr>
      else if (case expires_at of None \<Rightarrow> False | Some t \<Rightarrow> t \<le> now) then refuse_rotation ''refresh token expired''
      else \<lparr>ro_accepted = True, ro_reuse_detected = False, ro_revoke_family = None, ro_reason = None\<rparr>)"

definition reauth_required :: "instant \<Rightarrow> instant \<Rightarrow> instant \<Rightarrow> bool \<times> string option" where
  "reauth_required authenticated_at last_activity_at now =
     (if now - authenticated_at > seconds HARD_REAUTH_SECONDS then (True, Some ''hard_reauth'')
      else if now - last_activity_at > seconds IDLE_REAUTH_SECONDS then (True, Some ''idle_reauth'')
      else (False, None))"

definition sessions_to_evict :: "string list \<Rightarrow> int \<Rightarrow> string list" where
  "sessions_to_evict oldest_first limit =
     (let excess = int (length oldest_first) - limit + 1 in if excess > 0 then take (nat excess) oldest_first else [])"

definition STEP_UP_OPERATIONS :: "string list" where
  "STEP_UP_OPERATIONS = [''billing.update'', ''subscription.checkout'', ''export.create'', ''tenant.delete'',
     ''tenant.transfer_ownership'', ''api_key.create'', ''security.settings'', ''payment.refund_high_value'',
     ''privacy.delete'', ''user.impersonate'']"

definition requires_step_up :: "string \<Rightarrow> bool \<Rightarrow> instant \<Rightarrow> instant \<Rightarrow> int \<Rightarrow> bool" where
  "requires_step_up operation mfa_verified authenticated_at now window_seconds =
     (if operation \<notin> set STEP_UP_OPERATIONS then False
      else if \<not> mfa_verified then True
      else now - authenticated_at > seconds window_seconds)"

section \<open>State\<close>

record access_token =
  at_jti :: string
  at_session :: string
  at_expires :: instant

record auth_log =
  al_action :: string
  al_tenant :: string
  al_actor :: "string option"
  al_resource :: string
  al_values :: jdict

record auth_db =
  au_tokens :: "refresh_row list"
  au_revoked_jtis :: "(string \<times> instant) list"
  au_access :: "access_token list"
  au_cache_up :: bool
  au_audit :: "auth_log list"

datatype session_error = Malformed_token | Session_invalid | Session_not_found

definition live :: "instant \<Rightarrow> refresh_row \<Rightarrow> bool" where
  "live now r \<longleftrightarrow> rf_revoked r = None \<and> rf_expires r > now"

definition revoke_rows :: "instant \<Rightarrow> string \<Rightarrow> (refresh_row \<Rightarrow> bool) \<Rightarrow> refresh_row list \<Rightarrow> refresh_row list" where
  "revoke_rows now reason which rows = map (\<lambda>r. if which r then r\<lparr>rf_revoked := Some now, rf_reason := Some reason\<rparr> else r) rows"

definition audit :: "string \<Rightarrow> string \<Rightarrow> string option \<Rightarrow> string \<Rightarrow> jdict \<Rightarrow> auth_db \<Rightarrow> auth_db" where
  "audit action tenant actor resource values db = db\<lparr>au_audit := au_audit db
     @ [\<lparr>al_action = action, al_tenant = tenant, al_actor = actor, al_resource = resource, al_values = values\<rparr>]\<rparr>"

definition revoke_access_jtis :: "instant \<Rightarrow> string list \<Rightarrow> auth_db \<Rightarrow> auth_db" where
  "revoke_access_jtis now jtis db =
     (if \<not> au_cache_up db then db
      else db\<lparr>au_revoked_jtis := au_revoked_jtis db @ map (\<lambda>j. (j, now + seconds ACCESS_TTL_SECONDS)) (filter (\<lambda>j. j \<noteq> []) jtis)\<rparr>)"

text \<open>\<^verbatim>\<open>get_principal\<close> with \<^verbatim>\<open>_is_revoked\<close>: an access token is accepted until it expires unless its identifier is listed.\<close>

definition access_accepted :: "instant \<Rightarrow> auth_db \<Rightarrow> access_token \<Rightarrow> bool" where
  "access_accepted now db t \<longleftrightarrow> now < at_expires t
     \<and> \<not> (at_jti t \<noteq> [] \<and> au_cache_up db \<and> (\<exists>e\<in>set (au_revoked_jtis db). fst e = at_jti t \<and> now < snd e))"

section \<open>Operations\<close>

text \<open>Families in the order of their oldest live token.\<close>

definition first_occurrences :: "'a list \<Rightarrow> 'a list" where
  "first_occurrences xs = rev (remdups (rev xs))"

definition live_rows :: "instant \<Rightarrow> string \<Rightarrow> string \<Rightarrow> refresh_row list \<Rightarrow> refresh_row list" where
  "live_rows now tenant user rows = sort_key rf_created (filter (\<lambda>r. rf_tenant r = tenant \<and> rf_user r = user \<and> live now r) rows)"

definition list_sessions :: "instant \<Rightarrow> string \<Rightarrow> string \<Rightarrow> auth_db \<Rightarrow> string list" where
  "list_sessions now tenant user db = first_occurrences (map rf_family (rev (live_rows now tenant user (au_tokens db))))"

definition enforce_session_cap :: "instant \<Rightarrow> string \<Rightarrow> string \<Rightarrow> auth_db \<Rightarrow> auth_db" where
  "enforce_session_cap now tenant user db =
     (let rows = live_rows now tenant user (au_tokens db);
          doomed = sessions_to_evict (first_occurrences (map rf_family rows)) MAX_SESSIONS_PER_USER;
          evicted = filter (\<lambda>r. rf_family r \<in> set doomed) rows
      in if doomed = [] then db
         else revoke_access_jtis now (map rf_jti evicted)
                (audit ''auth.session_revoked'' tenant None user [(''families_evicted'', JInt (int (length doomed)))]
                  (db\<lparr>au_tokens := revoke_rows now ''session_cap''
                     (\<lambda>r. rf_tenant r = tenant \<and> rf_user r = user \<and> live now r \<and> rf_family r \<in> set doomed) (au_tokens db)\<rparr>)))"

definition new_row :: "instant \<Rightarrow> string \<Rightarrow> string \<Rightarrow> string \<Rightarrow> string \<Rightarrow> string \<Rightarrow> string option \<Rightarrow> refresh_row" where
  "new_row now tenant user jti token_hash family parent =
     \<lparr>rf_tenant = tenant, rf_user = user, rf_jti = jti, rf_hash = token_hash, rf_family = family, rf_parent = parent,
      rf_created = now, rf_expires = now + seconds REFRESH_TTL_SECONDS, rf_revoked = None, rf_reason = None, rf_last_used = None\<rparr>"

definition mint_access :: "instant \<Rightarrow> string \<Rightarrow> string \<Rightarrow> auth_db \<Rightarrow> auth_db" where
  "mint_access now access_jti family db = db\<lparr>au_access := au_access db
     @ [\<lparr>at_jti = access_jti, at_session = family, at_expires = now + seconds ACCESS_TTL_SECONDS\<rparr>]\<rparr>"

text \<open>A refresh token is \<^verbatim>\<open>jti.secret\<close>; only its hash is stored.\<close>

definition issue_session :: "(string \<Rightarrow> string) \<Rightarrow> instant \<Rightarrow> string \<Rightarrow> string \<Rightarrow> bool \<Rightarrow> string \<Rightarrow> string \<Rightarrow> string \<Rightarrow> string
    \<Rightarrow> auth_db \<Rightarrow> string \<times> auth_db" where
  "issue_session sha256_hex now tenant user mfa_verified jti secret family access_jti db =
     (let db1 = enforce_session_cap now tenant user db;
          plaintext = jti @ ''.'' @ secret;
          db2 = db1\<lparr>au_tokens := au_tokens db1 @ [new_row now tenant user jti (sha256_hex plaintext) family None]\<rparr>
      in (plaintext, mint_access now access_jti family
            (audit ''auth.login'' tenant (Some user) family [(''mfa_verified'', JBool mfa_verified)] db2)))"

text \<open>\<^verbatim>\<open>refresh\<close> reads the token in one transaction and acts in another; the two are separate functions.\<close>

definition refresh_check :: "(string \<Rightarrow> string) \<Rightarrow> instant \<Rightarrow> string \<Rightarrow> auth_db \<Rightarrow> (session_error, refresh_row option \<times> RotationOutcome) res" where
  "refresh_check sha256_hex now refresh_token db =
     (case parse_refresh_token refresh_token of
        None \<Rightarrow> Inl Malformed_token
      | Some jti \<Rightarrow>
          let row = row_at rf_jti jti (au_tokens db)
          in Inr (row, evaluate_rotation (map_option rf_hash row) (sha256_hex refresh_token)
                 (Option.bind row rf_revoked) (map_option rf_expires row) (map_option rf_family row) now))"

definition revoke_family :: "instant \<Rightarrow> string \<Rightarrow> string \<Rightarrow> string \<Rightarrow> auth_db \<Rightarrow> auth_db" where
  "revoke_family now reason tenant family db =
     db\<lparr>au_tokens := revoke_rows now reason (\<lambda>r. rf_tenant r = tenant \<and> rf_family r = family \<and> rf_revoked r = None) (au_tokens db)\<rparr>"

definition family_size :: "string \<Rightarrow> string \<Rightarrow> auth_db \<Rightarrow> json" where
  "family_size tenant family db =
     JInt (int (length (filter (\<lambda>r. rf_tenant r = tenant \<and> rf_family r = family \<and> rf_revoked r = None) (au_tokens db))))"

definition rotated :: "instant \<Rightarrow> string \<Rightarrow> refresh_row list \<Rightarrow> refresh_row list" where
  "rotated now jti rows = map (\<lambda>r. if rf_jti r = jti
     then r\<lparr>rf_revoked := Some now, rf_reason := Some ''rotated'', rf_last_used := Some now\<rparr> else r) rows"

definition refresh_rotate :: "(string \<Rightarrow> string) \<Rightarrow> instant \<Rightarrow> string \<Rightarrow> string \<Rightarrow> string \<Rightarrow> refresh_row \<Rightarrow> auth_db \<Rightarrow> auth_db" where
  "refresh_rotate sha256_hex now new_jti secret access_jti row db =
     mint_access now access_jti (rf_family row)
       (audit ''auth.refresh'' (rf_tenant row) (Some (rf_user row)) (rf_family row) [(''rotated'', JBool True)]
         (db\<lparr>au_tokens := rotated now (rf_jti row) (au_tokens db)
            @ [new_row now (rf_tenant row) (rf_user row) new_jti (sha256_hex (new_jti @ ''.'' @ secret)) (rf_family row)
                 (Some (rf_jti row))]\<rparr>))"

text \<open>The second half: \<open>active\<close> is whether the user still exists and is active when it is read again.\<close>

definition refresh_act :: "(string \<Rightarrow> string) \<Rightarrow> instant \<Rightarrow> bool \<Rightarrow> string \<Rightarrow> string \<Rightarrow> string
    \<Rightarrow> refresh_row option \<times> RotationOutcome \<Rightarrow> auth_db \<Rightarrow> (session_error, string) res \<times> auth_db" where
  "refresh_act sha256_hex now active new_jti secret access_jti checked db =
     (case checked of
        (Some row, outcome) \<Rightarrow>
          if ro_reuse_detected outcome
          then (Inl Session_invalid,
                audit ''auth.refresh_reuse'' (rf_tenant row) (Some (rf_user row)) (rf_family row)
                  [(''sessions_revoked'', family_size (rf_tenant row) (rf_family row) db)]
                  (revoke_family now ''family_reuse'' (rf_tenant row) (rf_family row) db))
          else if \<not> ro_accepted outcome
          then (Inl Session_invalid, audit ''auth.refresh'' (rf_tenant row) (Some (rf_user row)) (rf_family row) [] db)
          else if \<not> active then (Inl Session_invalid, db)
          else (Inr (new_jti @ ''.'' @ secret), refresh_rotate sha256_hex now new_jti secret access_jti row db)
      | (None, _) \<Rightarrow> (Inl Session_invalid, db))"

definition refresh :: "(string \<Rightarrow> string) \<Rightarrow> instant \<Rightarrow> bool \<Rightarrow> string \<Rightarrow> string \<Rightarrow> string \<Rightarrow> string \<Rightarrow> auth_db
    \<Rightarrow> (session_error, string) res \<times> auth_db" where
  "refresh sha256_hex now active new_jti secret access_jti refresh_token db =
     (case refresh_check sha256_hex now refresh_token db of
        Inl err \<Rightarrow> (Inl err, db)
      | Inr checked \<Rightarrow> refresh_act sha256_hex now active new_jti secret access_jti checked db)"

definition logout :: "instant \<Rightarrow> string \<Rightarrow> auth_db \<Rightarrow> auth_db" where
  "logout now refresh_token db =
     (case parse_refresh_token refresh_token of
        None \<Rightarrow> db
      | Some jti \<Rightarrow>
          (case row_at rf_jti jti (au_tokens db) of
             None \<Rightarrow> db
           | Some row \<Rightarrow> audit ''auth.logout'' (rf_tenant row) (Some (rf_user row)) (rf_family row)
               [(''sessions_revoked'', family_size (rf_tenant row) (rf_family row) db)]
               (revoke_family now ''logout'' (rf_tenant row) (rf_family row) db)))"

definition revoke_session :: "instant \<Rightarrow> string \<Rightarrow> string \<Rightarrow> string \<Rightarrow> auth_db \<Rightarrow> (session_error, auth_db) res" where
  "revoke_session now tenant user family db =
     (let mine = (\<lambda>r. rf_tenant r = tenant \<and> rf_family r = family \<and> rf_user r = user \<and> rf_revoked r = None);
          rows = filter mine (au_tokens db)
      in if rows = [] then Inl Session_not_found
         else Inr (revoke_access_jtis now (map rf_jti rows)
                (audit ''auth.session_revoked'' tenant (Some user) family [(''tokens_revoked'', JInt (int (length rows)))]
                  (db\<lparr>au_tokens := revoke_rows now ''user_revoked'' mine (au_tokens db)\<rparr>))))"

definition revoke_all :: "instant \<Rightarrow> string \<Rightarrow> string \<Rightarrow> string \<Rightarrow> string \<Rightarrow> auth_db \<Rightarrow> auth_db" where
  "revoke_all now tenant user reason keep_family db =
     (let mine = (\<lambda>r. rf_tenant r = tenant \<and> rf_user r = user \<and> rf_revoked r = None
            \<and> \<not> (keep_family \<noteq> [] \<and> rf_family r = keep_family))
      in revoke_access_jtis now (map rf_jti (filter mine (au_tokens db)))
           (audit ''auth.logout'' tenant (Some user) user [(''sessions_revoked'', JInt (int (length (filter mine (au_tokens db)))))]
             (db\<lparr>au_tokens := revoke_rows now reason mine (au_tokens db)\<rparr>)))"

end
