(* ===== verification/Auth_Sessions_Safety.thy ===== *)
theory Auth_Sessions_Safety
  imports Auth_Sessions
begin

text \<open>
  What the session operations guarantee when requests are served one after the other, and what two of their
  weaknesses are: the rotation does not look again at the token it checked, and the revocation list names
  refresh tokens where the access tokens carry identifiers of their own.
\<close>

section \<open>Serial runs\<close>

datatype auth_op =
    Login instant string string bool string string string string
  | Refresh instant bool string string string string
  | Logout instant string
  | Revoke_session instant string string string
  | Revoke_all instant string string string string

fun op_time :: "auth_op \<Rightarrow> instant" where
  "op_time (Login now _ _ _ _ _ _ _) = now"
| "op_time (Refresh now _ _ _ _ _) = now"
| "op_time (Logout now _) = now"
| "op_time (Revoke_session now _ _ _) = now"
| "op_time (Revoke_all now _ _ _ _) = now"

fun auth_step :: "(string \<Rightarrow> string) \<Rightarrow> auth_db \<Rightarrow> auth_op \<Rightarrow> auth_db" where
  "auth_step sha db (Login now tenant user mfa jti secret family access_jti) =
     snd (issue_session sha now tenant user mfa jti secret family access_jti db)"
| "auth_step sha db (Refresh now active new_jti secret access_jti token) =
     snd (refresh sha now active new_jti secret access_jti token db)"
| "auth_step sha db (Logout now token) = logout now token db"
| "auth_step sha db (Revoke_session now tenant user family) =
     (case revoke_session now tenant user family db of Inl _ \<Rightarrow> db | Inr db' \<Rightarrow> db')"
| "auth_step sha db (Revoke_all now tenant user reason keep) = revoke_all now tenant user reason keep db"

text \<open>Random identifiers are new: \<^verbatim>\<open>uuid4\<close> for tokens, \<^verbatim>\<open>uuid7\<close> for families.\<close>

fun fresh_op :: "auth_op \<Rightarrow> auth_db \<Rightarrow> bool" where
  "fresh_op (Login _ _ _ _ jti _ family _) db \<longleftrightarrow>
     jti \<notin> rf_jti ` set (au_tokens db) \<and> family \<notin> rf_family ` set (au_tokens db)"
| "fresh_op (Refresh _ _ new_jti _ _ _) db \<longleftrightarrow> new_jti \<notin> rf_jti ` set (au_tokens db)"
| "fresh_op _ db \<longleftrightarrow> True"

fun fresh_run :: "(string \<Rightarrow> string) \<Rightarrow> auth_db \<Rightarrow> auth_op list \<Rightarrow> bool" where
  "fresh_run sha db [] \<longleftrightarrow> True"
| "fresh_run sha db (op # ops) \<longleftrightarrow> fresh_op op db \<and> fresh_run sha (auth_step sha db op) ops"

definition empty_auth_db :: auth_db where
  "empty_auth_db = \<lparr>au_tokens = [], au_revoked_jtis = [], au_access = [], au_cache_up = True, au_audit = []\<rparr>"

lemma fresh_run_append: "fresh_run sha db (xs @ ys) \<longleftrightarrow> fresh_run sha db xs \<and> fresh_run sha (foldl (auth_step sha) db xs) ys"
  by (induction xs arbitrary: db) auto

section \<open>Effects on the token table\<close>

lemma tokens_simps [simp]:
  "au_tokens (audit a t u r v db) = au_tokens db"
  "au_tokens (mint_access now j f db) = au_tokens db"
  "au_tokens (revoke_access_jtis now js db) = au_tokens db"
  by (simp_all add: audit_def mint_access_def revoke_access_jtis_def)

text \<open>A row that is at most revoked: everything but the revocation columns is as before.\<close>

definition revised :: "refresh_row \<Rightarrow> refresh_row \<Rightarrow> bool" where
  "revised r r' \<longleftrightarrow> rf_jti r' = rf_jti r \<and> rf_family r' = rf_family r \<and> rf_tenant r' = rf_tenant r \<and> rf_user r' = rf_user r
     \<and> rf_expires r' = rf_expires r \<and> rf_hash r' = rf_hash r \<and> (rf_revoked r' = None \<longrightarrow> rf_revoked r = None)"

abbreviation revised_rows :: "refresh_row list \<Rightarrow> refresh_row list \<Rightarrow> bool" where
  "revised_rows \<equiv> list_all2 revised"

lemma revised_refl [simp]: "revised r r"
  by (simp add: revised_def)

lemma revised_rows_refl [simp]: "revised_rows rows rows"
  by (simp add: list_all2_refl)

lemma revised_map: "(\<And>r. revised r (f r)) \<Longrightarrow> revised_rows rows (map f rows)"
  by (simp add: list_all2_map2 list_all2_same)

lemma revised_revoke_rows [simp]: "revised_rows rows (revoke_rows now reason which rows)"
  unfolding revoke_rows_def by (rule revised_map) (simp add: revised_def)

lemma revised_rotated [simp]: "revised_rows rows (rotated now jti rows)"
  unfolding rotated_def by (rule revised_map) (simp add: revised_def)

lemma revised_source:
  assumes "revised_rows rows rows'" and "r' \<in> set rows'"
  obtains r where "r \<in> set rows" "revised r r'"
  using assms by (metis in_set_conv_nth list_all2_conv_all_nth)

lemma revised_target:
  assumes "revised_rows rows rows'" and "r \<in> set rows"
  obtains r' where "r' \<in> set rows'" "revised r r'"
  using assms by (metis in_set_conv_nth list_all2_conv_all_nth)

lemma revised_keys: "revised_rows rows rows' \<Longrightarrow> map rf_jti rows' = map rf_jti rows \<and> map rf_family rows' = map rf_family rows"
  by (induction rule: list_all2_induct) (auto simp: revised_def)

lemma revised_key_sets:
  assumes "revised_rows rows rows'"
  shows "rf_jti ` set rows' = rf_jti ` set rows" and "rf_family ` set rows' = rf_family ` set rows"
  using revised_keys [OF assms] by (metis image_set)+

text \<open>The three ways an operation changes the table.\<close>

lemma refresh_tokens:
  obtains (unchanged) "revised_rows (au_tokens db) (au_tokens (snd (refresh sha now active new_jti secret access_jti token db)))"
  | (rotation) row where "row \<in> set (au_tokens db)" "rf_revoked row = None" "now < rf_expires row"
      "au_tokens (snd (refresh sha now active new_jti secret access_jti token db)) = rotated now (rf_jti row) (au_tokens db)
         @ [new_row now (rf_tenant row) (rf_user row) new_jti (sha (new_jti @ ''.'' @ secret)) (rf_family row) (Some (rf_jti row))]"
proof (cases "parse_refresh_token token")
  case None
  then show thesis by (intro unchanged) (simp add: refresh_def refresh_check_def)
next
  case (Some jti)
  note parsed = this
  show thesis
  proof (cases "row_at rf_jti jti (au_tokens db)")
    case None
    with parsed show thesis by (intro unchanged) (simp add: refresh_def refresh_check_def refresh_act_def)
  next
    case (Some row)
    let ?o = "evaluate_rotation (Some (rf_hash row)) (sha token) (rf_revoked row) (Some (rf_expires row)) (Some (rf_family row)) now"
    have eq: "refresh sha now active new_jti secret access_jti token db = refresh_act sha now active new_jti secret access_jti (Some row, ?o) db"
      by (simp add: refresh_def refresh_check_def parsed Some)
    show thesis
    proof (cases "ro_accepted ?o \<and> active")
      case True
      then have no: "\<not> ro_reuse_detected ?o" and "rf_revoked row = None \<and> now < rf_expires row"
        by (auto simp: evaluate_rotation_def refuse_rotation_def split: if_splits)
      moreover from no True have "snd (refresh sha now active new_jti secret access_jti token db)
          = refresh_rotate sha now new_jti secret access_jti row db"
        unfolding eq by (simp add: refresh_act_def)
      ultimately show thesis using row_at_Some [OF Some]
        by (intro rotation [of row]) (simp_all add: refresh_rotate_def)
    next
      case False
      then show thesis by (intro unchanged) (auto simp: eq refresh_act_def revoke_family_def)
    qed
  qed
qed

lemma enforce_revises: "revised_rows (au_tokens db) (au_tokens (enforce_session_cap now tenant user db))"
  by (simp add: enforce_session_cap_def Let_def)

lemma login_tokens: "au_tokens (snd (issue_session sha now tenant user mfa jti secret family access_jti db)) =
    au_tokens (enforce_session_cap now tenant user db) @ [new_row now tenant user jti (sha (jti @ ''.'' @ secret)) family None]"
  by (simp add: issue_session_def Let_def)

lemma other_op_revises:
  "revised_rows (au_tokens db) (au_tokens (logout now token db))"
  "revised_rows (au_tokens db) (au_tokens (auth_step sha db (Revoke_session now tenant user family)))"
  "revised_rows (au_tokens db) (au_tokens (revoke_all now tenant user reason keep db))"
  by (auto simp: logout_def revoke_session_def revoke_all_def revoke_family_def Let_def split: option.split)

lemma step_cases:
  assumes "fresh_op op db"
  obtains (revise) "revised_rows (au_tokens db) (au_tokens (auth_step sha db op))"
  | (login) now tenant user jti h family where "op_time op = now"
      "au_tokens (auth_step sha db op) =
         au_tokens (enforce_session_cap now tenant user db) @ [new_row now tenant user jti h family None]"
      "jti \<notin> rf_jti ` set (au_tokens db)" "family \<notin> rf_family ` set (au_tokens db)"
  | (rotate) now row new_jti h where "op_time op = now" "row \<in> set (au_tokens db)" "rf_revoked row = None" "now < rf_expires row"
      "au_tokens (auth_step sha db op) = rotated now (rf_jti row) (au_tokens db)
         @ [new_row now (rf_tenant row) (rf_user row) new_jti h (rf_family row) (Some (rf_jti row))]"
      "new_jti \<notin> rf_jti ` set (au_tokens db)"
proof (cases op)
  case (Login now tenant user mfa jti secret family access_jti)
  with assms show thesis by (intro login [of now tenant user jti "sha (jti @ ''.'' @ secret)" family]) (simp_all add: login_tokens)
next
  case (Refresh now active new_jti secret access_jti token)
  show thesis
    by (cases rule: refresh_tokens [of db sha now active new_jti secret access_jti token, case_names unchanged rotation])
      (use Refresh assms in \<open>auto intro: revise rotate\<close>)
next
  case (Logout now token)
  then show thesis using other_op_revises(1) by (intro revise) simp
next
  case (Revoke_session now tenant user family)
  then show thesis using other_op_revises(2) by (intro revise) simp
next
  case (Revoke_all now tenant user reason keep)
  then show thesis using other_op_revises(3) by (intro revise) simp
qed

section \<open>The invariant of the token table\<close>

text \<open>Two rows of one family belong to one user, and only one of them is unrevoked.\<close>

definition compatible :: "refresh_row \<Rightarrow> refresh_row \<Rightarrow> bool" where
  "compatible r r' \<longleftrightarrow> (rf_family r = rf_family r' \<longrightarrow> rf_tenant r = rf_tenant r' \<and> rf_user r = rf_user r'
     \<and> (rf_revoked r = None \<longrightarrow> rf_revoked r' = None \<longrightarrow> rf_jti r = rf_jti r'))"

definition families_ok :: "refresh_row list \<Rightarrow> bool" where
  "families_ok rows \<longleftrightarrow> distinct (map rf_jti rows) \<and> (\<forall>r\<in>set rows. \<forall>r'\<in>set rows. compatible r r')"

definition dead_family :: "string \<Rightarrow> refresh_row list \<Rightarrow> bool" where
  "dead_family f rows \<longleftrightarrow> f \<in> rf_family ` set rows \<and> (\<forall>r\<in>set rows. rf_family r = f \<longrightarrow> rf_revoked r \<noteq> None)"

lemma families_ok_pair:
  assumes "families_ok rows" "r \<in> set rows" "r' \<in> set rows" "rf_family r = rf_family r'"
  shows "rf_tenant r = rf_tenant r'" and "rf_user r = rf_user r'"
    and "rf_revoked r = None \<Longrightarrow> rf_revoked r' = None \<Longrightarrow> rf_jti r = rf_jti r'"
  using assms unfolding families_ok_def compatible_def by blast+

lemma compatible_simps: "compatible r r" "compatible r r' \<longleftrightarrow> compatible r' r"
  by (auto simp: compatible_def)

lemma families_ok_revised:
  assumes "families_ok rows" and "revised_rows rows rows'"
  shows "families_ok rows'"
  unfolding families_ok_def compatible_def
proof (intro conjI ballI impI)
  show "distinct (map rf_jti rows')" using assms by (simp add: revised_keys families_ok_def)
next
  fix r r'
  assume in': "r \<in> set rows'" "r' \<in> set rows'" and same: "rf_family r = rf_family r'"
  obtain q q' where q: "q \<in> set rows" "revised q r" "q' \<in> set rows" "revised q' r'"
    using revised_source [OF assms(2)] in' by metis
  then have "rf_family q = rf_family q'" using same by (simp add: revised_def)
  note pair = families_ok_pair [OF assms(1) q(1,3) this]
  show "rf_tenant r = rf_tenant r'" "rf_user r = rf_user r'" using pair(1,2) q by (simp_all add: revised_def)
  show "rf_jti r = rf_jti r'" if "rf_revoked r = None" "rf_revoked r' = None"
    using pair(3) q that by (simp add: revised_def)
qed

lemma families_ok_append:
  assumes "families_ok rows" and "rf_jti n \<notin> rf_jti ` set rows"
    and "\<forall>r\<in>set rows. rf_family r = rf_family n \<longrightarrow> rf_tenant r = rf_tenant n \<and> rf_user r = rf_user n \<and> rf_revoked r \<noteq> None"
  shows "families_ok (rows @ [n])"
proof -
  have new: "\<forall>r\<in>set rows. compatible r n" using assms(3) by (auto simp: compatible_def)
  then have "\<forall>r\<in>set (rows @ [n]). \<forall>r'\<in>set (rows @ [n]). compatible r r'"
    using assms(1) by (simp add: families_ok_def compatible_simps(1) compatible_simps(2) [of n])
  moreover have "distinct (map rf_jti (rows @ [n]))" using assms(1,2) by (simp add: families_ok_def)
  ultimately show ?thesis unfolding families_ok_def by blast
qed

lemma dead_family_revised:
  assumes "dead_family f rows" and "revised_rows rows rows'"
  shows "dead_family f rows'"
  unfolding dead_family_def
proof (intro conjI ballI impI)
  show "f \<in> rf_family ` set rows'" using assms by (simp add: revised_key_sets(2) dead_family_def)
  fix r' assume "r' \<in> set rows'" "rf_family r' = f"
  then show "rf_revoked r' \<noteq> None"
    using assms(1) by (elim revised_source [OF assms(2)]) (auto simp: dead_family_def revised_def)
qed

lemma new_row_simps [simp]:
  "rf_jti (new_row now t u j h f p) = j" "rf_family (new_row now t u j h f p) = f" "rf_tenant (new_row now t u j h f p) = t"
  "rf_user (new_row now t u j h f p) = u" "rf_revoked (new_row now t u j h f p) = None" "rf_hash (new_row now t u j h f p) = h"
  "rf_expires (new_row now t u j h f p) = now + seconds REFRESH_TTL_SECONDS"
  by (simp_all add: new_row_def)

lemma rotation_kills_family:
  assumes ok: "families_ok rows" and row: "row \<in> set rows" "rf_revoked row = None"
    and r': "r' \<in> set (rotated now (rf_jti row) rows)" "rf_family r' = rf_family row"
  shows "rf_tenant r' = rf_tenant row \<and> rf_user r' = rf_user row \<and> rf_revoked r' \<noteq> None"
proof -
  obtain r where r: "r \<in> set rows" "r' = (if rf_jti r = rf_jti row
      then r\<lparr>rf_revoked := Some now, rf_reason := Some ''rotated'', rf_last_used := Some now\<rparr> else r)"
    using r'(1) unfolding rotated_def by auto
  then have "rf_family r = rf_family row" using r'(2) by (auto split: if_splits)
  note pair = families_ok_pair [OF ok r(1) row(1) this]
  show ?thesis using pair row(2) r(2) by auto
qed

lemma families_ok_step:
  assumes "families_ok (au_tokens db)" and "fresh_op op db"
  shows "families_ok (au_tokens (auth_step sha db op))"
proof (cases rule: step_cases [OF assms(2), of sha, case_names revise login rotate])
  case revise
  then show ?thesis using families_ok_revised assms(1) by blast
next
  case (login now tenant user jti h family)
  note keys = revised_key_sets [OF enforce_revises [of db now tenant user]]
  show ?thesis unfolding login(2)
  proof (rule families_ok_append)
    show "families_ok (au_tokens (enforce_session_cap now tenant user db))"
      by (rule families_ok_revised [OF assms(1) enforce_revises])
  qed (use keys login(3,4) in auto)
next
  case (rotate now row new_jti h)
  show ?thesis unfolding rotate(5)
  proof (rule families_ok_append)
    show "families_ok (rotated now (rf_jti row) (au_tokens db))"
      by (rule families_ok_revised [OF assms(1) revised_rotated])
  qed (use revised_key_sets(1) [OF revised_rotated] rotate(6) rotation_kills_family [OF assms(1) rotate(2,3)] in auto)
qed

lemma dead_family_step:
  assumes "dead_family f (au_tokens db)" and "fresh_op op db"
  shows "dead_family f (au_tokens (auth_step sha db op))"
proof (cases rule: step_cases [OF assms(2), of sha, case_names revise login rotate])
  case revise
  then show ?thesis using dead_family_revised assms(1) by blast
next
  case (login now tenant user jti h family)
  then have "family \<noteq> f" using assms(1) by (auto simp: dead_family_def)
  with dead_family_revised [OF assms(1) enforce_revises] show ?thesis
    unfolding login(2) by (auto simp: dead_family_def)
next
  case (rotate now row new_jti h)
  then have "rf_family row \<noteq> f" using assms(1) by (auto simp: dead_family_def)
  with dead_family_revised [OF assms(1) revised_rotated] show ?thesis
    unfolding rotate(5) by (auto simp: dead_family_def)
qed

lemma families_ok_run: "families_ok (au_tokens db) \<Longrightarrow> fresh_run sha db ops \<Longrightarrow> families_ok (au_tokens (foldl (auth_step sha) db ops))"
  by (induction ops arbitrary: db) (auto intro: families_ok_step)

lemma dead_family_run: "dead_family f (au_tokens db) \<Longrightarrow> fresh_run sha db ops \<Longrightarrow> dead_family f (au_tokens (foldl (auth_step sha) db ops))"
  by (induction ops arbitrary: db) (auto intro: dead_family_step)

lemma families_ok_empty [simp]: "families_ok (au_tokens empty_auth_db)"
  by (simp add: families_ok_def empty_auth_db_def)

section \<open>The session cap\<close>

definition live_families :: "instant \<Rightarrow> string \<Rightarrow> string \<Rightarrow> refresh_row list \<Rightarrow> string set" where
  "live_families t tenant user rows = rf_family ` {r \<in> set rows. rf_tenant r = tenant \<and> rf_user r = user \<and> live t r}"

lemma finite_live_families [simp]: "finite (live_families t tenant user rows)"
  by (simp add: live_families_def)

lemma live_families_revised:
  assumes "revised_rows rows rows'"
  shows "live_families t tenant user rows' \<subseteq> live_families t tenant user rows"
proof
  fix f assume "f \<in> live_families t tenant user rows'"
  then obtain r' where r': "r' \<in> set rows'" "rf_tenant r' = tenant" "rf_user r' = user" "live t r'" "rf_family r' = f"
    by (auto simp: live_families_def)
  obtain r where "r \<in> set rows" "revised r r'" by (rule revised_source [OF assms r'(1)])
  with r' show "f \<in> live_families t tenant user rows" by (auto simp: live_families_def revised_def live_def)
qed

lemma live_families_later: "t \<le> t' \<Longrightarrow> live_families t' tenant user rows \<subseteq> live_families t tenant user rows"
  by (auto simp: live_families_def live_def)

lemma live_families_append: "live_families t tenant user (rows @ [n]) =
    live_families t tenant user rows \<union> (if rf_tenant n = tenant \<and> rf_user n = user \<and> live t n then {rf_family n} else {})"
  by (auto simp: live_families_def)

lemma first_occurrences_simps [simp]: "distinct (first_occurrences xs)" "set (first_occurrences xs) = set xs"
  by (simp_all add: first_occurrences_def)

lemma set_live_rows: "rf_family ` set (live_rows now tenant user rows) = live_families now tenant user rows"
  by (auto simp: live_rows_def live_families_def)

lemma set_minus_take:
  assumes "distinct xs"
  shows "set xs - set (take k xs) = set (drop k xs)"
proof -
  have "set xs = set (take k xs) \<union> set (drop k xs)" by (metis append_take_drop_id set_append)
  then show ?thesis using set_take_disj_set_drop_if_distinct [OF assms, of k k] by auto
qed

lemma evicted_prefix: "sessions_to_evict fs MAX_SESSIONS_PER_USER = take (nat (int (length fs) - 9)) fs"
  by (simp add: sessions_to_evict_def MAX_SESSIONS_PER_USER_def Let_def)

lemma live_revoke_rows: "r \<in> set (revoke_rows now reason which rows) \<Longrightarrow> live t r \<Longrightarrow> r \<in> set rows \<and> \<not> which r"
  by (auto simp: revoke_rows_def live_def split: if_splits)

lemma enforce_evicts: "live_families now tenant user (au_tokens (enforce_session_cap now tenant user db))
    \<subseteq> live_families now tenant user (au_tokens db)
      - set (sessions_to_evict (first_occurrences (map rf_family (live_rows now tenant user (au_tokens db)))) MAX_SESSIONS_PER_USER)"
proof
  let ?doomed = "sessions_to_evict (first_occurrences (map rf_family (live_rows now tenant user (au_tokens db)))) MAX_SESSIONS_PER_USER"
  fix f assume "f \<in> live_families now tenant user (au_tokens (enforce_session_cap now tenant user db))"
  then obtain r where r: "r \<in> set (au_tokens (enforce_session_cap now tenant user db))" "rf_tenant r = tenant" "rf_user r = user"
      "live now r" "f = rf_family r" by (auto simp: live_families_def)
  show "f \<in> live_families now tenant user (au_tokens db) - set ?doomed"
  proof (cases "?doomed = []")
    case True
    with r show ?thesis by (auto simp: live_families_def enforce_session_cap_def Let_def)
  next
    case False
    then have "r \<in> set (au_tokens db)" and "f \<notin> set ?doomed"
      using r live_revoke_rows [OF _ r(4)] by (auto simp: enforce_session_cap_def Let_def)
    with r show ?thesis by (auto simp: live_families_def)
  qed
qed

lemma enforce_leaves_room: "card (live_families now tenant user (au_tokens (enforce_session_cap now tenant user db))) \<le> 9"
proof -
  let ?fs = "first_occurrences (map rf_family (live_rows now tenant user (au_tokens db)))"
  let ?doomed = "sessions_to_evict ?fs MAX_SESSIONS_PER_USER"
  have fs: "set ?fs = live_families now tenant user (au_tokens db)" by (simp add: set_live_rows)
  have "live_families now tenant user (au_tokens (enforce_session_cap now tenant user db)) \<subseteq> set ?fs - set ?doomed"
    unfolding fs by (rule enforce_evicts)
  also have "set ?fs - set ?doomed = set (drop (nat (int (length ?fs) - 9)) ?fs)"
    unfolding evicted_prefix by (rule set_minus_take) simp
  finally have "card (live_families now tenant user (au_tokens (enforce_session_cap now tenant user db)))
      \<le> card (set (drop (nat (int (length ?fs) - 9)) ?fs))" by (simp add: card_mono)
  also have "\<dots> \<le> length (drop (nat (int (length ?fs) - 9)) ?fs)" by (rule card_length)
  also have "\<dots> \<le> 9" by simp
  finally show ?thesis .
qed

definition cap_ok :: "instant \<Rightarrow> refresh_row list \<Rightarrow> bool" where
  "cap_ok t rows \<longleftrightarrow> (\<forall>tenant user. card (live_families t tenant user rows) \<le> 10)"

lemma cap_ok_shrink:
  assumes "cap_ok t rows" and "\<forall>tenant user. live_families t' tenant user rows' \<subseteq> live_families t tenant user rows"
  shows "cap_ok t' rows'"
  unfolding cap_ok_def using assms by (meson cap_ok_def card_mono finite_live_families le_trans)

lemma cap_ok_later: "cap_ok t rows \<Longrightarrow> t \<le> t' \<Longrightarrow> cap_ok t' rows"
  by (erule cap_ok_shrink) (simp add: live_families_later)

lemma cap_ok_step:
  assumes cap: "cap_ok (op_time op) (au_tokens db)" and fresh: "fresh_op op db"
  shows "cap_ok (op_time op) (au_tokens (auth_step sha db op))"
proof (cases rule: step_cases [OF fresh, of sha, case_names revise login rotate])
  case revise
  with cap show ?thesis by (elim cap_ok_shrink) (simp add: live_families_revised)
next
  case (login now tenant user jti h family)
  let ?rows = "au_tokens (enforce_session_cap now tenant user db)"
  have "card (live_families now t u (?rows @ [new_row now tenant user jti h family None])) \<le> 10" for t u
  proof (cases "t = tenant \<and> u = user")
    case True
    then have "card (live_families now t u ?rows) \<le> 9" using enforce_leaves_room by simp
    then show ?thesis unfolding live_families_append
      by (intro le_trans [OF card_Un_le]) auto
  next
    case False
    have "card (live_families now t u ?rows) \<le> card (live_families now t u (au_tokens db))"
      by (rule card_mono) (simp_all add: live_families_revised [OF enforce_revises])
    also have "\<dots> \<le> 10" using cap login(1) by (simp add: cap_ok_def)
    finally show ?thesis using False by (auto simp: live_families_append)
  qed
  then show ?thesis using login(1,2) by (simp add: cap_ok_def)
next
  case (rotate now row new_jti h)
  have "rf_family row \<in> live_families now (rf_tenant row) (rf_user row) (au_tokens db)"
    using rotate(2-4) by (auto simp: live_families_def live_def)
  then have "live_families now t u (au_tokens (auth_step sha db op)) \<subseteq> live_families now t u (au_tokens db)" for t u
    using live_families_revised [OF revised_rotated [of "au_tokens db" now "rf_jti row"], of now t u]
    unfolding rotate(5) live_families_append by auto
  then show ?thesis using cap rotate(1) by (intro cap_ok_shrink [OF cap]) simp
qed

lemma cap_ok_run:
  assumes "cap_ok t (au_tokens db)" "fresh_run sha db ops" "sorted (t # map op_time ops)" "\<forall>op\<in>set ops. op_time op \<le> t'" "t \<le> t'"
  shows "cap_ok t' (au_tokens (foldl (auth_step sha) db ops))"
  using assms
proof (induction ops arbitrary: db t)
  case Nil
  then show ?case by (simp add: cap_ok_later)
next
  case (Cons op ops)
  have "cap_ok (op_time op) (au_tokens (auth_step sha db op))"
    using Cons.prems by (intro cap_ok_step cap_ok_later [OF Cons.prems(1)]) simp_all
  then show ?case using Cons.prems by (simp add: Cons.IH)
qed

section \<open>Properties\<close>

lemma same_jti: "families_ok rows \<Longrightarrow> r \<in> set rows \<Longrightarrow> r' \<in> set rows \<Longrightarrow> rf_jti r = rf_jti r' \<Longrightarrow> r = r'"
  by (auto simp: families_ok_def distinct_map dest: inj_onD)

text \<open>C10. Whatever logins, rotations, logouts and revocations are served one after the other, a session never has two
  usable refresh tokens, and at no time has a user more than ten live sessions.\<close>

theorem sessions_serial:
  assumes "fresh_run sha empty_auth_db ops" and "sorted (map op_time ops)" and "\<forall>op\<in>set ops. op_time op \<le> t"
  shows "(\<forall>r\<in>set (au_tokens (foldl (auth_step sha) empty_auth_db ops)). \<forall>r'\<in>set (au_tokens (foldl (auth_step sha) empty_auth_db ops)).
            rf_family r = rf_family r' \<and> rf_revoked r = None \<and> rf_revoked r' = None \<longrightarrow> r = r')
       \<and> card (live_families t tenant user (au_tokens (foldl (auth_step sha) empty_auth_db ops))) \<le> 10"
proof
  let ?rows = "au_tokens (foldl (auth_step sha) empty_auth_db ops)"
  have ok: "families_ok ?rows" using families_ok_run [OF families_ok_empty assms(1)] .
  show "\<forall>r\<in>set ?rows. \<forall>r'\<in>set ?rows. rf_family r = rf_family r' \<and> rf_revoked r = None \<and> rf_revoked r' = None \<longrightarrow> r = r'"
    by (intro ballI impI) (metis same_jti [OF ok] families_ok_pair(3) [OF ok])
  show "card (live_families t tenant user ?rows) \<le> 10"
  proof (cases ops)
    case Nil
    then show ?thesis by (simp add: empty_auth_db_def live_families_def)
  next
    case (Cons op rest)
    have "cap_ok (op_time op) (au_tokens empty_auth_db)" by (simp add: cap_ok_def empty_auth_db_def live_families_def)
    then have "cap_ok t ?rows" using assms Cons by (intro cap_ok_run) auto
    then show ?thesis by (simp add: cap_ok_def)
  qed
qed

definition sample_logins :: "auth_op list" where
  "sample_logins = [Login 0 ''t'' ''u'' True ''a'' ''x'' ''f'' ''k'', Refresh 5 True ''b'' ''y'' ''l'' ''a.x'']"

lemma sample_logins_fresh: "fresh_run id empty_auth_db sample_logins"
  by code_simp

theorem sessions_serial_witness:
  "card (live_families 9 ''t'' ''u'' (au_tokens (foldl (auth_step id) empty_auth_db sample_logins))) \<le> 10
   \<and> live_families 9 ''t'' ''u'' (au_tokens (foldl (auth_step id) empty_auth_db sample_logins)) = {''f''}"
proof
  show "card (live_families 9 ''t'' ''u'' (au_tokens (foldl (auth_step id) empty_auth_db sample_logins))) \<le> 10"
    by (rule sessions_serial [OF sample_logins_fresh, THEN conjunct2]) (simp_all add: sample_logins_def)
  show "live_families 9 ''t'' ''u'' (au_tokens (foldl (auth_step id) empty_auth_db sample_logins)) = {''f''}"
    by code_simp
qed

lemma revoked_by_family:
  assumes "families_ok rows" "row \<in> set rows"
    and "r' \<in> set (revoke_rows now reason (\<lambda>r. rf_tenant r = rf_tenant row \<and> rf_family r = rf_family row \<and> rf_revoked r = None) rows)"
    and "rf_family r' = rf_family row"
  shows "rf_revoked r' \<noteq> None"
proof -
  obtain r where r: "r \<in> set rows" "r' = (if rf_tenant r = rf_tenant row \<and> rf_family r = rf_family row \<and> rf_revoked r = None
      then r\<lparr>rf_revoked := Some now, rf_reason := Some reason\<rparr> else r)"
    using assms(3) unfolding revoke_rows_def by auto
  then have fam: "rf_family r = rf_family row" using assms(4) by (auto split: if_splits)
  show ?thesis using r(2) fam families_ok_pair(1) [OF assms(1) r(1) assms(2) fam] by auto
qed

text \<open>C11. Presenting a refresh token that was rotated or revoked is refused and ends its session for good: no later
  sequence of requests makes any token of the family usable again.\<close>

theorem refresh_reuse_revokes_family:
  assumes "fresh_run sha empty_auth_db (ops @ Refresh now active new_jti secret access_jti token # later)"
    and "row \<in> set (au_tokens (foldl (auth_step sha) empty_auth_db ops))" and "rf_revoked row \<noteq> None"
    and "parse_refresh_token token = Some (rf_jti row)" and "sha token = rf_hash row"
  shows "fst (refresh sha now active new_jti secret access_jti token (foldl (auth_step sha) empty_auth_db ops)) = Inl Session_invalid
       \<and> (\<forall>r\<in>set (au_tokens (foldl (auth_step sha) empty_auth_db
              (ops @ Refresh now active new_jti secret access_jti token # later))).
            rf_family r = rf_family row \<longrightarrow> rf_revoked r \<noteq> None)"
proof -
  let ?db = "foldl (auth_step sha) empty_auth_db ops"
  let ?ref = "refresh sha now active new_jti secret access_jti token ?db"
  have run: "fresh_run sha empty_auth_db ops" "fresh_run sha (snd ?ref) later"
    using assms(1) by (auto simp: fresh_run_append)
  have ok: "families_ok (au_tokens ?db)" using families_ok_run [OF families_ok_empty run(1)] .
  then have at_row: "row_at rf_jti (rf_jti row) (au_tokens ?db) = Some row"
    using assms(2) by (simp add: row_at_unique families_ok_def)
  let ?which = "\<lambda>r. rf_tenant r = rf_tenant row \<and> rf_family r = rf_family row \<and> rf_revoked r = None"
  have ref: "fst ?ref = Inl Session_invalid" "au_tokens (snd ?ref) = revoke_rows now ''family_reuse'' ?which (au_tokens ?db)"
    using assms(3,5)
    by (simp_all add: refresh_def refresh_check_def refresh_act_def assms(4) at_row evaluate_rotation_def revoke_family_def)
  have "rf_family row \<in> rf_family ` set (au_tokens (snd ?ref))"
    unfolding ref(2) revised_key_sets(2) [OF revised_revoke_rows] using assms(2) by simp
  then have "dead_family (rf_family row) (au_tokens (snd ?ref))"
    unfolding dead_family_def ref(2) by (simp add: revoked_by_family [OF ok assms(2)])
  then show ?thesis using ref(1) dead_family_run [OF _ run(2)] by (simp add: dead_family_def)
qed

theorem refresh_reuse_revokes_family_witness:
  "fst (refresh id 7 True ''c'' ''z'' ''m'' ''a.x'' (foldl (auth_step id) empty_auth_db sample_logins)) = Inl Session_invalid
   \<and> filter (\<lambda>r. rf_family r = ''f'' \<and> rf_revoked r = None) (au_tokens (foldl (auth_step id) empty_auth_db
      (sample_logins @ Refresh 7 True ''c'' ''z'' ''m'' ''a.x'' # [Refresh 8 True ''d'' ''w'' ''n'' ''b.y'']))) = []"
proof -
  let ?row = "hd (au_tokens (foldl (auth_step id) empty_auth_db sample_logins))"
  have "rf_family ?row = ''f''" by code_simp
  moreover have "fresh_run id empty_auth_db (sample_logins @ Refresh 7 True ''c'' ''z'' ''m'' ''a.x'' # [Refresh 8 True ''d'' ''w'' ''n'' ''b.y''])"
    by code_simp
  moreover have "?row \<in> set (au_tokens (foldl (auth_step id) empty_auth_db sample_logins))" by code_simp
  moreover have "rf_revoked ?row \<noteq> None" by code_simp
  moreover have "parse_refresh_token ''a.x'' = Some (rf_jti ?row)" by code_simp
  moreover have "id ''a.x'' = rf_hash ?row" by code_simp
  ultimately show ?thesis using refresh_reuse_revokes_family [of id sample_logins 7 True "''c''" "''z''" "''m''" "''a.x''"
      "[Refresh 8 True ''d'' ''w'' ''n'' ''b.y'']" ?row] unfolding filter_empty_conv by metis
qed

text \<open>C38. The rotation acts on the token as it was read: between a request that passed the check and its rotation the
  token may be rotated by another request or its session may be ended by a logout, and the rotation still
  succeeds and leaves a usable token; two such requests leave two usable tokens in one session.\<close>

theorem refresh_race_forks_session:
  assumes "refresh_check sha now token db = Inr (Some row, outcome)" and "ro_accepted outcome" and "j1 \<noteq> rf_jti row"
  shows "(\<exists>r1 r2. {r1, r2} \<subseteq> set (au_tokens (snd (refresh_act sha t2 True j2 s2 a2 (Some row, outcome)
               (snd (refresh_act sha t1 True j1 s1 a1 (Some row, outcome) db)))))
            \<and> rf_jti r1 = j1 \<and> rf_revoked r1 = None \<and> rf_family r1 = rf_family row
            \<and> rf_jti r2 = j2 \<and> rf_revoked r2 = None \<and> rf_family r2 = rf_family row)
       \<and> fst (refresh_act sha t2 True j2 s2 a2 (Some row, outcome) (logout t1 token db)) = Inr (j2 @ ''.'' @ s2)"
proof -
  have act: "refresh_act sha t True j s a (Some row, outcome) db' = (Inr (j @ ''.'' @ s), refresh_rotate sha t j s a row db')"
    for t j s a db'
    using assms(1,2) by (auto simp: refresh_act_def refresh_check_def evaluate_rotation_def refuse_rotation_def Let_def
        split: option.splits if_splits)
  let ?n1 = "new_row t1 (rf_tenant row) (rf_user row) j1 (sha (j1 @ ''.'' @ s1)) (rf_family row) (Some (rf_jti row))"
  let ?n2 = "new_row t2 (rf_tenant row) (rf_user row) j2 (sha (j2 @ ''.'' @ s2)) (rf_family row) (Some (rf_jti row))"
  have "{?n1, ?n2} \<subseteq> set (au_tokens (refresh_rotate sha t2 j2 s2 a2 row (refresh_rotate sha t1 j1 s1 a1 row db)))"
    using assms(3) by (simp add: refresh_rotate_def rotated_def)
  then show ?thesis unfolding act snd_conv fst_conv by (intro conjI exI [of _ ?n1] exI [of _ ?n2]) simp_all
qed

definition sample_session :: auth_db where
  "sample_session = snd (issue_session id 0 ''t'' ''u'' True ''a'' ''x'' ''f'' ''k'' empty_auth_db)"

theorem refresh_race_forks_session_witness:
  "fst (refresh_act id 3 True ''c'' ''z'' ''m'' (Some (hd (au_tokens sample_session)),
       \<lparr>ro_accepted = True, ro_reuse_detected = False, ro_revoke_family = None, ro_reason = None\<rparr>)
     (logout 2 ''a.x'' sample_session)) = Inr ''c.z''"
proof -
  have "refresh_check id 1 ''a.x'' sample_session = Inr (Some (hd (au_tokens sample_session)),
      \<lparr>ro_accepted = True, ro_reuse_detected = False, ro_revoke_family = None, ro_reason = None\<rparr>)"
    by code_simp
  from refresh_race_forks_session [OF this, of "''b''" 3 "''c''" "''z''" "''m''" 2] show ?thesis
    by (simp add: sample_session_def issue_session_def enforce_session_cap_def empty_auth_db_def Let_def live_rows_def
        mint_access_def audit_def sessions_to_evict_def first_occurrences_def MAX_SESSIONS_PER_USER_def)
qed

text \<open>C39. Ending a session does not reach its access token: the revocation list receives the identifiers of the refresh
  tokens, so an access token with an identifier of its own stays accepted after the session is revoked, all
  sessions are revoked, or the user logs out.\<close>

theorem revocation_misses_access_token:
  assumes "access_accepted now db t" and "at_jti t \<notin> rf_jti ` set (au_tokens db)"
  shows "access_accepted now (revoke_all now' tenant user reason keep db) t \<and> access_accepted now (logout now' token db) t
       \<and> (\<forall>db'. revoke_session now' tenant user family db = Inr db' \<longrightarrow> access_accepted now db' t)"
proof -
  have keep: "access_accepted now (revoke_access_jtis now' js (audit a te u r v (db\<lparr>au_tokens := rows\<rparr>))) t"
    if "set js \<subseteq> rf_jti ` set (au_tokens db)" for js a te u r v rows
    using assms that by (auto simp: access_accepted_def revoke_access_jtis_def audit_def)
  have "access_accepted now (logout now' token db) t"
    using assms(1) by (auto simp: access_accepted_def logout_def revoke_family_def audit_def split: option.split)
  moreover have "access_accepted now (revoke_all now' tenant user reason keep db) t"
    unfolding revoke_all_def Let_def by (rule keep) auto
  moreover have "access_accepted now db' t" if "revoke_session now' tenant user family db = Inr db'" for db'
    using that unfolding revoke_session_def Let_def by (auto split: if_splits intro!: keep)
  ultimately show ?thesis by blast
qed

theorem revocation_misses_access_token_witness:
  "access_accepted 9 (revoke_all 5 ''t'' ''u'' ''logout_all'' [] sample_session) (hd (au_access sample_session))"
proof -
  have "access_accepted 9 sample_session (hd (au_access sample_session))" by code_simp
  moreover have "at_jti (hd (au_access sample_session)) \<notin> rf_jti ` set (au_tokens sample_session)" by code_simp
  ultimately show ?thesis by (rule revocation_misses_access_token [THEN conjunct1])
qed

end
