(* ===== verification/Py_Uuid.thy ===== *)
theory Py_Uuid
  imports Py_Json
begin

text \<open>
  \<^verbatim>\<open>str(UUID(text))\<close> of the standard library: the constructor drops \<^verbatim>\<open>urn:\<close>, \<^verbatim>\<open>uuid:\<close>, braces and hyphens, wants
  32 characters and reads them with \<^verbatim>\<open>int(_, 16)\<close>; printing gives the canonical form with hyphens.
\<close>

definition hex_val :: "char \<Rightarrow> int option" where
  "hex_val c = (let n = int (code c) in
     if 48 \<le> n \<and> n \<le> 57 then Some (n - 48) else if 97 \<le> n \<and> n \<le> 102 then Some (n - 87)
     else if 65 \<le> n \<and> n \<le> 70 then Some (n - 55) else None)"

fun hex_value :: "int \<Rightarrow> string \<Rightarrow> int option" where
  "hex_value acc [] = Some acc"
| "hex_value acc (c # s) = (case hex_val c of None \<Rightarrow> None | Some d \<Rightarrow> hex_value (acc * 16 + d) s)"

definition int16_digits :: "string \<Rightarrow> int option" where
  "int16_digits s = (let parts = py_split ''_'' s
     in if list_all (\<lambda>p. p \<noteq> []) parts then hex_value 0 (concat parts) else None)"

text \<open>The prefix \<^verbatim>\<open>0x\<close> is optional and may be followed by an underscore.\<close>

definition int16_unsigned :: "string \<Rightarrow> int option" where
  "int16_unsigned s = (if py_startswith s ''0x'' \<or> py_startswith s ''0X''
     then int16_digits (if py_startswith (drop 2 s) ''_'' then drop 3 s else drop 2 s) else int16_digits s)"

text \<open>A negative number is out of range, minus zero is zero.\<close>

definition int16 :: "string \<Rightarrow> int option" where
  "int16 s = (case py_strip s of
      [] \<Rightarrow> None
    | c # ds \<Rightarrow> if c = CHR ''-'' then (if int16_unsigned ds = Some 0 then Some 0 else None)
               else if c = CHR ''+'' then int16_unsigned ds else int16_unsigned (c # ds))"

fun hex_digits :: "nat \<Rightarrow> int \<Rightarrow> string" where
  "hex_digits 0 n = []"
| "hex_digits (Suc w) n = hex_digits w (n div 16) @ [hex_digit (nat (n mod 16))]"

definition show_uuid :: "int \<Rightarrow> string" where
  "show_uuid n = (let h = hex_digits 32 n in take 8 h @ ''-'' @ take 4 (drop 8 h) @ ''-'' @ take 4 (drop 12 h) @ ''-''
     @ take 4 (drop 16 h) @ ''-'' @ drop 20 h)"

definition uuid_of :: "string \<Rightarrow> string option" where
  "uuid_of s =
     (let h = py_replace ''-'' [] (strip_by (\<lambda>c. c = CHR ''{'' \<or> c = CHR ''}'') (py_replace ''uuid:'' [] (py_replace ''urn:'' [] s)))
      in if length h \<noteq> 32 then None else map_option show_uuid (int16 h))"

end
