(* ===== verification/Event_Catalog.thy ===== *)
theory Event_Catalog
  imports Py_Uuid
begin

text \<open>
  \<^verbatim>\<open>domain/events/catalog.py\<close>: the event types, those that may leave the platform and those that may not, and the
  outbox form of an event of \<^verbatim>\<open>domain/base.py\<close>.
\<close>

definition PUBLIC_EVENT_TYPES :: "string list" where
  "PUBLIC_EVENT_TYPES =
    [''conversation.assigned'', ''conversation.resolved'', ''message.queued'', ''activity.logged'',
     ''note.added'', ''note.updated'', ''contact.created'', ''contact.updated'', ''contact.deleted'',
     ''contact.merged'', ''account.created'', ''account.updated'', ''account.deleted'', ''lead.created'',
     ''lead.updated'', ''lead.converted'', ''lead.assigned'', ''opportunity.created'', ''opportunity.updated'',
     ''opportunity.stage_changed'', ''opportunity.won'', ''opportunity.lost'', ''task.created'',
     ''task.updated'', ''task.completed'', ''appointment.booked'', ''appointment.cancelled'',
     ''appointment.rescheduled'', ''appointment.completed'', ''payment.succeeded'', ''payment.failed'',
     ''payment.refunded'', ''conversation.created'', ''conversation.message_received'',
     ''conversation.closed'', ''document.uploaded'', ''document.created'', ''document.updated'',
     ''document.deleted'', ''document.signed'', ''document.shared'', ''workflow.execution_started'',
     ''workflow.execution_completed'', ''workflow.execution_failed'', ''approval.requested'',
     ''approval.approved'', ''approval.rejected'', ''system.quota_warning'',
     ''system.integration_disconnected'']"

definition INTERNAL_EVENT_TYPES :: "string list" where
  "INTERNAL_EVENT_TYPES =
    [''lead.qualified'', ''lead.disqualified'', ''lead.first_response_recorded'', ''conversation.handoff'',
     ''consent.granted'', ''consent.revoked'', ''file.upload_requested'', ''file.upload_completed'',
     ''file.scan_completed'', ''file.deleted'', ''analytics.export_requested'', ''analytics.event_emitted'',
     ''integration.configured'', ''integration.updated'', ''support.access_granted'',
     ''support.access_revoked'', ''bulk.operation.completed'', ''prompt.synced'', ''prompt.evaluated'',
     ''prompt.promoted'', ''prompt.rolled_back'', ''tenant.onboarding.updated'',
     ''tenant.onboarding.completed'']"

definition ALL_EVENT_TYPES :: "string list" where
  "ALL_EVENT_TYPES = PUBLIC_EVENT_TYPES @ INTERNAL_EVENT_TYPES"

definition is_public :: "string \<Rightarrow> bool" where
  "is_public event_type \<longleftrightarrow> event_type \<in> set PUBLIC_EVENT_TYPES"

record DomainEvent =
  ev_type :: string
  ev_tenant :: string
  ev_resource_type :: string
  ev_resource_id :: string
  ev_payload :: jdict
  ev_actor_id :: "string option"
  ev_actor_type :: string
  ev_correlation :: "string option"
  ev_id :: string
  ev_timestamp :: string
  ev_schema_version :: string

definition opt_str :: "string option \<Rightarrow> json" where
  "opt_str s = (case s of None \<Rightarrow> JNull | Some t \<Rightarrow> JStr t)"

definition to_outbox_payload :: "DomainEvent \<Rightarrow> jdict" where
  "to_outbox_payload e =
     [(''event_id'', JStr (ev_id e)), (''event_type'', JStr (ev_type e)), (''tenant_id'', JStr (ev_tenant e)),
      (''timestamp'', JStr (ev_timestamp e)), (''version'', JStr (ev_schema_version e)),
      (''resource'', JDict [(''type'', JStr (ev_resource_type e)), (''id'', JStr (ev_resource_id e))]),
      (''actor'', JDict [(''id'', opt_str (ev_actor_id e)), (''type'', JStr (ev_actor_type e))]),
      (''correlation_id'', opt_str (ev_correlation e)), (''data'', JDict (ev_payload e))]"

lemma dget_outbox_payload [simp]:
  "dget ''event_id'' (to_outbox_payload e) = JStr (ev_id e)"
  "dget ''event_type'' (to_outbox_payload e) = JStr (ev_type e)"
  "dget ''tenant_id'' (to_outbox_payload e) = JStr (ev_tenant e)"
  "dget ''resource'' (to_outbox_payload e) = JDict [(''type'', JStr (ev_resource_type e)), (''id'', JStr (ev_resource_id e))]"
  "dget ''correlation_id'' (to_outbox_payload e) = opt_str (ev_correlation e)"
  "dget ''data'' (to_outbox_payload e) = JDict (ev_payload e)"
  by (simp_all add: dget_def to_outbox_payload_def)

lemma catalog_disjoint: "set PUBLIC_EVENT_TYPES \<inter> set INTERNAL_EVENT_TYPES = {}"
  by code_simp

end
