(* ===== verification/Once_Store.thy ===== *)
theory Once_Store
  imports Tables
begin

text \<open>
  The contract behind every idempotency guarantee of the program: a store in which the first value written
  under a key stays. \<^verbatim>\<open>INSERT ... ON CONFLICT DO NOTHING\<close> on a unique constraint and \<^verbatim>\<open>SET NX\<close> both keep it.
  Clients deliver the same work several times, so the lemmas speak about sequences of writes with repetitions.
\<close>

locale once_store =
  fixes key :: "'v \<Rightarrow> 'k"
    and put :: "'v \<Rightarrow> 's \<Rightarrow> 's"
    and held :: "'s \<Rightarrow> 'k \<Rightarrow> 'v option"
  assumes held_put: "held (put v s) k = (if k = key v then Some (case held s k of None \<Rightarrow> v | Some w \<Rightarrow> w) else held s k)"
begin

definition put_all :: "'v list \<Rightarrow> 's \<Rightarrow> 's" where
  "put_all vs s = foldl (\<lambda>s v. put v s) s vs"

lemma held_stays: "held s k = Some v \<Longrightarrow> held (put w s) k = Some v"
  by (auto simp: held_put)

lemma put_holds: "\<exists>v'. held (put v s) (key v) = Some v'"
  by (simp add: held_put)

text \<open>After any sequence of writes a key holds what it held before, or else the first value written under it.\<close>

lemma first_wins: "held (put_all vs s) k =
    (case held s k of Some w \<Rightarrow> Some w | None \<Rightarrow> List.find (\<lambda>v. key v = k) vs)"
  by (induction vs arbitrary: s) (auto simp: put_all_def held_put split: option.splits)

lemma repeat_is_noop: "held (put_all (vs @ us) s) = held (put_all vs s)" if "set us \<subseteq> set vs"
proof
  fix k
  have "List.find (\<lambda>v. key v = k) (vs @ us) = List.find (\<lambda>v. key v = k) vs"
  proof (cases "List.find (\<lambda>v. key v = k) vs")
    case None
    then have "List.find (\<lambda>v. key v = k) us = None" using that by (auto simp: find_None_iff)
    with None show ?thesis by (induction vs) auto
  next
    case (Some v)
    then show ?thesis by (induction vs) auto
  qed
  then show "held (put_all (vs @ us) s) k = held (put_all vs s) k" by (simp only: first_wins)
qed

end

text \<open>Every table with a unique key is such a store.\<close>

interpretation table: once_store key "add_row key" "\<lambda>rows k. row_at key k rows" for key :: "'r \<Rightarrow> 'k"
  by unfold_locales (auto simp: row_at_add_row split: option.split)

end
