(* ===== verification/Entitlements.thy ===== *)
theory Entitlements
  imports Prelude
begin

text \<open>
  \<^verbatim>\<open>domain/tenants/entitlements.py\<close>: plans, feature gates and quotas. The message texts of a decision are
  replaced by the reason they express. \<^verbatim>\<open>projected >= limit * 0.8\<close> is the integer comparison
  \<open>5 * projected \<ge> 4 * limit\<close>, which agrees with the float one for limits below \<open>2\<^sup>5\<^sup>0\<close>.
\<close>

section \<open>Catalogue\<close>

definition UNLIMITED :: int where "UNLIMITED = -1"

datatype PlanCode = STARTER | GROWTH | ENTERPRISE

datatype Feature = WHATSAPP | EMAIL | SMS | VOICE | WEBCHAT | AI_QUALIFICATION | AI_COPILOT | AI_RAG | WORKFLOWS
  | WORKFLOW_APPROVALS | APPOINTMENTS | DOCUMENTS | SIGNATURES | PAYMENTS | CUSTOM_FIELDS | CUSTOM_ROLES
  | ANALYTICS_CUSTOM | DEVELOPER_API | OUTBOUND_WEBHOOKS | SSO | AUDIT_EXPORT | MULTI_BRANCH

definition all_features :: "Feature list" where
  "all_features = [WHATSAPP, EMAIL, SMS, VOICE, WEBCHAT, AI_QUALIFICATION, AI_COPILOT, AI_RAG, WORKFLOWS,
     WORKFLOW_APPROVALS, APPOINTMENTS, DOCUMENTS, SIGNATURES, PAYMENTS, CUSTOM_FIELDS, CUSTOM_ROLES,
     ANALYTICS_CUSTOM, DEVELOPER_API, OUTBOUND_WEBHOOKS, SSO, AUDIT_EXPORT, MULTI_BRANCH]"

datatype Meter = CONTACTS | LEADS | USERS | STORAGE_BYTES | AI_CALLS_MONTHLY | AI_TOKENS_MONTHLY | ACTIVE_WORKFLOWS
  | EMAIL_DAILY | SMS_DAILY | WEBHOOK_DESTINATIONS | API_KEYS | EXPORTS_DAILY

definition GB :: int where "GB = 1024 ^ 3"

record Plan =
  plan_price_inr :: int
  plan_features :: "Feature list"
  plan_limits :: "(Meter \<times> int) list"
  plan_api_rate_per_minute :: int
  plan_upload_limit_bytes :: int
  plan_import_batch_limit :: int
  plan_audit_retention_days :: int
  plan_ai_token_budget_monthly :: int
  plan_sort :: int

definition COMMON :: "Feature list" where
  "COMMON = [WEBCHAT, AI_QUALIFICATION, WORKFLOWS, APPOINTMENTS, DOCUMENTS]"

fun PLANS :: "PlanCode \<Rightarrow> Plan" where
  "PLANS STARTER = \<lparr>plan_price_inr = 1499, plan_features = COMMON @ [WHATSAPP],
     plan_limits = [(CONTACTS, 1000), (LEADS, 1000), (USERS, 3), (STORAGE_BYTES, 5 * GB), (AI_CALLS_MONTHLY, 100),
       (AI_TOKENS_MONTHLY, 1000000), (ACTIVE_WORKFLOWS, 5), (EMAIL_DAILY, 200), (SMS_DAILY, 50),
       (WEBHOOK_DESTINATIONS, 3), (API_KEYS, 2), (EXPORTS_DAILY, 5)],
     plan_api_rate_per_minute = 300, plan_upload_limit_bytes = 25 * 1024 * 1024, plan_import_batch_limit = 1000,
     plan_audit_retention_days = 90, plan_ai_token_budget_monthly = 1000000, plan_sort = 1\<rparr>"
| "PLANS GROWTH = \<lparr>plan_price_inr = 4999,
     plan_features = COMMON @ [WHATSAPP, EMAIL, SMS, AI_COPILOT, AI_RAG, WORKFLOW_APPROVALS, SIGNATURES, PAYMENTS,
       CUSTOM_FIELDS, CUSTOM_ROLES, DEVELOPER_API, OUTBOUND_WEBHOOKS, MULTI_BRANCH],
     plan_limits = [(CONTACTS, 10000), (LEADS, 10000), (USERS, 15), (STORAGE_BYTES, 50 * GB), (AI_CALLS_MONTHLY, 1000),
       (AI_TOKENS_MONTHLY, 5000000), (ACTIVE_WORKFLOWS, 25), (EMAIL_DAILY, 2000), (SMS_DAILY, 500),
       (WEBHOOK_DESTINATIONS, 15), (API_KEYS, 10), (EXPORTS_DAILY, 25)],
     plan_api_rate_per_minute = 1000, plan_upload_limit_bytes = 100 * 1024 * 1024, plan_import_batch_limit = 5000,
     plan_audit_retention_days = 365, plan_ai_token_budget_monthly = 5000000, plan_sort = 2\<rparr>"
| "PLANS ENTERPRISE = \<lparr>plan_price_inr = 14999, plan_features = filter (\<lambda>f. f \<noteq> VOICE) all_features,
     plan_limits = [(CONTACTS, UNLIMITED), (LEADS, UNLIMITED), (USERS, UNLIMITED), (STORAGE_BYTES, 500 * GB),
       (AI_CALLS_MONTHLY, 10000), (AI_TOKENS_MONTHLY, 20000000), (ACTIVE_WORKFLOWS, 100), (EMAIL_DAILY, 20000),
       (SMS_DAILY, 5000), (WEBHOOK_DESTINATIONS, 50), (API_KEYS, 50), (EXPORTS_DAILY, 100)],
     plan_api_rate_per_minute = 5000, plan_upload_limit_bytes = 500 * 1024 * 1024, plan_import_batch_limit = 50000,
     plan_audit_retention_days = 2555, plan_ai_token_budget_monthly = 20000000, plan_sort = 3\<rparr>"

definition EXTERNALLY_GATED :: "Feature list" where
  "EXTERNALLY_GATED = [WHATSAPP, EMAIL, SMS, VOICE, PAYMENTS, SIGNATURES, SSO]"

section \<open>Decisions\<close>

datatype decision_detail =
    No_detail
  | Tenant_override Feature
  | Not_in_plan Feature PlanCode bool
  | Not_activated Feature bool
  | No_limit
  | Over_quota Meter int int int
  | Within_quota int int bool

record EntitlementDecision =
  ed_allowed :: bool
  ed_code :: "string option"
  ed_detail :: decision_detail

definition deny_feature :: "decision_detail \<Rightarrow> EntitlementDecision" where
  "deny_feature d = \<lparr>ed_allowed = False, ed_code = Some ''FEATURE_NOT_AVAILABLE'', ed_detail = d\<rparr>"

definition check_feature :: "PlanCode \<Rightarrow> Feature \<Rightarrow> bool \<Rightarrow> bool option \<Rightarrow> EntitlementDecision" where
  "check_feature plan_code feat flag_enabled tenant_override =
     (if tenant_override = Some False then deny_feature (Tenant_override feat)
      else if feat \<notin> set (plan_features (PLANS plan_code)) \<and> tenant_override \<noteq> Some True
      then deny_feature (Not_in_plan feat plan_code (feat \<notin> set EXTERNALLY_GATED))
      else if \<not> flag_enabled then deny_feature (Not_activated feat (feat \<in> set EXTERNALLY_GATED))
      else \<lparr>ed_allowed = True, ed_code = None, ed_detail = No_detail\<rparr>)"

definition plan_limit :: "PlanCode \<Rightarrow> Meter \<Rightarrow> int" where
  "plan_limit plan_code meter = (case map_of (plan_limits (PLANS plan_code)) meter of None \<Rightarrow> UNLIMITED | Some l \<Rightarrow> l)"

definition check_quota :: "PlanCode \<Rightarrow> Meter \<Rightarrow> int \<Rightarrow> int \<Rightarrow> int option \<Rightarrow> EntitlementDecision" where
  "check_quota plan_code meter current requested override_limit =
     (let limit = (case override_limit of Some l \<Rightarrow> l | None \<Rightarrow> plan_limit plan_code meter);
          projected = current + requested
      in if limit = UNLIMITED then \<lparr>ed_allowed = True, ed_code = None, ed_detail = No_limit\<rparr>
         else if projected > limit
         then \<lparr>ed_allowed = False, ed_code = Some ''QUOTA_EXCEEDED'', ed_detail = Over_quota meter limit current requested\<rparr>
         else \<lparr>ed_allowed = True, ed_code = None,
               ed_detail = Within_quota limit (limit - projected) (5 * projected \<ge> 4 * limit)\<rparr>)"

definition quota_warning_threshold :: "int \<Rightarrow> int \<Rightarrow> bool" where
  "quota_warning_threshold current limit = (limit \<noteq> UNLIMITED \<and> limit > 0 \<and> 5 * current \<ge> 4 * limit)"

section \<open>Plans get wider\<close>

fun plan_rank :: "PlanCode \<Rightarrow> nat" where
  "plan_rank STARTER = 0" | "plan_rank GROWTH = 1" | "plan_rank ENTERPRISE = 2"

definition covers :: "int \<Rightarrow> int \<Rightarrow> bool" where
  "covers big small = (big = UNLIMITED \<or> small \<noteq> UNLIMITED \<and> small \<le> big)"

lemma features_grow: "plan_rank p \<le> plan_rank q \<Longrightarrow> set (plan_features (PLANS p)) \<subseteq> set (plan_features (PLANS q))"
  by (cases p; cases q) (auto simp: COMMON_def all_features_def)

lemma limits_grow: "plan_rank p \<le> plan_rank q \<Longrightarrow> covers (plan_limit q m) (plan_limit p m)"
  by (cases p; cases q; cases m) (simp_all add: covers_def plan_limit_def UNLIMITED_def GB_def)

section \<open>Properties\<close>

text \<open>A higher plan never takes anything away: every feature check and every quota check that succeeds on a plan also
  succeeds on a higher one, under the same flags, overrides and usage.\<close>

theorem plan_upgrade_monotone:
  assumes "plan_rank p \<le> plan_rank q"
  shows "(ed_allowed (check_feature p f flag ovr) \<longrightarrow> ed_allowed (check_feature q f flag ovr))
    \<and> (ed_allowed (check_quota p m current requested limit) \<longrightarrow> ed_allowed (check_quota q m current requested limit))"
  using features_grow [OF assms] limits_grow [OF assms, of m]
  by (auto simp: check_feature_def deny_feature_def check_quota_def covers_def Let_def split: option.splits if_splits)

theorem plan_upgrade_monotone_witness:
  "ed_allowed (check_feature GROWTH PAYMENTS True None) \<and> ed_allowed (check_feature ENTERPRISE PAYMENTS True None)"
proof -
  have g: "ed_allowed (check_feature GROWTH PAYMENTS True None)" by code_simp
  with plan_upgrade_monotone [of GROWTH ENTERPRISE PAYMENTS True None] show ?thesis by simp
qed

text \<open>A feature is available exactly when the tenant is not opted out, the plan or an explicit tenant grant includes it,
  and its runtime flag is on; voice is in no plan.\<close>

theorem check_feature_iff:
  "(ed_allowed (check_feature p f flag ovr) \<longleftrightarrow>
      ovr \<noteq> Some False \<and> (f \<in> set (plan_features (PLANS p)) \<or> ovr = Some True) \<and> flag)
   \<and> VOICE \<notin> set (plan_features (PLANS p))"
  by (cases p) (auto simp: check_feature_def deny_feature_def COMMON_def all_features_def)

text \<open>The usage a tenant accumulates when each request is admitted by the quota check.\<close>

definition consume :: "PlanCode \<Rightarrow> Meter \<Rightarrow> int option \<Rightarrow> int \<Rightarrow> int \<Rightarrow> int" where
  "consume p m ovr current requested =
     (if ed_allowed (check_quota p m current requested ovr) then current + requested else current)"

text \<open>Usage admitted request by request never exceeds a finite limit, whatever the requests, and a request is refused
  only when it would.\<close>

theorem quota_never_exceeded:
  assumes "limit = (case ovr of Some l \<Rightarrow> l | None \<Rightarrow> plan_limit p m)" and "limit \<noteq> UNLIMITED" and "start \<le> limit"
  shows "foldl (consume p m ovr) start requests \<le> limit
    \<and> (consume p m ovr start r = start + r \<longleftrightarrow> r = 0 \<or> start + r \<le> limit)"
proof -
  have step: "consume p m ovr c x \<le> limit" if "c \<le> limit" for c x
    using that assms(1,2) by (auto simp: consume_def check_quota_def Let_def)
  have "foldl (consume p m ovr) c requests \<le> limit" if "c \<le> limit" for c
    using that by (induction requests arbitrary: c) (simp_all add: step)
  with assms show ?thesis by (auto simp: consume_def check_quota_def Let_def)
qed

theorem quota_never_exceeded_witness: "foldl (consume STARTER USERS None) 0 [1, 1, 1, 1, 1] \<le> 3"
proof -
  have "plan_limit STARTER USERS = 3" by code_simp
  with quota_never_exceeded [where limit = 3 and ovr = None and p = STARTER and m = USERS and start = 0 and requests = "[1, 1, 1, 1, 1]"] show ?thesis by (simp add: UNLIMITED_def)
qed

end
