(* ===== verification/Workflow_Triggers.thy ===== *)
theory Workflow_Triggers
  imports Workflow_Runtime Event_Catalog Once_Store Entitlements Outbox
begin

text \<open>
  \<^verbatim>\<open>application/workflows/triggers.py\<close>: the two outbox handlers. One creates a workflow execution for every active
  workflow whose trigger matches an event, the other records a delivery for every webhook subscribed to it.
  Both are called at least once per event and rely on unique keys to act once. Their tables are part of
  \<open>trigger_db\<close>; \<open>tg_jobs\<close> are the execution tasks the message broker has taken. New row identifiers are arguments, and
  so is what the broker does with each task: the task is sent after the transaction with the new execution has
  committed, so a broker that raises leaves the execution behind.
\<close>

section \<open>Tables\<close>

record definition_row =
  wd_id :: string
  wd_tenant :: string
  wd_is_active :: bool
  wd_active_version :: "string option"
  wd_paused_at :: "instant option"
  wd_kill_switch :: bool
  wd_deleted_at :: "instant option"
  wd_lock_version :: int
  wd_updated_by :: "string option"
  wd_created_by :: "string option"

record version_row =
  wv_id :: string
  wv_tenant :: string
  wv_workflow :: string
  wv_status :: string
  wv_content :: jdict
  wv_hash :: string

record webhook_config =
  wc_id :: string
  wc_tenant :: string
  wc_event_types :: "json list"
  wc_is_active :: bool
  wc_disabled_at :: "instant option"

record webhook_delivery =
  wy_tenant :: string
  wy_config :: string
  wy_event :: string
  wy_event_type :: string
  wy_key :: string
  wy_payload :: jdict
  wy_status :: string
  wy_attempts :: int
  wy_next_attempt :: "instant option"

record trigger_db =
  tg_tenants :: "(string \<times> PlanCode) list"
  tg_definitions :: "definition_row list"
  tg_versions :: "version_row list"
  tg_configs :: "webhook_config list"
  tg_deliveries :: "webhook_delivery list"
  tg_wf :: wf_db
  tg_jobs :: "(string \<times> string) list"

section \<open>Matching\<close>

text \<open>
  \<^verbatim>\<open>dict(x)\<close> of a decoded value. An iterable of pairs is a dictionary too; a pair whose key is not text is
  dropped, since only text keys are looked up later.
\<close>

definition pair_of :: "json \<Rightarrow> (py_exc, (string \<times> json) option) res" where
  "pair_of j = (case iterate j of
      Inl err \<Rightarrow> Inl err
    | Inr [k, v] \<Rightarrow> if hashable k then Inr (case k of JStr s \<Rightarrow> Some (s, v) | _ \<Rightarrow> None) else Inl TypeError
    | Inr _ \<Rightarrow> Inl ValueError)"

definition py_dict :: "json \<Rightarrow> (py_exc, jdict) res" where
  "py_dict j = (case j of
      JDict d \<Rightarrow> Inr d
    | _ \<Rightarrow> rbind (iterate j) (\<lambda>xs. rfold (\<lambda>d x. rbind (pair_of x) (\<lambda>p.
             Inr (case p of None \<Rightarrow> d | Some (k, v) \<Rightarrow> aput k v d))) [] xs))"

definition dict_at :: "string \<Rightarrow> jdict \<Rightarrow> (py_exc, jdict) res" where
  "dict_at k d = py_dict (por (dget k d) (JDict []))"

definition text_at :: "string \<Rightarrow> jdict \<Rightarrow> string" where
  "text_at k d = py_str (por (dget k d) (JStr []))"

definition changed_fields :: "jdict \<Rightarrow> string list" where
  "changed_fields data = (case dget_or ''changed'' (JList []) data of
      JStr s \<Rightarrow> [s] | JList xs \<Rightarrow> map py_str xs | _ \<Rightarrow> [])"

definition trigger_matched :: "string \<Rightarrow> string \<Rightarrow> jdict \<Rightarrow> jdict \<Rightarrow> (py_exc, bool) res" where
  "trigger_matched trigger_type event_type trigger payload =
     (if trigger_type = ''entity.created''
      then Inr (py_endswith event_type ''.created'' \<or> event_type \<in> {''lead.created'', ''contact.created''})
      else if trigger_type = ''entity.updated'' then Inr (py_endswith event_type ''.updated'')
      else if trigger_type = ''entity.field_changed'' then
        rbind (dict_at ''data'' payload) (\<lambda>data. Inr (py_endswith event_type ''.updated''
          \<and> (\<not> truthy (dget ''field'' trigger) \<or> py_str (dget ''field'' trigger) \<in> set (changed_fields data))))
      else if trigger_type = ''deal.stage_changed'' then Inr (event_type = ''opportunity.stage_changed'')
      else if trigger_type = ''message.inbound'' then Inr (event_type = ''conversation.message_received'')
      else if trigger_type = ''payment.event'' then Inr (py_startswith event_type ''payment.'')
      else if trigger_type = ''appointment.event'' then Inr (py_startswith event_type ''appointment.'')
      else if trigger_type = ''document.event'' then Inr (py_startswith event_type ''document.'')
      else if trigger_type = ''approval.event'' then Inr (py_startswith event_type ''approval.'')
      else Inr False)"

definition matches_trigger :: "jdict \<Rightarrow> jdict \<Rightarrow> (py_exc, bool) res" where
  "matches_trigger trigger payload =
     (let event_type = text_at ''event_type'' payload;
          explicit = por (dget ''event_types'' trigger) (dget ''event_type'' trigger) in
      if (case explicit of JStr s \<Rightarrow> s \<noteq> event_type | JList xs \<Rightarrow> event_type \<notin> set (map py_str xs) | _ \<Rightarrow> False)
      then Inr False
      else rbind (dict_at ''resource'' payload) (\<lambda>resource.
        let configured = text_at ''entity'' trigger in
        if configured \<noteq> [] \<and> configured \<noteq> text_at ''type'' resource then Inr False
        else trigger_matched (text_at ''type'' trigger) event_type trigger payload))"

section \<open>Creating executions\<close>

definition execution_slot :: "execution_row \<Rightarrow> string \<times> string" where
  "execution_slot e = (ex_tenant e, ex_key e)"

text \<open>\<^verbatim>\<open>{**dict(payload.get("data") or {}), "id": ..., "type": ...}\<close>.\<close>

definition trigger_entity :: "jdict \<Rightarrow> jdict \<Rightarrow> jdict" where
  "trigger_entity data resource = aput ''type'' (dget ''type'' resource) (aput ''id'' (dget ''id'' resource) data)"

definition triggered_row :: "string \<Rightarrow> string \<Rightarrow> string \<Rightarrow> jdict \<Rightarrow> definition_row \<Rightarrow> version_row \<Rightarrow> (py_exc, execution_row) res" where
  "triggered_row fresh tenant event_id payload d v =
     rbind (dict_at ''resource'' payload) (\<lambda>resource.
     rbind (dict_at ''data'' payload) (\<lambda>data.
     rbind (jget ''type'' (dget_or ''trigger'' (JDict []) (wv_content v))) (\<lambda>trigger_type.
       Inr \<lparr>ex_id = fresh, ex_tenant = tenant, ex_workflow = wd_id d, ex_version = wv_id v, ex_content_hash = wv_hash v,
            ex_trigger_payload = payload, ex_entity = trigger_entity data resource, ex_waiting_on = None, ex_resume_nodes = [],
            ex_state = ''pending'', ex_key = execution_idempotency_key (wd_id d) (wv_id v) event_id, ex_started_at = None,
            ex_finished_at = None, ex_resume_at = None, ex_error = [], ex_dry_run = False,
            ex_correlation = (case dget ''correlation_id'' payload of JStr c \<Rightarrow> Some c | _ \<Rightarrow> None),
            ex_trigger_type = py_str trigger_type, ex_trigger_event = Some event_id\<rparr>)))"

text \<open>\<^verbatim>\<open>execute_workflow.apply_async\<close>: the broker takes the task, refuses it, or takes it and fails to confirm.\<close>

datatype broker = Accepts | Refuses | Loses_reply

datatype trigger_fault = Raised py_exc | Broker_error

definition apply_async :: "broker \<Rightarrow> string \<times> string \<Rightarrow> trigger_db \<Rightarrow> trigger_fault option \<times> trigger_db" where
  "apply_async b job db = (case b of
      Accepts \<Rightarrow> (None, db\<lparr>tg_jobs := tg_jobs db @ [job]\<rparr>)
    | Refuses \<Rightarrow> (Some Broker_error, db)
    | Loses_reply \<Rightarrow> (Some Broker_error, db\<lparr>tg_jobs := tg_jobs db @ [job]\<rparr>))"

text \<open>
  The first transaction: the insert does nothing on a conflict. It gives the execution to send, and whether to send it:
  one that is there already is sent again while it is still pending, for its task may never have reached the broker.
\<close>

definition store_execution :: "string \<Rightarrow> execution_row \<Rightarrow> trigger_db \<Rightarrow> (string \<times> bool) \<times> trigger_db" where
  "store_execution event_id e db =
     (let wf = tg_wf db in
      case row_at execution_slot (execution_slot e) (wf_executions wf) of
        None \<Rightarrow> ((ex_id e, True), db\<lparr>tg_wf := add_outbox \<lparr>lg_type = ''workflow.execution_started'', lg_tenant = ex_tenant e, lg_resource = ex_id e,
                   lg_actor = None, lg_values = [(''workflow_id'', JStr (ex_workflow e)), (''version_id'', JStr (ex_version e)),
                     (''trigger_event_id'', JStr event_id)]\<rparr>
                 (wf\<lparr>wf_executions := add_row execution_slot e (wf_executions wf)\<rparr>)\<rparr>)
      | Some old \<Rightarrow> ((ex_id old, ex_state old = ''pending''), db))"

definition create_triggered_execution :: "broker \<Rightarrow> string \<Rightarrow> string \<Rightarrow> string \<Rightarrow> jdict \<Rightarrow> definition_row \<Rightarrow> version_row \<Rightarrow> trigger_db
    \<Rightarrow> trigger_fault option \<times> trigger_db" where
  "create_triggered_execution b fresh tenant event_id payload d v db =
     (case triggered_row fresh tenant event_id payload d v of
        Inl err \<Rightarrow> (Some (Raised err), db)
      | Inr e \<Rightarrow>
          let ((actual_id, created), db') = store_execution event_id e db
          in if created then apply_async b (tenant, actual_id) db' else (None, db'))"

definition active_workflows :: "string \<Rightarrow> trigger_db \<Rightarrow> (definition_row \<times> version_row) list" where
  "active_workflows tenant db =
     filter (\<lambda>(d, v). wd_tenant d = tenant \<and> wv_tenant v = tenant \<and> wd_active_version d = Some (wv_id v) \<and> wd_is_active d
         \<and> \<not> wd_kill_switch d \<and> wd_paused_at d = None \<and> wd_deleted_at d = None \<and> wv_status v = ''published'')
       (List.product (tg_definitions db) (tg_versions db))"

text \<open>The loop over the workflows; an exception leaves the executions created before it.\<close>

fun queue_triggers :: "(nat \<Rightarrow> broker) \<Rightarrow> (nat \<Rightarrow> string) \<Rightarrow> string \<Rightarrow> string \<Rightarrow> jdict \<Rightarrow> (definition_row \<times> version_row) list \<Rightarrow> trigger_db
    \<Rightarrow> trigger_fault option \<times> trigger_db" where
  "queue_triggers b fresh tenant event_id payload [] db = (None, db)"
| "queue_triggers b fresh tenant event_id payload ((d, v) # rows) db =
     (case rbind (dict_at ''trigger'' (wv_content v)) (\<lambda>trigger. matches_trigger trigger payload) of
        Inl err \<Rightarrow> (Some (Raised err), db)
      | Inr False \<Rightarrow> queue_triggers b fresh tenant event_id payload rows db
      | Inr True \<Rightarrow>
          (case create_triggered_execution (b (length rows)) (fresh (length rows)) tenant event_id payload d v db of
             (Some err, db') \<Rightarrow> (Some err, db')
           | (None, db') \<Rightarrow> queue_triggers b fresh tenant event_id payload rows db'))"

text \<open>The two identifiers of an event; a missing or malformed one makes the handler give up quietly.\<close>

definition event_ids :: "jdict \<Rightarrow> (string \<times> string) option" where
  "event_ids payload =
     (case (map_of payload ''tenant_id'', map_of payload ''event_id'') of
        (Some t, Some e) \<Rightarrow> (case (uuid_of (py_str t), uuid_of (py_str e)) of (Some t', Some e') \<Rightarrow> Some (t', e') | _ \<Rightarrow> None)
      | _ \<Rightarrow> None)"

definition handle_domain_event :: "bool \<Rightarrow> (nat \<Rightarrow> broker) \<Rightarrow> (nat \<Rightarrow> string) \<Rightarrow> jdict \<Rightarrow> trigger_db \<Rightarrow> trigger_fault option \<times> trigger_db" where
  "handle_domain_event workflows_enabled b fresh payload db =
     (if text_at ''event_type'' payload \<notin> set ALL_EVENT_TYPES then (None, db)
      else case event_ids payload of
        None \<Rightarrow> (None, db)
      | Some (tenant, event_id) \<Rightarrow>
          (case map_of (tg_tenants db) tenant of
             None \<Rightarrow> (None, db)
           | Some plan \<Rightarrow>
               if \<not> ed_allowed (check_feature plan WORKFLOWS workflows_enabled None) then (None, db)
               else queue_triggers b fresh tenant event_id payload (active_workflows tenant db) db))"

section \<open>Outbound webhooks\<close>

definition delivery_slot :: "webhook_delivery \<Rightarrow> string \<times> string" where
  "delivery_slot y = (wy_config y, wy_key y)"

definition subscribed_configs :: "string \<Rightarrow> string \<Rightarrow> trigger_db \<Rightarrow> webhook_config list" where
  "subscribed_configs tenant event_type db =
     filter (\<lambda>c. wc_tenant c = tenant \<and> wc_is_active c \<and> wc_disabled_at c = None
         \<and> (event_type \<in> set (map py_str (wc_event_types c)) \<or> ''*'' \<in> set (map py_str (wc_event_types c)))) (tg_configs db)"

definition pending_delivery :: "instant \<Rightarrow> string \<Rightarrow> string \<Rightarrow> string \<Rightarrow> jdict \<Rightarrow> webhook_config \<Rightarrow> webhook_delivery" where
  "pending_delivery now tenant event_id event_type payload c =
     \<lparr>wy_tenant = tenant, wy_config = wc_id c, wy_event = event_id, wy_event_type = event_type,
      wy_key = wc_id c @ '':'' @ event_id, wy_payload = payload, wy_status = ''pending'', wy_attempts = 0,
      wy_next_attempt = Some now\<rparr>"

definition handle_outbound_webhook :: "instant \<Rightarrow> jdict \<Rightarrow> trigger_db \<Rightarrow> trigger_fault option \<times> trigger_db" where
  "handle_outbound_webhook now payload db =
     (let event_type = text_at ''event_type'' payload in
      if \<not> is_public event_type then (None, db)
      else case event_ids payload of
        None \<Rightarrow> (None, db)
      | Some (tenant, event_id) \<Rightarrow>
          (None, db\<lparr>tg_deliveries := foldl (\<lambda>ys c. add_row delivery_slot (pending_delivery now tenant event_id event_type payload c) ys)
             (tg_deliveries db) (subscribed_configs tenant event_type db)\<rparr>))"

definition register_workflow_handlers :: "dispatcher \<Rightarrow> dispatcher" where
  "register_workflow_handlers d =
     subscribe ''*'' ''handle_outbound_webhook'' (subscribe ''*'' ''handle_domain_event'' d)"

end
