(* ===== verification/Workflow_Triggers_Safety.thy ===== *)
theory Workflow_Triggers_Safety
  imports Workflow_Triggers
begin

text \<open>
  The outbox delivers an event at least once; the handlers of \<^verbatim>\<open>triggers.py\<close> act on it exactly once, because both
  write through unique keys. The lemmas describe a handler by the rows it tries to insert, so that the laws of
  \<open>once_store\<close> carry over to sequences of deliveries.
\<close>

section \<open>Tables with unique keys\<close>

abbreviation executions :: "trigger_db \<Rightarrow> execution_row list" where
  "executions db \<equiv> wf_executions (tg_wf db)"

abbreviation insert_executions :: "execution_row list \<Rightarrow> execution_row list \<Rightarrow> execution_row list" where
  "insert_executions \<equiv> once_store.put_all (add_row execution_slot)"

abbreviation insert_deliveries :: "webhook_delivery list \<Rightarrow> webhook_delivery list \<Rightarrow> webhook_delivery list" where
  "insert_deliveries \<equiv> once_store.put_all (add_row delivery_slot)"

lemma put_all_Cons [simp]:
  "once_store.put_all (add_row key) [] rows = rows"
  "once_store.put_all (add_row key) (r # rs) rows = once_store.put_all (add_row key) rs (add_row key r rows)"
  by (simp_all add: table.put_all_def)

lemma put_all_append: "once_store.put_all (add_row key) (rs @ rs') rows
    = once_store.put_all (add_row key) rs' (once_store.put_all (add_row key) rs rows)"
  by (simp add: table.put_all_def)

lemma distinct_put_all: "distinct (map key rows) \<Longrightarrow> distinct (map key (once_store.put_all (add_row key) rs rows))"
  by (induction rs arbitrary: rows) (simp_all add: distinct_add_row)

lemma row_at_put_all: "row_at key k (once_store.put_all (add_row key) rs rows) =
    (case row_at key k rows of Some r \<Rightarrow> Some r | None \<Rightarrow> List.find (\<lambda>r. key r = k) rs)"
  by (rule table.first_wins)

lemma one_row: "distinct (map key rows) \<Longrightarrow> row_at key k rows \<noteq> None \<Longrightarrow> length (filter (\<lambda>r. key r = k) rows) = 1"
proof (induction rows)
  case Nil
  then show ?case by (simp add: row_at_def)
next
  case (Cons r rows)
  show ?case
  proof (cases "key r = k")
    case True
    then have "filter (\<lambda>r. key r = k) rows = []" using Cons.prems(1) by (auto simp: filter_empty_conv) (metis imageI)
    with True show ?thesis by simp
  next
    case False
    with Cons show ?thesis by (simp add: row_at_def)
  qed
qed

section \<open>What a handler leaves as it is\<close>

definition same_setup :: "trigger_db \<Rightarrow> trigger_db \<Rightarrow> bool" where
  "same_setup db db' \<longleftrightarrow> tg_tenants db' = tg_tenants db \<and> tg_definitions db' = tg_definitions db
     \<and> tg_versions db' = tg_versions db \<and> tg_configs db' = tg_configs db"

text \<open>The rows a step inserts, the executions as pending ones; tasks are only added.\<close>

definition extends :: "trigger_db \<Rightarrow> trigger_db \<Rightarrow> execution_row list \<Rightarrow> webhook_delivery list \<Rightarrow> bool" where
  "extends db db' es ys \<longleftrightarrow> same_setup db db' \<and> executions db' = insert_executions es (executions db)
     \<and> (\<forall>e\<in>set es. ex_state e = ''pending'')
     \<and> tg_deliveries db' = insert_deliveries ys (tg_deliveries db) \<and> set (tg_jobs db) \<subseteq> set (tg_jobs db')"

lemma extends_refl [simp]: "extends db db [] []"
  by (simp add: extends_def same_setup_def)

lemma extends_trans:
  assumes "extends db db' es ys" and "extends db' db'' es' ys'"
  shows "extends db db'' (es @ es') (ys @ ys')"
proof -
  have "same_setup db db''" using assms by (simp add: extends_def same_setup_def)
  moreover have "set (tg_jobs db) \<subseteq> set (tg_jobs db'')" using assms unfolding extends_def by (metis subset_trans)
  moreover have "executions db'' = insert_executions (es @ es') (executions db)"
      "tg_deliveries db'' = insert_deliveries (ys @ ys') (tg_deliveries db)"
    using assms unfolding extends_def by (simp_all only: put_all_append)
  moreover have "\<forall>e\<in>set (es @ es'). ex_state e = ''pending''" using assms by (auto simp: extends_def)
  ultimately show ?thesis unfolding extends_def by blast
qed


lemma same_setup_subscribed: "same_setup db db' \<Longrightarrow> subscribed_configs tenant t db' = subscribed_configs tenant t db"
  by (simp add: same_setup_def subscribed_configs_def)

lemma triggered_slot: "triggered_row fresh tenant event_id payload d v = Inr e \<Longrightarrow>
    execution_slot e = (tenant, execution_idempotency_key (wd_id d) (wv_id v) event_id) \<and> ex_id e = fresh \<and> ex_tenant e = tenant
    \<and> ex_state e = ''pending''"
  by (auto simp: triggered_row_def rbind_eq_Inr execution_slot_def)

lemma store_extends:
  assumes "store_execution event_id e db = ((actual, created), db')" and "ex_state e = ''pending''"
  shows "extends db db' [e] [] \<and> (\<exists>e'. row_at execution_slot (execution_slot e) (executions db') = Some e' \<and> ex_id e' = actual
    \<and> (created \<or> ex_state e' \<noteq> ''pending''))"
  using assms by (auto simp: store_execution_def Let_def extends_def same_setup_def add_outbox_def add_row_def row_at_append
      split: option.splits)

lemma apply_async_extends: "extends db (snd (apply_async b job db)) [] []"
  by (cases b) (auto simp: apply_async_def extends_def same_setup_def)



lemma create_cases:
  obtains (raised) err where "triggered_row fresh tenant event_id payload d v = Inl err"
    "create_triggered_execution b fresh tenant event_id payload d v db = (Some (Raised err), db)"
  | (stored) e actual created db' where "triggered_row fresh tenant event_id payload d v = Inr e"
    "store_execution event_id e db = ((actual, created), db')"
    "create_triggered_execution b fresh tenant event_id payload d v db
       = (if created then apply_async b (tenant, actual) db' else (None, db'))"
proof (cases "triggered_row fresh tenant event_id payload d v")
  case (Inl err)
  then show thesis by (intro raised [of err]) (simp_all add: create_triggered_execution_def)
next
  case (Inr e)
  obtain actual created db' where st: "store_execution event_id e db = ((actual, created), db')"
    by (cases "store_execution event_id e db") auto
  with Inr show thesis by (intro stored [OF Inr st]) (simp add: create_triggered_execution_def)
qed

lemma create_extends: "\<exists>es. extends db (snd (create_triggered_execution b fresh tenant event_id payload d v db)) es []"
proof (cases rule: create_cases [of fresh tenant event_id payload d v b db])
  case (raised err)
  then show ?thesis by (intro exI [of _ "[]"]) simp
next
  case (stored e actual created db')
  have "extends db db' [e] []" using store_extends [OF stored(2)] triggered_slot [OF stored(1)] by blast
  from extends_trans [OF this apply_async_extends [of db' b "(tenant, actual)"]] this show ?thesis
    unfolding stored(3) by (cases created) (auto intro: exI [of _ "[e]"])
qed




lemma queue_extends: "\<exists>es. extends db (snd (queue_triggers b fresh tenant event_id payload rows db)) es []"
proof (induction rows arbitrary: db)
  case Nil
  show ?case by (intro exI [of _ "[]"]) simp
next
  case (Cons row rows)
  obtain d v where row [simp]: "row = (d, v)" by force
  let ?m = "rbind (dict_at ''trigger'' (wv_content v)) (\<lambda>trigger. matches_trigger trigger payload)"
  obtain f db' where c: "create_triggered_execution (b (length rows)) (fresh (length rows)) tenant event_id payload d v db = (f, db')" by force
  obtain es where es: "extends db db' es []" using create_extends [of db "b (length rows)" "fresh (length rows)" tenant event_id payload d v] c by auto
  obtain es' where es': "extends db' (snd (queue_triggers b fresh tenant event_id payload rows db')) es' []" using Cons by blast
  consider (stop) err where "?m = Inl err" | (skip) "?m = Inr False" | (make) "?m = Inr True" by (cases ?m) auto
  then show ?case
  proof cases
    case stop
    then show ?thesis by (intro exI [of _ "[]"]) simp
  next
    case skip
    then show ?thesis using Cons by simp
  next
    case make
    then show ?thesis using c es extends_trans [OF es es'] by (cases f) auto
  qed
qed

lemma domain_extends: "\<exists>es. extends db (snd (handle_domain_event en b fresh payload db)) es []"
proof (cases "snd (handle_domain_event en b fresh payload db) = db")
  case True
  then show ?thesis by (intro exI [of _ "[]"]) simp
next
  case False
  then obtain tenant event_id where "handle_domain_event en b fresh payload db =
      queue_triggers b fresh tenant event_id payload (active_workflows tenant db) db"
    by (auto simp: handle_domain_event_def split: if_splits option.splits)
  then show ?thesis using queue_extends by simp
qed

lemma webhook_fold: "foldl (\<lambda>ys c. add_row delivery_slot (f c) ys) ys cs = insert_deliveries (map f cs) ys"
  by (induction cs arbitrary: ys) simp_all

lemma webhook_extends: "extends db (snd (handle_outbound_webhook now payload db)) []
    (case event_ids payload of None \<Rightarrow> [] | Some (tenant, event_id) \<Rightarrow>
       if is_public (text_at ''event_type'' payload)
       then map (pending_delivery now tenant event_id (text_at ''event_type'' payload) payload)
              (subscribed_configs tenant (text_at ''event_type'' payload) db) else [])"
  by (auto simp: handle_outbound_webhook_def Let_def extends_def same_setup_def webhook_fold split: option.split)

section \<open>What a delivered event has caused\<close>






section \<open>Sequences of deliveries\<close>

text \<open>
  What the handlers meet: new identifiers, the clock, the broker and outages of the database for the \<open>n\<close>-th delivery, the
  stored payload of an event, and the tables at the start. An outage fails a delivery before it has any effect.
\<close>

record trigger_world =
  tw_enabled :: bool
  tw_fresh :: "nat \<Rightarrow> nat \<Rightarrow> string"
  tw_clock :: "nat \<Rightarrow> instant"
  tw_broker :: "nat \<Rightarrow> nat \<Rightarrow> broker"
  tw_outage :: "nat \<Rightarrow> string option"
  tw_payload :: "event_key \<Rightarrow> jdict"
  tw_db :: trigger_db

definition fault_text :: "trigger_fault \<Rightarrow> string" where
  "fault_text f = (case f of Raised _ \<Rightarrow> ''handler raised'' | Broker_error \<Rightarrow> ''broker unavailable'')"

definition call_handler :: "trigger_world \<Rightarrow> nat \<Rightarrow> string \<Rightarrow> jdict \<Rightarrow> trigger_db \<Rightarrow> string option \<times> trigger_db" where
  "call_handler w n h payload db = (case tw_outage w n of
      Some err \<Rightarrow> (Some err, db)
    | None \<Rightarrow> map_prod (map_option fault_text) id
        (if h = ''handle_domain_event'' then handle_domain_event (tw_enabled w) (tw_broker w n) (tw_fresh w n) payload db
         else handle_outbound_webhook (tw_clock w n) payload db))"

text \<open>The tables after a log of deliveries, and what the outbox sees of the handlers: the outcome of the next call.\<close>

fun deliver :: "trigger_world \<Rightarrow> nat \<Rightarrow> trigger_db \<Rightarrow> delivery list \<Rightarrow> trigger_db" where
  "deliver w n db [] = db"
| "deliver w n db ((k, h) # sent) = deliver w (Suc n) (snd (call_handler w n h (tw_payload w k) db)) sent"

definition trigger_run :: "trigger_world \<Rightarrow> behaviour" where
  "trigger_run w sent h payload = (case payload of
      JDict d \<Rightarrow> fst (call_handler w (length sent) h d (deliver w 0 (tw_db w) sent))
    | _ \<Rightarrow> Some ''AttributeError'')"

lemma handler_extends: "\<exists>es ys. extends db (snd (call_handler w n h payload db)) es ys"
proof (cases "tw_outage w n")
  case None
  show ?thesis
  proof (cases "h = ''handle_domain_event''")
    case True
    with None domain_extends [of db "tw_enabled w" "tw_broker w n" "tw_fresh w n" payload] show ?thesis by (auto simp: call_handler_def)
  next
    case False
    with None webhook_extends [of db "tw_clock w n" payload] show ?thesis by (auto simp: call_handler_def)
  qed
next
  case (Some err)
  then show ?thesis by (intro exI [of _ "[]"]) (simp add: call_handler_def)
qed

lemma deliver_extends: "\<exists>es ys. extends db (deliver w n db sent) es ys"
proof (induction sent arbitrary: n db)
  case Nil
  show ?case by (intro exI [of _ "[]"]) simp
next
  case (Cons x sent)
  obtain k h where x: "x = (k, h)" by (cases x)
  let ?db' = "snd (call_handler w n h (tw_payload w k) db)"
  obtain es ys where "extends db ?db' es ys" using handler_extends by blast
  moreover obtain es' ys' where "extends ?db' (deliver w (Suc n) ?db' sent) es' ys'" using Cons by blast
  ultimately have "extends db (deliver w (Suc n) ?db' sent) (es @ es') (ys @ ys')" by (rule extends_trans)
  then show ?case unfolding x by (simp only: deliver.simps) blast
qed

lemma same_setup_trans: "same_setup a b \<Longrightarrow> same_setup b c \<Longrightarrow> same_setup a c"
  by (simp add: same_setup_def)

lemma call_setup: "same_setup db (snd (call_handler w n h payload db))"
  using handler_extends [of db w n h payload] by (auto simp: extends_def)

lemma deliver_keeps:
  assumes "\<And>n h payload db. same_setup db0 db \<Longrightarrow> P db \<Longrightarrow> P (snd (call_handler w n h payload db))" and "same_setup db0 db" and "P db"
  shows "P (deliver w n db sent)"
  using assms(2,3)
proof (induction sent arbitrary: n db)
  case Nil
  then show ?case by simp
next
  case (Cons x sent)
  obtain k h where x: "x = (k, h)" by (cases x)
  show ?case unfolding x deliver.simps by (intro Cons.IH same_setup_trans [OF Cons.prems(1) call_setup] assms(1) Cons.prems)
qed

lemma deliver_append: "deliver w n db (xs @ ys) = deliver w (n + length xs) (deliver w n db xs) ys"
  by (induction xs arbitrary: n db) (auto simp: split_paired_all)

section \<open>What closing an event means\<close>

text \<open>Somewhere in the log the handlers of the event were called one after the other and each of them returned.\<close>

definition returned_for :: "behaviour \<Rightarrow> dispatcher \<Rightarrow> delivery list \<Rightarrow> outbox_event \<Rightarrow> bool" where
  "returned_for run d sent r \<longleftrightarrow> (let hs = handlers_for d (oe_type r) in \<exists>before after.
     sent = before @ map (Pair (event_key r)) hs @ after
     \<and> (\<forall>i<length hs. run (before @ map (Pair (event_key r)) (take i hs)) (hs ! i) (oe_payload r) = None))"

definition closed_ok :: "behaviour \<Rightarrow> dispatcher \<Rightarrow> (event_key \<Rightarrow> json) \<Rightarrow> outbox_event list \<Rightarrow> delivery list \<Rightarrow> bool" where
  "closed_ok run d pl rows sent \<longleftrightarrow> distinct (map event_key rows)
     \<and> (\<forall>r\<in>set rows. oe_payload r = pl (event_key r) \<and> (oe_processed r \<noteq> None \<and> oe_attempts r < MAX_ATTEMPTS \<longrightarrow> returned_for run d sent r))"

lemma run_handlers_returned:
  "run_handlers run k payload hs sent = (None, sent') \<Longrightarrow>
     sent' = sent @ map (Pair k) hs \<and> (\<forall>i<length hs. run (sent @ map (Pair k) (take i hs)) (hs ! i) payload = None)"
proof (induction hs arbitrary: sent)
  case Nil
  then show ?case by simp
next
  case (Cons h hs)
  then have first: "run sent h payload = None" and "run_handlers run k payload hs (sent @ [(k, h)]) = (None, sent')"
    by (auto split: option.splits)
  from Cons.IH [OF this(2)] have rest: "sent' = (sent @ [(k, h)]) @ map (Pair k) hs"
    "\<And>i. i < length hs \<Longrightarrow> run ((sent @ [(k, h)]) @ map (Pair k) (take i hs)) (hs ! i) payload = None" by auto
  have "run (sent @ map (Pair k) (take i (h # hs))) ((h # hs) ! i) payload = None" if "i < length (h # hs)" for i
    using that first rest(2) by (cases i) auto
  with rest(1) show ?case by simp
qed

lemma returned_more: "returned_for run d sent r \<Longrightarrow> returned_for run d (sent @ extra) r"
  unfolding returned_for_def Let_def by (metis append.assoc)

lemma closed_ok_set_row:
  assumes "closed_ok run d pl rows sent" and "r \<in> set rows" and "event_key r' = event_key r" "oe_payload r' = oe_payload r"
    and "oe_processed r' \<noteq> None \<and> oe_attempts r' < MAX_ATTEMPTS \<longrightarrow> returned_for run d (sent @ extra) r'"
  shows "closed_ok run d pl (set_row event_key r' rows) (sent @ extra)"
proof -
  have "oe_payload x = pl (event_key x) \<and> (oe_processed x \<noteq> None \<and> oe_attempts x < MAX_ATTEMPTS \<longrightarrow> returned_for run d (sent @ extra) x)"
    if "x \<in> set (set_row event_key r' rows)" for x
    using set_row_cases [OF that] assms returned_more by (auto simp: closed_ok_def)
  with assms(1) show ?thesis by (simp add: closed_ok_def)
qed

lemma closed_ok_dispatch:
  assumes "closed_ok run d pl (po_rows p) (po_log p)" and "r \<in> set (po_rows p)" and "oe_processed r = None"
  shows "closed_ok run d pl (po_rows (dispatch_row d run now p r)) (po_log (dispatch_row d run now p r))"
proof -
  let ?hs = "handlers_for d (oe_type r)"
  obtain res sent where eq: "run_handlers run (event_key r) (oe_payload r) ?hs (po_log p) = (res, sent)" by force
  obtain tried where t: "sent = po_log p @ map (Pair (event_key r)) tried" using run_handlers_log [OF eq] by metis
  show ?thesis
  proof (cases res)
    case None
    from run_handlers_returned [OF eq [unfolded None]] have s: "sent = po_log p @ map (Pair (event_key r)) ?hs"
      and ok: "\<forall>i<length ?hs. run (po_log p @ map (Pair (event_key r)) (take i ?hs)) (?hs ! i) (oe_payload r) = None" by auto
    let ?r = "r\<lparr>oe_processed := Some now\<rparr>"
    have "returned_for run d (po_log p @ map (Pair (event_key r)) ?hs) ?r"
      unfolding returned_for_def Let_def using ok by (intro exI [of _ "po_log p"] exI [of _ "[]"]) simp
    then have "closed_ok run d pl (set_row event_key ?r (po_rows p)) (po_log p @ map (Pair (event_key r)) ?hs)"
      by (intro closed_ok_set_row [OF assms(1,2)]) simp_all
    with eq None s show ?thesis by (simp add: dispatch_row_def)
  next
    case (Some err)
    have "oe_payload (failed_row now err r) = oe_payload r"
      "oe_processed (failed_row now err r) \<noteq> None \<longrightarrow> \<not> oe_attempts (failed_row now err r) < MAX_ATTEMPTS"
      by (simp_all add: failed_row_def Let_def)
    then have "closed_ok run d pl (set_row event_key (failed_row now err r) (po_rows p)) (po_log p @ map (Pair (event_key r)) tried)"
      by (intro closed_ok_set_row [OF assms(1,2)]) auto
    with eq Some t show ?thesis by (simp add: dispatch_row_def Let_def)
  qed
qed

lemma closed_ok_fold:
  assumes "closed_ok run d pl (po_rows p) (po_log p)" and "\<forall>r\<in>set rs. r \<in> set (po_rows p) \<and> oe_processed r = None"
    and "distinct (map event_key rs)"
  shows "closed_ok run d pl (po_rows (foldl (dispatch_row d run now) p rs)) (po_log (foldl (dispatch_row d run now) p rs))"
  using assms
proof (induction rs arbitrary: p)
  case Nil
  then show ?case by simp
next
  case (Cons r rs)
  have "closed_ok run d pl (po_rows (dispatch_row d run now p r)) (po_log (dispatch_row d run now p r))"
    using Cons.prems by (intro closed_ok_dispatch) simp_all
  moreover have "\<forall>x\<in>set rs. x \<in> set (po_rows (dispatch_row d run now p r)) \<and> oe_processed x = None"
    using Cons.prems dispatch_row_others by (metis distinct.simps(2) image_eqI list.set_intros(2) list.set_map list.simps(9))
  ultimately show ?case using Cons.IH Cons.prems(3) by simp
qed

fun handled_by :: "behaviour \<Rightarrow> (event_key \<Rightarrow> json) \<Rightarrow> outbox_op \<Rightarrow> bool" where
  "handled_by run pl (Publish r) \<longleftrightarrow> oe_payload r = pl (event_key r)"
| "handled_by run pl (Poll now locked run') \<longleftrightarrow> run' = run"

lemma closed_ok_step:
  assumes "closed_ok run d pl (fst s) (snd s)" and "handled_by run pl x"
  shows "closed_ok run d pl (fst (outbox_step d s x)) (snd (outbox_step d s x))"
proof (cases x)
  case (Publish r)
  then show ?thesis using assms by (cases s) (auto simp: closed_ok_def event_key_def)
next
  case (Poll now locked run')
  obtain rows sent where s: "s = (rows, sent)" by (cases s)
  have "closed_ok run d pl (po_rows (run_once d BATCH_SIZE run now locked rows sent)) (po_log (run_once d BATCH_SIZE run now locked rows sent))"
    unfolding run_once_def Let_def
    by (rule closed_ok_fold)
      (use assms(1) s claim_rows [where batch = BATCH_SIZE and now = now and locked = locked and rows = rows] in \<open>auto simp: closed_ok_def claimable_def\<close>)
  with Poll s assms(2) show ?thesis by (simp add: Let_def)
qed

lemma closed_ok_run:
  assumes "\<forall>x\<in>set ops. handled_by run pl x" and "foldl (outbox_step d) ([], []) ops = (rows, sent)"
  shows "closed_ok run d pl rows sent"
proof -
  have "closed_ok run d pl (fst (foldl (outbox_step d) ([], []) ops)) (snd (foldl (outbox_step d) ([], []) ops))"
    using assms(1) by (induction ops rule: rev_induct) (simp_all add: closed_ok_step closed_ok_def [of run d pl "[]"])
  with assms(2) show ?thesis by simp
qed

lemma workflow_handlers: "handlers_for (register_workflow_handlers \<lparr>dp_handlers = [], dp_wildcard = []\<rparr>) t
    = [''handle_domain_event'', ''handle_outbound_webhook'']"
  by (simp add: register_workflow_handlers_def subscribe_def handlers_for_def)

abbreviation workflow_dispatcher :: dispatcher where
  "workflow_dispatcher \<equiv> register_workflow_handlers \<lparr>dp_handlers = [], dp_wildcard = []\<rparr>"

text \<open>An event that is closed normally: both handlers returned on it, one right after the other.\<close>

lemma closed_event_returned:
  assumes "\<forall>x\<in>set ops. handled_by (trigger_run w) (\<lambda>k. JDict (tw_payload w k)) x"
    and "foldl (outbox_step workflow_dispatcher) ([], []) ops = (rows, sent)"
    and "r \<in> set rows" and "oe_processed r \<noteq> None" and "oe_attempts r < 8"
  obtains before after where "sent = before @ (event_key r, ''handle_domain_event'') # (event_key r, ''handle_outbound_webhook'') # after"
    "fst (call_handler w (length before) ''handle_domain_event'' (tw_payload w (event_key r)) (deliver w 0 (tw_db w) before)) = None"
    "fst (call_handler w (Suc (length before)) ''handle_outbound_webhook'' (tw_payload w (event_key r))
       (deliver w 0 (tw_db w) (before @ [(event_key r, ''handle_domain_event'')]))) = None"
proof -
  let ?hs = "[''handle_domain_event'', ''handle_outbound_webhook'']"
  have pl: "oe_payload r = JDict (tw_payload w (event_key r))" and "returned_for (trigger_run w) workflow_dispatcher sent r"
    using closed_ok_run [OF assms(1,2)] assms(3-5) by (simp_all add: closed_ok_def MAX_ATTEMPTS_def)
  then obtain before after where split: "sent = before @ map (Pair (event_key r)) ?hs @ after"
    and ran: "\<And>i. i < length ?hs \<Longrightarrow> trigger_run w (before @ map (Pair (event_key r)) (take i ?hs)) (?hs ! i) (oe_payload r) = None"
    unfolding returned_for_def Let_def workflow_handlers by blast
  show thesis by (rule that [of before after]) (use split ran [of 0] ran [of 1] pl in \<open>simp_all add: trigger_run_def\<close>)
qed

section \<open>Properties\<close>

lemma event_type_payload: "text_at ''event_type'' (to_outbox_payload ev) = ev_type ev"
  by (simp add: text_at_def por_def truthy_def)

lemma event_ids_payload: "event_ids (to_outbox_payload ev) =
    (case (uuid_of (ev_tenant ev), uuid_of (ev_id ev)) of (Some t, Some e) \<Rightarrow> Some (t, e) | _ \<Rightarrow> None)"
  by (simp add: event_ids_def to_outbox_payload_def)



lemma set_put_all: "set (once_store.put_all (add_row key) rs rows) \<subseteq> set rows \<union> set rs"
proof (induction rs arbitrary: rows)
  case Nil
  then show ?case by simp
next
  case (Cons r rs)
  have "set (add_row key r rows) \<subseteq> insert r (set rows)" by (auto simp: set_add_row)
  then show ?case using Cons [of "add_row key r rows"] by auto
qed











text \<open>A delivery that may have been recorded: of a public event, to an active webhook of the tenant subscribed to it.\<close>

definition listens :: "webhook_config \<Rightarrow> string \<Rightarrow> string \<Rightarrow> bool" where
  "listens c tenant event_type \<longleftrightarrow> wc_tenant c = tenant \<and> wc_is_active c \<and> wc_disabled_at c = None
     \<and> (\<exists>x\<in>set (wc_event_types c). py_str x \<in> {event_type, ''*''})"

lemma subscribed_iff: "c \<in> set (subscribed_configs tenant t db) \<longleftrightarrow> c \<in> set (tg_configs db) \<and> listens c tenant t"
proof -
  have "(t \<in> set (map py_str xs) \<or> ''*'' \<in> set (map py_str xs)) \<longleftrightarrow> (\<exists>x\<in>set xs. py_str x = t \<or> py_str x = ''*'')" for xs
    by (induction xs) auto
  then show ?thesis unfolding subscribed_configs_def listens_def by simp
qed

definition entitled :: "trigger_db \<Rightarrow> webhook_delivery \<Rightarrow> bool" where
  "entitled db y \<longleftrightarrow> wy_event_type y \<in> set PUBLIC_EVENT_TYPES
     \<and> (\<exists>c\<in>set (tg_configs db). wc_id c = wy_config y \<and> listens c (wy_tenant y) (wy_event_type y))"

lemma handler_entitled:
  assumes "\<forall>y\<in>set (tg_deliveries db). y \<in> Y \<or> entitled db0 y" and "same_setup db0 db"
  shows "\<forall>y\<in>set (tg_deliveries (snd (handle_domain_event en b fresh payload db))). y \<in> Y \<or> entitled db0 y"
    and "\<forall>y\<in>set (tg_deliveries (snd (handle_outbound_webhook now payload db))). y \<in> Y \<or> entitled db0 y"
proof -
  have "tg_deliveries (snd (handle_domain_event en b fresh payload db)) = tg_deliveries db"
    using domain_extends [of db en b fresh payload] by (auto simp: extends_def)
  then show "\<forall>y\<in>set (tg_deliveries (snd (handle_domain_event en b fresh payload db))). y \<in> Y \<or> entitled db0 y" using assms(1) by simp
  let ?t = "text_at ''event_type'' payload"
  let ?ys = "case event_ids payload of None \<Rightarrow> [] | Some (tenant, event_id) \<Rightarrow>
       if is_public ?t then map (pending_delivery now tenant event_id ?t payload) (subscribed_configs tenant ?t db) else []"
  have "entitled db0 y" if "y \<in> set ?ys" for y
    using that subscribed_iff [of _ _ _ db0] by (auto simp: entitled_def pending_delivery_def is_public_def same_setup_subscribed [OF assms(2)] split: option.splits if_splits)
  moreover have "set (tg_deliveries (snd (handle_outbound_webhook now payload db))) \<subseteq> set (tg_deliveries db) \<union> set ?ys"
    using webhook_extends [of db now payload] set_put_all [of delivery_slot ?ys "tg_deliveries db"] by (simp only: extends_def)
  ultimately show "\<forall>y\<in>set (tg_deliveries (snd (handle_outbound_webhook now payload db))). y \<in> Y \<or> entitled db0 y"
    using assms(1) by blast
qed

lemma call_entitled:
  assumes "\<forall>y\<in>set (tg_deliveries db). y \<in> Y \<or> entitled db0 y" and "same_setup db0 db"
  shows "\<forall>y\<in>set (tg_deliveries (snd (call_handler w n h payload db))). y \<in> Y \<or> entitled db0 y"
  using handler_entitled [OF assms] assms(1) by (simp add: call_handler_def split: option.split)

lemma deliver_entitled:
  assumes "\<forall>y\<in>set (tg_deliveries db). y \<in> Y \<or> entitled db0 y" and "same_setup db0 db"
  shows "\<forall>y\<in>set (tg_deliveries (deliver w n db sent)). y \<in> Y \<or> entitled db0 y"
  by (rule deliver_keeps [where P = "\<lambda>db. \<forall>y\<in>set (tg_deliveries db). y \<in> Y \<or> entitled db0 y", OF _ assms(2,1)]) (rule call_entitled)

lemma extends_delivery:
  assumes "extends db db' es ys" and "row_at delivery_slot k (tg_deliveries db) \<noteq> None"
  shows "row_at delivery_slot k (tg_deliveries db') \<noteq> None"
  using assms by (auto simp: extends_def row_at_put_all)

lemma webhook_slot: "delivery_slot (pending_delivery now tenant event_id t payload c) = (wc_id c, wc_id c @ '':'' @ event_id)"
  by (simp add: delivery_slot_def pending_delivery_def)

lemma handled_webhooks:
  assumes "is_public (ev_type ev)" "uuid_of (ev_tenant ev) = Some tenant" "uuid_of (ev_id ev) = Some event_id"
    and "same_setup db db1" and c: "c \<in> set (subscribed_configs tenant (ev_type ev) db)"
  shows "row_at delivery_slot (wc_id c, wc_id c @ '':'' @ event_id)
      (tg_deliveries (snd (handle_outbound_webhook now (to_outbox_payload ev) db1))) \<noteq> None"
proof -
  let ?k = "(wc_id c, wc_id c @ '':'' @ event_id)"
  let ?ys = "map (pending_delivery now tenant event_id (ev_type ev) (to_outbox_payload ev)) (subscribed_configs tenant (ev_type ev) db)"
  have "tg_deliveries (snd (handle_outbound_webhook now (to_outbox_payload ev) db1)) = insert_deliveries ?ys (tg_deliveries db1)"
    using webhook_extends [of db1 now "to_outbox_payload ev"] assms(1-4)
    by (simp add: extends_def event_ids_payload event_type_payload same_setup_subscribed)
  moreover have "List.find (\<lambda>y. delivery_slot y = ?k) ?ys \<noteq> None"
    using c by (auto simp: find_None_iff webhook_slot)
  ultimately show ?thesis by (auto simp: row_at_put_all split: option.split)
qed

text \<open>C40. Outbound webhooks are recorded once and stay inside their subscription: an event the outbox has closed normally
  has, when it is public, exactly one delivery for every active webhook of its tenant subscribed to it; and no
  sequence of deliveries ever records one for an internal event or for a webhook that did not subscribe.\<close>

theorem outbound_webhooks_once:
  assumes "\<forall>x\<in>set ops. handled_by (trigger_run w) (\<lambda>k. JDict (tw_payload w k)) x"
    and "foldl (outbox_step (register_workflow_handlers \<lparr>dp_handlers = [], dp_wildcard = []\<rparr>)) ([], []) ops = (rows, sent)"
    and "r \<in> set rows" and "oe_processed r \<noteq> None" and "oe_attempts r < 8"
    and "tw_payload w (event_key r) = to_outbox_payload ev" and "uuid_of (ev_tenant ev) = Some tenant"
    and "uuid_of (ev_id ev) = Some event_id" and "distinct (map delivery_slot (tg_deliveries (tw_db w)))"
  shows "(ev_type ev \<in> set PUBLIC_EVENT_TYPES \<longrightarrow> (\<forall>c\<in>set (tg_configs (tw_db w)). listens c tenant (ev_type ev) \<longrightarrow>
            length (filter (\<lambda>y. delivery_slot y = (wc_id c, wc_id c @ '':'' @ event_id))
              (tg_deliveries (deliver w 0 (tw_db w) sent))) = 1))
       \<and> (\<forall>y\<in>set (tg_deliveries (deliver w 0 (tw_db w) sent)). y \<in> set (tg_deliveries (tw_db w)) \<or> entitled (tw_db w) y)"
proof (intro conjI impI ballI)
  let ?db = "tw_db w" and ?db' = "deliver w 0 (tw_db w) sent"
  obtain es ys where ext: "extends ?db ?db' es ys" using deliver_extends by blast
  show "length (filter (\<lambda>y. delivery_slot y = (wc_id c, wc_id c @ '':'' @ event_id)) (tg_deliveries ?db')) = 1"
    if public: "ev_type ev \<in> set PUBLIC_EVENT_TYPES" and listens: "c \<in> set (tg_configs ?db)" "listens c tenant (ev_type ev)" for c
  proof (rule one_row)
    show "distinct (map delivery_slot (tg_deliveries ?db'))" using ext assms(9) by (simp add: extends_def distinct_put_all)
    obtain before after where split: "sent = before @ (event_key r, ''handle_domain_event'') # (event_key r, ''handle_outbound_webhook'') # after"
      and call: "fst (call_handler w (Suc (length before)) ''handle_outbound_webhook'' (tw_payload w (event_key r))
         (deliver w 0 ?db (before @ [(event_key r, ''handle_domain_event'')]))) = None"
      by (rule closed_event_returned [OF assms(1-5)])
    let ?db1 = "deliver w 0 ?db (before @ [(event_key r, ''handle_domain_event'')])"
    let ?db2 = "snd (call_handler w (Suc (length before)) ''handle_outbound_webhook'' (to_outbox_payload ev) ?db1)"
    have "same_setup ?db ?db1" using deliver_extends [of ?db w 0 "before @ [(event_key r, ''handle_domain_event'')]"] by (auto simp: extends_def)
    have c: "is_public (ev_type ev)" "c \<in> set (subscribed_configs tenant (ev_type ev) ?db)"
      using public listens by (simp_all add: is_public_def subscribed_iff)
    from handled_webhooks [OF c(1) assms(7,8) \<open>same_setup ?db ?db1\<close> c(2)]
    have "row_at delivery_slot (wc_id c, wc_id c @ '':'' @ event_id) (tg_deliveries ?db2) \<noteq> None"
      using call by (simp add: call_handler_def split: option.splits)
    moreover obtain es ys where "extends ?db2 (deliver w (Suc (Suc (length before))) ?db2 after) es ys" using deliver_extends by blast
    moreover have "?db' = deliver w (Suc (Suc (length before))) ?db2 after" by (simp add: split deliver_append assms(6))
    ultimately show "row_at delivery_slot (wc_id c, wc_id c @ '':'' @ event_id) (tg_deliveries ?db') \<noteq> None"
      using extends_delivery by simp
  qed
  show "y \<in> set (tg_deliveries ?db) \<or> entitled ?db y" if "y \<in> set (tg_deliveries ?db')" for y
  proof (rule bspec [OF deliver_entitled that])
    show "\<forall>y\<in>set (tg_deliveries ?db). y \<in> set (tg_deliveries ?db) \<or> entitled ?db y" "same_setup ?db ?db"
      by (simp_all add: same_setup_def)
  qed
qed

definition sample_event :: DomainEvent where
  "sample_event = \<lparr>ev_type = ''lead.created'', ev_tenant = show_uuid 1, ev_resource_type = ''lead'', ev_resource_id = show_uuid 5,
     ev_payload = [], ev_actor_id = None, ev_actor_type = ''user'', ev_correlation = None, ev_id = show_uuid 2,
     ev_timestamp = ''2026-01-01T00:00:00+00:00'', ev_schema_version = ''1.0''\<rparr>"

definition sample_definition :: definition_row where
  "sample_definition = \<lparr>wd_id = show_uuid 3, wd_tenant = show_uuid 1, wd_is_active = True, wd_active_version = Some (show_uuid 4),
     wd_paused_at = None, wd_kill_switch = False, wd_deleted_at = None, wd_lock_version = 1, wd_updated_by = None, wd_created_by = Some ''owner''\<rparr>"

definition sample_version :: version_row where
  "sample_version = \<lparr>wv_id = show_uuid 4, wv_tenant = show_uuid 1, wv_workflow = show_uuid 3, wv_status = ''published'',
     wv_content = [(''trigger'', JDict [(''type'', JStr ''entity.created''), (''entity'', JStr ''lead'')])], wv_hash = ''h''\<rparr>"

definition sample_config :: webhook_config where
  "sample_config = \<lparr>wc_id = show_uuid 6, wc_tenant = show_uuid 1, wc_event_types = [JStr ''lead.created''], wc_is_active = True,
     wc_disabled_at = None\<rparr>"

definition sample_trigger_db :: trigger_db where
  "sample_trigger_db = \<lparr>tg_tenants = [(show_uuid 1, GROWTH)], tg_definitions = [sample_definition], tg_versions = [sample_version],
     tg_configs = [sample_config], tg_deliveries = [], tg_wf = \<lparr>wf_approvals = [], wf_executions = [], wf_nodes = [], wf_audit = [],
     wf_outbox = []\<rparr>, tg_jobs = []\<rparr>"

text \<open>The event is delivered twice: at first the broker refuses the task of the execution that is committed.\<close>

definition sample_world :: trigger_world where
  "sample_world = \<lparr>tw_enabled = True, tw_fresh = (\<lambda>n i. show_uuid (int (10 * n + i))), tw_clock = int,
     tw_broker = (\<lambda>n i. if n = 0 then Refuses else Accepts), tw_outage = (\<lambda>n. None),
     tw_payload = (\<lambda>_. to_outbox_payload sample_event), tw_db = sample_trigger_db\<rparr>"

definition sample_ops :: "outbox_op list" where
  "sample_ops = [Publish (sample_event_row\<lparr>oe_payload := JDict (to_outbox_payload sample_event)\<rparr>),
     Poll 0 (\<lambda>_. False) (trigger_run sample_world), Poll (seconds 2) (\<lambda>_. False) (trigger_run sample_world)]"

definition sample_run :: "outbox_event list \<times> delivery list" where
  "sample_run = foldl (outbox_step (register_workflow_handlers \<lparr>dp_handlers = [], dp_wildcard = []\<rparr>)) ([], []) sample_ops"

lemma sample_calls:
  "trigger_run sample_world [] ''handle_domain_event'' (JDict (to_outbox_payload sample_event)) = Some ''broker unavailable''"
  "trigger_run sample_world [((''e'', 0), ''handle_domain_event'')] ''handle_domain_event'' (JDict (to_outbox_payload sample_event)) = None"
  "trigger_run sample_world [((''e'', 0), ''handle_domain_event''), ((''e'', 0), ''handle_domain_event'')] ''handle_outbound_webhook''
     (JDict (to_outbox_payload sample_event)) = None"
  by code_simp+

lemma sample_run_facts:
  "length (fst sample_run) = 1" "oe_processed (hd (fst sample_run)) \<noteq> None" "oe_attempts (hd (fst sample_run)) < 8"
  "map snd (snd sample_run) = [''handle_domain_event'', ''handle_domain_event'', ''handle_outbound_webhook'']"
  by (simp_all add: sample_run_def sample_ops_def sample_event_row_def run_once_def claim_def claimable_def dispatch_row_def Let_def
      workflow_handlers event_key_def sample_calls failed_row_def MAX_ATTEMPTS_def BACKOFF_BASE_SECONDS_def BATCH_SIZE_def set_row_def seconds_def)

lemma sample_handled: "\<forall>x\<in>set sample_ops. handled_by (trigger_run sample_world) (\<lambda>k. JDict (tw_payload sample_world k)) x"
  by (simp add: sample_ops_def sample_world_def)


lemma sample_world_simps: "tw_payload sample_world k = to_outbox_payload sample_event" "tw_enabled sample_world = True"
    "tw_db sample_world = sample_trigger_db"
  by (simp_all add: sample_world_def)

lemma sample_row: "hd (fst sample_run) \<in> set (fst sample_run)"
  using sample_run_facts(1) by (cases "fst sample_run") auto

lemma sample_outcome: "foldl (outbox_step (register_workflow_handlers \<lparr>dp_handlers = [], dp_wildcard = []\<rparr>)) ([], []) sample_ops
    = (fst sample_run, snd sample_run)"
  by (simp add: sample_run_def)


theorem outbound_webhooks_once_witness:
  "length (filter (\<lambda>y. delivery_slot y = (show_uuid 6, show_uuid 6 @ '':'' @ show_uuid 2))
     (tg_deliveries (deliver sample_world 0 sample_trigger_db (snd sample_run)))) = 1"
proof -
  have ids: "uuid_of (ev_tenant sample_event) = Some (show_uuid 1)" "uuid_of (ev_id sample_event) = Some (show_uuid 2)"
    by code_simp+
  have c: "ev_type sample_event \<in> set PUBLIC_EVENT_TYPES" "listens sample_config (show_uuid 1) (ev_type sample_event)"
    by code_simp+
  have "distinct (map delivery_slot (tg_deliveries (tw_db sample_world)))" by (simp add: sample_world_simps sample_trigger_db_def)
  from outbound_webhooks_once [OF sample_handled sample_outcome sample_row sample_run_facts(2,3) sample_world_simps(1) ids this] c
  show ?thesis by (force simp: sample_world_simps sample_trigger_db_def sample_config_def)
qed

end
