(* ===== verification/Payments.thy ===== *)
theory Payments
  imports Transitions Py_Json
begin

text \<open>
  \<^verbatim>\<open>domain/payments/state_machine.py\<close>, \<^verbatim>\<open>shared/utils/money.py\<close> and \<^verbatim>\<open>parse_webhook\<close> of the Razorpay
  adapter: the payment status machine, sanitisation of provider payloads, the server-side amount
  check and refund authorisation. Amounts are integer minor units.
\<close>

section \<open>Money\<close>

datatype money_error = Unsupported_currency string | Different_currencies

record Money =
  amount_minor :: int
  currency :: string

definition SUPPORTED :: "(string \<times> nat) list" where
  "SUPPORTED = [(''INR'', 2), (''USD'', 2), (''AED'', 2)]"

definition mk_Money :: "int \<Rightarrow> string \<Rightarrow> (money_error, Money) res" where
  "mk_Money amount cur = (if has_key cur SUPPORTED then Inr \<lparr>amount_minor = amount, currency = cur\<rparr>
     else Inl (Unsupported_currency cur))"

text \<open>\<^verbatim>\<open>Decimal.quantize(..., rounding=ROUND_HALF_UP)\<close>: ties move away from zero.\<close>

definition round_half_up :: "rat \<Rightarrow> int" where
  "round_half_up x = (if 0 \<le> x then \<lfloor>x + 1 / 2\<rfloor> else - \<lfloor>- x + 1 / 2\<rfloor>)"

definition from_major :: "rat \<Rightarrow> string \<Rightarrow> (money_error, Money) res" where
  "from_major major cur = (case map_of SUPPORTED cur of
      None \<Rightarrow> Inl (Unsupported_currency cur)
    | Some e \<Rightarrow> mk_Money (round_half_up (major * 10 ^ e)) cur)"

definition to_major :: "Money \<Rightarrow> rat" where
  "to_major m = of_int (amount_minor m) / 10 ^ (case map_of SUPPORTED (currency m) of None \<Rightarrow> 0 | Some e \<Rightarrow> e)"

definition money_add :: "Money \<Rightarrow> Money \<Rightarrow> (money_error, Money) res" where
  "money_add a b = (if currency b \<noteq> currency a then Inl Different_currencies
     else mk_Money (amount_minor a + amount_minor b) (currency a))"

definition money_sub :: "Money \<Rightarrow> Money \<Rightarrow> (money_error, Money) res" where
  "money_sub a b = (if currency b \<noteq> currency a then Inl Different_currencies
     else mk_Money (amount_minor a - amount_minor b) (currency a))"

lemma round_half_up_int: "round_half_up (of_int n) = n"
proof -
  have "\<lfloor>rat_of_int n + 1 / 2\<rfloor> = n" "\<lfloor>- rat_of_int n + 1 / 2\<rfloor> = - n"
    by (simp_all add: floor_eq_iff)
  then show ?thesis by (simp add: round_half_up_def)
qed

lemma round_half_up_near: "\<bar>of_int (round_half_up x) - x\<bar> \<le> 1 / 2" for x :: rat
proof (cases "0 \<le> x")
  case True
  with floor_correct [of "x + 1 / 2"] show ?thesis unfolding round_half_up_def by (simp only: if_True) linarith
next
  case False
  with floor_correct [of "- x + 1 / 2"] show ?thesis unfolding round_half_up_def by (simp only: if_False) linarith
qed

section \<open>Status machine\<close>

datatype PaymentStatus = CREATED | ATTEMPTED | CAPTURED | FAILED | REFUNDED

definition PaymentStatus_value :: "PaymentStatus \<Rightarrow> string" where
  "PaymentStatus_value s = (case s of CREATED \<Rightarrow> ''created'' | ATTEMPTED \<Rightarrow> ''attempted'' | CAPTURED \<Rightarrow> ''captured''
     | FAILED \<Rightarrow> ''failed'' | REFUNDED \<Rightarrow> ''refunded'')"

definition PaymentStatus_of :: "string \<Rightarrow> PaymentStatus option" where
  "PaymentStatus_of v = List.find (\<lambda>s. PaymentStatus_value s = v) [CREATED, ATTEMPTED, CAPTURED, FAILED, REFUNDED]"

fun PAYMENT_ALLOWED :: "PaymentStatus \<Rightarrow> PaymentStatus list" where
  "PAYMENT_ALLOWED CREATED = [ATTEMPTED, FAILED]"
| "PAYMENT_ALLOWED ATTEMPTED = [CAPTURED, FAILED]"
| "PAYMENT_ALLOWED CAPTURED = [REFUNDED]"
| "PAYMENT_ALLOWED FAILED = []"
| "PAYMENT_ALLOWED REFUNDED = []"

datatype payment_error = Bad_status string | Already PaymentStatus | No_move PaymentStatus PaymentStatus

definition payment_step :: "PaymentStatus \<Rightarrow> PaymentStatus \<Rightarrow> (payment_error, PaymentStatus) res" where
  "payment_step cur tgt =
     (if cur = tgt then Inr tgt
      else if tgt \<notin> set (PAYMENT_ALLOWED cur) then Inl (No_move cur tgt) else Inr tgt)"

definition assert_payment_transition :: "string \<Rightarrow> string \<Rightarrow> bool \<Rightarrow> (payment_error, PaymentStatus) res" where
  "assert_payment_transition current target idempotent =
     (case PaymentStatus_of current of
        None \<Rightarrow> Inl (Bad_status current)
      | Some cur \<Rightarrow> (case PaymentStatus_of target of
          None \<Rightarrow> Inl (Bad_status target)
        | Some tgt \<Rightarrow> if cur = tgt \<and> \<not> idempotent then Inl (Already cur) else payment_step cur tgt))"

interpretation payment: transition_machine PAYMENT_ALLOWED payment_step
  by unfold_locales (auto simp: payment_step_def split: if_splits)

lemma PaymentStatus_of_value [simp]: "PaymentStatus_of (PaymentStatus_value s) = Some s"
  by (cases s) (simp_all add: PaymentStatus_of_def PaymentStatus_value_def)

lemma PaymentStatus_of_Some: "PaymentStatus_of v = Some s \<Longrightarrow> v = PaymentStatus_value s"
  by (auto simp: PaymentStatus_of_def split: if_splits)

text \<open>\<^verbatim>\<open>apply_status\<close> of \<^verbatim>\<open>application/payments/inbound.py\<close>: an invalid or out-of-order move is a no-op.\<close>

definition apply_status :: "string \<Rightarrow> string option \<Rightarrow> string" where
  "apply_status current event_status = (case event_status of
      None \<Rightarrow> current
    | Some s \<Rightarrow> (case assert_payment_transition current s True of
        Inl _ \<Rightarrow> current | Inr t \<Rightarrow> PaymentStatus_value t))"

lemma apply_status_move:
  "apply_status (PaymentStatus_value s) (Some (PaymentStatus_value t)) = PaymentStatus_value (payment.move s t)"
  by (simp add: apply_status_def assert_payment_transition_def payment.move_def split: sum.splits)

section \<open>Sanitising provider payloads\<close>

definition FORBIDDEN_PAYLOAD_KEYS :: "string list" where
  "FORBIDDEN_PAYLOAD_KEYS = [''card_number'', ''card'', ''pan'', ''cvv'', ''cvc'', ''expiry_month'', ''expiry_year'',
     ''cardholder_name'', ''track_data'', ''pin'']"

fun clean :: "nat \<Rightarrow> json \<Rightarrow> json" where
  "clean depth (JDict d) = (if depth > 6 then JStr ''[TRUNCATED]''
     else JDict (map (\<lambda>(k, v). (k, if py_lower k \<in> set FORBIDDEN_PAYLOAD_KEYS then JStr ''[REMOVED]''
       else clean (depth + 1) v)) d))"
| "clean depth (JList xs) = (if depth > 6 then JStr ''[TRUNCATED]''
     else JList (take 100 (map (clean (depth + 1)) xs)))"
| "clean depth JNull = (if depth > 6 then JStr ''[TRUNCATED]'' else JNull)"
| "clean depth (JBool b) = (if depth > 6 then JStr ''[TRUNCATED]'' else JBool b)"
| "clean depth (JInt i) = (if depth > 6 then JStr ''[TRUNCATED]'' else JInt i)"
| "clean depth (JFloat m k) = (if depth > 6 then JStr ''[TRUNCATED]'' else JFloat m k)"
| "clean depth (JStr s) = (if depth > 6 then JStr ''[TRUNCATED]'' else JStr s)"

definition sanitize_provider_payload :: "json \<Rightarrow> json" where
  "sanitize_provider_payload payload = clean 0 payload"

text \<open>What must not be kept, written down independently of the list above: the card number under any of its names,
  the holder, the expiry date, the verification codes, the magnetic stripe and the PIN. No such key, in any
  letter case, carries anything but the placeholder, at any depth.\<close>

definition names_card_data :: "string \<Rightarrow> bool" where
  "names_card_data k = (py_lower k \<in> {''card'', ''card_number'', ''pan'', ''cardholder_name'', ''expiry_month'', ''expiry_year'',
     ''cvv'', ''cvc'', ''track_data'', ''pin''})"

fun card_free :: "json \<Rightarrow> bool" where
  "card_free (JDict d) = list_all (\<lambda>(k, v). if names_card_data k then v = JStr ''[REMOVED]'' else card_free v) d"
| "card_free (JList xs) = list_all card_free xs"
| "card_free _ = True"

fun json_depth :: "json \<Rightarrow> nat" where
  "json_depth (JDict d) = Suc (foldr (\<lambda>(k, v) n. max (json_depth v) n) d 0)"
| "json_depth (JList xs) = Suc (foldr (\<lambda>v n. max (json_depth v) n) xs 0)"
| "json_depth _ = 0"

lemma clean_card_free: "card_free (clean depth j)"
proof (induction depth j rule: clean.induct)
  case (1 depth d)
  have "names_card_data k \<longleftrightarrow> py_lower k \<in> set FORBIDDEN_PAYLOAD_KEYS" for k
    by (auto simp: names_card_data_def FORBIDDEN_PAYLOAD_KEYS_def)
  with 1 show ?case by (auto simp: list_all_iff)
next
  case (2 depth xs)
  then show ?case by (auto simp: list_all_iff dest!: in_set_takeD)
qed simp_all

lemma sanitized_card_free: "card_free (sanitize_provider_payload payload)"
  by (simp add: sanitize_provider_payload_def clean_card_free)

section \<open>Orders and refunds\<close>

datatype order_error = Only_INR | Amount_mismatch | Below_minimum | Order_money money_error

definition validate_order :: "int \<Rightarrow> string \<Rightarrow> int \<Rightarrow> int \<Rightarrow> (order_error, Money) res" where
  "validate_order req_amount req_currency server_derived min_minor =
     (if req_currency \<noteq> ''INR'' then Inl Only_INR
      else if req_amount \<noteq> server_derived then Inl Amount_mismatch
      else if req_amount < min_minor then Inl Below_minimum
      else (case mk_Money req_amount req_currency of Inl e \<Rightarrow> Inl (Order_money e) | Inr m \<Rightarrow> Inr m))"

definition REFUND_MFA_THRESHOLD :: int where "REFUND_MFA_THRESHOLD = 1000000"

record RefundAuthorization =
  ra_permitted :: bool
  ra_requires_mfa :: bool
  ra_requires_approval :: bool
  ra_reason :: "string option"

definition refuse_refund :: "string \<Rightarrow> RefundAuthorization" where
  "refuse_refund reason = \<lparr>ra_permitted = False, ra_requires_mfa = False, ra_requires_approval = False,
     ra_reason = Some reason\<rparr>"

definition authorize_refund :: "string \<Rightarrow> int \<Rightarrow> int \<Rightarrow> int \<Rightarrow> bool \<Rightarrow> bool \<Rightarrow> string option
    \<Rightarrow> (payment_error, RefundAuthorization) res" where
  "authorize_refund status payment_amount already_refunded refund_amount actor_has_permission mfa_verified approver_id =
     (case PaymentStatus_of status of
        None \<Rightarrow> Inl (Bad_status status)
      | Some s \<Rightarrow> Inr (
          if s \<noteq> CAPTURED then refuse_refund ''only captured payments can be refunded''
          else if refund_amount \<le> 0 then refuse_refund ''refund amount must be positive''
          else if already_refunded + refund_amount > payment_amount then refuse_refund ''refund exceeds the captured amount''
          else if \<not> actor_has_permission then refuse_refund ''actor lacks payment:refund''
          else
            let high_value = refund_amount > REFUND_MFA_THRESHOLD in
            if high_value \<and> \<not> (mfa_verified \<and> approver_id \<noteq> None \<and> approver_id \<noteq> Some [])
            then \<lparr>ra_permitted = False, ra_requires_mfa = True, ra_requires_approval = True,
                  ra_reason = Some ''refunds above INR 10,000 require MFA and an elevated approval''\<rparr>
            else \<lparr>ra_permitted = True, ra_requires_mfa = high_value, ra_requires_approval = high_value,
                  ra_reason = None\<rparr>))"

lemma refund_threshold: "from_major 10000 ''INR'' = Inr \<lparr>amount_minor = REFUND_MFA_THRESHOLD, currency = ''INR''\<rparr>"
  using round_half_up_int [of 1000000]
  by (simp add: from_major_def mk_Money_def SUPPORTED_def has_key_def REFUND_MFA_THRESHOLD_def)

text \<open>A request for a refund, and the ledger of refunds granted one after the other on a captured payment.\<close>

record refund_request =
  rq_amount :: int
  rq_permission :: bool
  rq_mfa :: bool
  rq_approver :: "string option"

definition grant :: "int \<Rightarrow> int \<Rightarrow> refund_request \<Rightarrow> int" where
  "grant captured refunded rq =
     (case authorize_refund ''captured'' captured refunded (rq_amount rq) (rq_permission rq) (rq_mfa rq) (rq_approver rq) of
        Inr a \<Rightarrow> if ra_permitted a then refunded + rq_amount rq else refunded
      | Inl _ \<Rightarrow> refunded)"

lemma captured_status: "PaymentStatus_of ''captured'' = Some CAPTURED"
  using PaymentStatus_of_value [of CAPTURED] by (simp add: PaymentStatus_value_def)

lemma refund_permitted_iff:
  "authorize_refund ''captured'' captured refunded amount perm mfa approver = Inr a \<Longrightarrow>
   ra_permitted a \<longleftrightarrow> 0 < amount \<and> refunded + amount \<le> captured \<and> perm
     \<and> (amount > REFUND_MFA_THRESHOLD \<longrightarrow> mfa \<and> approver \<noteq> None \<and> approver \<noteq> Some [])"
  by (auto simp: authorize_refund_def captured_status refuse_refund_def Let_def split: if_splits)

lemma grant_bounds: "refunded \<le> captured \<Longrightarrow> refunded \<le> grant captured refunded rq \<and> grant captured refunded rq \<le> captured"
  by (auto simp: grant_def refund_permitted_iff split: sum.splits)

section \<open>Webhook payloads\<close>

definition EVENT_STATUS :: "(string \<times> string) list" where
  "EVENT_STATUS = [(''payment.authorized'', ''attempted''), (''payment.captured'', ''captured''),
     (''payment.failed'', ''failed''), (''refund.created'', ''refunded''), (''refund.processed'', ''refunded''),
     (''order.paid'', ''captured'')]"

section \<open>Properties\<close>

text \<open>Applying webhook statuses in any order, with any repetition and with unknown values, keeps the payment inside
  its state machine: a failed or refunded payment never changes, a refund only follows a capture, and a
  redelivered status has no further effect.\<close>

theorem apply_status_machine:
  "foldl apply_status ''failed'' events = ''failed'' \<and> foldl apply_status ''refunded'' events = ''refunded''
   \<and> foldl apply_status ''captured'' events \<in> {''captured'', ''refunded''}
   \<and> (apply_status current (Some ''refunded'') = ''refunded'' \<longrightarrow> current \<in> {''captured'', ''refunded''})
   \<and> apply_status (apply_status current e) e = apply_status current e"
proof -
  have step: "\<exists>u. apply_status (PaymentStatus_value s) e = PaymentStatus_value u \<and> (u = s \<or> u \<in> set (PAYMENT_ALLOWED s))" for s e
  proof (cases e)
    case None
    then show ?thesis by (auto simp: apply_status_def)
  next
    case (Some x)
    show ?thesis
      by (cases "PaymentStatus_of x")
        (auto simp: Some apply_status_def assert_payment_transition_def payment_step_def)
  qed
  have run: "\<exists>u\<in>U. foldl apply_status (PaymentStatus_value s) es = PaymentStatus_value u"
    if "s \<in> U" "\<And>v w. v \<in> U \<Longrightarrow> w \<in> set (PAYMENT_ALLOWED v) \<Longrightarrow> w \<in> U" for s U es
    using that(1)
  proof (induction es arbitrary: s)
    case (Cons e es)
    from step [of s e] Cons that(2) show ?case by (metis foldl_Cons)
  qed auto
  have vals: "PaymentStatus_value FAILED = ''failed''" "PaymentStatus_value REFUNDED = ''refunded''"
    "PaymentStatus_value CAPTURED = ''captured''" by (simp_all add: PaymentStatus_value_def)
  have idem: "apply_status (apply_status current e) e = apply_status current e"
    by (auto simp: apply_status_def assert_payment_transition_def payment_step_def split: option.splits sum.splits if_splits)
  have refund: "current \<in> {''captured'', ''refunded''}" if "apply_status current (Some ''refunded'') = ''refunded''"
  proof (cases "PaymentStatus_of current")
    case None
    with that show ?thesis by (simp add: apply_status_def assert_payment_transition_def)
  next
    case (Some s)
    with that vals PaymentStatus_of_value [of REFUNDED] PaymentStatus_of_Some [OF Some] show ?thesis
      by (cases s) (simp_all add: apply_status_def assert_payment_transition_def payment_step_def PaymentStatus_value_def)
  qed
  have "foldl apply_status ''failed'' events = ''failed''" "foldl apply_status ''refunded'' events = ''refunded''"
    using run [of FAILED "{FAILED}" events] run [of REFUNDED "{REFUNDED}" events] vals by auto
  moreover have "foldl apply_status ''captured'' events \<in> {''captured'', ''refunded''}"
  proof -
    have "\<exists>u\<in>{CAPTURED, REFUNDED}. foldl apply_status (PaymentStatus_value CAPTURED) events = PaymentStatus_value u"
      by (rule run) auto
    with vals show ?thesis by auto
  qed
  ultimately show ?thesis using refund idem by blast
qed

theorem apply_status_machine_witness:
  "foldl apply_status ''captured'' [Some ''failed'', None, Some ''refunded'', Some ''captured'', Some ''zz''] \<in> {''captured'', ''refunded''}
   \<and> apply_status ''captured'' (Some ''refunded'') = ''refunded''"
proof -
  have "apply_status ''captured'' (Some ''refunded'') = ''refunded''" by code_simp
  with apply_status_machine [of "[Some ''failed'', None, Some ''refunded'', Some ''captured'', Some ''zz'']"]
  show ?thesis by blast
qed

text \<open>C31. A sequence of refund requests against a captured payment never pays back more than was captured, the refunded
  total never shrinks, and a refund above INR 10,000 is granted only with multi-factor verification and a named
  approver, by an actor that holds the refund permission.\<close>

theorem refunds_never_exceed_capture:
  assumes "0 \<le> captured"
  shows "0 \<le> foldl (grant captured) 0 requests \<and> foldl (grant captured) 0 requests \<le> captured
    \<and> (grant captured refunded rq \<noteq> refunded \<longrightarrow> 0 < rq_amount rq \<and> rq_permission rq
        \<and> (rq_amount rq > 1000000 \<longrightarrow> rq_mfa rq \<and> rq_approver rq \<notin> {None, Some []}))"
proof -
  have "r \<le> foldl (grant captured) r requests \<and> foldl (grant captured) r requests \<le> captured" if "r \<le> captured" for r
    using that
  proof (induction requests arbitrary: r)
    case (Cons rq requests)
    from grant_bounds [OF Cons.prems, of rq] Cons.IH [of "grant captured r rq"] show ?case by force
  qed simp
  moreover have "0 < rq_amount rq \<and> rq_permission rq \<and> (rq_amount rq > 1000000 \<longrightarrow> rq_mfa rq \<and> rq_approver rq \<notin> {None, Some []})"
    if "grant captured refunded rq \<noteq> refunded"
    using that by (auto simp: grant_def refund_permitted_iff REFUND_MFA_THRESHOLD_def split: sum.splits if_splits)
  ultimately show ?thesis using assms by blast
qed

theorem refunds_never_exceed_capture_witness:
  "foldl (grant 5000) 0 [\<lparr>rq_amount = 3000, rq_permission = True, rq_mfa = False, rq_approver = None\<rparr>,
      \<lparr>rq_amount = 2500, rq_permission = True, rq_mfa = True, rq_approver = None\<rparr>] \<le> 5000"
  by (rule conjunct1 [OF conjunct2 [OF refunds_never_exceed_capture]]) simp

text \<open>Converting a major amount to minor units never moves it by more than half a minor unit, and whole minor
  amounts survive the round trip through their major value exactly.\<close>

theorem money_round_trip:
  assumes "map_of SUPPORTED cur = Some e"
  shows "(\<exists>m. from_major x cur = Inr m \<and> currency m = cur \<and> \<bar>to_major m - x\<bar> \<le> 1 / (2 * 10 ^ e))
    \<and> from_major (to_major \<lparr>amount_minor = n, currency = cur\<rparr>) cur = Inr \<lparr>amount_minor = n, currency = cur\<rparr>"
proof -
  have key: "has_key cur SUPPORTED" using assms by (auto simp: has_key_iff dest: map_of_SomeD intro: rev_image_eqI)
  let ?r = "rat_of_int (round_half_up (x * 10 ^ e))"
  have "?r / 10 ^ e - x = (?r - x * 10 ^ e) / 10 ^ e" by (simp add: diff_divide_distrib)
  then have "\<bar>?r / 10 ^ e - x\<bar> = \<bar>?r - x * 10 ^ e\<bar> / 10 ^ e" by simp
  also have "\<dots> \<le> (1 / 2) / 10 ^ e" by (intro divide_right_mono round_half_up_near) simp
  finally have "\<bar>?r / 10 ^ e - x\<bar> \<le> 1 / (2 * 10 ^ e)" by simp
  with assms key show ?thesis by (simp add: from_major_def mk_Money_def to_major_def round_half_up_int)
qed

theorem money_round_trip_witness:
  "from_major (to_major \<lparr>amount_minor = 1999, currency = ''INR''\<rparr>) ''INR'' = Inr \<lparr>amount_minor = 1999, currency = ''INR''\<rparr>"
  using money_round_trip [of "''INR''" 2 0 1999] by (simp add: SUPPORTED_def)

end
