(* ===== verification/Payments_Inbound.thy ===== *)
theory Payments_Inbound
  imports Payments
begin

text \<open>
  \<^verbatim>\<open>application/payments/inbound.py\<close>: processing a verified provider webhook. The database is the tables
  the handler touches; a call is one transaction, so its reads and writes are one state change, and an
  insert can only collide with a row that the first lookup already saw. Fields other than status,
  identity and reconciliation are carried unchanged.
\<close>

section \<open>Tables\<close>

datatype detail = Note string | Out_of_order payment_error

record payment_row =
  pay_id :: string
  pay_tenant :: string
  pay_order :: "string option"
  pay_external :: "string option"
  pay_amount :: int
  pay_currency :: string
  pay_status :: string
  pay_method :: string
  pay_provider :: string
  pay_payload :: json
  pay_reconciliation :: string
  pay_reconciled_at :: "instant option"
  pay_captured_at :: "instant option"

record webhook_row =
  ev_external_id :: string
  ev_tenant :: "string option"
  ev_type :: string
  ev_payload :: json
  ev_processed_at :: "instant option"
  ev_attempts :: int
  ev_last_error :: "detail option"

record transition_row =
  tr_tenant :: string
  tr_payment :: string
  tr_sequence :: int
  tr_from :: string
  tr_to :: string
  tr_event :: string

record outbox_row =
  ob_type :: string
  ob_tenant :: string
  ob_resource :: string
  ob_from :: string
  ob_to :: string
  ob_event :: string

record pay_db =
  db_payments :: "payment_row list"
  db_events :: "webhook_row list"
  db_transitions :: "transition_row list"
  db_audit :: "outbox_row list"
  db_outbox :: "outbox_row list"

record RazorpayReceipt =
  rc_accepted :: bool
  rc_event_id :: string
  rc_duplicate :: bool
  rc_processed :: bool
  rc_state :: string
  rc_payment_id :: "string option"
  rc_detail :: "detail option"

definition PROVIDER_NAME :: string where "PROVIDER_NAME = ''razorpay''"

definition PAYMENT_METHODS :: "string list" where
  "PAYMENT_METHODS = [''upi'', ''card'', ''netbanking'', ''wallet'', ''emi'', ''upi_intent'', ''unknown'']"

section \<open>Lookups\<close>

definition text_field :: "string \<Rightarrow> jdict \<Rightarrow> string" where
  "text_field k parsed = py_strip (py_str (por (dget k parsed) (JStr [])))"

definition find_event :: "string \<Rightarrow> pay_db \<Rightarrow> webhook_row option" where
  "find_event event_id db = List.find (\<lambda>e. ev_external_id e = event_id) (db_events db)"

definition matching_payments :: "jdict \<Rightarrow> pay_db \<Rightarrow> payment_row list" where
  "matching_payments parsed db =
     (let pid = text_field ''external_payment_id'' parsed; oid = text_field ''external_order_id'' parsed
      in filter (\<lambda>p. pay_provider p = PROVIDER_NAME
           \<and> (pid \<noteq> [] \<and> pay_external p = Some pid \<or> oid \<noteq> [] \<and> pay_order p = Some oid)) (db_payments db))"

definition resolve_payment :: "jdict \<Rightarrow> pay_db \<Rightarrow> string + payment_row" where
  "resolve_payment parsed db =
     (if text_field ''external_payment_id'' parsed = [] \<and> text_field ''external_order_id'' parsed = []
      then Inl ''provider event has no payment or order identifier''
      else case matching_payments parsed db of
             [] \<Rightarrow> Inl ''payment mapping not found''
           | [p] \<Rightarrow> Inr p
           | _ \<Rightarrow> Inl ''provider identifiers resolve to different payments'')"

definition validate_provider_identity :: "payment_row \<Rightarrow> jdict \<Rightarrow> string option" where
  "validate_provider_identity payment parsed =
     (let pid = text_field ''external_payment_id'' parsed; amount = dget ''amount_minor'' parsed;
          cur = dget ''currency'' parsed in
      if pay_external payment \<notin> {None, Some []} \<and> pid \<noteq> [] \<and> pay_external payment \<noteq> Some pid
      then Some ''provider payment identifier does not match the stored mapping''
      else if amount \<noteq> JNull \<and> as_int amount \<noteq> Some (pay_amount payment)
      then Some ''provider amount does not match the server-authoritative amount''
      else if cur \<noteq> JNull \<and> py_str cur \<noteq> pay_currency payment
      then Some ''provider currency does not match the stored payment''
      else None)"

definition next_transition_sequence :: "string \<Rightarrow> pay_db \<Rightarrow> int" where
  "next_transition_sequence payment_id db =
     foldr max (map tr_sequence (filter (\<lambda>t. tr_payment t = payment_id) (db_transitions db))) 0 + 1"

section \<open>Writes\<close>

definition put_event :: "webhook_row \<Rightarrow> pay_db \<Rightarrow> pay_db" where
  "put_event e db = db\<lparr>db_events :=
     (if find_event (ev_external_id e) db = None then db_events db @ [e]
      else map (\<lambda>x. if ev_external_id x = ev_external_id e then e else x) (db_events db))\<rparr>"

definition put_payment :: "payment_row \<Rightarrow> pay_db \<Rightarrow> pay_db" where
  "put_payment p db = db\<lparr>db_payments := map (\<lambda>x. if pay_id x = pay_id p then p else x) (db_payments db)\<rparr>"

definition fresh_event :: "string \<Rightarrow> string \<Rightarrow> json \<Rightarrow> string option \<Rightarrow> webhook_row" where
  "fresh_event event_id event_type payload tenant =
     \<lparr>ev_external_id = event_id, ev_tenant = tenant, ev_type = event_type, ev_payload = payload,
      ev_processed_at = None, ev_attempts = 0, ev_last_error = None\<rparr>"

definition receipt :: "string \<Rightarrow> bool \<Rightarrow> bool \<Rightarrow> string \<Rightarrow> string option \<Rightarrow> detail option \<Rightarrow> RazorpayReceipt" where
  "receipt event_id duplicate processed state payment_id d =
     \<lparr>rc_accepted = True, rc_event_id = event_id, rc_duplicate = duplicate, rc_processed = processed,
      rc_state = state, rc_payment_id = payment_id, rc_detail = d\<rparr>"

definition duplicate_receipt :: "webhook_row \<Rightarrow> RazorpayReceipt" where
  "duplicate_receipt e = receipt (ev_external_id e) True (ev_processed_at e \<noteq> None) ''duplicate'' None None"

definition mark_ignored :: "instant \<Rightarrow> webhook_row \<Rightarrow> payment_row \<Rightarrow> detail \<Rightarrow> pay_db \<Rightarrow> RazorpayReceipt \<times> pay_db" where
  "mark_ignored now e payment d db =
     (receipt (ev_external_id e) False True ''ignored'' (Some (pay_id payment)) (Some d),
      put_event (e\<lparr>ev_processed_at := Some now, ev_last_error := Some d\<rparr>) db)"

text \<open>The part of the handler after the status of the payment is known to change.\<close>

definition moved_payment :: "instant \<Rightarrow> jdict \<Rightarrow> payment_row \<Rightarrow> PaymentStatus \<Rightarrow> payment_row" where
  "moved_payment now parsed payment new_status =
     (let ext = dget ''external_payment_id'' parsed;
          method = py_str (por (dget ''method'' parsed) (JStr ''unknown''))
      in payment\<lparr>pay_status := PaymentStatus_value new_status,
            pay_external := (if truthy ext \<and> pay_external payment = None then Some (py_str ext) else pay_external payment),
            pay_method := (if method \<in> set PAYMENT_METHODS then method else ''unknown''),
            pay_payload := sanitize_provider_payload (por (dget ''entity'' parsed) (JDict [])),
            pay_reconciliation := ''matched'', pay_reconciled_at := Some now,
            pay_captured_at := (if new_status = CAPTURED then Some now else pay_captured_at payment)\<rparr>)"

definition moved_row :: "webhook_row \<Rightarrow> payment_row \<Rightarrow> PaymentStatus \<Rightarrow> pay_db \<Rightarrow> transition_row" where
  "moved_row e payment new_status db =
     \<lparr>tr_tenant = pay_tenant payment, tr_payment = pay_id payment,
      tr_sequence = next_transition_sequence (pay_id payment) db, tr_from = pay_status payment,
      tr_to = PaymentStatus_value new_status, tr_event = ev_external_id e\<rparr>"

definition moved_message :: "webhook_row \<Rightarrow> payment_row \<Rightarrow> PaymentStatus \<Rightarrow> outbox_row" where
  "moved_message e payment new_status =
     \<lparr>ob_type = ''payment.'' @ PaymentStatus_value new_status, ob_tenant = pay_tenant payment,
      ob_resource = pay_id payment, ob_from = pay_status payment, ob_to = PaymentStatus_value new_status,
      ob_event = ev_external_id e\<rparr>"

definition apply_transition :: "instant \<Rightarrow> jdict \<Rightarrow> webhook_row \<Rightarrow> payment_row \<Rightarrow> PaymentStatus \<Rightarrow> pay_db
    \<Rightarrow> RazorpayReceipt \<times> pay_db" where
  "apply_transition now parsed e payment new_status db =
     (let db1 = put_event (e\<lparr>ev_processed_at := Some now\<rparr>) (put_payment (moved_payment now parsed payment new_status) db);
          msg = moved_message e payment new_status
      in (receipt (ev_external_id e) False True ''applied'' (Some (pay_id payment)) None,
          db1\<lparr>db_transitions := db_transitions db1 @ [moved_row e payment new_status db],
              db_audit := db_audit db1 @ [msg], db_outbox := db_outbox db1 @ [msg]\<rparr>))"

definition process_event :: "instant \<Rightarrow> jdict \<Rightarrow> bool \<Rightarrow> webhook_row \<Rightarrow> payment_row \<Rightarrow> pay_db \<Rightarrow> RazorpayReceipt \<times> pay_db" where
  "process_event now parsed existed e payment db =
     (case validate_provider_identity payment parsed of
        Some err \<Rightarrow> (receipt (ev_external_id e) existed False ''pending_reconciliation'' (Some (pay_id payment)) (Some (Note err)),
                     put_event (e\<lparr>ev_last_error := Some (Note err)\<rparr>) db)
      | None \<Rightarrow>
          (case dget ''status'' parsed of
             JStr target \<Rightarrow>
               (case assert_payment_transition (pay_status payment) target True of
                  Inl err \<Rightarrow> mark_ignored now e payment (Out_of_order err) db
                | Inr new_status \<Rightarrow>
                    if PaymentStatus_value new_status = pay_status payment
                    then mark_ignored now e payment (Note ''payment already has this status'') db
                    else apply_transition now parsed e payment new_status db)
           | _ \<Rightarrow> mark_ignored now e payment (Note ''unsupported Razorpay event type'') db))"

definition accept_verified_razorpay_event :: "instant \<Rightarrow> jdict \<Rightarrow> pay_db \<Rightarrow> RazorpayReceipt \<times> pay_db" where
  "accept_verified_razorpay_event now parsed db =
     (let event_id = text_field ''external_event_id'' parsed; event_type = text_field ''event'' parsed;
          payload = sanitize_provider_payload (JDict parsed); existing = find_event event_id db in
      if event_id = [] \<or> event_type = [] then
        (\<lparr>rc_accepted = False, rc_event_id = event_id, rc_duplicate = False, rc_processed = False, rc_state = ''rejected'',
          rc_payment_id = None, rc_detail = Some (Note ''a provider event id and event type are required'')\<rparr>, db)
      else if (case existing of None \<Rightarrow> False | Some e \<Rightarrow> ev_processed_at e \<noteq> None)
      then (duplicate_receipt (the existing), db)
      else case resolve_payment parsed db of
        Inl mapping_error \<Rightarrow>
          (let e = (case existing of None \<Rightarrow> fresh_event event_id event_type payload None | Some e \<Rightarrow> e);
               e' = e\<lparr>ev_attempts := ev_attempts e + 1, ev_last_error := Some (Note mapping_error)\<rparr>
           in (receipt event_id (existing \<noteq> None) False ''pending_mapping'' None (Some (Note mapping_error)), put_event e' db))
      | Inr payment \<Rightarrow>
          if (case existing of None \<Rightarrow> False | Some e \<Rightarrow> ev_tenant e \<notin> {None, Some (pay_tenant payment)})
          then (receipt event_id True False ''duplicate_conflict'' None
                  (Some (Note ''provider event id is already bound to another payment tenant'')), db)
          else
            let e = (case existing of None \<Rightarrow> fresh_event event_id event_type payload (Some (pay_tenant payment)) | Some e \<Rightarrow> e);
                e' = e\<lparr>ev_tenant := Some (pay_tenant payment), ev_payload := payload,
                       ev_attempts := ev_attempts e + 1, ev_last_error := None\<rparr>
            in process_event now parsed (existing \<noteq> None) e' payment db)"

section \<open>The history invariant\<close>

definition history :: "pay_db \<Rightarrow> string \<Rightarrow> transition_row list" where
  "history db pid = filter (\<lambda>t. tr_payment t = pid) (db_transitions db)"

text \<open>A chain of permitted moves between two statuses.\<close>

fun chain :: "string \<Rightarrow> transition_row list \<Rightarrow> string \<Rightarrow> bool" where
  "chain s [] u = (s = u)"
| "chain s (t # ts) u = (tr_from t = s \<and> (\<exists>a b. PaymentStatus_of s = Some a \<and> b \<in> set (PAYMENT_ALLOWED a)
      \<and> tr_to t = PaymentStatus_value b) \<and> chain (tr_to t) ts u)"

lemma chain_snoc:
  "chain s (ts @ [t]) u \<longleftrightarrow> (\<exists>m. chain s ts m \<and> chain m [t] u)"
  by (induction ts arbitrary: s) auto

definition payment_ok :: "pay_db \<Rightarrow> payment_row \<Rightarrow> bool" where
  "payment_ok db p = (chain ''created'' (history db (pay_id p)) (pay_status p)
     \<and> map tr_sequence (history db (pay_id p)) = [1..int (length (history db (pay_id p)))]
     \<and> (\<forall>t\<in>set (history db (pay_id p)). tr_tenant t = pay_tenant p))"

definition processed :: "string \<Rightarrow> pay_db \<Rightarrow> bool" where
  "processed i db = (case find_event i db of None \<Rightarrow> False | Some e \<Rightarrow> ev_processed_at e \<noteq> None)"

definition db_inv :: "pay_db \<Rightarrow> bool" where
  "db_inv db = (distinct (map pay_id (db_payments db)) \<and> (\<forall>p\<in>set (db_payments db). payment_ok db p)
     \<and> distinct (map tr_event (db_transitions db)) \<and> (\<forall>t\<in>set (db_transitions db). processed (tr_event t) db)
     \<and> map (\<lambda>t. (tr_payment t, tr_from t, tr_to t, tr_event t)) (db_transitions db)
       = map (\<lambda>m. (ob_resource m, ob_from m, ob_to m, ob_event m)) (db_outbox db))"

lemma find_map_replace:
  "List.find (\<lambda>x. k x = i) (map (\<lambda>x. if k x = k e then e else x) xs)
     = (if i = k e \<and> List.find (\<lambda>x. k x = i) xs \<noteq> None then Some e else List.find (\<lambda>x. k x = i) xs)"
  by (induction xs) auto

lemma find_append_one:
  "List.find P (xs @ [e]) = (case List.find P xs of None \<Rightarrow> if P e then Some e else None | Some x \<Rightarrow> Some x)"
  by (induction xs) auto

lemma find_event_put [simp]:
  "find_event i (put_event e db) = (if i = ev_external_id e then Some e else find_event i db)"
  by (auto simp: put_event_def find_event_def find_map_replace find_append_one split: option.splits)

lemma put_event_simps [simp]:
  "db_payments (put_event e db) = db_payments db" "db_transitions (put_event e db) = db_transitions db"
  "db_outbox (put_event e db) = db_outbox db" "db_audit (put_event e db) = db_audit db"
  by (simp_all add: put_event_def)

lemma put_payment_simps [simp]:
  "db_events (put_payment p db) = db_events db" "db_transitions (put_payment p db) = db_transitions db"
  "db_outbox (put_payment p db) = db_outbox db" "db_audit (put_payment p db) = db_audit db"
  "find_event i (put_payment p db) = find_event i db"
  by (simp_all add: put_payment_def find_event_def)

lemma processedD: "processed i db \<Longrightarrow> \<exists>e\<in>set (db_events db). ev_external_id e = i \<and> ev_processed_at e \<noteq> None"
  by (auto simp: processed_def find_event_def find_Some_iff split: option.splits)

lemma history_put [simp]: "history (put_event e db) pid = history db pid" "history (put_payment p db) pid = history db pid"
  by (simp_all add: history_def)

lemma db_inv_put_event:
  assumes "db_inv db" and "\<not> processed (ev_external_id e) db"
  shows "db_inv (put_event e db)"
  using assms by (auto simp: db_inv_def payment_ok_def processed_def)

lemma foldr_max_upto: "foldr max [1..n] 0 = max 0 n" for n :: int
proof (cases "0 \<le> n")
  case True
  then show ?thesis
  proof (induction n rule: int_ge_induct)
    case (step i)
    have "foldr max [1..i + 1] 0 = foldr max ([1..i] @ [i + 1]) 0" using step by (simp add: upto_rec2)
    also have "\<dots> = foldr max [1..i] (i + 1)" using step by simp
    also have "\<dots> = i + 1"
    proof -
      have "foldr max xs m = m" if "\<forall>x\<in>set xs. x \<le> m" for xs and m :: int using that by (induction xs) auto
      then show ?thesis by auto
    qed
    finally show ?case using step by simp
  qed simp
qed simp

lemma next_sequence:
  assumes "map tr_sequence (history db pid) = [1..int (length (history db pid))]"
  shows "next_transition_sequence pid db = int (length (history db pid)) + 1"
  using assms by (simp add: next_transition_sequence_def history_def [symmetric] foldr_max_upto)

lemma resolve_payment_in:
  assumes "resolve_payment parsed db = Inr p"
  shows "p \<in> set (db_payments db)"
proof -
  from assms have "matching_payments parsed db = [p]"
    by (auto simp: resolve_payment_def split: if_splits list.splits)
  then have "p \<in> set (matching_payments parsed db)" by simp
  then show ?thesis by (simp add: matching_payments_def Let_def)
qed

lemma transition_allowed:
  assumes "assert_payment_transition cur target True = Inr new" and "PaymentStatus_value new \<noteq> cur"
  shows "\<exists>a. PaymentStatus_of cur = Some a \<and> new \<in> set (PAYMENT_ALLOWED a)"
proof -
  from assms(1) obtain a where a: "PaymentStatus_of cur = Some a" and step: "payment_step a new = Inr new"
    by (auto simp: assert_payment_transition_def payment_step_def split: option.splits if_splits)
  moreover have "a \<noteq> new" using PaymentStatus_of_Some [OF a] assms(2) by auto
  ultimately show ?thesis by (auto simp: payment_step_def split: if_splits)
qed

lemma moved_payment_simps [simp]:
  "pay_id (moved_payment now parsed p s) = pay_id p" "pay_tenant (moved_payment now parsed p s) = pay_tenant p"
  "pay_status (moved_payment now parsed p s) = PaymentStatus_value s"
  by (simp_all add: moved_payment_def Let_def)

lemma payment_ok_moved:
  assumes "payment_ok db p" and "PaymentStatus_of (pay_status p) = Some a" and "new \<in> set (PAYMENT_ALLOWED a)"
    and "history db' (pay_id p) = history db (pay_id p) @ [moved_row e p new db]"
  shows "payment_ok db' (moved_payment now parsed p new)"
proof -
  have "chain ''created'' (history db' (pay_id p)) (PaymentStatus_value new)"
    using assms(1-3) unfolding assms(4) chain_snoc by (auto simp: payment_ok_def moved_row_def)
  moreover have "map tr_sequence (history db' (pay_id p)) = [1..int (length (history db' (pay_id p)))]"
    using assms(1) next_sequence [of db "pay_id p"] unfolding assms(4)
    by (simp add: payment_ok_def moved_row_def upto_rec2 add.commute)
  ultimately show ?thesis using assms(1) unfolding payment_ok_def moved_payment_simps assms(4)
    by (simp add: moved_row_def)
qed

lemma db_inv_apply_transition:
  assumes inv: "db_inv db" and p: "payment \<in> set (db_payments db)" and e: "\<not> processed (ev_external_id e) db"
    and new: "assert_payment_transition (pay_status payment) target True = Inr new" "PaymentStatus_value new \<noteq> pay_status payment"
  shows "db_inv (snd (apply_transition now parsed e payment new db))"
proof -
  define db' where "db' = snd (apply_transition now parsed e payment new db)"
  have tr: "db_transitions db' = db_transitions db @ [moved_row e payment new db]"
    and pay: "db_payments db' = map (\<lambda>x. if pay_id x = pay_id payment then moved_payment now parsed payment new else x) (db_payments db)"
    and ob: "db_outbox db' = db_outbox db @ [moved_message e payment new]"
    by (simp_all add: db'_def apply_transition_def Let_def put_payment_def)
  have ev: "find_event i db' = (if i = ev_external_id e then Some (e\<lparr>ev_processed_at := Some now\<rparr>) else find_event i db)" for i
    using find_event_put [of i "e\<lparr>ev_processed_at := Some now\<rparr>" "put_payment (moved_payment now parsed payment new) db"]
    by (simp add: db'_def apply_transition_def Let_def find_event_def)
  have hist: "history db' i = history db i @ (if i = pay_id payment then [moved_row e payment new db] else [])" for i
    by (simp add: history_def tr moved_row_def)
  obtain a where a: "PaymentStatus_of (pay_status payment) = Some a" "new \<in> set (PAYMENT_ALLOWED a)"
    using transition_allowed [OF new] by blast
  have "payment_ok db' q" if "q \<in> set (db_payments db')" for q
  proof -
    from that pay obtain x where x: "x \<in> set (db_payments db)"
        "q = (if pay_id x = pay_id payment then moved_payment now parsed payment new else x)" by auto
    show ?thesis
    proof (cases "pay_id x = pay_id payment")
      case True
      have "payment_ok db payment" using inv p by (simp add: db_inv_def)
      from payment_ok_moved [OF this a, of db' e now parsed] hist x(2) True show ?thesis by simp
    next
      case False
      with x inv hist show ?thesis by (simp add: db_inv_def payment_ok_def)
    qed
  qed
  moreover have "map pay_id (db_payments db') = map pay_id (db_payments db)" by (auto simp: pay)
  moreover have "distinct (map tr_event (db_transitions db'))"
    using inv e by (auto simp: db_inv_def tr moved_row_def)
  moreover have "\<forall>t\<in>set (db_transitions db'). processed (tr_event t) db'"
    using inv by (auto simp: db_inv_def processed_def tr ev moved_row_def)
  ultimately have "db_inv db'"
    using inv by (simp add: db_inv_def tr ob moved_row_def moved_message_def)
  then show ?thesis by (simp add: db'_def)
qed

lemma db_inv_accept:
  assumes "db_inv db"
  shows "db_inv (snd (accept_verified_razorpay_event now parsed db))"
proof -
  let ?id = "text_field ''external_event_id'' parsed"
  have ev_id: "find_event ?id db = Some x \<Longrightarrow> ev_external_id x = ?id" for x
    by (auto simp: find_event_def dest: find_Some_split)
  have go: "db_inv (snd (process_event now parsed b e payment db))"
    if "\<not> processed (ev_external_id e) db" "resolve_payment parsed db = Inr payment" for b e payment
    using db_inv_put_event [OF assms] db_inv_apply_transition [OF assms resolve_payment_in [OF that(2)] that(1)] that(1)
    by (simp add: process_event_def mark_ignored_def split: option.splits json.splits sum.splits)
  show ?thesis
  proof (cases "processed ?id db")
    case True
    with assms show ?thesis
      by (auto simp: accept_verified_razorpay_event_def processed_def Let_def split: option.splits)
  next
    case False
    show ?thesis
    proof (cases "find_event ?id db")
      case None
      with assms False go show ?thesis
        by (simp add: accept_verified_razorpay_event_def Let_def fresh_event_def db_inv_put_event split: sum.splits)
    next
      case (Some x)
      with assms False go ev_id [OF Some] show ?thesis
        by (simp add: accept_verified_razorpay_event_def Let_def db_inv_put_event processed_def split: sum.splits)
    qed
  qed
qed

section \<open>Properties\<close>

definition deliver :: "pay_db \<Rightarrow> instant \<times> jdict \<Rightarrow> pay_db" where
  "deliver db d = snd (accept_verified_razorpay_event (fst d) (snd d) db)"

lemma db_inv_deliveries: "db_inv db \<Longrightarrow> db_inv (foldl deliver db ds)"
  by (induction ds arbitrary: db) (simp_all add: deliver_def db_inv_accept)

text \<open>C6. However provider events are delivered, repeated or reordered, the status of every payment is what its
  append-only history leads to: the history is a chain of permitted moves from \<^verbatim>\<open>created\<close> numbered without
  gaps, under the payment's own tenant; every move belongs to a provider event that is stored as processed, one
  event causes at most one move, and the outbox holds exactly one message per move.\<close>

theorem webhook_history_consistent:
  assumes "distinct (map pay_id (db_payments db0))" "\<forall>p\<in>set (db_payments db0). pay_status p = ''created''"
    and "db_transitions db0 = []" "db_outbox db0 = []" and "db = foldl deliver db0 deliveries"
  shows "(\<forall>p\<in>set (db_payments db). chain ''created'' (history db (pay_id p)) (pay_status p)
        \<and> map tr_sequence (history db (pay_id p)) = [1..int (length (history db (pay_id p)))]
        \<and> (\<forall>t\<in>set (history db (pay_id p)). tr_tenant t = pay_tenant p))
    \<and> (\<forall>t\<in>set (db_transitions db). \<exists>e\<in>set (db_events db). ev_external_id e = tr_event t \<and> ev_processed_at e \<noteq> None)
    \<and> distinct (map tr_event (db_transitions db))
    \<and> map (\<lambda>t. (tr_payment t, tr_from t, tr_to t, tr_event t)) (db_transitions db)
        = map (\<lambda>m. (ob_resource m, ob_from m, ob_to m, ob_event m)) (db_outbox db)"
proof -
  have "db_inv db0" using assms(1-4) by (simp add: db_inv_def payment_ok_def history_def)
  then have "db_inv db" unfolding assms(5) by (rule db_inv_deliveries)
  then have "\<forall>t\<in>set (db_transitions db). processed (tr_event t) db" by (simp add: db_inv_def)
  with processedD have "\<forall>t\<in>set (db_transitions db). \<exists>e\<in>set (db_events db). ev_external_id e = tr_event t \<and> ev_processed_at e \<noteq> None"
    by blast
  with \<open>db_inv db\<close> show ?thesis by (simp add: db_inv_def payment_ok_def)
qed

definition sample_payment :: payment_row where
  "sample_payment = \<lparr>pay_id = ''p1'', pay_tenant = ''t1'', pay_order = Some ''order_1'', pay_external = None, pay_amount = 500,
     pay_currency = ''INR'', pay_status = ''created'', pay_method = ''unknown'', pay_provider = ''razorpay'', pay_payload = JDict [],
     pay_reconciliation = ''pending'', pay_reconciled_at = None, pay_captured_at = None\<rparr>"

definition sample_db :: pay_db where
  "sample_db = \<lparr>db_payments = [sample_payment], db_events = [], db_transitions = [], db_audit = [], db_outbox = []\<rparr>"

definition sample_event :: "string \<Rightarrow> string \<Rightarrow> jdict" where
  "sample_event i status = [(''event'', JStr ''payment.x''), (''external_event_id'', JStr i), (''status'', JStr status),
     (''external_order_id'', JStr ''order_1''), (''amount_minor'', JInt 500), (''currency'', JStr ''INR'')]"

theorem webhook_history_consistent_witness:
  "let db = foldl deliver sample_db [(1, sample_event ''e1'' ''attempted''), (2, sample_event ''e2'' ''captured'')]
   in map pay_status (db_payments db) = [''captured''] \<and> distinct (map tr_event (db_transitions db))
      \<and> chain ''created'' (history db ''p1'') ''captured''"
proof -
  let ?db = "foldl deliver sample_db [(1, sample_event ''e1'' ''attempted''), (2, sample_event ''e2'' ''captured'')]"
  have s: "map pay_status (db_payments ?db) = [''captured'']" "map pay_id (db_payments ?db) = [''p1'']" by code_simp+
  then obtain p where p: "db_payments ?db = [p]" "pay_status p = ''captured''" "pay_id p = ''p1''" by auto
  have "distinct (map tr_event (db_transitions ?db)) \<and> chain ''created'' (history ?db (pay_id p)) (pay_status p)"
    using webhook_history_consistent [of sample_db ?db "[(1, sample_event ''e1'' ''attempted''), (2, sample_event ''e2'' ''captured'')]"] p(1)
    by (simp add: sample_db_def sample_payment_def)
  with s p show ?thesis by (simp add: Let_def)
qed

text \<open>Once an event has been processed, delivering an event with the same identifier again is answered as a
  duplicate and changes nothing, whatever else it carries.\<close>

theorem webhook_redelivery_is_noop:
  assumes "accept_verified_razorpay_event now parsed db = (r, db')" and "rc_processed r"
    and "text_field ''external_event_id'' parsed' = text_field ''external_event_id'' parsed"
    and "text_field ''event'' parsed' \<noteq> []"
  shows "snd (accept_verified_razorpay_event now' parsed' db') = db'
    \<and> rc_state (fst (accept_verified_razorpay_event now' parsed' db')) = ''duplicate''"
proof -
  let ?id = "text_field ''external_event_id'' parsed"
  have ev_id: "find_event ?id db = Some x \<Longrightarrow> ev_external_id x = ?id" for x
    by (auto simp: find_event_def dest: find_Some_split)
  have proc: "processed (ev_external_id e) d \<and> ev_external_id e \<noteq> []"
    if "process_event now parsed b e payment db = (r, d)" "ev_external_id e = ?id" "?id \<noteq> []" for b e payment d
    using that assms(2)
    by (auto simp: process_event_def mark_ignored_def apply_transition_def receipt_def processed_def Let_def find_event_def
        find_event_put [unfolded find_event_def] split: option.splits json.splits sum.splits if_splits)
  have "processed ?id db' \<and> ?id \<noteq> []"
  proof (cases "processed ?id db")
    case True
    with assms(1,2) show ?thesis
      by (auto simp: accept_verified_razorpay_event_def processed_def Let_def split: option.splits if_splits)
  next
    case False
    have "\<exists>b e payment. process_event now parsed b e payment db = (r, db') \<and> ev_external_id e = ?id \<and> ?id \<noteq> []"
    proof (cases "find_event ?id db")
      case None
      with assms(1,2) show ?thesis
        by (auto simp: accept_verified_razorpay_event_def Let_def receipt_def fresh_event_def
            split: sum.splits if_splits intro!: exI)
    next
      case (Some x)
      with assms(1,2) False ev_id [OF Some] show ?thesis
        by (auto simp: accept_verified_razorpay_event_def Let_def receipt_def processed_def
            split: sum.splits if_splits intro!: exI)
    qed
    with proc show ?thesis by metis
  qed
  then show ?thesis
    using assms(3,4) by (auto simp: accept_verified_razorpay_event_def processed_def Let_def duplicate_receipt_def receipt_def split: option.splits)
qed

theorem webhook_redelivery_is_noop_witness:
  "let db = deliver sample_db (1, sample_event ''e1'' ''attempted'') in deliver db (9, sample_event ''e1'' ''failed'') = db"
proof -
  obtain r db where a: "accept_verified_razorpay_event 1 (sample_event ''e1'' ''attempted'') sample_db = (r, db)" by fastforce
  have "rc_processed (fst (accept_verified_razorpay_event 1 (sample_event ''e1'' ''attempted'') sample_db))" by code_simp
  with a have p: "rc_processed r" by simp
  have "text_field ''external_event_id'' (sample_event ''e1'' ''failed'') = text_field ''external_event_id'' (sample_event ''e1'' ''attempted'')"
    "text_field ''event'' (sample_event ''e1'' ''failed'') \<noteq> []" by code_simp+
  from webhook_redelivery_is_noop [OF a p this, of 9] a show ?thesis by (simp add: deliver_def Let_def)
qed

lemma accept_changes_payment:
  assumes "accept_verified_razorpay_event now parsed db = (r, db')" and "db_payments db' \<noteq> db_payments db"
  obtains e p new where "matching_payments parsed db = [p]" "validate_provider_identity p parsed = None"
    "(r, db') = apply_transition now parsed e p new db"
proof -
  from assms obtain b e p where p: "resolve_payment parsed db = Inr p"
      and proc: "process_event now parsed b e p db = (r, db')"
    by (auto simp: accept_verified_razorpay_event_def Let_def split: if_splits sum.splits)
  have "matching_payments parsed db = [p]"
    using p by (auto simp: resolve_payment_def split: if_splits list.splits)
  moreover from proc assms(2) have "validate_provider_identity p parsed = None \<and> (\<exists>new. apply_transition now parsed e p new db = (r, db'))"
    by (auto simp: process_event_def mark_ignored_def split: option.splits json.splits sum.splits if_splits)
  ultimately show thesis using that by metis
qed

text \<open>C29. The server keeps the authority over a payment: an event changes the payments table only if its provider
  identifiers name exactly one stored Razorpay payment; its payment identifier is then the stored one, unless one of
  the two is missing; its amount, if it carries one, equals the stored amount (Python counts \<^verbatim>\<open>True\<close> as 1 and
  \<^verbatim>\<open>False\<close> as 0) and its currency, if it carries one, the stored currency. Only the row of this payment changes,
  and its tenant, order, amount, currency and a payment identifier it already had stay as they are.\<close>

theorem webhook_amount_authority:
  fixes parsed :: jdict
  defines "pid \<equiv> text_field ''external_payment_id'' parsed" and "oid \<equiv> text_field ''external_order_id'' parsed"
  assumes "accept_verified_razorpay_event now parsed db = (r, db')" and "db_payments db' \<noteq> db_payments db"
  shows "\<exists>p q. filter (\<lambda>x. pay_provider x = ''razorpay''
          \<and> (pid \<noteq> [] \<and> pay_external x = Some pid \<or> oid \<noteq> [] \<and> pay_order x = Some oid)) (db_payments db) = [p]
    \<and> (pid = [] \<or> pay_external p \<in> {None, Some [], Some pid})
    \<and> (dget ''amount_minor'' parsed \<in> {JNull, JInt (pay_amount p)} \<or> (\<exists>b. dget ''amount_minor'' parsed = JBool b \<and> pay_amount p = of_bool b))
    \<and> (dget ''currency'' parsed = JNull \<or> py_str (dget ''currency'' parsed) = pay_currency p)
    \<and> db_payments db' = map (\<lambda>x. if pay_id x = pay_id p then q else x) (db_payments db)
    \<and> pay_id q = pay_id p \<and> pay_tenant q = pay_tenant p \<and> pay_order q = pay_order p
    \<and> pay_amount q = pay_amount p \<and> pay_currency q = pay_currency p
    \<and> (pay_external p \<noteq> None \<longrightarrow> pay_external q = pay_external p)"
proof -
  from assms(3,4) obtain e p new where m: "matching_payments parsed db = [p]"
      and v: "validate_provider_identity p parsed = None" and t: "(r, db') = apply_transition now parsed e p new db"
    by (rule accept_changes_payment)
  let ?q = "moved_payment now parsed p new"
  have ids: "filter (\<lambda>x. pay_provider x = ''razorpay''
      \<and> (pid \<noteq> [] \<and> pay_external x = Some pid \<or> oid \<noteq> [] \<and> pay_order x = Some oid)) (db_payments db) = [p]"
    using m by (simp add: matching_payments_def Let_def PROVIDER_NAME_def pid_def oid_def)
  have agree: "pid = [] \<or> pay_external p \<in> {None, Some [], Some pid}"
      "dget ''currency'' parsed = JNull \<or> py_str (dget ''currency'' parsed) = pay_currency p"
    and "dget ''amount_minor'' parsed = JNull \<or> as_int (dget ''amount_minor'' parsed) = Some (pay_amount p)"
    using v by (auto simp: validate_provider_identity_def Let_def pid_def split: if_splits)
  moreover have "j = JInt i \<or> (\<exists>b. j = JBool b \<and> i = of_bool b)" if "as_int j = Some i" for j i
    using that by (cases j) (auto simp: as_int_def)
  ultimately have amount: "dget ''amount_minor'' parsed \<in> {JNull, JInt (pay_amount p)}
      \<or> (\<exists>b. dget ''amount_minor'' parsed = JBool b \<and> pay_amount p = of_bool b)"
    by blast
  have row: "db_payments db' = map (\<lambda>x. if pay_id x = pay_id p then ?q else x) (db_payments db)"
    using t by (simp add: apply_transition_def Let_def put_payment_def moved_payment_def)
  have kept: "pay_id ?q = pay_id p" "pay_tenant ?q = pay_tenant p" "pay_order ?q = pay_order p" "pay_amount ?q = pay_amount p"
      "pay_currency ?q = pay_currency p" "pay_external p \<noteq> None \<longrightarrow> pay_external ?q = pay_external p"
    by (simp_all add: moved_payment_def Let_def)
  show ?thesis by (intro exI [of _ p] exI [of _ ?q] conjI ids agree amount row kept)
qed

theorem webhook_amount_authority_witness:
  "\<exists>p q. [sample_payment] = [p] \<and> db_payments (snd (accept_verified_razorpay_event 1 (sample_event ''e1'' ''attempted'') sample_db)) = [q]
     \<and> pay_amount q = pay_amount p \<and> pay_tenant q = pay_tenant p"
proof -
  obtain r db where a: "accept_verified_razorpay_event 1 (sample_event ''e1'' ''attempted'') sample_db = (r, db)" by fastforce
  have "map pay_status (db_payments (snd (accept_verified_razorpay_event 1 (sample_event ''e1'' ''attempted'') sample_db))) = [''attempted'']"
    "map pay_status (db_payments sample_db) = [''created'']" by code_simp+
  with a have "db_payments db \<noteq> db_payments sample_db" by force
  from webhook_amount_authority [OF a this] obtain p q where
      "p \<in> set (db_payments sample_db)" "pay_amount q = pay_amount p" "pay_tenant q = pay_tenant p"
      "db_payments db = map (\<lambda>x. if pay_id x = pay_id p then q else x) (db_payments sample_db)"
    by (metis (no_types, lifting) filter_is_subset list.set_intros(1) subsetD)
  with a show ?thesis by (auto simp: sample_db_def)
qed

definition stores_no_card_data :: "pay_db \<Rightarrow> bool" where
  "stores_no_card_data db = ((\<forall>p\<in>set (db_payments db). card_free (pay_payload p)) \<and> (\<forall>e\<in>set (db_events db). card_free (ev_payload e)))"

lemma put_event_keeps_card_free: "card_free (ev_payload e) \<Longrightarrow> stores_no_card_data db \<Longrightarrow> stores_no_card_data (put_event e db)"
  by (auto simp: stores_no_card_data_def put_event_def)

lemma process_event_keeps_card_free:
  assumes "card_free (ev_payload e)" and "stores_no_card_data db"
  shows "stores_no_card_data (snd (process_event now parsed b e p db))"
proof -
  have "stores_no_card_data (put_payment (moved_payment now parsed p new) db)" for new
    using assms(2) sanitized_card_free by (auto simp: stores_no_card_data_def put_payment_def moved_payment_def Let_def)
  with assms(1) have "stores_no_card_data (put_event (e\<lparr>ev_processed_at := Some now\<rparr>) (put_payment (moved_payment now parsed p new) db))" for new
    by (intro put_event_keeps_card_free) simp_all
  then have "stores_no_card_data (snd (apply_transition now parsed e p new db))" for new
    by (simp add: apply_transition_def Let_def stores_no_card_data_def)
  with assms put_event_keeps_card_free show ?thesis
    by (simp add: process_event_def mark_ignored_def split: option.splits json.splits sum.splits)
qed

lemma deliver_keeps_card_free:
  assumes "stores_no_card_data db"
  shows "stores_no_card_data (deliver db d)"
proof -
  have "card_free (ev_payload e)" if "find_event i db = Some e" for i e
    using that assms by (auto simp: stores_no_card_data_def find_event_def dest: find_Some_split)
  with assms put_event_keeps_card_free process_event_keeps_card_free sanitized_card_free show ?thesis
    by (auto simp: deliver_def accept_verified_razorpay_event_def Let_def fresh_event_def split: option.splits sum.splits)
qed

text \<open>C32. Whatever verified events arrive in whatever order, the payloads kept on the payments and on the webhook
  events hold no card data: at every depth a key naming the card number, the holder, the expiry date, a verification
  code, the stripe or the PIN, in any letter case, is bound to the placeholder.\<close>

theorem webhook_stores_no_card_data:
  assumes "\<forall>p\<in>set (db_payments db0). card_free (pay_payload p)" and "\<forall>e\<in>set (db_events db0). card_free (ev_payload e)"
    and "db = foldl deliver db0 deliveries"
  shows "(\<forall>p\<in>set (db_payments db). card_free (pay_payload p)) \<and> (\<forall>e\<in>set (db_events db). card_free (ev_payload e))"
proof -
  have "stores_no_card_data (foldl deliver db0 ds)" if "stores_no_card_data db0" for ds db0
    using that by (induction ds arbitrary: db0) (simp_all add: deliver_keeps_card_free)
  from this [of db0 deliveries] assms(1,2) show ?thesis by (simp add: assms(3) stores_no_card_data_def)
qed

definition sample_card_event :: jdict where
  "sample_card_event = sample_event ''e1'' ''attempted'' @ [(''entity'', JDict [(''card'', JDict [(''last4'', JStr ''1111'')]), (''CVV'', JStr ''123'')])]"

theorem webhook_stores_no_card_data_witness:
  "let db = foldl deliver sample_db [(1, sample_card_event)]
   in map pay_payload (db_payments db) = [JDict [(''card'', JStr ''[REMOVED]''), (''CVV'', JStr ''[REMOVED]'')]]
      \<and> list_all card_free (map pay_payload (db_payments db))"
proof -
  let ?db = "foldl deliver sample_db [(1, sample_card_event)]"
  have "map pay_payload (db_payments ?db) = [JDict [(''card'', JStr ''[REMOVED]''), (''CVV'', JStr ''[REMOVED]'')]]" by code_simp
  moreover have "\<forall>p\<in>set (db_payments ?db). card_free (pay_payload p)"
    using webhook_stores_no_card_data [of sample_db ?db "[(1, sample_card_event)]"] by (simp add: sample_db_def sample_payment_def)
  ultimately show ?thesis by (simp add: Let_def list_all_iff)
qed

text \<open>A capture that overtakes its authorisation is lost: the early event is recorded as processed and ignored, so
  that after the authorisation arrives the provider's redelivery of the capture is dropped as a duplicate and
  the payment stays \<^verbatim>\<open>attempted\<close>.\<close>

theorem early_capture_is_lost:
  "map pay_status (db_payments (foldl deliver sample_db
     [(1, sample_event ''cap'' ''captured''), (2, sample_event ''auth'' ''attempted''), (3, sample_event ''cap'' ''captured'')]))
   = [''attempted'']"
  by code_simp

end
