(* ===== verification/Consent_Policy.thy ===== *)
theory Consent_Policy
  imports Py_Json
begin

text \<open>
  \<^verbatim>\<open>domain/communications/consent_policy.py\<close>: the single decision point before every outbound contact.
  The local time of day of an instant comes from the time zone database, so \<open>local_tod zone instant\<close>
  (microseconds since local midnight) is an argument.
\<close>

section \<open>Types\<close>

datatype Channel = Ch_WHATSAPP | Ch_EMAIL | Ch_SMS | Ch_VOICE | Ch_WEB_CHAT | Ch_IN_APP

datatype ConsentType = MARKETING | COMMUNICATION | DATA_PROCESSING | WHATSAPP_OPTIN

datatype Block = OPTED_OUT | SUPPRESSED | NO_CONSENT | CONSENT_EXPIRED | CHANNEL_DISABLED | CHANNEL_UNHEALTHY
  | FEATURE_DISABLED | QUIET_HOURS | FREQUENCY_CAP | BUDGET_EXHAUSTED | UNDELIVERABLE | AUTOMATION_STOPPED
  | TEMPLATE_NOT_APPROVED | FREEFORM_WINDOW_CLOSED

text \<open>\<^verbatim>\<open>list(Block).index(b)\<close>: the declaration order is the order of severity.\<close>

fun block_index :: "Block \<Rightarrow> nat" where
  "block_index OPTED_OUT = 0" | "block_index SUPPRESSED = 1" | "block_index NO_CONSENT = 2"
| "block_index CONSENT_EXPIRED = 3" | "block_index CHANNEL_DISABLED = 4" | "block_index CHANNEL_UNHEALTHY = 5"
| "block_index FEATURE_DISABLED = 6" | "block_index QUIET_HOURS = 7" | "block_index FREQUENCY_CAP = 8"
| "block_index BUDGET_EXHAUSTED = 9" | "block_index UNDELIVERABLE = 10" | "block_index AUTOMATION_STOPPED = 11"
| "block_index TEMPLATE_NOT_APPROVED = 12" | "block_index FREEFORM_WINDOW_CLOSED = 13"

instantiation Block :: linorder
begin

definition less_eq_Block :: "Block \<Rightarrow> Block \<Rightarrow> bool" where "a \<le> b = (block_index a \<le> block_index b)"

definition less_Block :: "Block \<Rightarrow> Block \<Rightarrow> bool" where "a < b = (block_index a < block_index b)"

instance
proof
  fix a b :: Block
  show "a \<le> b \<Longrightarrow> b \<le> a \<Longrightarrow> a = b" by (cases a; cases b) (simp_all add: less_eq_Block_def)
qed (auto simp: less_eq_Block_def less_Block_def)

end

definition PURPOSE_CONSENT :: "string \<Rightarrow> ConsentType" where
  "PURPOSE_CONSENT purpose = (case map_of [(''marketing'', MARKETING), (''promotional'', MARKETING),
     (''transactional'', COMMUNICATION), (''utility'', COMMUNICATION), (''service'', COMMUNICATION),
     (''authentication'', COMMUNICATION)] purpose of None \<Rightarrow> COMMUNICATION | Some t \<Rightarrow> t)"

definition QUIET_HOURS_EXEMPT :: "string list" where
  "QUIET_HOURS_EXEMPT = [''authentication'', ''appointment_reminder_urgent'', ''security'']"

record SendContext =
  sc_channel :: Channel
  sc_purpose :: string
  sc_now :: instant
  sc_tenant_timezone :: string
  sc_opted_out :: bool
  sc_suppressed :: bool
  sc_consent_granted :: bool
  sc_consent_expires_at :: "instant option"
  sc_last_inbound_at :: "instant option"
  sc_sends_today :: int
  sc_hard_bounced :: bool
  sc_channel_connected :: bool
  sc_channel_healthy :: bool
  sc_feature_enabled :: bool
  sc_budget_remaining :: int
  sc_automation_stopped :: bool
  sc_quiet_hours :: jdict
  sc_frequency_cap_per_day :: "int option"
  sc_uses_template :: bool
  sc_template_approved :: bool
  sc_is_automated :: bool

record SendDecision =
  sd_allowed :: bool
  sd_blocks :: "Block list"
  sd_queued :: bool
  sd_requires_template :: bool

section \<open>Quiet hours and the WhatsApp window\<close>

definition parse_hhmm :: "string \<Rightarrow> (py_exc, int) res" where
  "parse_hhmm value =
     (case (int_of_text (before (CHR '':'') value),
            if after (CHR '':'') value = [] then Some 0 else int_of_text (after (CHR '':'') value)) of
        (Some h, Some m) \<Rightarrow> if 0 \<le> h \<and> h < 24 \<and> 0 \<le> m \<and> m < 60 then Inr (hours h + minutes m) else Inl ValueError
      | _ \<Rightarrow> Inl ValueError)"

definition in_window :: "int \<Rightarrow> int \<Rightarrow> int \<Rightarrow> bool" where
  "in_window local start finish =
     (if start = finish then False
      else if start < finish then start \<le> local \<and> local < finish
      else local \<ge> start \<or> local < finish)"

definition in_quiet_hours :: "(string \<Rightarrow> instant \<Rightarrow> int) \<Rightarrow> instant \<Rightarrow> jdict \<Rightarrow> string \<Rightarrow> (py_exc, bool) res" where
  "in_quiet_hours local_tod now quiet_hours fallback_tz =
     (if quiet_hours = [] \<or> dget ''enabled'' quiet_hours = JBool False then Inr False
      else
        let tz_name = (let t = dget ''timezone'' quiet_hours in if truthy t then py_str t else fallback_tz) in
        rbind (parse_hhmm (py_str (dget_or ''start'' (JStr ''21:00'') quiet_hours))) (\<lambda>start.
        rbind (parse_hhmm (py_str (dget_or ''end'' (JStr ''09:00'') quiet_hours))) (\<lambda>finish.
          Inr (in_window (local_tod tz_name now) start finish))))"

definition freeform_window_open :: "instant option \<Rightarrow> instant \<Rightarrow> bool" where
  "freeform_window_open last_inbound_at now =
     (case last_inbound_at of None \<Rightarrow> False | Some t \<Rightarrow> now - t < hours 24)"

section \<open>The decision\<close>

definition block_if :: "bool \<Rightarrow> Block \<Rightarrow> Block list" where
  "block_if c b = (if c then [b] else [])"

definition consent_blocks :: "SendContext \<Rightarrow> Block list" where
  "consent_blocks ctx =
     (let blocks = (if sc_channel ctx \<in> {Ch_WHATSAPP, Ch_EMAIL, Ch_SMS, Ch_VOICE} then
                      (if \<not> sc_consent_granted ctx then [NO_CONSENT]
                       else block_if (case sc_consent_expires_at ctx of None \<Rightarrow> False | Some t \<Rightarrow> t \<le> sc_now ctx) CONSENT_EXPIRED)
                    else [])
      in blocks @ block_if (PURPOSE_CONSENT (sc_purpose ctx) = MARKETING \<and> \<not> sc_consent_granted ctx
           \<and> NO_CONSENT \<notin> set blocks) NO_CONSENT)"

definition template_blocks :: "SendContext \<Rightarrow> Block list" where
  "template_blocks ctx =
     (if sc_channel ctx = Ch_WHATSAPP then
        (if \<not> freeform_window_open (sc_last_inbound_at ctx) (sc_now ctx) then
           (if \<not> sc_uses_template ctx then [FREEFORM_WINDOW_CLOSED]
            else block_if (\<not> sc_template_approved ctx) TEMPLATE_NOT_APPROVED)
         else block_if (sc_uses_template ctx \<and> \<not> sc_template_approved ctx) TEMPLATE_NOT_APPROVED)
      else [])"

definition collect_blocks :: "SendContext \<Rightarrow> bool \<Rightarrow> Block list" where
  "collect_blocks ctx quiet =
     block_if (sc_opted_out ctx) OPTED_OUT @ block_if (sc_suppressed ctx) SUPPRESSED
     @ block_if (sc_automation_stopped ctx \<and> sc_is_automated ctx) AUTOMATION_STOPPED
     @ consent_blocks ctx
     @ block_if (\<not> sc_feature_enabled ctx) FEATURE_DISABLED @ block_if (\<not> sc_channel_connected ctx) CHANNEL_DISABLED
     @ block_if (sc_hard_bounced ctx) UNDELIVERABLE @ block_if (sc_budget_remaining ctx \<le> 0) BUDGET_EXHAUSTED
     @ block_if quiet QUIET_HOURS
     @ block_if (case sc_frequency_cap_per_day ctx of None \<Rightarrow> False | Some cap \<Rightarrow> sc_sends_today ctx \<ge> cap) FREQUENCY_CAP
     @ template_blocks ctx"

definition evaluate_send :: "(string \<Rightarrow> instant \<Rightarrow> int) \<Rightarrow> SendContext \<Rightarrow> (py_exc, SendDecision) res" where
  "evaluate_send local_tod ctx =
     rbind (if sc_purpose ctx \<notin> set QUIET_HOURS_EXEMPT
            then in_quiet_hours local_tod (sc_now ctx) (sc_quiet_hours ctx) (sc_tenant_timezone ctx)
            else Inr False) (\<lambda>quiet.
       let blocks = collect_blocks ctx quiet;
           requires_template = (sc_channel ctx = Ch_WHATSAPP \<and> \<not> freeform_window_open (sc_last_inbound_at ctx) (sc_now ctx))
       in if blocks = [] \<and> \<not> sc_channel_healthy ctx
          then Inr \<lparr>sd_allowed = True, sd_blocks = [CHANNEL_UNHEALTHY], sd_queued = True, sd_requires_template = requires_template\<rparr>
          else Inr \<lparr>sd_allowed = (blocks = []), sd_blocks = sorted_set blocks, sd_queued = False,
                    sd_requires_template = requires_template\<rparr>)"

definition revocation_cancels :: "string \<Rightarrow> bool" where
  "revocation_cancels purpose = (purpose \<notin> {''authentication'', ''security''})"

lemma set_block_if [simp]: "set (block_if c b) = (if c then {b} else {})" "block_if c b = [] \<longleftrightarrow> \<not> c"
  by (simp_all add: block_if_def)

lemma sorted_set_Nil [simp]: "sorted_set xs = [] \<longleftrightarrow> xs = []"
  by (metis set_empty sorted_set_simps(1))

lemma evaluate_send_parts:
  assumes "evaluate_send local_tod ctx = Inr d"
  obtains quiet where "sc_purpose ctx \<notin> set QUIET_HOURS_EXEMPT \<longrightarrow>
      in_quiet_hours local_tod (sc_now ctx) (sc_quiet_hours ctx) (sc_tenant_timezone ctx) = Inr quiet"
    "sd_blocks d = (if collect_blocks ctx quiet = [] \<and> \<not> sc_channel_healthy ctx
        then [CHANNEL_UNHEALTHY] else sorted_set (collect_blocks ctx quiet))"
    "sd_allowed d \<longleftrightarrow> collect_blocks ctx quiet = []"
    "sd_queued d \<longleftrightarrow> collect_blocks ctx quiet = [] \<and> \<not> sc_channel_healthy ctx"
    "sd_requires_template d \<longleftrightarrow> sc_channel ctx = Ch_WHATSAPP \<and> \<not> freeform_window_open (sc_last_inbound_at ctx) (sc_now ctx)"
    "sc_purpose ctx \<in> set QUIET_HOURS_EXEMPT \<longrightarrow> \<not> quiet"
proof -
  from assms obtain quiet where
      "(if sc_purpose ctx \<notin> set QUIET_HOURS_EXEMPT
        then in_quiet_hours local_tod (sc_now ctx) (sc_quiet_hours ctx) (sc_tenant_timezone ctx) else Inr False) = Inr quiet"
    unfolding evaluate_send_def rbind_eq_Inr by blast
  with assms show thesis
    by (intro that [of quiet]) (auto simp: evaluate_send_def Let_def split: if_splits)
qed

section \<open>Properties\<close>

text \<open>Quiet hours, stated on the clock rather than by cases: a text such as \<^verbatim>\<open>21:30\<close> names a time of day, and the quiet
  hours reach from their start to their end in the direction of the clock, past midnight if need be. A start that
  equals the end means no quiet hours at all.\<close>

definition clock_time :: "string \<Rightarrow> int \<Rightarrow> bool" where
  "clock_time text t \<longleftrightarrow> (\<exists>h m. int_of_text (before (CHR '':'') text) = Some h \<and> 0 \<le> h \<and> h < 24 \<and> 0 \<le> m \<and> m < 60
     \<and> (if after (CHR '':'') text = [] then m = 0 else int_of_text (after (CHR '':'') text) = Some m)
     \<and> t = (h * 60 + m) * 60000000)"

definition quiet_on_clock :: "(string \<Rightarrow> instant \<Rightarrow> int) \<Rightarrow> SendContext \<Rightarrow> bool" where
  "quiet_on_clock local_tod ctx \<longleftrightarrow>
     (let q = sc_quiet_hours ctx;
          zone = (if truthy (dget ''timezone'' q) then py_str (dget ''timezone'' q) else sc_tenant_timezone ctx)
      in q \<noteq> [] \<and> dget ''enabled'' q \<noteq> JBool False
         \<and> (\<exists>s f. clock_time (py_str (dget_or ''start'' (JStr ''21:00'') q)) s \<and> clock_time (py_str (dget_or ''end'' (JStr ''09:00'') q)) f
              \<and> (local_tod zone (sc_now ctx) - s) mod days 1 < (f - s) mod days 1))"

lemma parse_hhmm_iff: "parse_hhmm text = Inr t \<longleftrightarrow> clock_time text t"
  by (auto simp: parse_hhmm_def clock_time_def hours_def minutes_def split: option.splits if_splits)

lemma clock_time_range: "clock_time text t \<Longrightarrow> 0 \<le> t \<and> t < days 1"
  by (auto simp: clock_time_def days_def)

lemma mod_day:
  fixes x y :: int
  assumes "0 \<le> x" "x < d" "0 \<le> y" "y < d"
  shows "(x - y) mod d = (if y \<le> x then x - y else x - y + d)"
proof (cases "y \<le> x")
  case False
  have "(x - y) mod d = (x - y + d) mod d" by simp
  also have "\<dots> = x - y + d" using False assms by (intro mod_pos_pos_trivial) auto
  finally show ?thesis using False by simp
qed (use assms in simp)

lemma in_window_circular:
  assumes "0 \<le> l" "l < days 1" "0 \<le> s" "s < days 1" "0 \<le> f" "f < days 1"
  shows "in_window l s f \<longleftrightarrow> (l - s) mod days 1 < (f - s) mod days 1"
  using assms by (auto simp: in_window_def mod_day)

lemma in_quiet_hours_iff:
  assumes "in_quiet_hours local_tod (sc_now ctx) (sc_quiet_hours ctx) (sc_tenant_timezone ctx) = Inr quiet"
    and tod: "\<And>z t. 0 \<le> local_tod z t" "\<And>z t. local_tod z t < days 1"
  shows "quiet \<longleftrightarrow> quiet_on_clock local_tod ctx"
proof (cases "sc_quiet_hours ctx = [] \<or> dget ''enabled'' (sc_quiet_hours ctx) = JBool False")
  case True
  with assms(1) show ?thesis by (auto simp: in_quiet_hours_def quiet_on_clock_def)
next
  case False
  let ?q = "sc_quiet_hours ctx"
  let ?z = "if truthy (dget ''timezone'' ?q) then py_str (dget ''timezone'' ?q) else sc_tenant_timezone ctx"
  from False assms(1) obtain s f where sf: "clock_time (py_str (dget_or ''start'' (JStr ''21:00'') ?q)) s"
      "clock_time (py_str (dget_or ''end'' (JStr ''09:00'') ?q)) f" "quiet \<longleftrightarrow> in_window (local_tod ?z (sc_now ctx)) s f"
    by (auto simp: in_quiet_hours_def Let_def rbind_eq_Inr parse_hhmm_iff)
  have "quiet \<longleftrightarrow> (local_tod ?z (sc_now ctx) - s) mod days 1 < (f - s) mod days 1"
    unfolding sf(3) using clock_time_range [OF sf(1)] clock_time_range [OF sf(2)] by (intro in_window_circular tod) auto
  moreover have "s' = s" if "clock_time (py_str (dget_or ''start'' (JStr ''21:00'') ?q)) s'" for s'
    using that sf(1) by (simp flip: parse_hhmm_iff)
  moreover have "f' = f" if "clock_time (py_str (dget_or ''end'' (JStr ''09:00'') ?q)) f'" for f'
    using that sf(2) by (simp flip: parse_hhmm_iff)
  ultimately show ?thesis using False sf(1,2) unfolding quiet_on_clock_def Let_def by blast
qed

lemma PURPOSE_CONSENT_marketing: "PURPOSE_CONSENT p = MARKETING \<longleftrightarrow> p \<in> {''marketing'', ''promotional''}"
  by (simp add: PURPOSE_CONSENT_def)

lemma consent_blocks_Nil:
  "consent_blocks ctx = [] \<longleftrightarrow>
     (sc_channel ctx \<in> {Ch_WHATSAPP, Ch_EMAIL, Ch_SMS, Ch_VOICE} \<longrightarrow>
         sc_consent_granted ctx \<and> (\<forall>t. sc_consent_expires_at ctx = Some t \<longrightarrow> sc_now ctx < t))
     \<and> (sc_purpose ctx \<in> {''marketing'', ''promotional''} \<longrightarrow> sc_consent_granted ctx)"
  unfolding consent_blocks_def PURPOSE_CONSENT_marketing Let_def
  by (cases "sc_channel ctx \<in> {Ch_WHATSAPP, Ch_EMAIL, Ch_SMS, Ch_VOICE}"; cases "sc_consent_granted ctx";
      cases "sc_consent_expires_at ctx") (simp_all only: if_True if_False option.case, auto)

lemma template_blocks_Nil:
  "template_blocks ctx = [] \<longleftrightarrow> (sc_channel ctx = Ch_WHATSAPP \<longrightarrow>
     (if \<exists>t. sc_last_inbound_at ctx = Some t \<and> sc_now ctx - t < hours 24
      then sc_uses_template ctx \<longrightarrow> sc_template_approved ctx else sc_uses_template ctx \<and> sc_template_approved ctx))"
  by (cases "sc_last_inbound_at ctx") (simp_all add: template_blocks_def freeform_window_open_def)

text \<open>C8. The decision is exact: a message is allowed if and only if every rule agrees. The recipient has not opted out and is
  not suppressed or bounced; automation is not stopped for an automated message; consent exists and has not expired
  on WhatsApp, email, SMS and voice, and exists for every marketing or promotional message; the feature, the channel,
  the budget and the daily cap allow it; it is not within quiet hours, which authentication, security and urgent
  reminder messages need not respect; and on WhatsApp a template that is used is approved, and outside the 24 hours after
  the last inbound message one is used. An allowed message is queued instead of sent exactly when the channel is
  unhealthy.\<close>

theorem evaluate_send_sound:
  assumes "evaluate_send local_tod ctx = Inr d" and "\<And>z t. 0 \<le> local_tod z t" and "\<And>z t. local_tod z t < days 1"
  shows "(sd_allowed d \<longleftrightarrow> \<not> sc_opted_out ctx \<and> \<not> sc_suppressed ctx \<and> \<not> sc_hard_bounced ctx
      \<and> \<not> (sc_automation_stopped ctx \<and> sc_is_automated ctx)
      \<and> (sc_channel ctx \<in> {Ch_WHATSAPP, Ch_EMAIL, Ch_SMS, Ch_VOICE} \<longrightarrow>
           sc_consent_granted ctx \<and> (\<forall>t. sc_consent_expires_at ctx = Some t \<longrightarrow> sc_now ctx < t))
      \<and> (sc_purpose ctx \<in> {''marketing'', ''promotional''} \<longrightarrow> sc_consent_granted ctx)
      \<and> sc_feature_enabled ctx \<and> sc_channel_connected ctx \<and> 0 < sc_budget_remaining ctx
      \<and> (\<forall>cap. sc_frequency_cap_per_day ctx = Some cap \<longrightarrow> sc_sends_today ctx < cap)
      \<and> (sc_purpose ctx \<notin> {''authentication'', ''appointment_reminder_urgent'', ''security''} \<longrightarrow> \<not> quiet_on_clock local_tod ctx)
      \<and> (sc_channel ctx = Ch_WHATSAPP \<longrightarrow>
           (if \<exists>t. sc_last_inbound_at ctx = Some t \<and> sc_now ctx - t < hours 24
            then sc_uses_template ctx \<longrightarrow> sc_template_approved ctx
            else sc_uses_template ctx \<and> sc_template_approved ctx)))
    \<and> (sd_queued d \<longleftrightarrow> sd_allowed d \<and> \<not> sc_channel_healthy ctx)
    \<and> (sd_requires_template d \<longleftrightarrow> sc_channel ctx = Ch_WHATSAPP
         \<and> \<not> (\<exists>t. sc_last_inbound_at ctx = Some t \<and> sc_now ctx - t < hours 24))"
proof -
  from assms(1) obtain quiet where q: "sc_purpose ctx \<notin> set QUIET_HOURS_EXEMPT \<longrightarrow>
        in_quiet_hours local_tod (sc_now ctx) (sc_quiet_hours ctx) (sc_tenant_timezone ctx) = Inr quiet"
        "sc_purpose ctx \<in> set QUIET_HOURS_EXEMPT \<longrightarrow> \<not> quiet"
      and d: "sd_allowed d \<longleftrightarrow> collect_blocks ctx quiet = []"
        "sd_queued d \<longleftrightarrow> collect_blocks ctx quiet = [] \<and> \<not> sc_channel_healthy ctx"
        "sd_requires_template d \<longleftrightarrow> sc_channel ctx = Ch_WHATSAPP \<and> \<not> freeform_window_open (sc_last_inbound_at ctx) (sc_now ctx)"
    by (rule evaluate_send_parts)
  have exempt: "sc_purpose ctx \<in> set QUIET_HOURS_EXEMPT \<longleftrightarrow> sc_purpose ctx \<in> {''authentication'', ''appointment_reminder_urgent'', ''security''}"
    by (simp add: QUIET_HOURS_EXEMPT_def)
  have quiet: "quiet \<longleftrightarrow> sc_purpose ctx \<notin> {''authentication'', ''appointment_reminder_urgent'', ''security''} \<and> quiet_on_clock local_tod ctx"
    using q in_quiet_hours_iff [where local_tod = local_tod, OF _ assms(2,3)] unfolding exempt by blast
  have cap: "(case sc_frequency_cap_per_day ctx of None \<Rightarrow> False | Some cap \<Rightarrow> cap \<le> sc_sends_today ctx)
      \<longleftrightarrow> \<not> (\<forall>cap. sc_frequency_cap_per_day ctx = Some cap \<longrightarrow> sc_sends_today ctx < cap)"
    by (auto split: option.splits)
  have "freeform_window_open (sc_last_inbound_at ctx) (sc_now ctx) \<longleftrightarrow> (\<exists>t. sc_last_inbound_at ctx = Some t \<and> sc_now ctx - t < hours 24)"
    by (cases "sc_last_inbound_at ctx") (simp_all add: freeform_window_open_def)
  note spelled = consent_blocks_Nil template_blocks_Nil quiet cap this
  show ?thesis unfolding d collect_blocks_def append_is_Nil_conv set_block_if(2) spelled not_le by argo
qed

definition sample_send :: SendContext where
  "sample_send = \<lparr>sc_channel = Ch_EMAIL, sc_purpose = ''marketing'', sc_now = 0, sc_tenant_timezone = ''Asia/Kolkata'',
     sc_opted_out = False, sc_suppressed = False, sc_consent_granted = True, sc_consent_expires_at = None,
     sc_last_inbound_at = None, sc_sends_today = 0, sc_hard_bounced = False, sc_channel_connected = True,
     sc_channel_healthy = True, sc_feature_enabled = True, sc_budget_remaining = 1, sc_automation_stopped = False,
     sc_quiet_hours = [], sc_frequency_cap_per_day = Some 5, sc_uses_template = False, sc_template_approved = False,
     sc_is_automated = True\<rparr>"

definition sample_whatsapp :: SendContext where
  "sample_whatsapp = sample_send\<lparr>sc_channel := Ch_WHATSAPP, sc_last_inbound_at := Some (- hours 1), sc_uses_template := True\<rparr>"

theorem evaluate_send_sound_witness:
  "(\<exists>d. evaluate_send (\<lambda>_ _. 0) sample_send = Inr d \<and> sd_allowed d \<and> \<not> sd_queued d)
   \<and> (\<exists>d. evaluate_send (\<lambda>_ _. 0) sample_whatsapp = Inr d \<and> \<not> sd_allowed d)"
proof -
  have "is_ok (evaluate_send (\<lambda>_ _. 0) sample_send)" "is_ok (evaluate_send (\<lambda>_ _. 0) sample_whatsapp)" by code_simp+
  then obtain d d' where d: "evaluate_send (\<lambda>_ _. 0) sample_send = Inr d" and d': "evaluate_send (\<lambda>_ _. 0) sample_whatsapp = Inr d'"
    by (auto simp: is_ok_iff)
  have "\<not> quiet_on_clock (\<lambda>_ _. 0) sample_send" by (simp add: quiet_on_clock_def sample_send_def)
  with evaluate_send_sound [OF d] have "sd_allowed d" "\<not> sd_queued d" by (simp_all add: sample_send_def days_def)
  moreover from evaluate_send_sound [OF d'] have "\<not> sd_allowed d'"
    by (simp add: sample_whatsapp_def sample_send_def time_defs)
  ultimately show ?thesis using d d' by blast
qed

text \<open>A refusal explains itself: the blocks are listed without repetition from the most to the least severe, an opted-out
  recipient always shows as the first block, and a decision without blocks is an immediate send.\<close>

theorem evaluate_send_blocks_ordered:
  assumes "evaluate_send local_tod ctx = Inr d"
  shows "sorted (sd_blocks d) \<and> distinct (sd_blocks d)
    \<and> (sc_opted_out ctx \<longrightarrow> \<not> sd_allowed d \<and> sd_blocks d \<noteq> [] \<and> hd (sd_blocks d) = OPTED_OUT)
    \<and> (sd_blocks d = [] \<longleftrightarrow> sd_allowed d \<and> \<not> sd_queued d)"
proof -
  from assms obtain quiet where d: "sd_blocks d = (if collect_blocks ctx quiet = [] \<and> \<not> sc_channel_healthy ctx
        then [CHANNEL_UNHEALTHY] else sorted_set (collect_blocks ctx quiet))"
      "sd_allowed d \<longleftrightarrow> collect_blocks ctx quiet = []"
      "sd_queued d \<longleftrightarrow> collect_blocks ctx quiet = [] \<and> \<not> sc_channel_healthy ctx"
    by (rule evaluate_send_parts)
  have "hd (sd_blocks d) = OPTED_OUT \<and> \<not> sd_allowed d \<and> sd_blocks d \<noteq> []" if "sc_opted_out ctx"
  proof -
    have mem: "OPTED_OUT \<in> set (collect_blocks ctx quiet)" using that by (simp add: collect_blocks_def)
    then have ne: "collect_blocks ctx quiet \<noteq> []" by auto
    have "b \<ge> OPTED_OUT" for b by (simp add: less_eq_Block_def)
    moreover have "sorted (sorted_set (collect_blocks ctx quiet))" by simp
    ultimately have "hd (sorted_set (collect_blocks ctx quiet)) = OPTED_OUT"
      using mem by (metis antisym list.exhaust_sel list.set_cases set_ConsD sorted_set_simps(1) sorted_simps(2) list.sel(1))
    with ne d show ?thesis by simp
  qed
  then show ?thesis using d by auto
qed

theorem evaluate_send_blocks_ordered_witness:
  "\<exists>d. evaluate_send (\<lambda>_ _. 0) (sample_send\<lparr>sc_opted_out := True, sc_suppressed := True\<rparr>) = Inr d \<and> hd (sd_blocks d) = OPTED_OUT"
proof -
  have "is_ok (evaluate_send (\<lambda>_ _. 0) (sample_send\<lparr>sc_opted_out := True, sc_suppressed := True\<rparr>))" by code_simp
  then obtain d where d: "evaluate_send (\<lambda>_ _. 0) (sample_send\<lparr>sc_opted_out := True, sc_suppressed := True\<rparr>) = Inr d"
    by (auto simp: is_ok_iff)
  with evaluate_send_blocks_ordered [OF d] show ?thesis by (auto simp: sample_send_def)
qed

text \<open>Quiet hours that wrap midnight are the exact complement of the window between their end and their start, so every
  minute of the day is either contactable or quiet, never both.\<close>

theorem quiet_hours_complement:
  assumes "start \<noteq> finish"
  shows "in_window local start finish \<longleftrightarrow> \<not> in_window local finish start"
  using assms by (auto simp: in_window_def)

theorem quiet_hours_complement_witness:
  "in_window (hours 23) (hours 21) (hours 9) \<and> \<not> in_window (hours 23) (hours 9) (hours 21)"
proof -
  have "in_window (hours 23) (hours 21) (hours 9)" by (simp add: in_window_def time_defs)
  with quiet_hours_complement [of "hours 21" "hours 9" "hours 23"] show ?thesis by (simp add: time_defs)
qed

end
