(* ===== verification/Appointments.thy ===== *)
theory Appointments
  imports Repository
begin

text \<open>
  \<^verbatim>\<open>application/crm/appointments.py\<close> with the timing rules of \<^verbatim>\<open>domain/appointments/slots.py\<close> and the tables of
  \<^verbatim>\<open>models/appointments.py\<close>: booking, rescheduling, cancelling and recording outcomes. Every operation is one
  unit of work: it either commits all its changes or, when it raises or a constraint refuses them, none. The
  unique constraint on slot locks and the check constraint on the times are part of the commit.
\<close>

section \<open>Tables\<close>

record appointment_row =
  ap_row_id :: string
  ap_row_tenant :: string
  ap_title :: string
  ap_contact :: "string option"
  ap_deal :: "string option"
  ap_organizer :: string
  ap_start :: instant
  ap_end :: instant
  ap_timezone :: string
  ap_location_type :: string
  ap_location_detail :: "string option"
  ap_status :: string
  ap_outcome :: "string option"
  ap_outcome_note :: "string option"
  ap_cancelled_reason :: "string option"
  ap_rescheduled_from :: "string option"
  ap_branch :: "string option"
  ap_deleted_at :: "instant option"
  ap_version :: int
  ap_created_by :: string
  ap_updated_by :: "string option"

record slot_lock =
  sl_id :: string
  sl_tenant :: string
  sl_resource :: string
  sl_start :: instant
  sl_end :: instant
  sl_index :: int
  sl_appointment :: string
  sl_expires :: instant

text \<open>Contacts and deals, of which only visibility matters here.\<close>

record link_row =
  lk_id :: string
  lk_tenant :: string
  lk_deleted :: bool
  lk_scope :: scope_columns

record appt_db =
  db_appointments :: "appointment_row list"
  db_locks :: "slot_lock list"
  db_contacts :: "link_row list"
  db_deals :: "link_row list"
  db_audit :: "event_row list"
  db_outbox :: "event_row list"

definition OPEN_STATUSES :: "string list" where "OPEN_STATUSES = [''scheduled'', ''confirmed'']"
definition LOCATION_TYPES :: "string list" where "LOCATION_TYPES = [''physical'', ''virtual'', ''phone'']"
definition DEFAULT_DURATION_MINUTES :: int where "DEFAULT_DURATION_MINUTES = 30"
definition LOCK_TTL :: duration where "LOCK_TTL = days 400"

definition appointment_model :: "appointment_row model" where
  "appointment_model = \<lparr>mo_id = ap_row_id, mo_tenant = ap_row_tenant, mo_deleted = (\<lambda>r. ap_deleted_at r \<noteq> None),
     mo_scope = (\<lambda>r. \<lparr>co_branch = Some (ap_branch r), co_team = None, co_assignee = None\<rparr>)\<rparr>"

definition link_model :: "link_row model" where
  "link_model = \<lparr>mo_id = lk_id, mo_tenant = lk_tenant, mo_deleted = lk_deleted, mo_scope = lk_scope\<rparr>"

text \<open>\<^verbatim>\<open>UniqueConstraint("tenant_id", "resource_id", "start_at", "slot_index")\<close> and \<^verbatim>\<open>end_at > start_at\<close>.\<close>

definition lock_key :: "slot_lock \<Rightarrow> string \<times> string \<times> instant \<times> int" where
  "lock_key l = (sl_tenant l, sl_resource l, sl_start l, sl_index l)"

definition constraints_ok :: "appt_db \<Rightarrow> bool" where
  "constraints_ok db \<longleftrightarrow> distinct (map lock_key (db_locks db))
     \<and> list_all (\<lambda>r. ap_start r < ap_end r) (db_appointments db)"

section \<open>Timing rules\<close>

definition can_reschedule :: "instant \<Rightarrow> instant \<Rightarrow> int \<Rightarrow> instant \<Rightarrow> bool" where
  "can_reschedule current_start new_start min_notice_minutes now \<longleftrightarrow>
     \<not> current_start \<le> now \<and> \<not> new_start < now + minutes min_notice_minutes"

definition can_cancel :: "instant \<Rightarrow> int \<Rightarrow> instant \<Rightarrow> bool" where
  "can_cancel start_at cutoff_minutes now \<longleftrightarrow> \<not> start_at - minutes cutoff_minutes < now"

section \<open>Operations\<close>

datatype appt_error = Title_required | Start_required | Bad_duration | Ends_before_start | In_the_past | Bad_location
  | Contact_not_found | Deal_not_found | Appt_not_found | Not_reschedulable | Too_late | Slot_taken | Stale int
  | Already_cancelled | Completed_no_cancel | Bad_outcome | Cancelled_no_outcome

record booking =
  bk_title :: string
  bk_start :: "instant option"
  bk_end :: "instant option"
  bk_duration :: int
  bk_location_type :: string
  bk_location_detail :: "string option"
  bk_contact :: "string option"
  bk_deal :: "string option"
  bk_organizer :: "string option"
  bk_timezone :: string

definition or_default :: "string \<Rightarrow> string \<Rightarrow> string" where
  "or_default s d = (if s = [] then d else s)"

definition record_audit :: "string \<Rightarrow> actor \<Rightarrow> string \<Rightarrow> jdict \<Rightarrow> appt_db \<Rightarrow> appt_db" where
  "record_audit action a resource data db = db\<lparr>db_audit := db_audit db
     @ [\<lparr>er_type = action, er_tenant = ac_tenant a, er_resource = resource, er_actor = ac_user a, er_data = data\<rparr>]\<rparr>"

definition collect_event :: "string \<Rightarrow> actor \<Rightarrow> string \<Rightarrow> jdict \<Rightarrow> appt_db \<Rightarrow> appt_db" where
  "collect_event event_type a resource data db = db\<lparr>db_outbox := db_outbox db
     @ [\<lparr>er_type = event_type, er_tenant = ac_tenant a, er_resource = resource, er_actor = ac_user a, er_data = data\<rparr>]\<rparr>"

text \<open>The checks of \<^verbatim>\<open>book\<close> before the transaction, with the end time and the organiser they determine.\<close>

definition check_booking :: "instant \<Rightarrow> actor \<Rightarrow> booking \<Rightarrow> (appt_error, instant \<times> instant \<times> string) res" where
  "check_booking now a b =
     (case bk_start b of
        None \<Rightarrow> Inl (if py_strip (bk_title b) = [] then Title_required else Start_required)
      | Some start \<Rightarrow>
          let duration = (if bk_duration b = 0 then DEFAULT_DURATION_MINUTES else bk_duration b);
              end_at = (case bk_end b of None \<Rightarrow> start + minutes duration | Some e \<Rightarrow> e) in
          if py_strip (bk_title b) = [] then Inl Title_required
          else if duration \<le> 0 then Inl Bad_duration
          else if end_at \<le> start then Inl Ends_before_start
          else if start < now then Inl In_the_past
          else if or_default (bk_location_type b) ''physical'' \<notin> set LOCATION_TYPES then Inl Bad_location
          else Inr (start, end_at, case bk_organizer b of None \<Rightarrow> ac_user a | Some i \<Rightarrow> i))"

definition links_visible :: "actor \<Rightarrow> booking \<Rightarrow> appt_db \<Rightarrow> appt_error option" where
  "links_visible a b db =
     (if (case bk_contact b of None \<Rightarrow> False | Some c \<Rightarrow> get_scoped link_model (ac_tenant a) (ac_perms a) c (db_contacts db) = None) then Some Contact_not_found
      else if (case bk_deal b of None \<Rightarrow> False | Some d \<Rightarrow> get_scoped link_model (ac_tenant a) (ac_perms a) d (db_deals db) = None) then Some Deal_not_found
      else None)"

definition new_appointment :: "actor \<Rightarrow> string \<Rightarrow> booking \<Rightarrow> instant \<Rightarrow> instant \<Rightarrow> string \<Rightarrow> appointment_row" where
  "new_appointment a fresh b start end_at organizer =
     \<lparr>ap_row_id = fresh, ap_row_tenant = ac_tenant a, ap_title = take 250 (py_strip (bk_title b)), ap_contact = bk_contact b,
      ap_deal = bk_deal b, ap_organizer = organizer, ap_start = start, ap_end = end_at,
      ap_timezone = or_default (bk_timezone b) ''Asia/Kolkata'', ap_location_type = or_default (bk_location_type b) ''physical'',
      ap_location_detail = bk_location_detail b, ap_status = ''scheduled'', ap_outcome = None, ap_outcome_note = None,
      ap_cancelled_reason = None, ap_rescheduled_from = None, ap_branch = None, ap_deleted_at = None, ap_version = 1,
      ap_created_by = ac_user a, ap_updated_by = None\<rparr>"

definition new_lock :: "instant \<Rightarrow> actor \<Rightarrow> string \<Rightarrow> string \<Rightarrow> instant \<Rightarrow> instant \<Rightarrow> string \<Rightarrow> slot_lock" where
  "new_lock now a fresh appointment start end_at organizer =
     \<lparr>sl_id = fresh, sl_tenant = ac_tenant a, sl_resource = organizer, sl_start = start, sl_end = end_at, sl_index = 0,
      sl_appointment = appointment, sl_expires = now + LOCK_TTL\<rparr>"

definition commit :: "appt_db \<Rightarrow> (appt_error, appt_db) res" where
  "commit db = (if constraints_ok db then Inr db else Inl Slot_taken)"

definition book :: "instant \<Rightarrow> actor \<Rightarrow> string \<Rightarrow> string \<Rightarrow> booking \<Rightarrow> appt_db \<Rightarrow> (appt_error, appt_db) res" where
  "book now a fresh fresh_lock b db =
     rbind (check_booking now a b) (\<lambda>(start, end_at, organizer).
       case links_visible a b db of
         Some err \<Rightarrow> Inl err
       | None \<Rightarrow> commit (
           collect_event ''appointment.booked'' a fresh [(''start_at'', JInt start), (''contact_id'', opt_json (bk_contact b))]
           (record_audit ''appointment.book'' a fresh [(''title'', JStr (py_strip (bk_title b))), (''start_at'', JInt start)]
           (db\<lparr>db_appointments := db_appointments db @ [new_appointment a fresh b start end_at organizer],
               db_locks := db_locks db @ [new_lock now a fresh_lock fresh start end_at organizer]\<rparr>))))"

definition find_appointment :: "actor \<Rightarrow> string \<Rightarrow> appt_db \<Rightarrow> (appt_error, appointment_row) res" where
  "find_appointment a i db = (case get_scoped appointment_model (ac_tenant a) (ac_perms a) i (db_appointments db) of
      None \<Rightarrow> Inl Appt_not_found | Some r \<Rightarrow> Inr r)"

definition put_appointment :: "appointment_row \<Rightarrow> appt_db \<Rightarrow> appt_db" where
  "put_appointment r db = db\<lparr>db_appointments := set_row ap_row_id r (db_appointments db)\<rparr>"

definition next_version :: "actor \<Rightarrow> int option \<Rightarrow> appointment_row \<Rightarrow> (appt_error, appointment_row) res" where
  "next_version a expected r = (case bump_version (ap_version r) expected of
      Inl v \<Rightarrow> Inl (Stale v) | Inr v \<Rightarrow> Inr (r\<lparr>ap_version := v, ap_updated_by := Some (ac_user a)\<rparr>))"

text \<open>\<^verbatim>\<open>duration_minutes or ...\<close>: the old length in whole minutes when none, or zero, is given.\<close>

definition moved_row :: "instant \<Rightarrow> int \<Rightarrow> appointment_row \<Rightarrow> appointment_row" where
  "moved_row new_start duration_minutes r =
     (let m = (if duration_minutes = 0 then (ap_end r - ap_start r) div minutes 1 else duration_minutes)
      in r\<lparr>ap_start := new_start, ap_end := new_start + minutes m, ap_rescheduled_from := Some (ap_row_id r)\<rparr>)"

definition move_lock :: "appointment_row \<Rightarrow> slot_lock \<Rightarrow> slot_lock" where
  "move_lock r l = (if sl_appointment l = ap_row_id r then l\<lparr>sl_start := ap_start r, sl_end := ap_end r\<rparr> else l)"

definition reschedule :: "instant \<Rightarrow> actor \<Rightarrow> string \<Rightarrow> instant \<Rightarrow> int \<Rightarrow> int option \<Rightarrow> appt_db \<Rightarrow> (appt_error, appt_db) res" where
  "reschedule now a i new_start duration_minutes expected db =
     rbind (find_appointment a i db) (\<lambda>r.
       if ap_status r \<notin> set OPEN_STATUSES then Inl Not_reschedulable
       else if \<not> can_reschedule (ap_start r) new_start 0 now then Inl Too_late
       else rbind (next_version a expected (moved_row new_start duration_minutes r)) (\<lambda>r'.
         commit (
           collect_event ''appointment.rescheduled'' a i [(''from'', JInt (ap_start r)), (''to'', JInt (ap_start r'))]
           (record_audit ''appointment.reschedule'' a i [(''old_start_at'', JInt (ap_start r)), (''start_at'', JInt (ap_start r'))]
           (put_appointment r' (db\<lparr>db_locks := map (move_lock r') (db_locks db)\<rparr>))))))"

definition none_if_empty :: "string \<Rightarrow> string option" where
  "none_if_empty s = (if s = [] then None else Some s)"

definition cancel :: "instant \<Rightarrow> actor \<Rightarrow> string \<Rightarrow> string \<Rightarrow> int option \<Rightarrow> appt_db \<Rightarrow> (appt_error, appt_db) res" where
  "cancel now a i reason expected db =
     rbind (find_appointment a i db) (\<lambda>r.
       if ap_status r = ''cancelled'' then Inl Already_cancelled
       else if ap_status r = ''completed'' then Inl Completed_no_cancel
       else if \<not> can_cancel (ap_start r) 0 now then Inl Too_late
       else rbind (next_version a expected (r\<lparr>ap_status := ''cancelled'', ap_cancelled_reason := none_if_empty (take 300 reason)\<rparr>))
         (\<lambda>r'. commit (
           collect_event ''appointment.cancelled'' a i [(''reason'', opt_json (ap_cancelled_reason r'))]
           (record_audit ''appointment.cancel'' a i [(''reason'', opt_json (ap_cancelled_reason r'))]
           (put_appointment r' (db\<lparr>db_locks := filter (\<lambda>l. sl_appointment l \<noteq> i) (db_locks db)\<rparr>))))))"

definition announce_outcome :: "string \<Rightarrow> actor \<Rightarrow> string \<Rightarrow> appointment_row \<Rightarrow> appt_db \<Rightarrow> appt_db" where
  "announce_outcome status a i r db =
     (if status = ''completed'' then collect_event ''appointment.completed'' a i [(''outcome'', opt_json (ap_outcome r))] db else db)"

definition record_outcome :: "actor \<Rightarrow> string \<Rightarrow> string \<Rightarrow> string \<Rightarrow> string option \<Rightarrow> int option \<Rightarrow> appt_db \<Rightarrow> (appt_error, appt_db) res" where
  "record_outcome a i status outcome note_text expected db =
     (if status \<notin> {''completed'', ''no_show''} then Inl Bad_outcome
      else rbind (find_appointment a i db) (\<lambda>r.
        if ap_status r = ''cancelled'' then Inl Cancelled_no_outcome
        else rbind (next_version a expected (r\<lparr>ap_status := status, ap_outcome := none_if_empty (take 80 outcome),
            ap_outcome_note := note_text\<rparr>))
          (\<lambda>r'. commit (
            announce_outcome status a i r'
            (record_audit ''appointment.outcome'' a i [(''status'', JStr status), (''outcome'', opt_json (ap_outcome r'))]
            (put_appointment r' db))))))"

section \<open>The locks of the open appointments\<close>

definition holds_slot :: "slot_lock list \<Rightarrow> appointment_row \<Rightarrow> bool" where
  "holds_slot locks r \<longleftrightarrow>
     (\<exists>l\<in>set locks. sl_appointment l = ap_row_id r \<and> lock_key l = (ap_row_tenant r, ap_organizer r, ap_start r, 0))"

definition appt_inv :: "appt_db \<Rightarrow> bool" where
  "appt_inv db \<longleftrightarrow> constraints_ok db \<and> distinct (map ap_row_id (db_appointments db)) \<and> distinct (map sl_appointment (db_locks db))
     \<and> sl_appointment ` set (db_locks db) \<subseteq> ap_row_id ` set (db_appointments db)
     \<and> (\<forall>r\<in>set (db_appointments db). ap_status r \<in> set OPEN_STATUSES \<longrightarrow> holds_slot (db_locks db) r)"

lemma inv_holds: "appt_inv db \<Longrightarrow> r \<in> set (db_appointments db) \<Longrightarrow> ap_status r \<in> set OPEN_STATUSES \<Longrightarrow>
    \<exists>l\<in>set (db_locks db). sl_appointment l = ap_row_id r \<and> lock_key l = (ap_row_tenant r, ap_organizer r, ap_start r, 0)"
  by (simp add: appt_inv_def holds_slot_def)

lemma commit_Inr: "commit db = Inr db' \<longleftrightarrow> db' = db \<and> constraints_ok db"
  by (auto simp: commit_def)

lemma event_tables [simp]:
  "db_appointments (collect_event t a i d db) = db_appointments db" "db_locks (collect_event t a i d db) = db_locks db"
  "db_appointments (record_audit t a i d db) = db_appointments db" "db_locks (record_audit t a i d db) = db_locks db"
  by (simp_all add: collect_event_def record_audit_def)

lemma announce_tables [simp]: "db_appointments (announce_outcome s a i r db) = db_appointments db"
    "db_locks (announce_outcome s a i r db) = db_locks db"
  by (simp_all add: announce_outcome_def)

lemma put_tables [simp]: "db_appointments (put_appointment r db) = set_row ap_row_id r (db_appointments db)"
    "db_locks (put_appointment r db) = db_locks db"
  by (simp_all add: put_appointment_def)

lemma find_appointment_Inr: "find_appointment a i db = Inr r \<Longrightarrow> r \<in> set (db_appointments db) \<and> ap_row_id r = i"
  by (auto simp: find_appointment_def appointment_model_def split: option.splits dest: get_scoped_Some)

lemma next_version_Inr: "next_version a e r = Inr r' \<Longrightarrow>
    r' = r\<lparr>ap_version := ap_version r + 1, ap_updated_by := Some (ac_user a)\<rparr>"
  by (auto simp: next_version_def bump_version_Inr split: sum.splits)

lemma holds_slot_append: "holds_slot locks r \<Longrightarrow> holds_slot (locks @ ls) r"
  by (auto simp: holds_slot_def)

text \<open>Replacing a row by one with the same identifier.\<close>

lemma inv_replace:
  assumes inv: "appt_inv db" and r: "r \<in> set (db_appointments db)" "ap_row_id r' = ap_row_id r"
    and db': "db_appointments db' = set_row ap_row_id r' (db_appointments db)" "constraints_ok db'"
    and locks: "distinct (map sl_appointment (db_locks db'))" "set (map sl_appointment (db_locks db')) \<subseteq> set (map sl_appointment (db_locks db))"
    and own: "ap_status r' \<in> set OPEN_STATUSES \<longrightarrow> holds_slot (db_locks db') r'"
    and others: "\<forall>q\<in>set (db_appointments db). ap_row_id q \<noteq> ap_row_id r \<longrightarrow> holds_slot (db_locks db) q \<longrightarrow> holds_slot (db_locks db') q"
  shows "appt_inv db'"
proof -
  have ids: "map ap_row_id (db_appointments db') = map ap_row_id (db_appointments db)" by (simp add: db'(1))
  have "holds_slot (db_locks db') q" if "q \<in> set (db_appointments db')" "ap_status q \<in> set OPEN_STATUSES" for q
    using set_row_cases [OF that(1) [unfolded db'(1)]] inv own others that(2) r(2) by (auto simp: appt_inv_def)
  moreover have "sl_appointment ` set (db_locks db') \<subseteq> ap_row_id ` set (db_appointments db')"
    using inv locks(2) ids by (metis appt_inv_def list.set_map subset_trans)
  moreover have "distinct (map ap_row_id (db_appointments db'))" using inv ids by (simp add: appt_inv_def)
  ultimately show ?thesis using db'(2) locks(1) unfolding appt_inv_def by blast
qed

lemma inv_book:
  assumes "appt_inv db" and "fresh \<notin> ap_row_id ` set (db_appointments db)" and "book now a fresh fl b db = Inr db'"
  shows "appt_inv db'"
proof -
  obtain start end_at organizer where db': "db_appointments db' = db_appointments db @ [new_appointment a fresh b start end_at organizer]"
    "db_locks db' = db_locks db @ [new_lock now a fl fresh start end_at organizer]" "constraints_ok db'"
    using assms(3) by (auto simp: book_def rbind_eq_Inr commit_Inr split: option.splits)
  have "fresh \<notin> sl_appointment ` set (db_locks db)" using assms(1,2) by (auto simp: appt_inv_def)
  moreover have "holds_slot (db_locks db') (new_appointment a fresh b start end_at organizer)"
    by (simp add: holds_slot_def db' new_lock_def new_appointment_def lock_key_def)
  ultimately show ?thesis using assms(1,2) db'
    by (auto simp: appt_inv_def new_lock_def new_appointment_def intro: holds_slot_append)
qed

lemma move_lock_simps [simp]: "sl_appointment (move_lock r l) = sl_appointment l" "sl_tenant (move_lock r l) = sl_tenant l"
    "sl_resource (move_lock r l) = sl_resource l" "sl_index (move_lock r l) = sl_index l"
  by (simp_all add: move_lock_def)

lemma moved_row_simps [simp]: "ap_row_id (moved_row s d r) = ap_row_id r" "ap_start (moved_row s d r) = s"
    "ap_status (moved_row s d r) = ap_status r" "ap_organizer (moved_row s d r) = ap_organizer r"
    "ap_row_tenant (moved_row s d r) = ap_row_tenant r"
  by (simp_all add: moved_row_def Let_def)

lemma inv_reschedule:
  assumes "appt_inv db" and "reschedule now a i new_start d e db = Inr db'"
  shows "appt_inv db'"
proof -
  obtain r r' where r: "find_appointment a i db = Inr r" "ap_status r \<in> set OPEN_STATUSES"
    "next_version a e (moved_row new_start d r) = Inr r'"
    and db': "db_appointments db' = set_row ap_row_id r' (db_appointments db)" "db_locks db' = map (move_lock r') (db_locks db)"
      "constraints_ok db'"
    using assms(2) by (auto simp: reschedule_def rbind_eq_Inr commit_Inr split: if_splits)
  note in_db = find_appointment_Inr [OF r(1)]
  have r': "ap_row_id r' = ap_row_id r" "ap_start r' = new_start" "ap_row_tenant r' = ap_row_tenant r" "ap_organizer r' = ap_organizer r"
    using next_version_Inr [OF r(3)] by simp_all
  obtain l where l: "l \<in> set (db_locks db)" "sl_appointment l = ap_row_id r"
      "lock_key l = (ap_row_tenant r, ap_organizer r, ap_start r, 0)"
    using assms(1) in_db r(2) by (auto simp: appt_inv_def holds_slot_def)
  show ?thesis
  proof (rule inv_replace [OF assms(1) _ r'(1) db'(1,3)])
    show "r \<in> set (db_appointments db)" using in_db by simp
    show "distinct (map sl_appointment (db_locks db'))" using assms(1) by (simp add: db'(2) appt_inv_def comp_def)
    show "set (map sl_appointment (db_locks db')) \<subseteq> set (map sl_appointment (db_locks db))" by (auto simp: db'(2))
    show "ap_status r' \<in> set OPEN_STATUSES \<longrightarrow> holds_slot (db_locks db') r'"
      using l unfolding holds_slot_def by (intro impI bexI [of _ "move_lock r' l"]) (simp_all add: db'(2) r' lock_key_def move_lock_def)
    show "\<forall>q\<in>set (db_appointments db). ap_row_id q \<noteq> ap_row_id r \<longrightarrow> holds_slot (db_locks db) q \<longrightarrow> holds_slot (db_locks db') q"
      by (auto simp: holds_slot_def db'(2) r' lock_key_def move_lock_def)
  qed
qed

lemma inv_cancel:
  assumes "appt_inv db" and "cancel now a i reason e db = Inr db'"
  shows "appt_inv db'"
proof -
  obtain r r' where r: "find_appointment a i db = Inr r"
    "next_version a e (r\<lparr>ap_status := ''cancelled'', ap_cancelled_reason := none_if_empty (take 300 reason)\<rparr>) = Inr r'"
    and db': "db_appointments db' = set_row ap_row_id r' (db_appointments db)"
      "db_locks db' = filter (\<lambda>l. sl_appointment l \<noteq> i) (db_locks db)" "constraints_ok db'"
    using assms(2) by (auto simp: cancel_def rbind_eq_Inr commit_Inr split: if_splits)
  note in_db = find_appointment_Inr [OF r(1)]
  have r': "ap_row_id r' = ap_row_id r" "ap_status r' = ''cancelled''" using next_version_Inr [OF r(2)] by simp_all
  show ?thesis
  proof (rule inv_replace [OF assms(1) _ r'(1) db'(1,3)])
    show "r \<in> set (db_appointments db)" using in_db by simp
    show "distinct (map sl_appointment (db_locks db'))" using assms(1) by (simp add: db'(2) appt_inv_def distinct_map_filter)
    show "set (map sl_appointment (db_locks db')) \<subseteq> set (map sl_appointment (db_locks db))" by (auto simp: db'(2))
    show "ap_status r' \<in> set OPEN_STATUSES \<longrightarrow> holds_slot (db_locks db') r'" by (simp add: r' OPEN_STATUSES_def)
    show "\<forall>q\<in>set (db_appointments db). ap_row_id q \<noteq> ap_row_id r \<longrightarrow> holds_slot (db_locks db) q \<longrightarrow> holds_slot (db_locks db') q"
      using in_db by (auto simp: holds_slot_def db'(2))
  qed
qed

lemma inv_outcome:
  assumes "appt_inv db" and "record_outcome a i status outcome nt e db = Inr db'"
  shows "appt_inv db'"
proof -
  obtain r r' where r: "find_appointment a i db = Inr r"
    "next_version a e (r\<lparr>ap_status := status, ap_outcome := none_if_empty (take 80 outcome), ap_outcome_note := nt\<rparr>) = Inr r'"
    and db': "db_appointments db' = set_row ap_row_id r' (db_appointments db)" "db_locks db' = db_locks db" "constraints_ok db'"
    and "status \<in> {''completed'', ''no_show''}"
    using assms(2) by (auto simp: record_outcome_def rbind_eq_Inr commit_Inr split: if_splits)
  then have status: "ap_status r' \<notin> set OPEN_STATUSES" using next_version_Inr [OF r(2)] by (auto simp: OPEN_STATUSES_def)
  note in_db = find_appointment_Inr [OF r(1)]
  have r': "ap_row_id r' = ap_row_id r" using next_version_Inr [OF r(2)] by simp
  show ?thesis
    by (rule inv_replace [OF assms(1) _ r' db'(1,3)]) (use in_db assms(1) status in \<open>auto simp: db'(2) appt_inv_def\<close>)
qed

section \<open>Properties\<close>

datatype appt_op =
    Book instant actor string string booking
  | Reschedule instant actor string instant int "int option"
  | Cancel instant actor string string "int option"
  | Outcome actor string string string "string option" "int option"

fun appt_run :: "appt_op \<Rightarrow> appt_db \<Rightarrow> (appt_error, appt_db) res" where
  "appt_run (Book now a fresh fl b) db = book now a fresh fl b db"
| "appt_run (Reschedule now a i s d e) db = reschedule now a i s d e db"
| "appt_run (Cancel now a i reason e) db = cancel now a i reason e db"
| "appt_run (Outcome a i status outcome nt e) db = record_outcome a i status outcome nt e db"

definition appt_step :: "appt_db \<Rightarrow> appt_op \<Rightarrow> appt_db" where
  "appt_step db op = (case appt_run op db of Inl _ \<Rightarrow> db | Inr db' \<Rightarrow> db')"

fun fresh_appt :: "appt_op \<Rightarrow> appt_db \<Rightarrow> bool" where
  "fresh_appt (Book now a fresh fl b) db \<longleftrightarrow> fresh \<notin> ap_row_id ` set (db_appointments db)"
| "fresh_appt _ db \<longleftrightarrow> True"

fun fresh_appts :: "appt_db \<Rightarrow> appt_op list \<Rightarrow> bool" where
  "fresh_appts db [] \<longleftrightarrow> True"
| "fresh_appts db (op # ops) \<longleftrightarrow> fresh_appt op db \<and> fresh_appts (appt_step db op) ops"

lemma inv_appt_run:
  assumes "appt_inv db" and "fresh_appt op db" and "appt_run op db = Inr db'"
  shows "appt_inv db'"
proof (cases op)
  case (Book now a fresh fl b)
  with assms show ?thesis using inv_book [of db fresh now a fl b db'] by simp
next
  case (Reschedule now a i s d e)
  with assms show ?thesis using inv_reschedule [of db now a i s d e db'] by simp
next
  case (Cancel now a i reason e)
  with assms show ?thesis using inv_cancel [of db now a i reason e db'] by simp
next
  case (Outcome a i status outcome nt e)
  with assms show ?thesis using inv_outcome [of db a i status outcome nt e db'] by simp
qed

lemma appt_inv_step: "appt_inv db \<Longrightarrow> fresh_appt op db \<Longrightarrow> appt_inv (appt_step db op)"
  using inv_appt_run by (auto simp: appt_step_def split: sum.split)

lemma appt_inv_run: "appt_inv db \<Longrightarrow> fresh_appts db ops \<Longrightarrow> appt_inv (foldl appt_step db ops)"
  by (induction ops arbitrary: db) (simp_all add: appt_inv_step)

lemma inv_empty: "db_appointments db = [] \<Longrightarrow> db_locks db = [] \<Longrightarrow> appt_inv db"
  by (simp add: appt_inv_def constraints_ok_def)

text \<open>C21. No organiser has two open appointments that start at the same instant, whatever bookings, moves, cancellations
  and outcomes are requested in whatever order; every appointment ends after it starts.\<close>

theorem no_double_booking:
  assumes "db_appointments db = []" and "db_locks db = []" and "fresh_appts db ops"
  shows "(\<forall>r\<in>set (db_appointments (foldl appt_step db ops)). \<forall>q\<in>set (db_appointments (foldl appt_step db ops)).
            ap_status r \<in> set OPEN_STATUSES \<and> ap_status q \<in> set OPEN_STATUSES \<and> ap_row_tenant r = ap_row_tenant q
              \<and> ap_organizer r = ap_organizer q \<and> ap_start r = ap_start q \<longrightarrow> r = q)
       \<and> (\<forall>r\<in>set (db_appointments (foldl appt_step db ops)). ap_start r < ap_end r)"
proof -
  let ?db = "foldl appt_step db ops"
  have inv: "appt_inv ?db" using appt_inv_run [OF inv_empty [OF assms(1,2)] assms(3)] .
  have "r = q" if rq: "r \<in> set (db_appointments ?db)" "q \<in> set (db_appointments ?db)"
    "ap_status r \<in> set OPEN_STATUSES" "ap_status q \<in> set OPEN_STATUSES"
    and same: "ap_row_tenant r = ap_row_tenant q" "ap_organizer r = ap_organizer q" "ap_start r = ap_start q" for r q
  proof -
    obtain l k where lk: "l \<in> set (db_locks ?db)" "k \<in> set (db_locks ?db)" "sl_appointment l = ap_row_id r"
        "sl_appointment k = ap_row_id q" "lock_key l = lock_key k"
      using inv_holds [OF inv rq(1,3)] inv_holds [OF inv rq(2,4)] same by metis
    have "inj_on lock_key (set (db_locks ?db))" "inj_on ap_row_id (set (db_appointments ?db))"
      using inv by (simp_all add: appt_inv_def constraints_ok_def distinct_map)
    then show "r = q" using lk rq by (metis inj_onD)
  qed
  moreover have "\<forall>r\<in>set (db_appointments ?db). ap_start r < ap_end r"
    using inv by (auto simp: appt_inv_def constraints_ok_def list_all_iff)
  ultimately show ?thesis by blast
qed

definition sample_actor :: actor where
  "sample_actor = \<lparr>ac_tenant = ''t'', ac_user = ''u'', ac_perms = \<lparr>ep_permissions = [], ep_scope = GLOBAL, ep_branch_ids = [],
     ep_team_ids = [], ep_user_id = Some ''u''\<rparr>\<rparr>"

definition sample_booking :: "instant \<Rightarrow> booking" where
  "sample_booking start = \<lparr>bk_title = ''Visit'', bk_start = Some start, bk_end = None, bk_duration = 60, bk_location_type = [],
     bk_location_detail = None, bk_contact = None, bk_deal = None, bk_organizer = None, bk_timezone = []\<rparr>"

definition empty_appt_db :: appt_db where
  "empty_appt_db = \<lparr>db_appointments = [], db_locks = [], db_contacts = [], db_deals = [], db_audit = [], db_outbox = []\<rparr>"

definition sample_appts :: "appt_op list" where
  "sample_appts = [Book 0 sample_actor ''a'' ''l'' (sample_booking (hours 10)), Book 0 sample_actor ''b'' ''m'' (sample_booking (hours 10)),
     Book 0 sample_actor ''c'' ''n'' (sample_booking (hours 12)), Reschedule 0 sample_actor ''c'' (hours 10) 0 None,
     Cancel 0 sample_actor ''a'' [] None, Reschedule 0 sample_actor ''c'' (hours 10) 0 None]"

theorem no_double_booking_witness:
  "map (\<lambda>r. (ap_row_id r, ap_status r, ap_start r)) (db_appointments (foldl appt_step empty_appt_db sample_appts))
     = [(''a'', ''cancelled'', hours 10), (''c'', ''scheduled'', hours 10)]
   \<and> ap_start (hd (db_appointments (foldl appt_step empty_appt_db sample_appts)))
       < ap_end (hd (db_appointments (foldl appt_step empty_appt_db sample_appts)))"
proof
  let ?rows = "db_appointments (foldl appt_step empty_appt_db sample_appts)"
  show rows: "map (\<lambda>r. (ap_row_id r, ap_status r, ap_start r)) ?rows
     = [(''a'', ''cancelled'', hours 10), (''c'', ''scheduled'', hours 10)]"
    by code_simp
  have "fresh_appts empty_appt_db sample_appts" by code_simp
  moreover have "hd ?rows \<in> set ?rows" using rows by (intro hd_in_set) auto
  ultimately show "ap_start (hd ?rows) < ap_end (hd ?rows)"
    using no_double_booking [of empty_appt_db sample_appts] by (simp add: empty_appt_db_def)
qed

text \<open>A booking that passes its checks succeeds exactly when no lock of the organiser starts at the same instant; an
  appointment that overlaps another one but starts at a different time is booked.\<close>

theorem book_blocked_only_by_same_start:
  assumes "constraints_ok db" and "check_booking now a b = Inr (start, end_at, organizer)" and "links_visible a b db = None"
  shows "(\<exists>db'. book now a fresh fl b db = Inr db') \<longleftrightarrow> (ac_tenant a, organizer, start, 0) \<notin> lock_key ` set (db_locks db)"
proof -
  have "start < end_at" using assms(2) by (auto simp: check_booking_def Let_def split: option.splits if_splits)
  then show ?thesis using assms
    by (auto simp: book_def commit_def constraints_ok_def new_lock_def new_appointment_def lock_key_def)
qed

theorem book_blocked_only_by_same_start_witness:
  "\<exists>db'. book 0 sample_actor ''b'' ''m'' (sample_booking (hours 10 + minutes 30))
     (appt_step empty_appt_db (Book 0 sample_actor ''a'' ''l'' (sample_booking (hours 10)))) = Inr db'"
proof -
  let ?db = "appt_step empty_appt_db (Book 0 sample_actor ''a'' ''l'' (sample_booking (hours 10)))"
  have "constraints_ok ?db" by code_simp
  moreover have "check_booking 0 sample_actor (sample_booking (hours 10 + minutes 30))
      = Inr (hours 10 + minutes 30, hours 11 + minutes 30, ''u'')" by code_simp
  moreover have "links_visible sample_actor (sample_booking (hours 10 + minutes 30)) ?db = None" by code_simp
  moreover have "(ac_tenant sample_actor, ''u'', hours 10 + minutes 30, 0) \<notin> lock_key ` set (db_locks ?db)" by code_simp
  ultimately show ?thesis by (rule book_blocked_only_by_same_start [THEN iffD2])
qed

end
