(* ===== verification/Slots.thy ===== *)
theory Slots
  imports Py_Json
begin

text \<open>
  \<^verbatim>\<open>domain/appointments/slots.py\<close>: which slots of a local calendar day are offered, with the local-time resolution
  of \<^verbatim>\<open>shared/utils/timeutil.py\<close>. The time zone database is a parameter: the offset from UTC of a wall-clock time
  (for either \<^verbatim>\<open>fold\<close>) and the wall-clock time of an instant, both in microseconds. A day is the number of days
  since 1 January 1970, a Thursday. The loop over a window does not return when the granularity is not positive, so
  it is a partial function; what it returns is a result, since a minute outside the day raises.
\<close>

section \<open>Local time\<close>

record zone =
  zn_offset :: "bool \<Rightarrow> int \<Rightarrow> int"
  zn_wall :: "instant \<Rightarrow> int"

fun probe_local :: "nat \<Rightarrow> zone \<Rightarrow> int \<Rightarrow> (py_exc, instant) res" where
  "probe_local 0 z probe = Inl ValueError"
| "probe_local (Suc n) z probe =
     (let p = probe + minutes 15; u = p - zn_offset z False p
      in if zn_wall z u = p then Inr u else probe_local n z p)"

definition resolve_local_instant :: "zone \<Rightarrow> int \<Rightarrow> int \<Rightarrow> (py_exc, instant) res" where
  "resolve_local_instant z day time_of_day =
     (let naive = days day + time_of_day; candidate = naive - zn_offset z False naive in
      if zn_wall z candidate \<noteq> naive then probe_local 96 z naive
      else if zn_offset z False naive \<noteq> zn_offset z True naive then Inr (naive - zn_offset z True naive)
      else Inr candidate)"

section \<open>Slots\<close>

record WorkingWindow =
  ww_day :: int
  ww_start :: int
  ww_end :: int

record Busy =
  bu_start :: instant
  bu_end :: instant

record SlotRules =
  ru_duration :: int
  ru_buffer_before :: int
  ru_buffer_after :: int
  ru_capacity :: int
  ru_granularity :: int
  ru_min_notice :: int
  ru_max_advance_days :: int

record Slot =
  so_start :: instant
  so_end :: instant
  so_remaining :: int

definition overlaps :: "instant \<Rightarrow> instant \<Rightarrow> instant \<Rightarrow> instant \<Rightarrow> bool" where
  "overlaps a_start a_end b_start b_end \<longleftrightarrow> a_start < b_end \<and> b_start < a_end"

definition taken_by :: "SlotRules \<Rightarrow> Busy list \<Rightarrow> instant \<Rightarrow> int" where
  "taken_by ru busy start =
     int (length (filter (\<lambda>b. overlaps (start - minutes (ru_buffer_before ru))
       (start + minutes (ru_duration ru) + minutes (ru_buffer_after ru)) (bu_start b) (bu_end b)) busy))"

text \<open>One turn of the loop: the slots it appends.\<close>

definition slots_at :: "zone \<Rightarrow> SlotRules \<Rightarrow> Busy list \<Rightarrow> instant \<Rightarrow> int \<Rightarrow> int \<Rightarrow> (py_exc, Slot list) res" where
  "slots_at z ru busy earliest day cursor =
     (if cursor < 0 \<or> 1440 \<le> cursor then Inl ValueError
      else rbind (resolve_local_instant z day (minutes cursor)) (\<lambda>start.
        if zn_wall z start mod days 1 \<noteq> minutes cursor then Inr []
        else let remaining = ru_capacity ru - taken_by ru busy start in
          Inr (if earliest \<le> start \<and> remaining > 0
               then [\<lparr>so_start = start, so_end = start + minutes (ru_duration ru), so_remaining = remaining\<rparr>] else [])))"

partial_function (option) window_slots :: "zone \<Rightarrow> SlotRules \<Rightarrow> Busy list \<Rightarrow> instant \<Rightarrow> int \<Rightarrow> int \<Rightarrow> int \<Rightarrow> (py_exc, Slot list) res option" where
  "window_slots z ru busy earliest day end_minute cursor =
     (if cursor + ru_duration ru \<le> end_minute then
        (case slots_at z ru busy earliest day cursor of
           Inl err \<Rightarrow> Some (Inl err)
         | Inr here \<Rightarrow> Option.bind (window_slots z ru busy earliest day end_minute (cursor + ru_granularity ru))
             (\<lambda>rest. Some (rbind rest (\<lambda>more_slots. Inr (here @ more_slots)))))
      else Some (Inr []))"

declare window_slots.simps [code]

fun all_windows :: "zone \<Rightarrow> SlotRules \<Rightarrow> Busy list \<Rightarrow> instant \<Rightarrow> int \<Rightarrow> WorkingWindow list \<Rightarrow> (py_exc, Slot list) res option" where
  "all_windows z ru busy earliest day [] = Some (Inr [])"
| "all_windows z ru busy earliest day (w # ws) =
     (case window_slots z ru busy earliest day (ww_end w) (ww_start w) of
        None \<Rightarrow> None
      | Some (Inl err) \<Rightarrow> Some (Inl err)
      | Some (Inr here) \<Rightarrow>
          Option.bind (all_windows z ru busy earliest day ws) (\<lambda>rest. Some (rbind rest (\<lambda>more_slots. Inr (here @ more_slots)))))"

definition weekday :: "int \<Rightarrow> int" where "weekday day = (day + 3) mod 7"

definition compute_slots :: "zone \<Rightarrow> int \<Rightarrow> WorkingWindow list \<Rightarrow> Busy list \<Rightarrow> SlotRules \<Rightarrow> int list \<Rightarrow> instant
    \<Rightarrow> (py_exc, Slot list) res option" where
  "compute_slots z day windows busy ru holidays now =
     (if day \<in> set holidays then Some (Inr [])
      else if day > zn_wall z now div days 1 + ru_max_advance_days ru then Some (Inr [])
      else map_option (\<lambda>r. rbind r (\<lambda>slots. Inr (sort_key so_start slots)))
        (all_windows z ru busy (now + minutes (ru_min_notice ru)) day (filter (\<lambda>w. ww_day w = weekday day) windows)))"

definition slot_index_for :: "instant \<Rightarrow> int \<Rightarrow> int" where
  "slot_index_for start_at taken = taken"

section \<open>The loop visits the grid\<close>

text \<open>The minutes a window offers: every granularity step that leaves room for the duration.\<close>

definition grid :: "SlotRules \<Rightarrow> WorkingWindow \<Rightarrow> int set" where
  "grid ru w = {c. \<exists>k::nat. c = ww_start w + int k * ru_granularity ru \<and> c + ru_duration ru \<le> ww_end w}"

lemma window_slots_step: "cursor + ru_duration ru \<le> end_minute \<Longrightarrow>
    window_slots z ru busy earliest day end_minute cursor = (case slots_at z ru busy earliest day cursor of
      Inl err \<Rightarrow> Some (Inl err)
    | Inr here \<Rightarrow> Option.bind (window_slots z ru busy earliest day end_minute (cursor + ru_granularity ru))
        (\<lambda>rest. Some (rbind rest (\<lambda>more_slots. Inr (here @ more_slots)))))"
  by (subst window_slots.simps) simp

lemma window_slots_end: "\<not> cursor + ru_duration ru \<le> end_minute \<Longrightarrow> window_slots z ru busy earliest day end_minute cursor = Some (Inr [])"
  by (subst window_slots.simps) simp

text \<open>What the loop collects, when no minute of the grid raises.\<close>

lemma window_slots_result:
  assumes "ru_granularity ru > 0"
  shows "\<exists>r. window_slots z ru busy earliest day end_minute cursor = Some r
    \<and> (\<forall>slots. r = Inr slots \<longrightarrow> set slots = {s. \<exists>k::nat. \<exists>here. cursor + int k * ru_granularity ru + ru_duration ru \<le> end_minute
          \<and> slots_at z ru busy earliest day (cursor + int k * ru_granularity ru) = Inr here \<and> s \<in> set here})
    \<and> ((\<forall>k::nat. cursor + int k * ru_granularity ru + ru_duration ru \<le> end_minute
          \<longrightarrow> is_ok (slots_at z ru busy earliest day (cursor + int k * ru_granularity ru))) \<longrightarrow> is_ok r)"
proof (induction "nat (end_minute - cursor - ru_duration ru + 1)" arbitrary: cursor rule: less_induct)
  case less
  let ?g = "ru_granularity ru"
  show ?case
  proof (cases "cursor + ru_duration ru \<le> end_minute")
    case False
    have "cursor + int k * ?g + ru_duration ru > end_minute" for k
      using False assms by (smt (verit) mult_nonneg_nonneg of_nat_0_le_iff)
    then show ?thesis using window_slots_end [OF False] by (auto simp: not_le [symmetric])
  next
    case True
    have "nat (end_minute - (cursor + ?g) - ru_duration ru + 1) < nat (end_minute - cursor - ru_duration ru + 1)"
      using True assms by simp
    from less [OF this] obtain r where r: "window_slots z ru busy earliest day end_minute (cursor + ?g) = Some r"
      "\<forall>slots. r = Inr slots \<longrightarrow> set slots = {s. \<exists>k::nat. \<exists>here. cursor + ?g + int k * ?g + ru_duration ru \<le> end_minute
          \<and> slots_at z ru busy earliest day (cursor + ?g + int k * ?g) = Inr here \<and> s \<in> set here}"
      "(\<forall>k::nat. cursor + ?g + int k * ?g + ru_duration ru \<le> end_minute
          \<longrightarrow> is_ok (slots_at z ru busy earliest day (cursor + ?g + int k * ?g))) \<longrightarrow> is_ok r" by auto
    have shift: "cursor + ?g + int k * ?g = cursor + int (Suc k) * ?g" for k by (simp add: algebra_simps)
    show ?thesis
    proof (cases "slots_at z ru busy earliest day cursor")
      case (Inl err)
      then have "\<not> is_ok (slots_at z ru busy earliest day (cursor + int 0 * ?g))" by simp
      with True show ?thesis unfolding window_slots_step [OF True] Inl
        by (intro exI [of _ "Inl err"]) (auto intro!: exI [of _ "0::nat"])
    next
      case (Inr here)
      have all: "(\<exists>k::nat. P k) \<longleftrightarrow> P 0 \<or> (\<exists>k. P (Suc k))" for P using not0_implies_Suc by metis
      let ?r = "rbind r (\<lambda>more_slots. Inr (here @ more_slots))"
      have "set slots = {s. \<exists>k::nat. \<exists>h. cursor + int k * ?g + ru_duration ru \<le> end_minute
          \<and> slots_at z ru busy earliest day (cursor + int k * ?g) = Inr h \<and> s \<in> set h}" if "?r = Inr slots" for slots
      proof -
        from that obtain m where m: "r = Inr m" "slots = here @ m" by (auto simp: rbind_eq_Inr)
        then have "set m = {s. \<exists>k::nat. \<exists>h. cursor + int (Suc k) * ?g + ru_duration ru \<le> end_minute
          \<and> slots_at z ru busy earliest day (cursor + int (Suc k) * ?g) = Inr h \<and> s \<in> set h}"
          using r(2) unfolding shift by blast
        then show ?thesis using Inr True m by (subst all) auto
      qed
      moreover have "is_ok ?r" if "\<forall>k::nat. cursor + int k * ?g + ru_duration ru \<le> end_minute
          \<longrightarrow> is_ok (slots_at z ru busy earliest day (cursor + int k * ?g))"
      proof -
        have "is_ok r" using r(3) that unfolding shift by blast
        then show ?thesis by (auto simp: is_ok_iff)
      qed
      ultimately show ?thesis using r(1) by (intro exI [of _ ?r]) (simp add: window_slots_step [OF True] Inr)
    qed
  qed
qed

text \<open>No window offers a slot twice: what a later turn appends starts at a later time of the day.\<close>

lemma slots_at_minute:
  assumes "slots_at z ru busy earliest day c = Inr here"
  shows "distinct here \<and> (\<forall>s\<in>set here. zn_wall z (so_start s) mod days 1 = minutes c)"
  using assms by (auto simp: slots_at_def rbind_eq_Inr Let_def split: if_splits)

lemma window_slots_distinct:
  assumes "ru_granularity ru > 0" and "window_slots z ru busy earliest day end_minute cursor = Some (Inr slots)"
  shows "distinct slots \<and> (\<forall>s\<in>set slots. minutes cursor \<le> zn_wall z (so_start s) mod days 1)"
  using assms(2)
proof (induction "nat (end_minute - cursor - ru_duration ru + 1)" arbitrary: cursor slots rule: less_induct)
  case less
  show ?case
  proof (cases "cursor + ru_duration ru \<le> end_minute")
    case True
    then obtain here later where parts: "slots_at z ru busy earliest day cursor = Inr here"
        "window_slots z ru busy earliest day end_minute (cursor + ru_granularity ru) = Some (Inr later)" "slots = here @ later"
      using less.prems by (auto simp: window_slots_step [OF True] rbind_eq_Inr bind_eq_Some_conv split: sum.splits)
    have "distinct later \<and> (\<forall>s\<in>set later. minutes (cursor + ru_granularity ru) \<le> zn_wall z (so_start s) mod days 1)"
      using True assms(1) by (intro less.hyps parts(2)) simp
    moreover have "minutes cursor < minutes (cursor + ru_granularity ru)" using assms(1) by (simp add: time_defs)
    ultimately show ?thesis using slots_at_minute [OF parts(1)] parts(3) by fastforce
  qed (use less.prems window_slots_end in simp)
qed

lemma count_list_distinct: "distinct xs \<Longrightarrow> count_list xs x = (if x \<in> set xs then 1 else 0)"
  by (induction xs) auto

lemma count_list_sort_key: "count_list (sort_key f xs) y = count_list xs y"
proof (induction xs)
  case (Cons x xs)
  have "count_list (insort_key f x zs) y = count_list (x # zs) y" for zs by (induction zs) auto
  with Cons show ?case by simp
qed simp

section \<open>Specification of a slot\<close>

text \<open>What is relied on of the time zone database around a day: the instants that show a given wall-clock time are the
  readings with \<^verbatim>\<open>fold=0\<close> and \<^verbatim>\<open>fold=1\<close>, the second not before the first, and a time that is skipped is followed
  within a day by one, on the quarter hours after it, that is not.\<close>

definition zone_ok :: "zone \<Rightarrow> int \<Rightarrow> bool" where
  "zone_ok z day \<longleftrightarrow> (\<forall>n. days day \<le> n \<and> n < days (day + 2) \<longrightarrow>
     (if \<exists>u. zn_wall z u = n
      then zn_offset z True n \<le> zn_offset z False n
        \<and> (\<forall>u. zn_wall z u = n \<longleftrightarrow> u = n - zn_offset z False n \<or> u = n - zn_offset z True n)
      else \<exists>k u. 1 \<le> k \<and> k < 96 \<and> zn_wall z u = n + int k * minutes 15))"

lemma zone_okD:
  assumes "zone_ok z day" "days day \<le> n" "n < days (day + 2)"
  shows "zn_wall z (n - zn_offset z False n) = n \<longleftrightarrow> (\<exists>u. zn_wall z u = n)"
    and "zn_wall z u = n \<Longrightarrow> zn_offset z True n \<le> zn_offset z False n \<and> zn_wall z (n - zn_offset z True n) = n
      \<and> (u = n - zn_offset z False n \<or> u = n - zn_offset z True n)"
    and "\<nexists>u. zn_wall z u = n \<Longrightarrow> \<exists>k u. 1 \<le> k \<and> k < 96 \<and> zn_wall z u = n + int k * minutes 15"
  using assms unfolding zone_ok_def by (metis (full_types))+

text \<open>The probe stops at the first quarter hour that exists.\<close>

lemma probe_local_finds:
  assumes "zone_ok z day" "days day \<le> n" "1 \<le> k" "k \<le> m" "n + int k * minutes 15 < days (day + 2)"
    and "zn_wall z u = n + int k * minutes 15"
  shows "\<exists>j v. 1 \<le> j \<and> j \<le> k \<and> probe_local m z n = Inr v \<and> zn_wall z v = n + int j * minutes 15"
  using assms(2-)
proof (induction m arbitrary: n k)
  case (Suc m)
  let ?p = "n + minutes 15"
  have range: "days day \<le> ?p" "?p < days (day + 2)"
  proof -
    have "minutes 15 \<le> int k * minutes 15" using Suc.prems(2) by (simp add: time_defs)
    then show "?p < days (day + 2)" using Suc.prems(4) by linarith
    show "days day \<le> ?p" using Suc.prems(1) by (simp add: time_defs)
  qed
  show ?case
  proof (cases "zn_wall z (?p - zn_offset z False ?p) = ?p")
    case True
    then show ?thesis using Suc.prems(2) by (intro exI [of _ 1] exI [of _ "?p - zn_offset z False ?p"]) (simp add: Let_def)
  next
    case False
    have "k \<noteq> 1"
    proof
      assume "k = 1"
      then have "zn_wall z u = ?p" using Suc.prems(5) by simp
      then show False using False zone_okD(1) [OF assms(1) range] by blast
    qed
    then obtain k' where k': "k = Suc k'" "1 \<le> k'" using Suc.prems(2) by (cases k) auto
    have shift: "?p + int i * minutes 15 = n + int (Suc i) * minutes 15" for i by (simp add: algebra_simps)
    have "\<exists>j v. 1 \<le> j \<and> j \<le> k' \<and> probe_local m z ?p = Inr v \<and> zn_wall z v = ?p + int j * minutes 15"
    proof (rule Suc.IH)
      show "days day \<le> ?p" "1 \<le> k'" "k' \<le> m" using range k' Suc.prems(3) by simp_all
      show "?p + int k' * minutes 15 < days (day + 2)" "zn_wall z u = ?p + int k' * minutes 15"
        using Suc.prems(4,5) unfolding shift k'(1) by simp_all
    qed
    then obtain j v where "1 \<le> j" "j \<le> k'" "probe_local m z ?p = Inr v" "zn_wall z v = n + int (Suc j) * minutes 15"
      unfolding shift by blast
    with False k' show ?thesis by (intro exI [of _ "Suc j"] exI [of _ v]) (simp add: Let_def)
  qed
qed simp

lemma quarter_hours_later:
  assumes "0 \<le> c" "c < 1440" "1 \<le> j" "j < 96"
  shows "(days day + minutes c + int j * minutes 15) mod days 1 \<noteq> minutes c"
proof -
  let ?x = "day * 1440 + (c + int j * 15)"
  have "days day + minutes c + int j * minutes 15 = 60000000 * ?x" and d: "days 1 = 60000000 * 1440"
    by (simp_all add: time_defs)
  then have "(days day + minutes c + int j * minutes 15) mod days 1 = 60000000 * (?x mod 1440)"
    by (metis mult_mod_right)
  moreover have "?x mod 1440 = (c + int j * 15) mod 1440" by simp
  moreover have "(c + int j * 15) mod 1440 \<noteq> c"
  proof (cases "c + int j * 15 < 1440")
    case True
    then show ?thesis using assms by simp
  next
    case False
    have "(c + int j * 15) mod 1440 = (c + int j * 15 - 1440) mod 1440" by (rule minus_mod_self2 [symmetric])
    moreover have "(c + int j * 15 - 1440) mod 1440 = c + int j * 15 - 1440"
      using False assms by (intro mod_pos_pos_trivial) simp_all
    ultimately have "(c + int j * 15) mod 1440 = c + int j * 15 - 1440" by simp
    then show ?thesis using assms by simp
  qed
  ultimately show ?thesis by (simp add: minutes_def)
qed

text \<open>Resolution gives the later of the instants that show the time; for a skipped time it gives an instant whose time
  of day is another.\<close>

lemma resolve_local_instant_spec:
  assumes z: "zone_ok z day" and c: "0 \<le> c" "c < 1440"
  shows "\<exists>u. resolve_local_instant z day (minutes c) = Inr u
    \<and> (zn_wall z u mod days 1 = minutes c \<longleftrightarrow> zn_wall z u = days day + minutes c)
    \<and> (\<forall>v. zn_wall z v = days day + minutes c \<longrightarrow> v \<le> u \<and> zn_wall z u = days day + minutes c)"
proof -
  let ?n = "days day + minutes c"
  have range: "days day \<le> ?n" "?n < days (day + 2)" and tod: "?n mod days 1 = minutes c"
    using c by (auto simp: time_defs)
  show ?thesis
  proof (cases "\<exists>u. zn_wall z u = ?n")
    case True
    then have cand: "zn_wall z (?n - zn_offset z False ?n) = ?n" using zone_okD(1) [OF z range] by blast
    note law = zone_okD(2) [OF z range]
    have "resolve_local_instant z day (minutes c) = Inr (?n - zn_offset z True ?n)"
      using cand by (simp add: resolve_local_instant_def Let_def)
    moreover have "v \<le> ?n - zn_offset z True ?n" if "zn_wall z v = ?n" for v using law [OF that] by auto
    moreover have "zn_wall z (?n - zn_offset z True ?n) = ?n" using law [OF cand] by blast
    ultimately show ?thesis using tod by auto
  next
    case False
    then obtain k u where k: "1 \<le> k" "k < 96" "zn_wall z u = ?n + int k * minutes 15" using zone_okD(3) [OF z range] by blast
    have "?n + int k * minutes 15 < days (day + 2)" using c k(2) by (simp add: time_defs)
    from probe_local_finds [OF z range(1) k(1) _ this k(3), of 96] k(2) obtain j v where j: "1 \<le> j" "j < 96"
        "probe_local 96 z ?n = Inr v" "zn_wall z v = ?n + int j * minutes 15" by auto
    have "zn_wall z v mod days 1 \<noteq> minutes c" unfolding j(4) by (rule quarter_hours_later) (use c j(1,2) in simp_all)
    moreover have "zn_wall z (?n - zn_offset z False ?n) \<noteq> ?n" using False by blast
    ultimately show ?thesis using False j(3) tod by (intro exI [of _ v]) (auto simp: resolve_local_instant_def Let_def)
  qed
qed

text \<open>A slot of a local minute, spelled out on the calendar: its start shows the minute on the clock of that day (the later
  time when the clock shows it twice), not before the earliest bookable instant; its end is the duration later; and the
  capacity it has left, at least one, is what remains after the busy intervals that share an instant with the slot
  widened by its buffers.\<close>

definition offered :: "zone \<Rightarrow> SlotRules \<Rightarrow> Busy list \<Rightarrow> instant \<Rightarrow> int \<Rightarrow> int \<Rightarrow> Slot \<Rightarrow> bool" where
  "offered z ru busy earliest day c s \<longleftrightarrow> zn_wall z (so_start s) = days day + minutes c
     \<and> (\<forall>u. zn_wall z u = days day + minutes c \<longrightarrow> u \<le> so_start s)
     \<and> earliest \<le> so_start s \<and> so_end s - so_start s = minutes (ru_duration ru)
     \<and> 0 < so_remaining s \<and> so_remaining s + int (length (filter (\<lambda>b.
           {so_start s - minutes (ru_buffer_before ru) ..< so_end s + minutes (ru_buffer_after ru)} \<inter> {bu_start b ..< bu_end b} \<noteq> {}) busy))
         = ru_capacity ru"

definition rules_ok :: "SlotRules \<Rightarrow> bool" where
  "rules_ok ru \<longleftrightarrow> ru_granularity ru > 0 \<and> ru_duration ru > 0 \<and> ru_buffer_before ru \<ge> 0 \<and> ru_buffer_after ru \<ge> 0"

lemma overlaps_iff_common_instant:
  assumes "a < b" "c < d"
  shows "overlaps a b c d \<longleftrightarrow> {a..<b} \<inter> {c..<d} \<noteq> {}"
proof -
  have "overlaps a b c d \<longleftrightarrow> max a c < min b d" using assms by (auto simp: overlaps_def)
  then show ?thesis by (auto simp: Int_atLeastLessThan)
qed

lemma taken_by_spec:
  assumes "rules_ok ru" "\<forall>b\<in>set busy. bu_start b < bu_end b"
  shows "taken_by ru busy t = int (length (filter (\<lambda>b. {t - minutes (ru_buffer_before ru) ..< t + minutes (ru_duration ru) + minutes (ru_buffer_after ru)}
    \<inter> {bu_start b ..< bu_end b} \<noteq> {}) busy))"
proof -
  have "t - minutes (ru_buffer_before ru) < t + minutes (ru_duration ru) + minutes (ru_buffer_after ru)"
    using assms(1) by (simp add: rules_ok_def time_defs)
  note common = overlaps_iff_common_instant [OF this]
  show ?thesis unfolding taken_by_def
    by (intro arg_cong [where f = "\<lambda>xs. int (length xs)"] filter_cong refl common) (use assms(2) in blast)
qed

lemma slots_at_offered:
  assumes "zone_ok z day" "rules_ok ru" "\<forall>b\<in>set busy. bu_start b < bu_end b" "0 \<le> c" "c < 1440"
  shows "\<exists>here. slots_at z ru busy earliest day c = Inr here \<and> (\<forall>s. s \<in> set here \<longleftrightarrow> offered z ru busy earliest day c s)"
proof -
  obtain u where u: "resolve_local_instant z day (minutes c) = Inr u"
      "zn_wall z u mod days 1 = minutes c \<longleftrightarrow> zn_wall z u = days day + minutes c"
      "\<And>v. zn_wall z v = days day + minutes c \<Longrightarrow> v \<le> u \<and> zn_wall z u = days day + minutes c"
    using resolve_local_instant_spec [OF assms(1,4,5)] by blast
  have start: "zn_wall z v = days day + minutes c \<and> (\<forall>w. zn_wall z w = days day + minutes c \<longrightarrow> w \<le> v)
      \<longleftrightarrow> v = u \<and> zn_wall z u = days day + minutes c" for v
    using u(3) by (metis order_antisym)
  show ?thesis
  proof (cases "zn_wall z u = days day + minutes c")
    case False
    then have "\<not> offered z ru busy earliest day c s" for s using start by (auto simp: offered_def)
    with False u assms(4,5) show ?thesis by (intro exI [of _ "[]"]) (simp add: slots_at_def)
  next
    case True
    let ?left = "ru_capacity ru - taken_by ru busy u"
    let ?here = "if earliest \<le> u \<and> ?left > 0 then [\<lparr>so_start = u, so_end = u + minutes (ru_duration ru), so_remaining = ?left\<rparr>] else []"
    have "slots_at z ru busy earliest day c = Inr ?here"
      using True u(1,2) assms(4,5) by (simp add: slots_at_def Let_def)
    moreover have "s \<in> set ?here \<longleftrightarrow> offered z ru busy earliest day c s" for s
    proof -
      have "offered z ru busy earliest day c s \<longleftrightarrow> so_start s = u \<and> earliest \<le> u \<and> so_end s = u + minutes (ru_duration ru)
          \<and> 0 < so_remaining s \<and> so_remaining s = ?left"
        unfolding offered_def taken_by_spec [OF assms(2,3)] using start [of "so_start s"] True by (auto simp: diff_eq_eq add.commute)
      then show ?thesis by (cases s) auto
    qed
    ultimately show ?thesis by blast
  qed
qed

definition window_ok :: "WorkingWindow \<Rightarrow> bool" where
  "window_ok w \<longleftrightarrow> 0 \<le> ww_start w \<and> ww_end w \<le> 1440"

lemma grid_bounds:
  assumes "c \<in> grid ru w" "window_ok w" "ru_granularity ru > 0" "ru_duration ru > 0"
  shows "0 \<le> c \<and> c < 1440"
proof -
  obtain k :: nat where k: "c = ww_start w + int k * ru_granularity ru" "c + ru_duration ru \<le> ww_end w" using assms(1) by (auto simp: grid_def)
  have "0 \<le> int k * ru_granularity ru" using assms(3) by simp
  then show ?thesis using k assms(2,4) by (auto simp: window_ok_def)
qed

lemma window_slots_offered:
  assumes "rules_ok ru" "window_ok w" "zone_ok z day" "\<forall>b\<in>set busy. bu_start b < bu_end b"
  shows "\<exists>slots. window_slots z ru busy earliest day (ww_end w) (ww_start w) = Some (Inr slots) \<and> distinct slots
    \<and> set slots = {s. \<exists>c\<in>grid ru w. offered z ru busy earliest day c s}"
proof -
  have pos: "ru_granularity ru > 0" "ru_duration ru > 0" using assms(1) by (simp_all add: rules_ok_def)
  obtain r where r: "window_slots z ru busy earliest day (ww_end w) (ww_start w) = Some r"
    "\<And>slots. r = Inr slots \<Longrightarrow> set slots = {s. \<exists>k::nat. \<exists>here. ww_start w + int k * ru_granularity ru + ru_duration ru \<le> ww_end w
          \<and> slots_at z ru busy earliest day (ww_start w + int k * ru_granularity ru) = Inr here \<and> s \<in> set here}"
    "(\<forall>k::nat. ww_start w + int k * ru_granularity ru + ru_duration ru \<le> ww_end w
          \<longrightarrow> is_ok (slots_at z ru busy earliest day (ww_start w + int k * ru_granularity ru))) \<longrightarrow> is_ok r"
    using window_slots_result [OF pos(1), of z busy earliest day "ww_end w" "ww_start w"] by blast
  have on_grid: "ww_start w + int k * ru_granularity ru \<in> grid ru w"
    if "ww_start w + int k * ru_granularity ru + ru_duration ru \<le> ww_end w" for k using that by (auto simp: grid_def)
  have at: "\<exists>here. slots_at z ru busy earliest day c = Inr here \<and> (\<forall>s. s \<in> set here \<longleftrightarrow> offered z ru busy earliest day c s)"
    if "c \<in> grid ru w" for c
    using grid_bounds [OF that assms(2) pos] slots_at_offered [OF assms(3,1,4)] by blast
  have "is_ok r"
  proof (rule r(3) [rule_format])
    fix k :: nat
    assume "ww_start w + int k * ru_granularity ru + ru_duration ru \<le> ww_end w"
    then show "is_ok (slots_at z ru busy earliest day (ww_start w + int k * ru_granularity ru))"
      using at [OF on_grid] by (auto simp: is_ok_iff)
  qed
  then obtain slots where slots: "r = Inr slots" by (auto simp: is_ok_iff)
  have "set slots = {s. \<exists>c\<in>grid ru w. \<exists>here. slots_at z ru busy earliest day c = Inr here \<and> s \<in> set here}"
    unfolding r(2) [OF slots] grid_def by blast
  also have "\<dots> = {s. \<exists>c\<in>grid ru w. offered z ru busy earliest day c s}"
    by (intro Collect_cong bex_cong refl) (use at in fastforce)
  finally show ?thesis using r(1) slots window_slots_distinct [OF pos(1)] by blast
qed

lemma all_windows_offered:
  assumes "rules_ok ru" "\<forall>w\<in>set ws. window_ok w" "zone_ok z day" "\<forall>b\<in>set busy. bu_start b < bu_end b"
  shows "\<exists>slots. all_windows z ru busy earliest day ws = Some (Inr slots)
    \<and> (\<forall>s. count_list slots s = length (filter (\<lambda>w. \<exists>c\<in>grid ru w. offered z ru busy earliest day c s) ws))"
  using assms(2)
proof (induction ws)
  case Nil
  then show ?case by simp
next
  case (Cons w ws)
  then have "window_ok w" by simp
  from window_slots_offered [OF assms(1) this assms(3,4)]
  obtain here where here: "window_slots z ru busy earliest day (ww_end w) (ww_start w) = Some (Inr here)" "distinct here"
    "set here = {s. \<exists>c\<in>grid ru w. offered z ru busy earliest day c s}" by blast
  have "count_list here s = (if \<exists>c\<in>grid ru w. offered z ru busy earliest day c s then 1 else 0)" for s
    using here(2,3) by (simp add: count_list_distinct)
  moreover obtain later where "all_windows z ru busy earliest day ws = Some (Inr later)"
    "\<And>s. count_list later s = length (filter (\<lambda>w. \<exists>c\<in>grid ru w. offered z ru busy earliest day c s) ws)"
    using Cons by auto
  ultimately show ?case using here(1) by (intro exI [of _ "here @ later"]) simp
qed

section \<open>Property\<close>

text \<open>C22. Availability is exact: for rules with a positive granularity and duration and buffers that are not negative, windows
  within the day and busy intervals that are not empty, the computation returns, the slots come in the order of their
  starts, and each slot is offered as often as there are working windows of that weekday whose grid has a minute that
  offers it: a local time that exists, after the notice period, with capacity left by the busy intervals that share
  an instant with the slot and its buffers. On holidays and beyond the booking horizon nothing is offered.\<close>

theorem compute_slots_exact:
  assumes "rules_ok ru" and "\<forall>w\<in>set windows. window_ok w" and "zone_ok z day" and "\<forall>b\<in>set busy. bu_start b < bu_end b"
  shows "\<exists>slots. compute_slots z day windows busy ru holidays now = Some (Inr slots) \<and> sorted (map so_start slots)
    \<and> (\<forall>s. count_list slots s =
         (if day \<in> set holidays \<or> day > zn_wall z now div days 1 + ru_max_advance_days ru then 0
          else length (filter (\<lambda>w. ww_day w = (day + 3) mod 7
            \<and> (\<exists>c\<in>grid ru w. offered z ru busy (now + minutes (ru_min_notice ru)) day c s)) windows)))"
proof -
  let ?ws = "filter (\<lambda>w. ww_day w = weekday day) windows" and ?e = "now + minutes (ru_min_notice ru)"
  have "\<forall>w\<in>set ?ws. window_ok w" using assms(2) by simp
  from all_windows_offered [OF assms(1) this assms(3,4), of ?e] obtain slots where
    slots: "all_windows z ru busy ?e day ?ws = Some (Inr slots)"
      "\<And>s. count_list slots s = length (filter (\<lambda>w. \<exists>c\<in>grid ru w. offered z ru busy ?e day c s) ?ws)" by blast
  have "count_list (sort_key so_start slots) s = count_list slots s" for s
    by (rule count_list_sort_key)
  with slots show ?thesis
    by (cases "day \<in> set holidays \<or> day > zn_wall z now div days 1 + ru_max_advance_days ru")
      (auto simp: compute_slots_def weekday_def conj_commute)
qed

definition india :: zone where
  "india = \<lparr>zn_offset = (\<lambda>_ _. minutes 330), zn_wall = (\<lambda>t. t + minutes 330)\<rparr>"

definition sample_rules :: SlotRules where
  "sample_rules = \<lparr>ru_duration = 30, ru_buffer_before = 0, ru_buffer_after = 15, ru_capacity = 1, ru_granularity = 30,
     ru_min_notice = 60, ru_max_advance_days = 60\<rparr>"

lemma india_ok: "zone_ok india day"
proof -
  have "\<exists>u. u + minutes 330 = n" for n by (rule exI [of _ "n - minutes 330"]) simp
  then show ?thesis by (auto simp: zone_ok_def india_def)
qed

theorem compute_slots_exact_witness:
  "\<exists>slots. compute_slots india 4 [\<lparr>ww_day = 0, ww_start = 540, ww_end = 660\<rparr>]
       [\<lparr>bu_start = days 4 + minutes 270, bu_end = days 4 + minutes 280\<rparr>] sample_rules [] (days 3) = Some (Inr slots)
     \<and> map (\<lambda>s. so_start s - days 4) slots = [minutes 210, minutes 300]"
proof -
  let ?w = "\<lparr>ww_day = 0, ww_start = 540, ww_end = 660\<rparr>"
  let ?b = "\<lparr>bu_start = days 4 + minutes 270, bu_end = days 4 + minutes 280\<rparr>"
  have "\<exists>slots. compute_slots india 4 [?w] [?b] sample_rules [] (days 3) = Some (Inr slots)"
    using compute_slots_exact [of sample_rules "[?w]" india 4 "[?b]" "[]" "days 3"] india_ok [of 4]
    by (auto simp: sample_rules_def rules_ok_def window_ok_def time_defs)
  moreover have "map_option (\<lambda>r. case r of Inl _ \<Rightarrow> [] | Inr slots \<Rightarrow> map (\<lambda>s. so_start s - days 4) slots)
      (compute_slots india 4 [?w] [?b] sample_rules [] (days 3)) = Some [minutes 210, minutes 300]"
    by code_simp
  ultimately show ?thesis by auto
qed

end
