(* ===== verification/Deals.thy ===== *)
theory Deals
  imports Transitions Repository
begin

text \<open>
  \<^verbatim>\<open>domain/deals/pipeline_policy.py\<close> and \<^verbatim>\<open>application/crm/deals.py\<close> over the pipelines, stages and deals of \<^verbatim>\<open>models/crm.py\<close>.
  Every operation is one transaction with the check constraints of the deals table at its end; each of them reads the deal
  back afterwards under the scope of the caller, so a result pairs the tables with an answer that may be an error although
  the change is committed.
\<close>

section \<open>Policy\<close>

datatype DealStatus = OPEN | WON | LOST | ABANDONED

definition DealStatus_value :: "DealStatus \<Rightarrow> string" where
  "DealStatus_value s = (case s of OPEN \<Rightarrow> ''open'' | WON \<Rightarrow> ''won'' | LOST \<Rightarrow> ''lost'' | ABANDONED \<Rightarrow> ''abandoned'')"

definition deal_statuses :: "DealStatus list" where "deal_statuses = [OPEN, WON, LOST, ABANDONED]"

definition DealStatus_of :: "string \<Rightarrow> DealStatus option" where
  "DealStatus_of v = List.find (\<lambda>s. DealStatus_value s = v) deal_statuses"

fun ALLOWED_STATUS_TRANSITIONS :: "DealStatus \<Rightarrow> DealStatus list" where
  "ALLOWED_STATUS_TRANSITIONS OPEN = [WON, LOST, ABANDONED]"
| "ALLOWED_STATUS_TRANSITIONS WON = [OPEN]"
| "ALLOWED_STATUS_TRANSITIONS LOST = [OPEN]"
| "ALLOWED_STATUS_TRANSITIONS ABANDONED = [OPEN]"

definition CLOSED_STATUSES :: "DealStatus list" where "CLOSED_STATUSES = [WON, LOST, ABANDONED]"

record StageSpec =
  sp_id :: string
  sp_name :: string
  sp_position :: int
  sp_probability :: int
  sp_required :: "string list"
  sp_won :: bool
  sp_lost :: bool
  sp_skip_forward :: bool
  sp_backward :: bool

record StageMoveRequest =
  mv_from :: StageSpec
  mv_to :: StageSpec
  mv_fields :: jdict
  mv_loss_reason :: "string option"
  mv_status :: DealStatus

record StageMoveResult =
  mr_stage :: string
  mr_status :: DealStatus
  mr_probability :: int

datatype deal_fault =
    Must_reopen
  | No_way_back string
  | No_skipping string
  | Fields_missing string "string list"
  | Loss_reason_required
  | Bad_status string
  | Cannot_move_status DealStatus DealStatus
  | Deal_not_found
  | Stage_not_found
  | Stage_gone
  | No_stages
  | Deal_title_required
  | Link_not_found
  | Deal_stale int
  | Deal_check_violated
  | Pipeline_name_taken

definition validate_stage_move :: "StageMoveRequest \<Rightarrow> (deal_fault, StageMoveResult) res" where
  "validate_stage_move request =
     (let src = mv_from request; dst = mv_to request;
          missing = filter (\<lambda>f. \<not> is_present (dget f (mv_fields request))) (sp_required dst) in
      if mv_status request \<in> set CLOSED_STATUSES \<and> \<not> (sp_won dst \<or> sp_lost dst) then Inl Must_reopen
      else if sp_position dst < sp_position src \<and> \<not> sp_backward src then Inl (No_way_back (sp_name src))
      else if sp_position dst > sp_position src + 1 \<and> \<not> sp_skip_forward src then Inl (No_skipping (sp_name src))
      else if missing \<noteq> [] then Inl (Fields_missing (sp_name dst) missing)
      else if sp_lost dst \<and> (mv_loss_reason request = None \<or> mv_loss_reason request = Some []) then Inl Loss_reason_required
      else Inr \<lparr>mr_stage = sp_id dst, mr_status = (if sp_won dst then WON else if sp_lost dst then LOST else OPEN),
                mr_probability = sp_probability dst\<rparr>)"

definition deal_status_step :: "DealStatus \<Rightarrow> DealStatus \<Rightarrow> (deal_fault, DealStatus) res" where
  "deal_status_step cur tgt =
     (if cur = tgt then Inr tgt
      else if tgt \<notin> set (ALLOWED_STATUS_TRANSITIONS cur) then Inl (Cannot_move_status cur tgt)
      else Inr tgt)"

definition assert_status_transition :: "string \<Rightarrow> DealStatus \<Rightarrow> (deal_fault, DealStatus) res" where
  "assert_status_transition current tgt =
     (case DealStatus_of current of None \<Rightarrow> Inl (Bad_status current) | Some cur \<Rightarrow> deal_status_step cur tgt)"

interpretation deal: transition_machine ALLOWED_STATUS_TRANSITIONS deal_status_step
  by unfold_locales (auto simp: deal_status_step_def split: if_splits)

section \<open>Tables\<close>

record Pipeline =
  pi_id :: string
  pi_tenant :: string
  pi_name :: string
  pi_default :: bool
  pi_active :: bool
  pi_created :: instant
  pi_deleted :: "instant option"

record Stage =
  st_id :: string
  st_tenant :: string
  st_pipeline :: string
  st_name :: string
  st_position :: int
  st_probability :: int
  st_required :: "string list"
  st_rules :: jdict
  st_won :: bool
  st_lost :: bool

record Deal =
  dl_id :: string
  dl_tenant :: string
  dl_title :: string
  dl_amount :: int
  dl_currency :: string
  dl_probability :: int
  dl_status :: string
  dl_loss_reason :: "string option"
  dl_pipeline :: string
  dl_stage :: string
  dl_contact :: "string option"
  dl_account :: "string option"
  dl_assignee :: "string option"
  dl_branch :: "string option"
  dl_team :: "string option"
  dl_expected_close :: "instant option"
  dl_closed_at :: "instant option"
  dl_deleted :: "instant option"
  dl_version :: int
  dl_created_by :: string
  dl_updated_by :: "string option"

text \<open>Contacts and accounts matter here only for their visibility.\<close>

record linked =
  ln_id :: string
  ln_tenant :: string
  ln_deleted :: bool
  ln_scope :: scope_columns

record deal_db =
  dd_pipelines :: "Pipeline list"
  dd_stages :: "Stage list"
  dd_deals :: "Deal list"
  dd_contacts :: "linked list"
  dd_accounts :: "linked list"
  dd_audit :: "event_row list"
  dd_outbox :: "event_row list"

definition deal_model :: "Deal model" where
  "deal_model = \<lparr>mo_id = dl_id, mo_tenant = dl_tenant, mo_deleted = (\<lambda>r. dl_deleted r \<noteq> None),
     mo_scope = (\<lambda>r. \<lparr>co_branch = Some (dl_branch r), co_team = Some (dl_team r), co_assignee = Some (dl_assignee r)\<rparr>)\<rparr>"

definition linked_model :: "linked model" where
  "linked_model = \<lparr>mo_id = ln_id, mo_tenant = ln_tenant, mo_deleted = ln_deleted, mo_scope = ln_scope\<rparr>"

text \<open>The check constraints of \<^verbatim>\<open>deals\<close>.\<close>

definition deal_checks :: "Deal \<Rightarrow> bool" where
  "deal_checks r \<longleftrightarrow> DealStatus_of (dl_status r) \<noteq> None \<and> 0 \<le> dl_amount r \<and> 0 \<le> dl_probability r \<and> dl_probability r \<le> 100"

type_synonym deal_outcome = "deal_db \<times> (deal_fault, Deal) res"

definition scoped_deal :: "actor \<Rightarrow> string \<Rightarrow> deal_db \<Rightarrow> Deal option" where
  "scoped_deal a i db = get_scoped deal_model (ac_tenant a) (ac_perms a) i (dd_deals db)"

definition read_back :: "actor \<Rightarrow> string \<Rightarrow> deal_db \<Rightarrow> deal_outcome" where
  "read_back a i db = (db, case scoped_deal a i db of None \<Rightarrow> Inl Deal_not_found | Some r \<Rightarrow> Inr r)"

definition audit_deal :: "event_row \<Rightarrow> deal_db \<Rightarrow> deal_db" where
  "audit_deal e db = db\<lparr>dd_audit := dd_audit db @ [e]\<rparr>"

definition emit_deals :: "event_row list \<Rightarrow> deal_db \<Rightarrow> deal_db" where
  "emit_deals es db = db\<lparr>dd_outbox := dd_outbox db @ es\<rparr>"

definition put_deal :: "Deal \<Rightarrow> deal_db \<Rightarrow> deal_db" where
  "put_deal r db = db\<lparr>dd_deals := set_row dl_id r (dd_deals db)\<rparr>"

definition bump_deal :: "Deal \<Rightarrow> int option \<Rightarrow> (deal_fault, Deal) res" where
  "bump_deal r expected = (case bump_version (dl_version r) expected of
      Inl v \<Rightarrow> Inl (Deal_stale v) | Inr v \<Rightarrow> Inr (r\<lparr>dl_version := v\<rparr>))"

section \<open>Pipelines\<close>

definition DEFAULT_PIPELINE_NAME :: string where "DEFAULT_PIPELINE_NAME = ''Sales''"

definition DEFAULT_STAGES :: "(string \<times> int \<times> int \<times> bool \<times> bool) list" where
  "DEFAULT_STAGES = [(''New'', 0, 10, False, False), (''Qualified'', 1, 30, False, False), (''Proposal'', 2, 60, False, False),
     (''Negotiation'', 3, 80, False, False), (''Won'', 4, 100, True, False), (''Lost'', 5, 0, False, True)]"

definition default_stage :: "string \<Rightarrow> string \<Rightarrow> string \<times> string \<times> int \<times> int \<times> bool \<times> bool \<Rightarrow> Stage" where
  "default_stage tenant pipeline e = (case e of (i, name, position, probability, won, lost) \<Rightarrow>
     \<lparr>st_id = i, st_tenant = tenant, st_pipeline = pipeline, st_name = name, st_position = position, st_probability = probability,
      st_required = [], st_rules = [], st_won = won, st_lost = lost\<rparr>)"

text \<open>The active pipeline that sorts first: default ones before others, then the oldest.\<close>

definition active_pipeline :: "string \<Rightarrow> deal_db \<Rightarrow> Pipeline option" where
  "active_pipeline tenant db =
     (case filter (\<lambda>p. pi_tenant p = tenant \<and> pi_deleted p = None \<and> pi_active p) (dd_pipelines db) of
        [] \<Rightarrow> None
      | p # ps \<Rightarrow> (case filter pi_default (p # ps) of
          [] \<Rightarrow> Some (min_by pi_created p ps)
        | q # qs \<Rightarrow> Some (min_by pi_created q qs)))"

definition provisioned :: "instant \<Rightarrow> string \<Rightarrow> string \<Rightarrow> string list \<Rightarrow> deal_db \<Rightarrow> deal_db" where
  "provisioned now tenant fresh stage_ids db =
     db\<lparr>dd_pipelines := dd_pipelines db @ [\<lparr>pi_id = fresh, pi_tenant = tenant, pi_name = DEFAULT_PIPELINE_NAME, pi_default = True,
          pi_active = True, pi_created = now, pi_deleted = None\<rparr>],
        dd_stages := dd_stages db @ map (default_stage tenant fresh) (zip stage_ids DEFAULT_STAGES)\<rparr>"

text \<open>The unique constraint on tenant and name counts deleted pipelines too; then the pipeline is looked up by its name.\<close>

definition ensure_pipeline :: "instant \<Rightarrow> string \<Rightarrow> string \<Rightarrow> string list \<Rightarrow> deal_db \<Rightarrow> deal_db \<times> (deal_fault, string) res" where
  "ensure_pipeline now tenant fresh stage_ids db =
     (case active_pipeline tenant db of
        Some p \<Rightarrow> (db, Inr (pi_id p))
      | None \<Rightarrow>
          if (tenant, DEFAULT_PIPELINE_NAME) \<notin> (\<lambda>p. (pi_tenant p, pi_name p)) ` set (dd_pipelines db)
          then (provisioned now tenant fresh stage_ids db, Inr fresh)
          else (db, case List.find (\<lambda>p. pi_tenant p = tenant \<and> pi_name p = DEFAULT_PIPELINE_NAME \<and> pi_deleted p = None) (dd_pipelines db) of
                 None \<Rightarrow> Inl Pipeline_name_taken | Some p \<Rightarrow> Inr (pi_id p)))"

definition stages_of :: "string \<Rightarrow> string \<Rightarrow> deal_db \<Rightarrow> Stage list" where
  "stages_of tenant pipeline db =
     sort_key st_position (filter (\<lambda>s. st_tenant s = tenant \<and> st_pipeline s = pipeline) (dd_stages db))"

definition spec_of :: "Stage \<Rightarrow> StageSpec" where
  "spec_of s = \<lparr>sp_id = st_id s, sp_name = st_name s, sp_position = st_position s, sp_probability = st_probability s,
     sp_required = st_required s, sp_won = st_won s, sp_lost = st_lost s,
     sp_skip_forward = truthy (dget_or ''allow_skip_forward'' (JBool True) (st_rules s)),
     sp_backward = truthy (dget_or ''allow_backward'' (JBool True) (st_rules s))\<rparr>"

section \<open>Deals\<close>

definition opt_instant :: "instant option \<Rightarrow> json" where
  "opt_instant t = (case t of None \<Rightarrow> JNull | Some u \<Rightarrow> JInt u)"

text \<open>\<^verbatim>\<open>serialize_deal\<close> without the names that the caller may look up.\<close>

definition serialize_deal :: "Deal \<Rightarrow> jdict" where
  "serialize_deal r = [(''id'', JStr (dl_id r)), (''title'', JStr (dl_title r)), (''amount_minor'', JInt (dl_amount r)),
     (''currency'', JStr (dl_currency r)), (''probability'', JInt (dl_probability r)), (''status'', JStr (dl_status r)),
     (''loss_reason'', opt_json (dl_loss_reason r)), (''pipeline_id'', JStr (dl_pipeline r)), (''stage_id'', JStr (dl_stage r)),
     (''stage_name'', JNull), (''contact_id'', opt_json (dl_contact r)), (''contact_name'', JNull),
     (''account_id'', opt_json (dl_account r)), (''account_name'', JNull), (''assignee_id'', opt_json (dl_assignee r)),
     (''expected_close_date'', opt_instant (dl_expected_close r)), (''closed_at'', opt_instant (dl_closed_at r)),
     (''version'', JInt (dl_version r))]"

definition link_missing :: "actor \<Rightarrow> string option \<Rightarrow> linked list \<Rightarrow> bool" where
  "link_missing a i rows = (case i of None \<Rightarrow> False | Some l \<Rightarrow> get_scoped linked_model (ac_tenant a) (ac_perms a) l rows = None)"

record deal_payload =
  dp_title :: string
  dp_amount :: int
  dp_currency :: "string option"
  dp_stage :: "string option"
  dp_contact :: "string option"
  dp_account :: "string option"
  dp_assignee :: "string option"
  dp_expected_close :: "instant option"

definition new_deal :: "actor \<Rightarrow> string \<Rightarrow> string \<Rightarrow> Stage \<Rightarrow> deal_payload \<Rightarrow> Deal" where
  "new_deal a fresh pipeline stage p =
     \<lparr>dl_id = fresh, dl_tenant = ac_tenant a, dl_title = take 250 (py_strip (dp_title p)), dl_amount = dp_amount p,
      dl_currency = (case dp_currency p of None \<Rightarrow> ''INR'' | Some c \<Rightarrow> if c = [] then ''INR'' else c),
      dl_probability = st_probability stage, dl_status = ''open'', dl_loss_reason = None, dl_pipeline = pipeline, dl_stage = st_id stage,
      dl_contact = dp_contact p, dl_account = dp_account p,
      dl_assignee = (case dp_assignee p of None \<Rightarrow> Some (ac_user a) | Some u \<Rightarrow> Some u), dl_branch = None, dl_team = None,
      dl_expected_close = dp_expected_close p, dl_closed_at = None, dl_deleted = None, dl_version = 1, dl_created_by = ac_user a,
      dl_updated_by = None\<rparr>"

definition first_stage :: "string option \<Rightarrow> Stage list \<Rightarrow> (deal_fault, Stage) res" where
  "first_stage requested stages =
     (case stages of
        [] \<Rightarrow> Inl No_stages
      | s # _ \<Rightarrow> (case requested of
          None \<Rightarrow> Inr s
        | Some i \<Rightarrow> (case row_at st_id i stages of None \<Rightarrow> Inl Stage_not_found | Some t \<Rightarrow> Inr t)))"

definition insert_deal :: "actor \<Rightarrow> string \<Rightarrow> string \<Rightarrow> deal_payload \<Rightarrow> deal_db \<Rightarrow> deal_outcome" where
  "insert_deal a fresh pipeline p db =
     (case first_stage (dp_stage p) (stages_of (ac_tenant a) pipeline db) of
        Inl err \<Rightarrow> (db, Inl err)
      | Inr stage \<Rightarrow>
          if link_missing a (dp_contact p) (dd_contacts db) \<or> link_missing a (dp_account p) (dd_accounts db) then (db, Inl Link_not_found)
          else if \<not> deal_checks (new_deal a fresh pipeline stage p) then (db, Inl Deal_check_violated)
          else read_back a fresh (
            emit_deals [event_of a ''opportunity.created'' fresh [(''stage_id'', JStr (st_id stage)), (''amount_minor'', JInt (dp_amount p))]]
            (audit_deal (event_of a ''deal.create'' fresh [(''title'', JStr (py_strip (dp_title p))), (''amount_minor'', JInt (dp_amount p))])
            (db\<lparr>dd_deals := dd_deals db @ [new_deal a fresh pipeline stage p]\<rparr>))))"

definition create_deal :: "instant \<Rightarrow> actor \<Rightarrow> string \<Rightarrow> string \<Rightarrow> string list \<Rightarrow> deal_payload \<Rightarrow> deal_db \<Rightarrow> deal_outcome" where
  "create_deal now a fresh fresh_pipeline stage_ids p db =
     (if py_strip (dp_title p) = [] then (db, Inl Deal_title_required)
      else case ensure_pipeline now (ac_tenant a) fresh_pipeline stage_ids db of
        (db', Inl err) \<Rightarrow> (db', Inl err)
      | (db', Inr pipeline) \<Rightarrow> insert_deal a fresh pipeline p db')"

text \<open>The changes of \<^verbatim>\<open>DealUpdate\<close>: links may be cleared, other fields only replaced.\<close>

datatype deal_change =
    Put_title "string option"
  | Put_amount "int option"
  | Put_expected_close "instant option"
  | Put_assignee "string option"
  | Put_contact "string option"
  | Put_account "string option"

definition deal_field :: "deal_change \<Rightarrow> string" where
  "deal_field c = (case c of Put_title _ \<Rightarrow> ''title'' | Put_amount _ \<Rightarrow> ''amount_minor'' | Put_expected_close _ \<Rightarrow> ''expected_close_date''
     | Put_assignee _ \<Rightarrow> ''assignee_id'' | Put_contact _ \<Rightarrow> ''contact_id'' | Put_account _ \<Rightarrow> ''account_id'')"

definition change_deal :: "Deal \<Rightarrow> deal_change \<Rightarrow> Deal" where
  "change_deal r c = (case c of
      Put_title v \<Rightarrow> (case v of None \<Rightarrow> r | Some t \<Rightarrow> r\<lparr>dl_title := t\<rparr>)
    | Put_amount v \<Rightarrow> (case v of None \<Rightarrow> r | Some m \<Rightarrow> r\<lparr>dl_amount := m\<rparr>)
    | Put_expected_close v \<Rightarrow> (case v of None \<Rightarrow> r | Some t \<Rightarrow> r\<lparr>dl_expected_close := Some t\<rparr>)
    | Put_assignee v \<Rightarrow> (case v of None \<Rightarrow> r | Some u \<Rightarrow> r\<lparr>dl_assignee := Some u\<rparr>)
    | Put_contact v \<Rightarrow> r\<lparr>dl_contact := v\<rparr>
    | Put_account v \<Rightarrow> r\<lparr>dl_account := v\<rparr>)"

definition changes_visible :: "actor \<Rightarrow> deal_change list \<Rightarrow> deal_db \<Rightarrow> bool" where
  "changes_visible a cs db \<longleftrightarrow> list_all (\<lambda>c. case c of
      Put_contact v \<Rightarrow> \<not> link_missing a v (dd_contacts db)
    | Put_account v \<Rightarrow> \<not> link_missing a v (dd_accounts db)
    | _ \<Rightarrow> True) cs"

definition diff_deals :: "Deal \<Rightarrow> Deal \<Rightarrow> jdict" where
  "diff_deals old_row new_row = filter (\<lambda>e. \<not> py_eq (dget (fst e) (serialize_deal old_row)) (snd e)) (serialize_deal new_row)"

text \<open>An update that passed its checks: version, constraints, audit row, events, and the deal read back.\<close>

definition store_deal :: "actor \<Rightarrow> int option \<Rightarrow> string \<Rightarrow> (Deal \<Rightarrow> jdict) \<Rightarrow> (Deal \<Rightarrow> event_row list) \<Rightarrow> Deal \<Rightarrow> deal_db \<Rightarrow> deal_outcome" where
  "store_deal a expected action data events r db =
     (case bump_deal r expected of
        Inl err \<Rightarrow> (db, Inl err)
      | Inr r1 \<Rightarrow>
          let r' = r1\<lparr>dl_updated_by := Some (ac_user a)\<rparr> in
          if \<not> deal_checks r' then (db, Inl Deal_check_violated)
          else read_back a (dl_id r) (emit_deals (events r') (audit_deal (event_of a action (dl_id r) (data r')) (put_deal r' db))))"

definition update_deal :: "actor \<Rightarrow> string \<Rightarrow> deal_change list \<Rightarrow> int option \<Rightarrow> deal_db \<Rightarrow> deal_outcome" where
  "update_deal a i cs expected db =
     (case scoped_deal a i db of
        None \<Rightarrow> (db, Inl Deal_not_found)
      | Some r \<Rightarrow>
          if \<not> changes_visible a cs db then (db, Inl Link_not_found)
          else store_deal a expected ''deal.update'' (diff_deals r)
            (\<lambda>_. [event_of a ''opportunity.updated'' i [(''changed'', JList (map JStr (sorted_set (map deal_field cs))))]])
            (foldl change_deal r cs) db)"

definition moved_deal :: "instant \<Rightarrow> string option \<Rightarrow> StageMoveResult \<Rightarrow> Deal \<Rightarrow> Deal" where
  "moved_deal now loss_reason m r =
     r\<lparr>dl_stage := mr_stage m, dl_probability := mr_probability m, dl_status := DealStatus_value (mr_status m),
       dl_loss_reason := (if mr_status m = LOST then loss_reason else if mr_status m = WON then dl_loss_reason r else None),
       dl_closed_at := (if mr_status m \<in> {WON, LOST} then Some now else None)\<rparr>"

definition stage_events :: "actor \<Rightarrow> string \<Rightarrow> string option \<Rightarrow> StageMoveResult \<Rightarrow> Deal \<Rightarrow> event_row list" where
  "stage_events a previous loss_reason m r =
     event_of a ''opportunity.stage_changed'' (dl_id r)
       [(''from_stage_id'', JStr previous), (''to_stage_id'', JStr (mr_stage m)), (''status'', JStr (dl_status r))]
     # (if mr_status m = WON then [event_of a ''opportunity.won'' (dl_id r) [(''amount_minor'', JInt (dl_amount r))]]
        else if mr_status m = LOST then [event_of a ''opportunity.lost'' (dl_id r) [(''loss_reason'', opt_json loss_reason)]] else [])"

definition move_stage :: "instant \<Rightarrow> actor \<Rightarrow> string \<Rightarrow> string \<Rightarrow> string option \<Rightarrow> int option \<Rightarrow> deal_db \<Rightarrow> deal_outcome" where
  "move_stage now a i target_stage_id loss_reason expected db =
     (case scoped_deal a i db of
        None \<Rightarrow> (db, Inl Deal_not_found)
      | Some r \<Rightarrow>
          let stages = stages_of (ac_tenant a) (dl_pipeline r) db in
          (case (row_at st_id target_stage_id stages, row_at st_id (dl_stage r) stages, DealStatus_of (dl_status r)) of
             (None, _, _) \<Rightarrow> (db, Inl Stage_not_found)
           | (Some _, None, _) \<Rightarrow> (db, Inl Stage_gone)
           | (Some _, Some _, None) \<Rightarrow> (db, Inl (Bad_status (dl_status r)))
           | (Some target, Some source, Some status) \<Rightarrow>
               (case validate_stage_move \<lparr>mv_from = spec_of source, mv_to = spec_of target, mv_fields = serialize_deal r,
                       mv_loss_reason = loss_reason, mv_status = status\<rparr> of
                  Inl err \<Rightarrow> (db, Inl err)
                | Inr m \<Rightarrow> store_deal a expected ''deal.stage_change''
                    (\<lambda>r'. [(''stage_id'', JStr (st_id target)), (''status'', JStr (dl_status r'))])
                    (stage_events a (dl_stage r) loss_reason m) (moved_deal now loss_reason m r) db)))"

definition reopen :: "actor \<Rightarrow> string \<Rightarrow> int option \<Rightarrow> deal_db \<Rightarrow> deal_outcome" where
  "reopen a i expected db =
     (case scoped_deal a i db of
        None \<Rightarrow> (db, Inl Deal_not_found)
      | Some r \<Rightarrow>
          (case assert_status_transition (dl_status r) OPEN of
             Inl err \<Rightarrow> (db, Inl err)
           | Inr target \<Rightarrow> store_deal a expected ''deal.reopen'' (\<lambda>_. [(''status'', JStr (DealStatus_value target))])
               (\<lambda>_. [event_of a ''opportunity.updated'' i [(''reopened'', JBool True)]])
               (r\<lparr>dl_status := DealStatus_value target, dl_closed_at := None, dl_loss_reason := None\<rparr>) db))"

section \<open>Board totals\<close>

definition weighted_pipeline_value :: "Deal list \<Rightarrow> int" where
  "weighted_pipeline_value deals =
     sum_list (map (\<lambda>d. dl_amount d * dl_probability d div 100) (filter (\<lambda>d. DealStatus_of (dl_status d) = Some OPEN) deals))"

definition open_value :: "Deal list \<Rightarrow> int" where
  "open_value deals = sum_list (map dl_amount (filter (\<lambda>d. dl_status d = ''open'') deals))"

end
