(* ===== verification/Workflow_Actions.thy ===== *)
theory Workflow_Actions
  imports Workflow_Triggers Permissions Py_Uuid
begin

text \<open>
  \<^verbatim>\<open>application/workflows/actions.py\<close>: how a workflow action is authorised, routed to a service and applied once. Every
  mutation writes its audit row in the transaction of the change; the row carries a correlation derived from the execution and
  the node, so it is the receipt that a repetition finds. The advisory lock held over lookup and application makes a dispatch
  one step. The services that actions call are an argument of the model (\<open>ae_perform\<close>): the state they share, the audit rows
  they commit and what they return; in-app notifications, webhook calls and analytics events are modelled here. So is the
  parser of ISO timestamps, an argument. A list of pairs where a dictionary is expected, which \<^verbatim>\<open>dict()\<close> would accept, is refused, and
  an empty tag is refused before the contact is looked up.
\<close>

section \<open>Principal\<close>

record user_row =
  wu_id :: string
  wu_tenant :: string
  wu_status :: string
  wu_deleted_at :: "instant option"
  wu_email :: string
  wu_name :: string
  wu_branch :: "string option"

record tenant_row =
  tn_id :: string
  tn_slug :: string
  tn_status :: string
  tn_plan :: PlanCode

record role_row =
  ro_id :: string
  ro_name :: string
  ro_scope :: string

record AutomationPrincipal =
  pr_user :: string
  pr_tenant :: string
  pr_slug :: string
  pr_email :: string
  pr_name :: string
  pr_roles :: "string list"
  pr_permissions :: "string list"
  pr_scope :: Scope
  pr_plan :: PlanCode
  pr_branches :: "string list"
  pr_teams :: "string list"

record audit_row =
  al_tenant :: string
  al_actor :: string
  al_action :: string
  al_outcome :: string
  al_resource :: "string option"
  al_correlation :: string

record notification_row =
  no_id :: string
  no_tenant :: string
  no_user :: string
  no_type :: string
  no_title :: string
  no_body :: string
  no_severity :: string
  no_actionable :: bool
  no_key :: string

record 'c act_db =
  ad_workflows :: "definition_row list"
  ad_users :: "user_row list"
  ad_tenants :: "tenant_row list"
  ad_roles :: "role_row list"
  ad_user_roles :: "(string \<times> string) list"
  ad_role_permissions :: "(string \<times> string) list"
  ad_team_members :: "(string \<times> string) list"
  ad_configs :: "webhook_config list"
  ad_notifications :: "notification_row list"
  ad_deliveries :: "webhook_delivery list"
  ad_outbox :: "outbox_event list"
  ad_audit :: "audit_row list"
  ad_crm :: 'c

datatype act_error =
    Workflow_missing
  | Not_allowed string
  | Bad_scope string
  | Terminal string
  | Bad_input string
  | Act_crash py_exc
  | No_receipt
  | Service_error string

definition scope_of :: "string \<Rightarrow> Scope option" where
  "scope_of v = map_of [(''global'', GLOBAL), (''branch'', BRANCH), (''team'', TEAM), (''self'', SELF)] v"

text \<open>\<^verbatim>\<open>max(scopes, key=scope_order)\<close>, self scope without roles.\<close>

fun widest :: "Scope list \<Rightarrow> Scope" where
  "widest [] = SELF"
| "widest (s # ss) = (let t = widest ss in if ss = [] \<or> scope_rank t \<le> scope_rank s then s else t)"

definition roles_of :: "string \<Rightarrow> 'c act_db \<Rightarrow> role_row list" where
  "roles_of user db = filter (\<lambda>r. (user, ro_id r) \<in> set (ad_user_roles db)) (ad_roles db)"

definition grants_of :: "string \<Rightarrow> 'c act_db \<Rightarrow> string list" where
  "grants_of user db = map snd (filter (\<lambda>g. (user, fst g) \<in> set (ad_user_roles db)) (ad_role_permissions db))"

definition principal_of :: "user_row \<Rightarrow> tenant_row \<Rightarrow> Scope list \<Rightarrow> 'c act_db \<Rightarrow> AutomationPrincipal" where
  "principal_of u t scopes db =
     \<lparr>pr_user = wu_id u, pr_tenant = tn_id t, pr_slug = tn_slug t, pr_email = wu_email u, pr_name = wu_name u,
      pr_roles = map ro_name (roles_of (wu_id u) db), pr_permissions = grants_of (wu_id u) db, pr_scope = widest scopes,
      pr_plan = tn_plan t, pr_branches = (case wu_branch u of None \<Rightarrow> [] | Some b \<Rightarrow> [b]),
      pr_teams = map snd (filter (\<lambda>m. fst m = wu_id u) (ad_team_members db))\<rparr>"

definition load_automation_principal :: "string \<Rightarrow> string \<Rightarrow> 'c act_db \<Rightarrow> (act_error, AutomationPrincipal) res" where
  "load_automation_principal tenant workflow db =
     (case List.find (\<lambda>w. wd_id w = workflow \<and> wd_tenant w = tenant \<and> wd_deleted_at w = None) (ad_workflows db) of
        None \<Rightarrow> Inl Workflow_missing
      | Some w \<Rightarrow>
          if \<not> wd_is_active w \<or> wd_kill_switch w then Inl (Not_allowed ''inactive'')
          else case (case wd_updated_by w of Some u \<Rightarrow> Some u | None \<Rightarrow> wd_created_by w) of
            None \<Rightarrow> Inl (Not_allowed ''no publisher'')
          | Some actor_id \<Rightarrow>
              (case List.find (\<lambda>u. wu_id u = actor_id \<and> wu_tenant u = tenant) (ad_users db) of
                 None \<Rightarrow> Inl (Not_allowed ''publisher'')
               | Some u \<Rightarrow>
                   if wu_status u \<noteq> ''active'' \<or> wu_deleted_at u \<noteq> None then Inl (Not_allowed ''publisher'')
                   else case row_at tn_id tenant (ad_tenants db) of
                     None \<Rightarrow> Inl (Not_allowed ''tenant'')
                   | Some t \<Rightarrow>
                       if tn_status t \<notin> {''trial'', ''active''} then Inl (Not_allowed ''tenant'')
                       else rbind (rmap (\<lambda>r. case scope_of (ro_scope r) of None \<Rightarrow> Inl (Bad_scope (ro_scope r)) | Some s \<Rightarrow> Inr s)
                               (roles_of actor_id db)) (\<lambda>scopes. Inr (principal_of u t scopes db))))"

section \<open>Catalogues\<close>

definition AUDIT_ACTIONS :: "(string, string list) adict" where
  "AUDIT_ACTIONS =
     [(''lead.create'', [''lead.create'']), (''lead.update'', [''lead.update'']), (''lead.assign'', [''lead.update'']),
      (''contact.create'', [''contact.create'']), (''contact.update'', [''contact.update'']),
      (''deal.create'', [''deal.create'']), (''deal.update'', [''deal.update'']), (''deal.move_stage'', [''deal.stage_change'']),
      (''task.create'', [''task.create'']), (''tag.add'', [''contact.update'']), (''tag.remove'', [''contact.update'']),
      (''note.create'', [''note.create'']), (''activity.create'', [''activity.log'']),
      (''message.send_whatsapp'', [''message.queue'']), (''message.send_email'', [''message.queue'']),
      (''message.send_sms'', [''message.queue'']), (''notification.in_app'', [''notification.create'']),
      (''appointment.create'', [''appointment.book'']), (''appointment.cancel'', [''appointment.cancel'']),
      (''document.generate'', [''document.create'']), (''webhook.call'', [''webhook.call'']), (''ai.task'', [''ai.task'']),
      (''analytics.emit'', [''analytics.emit''])]"

definition ACTION_FEATURES :: "(string, Feature) adict" where
  "ACTION_FEATURES =
     [(''message.send_whatsapp'', WHATSAPP), (''message.send_email'', EMAIL), (''message.send_sms'', SMS),
      (''appointment.create'', APPOINTMENTS), (''appointment.cancel'', APPOINTMENTS), (''document.generate'', DOCUMENTS),
      (''document.send'', SIGNATURES), (''payment.create_link'', PAYMENTS), (''payment.refund'', PAYMENTS),
      (''webhook.call'', OUTBOUND_WEBHOOKS), (''ai.task'', AI_QUALIFICATION)]"

text \<open>\<^verbatim>\<open>key.rsplit(":", 1)[0]\<close>.\<close>

definition rsplit_head :: "char \<Rightarrow> string \<Rightarrow> string" where
  "rsplit_head c s = (if c \<in> set s then rev (tl (dropWhile (\<lambda>x. x \<noteq> c) (rev s))) else s)"

definition action_correlation :: "(string \<Rightarrow> string) \<Rightarrow> string \<Rightarrow> string" where
  "action_correlation sha256_hex idempotency_key = ''wfa:'' @ sha256_hex (rsplit_head (CHR '':'') idempotency_key)"

section \<open>Inputs\<close>

definition UUID_KEYS :: "string list" where
  "UUID_KEYS = [''account_id'', ''appointment_id'', ''assignee_id'', ''config_id'', ''contact_id'', ''conversation_id'', ''deal_id'',
     ''entity_id'', ''file_id'', ''lead_id'', ''organizer_id'', ''payment_id'', ''target_stage_id'', ''task_id'', ''user_id'']"

definition DATETIME_KEYS :: "string list" where "DATETIME_KEYS = [''due_at'', ''end_at'', ''start_at'']"

text \<open>A leaf: identifiers become UUIDs (kept as canonical text), timestamps instants; \<open>parse_iso\<close> tells whether a zone was given.\<close>

definition convert_leaf :: "(string \<Rightarrow> (bool \<times> instant) option) \<Rightarrow> string option \<Rightarrow> json \<Rightarrow> (act_error, json) res" where
  "convert_leaf parse_iso key node =
     (case key of
        None \<Rightarrow> Inr node
      | Some k \<Rightarrow>
          if k \<in> set UUID_KEYS \<and> node \<noteq> JNull
          then (case uuid_of (py_str node) of None \<Rightarrow> Inl (Act_crash ValueError) | Some u \<Rightarrow> Inr (JStr u))
          else if k \<in> set DATETIME_KEYS then
            (case node of
               JStr text \<Rightarrow> (case parse_iso (py_replace ''Z'' ''+00:00'' text) of
                 None \<Rightarrow> Inl (Act_crash ValueError)
               | Some (aware, t) \<Rightarrow> if aware then Inr (JInt t) else Inl (Bad_input k))
             | _ \<Rightarrow> Inr node)
          else Inr node)"

fun convert_node :: "(string \<Rightarrow> (bool \<times> instant) option) \<Rightarrow> string option \<Rightarrow> json \<Rightarrow> (act_error, json) res"
and convert_dict :: "(string \<Rightarrow> (bool \<times> instant) option) \<Rightarrow> jdict \<Rightarrow> (act_error, jdict) res"
and convert_list :: "(string \<Rightarrow> (bool \<times> instant) option) \<Rightarrow> json list \<Rightarrow> (act_error, json list) res" where
  "convert_node parse_iso key (JDict d) = rbind (convert_dict parse_iso d) (\<lambda>d'. Inr (JDict d'))"
| "convert_node parse_iso key (JList xs) = rbind (convert_list parse_iso xs) (\<lambda>ys. Inr (JList ys))"
| "convert_node parse_iso key JNull = convert_leaf parse_iso key JNull"
| "convert_node parse_iso key (JBool b) = convert_leaf parse_iso key (JBool b)"
| "convert_node parse_iso key (JInt i) = convert_leaf parse_iso key (JInt i)"
| "convert_node parse_iso key (JFloat m k) = convert_leaf parse_iso key (JFloat m k)"
| "convert_node parse_iso key (JStr s) = convert_leaf parse_iso key (JStr s)"
| "convert_dict parse_iso [] = Inr []"
| "convert_dict parse_iso ((k, v) # d) = rbind (convert_node parse_iso (Some k) v) (\<lambda>v'. rbind (convert_dict parse_iso d) (\<lambda>d'. Inr ((k, v') # d')))"
| "convert_list parse_iso [] = Inr []"
| "convert_list parse_iso (x # xs) = rbind (convert_node parse_iso None x) (\<lambda>y. rbind (convert_list parse_iso xs) (\<lambda>ys. Inr (y # ys)))"

definition as_uuid :: "json \<Rightarrow> (act_error, string) res" where
  "as_uuid v = (case uuid_of (py_str v) of None \<Rightarrow> Inl (Act_crash ValueError) | Some u \<Rightarrow> Inr u)"

definition target_id :: "jdict \<Rightarrow> jdict \<Rightarrow> string \<Rightarrow> (act_error, string) res" where
  "target_id payload entity key =
     (let v = por (por (dget key payload) (dget ''entity_id'' payload)) (dget ''id'' entity)
      in if v = JNull then Inl (Bad_input key) else as_uuid v)"

definition required_uuid :: "jdict \<Rightarrow> string \<Rightarrow> (act_error, string) res" where
  "required_uuid payload key = (if dget key payload = JNull then Inl (Bad_input key) else as_uuid (dget key payload))"

definition changes_of :: "jdict \<Rightarrow> string \<Rightarrow> jdict" where
  "changes_of payload identity_key =
     (case dget ''changes'' payload of
        JDict d \<Rightarrow> d
      | _ \<Rightarrow> filter (\<lambda>e. fst e \<notin> {identity_key, ''entity_id'', ''expected_version'', ''payload''}) payload)"

section \<open>Routing\<close>

datatype service_call =
    Lead_capture jdict
  | Lead_update string jdict json
  | Contact_create jdict
  | Contact_update string jdict json
  | Deal_create jdict
  | Deal_move_stage string string json json
  | Deal_update string jdict json
  | Task_create jdict
  | Tag_change bool string string
  | Note_add string string jdict
  | Activity_log string string jdict
  | Message_send string jdict
  | Appointment_book jdict
  | Appointment_cancel string json json
  | Document_create jdict
  | Ai_task string string jdict

datatype route = To_service service_call | To_notification | To_webhook | To_analytics

definition dict_of :: "json \<Rightarrow> (act_error, jdict) res" where
  "dict_of v = (case v of JDict d \<Rightarrow> Inr d | _ \<Rightarrow> Inl (Act_crash TypeError))"

definition route_lead :: "string \<Rightarrow> jdict \<Rightarrow> jdict \<Rightarrow> (act_error, service_call) res" where
  "route_lead action payload entity =
     (if action = ''lead.create'' then Inr (Lead_capture payload)
      else rbind (target_id payload entity ''lead_id'') (\<lambda>i.
        if action = ''lead.assign'' then rbind (required_uuid payload ''assignee_id'') (\<lambda>u.
          Inr (Lead_update i [(''assignee_id'', JStr u)] (dget ''expected_version'' payload)))
        else Inr (Lead_update i (changes_of payload ''lead_id'') (dget ''expected_version'' payload))))"

definition route_contact :: "string \<Rightarrow> jdict \<Rightarrow> jdict \<Rightarrow> (act_error, service_call) res" where
  "route_contact action payload entity =
     (if action = ''contact.create'' then Inr (Contact_create payload)
      else rbind (target_id payload entity ''contact_id'') (\<lambda>i.
        Inr (Contact_update i (changes_of payload ''contact_id'') (dget ''expected_version'' payload))))"

definition route_deal :: "string \<Rightarrow> jdict \<Rightarrow> jdict \<Rightarrow> (act_error, service_call) res" where
  "route_deal action payload entity =
     (if action = ''deal.create'' then Inr (Deal_create payload)
      else rbind (target_id payload entity ''deal_id'') (\<lambda>i.
        if action = ''deal.move_stage'' then rbind (required_uuid payload ''target_stage_id'') (\<lambda>s.
          Inr (Deal_move_stage i s (dget ''loss_reason'' payload) (dget ''expected_version'' payload)))
        else Inr (Deal_update i (changes_of payload ''deal_id'') (dget ''expected_version'' payload))))"

definition route_tag :: "string \<Rightarrow> jdict \<Rightarrow> jdict \<Rightarrow> (act_error, service_call) res" where
  "route_tag action payload entity =
     rbind (target_id payload entity ''contact_id'') (\<lambda>i.
       let tag = py_strip (if truthy (dget ''tag'' payload) then py_str (dget ''tag'' payload) else []) in
       if tag = [] then Inl (Bad_input ''tag'') else Inr (Tag_change (action = ''tag.add'') i tag))"

definition route_timeline :: "string \<Rightarrow> jdict \<Rightarrow> jdict \<Rightarrow> (act_error, service_call) res" where
  "route_timeline action payload entity =
     (let kind = py_str (por (por (dget ''entity_type'' payload) (dget ''type'' entity)) (JStr ''contact'')) in
      rbind (target_id payload entity ''entity_id'') (\<lambda>i.
        Inr (if action = ''note.create'' then Note_add kind i payload else Activity_log kind i payload)))"

definition route_action :: "string \<Rightarrow> jdict \<Rightarrow> jdict \<Rightarrow> (act_error, route) res" where
  "route_action action payload entity =
     (let service = (\<lambda>r. rbind r (\<lambda>c. Inr (To_service c))) in
      if py_startswith action ''lead.'' then service (route_lead action payload entity)
      else if py_startswith action ''contact.'' then service (route_contact action payload entity)
      else if py_startswith action ''deal.'' then service (route_deal action payload entity)
      else if action = ''task.create'' then Inr (To_service (Task_create payload))
      else if action \<in> {''tag.add'', ''tag.remove''} then service (route_tag action payload entity)
      else if action \<in> {''note.create'', ''activity.create''} then service (route_timeline action payload entity)
      else if py_startswith action ''message.send_'' then service (rbind (target_id payload entity ''conversation_id'') (\<lambda>i.
        Inr (Message_send i (aput ''channel'' (JStr (drop (length ''message.send_'') action)) payload))))
      else if action = ''appointment.create'' then Inr (To_service (Appointment_book payload))
      else if action = ''appointment.cancel'' then service (rbind (target_id payload entity ''appointment_id'') (\<lambda>i.
        Inr (Appointment_cancel i (dget ''reason'' payload) (dget ''expected_version'' payload))))
      else if action = ''document.generate'' then Inr (To_service (Document_create payload))
      else if action = ''notification.in_app'' then Inr To_notification
      else if action = ''webhook.call'' then Inr To_webhook
      else if action = ''ai.task'' then service (rbind (dict_of (por (dget ''options'' payload) (JDict []))) (\<lambda>options.
        Inr (Ai_task (py_str (por (dget ''task'' payload) (JStr ''generate''))) (py_str (por (dget ''text'' payload) (JStr []))) options)))
      else if action = ''analytics.emit'' then Inr To_analytics
      else Inl (Terminal action))"

section \<open>Effects of the module itself\<close>

record 'c action_env =
  ae_sha :: "string \<Rightarrow> string"
  ae_iso :: "string \<Rightarrow> (bool \<times> instant) option"
  ae_flag :: "string \<Rightarrow> bool"
  ae_whatsapp :: bool
  ae_email :: bool
  ae_perform :: "service_call \<Rightarrow> AutomationPrincipal \<Rightarrow> 'c \<Rightarrow> 'c \<times> (string \<times> string \<times> string option) list \<times> (act_error, jdict) res"

text \<open>\<^verbatim>\<open>AuditRecorder.record\<close> under the context that \<^verbatim>\<open>_execute_once\<close> binds.\<close>

definition receipt_row :: "AutomationPrincipal \<Rightarrow> string \<Rightarrow> string \<times> string \<times> string option \<Rightarrow> audit_row" where
  "receipt_row p correlation e = (case e of (action, outcome, resource) \<Rightarrow>
     \<lparr>al_tenant = pr_tenant p, al_actor = pr_user p, al_action = action, al_outcome = outcome, al_resource = resource,
      al_correlation = correlation\<rparr>)"

definition add_audits :: "AutomationPrincipal \<Rightarrow> string \<Rightarrow> (string \<times> string \<times> string option) list \<Rightarrow> 'c act_db \<Rightarrow> 'c act_db" where
  "add_audits p correlation es db = db\<lparr>ad_audit := ad_audit db @ map (receipt_row p correlation) es\<rparr>"

definition text_or :: "json \<Rightarrow> string \<Rightarrow> string" where
  "text_or v d = (if truthy v then py_str v else d)"

definition new_notification :: "jdict \<Rightarrow> AutomationPrincipal \<Rightarrow> string \<Rightarrow> string \<Rightarrow> string \<Rightarrow> string \<Rightarrow> notification_row" where
  "new_notification payload p correlation fresh user title =
     \<lparr>no_id = fresh, no_tenant = pr_tenant p, no_user = user, no_type = text_or (dget ''notification_type'' payload) ''workflow'',
      no_title = take 250 title, no_body = take 1000 (text_or (dget ''body'' payload) []),
      no_severity = text_or (dget ''severity'' payload) ''info'', no_actionable = truthy (dget ''action_url'' payload), no_key = correlation\<rparr>"

definition notification_slot :: "notification_row \<Rightarrow> string \<times> string" where
  "notification_slot n = (no_user n, no_key n)"

definition create_notification :: "jdict \<Rightarrow> AutomationPrincipal \<Rightarrow> string \<Rightarrow> string \<Rightarrow> 'c act_db \<Rightarrow> 'c act_db \<times> (act_error, jdict) res" where
  "create_notification payload p correlation fresh db =
     (let title = py_strip (text_or (dget ''title'' payload) []); user = text_or (dget ''user_id'' payload) (pr_user p) in
      if title = [] then (db, Inl (Bad_input ''title''))
      else if \<not> list_ex (\<lambda>u. wu_id u = user \<and> wu_tenant u = pr_tenant p \<and> wu_status u = ''active'' \<and> wu_deleted_at u = None) (ad_users db)
      then (db, Inl (Bad_input ''user_id''))
      else
        let n = new_notification payload p correlation fresh user title;
            answer = (\<lambda>i. [(''id'', JStr i), (''status'', JStr ''created'')]) in
        if row_at notification_slot (notification_slot n) (ad_notifications db) \<noteq> None then (db, Inr (answer fresh))
        else (add_audits p correlation [(''notification.create'', ''success'', Some fresh)]
                (db\<lparr>ad_notifications := ad_notifications db @ [n]\<rparr>), Inr (answer fresh)))"

definition action_delivery :: "instant \<Rightarrow> jdict \<Rightarrow> ExecutionContext \<Rightarrow> AutomationPrincipal \<Rightarrow> string \<Rightarrow> string \<Rightarrow> string \<Rightarrow> webhook_delivery" where
  "action_delivery now body ctx p correlation event config =
     \<lparr>wy_tenant = pr_tenant p, wy_config = config, wy_event = event, wy_event_type = ''workflow.action'', wy_key = correlation,
      wy_payload = [(''event_id'', JStr event), (''event_type'', JStr ''workflow.action''), (''tenant_id'', JStr (pr_tenant p)),
        (''data'', JDict body), (''workflow'', JDict [(''id'', JStr (ctx_workflow_id ctx)), (''execution_id'', JStr (ctx_execution_id ctx))])],
      wy_status = ''pending'', wy_attempts = 0, wy_next_attempt = Some now\<rparr>"

definition queue_webhook :: "instant \<Rightarrow> jdict \<Rightarrow> ExecutionContext \<Rightarrow> AutomationPrincipal \<Rightarrow> string \<Rightarrow> string \<Rightarrow> string \<Rightarrow> 'c act_db
    \<Rightarrow> 'c act_db \<times> (act_error, jdict) res" where
  "queue_webhook now payload ctx p correlation fresh event db =
     (case required_uuid payload ''config_id'' of
        Inl err \<Rightarrow> (db, Inl err)
      | Inr config_id \<Rightarrow>
          if \<not> list_ex (\<lambda>c. wc_id c = config_id \<and> wc_tenant c = pr_tenant p \<and> wc_is_active c \<and> wc_disabled_at c = None) (ad_configs db)
          then (db, Inl (Bad_input ''config_id''))
          else (case dict_of (por (dget ''body'' payload) (JDict [])) of
             Inl err \<Rightarrow> (db, Inl err)
           | Inr body \<Rightarrow>
               let d = action_delivery now body ctx p correlation event config_id;
                   answer = [(''id'', JStr fresh), (''status'', JStr ''pending''), (''delivered'', JBool False)] in
               if row_at delivery_slot (delivery_slot d) (ad_deliveries db) \<noteq> None then (db, Inr answer)
               else (add_audits p correlation [(''webhook.call'', ''success'', Some fresh)] (db\<lparr>ad_deliveries := ad_deliveries db @ [d]\<rparr>),
                     Inr answer)))"

definition analytics_event :: "jdict \<Rightarrow> ExecutionContext \<Rightarrow> AutomationPrincipal \<Rightarrow> string \<Rightarrow> string \<Rightarrow> string \<Rightarrow> DomainEvent" where
  "analytics_event payload ctx p correlation event timestamp =
     \<lparr>ev_type = ''analytics.event_emitted'', ev_tenant = pr_tenant p, ev_resource_type = text_or (dget ''entity_type'' payload) ''workflow_execution'',
      ev_resource_id = text_or (dget ''entity_id'' payload) (ctx_execution_id ctx),
      ev_payload = [(''name'', JStr (text_or (dget ''name'' payload) ''workflow.event'')), (''properties'', dget_or ''properties'' (JDict []) payload)],
      ev_actor_id = Some (pr_user p), ev_actor_type = ''workflow'', ev_correlation = Some correlation, ev_id = event,
      ev_timestamp = timestamp, ev_schema_version = ''1.0''\<rparr>"

definition emit_analytics :: "instant \<Rightarrow> string \<Rightarrow> jdict \<Rightarrow> ExecutionContext \<Rightarrow> AutomationPrincipal \<Rightarrow> string \<Rightarrow> string \<Rightarrow> 'c act_db
    \<Rightarrow> 'c act_db \<times> (act_error, jdict) res" where
  "emit_analytics now timestamp payload ctx p correlation event db =
     (let e = analytics_event payload ctx p correlation event timestamp in
      (add_audits p correlation [(''analytics.emit'', ''success'', Some (ev_resource_id e))]
         (db\<lparr>ad_outbox := ad_outbox db @ [\<lparr>oe_id = event, oe_occurred = now, oe_type = ev_type e, oe_payload = JDict (to_outbox_payload e),
            oe_processed = None, oe_attempts = 0, oe_error = None, oe_available = None\<rparr>]\<rparr>),
       Inr [(''event_id'', JStr event), (''accepted'', JBool True)]))"

section \<open>Dispatch\<close>

text \<open>One attempt: its clock and the identifiers it draws.\<close>

record attempt =
  at_now :: instant
  at_timestamp :: string
  at_fresh :: string
  at_event :: string

definition apply_action :: "'c action_env \<Rightarrow> attempt \<Rightarrow> string \<Rightarrow> jdict \<Rightarrow> ExecutionContext \<Rightarrow> AutomationPrincipal \<Rightarrow> string \<Rightarrow> 'c act_db
    \<Rightarrow> 'c act_db \<times> (act_error, jdict) res" where
  "apply_action env t action inputs ctx p correlation db =
     (case dict_of (por (dget ''payload'' inputs) (JDict inputs)) of
        Inl err \<Rightarrow> (db, Inl err)
      | Inr payload \<Rightarrow>
          (case route_action action payload (ctx_entity ctx) of
             Inl err \<Rightarrow> (db, Inl err)
           | Inr To_notification \<Rightarrow> create_notification payload p correlation (at_fresh t) db
           | Inr To_webhook \<Rightarrow> queue_webhook (at_now t) payload ctx p correlation (at_fresh t) (at_event t) db
           | Inr To_analytics \<Rightarrow> emit_analytics (at_now t) (at_timestamp t) payload ctx p correlation (at_event t) db
           | Inr (To_service c) \<Rightarrow>
               (case ae_perform env c p (ad_crm db) of
                  (crm, audits, result) \<Rightarrow> (add_audits p correlation audits (db\<lparr>ad_crm := crm\<rparr>), result))))"

definition receipt :: "string \<Rightarrow> string \<Rightarrow> string list \<Rightarrow> 'c act_db \<Rightarrow> audit_row option" where
  "receipt tenant correlation expected db =
     List.find (\<lambda>r. al_tenant r = tenant \<and> al_correlation r = correlation \<and> al_action r \<in> set expected \<and> al_outcome r = ''success'')
       (rev (ad_audit db))"

definition execute_once :: "'c action_env \<Rightarrow> attempt \<Rightarrow> string \<Rightarrow> jdict \<Rightarrow> ExecutionContext \<Rightarrow> AutomationPrincipal \<Rightarrow> string \<Rightarrow> string list
    \<Rightarrow> 'c act_db \<Rightarrow> 'c act_db \<times> (act_error, jdict) res" where
  "execute_once env t action inputs ctx p correlation expected db =
     (case receipt (pr_tenant p) correlation expected db of
        Some r \<Rightarrow> (db, Inr [(''action'', JStr action), (''applied'', JBool True), (''duplicate'', JBool True), (''resource_id'', opt_str (al_resource r))])
      | None \<Rightarrow>
          (case apply_action env t action inputs ctx p correlation db of
             (db', Inl err) \<Rightarrow> (db', Inl err)
           | (db', Inr result) \<Rightarrow>
               if receipt (pr_tenant p) correlation expected db' = None then (db', Inl No_receipt)
               else (db', Inr [(''action'', JStr action), (''applied'', JBool True), (''duplicate'', JBool False), (''result'', JDict result)])))"

definition feature_open :: "'c action_env \<Rightarrow> ActionSpec \<Rightarrow> PlanCode \<Rightarrow> bool" where
  "feature_open env spec plan =
     (let flag = (case spec_feature_flag spec of None \<Rightarrow> True | Some f \<Rightarrow> ae_flag env f) in
      (case map_of ACTION_FEATURES (spec_key spec) of None \<Rightarrow> True | Some f \<Rightarrow> ed_allowed (check_feature plan f flag None)) \<and> flag)"

definition provider_ready :: "'c action_env \<Rightarrow> string \<Rightarrow> bool" where
  "provider_ready env action =
     (if action = ''message.send_whatsapp'' then ae_whatsapp env
      else if action = ''message.send_email'' then ae_email env
      else action \<noteq> ''message.send_sms'')"

definition dispatch_action :: "'c action_env \<Rightarrow> attempt \<Rightarrow> string \<Rightarrow> jdict \<Rightarrow> ExecutionContext \<Rightarrow> string \<Rightarrow> 'c act_db
    \<Rightarrow> 'c act_db \<times> (act_error, jdict) res" where
  "dispatch_action env t action inputs ctx idempotency_key db =
     (case action_spec action of
        None \<Rightarrow> (db, Inl (Terminal action))
      | Some spec \<Rightarrow>
          (case load_automation_principal (ctx_tenant_id ctx) (ctx_workflow_id ctx) db of
             Inl err \<Rightarrow> (db, Inl err)
           | Inr p \<Rightarrow>
               if spec_permission spec \<notin> set (pr_permissions p) then (db, Inl (Terminal ''permission''))
               else if \<not> feature_open env spec (pr_plan p) then (db, Inl (Terminal ''disabled''))
               else if \<not> provider_ready env action then (db, Inl (Terminal ''not configured''))
               else case map_of AUDIT_ACTIONS action of
                 None \<Rightarrow> (db, Inl (Terminal ''unavailable''))
               | Some expected \<Rightarrow>
                   (case convert_dict (ae_iso env) inputs of
                      Inl err \<Rightarrow> (db, Inl err)
                    | Inr converted \<Rightarrow>
                        execute_once env t action converted ctx p (action_correlation (ae_sha env) idempotency_key) expected db)))"

end
