(* ===== verification/Workflow_Actions_Safety.thy ===== *)
theory Workflow_Actions_Safety
  imports Workflow_Actions Lead_Service
begin

text \<open>
  The lead actions and the actions of the module itself are applied at most once, however often their node is attempted, their
  task redelivered and their worker restarted. What this needs of a service is the contract \<open>audited_services\<close>: a change
  commits with a successful audit row of a kind the dispatcher expects. The services of the lead component keep it; a WhatsApp
  message that is sent at once does not, so nothing is claimed of the other services.
\<close>

section \<open>What services promise\<close>

fun call_audits :: "service_call \<Rightarrow> string list" where
  "call_audits (Lead_capture _) = [''lead.create'']"
| "call_audits (Lead_update _ _ _) = [''lead.update'']"
| "call_audits (Contact_create _) = [''contact.create'']"
| "call_audits (Contact_update _ _ _) = [''contact.update'']"
| "call_audits (Deal_create _) = [''deal.create'']"
| "call_audits (Deal_move_stage _ _ _ _) = [''deal.stage_change'']"
| "call_audits (Deal_update _ _ _) = [''deal.update'']"
| "call_audits (Task_create _) = [''task.create'']"
| "call_audits (Tag_change _ _ _) = [''contact.update'']"
| "call_audits (Note_add _ _ _) = [''note.create'']"
| "call_audits (Activity_log _ _ _) = [''activity.log'']"
| "call_audits (Message_send _ _) = [''message.queue'']"
| "call_audits (Appointment_book _) = [''appointment.book'']"
| "call_audits (Appointment_cancel _ _ _) = [''appointment.cancel'']"
| "call_audits (Document_create _) = [''document.create'']"
| "call_audits (Ai_task _ _ _) = [''ai.task'']"

text \<open>The catalogue of expected audit rows agrees with the routing.\<close>

lemma route_lead_audits: "route_lead action payload entity = Inr c \<Longrightarrow> call_audits c = (if action = ''lead.create'' then [''lead.create''] else [''lead.update''])"
  by (auto simp: route_lead_def rbind_eq_Inr split: if_splits)

lemma route_contact_audits: "route_contact action payload entity = Inr c \<Longrightarrow>
    call_audits c = (if action = ''contact.create'' then [''contact.create''] else [''contact.update''])"
  by (auto simp: route_contact_def rbind_eq_Inr split: if_splits)

lemma route_deal_audits: "route_deal action payload entity = Inr c \<Longrightarrow> call_audits c = (if action = ''deal.create'' then [''deal.create'']
    else if action = ''deal.move_stage'' then [''deal.stage_change''] else [''deal.update''])"
  by (auto simp: route_deal_def rbind_eq_Inr split: if_splits)

lemma route_tag_audits: "route_tag action payload entity = Inr c \<Longrightarrow> call_audits c = [''contact.update'']"
  by (auto simp: route_tag_def rbind_eq_Inr Let_def split: if_splits)

lemma route_timeline_audits: "route_timeline action payload entity = Inr c \<Longrightarrow>
    call_audits c = (if action = ''note.create'' then [''note.create''] else [''activity.log''])"
  by (auto simp: route_timeline_def rbind_eq_Inr Let_def)

lemmas route_audits = route_lead_audits route_contact_audits route_deal_audits route_tag_audits route_timeline_audits

lemma audited_actions: "map_of AUDIT_ACTIONS action = Some expected \<Longrightarrow> (action, expected) \<in> set AUDIT_ACTIONS"
  by (rule map_of_SomeD)

lemma route_expected:
  assumes "map_of AUDIT_ACTIONS action = Some expected" and "route_action action payload entity = Inr (To_service c)"
  shows "call_audits c = expected"
proof -
  have "(action, expected) \<in> set AUDIT_ACTIONS" using assms(1) by (rule audited_actions)
  then show ?thesis using assms(2) unfolding AUDIT_ACTIONS_def
    by (simp only: list.set) (elim insertE emptyE; simp add: route_action_def py_startswith_def Let_def rbind_eq_Inr; fastforce dest: route_audits)
qed

section \<open>Receipts\<close>

lemma find_rev_None: "List.find P (rev xs) = None \<longleftrightarrow> (\<forall>x \<in> set xs. \<not> P x)"
  by (auto simp: find_None_iff)

lemma receipt_None: "receipt tenant correlation expected db = None \<longleftrightarrow>
    \<not> (\<exists>r \<in> set (ad_audit db). al_tenant r = tenant \<and> al_correlation r = correlation \<and> al_action r \<in> set expected \<and> al_outcome r = ''success'')"
  unfolding receipt_def find_rev_None by blast

lemma receipt_persists:
  assumes "receipt tenant correlation expected db \<noteq> None" and "set (ad_audit db) \<subseteq> set (ad_audit db')"
  shows "receipt tenant correlation expected db' \<noteq> None"
  using assms by (auto simp: receipt_None)

lemma receipt_added:
  assumes "(a, ''success'', res) \<in> set es" and "a \<in> set expected"
  shows "receipt (pr_tenant p) correlation expected (add_audits p correlation es db) \<noteq> None"
proof -
  have "receipt_row p correlation (a, ''success'', res) \<in> set (ad_audit (add_audits p correlation es db))"
    using assms(1) by (simp add: add_audits_def)
  then show ?thesis unfolding receipt_None not_not
    by (rule bexI[rotated]) (simp add: receipt_row_def assms(2))
qed

text \<open>Everything an action may change besides the audit log.\<close>

definition effects :: "'c act_db \<Rightarrow> 'c \<times> notification_row list \<times> webhook_delivery list \<times> outbox_event list" where
  "effects db = (ad_crm db, ad_notifications db, ad_deliveries db, ad_outbox db)"

lemma effects_add_audits [simp]: "effects (add_audits p correlation es db) = effects db"
  by (simp add: effects_def add_audits_def)

locale audited_services =
  fixes perform :: "service_call \<Rightarrow> AutomationPrincipal \<Rightarrow> 'c \<Rightarrow> 'c \<times> (string \<times> string \<times> string option) list \<times> (act_error, jdict) res"
    and covered :: "service_call \<Rightarrow> bool"
  assumes audited: "covered c \<Longrightarrow> perform c p s = (s', audits, result) \<Longrightarrow> s' \<noteq> s
    \<Longrightarrow> \<exists>a res. (a, ''success'', res) \<in> set audits \<and> a \<in> set (call_audits c)"
begin

lemma service_receipt:
  assumes "ae_perform env = perform" and "map_of AUDIT_ACTIONS action = Some expected"
    and "route_action action payload entity = Inr (To_service c)"
    and "covered c" and "perform c p (ad_crm db) = (crm, audits, result)" and "crm \<noteq> ad_crm db"
  shows "receipt (pr_tenant p) correlation expected (add_audits p correlation audits (db\<lparr>ad_crm := crm\<rparr>)) \<noteq> None"
proof -
  obtain a res where "(a, ''success'', res) \<in> set audits" "a \<in> set (call_audits c)"
    using audited[OF assms(4-6)] by blast
  then show ?thesis using receipt_added route_expected[OF assms(2,3)] by metis
qed

end

text \<open>The three actions applied by the module itself.\<close>

lemma own_route:
  assumes "map_of AUDIT_ACTIONS action = Some expected" and "route_action action payload entity = Inr r"
  shows "r = To_notification \<Longrightarrow> expected = [''notification.create'']" "r = To_webhook \<Longrightarrow> expected = [''webhook.call'']"
    "r = To_analytics \<Longrightarrow> expected = [''analytics.emit'']"
proof -
  have "(r = To_notification \<longrightarrow> action = ''notification.in_app'') \<and> (r = To_webhook \<longrightarrow> action = ''webhook.call'')
      \<and> (r = To_analytics \<longrightarrow> action = ''analytics.emit'')"
    using assms(2) unfolding route_action_def Let_def
    by (simp only: split: if_splits) (auto simp: rbind_eq_Inr)
  then show "r = To_notification \<Longrightarrow> expected = [''notification.create'']" "r = To_webhook \<Longrightarrow> expected = [''webhook.call'']"
    "r = To_analytics \<Longrightarrow> expected = [''analytics.emit'']"
    using assms(1) by (simp_all add: AUDIT_ACTIONS_def)
qed

lemma written_receipt:
  assumes "db' = db \<or> (\<exists>db0. db' = add_audits p correlation [(a, ''success'', res)] db0)" and "effects db' \<noteq> effects db"
  shows "receipt (pr_tenant p) correlation [a] db' \<noteq> None"
  using assms receipt_added[of a res "[(a, ''success'', res)]" "[a]" p correlation] by auto

lemma notification_receipt:
  assumes "create_notification payload p correlation fresh db = (db', r)" and "effects db' \<noteq> effects db"
  shows "receipt (pr_tenant p) correlation [''notification.create''] db' \<noteq> None"
proof (rule written_receipt[OF _ assms(2)])
  show "db' = db \<or> (\<exists>db0. db' = add_audits p correlation [(''notification.create'', ''success'', Some fresh)] db0)"
    using assms(1) unfolding create_notification_def Let_def by (simp only: split: if_splits) auto
qed

lemma webhook_receipt:
  assumes "queue_webhook now payload ctx p correlation fresh event db = (db', r)" and "effects db' \<noteq> effects db"
  shows "receipt (pr_tenant p) correlation [''webhook.call''] db' \<noteq> None"
proof (rule written_receipt[OF _ assms(2)])
  show "db' = db \<or> (\<exists>db0. db' = add_audits p correlation [(''webhook.call'', ''success'', Some fresh)] db0)"
    using assms(1) unfolding queue_webhook_def Let_def by (simp only: split: if_splits sum.splits) auto
qed

lemma analytics_receipt:
  assumes "emit_analytics now ts payload ctx p correlation event db = (db', r)"
  shows "receipt (pr_tenant p) correlation [''analytics.emit''] db' \<noteq> None"
  using assms unfolding emit_analytics_def Let_def by (elim Pair_inject, hypsubst) (rule receipt_added, auto)

context audited_services
begin

lemma applied_receipt:
  assumes "ae_perform env = perform" and "map_of AUDIT_ACTIONS action = Some expected"
    and covers: "\<forall>payload entity c. route_action action payload entity = Inr (To_service c) \<longrightarrow> covered c"
    and "apply_action env t action inputs ctx p correlation db = (db', r)" and "effects db' \<noteq> effects db"
  shows "receipt (pr_tenant p) correlation expected db' \<noteq> None"
proof -
  obtain payload where payload: "dict_of (por (dget ''payload'' inputs) (JDict inputs)) = Inr payload"
    using assms(4,5) by (auto simp: apply_action_def split: sum.splits)
  obtain w where w: "route_action action payload (ctx_entity ctx) = Inr w"
    using assms(4,5) payload by (auto simp: apply_action_def split: sum.splits)
  note applied = assms(4)[unfolded apply_action_def payload w sum.case]
  note own = own_route[OF assms(2) w]
  show ?thesis
  proof (cases w)
    case (To_service c)
    obtain crm audits result where c: "perform c p (ad_crm db) = (crm, audits, result)" by (rule prod_cases3)
    then have "db' = add_audits p correlation audits (db\<lparr>ad_crm := crm\<rparr>)" using applied assms(1) To_service by simp
    moreover from this have "crm \<noteq> ad_crm db" using assms(5) by (intro notI) (simp add: effects_add_audits)
    ultimately show ?thesis using service_receipt[OF assms(1,2) w[unfolded To_service] covers[rule_format, OF w[unfolded To_service]] c] by simp
  next
    case To_notification
    then show ?thesis using applied own(1) notification_receipt assms(5) by simp
  next
    case To_webhook
    then show ?thesis using applied own(2) webhook_receipt assms(5) by simp
  next
    case To_analytics
    then show ?thesis using applied own(3) analytics_receipt by simp
  qed
qed

lemma executed_receipt:
  assumes "ae_perform env = perform" and "map_of AUDIT_ACTIONS action = Some expected"
    and covers: "\<forall>payload entity c. route_action action payload entity = Inr (To_service c) \<longrightarrow> covered c"
    and "execute_once env t action inputs ctx p correlation expected db = (db', r)"
    and "effects db' \<noteq> effects db \<or> \<not> isl r"
  shows "receipt (pr_tenant p) correlation expected db' \<noteq> None"
proof (cases "receipt (pr_tenant p) correlation expected db")
  case (Some x)
  then show ?thesis using assms(4) by (auto simp: execute_once_def)
next
  case None
  obtain db'' r'' where a: "apply_action env t action inputs ctx p correlation db = (db'', r'')" by fastforce
  then have "db'' = db'" using assms(4) None by (auto simp: execute_once_def split: sum.splits if_splits)
  then show ?thesis using applied_receipt[OF assms(1,2) covers a] assms(4,5) None a
    by (auto simp: execute_once_def split: sum.splits if_splits)
qed

end

section \<open>Correlation\<close>

lemma dropWhile_not_in: "x \<notin> set xs \<Longrightarrow> dropWhile (\<lambda>y. y \<noteq> x) (xs @ x # ys) = x # ys"
  by (induction xs) auto

lemma rsplit_head_append:
  assumes "c \<notin> set t"
  shows "rsplit_head c (s @ c # t) = s"
  using assms dropWhile_not_in[of c "rev t" "rev s"] by (simp add: rsplit_head_def)

lemma colon_not_in_show_int: "CHR '':'' \<notin> set (show_int i)"
proof -
  have "CHR '':'' \<notin> set (show_nat n)" for n
    using show_nat_dec[of n] by (auto simp: list_all_iff is_dec_def code_def)
  then show ?thesis by (simp add: show_int_def)
qed

lemma rsplit_action_key: "rsplit_head (CHR '':'') (action_idempotency_key e n a) = e @ '':'' @ n"
  using rsplit_head_append[OF colon_not_in_show_int, of "e @ '':'' @ n" a] by (simp add: action_idempotency_key_def)

lemma correlation_of_attempts: "action_correlation sha (action_idempotency_key e n a) = ''wfa:'' @ sha (e @ '':'' @ n)"
  by (simp add: action_correlation_def rsplit_action_key)

section \<open>Dispatch\<close>

lemma principal_tenant:
  assumes "load_automation_principal tenant workflow db = Inr p"
  shows "pr_tenant p = tenant"
proof -
  obtain u t scopes where "p = principal_of u t scopes db" "row_at tn_id tenant (ad_tenants db) = Some t"
    using assms by (auto simp: load_automation_principal_def rbind_eq_Inr split: option.splits if_splits)
  then show ?thesis by (auto simp: principal_of_def row_at_def find_Some_iff)
qed

lemma principal_sources:
  assumes "load_automation_principal tenant workflow db = Inr p"
  shows "\<exists>w u tn. w \<in> set (ad_workflows db) \<and> wd_id w = workflow \<and> wd_tenant w = tenant \<and> wd_deleted_at w = None
    \<and> wd_is_active w \<and> \<not> wd_kill_switch w \<and> u \<in> set (ad_users db) \<and> wu_tenant u = tenant \<and> wu_status u = ''active'' \<and> wu_deleted_at u = None
    \<and> (wd_updated_by w = Some (wu_id u) \<or> wd_updated_by w = None \<and> wd_created_by w = Some (wu_id u))
    \<and> tn \<in> set (ad_tenants db) \<and> tn_id tn = tenant \<and> tn_status tn \<in> {''trial'', ''active''}
    \<and> pr_permissions p = grants_of (wu_id u) db \<and> pr_plan p = tn_plan tn"
proof -
  obtain w where w: "List.find (\<lambda>w. wd_id w = workflow \<and> wd_tenant w = tenant \<and> wd_deleted_at w = None) (ad_workflows db) = Some w"
      "wd_is_active w" "\<not> wd_kill_switch w"
    using assms by (auto simp: load_automation_principal_def split: option.splits if_splits)
  obtain i where i: "(case wd_updated_by w of Some u \<Rightarrow> Some u | None \<Rightarrow> wd_created_by w) = Some i"
    using assms w by (auto simp: load_automation_principal_def split: option.splits)
  note loaded = assms[unfolded load_automation_principal_def w(1) option.case i]
  obtain u where u: "List.find (\<lambda>u. wu_id u = i \<and> wu_tenant u = tenant) (ad_users db) = Some u" "wu_status u = ''active''" "wu_deleted_at u = None"
    using loaded w by (auto split: option.splits if_splits)
  obtain tn scopes where tn: "row_at tn_id tenant (ad_tenants db) = Some tn" "tn_status tn \<in> {''trial'', ''active''}" "p = principal_of u tn scopes db"
    using loaded w u by (auto simp: rbind_eq_Inr split: option.splits if_splits)
  have "w \<in> set (ad_workflows db) \<and> wd_id w = workflow \<and> wd_tenant w = tenant \<and> wd_deleted_at w = None"
    using w(1) by (auto simp: find_Some_iff)
  moreover have "u \<in> set (ad_users db) \<and> wu_id u = i \<and> wu_tenant u = tenant" using u(1) by (auto simp: find_Some_iff)
  moreover have "wd_updated_by w = Some i \<or> wd_updated_by w = None \<and> wd_created_by w = Some i" using i by (auto split: option.splits)
  moreover have "pr_permissions p = grants_of (wu_id u) db" "pr_plan p = tn_plan tn" using tn(3) by (simp_all add: principal_of_def)
  ultimately show ?thesis using w(2,3) u(2,3) tn(2) row_at_Some[OF tn(1)] by metis
qed

text \<open>A dispatch either refuses before the database is touched, or reaches \<open>execute_once\<close> under the publisher's authority.\<close>

lemma dispatch_cases:
  obtains (refused) err where "dispatch_action env t action inputs ctx key db = (db, Inl err)"
  | (reached) spec p expected converted where "action_spec action = Some spec"
      "load_automation_principal (ctx_tenant_id ctx) (ctx_workflow_id ctx) db = Inr p" "spec_permission spec \<in> set (pr_permissions p)"
      "feature_open env spec (pr_plan p)" "provider_ready env action" "map_of AUDIT_ACTIONS action = Some expected"
      "dispatch_action env t action inputs ctx key db
         = execute_once env t action converted ctx p (action_correlation (ae_sha env) key) expected db"
proof (cases "action_spec action")
  case None
  then show thesis by (intro refused) (simp add: dispatch_action_def)
next
  case (Some spec)
  note s = Some
  show thesis
  proof (cases "load_automation_principal (ctx_tenant_id ctx) (ctx_workflow_id ctx) db")
    case (Inl err)
    then show thesis using s by (intro refused) (simp add: dispatch_action_def)
  next
    case (Inr p)
    show thesis
    proof (cases "spec_permission spec \<in> set (pr_permissions p) \<and> feature_open env spec (pr_plan p) \<and> provider_ready env action")
      case False
      then show thesis using s Inr
        by (cases "spec_permission spec \<in> set (pr_permissions p)"; cases "feature_open env spec (pr_plan p)")
          (auto intro!: refused simp: dispatch_action_def)
    next
      case True
      then show thesis using s Inr reached refused
        by (cases "map_of AUDIT_ACTIONS action"; cases "convert_dict (ae_iso env) inputs") (auto simp: dispatch_action_def)
    qed
  qed
qed

lemma execute_once_duplicate:
  assumes "receipt (pr_tenant p) correlation expected db \<noteq> None"
  shows "\<exists>d. execute_once env t action inputs ctx p correlation expected db = (db, Inr d) \<and> dget ''duplicate'' d = JBool True"
  using assms by (auto simp: execute_once_def dget_def)

lemma dispatch_receipt:
  assumes "audited_services (ae_perform env) covered"
    and covers: "\<forall>payload entity c. route_action action payload entity = Inr (To_service c) \<longrightarrow> covered c"
    and "dispatch_action env t action inputs ctx key db = (db', r)"
    and "effects db' \<noteq> effects db \<or> \<not> isl r" and "map_of AUDIT_ACTIONS action = Some expected"
  shows "receipt (ctx_tenant_id ctx) (action_correlation (ae_sha env) key) expected db' \<noteq> None"
proof (cases rule: dispatch_cases[of env t action inputs ctx key db])
  case (refused err)
  then show ?thesis using assms(3,4) by auto
next
  case (reached spec p expected' converted)
  then show ?thesis
    using audited_services.executed_receipt[OF assms(1) refl assms(5) covers, of t converted ctx p "action_correlation (ae_sha env) key" db db' r]
      assms(3-5) principal_tenant[OF reached(2)] by simp
qed

section \<open>The lead services\<close>

definition actor_of :: "AutomationPrincipal \<Rightarrow> actor" where
  "actor_of p = \<lparr>ac_tenant = pr_tenant p, ac_user = pr_user p, ac_perms = \<lparr>ep_permissions = pr_permissions p, ep_scope = pr_scope p,
     ep_branch_ids = pr_branches p, ep_team_ids = pr_teams p, ep_user_id = Some (pr_user p)\<rparr>\<rparr>"

definition text_field :: "string \<Rightarrow> jdict \<Rightarrow> (act_error, string option) res" where
  "text_field k d = (case dget k d of JNull \<Rightarrow> Inr None | JStr s \<Rightarrow> Inr (Some s) | _ \<Rightarrow> Inl (Service_error k))"

definition dict_field :: "string \<Rightarrow> jdict \<Rightarrow> (act_error, jdict) res" where
  "dict_field k d = dict_of (dget_or k (JDict []) d)"

definition lead_payload_of :: "jdict \<Rightarrow> (act_error, lead_payload) res" where
  "lead_payload_of d =
     rbind (text_field ''first_name'' d) (\<lambda>first_name. rbind (text_field ''last_name'' d) (\<lambda>last_name.
     rbind (text_field ''email'' d) (\<lambda>email. rbind (text_field ''phone'' d) (\<lambda>phone.
     rbind (text_field ''source'' d) (\<lambda>source. rbind (text_field ''source_channel'' d) (\<lambda>channel.
     rbind (dict_field ''capture'' d) (\<lambda>cap. rbind (dict_field ''utm'' d) (\<lambda>utm.
     rbind (text_field ''assignee_id'' d) (\<lambda>assignee. rbind (text_field ''branch_id'' d) (\<lambda>branch.
     rbind (text_field ''team_id'' d) (\<lambda>team.
       Inr \<lparr>lp_first_name = first_name, lp_last_name = last_name, lp_email = email, lp_phone = phone, lp_source = source,
         lp_source_channel = channel, lp_capture = cap, lp_utm = utm, lp_assignee = assignee, lp_branch = branch, lp_team = team\<rparr>)))))))))))"

definition lead_change_of :: "string \<times> json \<Rightarrow> (act_error, lead_change) res" where
  "lead_change_of e = (case e of (k, v) \<Rightarrow>
     if k = ''first_name'' then rbind (text_field k [e]) (\<lambda>x. Inr (Set_first_name x))
     else if k = ''last_name'' then rbind (text_field k [e]) (\<lambda>x. Inr (Set_last_name x))
     else if k = ''status'' then rbind (text_field k [e]) (\<lambda>x. Inr (Set_status x))
     else if k = ''assignee_id'' then rbind (text_field k [e]) (\<lambda>x. Inr (Set_assignee x))
     else if k = ''disqualify_reason'' then rbind (text_field k [e]) (\<lambda>x. Inr (Set_disqualify_reason x))
     else if k = ''capture'' then rbind (dict_of v) (\<lambda>x. Inr (Set_capture (Some x)))
     else Inl (Service_error k))"

definition version_of :: "json \<Rightarrow> (act_error, int option) res" where
  "version_of v = (case v of JNull \<Rightarrow> Inr None | JInt i \<Rightarrow> Inr (Some i) | _ \<Rightarrow> Inl (Service_error ''version''))"

text \<open>What the caller sees of a service: the new state, the audit rows it committed, and the row it returns.\<close>

definition observed :: "lead_db \<Rightarrow> Lead lead_outcome \<Rightarrow> lead_db \<times> (string \<times> string \<times> string option) list \<times> (act_error, jdict) res" where
  "observed s out = (case out of (s', r) \<Rightarrow>
     (s', map (\<lambda>e. (er_type e, ''success'', Some (er_resource e))) (drop (length (lb_audit s)) (lb_audit s')),
      case r of Inl _ \<Rightarrow> Inl (Service_error ''lead'') | Inr l \<Rightarrow> Inr ((''id'', JStr (ld_id l)) # lead_columns l)))"

text \<open>The lead services as the dispatcher calls them. Columns that \<open>lead_change\<close> does not have are refused. What the other
  services do is left open: \<open>other\<close> is any behaviour.\<close>

fun lead_call :: "service_call \<Rightarrow> bool" where
  "lead_call (Lead_capture _) = True"
| "lead_call (Lead_update _ _ _) = True"
| "lead_call _ = False"

type_synonym service = "service_call \<Rightarrow> AutomationPrincipal \<Rightarrow> lead_db
    \<Rightarrow> lead_db \<times> (string \<times> string \<times> string option) list \<times> (act_error, jdict) res"

definition perform_leads :: "string \<Rightarrow> service \<Rightarrow> service" where
  "perform_leads fresh other c p s =
     (case c of
        Lead_capture d \<Rightarrow> (case lead_payload_of d of Inl err \<Rightarrow> (s, [], Inl err)
          | Inr payload \<Rightarrow> observed s (capture (actor_of p) fresh payload None s))
      | Lead_update i d v \<Rightarrow> (case (rmap lead_change_of d, version_of v) of
            (Inr changes, Inr expected) \<Rightarrow> observed s (update_lead (actor_of p) i changes expected s)
          | _ \<Rightarrow> (s, [], Inl (Service_error ''input'')))
      | _ \<Rightarrow> other c p s)"

lemma observed_audited:
  assumes "observed s (s', r) = (s'', audits, result)" and "lb_audit s' = lb_audit s @ [e]"
  shows "(er_type e, ''success'', Some (er_resource e)) \<in> set audits"
  using assms by (auto simp: observed_def)

lemma capture_audited:
  assumes "capture a fresh p key s = (s', r)" and "s' \<noteq> s"
  shows "\<exists>e. lb_audit s' = lb_audit s @ [e] \<and> er_type e = ''lead.create''"
  using assms by (auto simp: capture_def Let_def emit_lead_def audit_lead_def event_of_def split: option.splits if_splits)

lemma update_audited:
  assumes "update_lead a i changes expected s = (s', r)" and "s' \<noteq> s"
  shows "\<exists>e. lb_audit s' = lb_audit s @ [e] \<and> er_type e = ''lead.update''"
  using assms by (auto simp: update_lead_def emit_lead_def audit_lead_def put_lead_def event_of_def split: option.splits sum.splits)

interpretation leads: audited_services "perform_leads fresh other" lead_call
proof
  fix c p s s' audits result
  assume covered: "lead_call c" and performed: "perform_leads fresh other c p s = (s', audits, result)" and changed: "s' \<noteq> (s :: lead_db)"
  show "\<exists>a res. (a, ''success'', res) \<in> set audits \<and> a \<in> set (call_audits c)"
  proof (cases c)
    case (Lead_capture d)
    then obtain payload where "lead_payload_of d = Inr payload"
      using performed changed by (auto simp: perform_leads_def split: sum.splits)
    then have o: "observed s (capture (actor_of p) fresh payload None s) = (s', audits, result)"
      using performed Lead_capture by (simp add: perform_leads_def)
    obtain r where r: "capture (actor_of p) fresh payload None s = (s', r)"
      using o by (auto simp: observed_def split: prod.splits)
    obtain e where "lb_audit s' = lb_audit s @ [e]" "er_type e = ''lead.create''" using capture_audited[OF r changed] by blast
    then show ?thesis using observed_audited[OF o[unfolded r]] Lead_capture by force
  next
    case (Lead_update i d v)
    then obtain changes expected where "rmap lead_change_of d = Inr changes" "version_of v = Inr expected"
      using performed changed by (auto simp: perform_leads_def split: sum.splits)
    then have o: "observed s (update_lead (actor_of p) i changes expected s) = (s', audits, result)"
      using performed Lead_update by (simp add: perform_leads_def)
    obtain r where r: "update_lead (actor_of p) i changes expected s = (s', r)"
      using o by (auto simp: observed_def split: prod.splits)
    obtain e where "lb_audit s' = lb_audit s @ [e]" "er_type e = ''lead.update''" using update_audited[OF r changed] by blast
    then show ?thesis using observed_audited[OF o[unfolded r]] Lead_update by force
  qed (use covered in simp_all)
qed

section \<open>Properties\<close>

text \<open>The actions the claim is about: those of the lead services and those that the module applies itself.\<close>

definition APPLIED_ONCE :: "string list" where
  "APPLIED_ONCE = [''lead.create'', ''lead.update'', ''lead.assign'', ''notification.in_app'', ''webhook.call'', ''analytics.emit'']"

lemma applied_once_covered:
  assumes "action \<in> set APPLIED_ONCE" and "route_action action payload entity = Inr (To_service c)"
  shows "lead_call c"
proof -
  have lead: "lead_call c" if "route_lead action payload entity = Inr c" for action
    using that by (auto simp: route_lead_def rbind_eq_Inr split: if_splits)
  from assms(1) show ?thesis using assms(2) unfolding APPLIED_ONCE_def
    by (simp only: list.set) (elim insertE emptyE; simp add: route_action_def py_startswith_def Let_def rbind_eq_Inr; blast intro: lead)
qed

text \<open>
  C15. A lead action (create, update, assign) or an action of the module itself (in-app notification, webhook call, analytics
  event) that changed anything, or that was reported as done, is never applied again: any later attempt of the same node of
  the same execution leaves the database as it is, whatever the inputs, the settings, the clock and the identifiers drawn, and
  answers that it is a duplicate unless it is refused beforehand. In between, audit rows are only added. The other services
  may behave in any way.
\<close>

theorem action_applied_once:
  assumes "action \<in> {''lead.create'', ''lead.update'', ''lead.assign'', ''notification.in_app'', ''webhook.call'', ''analytics.emit''}"
    and "ae_perform env = perform_leads fresh other"
    and "dispatch_action env t action inputs ctx (action_idempotency_key e n a) db = (db1, r)"
    and "effects db1 \<noteq> effects db \<or> \<not> isl r"
    and "set (ad_audit db1) \<subseteq> set (ad_audit db2)"
    and "ctx_tenant_id ctx' = ctx_tenant_id ctx" and "ae_sha env' = ae_sha env"
  shows "\<exists>r'. dispatch_action env' t' action inputs' ctx' (action_idempotency_key e n a') db2 = (db2, r')
    \<and> (\<forall>d. r' = Inr d \<longrightarrow> dget ''duplicate'' d = JBool True)"
proof (cases rule: dispatch_cases[of env' t' action inputs' ctx' "action_idempotency_key e n a'" db2])
  case (refused err)
  then show ?thesis by simp
next
  case (reached spec p expected converted)
  have listed: "action \<in> set APPLIED_ONCE" using assms(1) by (simp add: APPLIED_ONCE_def)
  have services: "audited_services (ae_perform env) lead_call" unfolding assms(2) by (rule leads.audited_services_axioms)
  have "receipt (ctx_tenant_id ctx) (action_correlation (ae_sha env) (action_idempotency_key e n a)) expected db1 \<noteq> None"
    by (rule dispatch_receipt[OF services _ assms(3,4) reached(6)]) (use applied_once_covered[OF listed] in blast)
  from receipt_persists[OF this assms(5)]
  have "receipt (pr_tenant p) (action_correlation (ae_sha env') (action_idempotency_key e n a')) expected db2 \<noteq> None"
    using principal_tenant[OF reached(2)] assms(6,7) by (simp add: correlation_of_attempts)
  from execute_once_duplicate[OF this] show ?thesis using reached(7) by (metis Inr_inject)
qed

definition sample_principal_db :: "lead_db act_db" where
  "sample_principal_db = \<lparr>ad_workflows = [\<lparr>wd_id = ''w'', wd_tenant = ''t'', wd_is_active = True, wd_active_version = None, wd_paused_at = None,
       wd_kill_switch = False, wd_deleted_at = None, wd_lock_version = 1, wd_updated_by = None, wd_created_by = Some ''u''\<rparr>],
     ad_users = [\<lparr>wu_id = ''u'', wu_tenant = ''t'', wu_status = ''active'', wu_deleted_at = None, wu_email = [], wu_name = [], wu_branch = None\<rparr>],
     ad_tenants = [\<lparr>tn_id = ''t'', tn_slug = [], tn_status = ''active'', tn_plan = GROWTH\<rparr>],
     ad_roles = [\<lparr>ro_id = ''r'', ro_name = ''sales_rep'', ro_scope = ''self''\<rparr>], ad_user_roles = [(''u'', ''r'')],
     ad_role_permissions = [(''r'', ''lead:create'')], ad_team_members = [], ad_configs = [], ad_notifications = [], ad_deliveries = [],
     ad_outbox = [], ad_audit = [], ad_crm = \<lparr>lb_leads = [], lb_source_events = [], lb_contacts = [], lb_candidates = [],
       lb_idempotency = [], lb_audit = [], lb_outbox = []\<rparr>\<rparr>"

definition sample_env :: "string \<Rightarrow> lead_db action_env" where
  "sample_env fresh = \<lparr>ae_sha = id, ae_iso = (\<lambda>_. None), ae_flag = (\<lambda>_. False), ae_whatsapp = False, ae_email = False,
     ae_perform = perform_leads fresh (\<lambda>_ _ s. (s, [], Inl (Service_error ''service'')))\<rparr>"

definition sample_attempt :: attempt where
  "sample_attempt = \<lparr>at_now = 0, at_timestamp = [], at_fresh = ''f'', at_event = ''v''\<rparr>"

definition sample_ctx :: ExecutionContext where
  "sample_ctx = \<lparr>ctx_execution_id = ''x'', ctx_tenant_id = ''t'', ctx_workflow_id = ''w'', ctx_version_id = ''v'', ctx_content_hash = [],
     ctx_trigger_payload = [], ctx_entity = [], ctx_variables = [], ctx_dry_run = False, ctx_correlation_id = None, ctx_started_at = 0\<rparr>"

definition sample_dispatch :: "string \<Rightarrow> int \<Rightarrow> lead_db act_db \<Rightarrow> lead_db act_db \<times> (act_error, jdict) res" where
  "sample_dispatch fresh a db = dispatch_action (sample_env fresh) sample_attempt ''lead.create'' [(''first_name'', JStr ''Asha'')] sample_ctx
     (action_idempotency_key ''x'' ''n'' a) db"

theorem action_applied_once_witness:
  "length (lb_leads (ad_crm (fst (sample_dispatch ''l'' 1 sample_principal_db)))) = 1
   \<and> (\<exists>r. sample_dispatch ''m'' 2 (fst (sample_dispatch ''l'' 1 sample_principal_db)) = (fst (sample_dispatch ''l'' 1 sample_principal_db), r))"
proof
  show first: "length (lb_leads (ad_crm (fst (sample_dispatch ''l'' 1 sample_principal_db)))) = 1" by code_simp
  have "\<not> isl (snd (sample_dispatch ''l'' 1 sample_principal_db))" by code_simp
  then show "\<exists>r. sample_dispatch ''m'' 2 (fst (sample_dispatch ''l'' 1 sample_principal_db)) = (fst (sample_dispatch ''l'' 1 sample_principal_db), r)"
    using action_applied_once[of "''lead.create''" "sample_env ''l''" "''l''" "\<lambda>_ _ s. (s, [], Inl (Service_error ''service''))" sample_attempt
        "[(''first_name'', JStr ''Asha'')]" sample_ctx "''x''" "''n''" 1
        sample_principal_db "fst (sample_dispatch ''l'' 1 sample_principal_db)" "snd (sample_dispatch ''l'' 1 sample_principal_db)"
        "fst (sample_dispatch ''l'' 1 sample_principal_db)" sample_ctx "sample_env ''m''" sample_attempt "[(''first_name'', JStr ''Asha'')]" 2]
    by (auto simp: sample_env_def sample_dispatch_def)
qed

text \<open>
  C16. An action touches nothing, and answers nothing but a refusal, unless at that moment its workflow is active and not killed, the
  user accountable for the workflow is an active user of an open tenant and holds the action's permission through a role, and the
  tenant's plan and the deployment's flags include the feature. Nothing is taken from the time of publication.
\<close>

theorem action_authorised:
  assumes "dispatch_action env t action inputs ctx key db = (db1, r)" and "db1 \<noteq> db \<or> \<not> isl r"
  shows "\<exists>spec w u tn role. action_spec action = Some spec
    \<and> w \<in> set (ad_workflows db) \<and> wd_id w = ctx_workflow_id ctx \<and> wd_tenant w = ctx_tenant_id ctx \<and> wd_deleted_at w = None
    \<and> wd_is_active w \<and> \<not> wd_kill_switch w
    \<and> u \<in> set (ad_users db) \<and> wu_tenant u = ctx_tenant_id ctx \<and> wu_status u = ''active'' \<and> wu_deleted_at u = None
    \<and> (wd_updated_by w = Some (wu_id u) \<or> wd_updated_by w = None \<and> wd_created_by w = Some (wu_id u))
    \<and> tn \<in> set (ad_tenants db) \<and> tn_id tn = ctx_tenant_id ctx \<and> tn_status tn \<in> {''trial'', ''active''}
    \<and> (wu_id u, role) \<in> set (ad_user_roles db) \<and> (role, spec_permission spec) \<in> set (ad_role_permissions db)
    \<and> feature_open env spec (tn_plan tn)"
proof (cases rule: dispatch_cases[of env t action inputs ctx key db])
  case (refused err)
  then show ?thesis using assms by auto
next
  case (reached spec p expected converted)
  from principal_sources[OF reached(2)] obtain w u tn where facts:
    "w \<in> set (ad_workflows db)" "wd_id w = ctx_workflow_id ctx" "wd_tenant w = ctx_tenant_id ctx" "wd_deleted_at w = None" "wd_is_active w"
    "\<not> wd_kill_switch w" "u \<in> set (ad_users db)" "wu_tenant u = ctx_tenant_id ctx" "wu_status u = ''active''" "wu_deleted_at u = None"
    "wd_updated_by w = Some (wu_id u) \<or> wd_updated_by w = None \<and> wd_created_by w = Some (wu_id u)"
    "tn \<in> set (ad_tenants db)" "tn_id tn = ctx_tenant_id ctx" "tn_status tn \<in> {''trial'', ''active''}"
    "pr_permissions p = grants_of (wu_id u) db" "pr_plan p = tn_plan tn" by blast
  obtain role where "(wu_id u, role) \<in> set (ad_user_roles db)" "(role, spec_permission spec) \<in> set (ad_role_permissions db)"
    using reached(3) facts(15) by (auto simp: grants_of_def)
  then show ?thesis using reached(1,4) facts by metis
qed

theorem action_authorised_witness:
  "\<exists>w u role. w \<in> set (ad_workflows sample_principal_db) \<and> wd_is_active w \<and> u \<in> set (ad_users sample_principal_db) \<and> wd_created_by w = Some (wu_id u)
     \<and> (wu_id u, role) \<in> set (ad_user_roles sample_principal_db) \<and> (role, ''lead:create'') \<in> set (ad_role_permissions sample_principal_db)"
proof -
  have "\<not> isl (snd (sample_dispatch ''l'' 1 sample_principal_db))" by code_simp
  from action_authorised[OF surjective_pairing disjI2[OF this[unfolded sample_dispatch_def]]]
  obtain spec w u role where "action_spec ''lead.create'' = Some spec" "w \<in> set (ad_workflows sample_principal_db)" "wd_is_active w" "u \<in> set (ad_users sample_principal_db)"
    "wd_updated_by w = Some (wu_id u) \<or> wd_updated_by w = None \<and> wd_created_by w = Some (wu_id u)"
    "(wu_id u, role) \<in> set (ad_user_roles sample_principal_db)" "(role, spec_permission spec) \<in> set (ad_role_permissions sample_principal_db)"
    by blast
  moreover have "map_option spec_permission (action_spec ''lead.create'') = Some ''lead:create''" by code_simp
  moreover have "wd_updated_by w = None" using \<open>w \<in> set (ad_workflows sample_principal_db)\<close> by (simp add: sample_principal_db_def)
  ultimately show ?thesis by (metis option.map(2) option.inject option.distinct(1))
qed

end
