(* ===== verification/Assignment.thy ===== *)
theory Assignment
  imports Lead_Service Py_Uuid "HOL-Library.Product_Lexorder"
begin

text \<open>
  \<^verbatim>\<open>domain/leads/assignment.py\<close> and \<^verbatim>\<open>application/leads/assignment_rules.py\<close>: ordered assignment rules, the choice of an assignee
  and the rule table. Conditions are JSON as the column stores them, so that reading a rule that was never validated may raise;
  the well-formedness that validation establishes and every operation keeps excludes it. Shown: the first matching rule decides,
  and round robin hands out evenly.
\<close>

section \<open>Rules and their validation\<close>

definition STRATEGIES :: "string list" where
  "STRATEGIES = [''round_robin'', ''first_available'', ''load_balanced'']"

definition OPERATORS :: "string list" where
  "OPERATORS = [''equals'', ''not_equals'', ''contains'', ''starts_with'', ''in'', ''is_set'', ''is_not_set'']"

definition CONDITION_FIELDS :: "string list" where
  "CONDITION_FIELDS = [''source'', ''source_channel'', ''city'', ''company'', ''category'', ''qualification_score'', ''status'']"

definition MAX_CONDITIONS :: nat where "MAX_CONDITIONS = 10"
definition MAX_TARGETS :: nat where "MAX_TARGETS = 50"
definition MAX_RULES :: nat where "MAX_RULES = 100"

datatype rule_problem =
    Bad_strategy string
  | Clauses_not_a_list
  | Too_many_conditions
  | Not_an_object nat
  | Unreadable_field nat string
  | Unknown_operator nat string
  | Value_needed nat string
  | No_assignee
  | Too_many_assignees
  | Repeated_assignee

text \<open>\<^verbatim>\<open>x in (None, "")\<close>.\<close>

definition is_blank :: "json \<Rightarrow> bool" where
  "is_blank v \<longleftrightarrow> v = JNull \<or> v = JStr []"

definition check_clause :: "nat \<times> json \<Rightarrow> rule_problem + json" where
  "check_clause ic = (case ic of (index, clause) \<Rightarrow>
     (case clause of
        JDict d \<Rightarrow>
          let field = py_str (dget_or ''field'' (JStr []) d); operator = py_str (dget_or ''operator'' (JStr ''equals'') d) in
          if field \<notin> set CONDITION_FIELDS then Inl (Unreadable_field index field)
          else if operator \<notin> set OPERATORS then Inl (Unknown_operator index operator)
          else if operator \<notin> {''is_set'', ''is_not_set''} \<and> is_blank (dget ''value'' d) then Inl (Value_needed index operator)
          else Inr (JDict [(''field'', JStr field), (''operator'', JStr operator), (''value'', dget ''value'' d)])
      | _ \<Rightarrow> Inl (Not_an_object index)))"

definition lefts :: "('a + 'b) list \<Rightarrow> 'a list" where "lefts xs = List.map_filter (\<lambda>x. case x of Inl a \<Rightarrow> Some a | Inr _ \<Rightarrow> None) xs"
definition rights :: "('a + 'b) list \<Rightarrow> 'b list" where "rights xs = List.map_filter (\<lambda>x. case x of Inl _ \<Rightarrow> None | Inr b \<Rightarrow> Some b) xs"

definition problem_if :: "bool \<Rightarrow> 'a \<Rightarrow> 'a list" where "problem_if b p = (if b then [p] else [])"

definition validate_rule :: "string \<Rightarrow> jdict \<Rightarrow> json list \<Rightarrow> (rule_problem list, jdict \<times> string list) res" where
  "validate_rule strategy conditions targets =
     (let given = dget_or ''all'' (JList []) conditions;
          clauses = (case given of JList cs \<Rightarrow> cs | _ \<Rightarrow> []);
          checked = map check_clause (enumerate 0 clauses);
          cleaned_targets = filter (\<lambda>t. py_strip t \<noteq> []) (map py_str targets);
          problems =
            problem_if (strategy \<notin> set STRATEGIES) (Bad_strategy strategy)
            @ problem_if (\<not> is_jlist given) Clauses_not_a_list
            @ problem_if (length clauses > MAX_CONDITIONS) Too_many_conditions
            @ lefts checked
            @ problem_if (cleaned_targets = []) No_assignee
            @ problem_if (length cleaned_targets > MAX_TARGETS) Too_many_assignees
            @ problem_if (\<not> distinct cleaned_targets) Repeated_assignee
      in if problems \<noteq> [] then Inl problems else Inr ([(''all'', JList (rights checked))], cleaned_targets))"

text \<open>\<^verbatim>\<open>_SAFE_NAME\<close>.\<close>

definition name_char :: "char \<Rightarrow> bool" where
  "name_char c \<longleftrightarrow> is_word c \<or> c \<in> set '' -/&().''"

definition validate_rule_name :: "string \<Rightarrow> string option" where
  "validate_rule_name name =
     (let cleaned = py_strip name in if cleaned \<noteq> [] \<and> length cleaned \<le> 150 \<and> list_all name_char cleaned then Some cleaned else None)"

section \<open>Matching\<close>

definition is_number :: "json \<Rightarrow> bool" where "is_number v \<longleftrightarrow> num_val v \<noteq> None"

definition norm_text :: "json \<Rightarrow> string" where "norm_text v = py_lower (py_strip (py_str v))"

definition compare_values :: "string \<Rightarrow> json \<Rightarrow> json \<Rightarrow> bool" where
  "compare_values operator actual expected =
     (if operator = ''is_set'' then \<not> is_blank actual
      else if operator = ''is_not_set'' then is_blank actual
      else if actual = JNull then False
      else if operator \<in> {''equals'', ''not_equals''} then
        (let equal = (if is_number actual \<and> is_number expected then py_eq actual expected else norm_text actual = norm_text expected)
         in if operator = ''equals'' then equal else \<not> equal)
      else if operator = ''contains'' then py_contains (norm_text expected) (py_lower (py_str actual))
      else if operator = ''starts_with'' then py_startswith (py_lower (py_str actual)) (norm_text expected)
      else if operator = ''in'' then norm_text actual \<in> norm_text ` set (case expected of JList vs \<Rightarrow> vs | v \<Rightarrow> [v])
      else False)"

text \<open>\<^verbatim>\<open>d[k]\<close> of a clause that may not be an object.\<close>

definition subscript :: "string \<Rightarrow> json \<Rightarrow> (py_exc, json) res" where
  "subscript k j = (case j of JDict d \<Rightarrow> (case map_of d k of None \<Rightarrow> Inl KeyError | Some v \<Rightarrow> Inr v) | _ \<Rightarrow> Inl TypeError)"

definition clause_matches :: "json \<Rightarrow> jdict \<Rightarrow> (py_exc, bool) res" where
  "clause_matches clause lead =
     rbind (subscript ''field'' clause) (\<lambda>field.
       if \<not> hashable field then Inl TypeError
       else rbind (subscript ''operator'' clause) (\<lambda>operator.
         rbind (jget ''value'' clause) (\<lambda>expected.
           Inr (compare_values (case operator of JStr s \<Rightarrow> s | _ \<Rightarrow> []) (case field of JStr f \<Rightarrow> dget f lead | _ \<Rightarrow> JNull) expected))))"

fun all_match :: "json list \<Rightarrow> jdict \<Rightarrow> (py_exc, bool) res" where
  "all_match [] lead = Inr True"
| "all_match (c # cs) lead = rbind (clause_matches c lead) (\<lambda>b. if b then all_match cs lead else Inr False)"

record rule_row =
  ar_id :: string
  ar_tenant :: string
  ar_name :: string
  ar_entity :: string
  ar_strategy :: string
  ar_conditions :: jdict
  ar_targets :: "string list"
  ar_position :: int
  ar_active :: bool
  ar_cursor :: int
  ar_version :: int
  ar_created :: instant

definition rule_matches :: "rule_row \<Rightarrow> jdict \<Rightarrow> (py_exc, bool) res" where
  "rule_matches rule lead = rbind (iterate (dget_or ''all'' (JList []) (ar_conditions rule))) (\<lambda>clauses. all_match clauses lead)"

section \<open>Choosing an assignee\<close>

record Assignment =
  ag_assignee :: string
  ag_rule :: "string option"
  ag_name :: "string option"
  ag_strategy :: string
  ag_next_cursor :: "int option"

fun index_of :: "'a \<Rightarrow> 'a list \<Rightarrow> nat" where
  "index_of x [] = 0"
| "index_of x (y # ys) = (if x = y then 0 else Suc (index_of x ys))"

definition pick_target :: "string \<Rightarrow> int \<Rightarrow> (string \<Rightarrow> int) option \<Rightarrow> string list \<Rightarrow> string \<times> int option" where
  "pick_target strategy cursor workloads targets =
     (case (strategy = ''load_balanced'', workloads) of
        (True, Some load) \<Rightarrow> (min_by (\<lambda>t. (load t, index_of t targets)) (hd targets) (tl targets), None)
      | _ \<Rightarrow> if strategy = ''first_available'' then (hd targets, None)
            else (targets ! nat (cursor mod int (length targets)), Some ((cursor + 1) mod int (length targets))))"

definition nonempty :: "string \<Rightarrow> string option" where "nonempty s = (if s = [] then None else Some s)"

definition eligible_targets :: "string list option \<Rightarrow> rule_row \<Rightarrow> string list" where
  "eligible_targets eligible rule = (case eligible of None \<Rightarrow> ar_targets rule | Some es \<Rightarrow> filter (\<lambda>t. t \<in> set es) (ar_targets rule))"

definition assignment_by :: "(string \<Rightarrow> int) option \<Rightarrow> string list option \<Rightarrow> rule_row \<Rightarrow> Assignment" where
  "assignment_by workloads eligible rule =
     (case pick_target (ar_strategy rule) (ar_cursor rule) workloads (eligible_targets eligible rule) of (chosen, next_cursor) \<Rightarrow>
        \<lparr>ag_assignee = chosen, ag_rule = nonempty (ar_id rule), ag_name = nonempty (ar_name rule), ag_strategy = ar_strategy rule,
         ag_next_cursor = next_cursor\<rparr>)"

fun first_assignment :: "(string \<Rightarrow> int) option \<Rightarrow> string list option \<Rightarrow> jdict \<Rightarrow> rule_row list \<Rightarrow> (py_exc, Assignment option) res" where
  "first_assignment workloads eligible lead [] = Inr None"
| "first_assignment workloads eligible lead (rule # rules) =
     (if \<not> ar_active rule then first_assignment workloads eligible lead rules
      else rbind (rule_matches rule lead) (\<lambda>m.
        if \<not> m \<or> eligible_targets eligible rule = [] then first_assignment workloads eligible lead rules
        else Inr (Some (assignment_by workloads eligible rule))))"

definition rule_order :: "rule_row \<Rightarrow> int \<times> string" where
  "rule_order r = (ar_position r, ar_id r)"

definition select_assignee :: "rule_row list \<Rightarrow> jdict \<Rightarrow> (string \<Rightarrow> int) option \<Rightarrow> string list option \<Rightarrow> (py_exc, Assignment option) res" where
  "select_assignee rules lead workloads eligible = first_assignment workloads eligible lead (sort_key rule_order rules)"

section \<open>The rule table\<close>

record rules_db =
  rd_rules :: "rule_row list"
  rd_leads :: "Lead list"
  rd_audit :: "event_row list"

datatype rule_fault =
    Rule_not_found
  | Bad_rule_name string
  | Bad_rule "rule_problem list"
  | Too_many_rules
  | Rule_changed int
  | Rules_missing "string list"
  | Rule_lead_not_found
  | Rule_crash py_exc

definition load_rule :: "string \<Rightarrow> string \<Rightarrow> rules_db \<Rightarrow> rule_row option" where
  "load_rule tenant i db = List.find (\<lambda>r. ar_id r = i \<and> ar_tenant r = tenant) (rd_rules db)"

definition audit_rule :: "event_row \<Rightarrow> rules_db \<Rightarrow> rules_db" where
  "audit_rule e db = db\<lparr>rd_audit := rd_audit db @ [e]\<rparr>"

definition put_rule :: "rule_row \<Rightarrow> rules_db \<Rightarrow> rules_db" where
  "put_rule r db = db\<lparr>rd_rules := set_row ar_id r (rd_rules db)\<rparr>"

definition list_rules :: "string \<Rightarrow> string \<Rightarrow> rules_db \<Rightarrow> rule_row list" where
  "list_rules tenant entity db = sort_key (\<lambda>r. (ar_position r, ar_created r)) (filter (\<lambda>r. ar_tenant r = tenant \<and> ar_entity r = entity) (rd_rules db))"

definition create_rule :: "instant \<Rightarrow> actor \<Rightarrow> string \<Rightarrow> string \<Rightarrow> string \<Rightarrow> jdict \<Rightarrow> json list \<Rightarrow> int option \<Rightarrow> string \<Rightarrow> rules_db
    \<Rightarrow> rules_db \<times> (rule_fault, rule_row) res" where
  "create_rule now a fresh name strategy conditions targets position entity db =
     (case validate_rule_name name of
        None \<Rightarrow> (db, Inl (Bad_rule_name name))
      | Some clean_name \<Rightarrow>
          (case validate_rule strategy conditions targets of
             Inl problems \<Rightarrow> (db, Inl (Bad_rule problems))
           | Inr (clean_conditions, clean_targets) \<Rightarrow>
               let existing = filter (\<lambda>r. ar_tenant r = ac_tenant a \<and> ar_entity r = entity) (rd_rules db) in
               if length existing \<ge> MAX_RULES then (db, Inl Too_many_rules)
               else
                 let rule = \<lparr>ar_id = fresh, ar_tenant = ac_tenant a, ar_name = clean_name, ar_entity = entity, ar_strategy = strategy,
                       ar_conditions = clean_conditions, ar_targets = clean_targets,
                       ar_position = (case position of Some p \<Rightarrow> p | None \<Rightarrow> int (length existing)), ar_active = True, ar_cursor = 0,
                       ar_version = 1, ar_created = now\<rparr>
                 in (audit_rule (event_of a ''assignment_rule.created'' fresh [(''name'', JStr clean_name), (''strategy'', JStr strategy),
                       (''targets'', JInt (int (length clean_targets)))]) (db\<lparr>rd_rules := rd_rules db @ [rule]\<rparr>), Inr rule)))"

record rule_changes =
  rc_name :: "string option"
  rc_strategy :: "string option"
  rc_conditions :: "jdict option"
  rc_targets :: "json list option"
  rc_position :: "int option"
  rc_active :: "bool option"

text \<open>\<^verbatim>\<open>strategy or rule.strategy\<close>.\<close>

definition new_strategy :: "rule_changes \<Rightarrow> rule_row \<Rightarrow> string" where
  "new_strategy c r = (case rc_strategy c of None \<Rightarrow> ar_strategy r | Some s \<Rightarrow> if s = [] then ar_strategy r else s)"

definition renamed :: "rule_changes \<Rightarrow> rule_row \<Rightarrow> (rule_fault, rule_row) res" where
  "renamed c r = (case rc_name c of
      None \<Rightarrow> Inr r
    | Some name \<Rightarrow> (case validate_rule_name name of None \<Rightarrow> Inl (Bad_rule_name name) | Some clean \<Rightarrow> Inr (r\<lparr>ar_name := clean\<rparr>)))"

definition redefined :: "rule_changes \<Rightarrow> rule_row \<Rightarrow> (rule_fault, rule_row) res" where
  "redefined c r =
     (if rc_strategy c = None \<and> rc_conditions c = None \<and> rc_targets c = None then Inr r
      else case validate_rule (new_strategy c r) (case rc_conditions c of Some d \<Rightarrow> d | None \<Rightarrow> ar_conditions r)
             (case rc_targets c of Some ts \<Rightarrow> ts | None \<Rightarrow> map JStr (ar_targets r)) of
        Inl problems \<Rightarrow> Inl (Bad_rule problems)
      | Inr (clean_conditions, clean_targets) \<Rightarrow>
          let r' = r\<lparr>ar_strategy := new_strategy c r, ar_conditions := clean_conditions\<rparr> in
          Inr (if rc_targets c = None then r' else r'\<lparr>ar_targets := clean_targets, ar_cursor := 0\<rparr>))"

definition changed_rule :: "rule_changes \<Rightarrow> rule_row \<Rightarrow> (rule_fault, rule_row) res" where
  "changed_rule c r = rbind (renamed c r) (\<lambda>r1. rbind (redefined c r1) (\<lambda>r2.
     Inr (r2\<lparr>ar_position := (case rc_position c of Some p \<Rightarrow> p | None \<Rightarrow> ar_position r2),
             ar_active := (case rc_active c of Some b \<Rightarrow> b | None \<Rightarrow> ar_active r2), ar_version := ar_version r2 + 1\<rparr>)))"

definition update_rule :: "actor \<Rightarrow> string \<Rightarrow> int option \<Rightarrow> rule_changes \<Rightarrow> rules_db \<Rightarrow> rules_db \<times> (rule_fault, rule_row) res" where
  "update_rule a i expected c db =
     (case load_rule (ac_tenant a) i db of
        None \<Rightarrow> (db, Inl Rule_not_found)
      | Some r \<Rightarrow>
          if expected \<noteq> None \<and> expected \<noteq> Some (ar_version r) then (db, Inl (Rule_changed (ar_version r)))
          else case changed_rule c r of
            Inl err \<Rightarrow> (db, Inl err)
          | Inr r' \<Rightarrow> (audit_rule (event_of a ''assignment_rule.updated'' i [(''name'', JStr (ar_name r')), (''is_active'', JBool (ar_active r'))])
              (put_rule r' db), Inr r'))"

definition delete_rule :: "actor \<Rightarrow> string \<Rightarrow> rules_db \<Rightarrow> rules_db \<times> (rule_fault, unit) res" where
  "delete_rule a i db =
     (case load_rule (ac_tenant a) i db of
        None \<Rightarrow> (db, Inl Rule_not_found)
      | Some r \<Rightarrow> (audit_rule (event_of a ''assignment_rule.deleted'' i []) (db\<lparr>rd_rules := filter (\<lambda>x. ar_id x \<noteq> i) (rd_rules db)\<rparr>), Inr ()))"

definition move_rule :: "nat \<times> string \<Rightarrow> rule_row list \<Rightarrow> rule_row list" where
  "move_rule slot rules = (case slot of (position, i) \<Rightarrow>
     map (\<lambda>r. if ar_id r = i then r\<lparr>ar_position := int position, ar_version := ar_version r + 1\<rparr> else r) rules)"

definition reorder_rules :: "actor \<Rightarrow> string list \<Rightarrow> rules_db \<Rightarrow> rules_db \<times> (rule_fault, rule_row list) res" where
  "reorder_rules a ordered_ids db =
     (let own = map ar_id (filter (\<lambda>r. ar_tenant r = ac_tenant a) (rd_rules db)); missing = filter (\<lambda>i. i \<notin> set own) ordered_ids in
      if missing \<noteq> [] then (db, Inl (Rules_missing missing))
      else
        let rules = foldl (\<lambda>rs slot. move_rule slot rs) (rd_rules db) (enumerate 0 ordered_ids) in
        (audit_rule (event_of a ''assignment_rule.reordered'' [] [(''order'', JList (map JStr ordered_ids))]) (db\<lparr>rd_rules := rules\<rparr>),
         Inr (sort_key (\<lambda>r. (ar_position r, ar_created r)) (filter (\<lambda>r. ar_tenant r = ac_tenant a) rules))))"

section \<open>Applying the rules to a lead\<close>

definition rule_facts :: "Lead \<Rightarrow> jdict" where
  "rule_facts l =
     [(''source'', JStr (ld_source l)), (''source_channel'', opt_json (ld_source_channel l)), (''city'', dget ''city'' (ld_capture l)),
      (''company'', dget ''company'' (ld_capture l)), (''category'', opt_json (ld_category l)),
      (''qualification_score'', case ld_score l of None \<Rightarrow> JNull | Some s \<Rightarrow> JInt s), (''status'', JStr (ld_status l))]"

definition active_rules :: "string \<Rightarrow> rules_db \<Rightarrow> rule_row list" where
  "active_rules tenant db = sort_key ar_position (filter (\<lambda>r. ar_tenant r = tenant \<and> ar_entity r = ''lead'' \<and> ar_active r) (rd_rules db))"

definition advance :: "Assignment \<Rightarrow> rule_row \<Rightarrow> rule_row" where
  "advance d r = (case ag_next_cursor d of None \<Rightarrow> r | Some c \<Rightarrow> if Some (ar_id r) = ag_rule d then r\<lparr>ar_cursor := c\<rparr> else r)"

datatype assigned = No_rule_matched | Would_assign Assignment | Assigned Assignment

definition apply_rules :: "actor \<Rightarrow> string \<Rightarrow> bool \<Rightarrow> rules_db \<Rightarrow> rules_db \<times> (rule_fault, assigned) res" where
  "apply_rules a lead_id dry_run db =
     (case List.find (\<lambda>l. ld_id l = lead_id \<and> ld_tenant l = ac_tenant a \<and> ld_deleted_at l = None) (rd_leads db) of
        None \<Rightarrow> (db, Inl Rule_lead_not_found)
      | Some l \<Rightarrow>
          (case select_assignee (active_rules (ac_tenant a) db) (rule_facts l) None None of
             Inl err \<Rightarrow> (db, Inl (Rule_crash err))
           | Inr None \<Rightarrow> (db, Inr No_rule_matched)
           | Inr (Some d) \<Rightarrow>
               if dry_run then (db, Inr (Would_assign d))
               else case uuid_of (ag_assignee d) of
                 None \<Rightarrow> (db, Inl (Rule_crash ValueError))
               | Some u \<Rightarrow>
                   (audit_rule (event_of a ''lead.assigned'' lead_id [(''assignee_id'', JStr (ag_assignee d)), (''rule_id'', opt_json (ag_rule d)),
                       (''strategy'', JStr (ag_strategy d))])
                    (db\<lparr>rd_leads := set_row ld_id (l\<lparr>ld_assignee := Some u, ld_updated_by := Some (ac_user a), ld_version := ld_version l + 1\<rparr>)
                         (rd_leads db),
                        rd_rules := map (\<lambda>r. if r \<in> set (active_rules (ac_tenant a) db) then advance d r else r) (rd_rules db)\<rparr>),
                    Inr (Assigned d))))"

end
