(* ===== verification/Assignment_Safety.thy ===== *)
theory Assignment_Safety
  imports Assignment Refinement
begin

text \<open>
  Assignment rules: every operation keeps the stored rules well formed, well-formed rules are decided without an exception by the
  first one that matches, and the round robin of a rule hands out evenly over any number of leads.
\<close>

section \<open>Well-formed rules\<close>

definition clause_ok :: "json \<Rightarrow> bool" where
  "clause_ok c \<longleftrightarrow> (\<exists>f o' v. c = JDict [(''field'', JStr f), (''operator'', JStr o'), (''value'', v)] \<and> f \<in> set CONDITION_FIELDS \<and> o' \<in> set OPERATORS)"

definition rule_ok :: "rule_row \<Rightarrow> bool" where
  "rule_ok r \<longleftrightarrow> ar_id r \<noteq> [] \<and> ar_strategy r \<in> set STRATEGIES
     \<and> (\<exists>cs. ar_conditions r = [(''all'', JList cs)] \<and> length cs \<le> MAX_CONDITIONS \<and> list_all clause_ok cs)
     \<and> ar_targets r \<noteq> [] \<and> distinct (ar_targets r) \<and> length (ar_targets r) \<le> MAX_TARGETS
     \<and> 0 \<le> ar_cursor r \<and> ar_cursor r < int (length (ar_targets r))"

definition rules_inv :: "rules_db \<Rightarrow> bool" where
  "rules_inv db \<longleftrightarrow> list_all rule_ok (rd_rules db) \<and> distinct (map ar_id (rd_rules db))
     \<and> (\<forall>tenant entity. length (filter (\<lambda>r. ar_tenant r = tenant \<and> ar_entity r = entity) (rd_rules db)) \<le> MAX_RULES)
     \<and> distinct (map ld_id (rd_leads db))"

lemma set_lefts: "x \<in> set (lefts xs) \<longleftrightarrow> Inl x \<in> set xs"
  by (induction xs) (auto simp: lefts_def map_filter_simps split: sum.splits)

lemma set_rights: "x \<in> set (rights xs) \<longleftrightarrow> Inr x \<in> set xs"
  by (induction xs) (auto simp: rights_def map_filter_simps split: sum.splits)

lemma length_rights: "length (rights xs) \<le> length xs"
  by (induction xs) (auto simp: rights_def map_filter_simps split: sum.splits)

lemma check_clause_ok: "check_clause ic = Inr c \<Longrightarrow> clause_ok c"
  by (auto simp: check_clause_def clause_ok_def Let_def split: prod.splits json.splits if_splits)

lemma validate_rule_sound:
  assumes "validate_rule strategy conditions targets = Inr (cs, ts)"
  shows "strategy \<in> set STRATEGIES" "\<exists>xs. cs = [(''all'', JList xs)] \<and> length xs \<le> MAX_CONDITIONS \<and> list_all clause_ok xs"
    "ts \<noteq> []" "distinct ts" "length ts \<le> MAX_TARGETS" "ts = filter (\<lambda>t. py_strip t \<noteq> []) (map py_str targets)"
proof -
  define clauses where "clauses = (case dget_or ''all'' (JList []) conditions of JList cs \<Rightarrow> cs | _ \<Rightarrow> [])"
  note valid = assms[unfolded validate_rule_def Let_def problem_if_def, folded clauses_def]
  show "strategy \<in> set STRATEGIES" "ts \<noteq> []" "distinct ts" "length ts \<le> MAX_TARGETS" "ts = filter (\<lambda>t. py_strip t \<noteq> []) (map py_str targets)"
    using valid by (auto split: if_splits)
  let ?checked = "map check_clause (enumerate 0 clauses)"
  have "cs = [(''all'', JList (rights ?checked))]" "length clauses \<le> MAX_CONDITIONS" using valid by (auto split: if_splits)
  moreover have "list_all clause_ok (rights ?checked)" by (auto simp: list_all_iff set_rights dest: check_clause_ok[OF sym])
  moreover have "length (rights ?checked) \<le> length clauses" using length_rights[of ?checked] by simp
  ultimately show "\<exists>xs. cs = [(''all'', JList xs)] \<and> length xs \<le> MAX_CONDITIONS \<and> list_all clause_ok xs" by auto
qed

section \<open>Operations keep them\<close>

datatype rules_op =
    Create instant actor string string string jdict "json list" "int option" string
  | Update actor string "int option" rule_changes
  | Delete actor string
  | Reorder actor "string list"
  | Apply actor string bool

fun rules_step :: "rules_db \<Rightarrow> rules_op \<Rightarrow> rules_db" where
  "rules_step db (Create now a fresh name strategy conditions targets position entity) =
     fst (create_rule now a fresh name strategy conditions targets position entity db)"
| "rules_step db (Update a i expected c) = fst (update_rule a i expected c db)"
| "rules_step db (Delete a i) = fst (delete_rule a i db)"
| "rules_step db (Reorder a ids) = fst (reorder_rules a ids db)"
| "rules_step db (Apply a lead_id dry_run) = fst (apply_rules a lead_id dry_run db)"

text \<open>A fresh identifier is new.\<close>

fun rules_op_ok :: "rules_db \<Rightarrow> rules_op \<Rightarrow> bool" where
  "rules_op_ok db (Create now a fresh name strategy conditions targets position entity) \<longleftrightarrow> fresh \<noteq> [] \<and> fresh \<notin> ar_id ` set (rd_rules db)"
| "rules_op_ok db op \<longleftrightarrow> True"

lemma rules_tables [simp]:
  "rd_rules (audit_rule e db) = rd_rules db" "rd_leads (audit_rule e db) = rd_leads db"
  "rd_rules (put_rule r db) = set_row ar_id r (rd_rules db)" "rd_leads (put_rule r db) = rd_leads db"
  by (simp_all add: audit_rule_def put_rule_def)

lemma load_ruleD: "load_rule tenant i db = Some r \<Longrightarrow> r \<in> set (rd_rules db) \<and> ar_id r = i \<and> ar_tenant r = tenant"
  by (auto simp: load_rule_def find_Some_iff)

lemma inv_create:
  assumes "rules_inv db" and "fresh \<noteq> []" and "fresh \<notin> ar_id ` set (rd_rules db)"
  shows "rules_inv (fst (create_rule now a fresh name strategy conditions targets position entity db))"
proof (cases "validate_rule_name name")
  case None
  then show ?thesis using assms(1) by (simp add: create_rule_def)
next
  case (Some n)
  show ?thesis
  proof (cases "validate_rule strategy conditions targets")
    case (Inl e)
    then show ?thesis using Some assms(1) by (simp add: create_rule_def)
  next
    case (Inr v)
    obtain cs ts where v: "v = (cs, ts)" by (cases v)
    note valid = validate_rule_sound[OF Inr[unfolded v]]
    show ?thesis using assms valid(1-5) unfolding create_rule_def Some Inr v
      by (auto simp: rules_inv_def rule_ok_def Let_def image_iff)
  qed
qed

lemma inv_put_rule:
  assumes "rules_inv db" and "r \<in> set (rd_rules db)" and "rule_ok r'" and "ar_id r' = ar_id r" "ar_tenant r' = ar_tenant r" "ar_entity r' = ar_entity r"
  shows "rules_inv (put_rule r' db)"
proof -
  have unique: "x = r" if "x \<in> set (rd_rules db)" "ar_id x = ar_id r" for x
    using assms(1,2) that by (auto simp: rules_inv_def distinct_map dest: inj_onD)
  have "map (\<lambda>r. (ar_tenant r, ar_entity r)) (set_row ar_id r' (rd_rules db)) = map (\<lambda>r. (ar_tenant r, ar_entity r)) (rd_rules db)"
    using assms(4-6) unique by (auto simp: set_row_def)
  then have "length (filter (\<lambda>k. k = (tenant, entity)) (map (\<lambda>r. (ar_tenant r, ar_entity r)) (set_row ar_id r' (rd_rules db))))
      = length (filter (\<lambda>k. k = (tenant, entity)) (map (\<lambda>r. (ar_tenant r, ar_entity r)) (rd_rules db)))" for tenant entity by simp
  then have "length (filter (\<lambda>r. ar_tenant r = tenant \<and> ar_entity r = entity) (set_row ar_id r' (rd_rules db)))
      = length (filter (\<lambda>r. ar_tenant r = tenant \<and> ar_entity r = entity) (rd_rules db))" for tenant entity
    by (simp add: filter_map o_def)
  then show ?thesis using assms(1,3) by (auto simp: rules_inv_def list_all_iff dest: set_row_cases)
qed

lemma redefined_ok:
  assumes "rule_ok r" and "redefined c r = Inr r'"
  shows "rule_ok r' \<and> ar_id r' = ar_id r \<and> ar_tenant r' = ar_tenant r \<and> ar_entity r' = ar_entity r"
proof (cases "rc_strategy c = None \<and> rc_conditions c = None \<and> rc_targets c = None")
  case True
  then show ?thesis using assms by (auto simp: redefined_def)
next
  case False
  then obtain cs ts where v: "validate_rule (new_strategy c r) (case rc_conditions c of Some d \<Rightarrow> d | None \<Rightarrow> ar_conditions r)
       (case rc_targets c of Some ts \<Rightarrow> ts | None \<Rightarrow> map JStr (ar_targets r)) = Inr (cs, ts)"
    using assms(2) by (auto simp: redefined_def split: sum.splits)
  note valid = validate_rule_sound[OF v]
  have "r' = (let r' = r\<lparr>ar_strategy := new_strategy c r, ar_conditions := cs\<rparr> in
      if rc_targets c = None then r' else r'\<lparr>ar_targets := ts, ar_cursor := 0\<rparr>)"
    using assms(2) False v by (auto simp: redefined_def Let_def)
  then show ?thesis using assms(1) valid(1-5) by (auto simp: rule_ok_def Let_def)
qed

lemma changed_ok:
  assumes "rule_ok r" and "changed_rule c r = Inr r'"
  shows "rule_ok r' \<and> ar_id r' = ar_id r \<and> ar_tenant r' = ar_tenant r \<and> ar_entity r' = ar_entity r"
proof -
  obtain r1 r2 where r: "renamed c r = Inr r1" "redefined c r1 = Inr r2"
      "r' = r2\<lparr>ar_position := (case rc_position c of Some p \<Rightarrow> p | None \<Rightarrow> ar_position r2),
             ar_active := (case rc_active c of Some b \<Rightarrow> b | None \<Rightarrow> ar_active r2), ar_version := ar_version r2 + 1\<rparr>"
    using assms(2) by (auto simp: changed_rule_def rbind_eq_Inr)
  have "rule_ok r1 \<and> ar_id r1 = ar_id r \<and> ar_tenant r1 = ar_tenant r \<and> ar_entity r1 = ar_entity r"
    using assms(1) r(1) by (auto simp: renamed_def rule_ok_def split: option.splits)
  then show ?thesis using redefined_ok[of r1 c r2] r(2,3) by (auto simp: rule_ok_def)
qed

lemma inv_audit [simp]: "rules_inv (audit_rule e db) = rules_inv db"
  by (simp add: rules_inv_def)

lemma inv_update: "rules_inv db \<Longrightarrow> rules_inv (fst (update_rule a i expected c db))"
proof (cases "load_rule (ac_tenant a) i db")
  case (Some r)
  assume inv: "rules_inv db"
  have r: "r \<in> set (rd_rules db)" "rule_ok r" using load_ruleD[OF Some] inv by (auto simp: rules_inv_def list_all_iff)
  show ?thesis using inv changed_ok[OF r(2)] inv_put_rule[OF inv r(1)]
    by (auto simp: update_rule_def Some split: sum.splits)
qed (simp add: update_rule_def)

lemma inv_sub_rules:
  assumes "rules_inv db"
  shows "rules_inv (db\<lparr>rd_rules := filter P (rd_rules db)\<rparr>)"
proof -
  have "length (filter Q (filter P xs)) \<le> length (filter Q xs)" for Q and xs :: "rule_row list"
    by (induction xs) auto
  then have "length (filter (\<lambda>r. ar_tenant r = tenant \<and> ar_entity r = entity) (filter P (rd_rules db))) \<le> MAX_RULES" for tenant entity
    using assms order_trans unfolding rules_inv_def by blast
  then show ?thesis using assms by (simp add: rules_inv_def list_all_iff distinct_map_filter)
qed

text \<open>Steps that rewrite positions, versions and cursors only.\<close>

definition inner_change :: "(rule_row \<Rightarrow> rule_row) \<Rightarrow> bool" where
  "inner_change f \<longleftrightarrow> (\<forall>r. ar_id (f r) = ar_id r \<and> ar_tenant (f r) = ar_tenant r \<and> ar_entity (f r) = ar_entity r)"

lemma inv_map_rules:
  assumes "rules_inv db" and "inner_change f" and "\<And>r. r \<in> set (rd_rules db) \<Longrightarrow> rule_ok (f r)"
  shows "rules_inv (db\<lparr>rd_rules := map f (rd_rules db)\<rparr>)"
  using assms by (auto simp: rules_inv_def inner_change_def list_all_iff filter_map o_def)

lemma inv_move: "rules_inv db \<Longrightarrow> rules_inv (db\<lparr>rd_rules := move_rule slot (rd_rules db)\<rparr>)"
proof (cases slot)
  case (Pair position i)
  assume inv: "rules_inv db"
  then have "rule_ok r" if "r \<in> set (rd_rules db)" for r using that by (simp add: rules_inv_def list_all_iff)
  then show ?thesis unfolding move_rule_def Pair prod.case
    by (intro inv_map_rules[OF inv]) (auto simp: inner_change_def rule_ok_def)
qed

lemma inv_moves: "rules_inv db \<Longrightarrow> rules_inv (db\<lparr>rd_rules := foldl (\<lambda>rs slot. move_rule slot rs) (rd_rules db) slots\<rparr>)"
proof (induction slots arbitrary: db)
  case (Cons slot slots)
  from Cons.IH[OF inv_move[OF Cons.prems, of slot]] show ?case by simp
qed simp

lemma advance_fields [simp]:
  "ar_id (advance d r) = ar_id r" "ar_tenant (advance d r) = ar_tenant r" "ar_entity (advance d r) = ar_entity r"
  "ar_active (advance d r) = ar_active r" "ar_position (advance d r) = ar_position r" "ar_conditions (advance d r) = ar_conditions r"
  "ar_targets (advance d r) = ar_targets r" "ar_strategy (advance d r) = ar_strategy r" "ar_name (advance d r) = ar_name r"
  by (simp_all add: advance_def split: option.splits)

section \<open>The first match decides\<close>

text \<open>What a rule demands, read off its clauses.\<close>

definition clause_holds :: "jdict \<Rightarrow> json \<Rightarrow> bool" where
  "clause_holds lead c = (case c of
      JDict d \<Rightarrow> compare_values (py_str (dget ''operator'' d)) (dget (py_str (dget ''field'' d)) lead) (dget ''value'' d)
    | _ \<Rightarrow> False)"

definition rule_holds :: "jdict \<Rightarrow> rule_row \<Rightarrow> bool" where
  "rule_holds lead r \<longleftrightarrow> (\<forall>c \<in> set (case dget ''all'' (ar_conditions r) of JList cs \<Rightarrow> cs | _ \<Rightarrow> []). clause_holds lead c)"

definition deciding :: "jdict \<Rightarrow> rule_row list \<Rightarrow> rule_row option" where
  "deciding lead rules = List.find (\<lambda>r. ar_active r \<and> rule_holds lead r) (sort_key rule_order rules)"

lemma clause_matches_holds: "clause_ok c \<Longrightarrow> clause_matches c lead = Inr (clause_holds lead c)"
  by (auto simp: clause_ok_def clause_matches_def clause_holds_def subscript_def hashable_def is_jlist_def is_jdict_def jget_def dget_def)

lemma all_match_holds: "list_all clause_ok cs \<Longrightarrow> all_match cs lead = Inr (\<forall>c \<in> set cs. clause_holds lead c)"
  by (induction cs) (auto simp: clause_matches_holds)

lemma rule_matches_holds:
  assumes "rule_ok r"
  shows "rule_matches r lead = Inr (rule_holds lead r)"
proof -
  obtain cs where "ar_conditions r = [(''all'', JList cs)]" "list_all clause_ok cs" using assms by (auto simp: rule_ok_def)
  then show ?thesis by (simp add: rule_matches_def rule_holds_def iterate_def dget_def dget_or_def all_match_holds)
qed

lemma first_assignment_find:
  assumes "list_all rule_ok rules"
  shows "first_assignment w None lead rules = Inr (map_option (assignment_by w None) (List.find (\<lambda>r. ar_active r \<and> rule_holds lead r) rules))"
  using assms by (induction rules) (auto simp: rule_matches_holds eligible_targets_def rule_ok_def)

lemma select_deciding:
  assumes "list_all rule_ok rules"
  shows "select_assignee rules lead w None = Inr (map_option (assignment_by w None) (deciding lead rules))"
  using assms by (simp add: select_assignee_def deciding_def first_assignment_find list_all_iff)

section \<open>Cursors move, decisions do not\<close>

lemma insort_key_map: "(\<And>x. k (f x) = k x) \<Longrightarrow> map f (insort_key k x xs) = insort_key k (f x) (map f xs)"
  by (induction xs) auto

lemma sort_key_map: "(\<And>x. k (f x) = k x) \<Longrightarrow> sort_key k (map f xs) = map f (sort_key k xs)"
  by (induction xs) (auto simp: insort_key_map)

lemma find_map_same: "(\<And>x. P (f x) = P x) \<Longrightarrow> List.find P (map f xs) = map_option f (List.find P xs)"
  by (induction xs) auto

definition moves_cursor :: "(rule_row \<Rightarrow> rule_row) \<Rightarrow> bool" where
  "moves_cursor f \<longleftrightarrow> (\<forall>r. \<exists>c. f r = r\<lparr>ar_cursor := c\<rparr>)"

lemma moves_cursor_fields:
  assumes "moves_cursor f"
  shows "ar_id (f r) = ar_id r" "ar_tenant (f r) = ar_tenant r" "ar_entity (f r) = ar_entity r" "ar_active (f r) = ar_active r"
    "ar_position (f r) = ar_position r" "ar_conditions (f r) = ar_conditions r" "ar_targets (f r) = ar_targets r"
    "ar_strategy (f r) = ar_strategy r" "ar_name (f r) = ar_name r"
proof -
  obtain c where "f r = r\<lparr>ar_cursor := c\<rparr>" using assms by (auto simp: moves_cursor_def)
  then show "ar_id (f r) = ar_id r" "ar_tenant (f r) = ar_tenant r" "ar_entity (f r) = ar_entity r" "ar_active (f r) = ar_active r"
    "ar_position (f r) = ar_position r" "ar_conditions (f r) = ar_conditions r" "ar_targets (f r) = ar_targets r"
    "ar_strategy (f r) = ar_strategy r" "ar_name (f r) = ar_name r" by simp_all
qed

lemma deciding_map:
  assumes "moves_cursor f"
  shows "deciding lead (map f rules) = map_option f (deciding lead rules)"
  unfolding deciding_def using moves_cursor_fields[OF assms]
  by (simp add: sort_key_map find_map_same rule_order_def rule_holds_def)

lemma active_map:
  assumes "moves_cursor f"
  shows "active_rules tenant (db\<lparr>rd_rules := map f (rd_rules db)\<rparr>) = map f (active_rules tenant db)"
  unfolding active_rules_def using moves_cursor_fields[OF assms] by (simp add: sort_key_map filter_map o_def)

lemma active_rules_ok: "rules_inv db \<Longrightarrow> list_all rule_ok (active_rules tenant db)"
  by (auto simp: rules_inv_def active_rules_def list_all_iff)

lemma decidingD: "deciding lead rules = Some r \<Longrightarrow> r \<in> set rules \<and> ar_active r \<and> rule_holds lead r"
  unfolding deciding_def using find_Some_split[of _ "sort_key rule_order rules"] by (metis in_set_conv_decomp set_sort)

section \<open>One application\<close>

definition found_lead :: "string \<Rightarrow> string \<Rightarrow> rules_db \<Rightarrow> Lead option" where
  "found_lead tenant i db = List.find (\<lambda>l. ld_id l = i \<and> ld_tenant l = tenant \<and> ld_deleted_at l = None) (rd_leads db)"

definition facts_of :: "string \<Rightarrow> string \<Rightarrow> rules_db \<Rightarrow> jdict option" where
  "facts_of tenant i db = map_option rule_facts (found_lead tenant i db)"

definition assigned_lead :: "actor \<Rightarrow> string \<Rightarrow> Lead \<Rightarrow> Lead" where
  "assigned_lead a u l = l\<lparr>ld_assignee := Some u, ld_updated_by := Some (ac_user a), ld_version := ld_version l + 1\<rparr>"

lemma assigned_lead_fields [simp]:
  "ld_id (assigned_lead a u l) = ld_id l" "ld_tenant (assigned_lead a u l) = ld_tenant l" "ld_deleted_at (assigned_lead a u l) = ld_deleted_at l"
  "rule_facts (assigned_lead a u l) = rule_facts l"
  by (simp_all add: assigned_lead_def rule_facts_def)

lemma found_leadD: "found_lead tenant i db = Some l \<Longrightarrow> l \<in> set (rd_leads db) \<and> ld_id l = i \<and> ld_tenant l = tenant \<and> ld_deleted_at l = None"
  by (auto simp: found_lead_def find_Some_iff)

lemma replaced_as_map:
  assumes "distinct (map ld_id ls)" and "l \<in> set ls"
  shows "set_row ld_id (assigned_lead a u l) ls = map (\<lambda>x. if ld_id x = ld_id l then assigned_lead a u x else x) ls"
  using assms by (auto simp: set_row_def distinct_map dest: inj_onD)

lemma facts_kept:
  assumes "distinct (map ld_id (rd_leads db))" and "l \<in> set (rd_leads db)"
  shows "facts_of tenant i (db\<lparr>rd_leads := set_row ld_id (assigned_lead a u l) (rd_leads db)\<rparr>) = facts_of tenant i db"
  unfolding facts_of_def found_lead_def replaced_as_map[OF assms, of a u]
  by (simp add: find_map_same option.map_comp o_def if_distrib cong: if_cong option.map_cong)

definition cursor_moved :: "actor \<Rightarrow> rules_db \<Rightarrow> Assignment \<Rightarrow> rule_row \<Rightarrow> rule_row" where
  "cursor_moved a db d r = (if ar_tenant r = ac_tenant a \<and> ar_entity r = ''lead'' \<and> ar_active r then advance d r else r)"

lemma moves_cursor_moved: "moves_cursor (cursor_moved a db d)"
proof -
  have "\<exists>c. r = r\<lparr>ar_cursor := c\<rparr>" for r :: rule_row by (rule exI[of _ "ar_cursor r"]) simp
  then show ?thesis unfolding moves_cursor_def cursor_moved_def advance_def by (auto split: option.splits)
qed

lemma set_active: "r \<in> set (active_rules tenant db) \<longleftrightarrow> r \<in> set (rd_rules db) \<and> ar_tenant r = tenant \<and> ar_entity r = ''lead'' \<and> ar_active r"
  by (auto simp: active_rules_def)

lemma apply_rules_cases:
  assumes "rules_inv db"
  obtains (unchanged) r where "apply_rules a i dry db = (db, r)"
  | (assigned) l rule u e where "found_lead (ac_tenant a) i db = Some l" "deciding (rule_facts l) (active_rules (ac_tenant a) db) = Some rule"
      "\<not> dry" "uuid_of (ag_assignee (assignment_by None None rule)) = Some u"
      "apply_rules a i dry db = (audit_rule e (db\<lparr>rd_leads := set_row ld_id (assigned_lead a u l) (rd_leads db),
         rd_rules := map (cursor_moved a db (assignment_by None None rule)) (rd_rules db)\<rparr>), Inr (Assigned (assignment_by None None rule)))"
proof (cases "found_lead (ac_tenant a) i db")
  case None
  then show thesis by (intro unchanged) (simp add: apply_rules_def found_lead_def)
next
  case (Some l)
  note found = Some
  have select: "select_assignee (active_rules (ac_tenant a) db) (rule_facts l) None None
      = Inr (map_option (assignment_by None None) (deciding (rule_facts l) (active_rules (ac_tenant a) db)))"
    by (rule select_deciding[OF active_rules_ok[OF assms]])
  show thesis
  proof (cases "deciding (rule_facts l) (active_rules (ac_tenant a) db)")
    case None
    then show thesis using found select by (intro unchanged) (simp add: apply_rules_def found_lead_def)
  next
    case (Some rule)
    let ?d = "assignment_by None None rule"
    have rules: "map (\<lambda>r. if r \<in> set (active_rules (ac_tenant a) db) then advance ?d r else r) (rd_rules db)
        = map (cursor_moved a db ?d) (rd_rules db)" by (simp add: cursor_moved_def set_active)
    show thesis
    proof (cases "dry \<or> uuid_of (ag_assignee ?d) = None")
      case True
      then show thesis using found select Some
        by (cases dry) (auto intro!: unchanged simp: apply_rules_def found_lead_def)
    next
      case False
      then obtain u where "uuid_of (ag_assignee ?d) = Some u" "\<not> dry" by auto
      then show thesis using found select Some
        by (intro assigned) (simp_all add: apply_rules_def found_lead_def assigned_lead_def rules)
    qed
  qed
qed

lemma pick_without_load: "pick_target strategy cursor None targets = (if strategy = ''first_available'' then (hd targets, None)
    else (targets ! nat (cursor mod int (length targets)), Some ((cursor + 1) mod int (length targets))))"
  by (cases "strategy = ''load_balanced''") (simp_all add: pick_target_def)

lemma assignment_by_rule: "rule_ok rule \<Longrightarrow> ag_rule (assignment_by None None rule) = Some (ar_id rule)"
  by (auto simp: assignment_by_def nonempty_def rule_ok_def split: prod.splits)

lemma next_cursor_in:
  assumes "rule_ok rule" and "ag_next_cursor (assignment_by None None rule) = Some c"
  shows "0 \<le> c \<and> c < int (length (ar_targets rule))"
  using assms by (auto simp: assignment_by_def pick_without_load eligible_targets_def rule_ok_def split: if_splits)

lemma unique_rule: "rules_inv db \<Longrightarrow> r \<in> set (rd_rules db) \<Longrightarrow> r' \<in> set (rd_rules db) \<Longrightarrow> ar_id r = ar_id r' \<Longrightarrow> r = r'"
  by (auto simp: rules_inv_def distinct_map dest: inj_onD)

lemma cursor_moved_ok:
  assumes "rules_inv db" and "rule \<in> set (rd_rules db)" and "r \<in> set (rd_rules db)"
  shows "rule_ok (cursor_moved a db (assignment_by None None rule) r)"
proof -
  have ok: "rule_ok rule" "rule_ok r" using assms by (auto simp: rules_inv_def list_all_iff)
  show ?thesis
  proof (cases "ag_next_cursor (assignment_by None None rule)")
    case None
    then show ?thesis using ok(2) by (simp add: cursor_moved_def advance_def)
  next
    case (Some c)
    note c = next_cursor_in[OF ok(1) Some]
    show ?thesis
    proof (cases "ar_id r = ar_id rule")
      case True
      then have "r = rule" using unique_rule[OF assms(1,3,2)] by simp
      then show ?thesis using ok(1) c Some assignment_by_rule[OF ok(1)] by (auto simp: cursor_moved_def advance_def rule_ok_def)
    next
      case False
      then show ?thesis using ok(2) Some assignment_by_rule[OF ok(1)] by (simp add: cursor_moved_def advance_def)
    qed
  qed
qed

lemma inv_apply:
  assumes "rules_inv db"
  shows "rules_inv (fst (apply_rules a i dry db))"
  using assms
proof (cases rule: apply_rules_cases[where a = a and i = i and dry = dry])
  case (unchanged r)
  then show ?thesis using assms by simp
next
  case (assigned l rule u e)
  have "rule \<in> set (rd_rules db)" using decidingD[OF assigned(2)] by (simp add: set_active)
  then have "rules_inv (db\<lparr>rd_rules := map (cursor_moved a db (assignment_by None None rule)) (rd_rules db)\<rparr>)"
    using moves_cursor_fields[OF moves_cursor_moved] cursor_moved_ok[OF assms]
    by (intro inv_map_rules[OF assms]) (auto simp: inner_change_def)
  then show ?thesis using assigned(5) by (simp add: rules_inv_def)
qed

lemma rules_inv_step: "rules_inv db \<Longrightarrow> rules_op_ok db op \<Longrightarrow> rules_inv (rules_step db op)"
proof (cases op)
  case (Delete a i)
  assume "rules_inv db"
  then show ?thesis using inv_sub_rules[of db "\<lambda>x. ar_id x \<noteq> i"] by (auto simp: Delete delete_rule_def split: option.splits)
next
  case (Reorder a ids)
  assume "rules_inv db"
  then show ?thesis using inv_moves[of db "enumerate 0 ids"] by (auto simp: Reorder reorder_rules_def Let_def)
qed (auto simp: inv_create inv_update inv_apply)

lemma rules_inv_run: "rules_inv db \<Longrightarrow> run_ok rules_step rules_op_ok db ops \<Longrightarrow> rules_inv (foldl rules_step db ops)"
  by (induction ops arbitrary: db) (auto simp: rules_inv_step)

section \<open>Fairness\<close>

lemma count_residues:
  assumes "d < n"
  shows "card {i. i < k \<and> i mod n = d} = k div n + (if d < k mod n then 1 else 0)"
proof (induction k)
  case (Suc k)
  have "{i. i < Suc k \<and> i mod n = d} = {i. i < k \<and> i mod n = d} \<union> (if k mod n = d then {k} else {})" by (auto simp: less_Suc_eq)
  then have "card {i. i < Suc k \<and> i mod n = d} = card {i. i < k \<and> i mod n = d} + (if k mod n = d then 1 else 0)" by simp
  then show ?case using Suc assms by (auto simp: mod_Suc div_Suc)
qed simp

lemma shifted_residue:
  fixes n :: nat
  assumes "d < n" and "c < n"
  shows "(c + i) mod n = d \<longleftrightarrow> i mod n = (d + n - c) mod n"
proof
  assume "(c + i) mod n = d"
  then have "(d + (n - c)) mod n = (c + i + (n - c)) mod n" by (metis mod_add_left_eq)
  also have "\<dots> = i mod n" using assms(2) by (simp add: add.commute add.left_commute)
  finally show "i mod n = (d + n - c) mod n" using assms(2) by simp
next
  assume "i mod n = (d + n - c) mod n"
  then have "(c + i) mod n = (c + (d + n - c)) mod n" by (metis mod_add_right_eq)
  also have "\<dots> = d" using assms by simp
  finally show "(c + i) mod n = d" .
qed

text \<open>How often a target comes up when \<open>k\<close> leads are handed out from position \<open>c\<close> on.\<close>

definition turns :: "'a list \<Rightarrow> nat \<Rightarrow> nat \<Rightarrow> 'a list" where
  "turns ts c k = map (\<lambda>i. ts ! ((c + i) mod length ts)) [0..<k]"

lemma turns_Suc: "turns ts c (Suc k) = ts ! (c mod length ts) # turns ts (Suc c) k"
  unfolding turns_def by (simp add: upt_conv_Cons map_Suc_upt[symmetric] o_def del: upt_Suc)

lemma turns_mod: "turns ts (c mod length ts) k = turns ts c k"
  by (simp add: turns_def mod_add_left_eq)

lemma turns_even:
  assumes "distinct ts" and "t \<in> set ts" and "c < length ts"
  shows "count_list (turns ts c k) t \<in> {k div length ts, Suc (k div length ts)}"
proof -
  obtain d where d: "d < length ts" "ts ! d = t" using assms(2) by (auto simp: in_set_conv_nth)
  let ?e = "(d + length ts - c) mod length ts"
  have pos: "0 < length ts" using d by linarith
  have "ts ! ((c + i) mod length ts) = t \<longleftrightarrow> i mod length ts = ?e" for i
  proof -
    have "(c + i) mod length ts < length ts" using pos by simp
    then have "ts ! ((c + i) mod length ts) = ts ! d \<longleftrightarrow> (c + i) mod length ts = d" using assms(1) d(1) by (simp add: nth_eq_iff_index_eq)
    then show ?thesis using shifted_residue[OF d(1) assms(3)] d(2) by simp
  qed
  then have "count_list (turns ts c k) t = card {i. i < k \<and> i mod length ts = ?e}"
    unfolding turns_def count_list_eq_length_filter by (simp add: filter_map o_def length_filter_conv_card eq_commute[of t] cong: conj_cong)
  then show ?thesis using count_residues[of ?e "length ts" k] pos by auto
qed

fun apply_all :: "actor \<Rightarrow> string list \<Rightarrow> rules_db \<Rightarrow> (rule_fault, assigned) res list" where
  "apply_all a [] db = []"
| "apply_all a (i # is) db = (case apply_rules a i False db of (db', r) \<Rightarrow> r # apply_all a is db')"

definition assignee_of :: "(rule_fault, assigned) res \<Rightarrow> string option" where
  "assignee_of r = (case r of Inr (Assigned d) \<Rightarrow> Some (ag_assignee d) | _ \<Rightarrow> None)"

text \<open>The lead is present and \<open>rule\<close> decides it.\<close>

definition decided_by :: "actor \<Rightarrow> rules_db \<Rightarrow> rule_row \<Rightarrow> string \<Rightarrow> bool" where
  "decided_by a db rule i \<longleftrightarrow> (\<exists>f. facts_of (ac_tenant a) i db = Some f \<and> deciding f (active_rules (ac_tenant a) db) = Some rule)"

definition next_turn :: "rule_row \<Rightarrow> rule_row" where
  "next_turn r = r\<lparr>ar_cursor := (ar_cursor r + 1) mod int (length (ar_targets r))\<rparr>"

lemma apply_turn:
  assumes "rules_inv db" and "decided_by a db rule i" and "ar_strategy rule \<noteq> ''first_available''" and "list_all (\<lambda>t. uuid_of t \<noteq> None) (ar_targets rule)"
  obtains db' r where "apply_rules a i False db = (db', r)" "assignee_of r = Some (ar_targets rule ! nat (ar_cursor rule))"
    "rules_inv db'" "\<And>j. decided_by a db rule j \<Longrightarrow> decided_by a db' (next_turn rule) j"
  using assms(1)
proof (cases rule: apply_rules_cases[where a = a and i = i and dry = False])
  let ?d = "assignment_by None None rule"
  have rule: "rule \<in> set (active_rules (ac_tenant a) db)" using assms(2) decidingD by (auto simp: decided_by_def)
  then have ok: "rule_ok rule" using active_rules_ok[OF assms(1)] by (auto simp: list_all_iff)
  have d: "ag_assignee ?d = ar_targets rule ! nat (ar_cursor rule)" "ag_next_cursor ?d = Some ((ar_cursor rule + 1) mod int (length (ar_targets rule)))"
    using ok assms(3) by (simp_all add: assignment_by_def pick_without_load eligible_targets_def rule_ok_def)
  have "ar_targets rule ! nat (ar_cursor rule) \<in> set (ar_targets rule)" using ok by (auto simp: rule_ok_def)
  then obtain u where u: "uuid_of (ag_assignee ?d) = Some u" using assms(4) d(1) by (auto simp: list_all_iff)
  obtain l where l: "found_lead (ac_tenant a) i db = Some l" "deciding (rule_facts l) (active_rules (ac_tenant a) db) = Some rule"
    using assms(2) by (auto simp: decided_by_def facts_of_def)
  {
    case (unchanged r)
    have "select_assignee (active_rules (ac_tenant a) db) (rule_facts l) None None = Inr (Some ?d)"
      using select_deciding[OF active_rules_ok[OF assms(1)]] l(2) by simp
    then have "rd_audit (fst (apply_rules a i False db)) \<noteq> rd_audit db"
      using l(1) u by (simp add: apply_rules_def found_lead_def audit_rule_def)
    then show thesis using unchanged by simp
  next
    case (assigned l' rule' u' e)
    have same: "rule' = rule" "l' = l" using assigned(1,2) l by simp_all
    let ?db = "db\<lparr>rd_leads := set_row ld_id (assigned_lead a u' l) (rd_leads db)\<rparr>"
    let ?f = "cursor_moved a db ?d"
    have f: "?f rule = next_turn rule" using rule d(2) assignment_by_rule[OF ok]
      by (simp add: cursor_moved_def advance_def next_turn_def set_active)
    have "facts_of (ac_tenant a) j ?db = facts_of (ac_tenant a) j db" for j
      using facts_kept[of db l] assms(1) found_leadD[OF l(1)] by (simp add: rules_inv_def)
    then have "decided_by a (audit_rule e (?db\<lparr>rd_rules := map ?f (rd_rules db)\<rparr>)) (next_turn rule) j" if "decided_by a db rule j" for j
      using that f active_map[OF moves_cursor_moved[of a db ?d], of "ac_tenant a" db]
      by (auto simp: decided_by_def facts_of_def found_lead_def active_rules_def audit_rule_def deciding_map[OF moves_cursor_moved])
    moreover have "rules_inv (fst (apply_rules a i False db))" by (rule inv_apply[OF assms(1)])
    ultimately show thesis using assigned(5) d(1) unfolding same
      by (intro that[OF assigned(5)[unfolded same]]) (simp_all add: assignee_of_def)
  }
qed

lemma apply_all_turns:
  assumes "rules_inv db" and "\<And>i. i \<in> set is \<Longrightarrow> decided_by a db rule i" and "rule_ok rule" and "ar_strategy rule \<noteq> ''first_available''"
    and "list_all (\<lambda>t. uuid_of t \<noteq> None) (ar_targets rule)"
  shows "map assignee_of (apply_all a is db) = map Some (turns (ar_targets rule) (nat (ar_cursor rule)) (length is))"
  using assms
proof (induction "is" arbitrary: db rule)
  case Nil
  then show ?case by (simp add: turns_def)
next
  case (Cons i "is")
  have first: "decided_by a db rule i" using Cons.prems(2) by simp
  obtain db' r where step: "apply_rules a i False db = (db', r)" "assignee_of r = Some (ar_targets rule ! nat (ar_cursor rule))"
      "rules_inv db'" "\<And>j. decided_by a db rule j \<Longrightarrow> decided_by a db' (next_turn rule) j"
    using apply_turn[OF Cons.prems(1) first Cons.prems(4,5)] by blast
  let ?n = "length (ar_targets rule)"
  have cursor: "0 \<le> ar_cursor rule" "nat (ar_cursor rule) < ?n" "0 < ?n" using Cons.prems(3) by (auto simp: rule_ok_def)
  have "rule_ok (next_turn rule)" using Cons.prems(3) cursor(3) by (auto simp: rule_ok_def next_turn_def)
  then have "map assignee_of (apply_all a is db') = map Some (turns (ar_targets rule) (nat (ar_cursor (next_turn rule))) (length is))"
    using Cons.IH[OF step(3), of "next_turn rule"] step(4) Cons.prems(2,4,5) by (simp add: next_turn_def)
  moreover have "nat (ar_cursor (next_turn rule)) = Suc (nat (ar_cursor rule)) mod ?n"
    using cursor(1) by (simp add: next_turn_def nat_mod_distrib nat_add_distrib)
  ultimately show ?case using step(1,2) cursor by (simp add: turns_Suc turns_mod)
qed

section \<open>Properties\<close>

text \<open>
  C25. After any sequence of operations on rules the choice for a lead never raises: it is made by the first rule, in the order of
  position and identifier, that is active and all of whose clauses hold of the lead, and it names one of that rule's targets; without
  such a rule the lead stays as it is.
\<close>

theorem assignment_first_match:
  assumes "rules_inv db" and "run_ok rules_step rules_op_ok db ops" and "db' = foldl rules_step db ops"
  shows "select_assignee (active_rules tenant db') lead w None
      = Inr (map_option (assignment_by w None) (deciding lead (active_rules tenant db')))
    \<and> (\<forall>rule. deciding lead (active_rules tenant db') = Some rule \<longrightarrow> ag_assignee (assignment_by None None rule) \<in> set (ar_targets rule))"
proof (intro conjI allI impI)
  have inv: "rules_inv db'" using rules_inv_run[OF assms(1,2)] assms(3) by simp
  show "select_assignee (active_rules tenant db') lead w None = Inr (map_option (assignment_by w None) (deciding lead (active_rules tenant db')))"
    by (rule select_deciding[OF active_rules_ok[OF inv]])
  fix rule
  assume "deciding lead (active_rules tenant db') = Some rule"
  then have "rule_ok rule" using decidingD active_rules_ok[OF inv] by (fastforce simp: list_all_iff)
  then show "ag_assignee (assignment_by None None rule) \<in> set (ar_targets rule)"
    by (auto simp: assignment_by_def pick_without_load eligible_targets_def rule_ok_def)
qed

definition rule_admin :: actor where
  "rule_admin = \<lparr>ac_tenant = ''t'', ac_user = ''u'', ac_perms = \<lparr>ep_permissions = [], ep_scope = GLOBAL, ep_branch_ids = [], ep_team_ids = [],
     ep_user_id = Some ''u''\<rparr>\<rparr>"

definition walk_in :: Lead where
  "walk_in = new_lead rule_admin ''l'' \<lparr>lp_first_name = Some ''Asha'', lp_last_name = None, lp_email = None, lp_phone = None, lp_source = Some ''Web'',
     lp_source_channel = None, lp_capture = [], lp_utm = [], lp_assignee = None, lp_branch = None, lp_team = None\<rparr> ''Asha''"

definition rules_start :: rules_db where
  "rules_start = \<lparr>rd_rules = [], rd_leads = [walk_in], rd_audit = []\<rparr>"

definition rules_ops :: "rules_op list" where
  "rules_ops = [Create 0 rule_admin ''r'' ''Everything'' ''first_available'' [] [JStr (show_uuid 3)] (Some 9) ''lead'',
     Create 1 rule_admin ''s'' ''Web'' ''round_robin'' [(''all'', JList [JDict [(''field'', JStr ''source''), (''value'', JStr ''web'')]])]
       [JStr (show_uuid 1), JStr (show_uuid 2)] None ''lead'', Apply rule_admin ''l'' False]"

abbreviation rules_now :: rules_db where "rules_now \<equiv> foldl rules_step rules_start rules_ops"

lemma rules_sample: "rules_inv rules_start" "run_ok rules_step rules_op_ok rules_start rules_ops"
proof -
  show "rules_inv rules_start" by (simp add: rules_inv_def rules_start_def)
  show "run_ok rules_step rules_op_ok rules_start rules_ops" by code_simp
qed

theorem assignment_first_match_witness:
  "select_assignee (active_rules ''t'' rules_now) (rule_facts walk_in) None None
     = Inr (map_option (assignment_by None None) (deciding (rule_facts walk_in) (active_rules ''t'' rules_now)))
   \<and> map_option ar_id (deciding (rule_facts walk_in) (active_rules ''t'' rules_now)) = Some ''s''"
proof
  show "select_assignee (active_rules ''t'' rules_now) (rule_facts walk_in) None None
     = Inr (map_option (assignment_by None None) (deciding (rule_facts walk_in) (active_rules ''t'' rules_now)))"
    using assignment_first_match[OF rules_sample refl, of "''t''" "rule_facts walk_in" None] by (rule conjunct1)
  show "map_option ar_id (deciding (rule_facts walk_in) (active_rules ''t'' rules_now)) = Some ''s''" by code_simp
qed

text \<open>
  C24. Round robin is fair from every state: when the same round-robin rule, all of whose targets are UUIDs, decides every one of a
  number of leads that it is applied to one after the other, each of its targets receives the number of leads divided by the number of
  targets, rounded down or up. The rule may have been edited and applied in any way before. (A rule of the strategy
  \<^verbatim>\<open>first_available\<close> gives everything to its first target, and applying a rule raises at a target that is no UUID.)
\<close>

theorem round_robin_fair:
  assumes "rules_inv db" and "run_ok rules_step rules_op_ok db ops" and "db' = foldl rules_step db ops"
    and "list_all (decided_by a db' rule) is" and "is \<noteq> []" and "ar_strategy rule \<noteq> ''first_available''"
    and "list_all (\<lambda>t. uuid_of t \<noteq> None) (ar_targets rule)" and "t \<in> set (ar_targets rule)"
  shows "count_list (map assignee_of (apply_all a is db')) (Some t)
    \<in> {length is div length (ar_targets rule), Suc (length is div length (ar_targets rule))}"
proof -
  have inv: "rules_inv db'" using rules_inv_run[OF assms(1,2)] assms(3) by simp
  have decided: "decided_by a db' rule i" if "i \<in> set is" for i using assms(4) that by (auto simp: list_all_iff)
  then obtain f where "deciding f (active_rules (ac_tenant a) db') = Some rule" using assms(5) by (fastforce simp: decided_by_def neq_Nil_conv)
  then have ok: "rule_ok rule" using decidingD active_rules_ok[OF inv] by (fastforce simp: list_all_iff)
  have "count_list (map Some ts) (Some x) = count_list ts x" for ts and x :: string by (induction ts) auto
  moreover have "nat (ar_cursor rule) < length (ar_targets rule)" "distinct (ar_targets rule)" using ok by (auto simp: rule_ok_def)
  ultimately show ?thesis
    using apply_all_turns[OF inv decided ok assms(6,7), of "is"] turns_even[of "ar_targets rule" t "nat (ar_cursor rule)" "length is"] assms(8)
    by simp
qed

definition rule_now :: rule_row where "rule_now = rd_rules rules_now ! 1"

lemma rule_now_decides: "list_all (decided_by rule_admin rules_now rule_now) [''l'', ''l'', ''l'']"
proof -
  have "map_option (\<lambda>f. deciding f (active_rules (ac_tenant rule_admin) rules_now)) (facts_of (ac_tenant rule_admin) ''l'' rules_now)
      = Some (Some rule_now)" by code_simp
  then show ?thesis by (auto simp: decided_by_def)
qed

theorem round_robin_fair_witness:
  "count_list (map assignee_of (apply_all rule_admin [''l'', ''l'', ''l''] rules_now)) (Some (show_uuid 1)) \<in> {1, 2}
   \<and> ar_targets rule_now = [show_uuid 1, show_uuid 2]"
proof -
  have targets: "ar_targets rule_now = [show_uuid 1, show_uuid 2]" by code_simp
  have "ar_strategy rule_now \<noteq> ''first_available''" "list_all (\<lambda>t. uuid_of t \<noteq> None) (ar_targets rule_now)"
    "show_uuid 1 \<in> set (ar_targets rule_now)" by code_simp+
  note fair = round_robin_fair[OF rules_sample refl rule_now_decides list.distinct(2) this]
  have "length [''l'', ''l'', ''l''] div length (ar_targets rule_now) = 1" by code_simp
  from fair[unfolded this] targets show ?thesis by (simp only: One_nat_def numeral_2_eq_2 simp_thms)
qed

end
