(* ===== verification/Csv.thy ===== *)
theory Csv
  imports Py_Str
begin

text \<open>
  Python's \<^verbatim>\<open>csv\<close> reader and writer with the default dialect, as \<^verbatim>\<open>application/leads/importer.py\<close> uses them: the reader is the
  automaton of the C module, fed with the characters of each line and an end-of-line mark; a record ends when the mark
  leaves it at the start of a record. \<^verbatim>\<open>io.StringIO\<close> ends lines at line feeds only. The records read before an error are returned
  with it, because the reader is lazy. The writer quotes where it must and ends rows with a carriage return and a line feed.
  Reading what was written gives the cells back.
\<close>

datatype csv_state = Start_record | Start_field | In_field | In_quoted | Quote_in_quoted | Eat_crnl

record csv_parser =
  cp_state :: csv_state
  cp_field :: string
  cp_fields :: "string list"

definition FIELD_LIMIT :: int where "FIELD_LIMIT = 131072"

definition comma :: char where "comma = CHR '',''"
definition quote :: char where "quote = CHR 0x22"
definition cr :: char where "cr = CHR 0x0D"
definition lf :: char where "lf = CHR 0x0A"

lemmas csv_chars = comma_def quote_def cr_def lf_def

definition csv_start :: csv_parser where
  "csv_start = \<lparr>cp_state = Start_record, cp_field = [], cp_fields = []\<rparr>"

definition add_char :: "char \<Rightarrow> csv_state \<Rightarrow> csv_parser \<Rightarrow> csv_parser option" where
  "add_char c st p = (if int (length (cp_field p)) \<ge> FIELD_LIMIT then None else Some (p\<lparr>cp_state := st, cp_field := cp_field p @ [c]\<rparr>))"

definition save_field :: "csv_state \<Rightarrow> csv_parser \<Rightarrow> csv_parser" where
  "save_field st p = p\<lparr>cp_state := st, cp_field := [], cp_fields := cp_fields p @ [cp_field p]\<rparr>"

text \<open>\<open>None\<close> is the mark at the end of a line.\<close>

definition line_end :: "char option \<Rightarrow> bool" where
  "line_end c \<longleftrightarrow> c = None \<or> c = Some lf \<or> c = Some cr"

definition after_line :: "char option \<Rightarrow> csv_state" where
  "after_line c = (if c = None then Start_record else Eat_crnl)"

definition feed_start_field :: "csv_parser \<Rightarrow> char option \<Rightarrow> csv_parser option" where
  "feed_start_field p c =
     (if line_end c then Some (save_field (after_line c) p)
      else if c = Some quote then Some (p\<lparr>cp_state := In_quoted\<rparr>)
      else if c = Some comma then Some (save_field Start_field p)
      else add_char (the c) In_field p)"

definition feed :: "csv_parser \<Rightarrow> char option \<Rightarrow> csv_parser option" where
  "feed p c = (case cp_state p of
      Start_record \<Rightarrow> if c = None then Some p else if line_end c then Some (p\<lparr>cp_state := Eat_crnl\<rparr>) else feed_start_field p c
    | Start_field \<Rightarrow> feed_start_field p c
    | In_field \<Rightarrow>
        if line_end c then Some (save_field (after_line c) p)
        else if c = Some comma then Some (save_field Start_field p)
        else add_char (the c) In_field p
    | In_quoted \<Rightarrow>
        if c = None then Some p
        else if c = Some quote then Some (p\<lparr>cp_state := Quote_in_quoted\<rparr>)
        else add_char (the c) In_quoted p
    | Quote_in_quoted \<Rightarrow>
        if c = Some quote then add_char quote In_quoted p
        else if c = Some comma then Some (save_field Start_field p)
        else if line_end c then Some (save_field (after_line c) p)
        else add_char (the c) In_field p
    | Eat_crnl \<Rightarrow> if c = None then Some (p\<lparr>cp_state := Start_record\<rparr>) else if line_end c then Some p else None)"

text \<open>The records and whether reading stopped with an error; \<open>mid\<close> tells that the last line has begun.\<close>

fun csv_read :: "csv_parser \<Rightarrow> bool \<Rightarrow> string \<Rightarrow> string list list \<times> bool" where
  "csv_read p mid [] =
     (if \<not> mid then (if cp_state p = In_quoted then [cp_fields (save_field Start_record p)] else [], False)
      else case feed p None of
        None \<Rightarrow> ([], True)
      | Some p' \<Rightarrow> if cp_state p' = Start_record then ([cp_fields p'], False)
                 else (if cp_state p' = In_quoted then [cp_fields (save_field Start_record p')] else [], False))"
| "csv_read p mid (c # cs) =
     (case feed p (Some c) of
        None \<Rightarrow> ([], True)
      | Some p1 \<Rightarrow>
          if c \<noteq> lf then csv_read p1 True cs
          else case feed p1 None of
            None \<Rightarrow> ([], True)
          | Some p2 \<Rightarrow>
              if cp_state p2 = Start_record then (case csv_read csv_start False cs of (rs, e) \<Rightarrow> (cp_fields p2 # rs, e))
              else csv_read p2 False cs)"

definition csv_reader :: "string \<Rightarrow> string list list \<times> bool" where
  "csv_reader text = csv_read csv_start False text"

section \<open>Writer\<close>

definition needs_quotes :: "string \<Rightarrow> bool" where
  "needs_quotes s \<longleftrightarrow> list_ex (\<lambda>c. c \<in> {comma, quote, cr, lf}) s"

definition escape :: "string \<Rightarrow> string" where
  "escape s = concat (map (\<lambda>c. if c = quote then [quote, quote] else [c]) s)"

definition write_field :: "string \<Rightarrow> string" where
  "write_field s = (if needs_quotes s then quote # escape s @ [quote] else s)"

fun join_fields :: "string list \<Rightarrow> string" where
  "join_fields [] = []"
| "join_fields [s] = write_field s"
| "join_fields (s # t # ts) = write_field s @ comma # join_fields (t # ts)"

definition writerow :: "string list \<Rightarrow> string" where
  "writerow fs = (if fs = [[]] then [quote, quote] else join_fields fs) @ [cr, lf]"

definition writerows :: "string list list \<Rightarrow> string" where
  "writerows rows = concat (map writerow rows)"

section \<open>Round trip\<close>

lemma csv_distinct [simp]: "comma \<noteq> quote" "comma \<noteq> cr" "comma \<noteq> lf" "quote \<noteq> cr" "quote \<noteq> lf" "cr \<noteq> lf"
  "quote \<noteq> comma" "cr \<noteq> comma" "lf \<noteq> comma" "cr \<noteq> quote" "lf \<noteq> quote" "lf \<noteq> cr"
  by (simp_all add: csv_chars)

lemma escape_simps [simp]: "escape [] = []" "escape (c # s) = (if c = quote then [quote, quote] else [c]) @ escape s"
  by (simp_all add: escape_def)

text \<open>Inside quotes, line feeds are ordinary characters.\<close>

lemma read_quoted:
  assumes "cp_state p = In_quoted" and "int (length (cp_field p)) + int (length s) \<le> FIELD_LIMIT"
  shows "csv_read p mid (escape s @ quote # rest) = csv_read (p\<lparr>cp_state := Quote_in_quoted, cp_field := cp_field p @ s\<rparr>) True rest"
  using assms
proof (induction s arbitrary: p mid)
  case Nil
  then show ?case by (simp add: feed_def)
next
  case (Cons c s)
  let ?p = "p\<lparr>cp_state := In_quoted, cp_field := cp_field p @ [c]\<rparr>"
  have added: "add_char c In_quoted p = Some ?p" using Cons.prems(2) by (simp add: add_char_def)
  have "csv_read p mid (escape (c # s) @ quote # rest) = csv_read ?p (c \<noteq> lf) (escape s @ quote # rest)"
  proof (cases "c = quote")
    case True
    have "add_char quote In_quoted (p\<lparr>cp_state := Quote_in_quoted\<rparr>) = Some ?p"
      using Cons.prems(2) True by (simp add: add_char_def)
    then show ?thesis using True Cons.prems(1) by (simp add: feed_def)
  next
    case False
    then show ?thesis using added Cons.prems(1) by (auto simp: feed_def)
  qed
  also have "\<dots> = csv_read (p\<lparr>cp_state := Quote_in_quoted, cp_field := cp_field p @ c # s\<rparr>) True rest"
    using Cons.IH[of ?p "c \<noteq> lf"] Cons.prems(2) by simp
  finally show ?case .
qed

lemma read_plain:
  assumes "cp_state p = In_field" and "\<not> needs_quotes s" and "int (length (cp_field p)) + int (length s) \<le> FIELD_LIMIT"
  shows "csv_read p True (s @ rest) = csv_read (p\<lparr>cp_state := In_field, cp_field := cp_field p @ s\<rparr>) True rest"
  using assms
proof (induction s arbitrary: p)
  case Nil
  then show ?case by (cases p) simp
next
  case (Cons c s)
  let ?p = "p\<lparr>cp_state := In_field, cp_field := cp_field p @ [c]\<rparr>"
  have "feed p (Some c) = Some ?p" "c \<noteq> lf"
    using Cons.prems by (auto simp: feed_def add_char_def line_end_def needs_quotes_def)
  then show ?case using Cons.IH[of ?p] Cons.prems by (simp add: needs_quotes_def)
qed

definition at_field :: "csv_parser \<Rightarrow> bool" where
  "at_field p \<longleftrightarrow> cp_state p = Start_field \<or> cp_state p = Start_record"

text \<open>After a written field the automaton holds its text and is about to leave it.\<close>

lemma read_field:
  assumes "at_field p" and "cp_field p = []" and "int (length s) \<le> FIELD_LIMIT" and "s \<noteq> []"
  shows "\<exists>st \<in> {In_field, Quote_in_quoted}. csv_read p mid (write_field s @ rest) = csv_read (p\<lparr>cp_state := st, cp_field := s\<rparr>) True rest"
proof (cases "needs_quotes s")
  case True
  have "feed p (Some quote) = Some (p\<lparr>cp_state := In_quoted\<rparr>)"
    using assms(1) by (auto simp: at_field_def feed_def feed_start_field_def line_end_def)
  then have "csv_read p mid (write_field s @ rest) = csv_read (p\<lparr>cp_state := In_quoted\<rparr>) True (escape s @ quote # rest)"
    using True by (simp add: write_field_def)
  then show ?thesis using read_quoted[of "p\<lparr>cp_state := In_quoted\<rparr>" s True rest] assms(2,3) by simp
next
  case False
  obtain c s' where s: "s = c # s'" using assms(4) by (cases s) auto
  let ?p = "p\<lparr>cp_state := In_field, cp_field := [c]\<rparr>"
  have "feed p (Some c) = Some ?p" "c \<noteq> lf"
    using assms False s by (auto simp: at_field_def feed_def feed_start_field_def line_end_def needs_quotes_def add_char_def)
  then have "csv_read p mid (write_field s @ rest) = csv_read ?p True (s' @ rest)"
    using False s by (simp add: write_field_def)
  then show ?thesis using read_plain[of ?p s' rest] False s assms(3) by (simp add: needs_quotes_def)
qed

lemma read_delimited:
  assumes "at_field p" and "cp_field p = []" and "int (length s) \<le> FIELD_LIMIT"
  shows "csv_read p mid (write_field s @ comma # rest) = csv_read (p\<lparr>cp_state := Start_field, cp_field := [], cp_fields := cp_fields p @ [s]\<rparr>) True rest"
proof (cases "s = []")
  case True
  then show ?thesis using assms(1,2)
    by (auto simp: write_field_def needs_quotes_def at_field_def feed_def feed_start_field_def line_end_def save_field_def)
next
  case False
  from read_field[OF assms False, of mid "comma # rest"] show ?thesis
    by (auto simp: feed_def line_end_def save_field_def)
qed

lemma read_last:
  assumes "at_field p" and "cp_field p = []" and "int (length s) \<le> FIELD_LIMIT" and "s \<noteq> [] \<or> cp_state p = Start_field"
  shows "csv_read p mid (write_field s @ cr # lf # rest) = (case csv_read csv_start False rest of (rs, e) \<Rightarrow> ((cp_fields p @ [s]) # rs, e))"
proof (cases "s = []")
  case True
  then show ?thesis using assms
    by (auto simp: write_field_def needs_quotes_def feed_def feed_start_field_def line_end_def after_line_def save_field_def)
next
  case False
  from read_field[OF assms(1-3) False, of mid "cr # lf # rest"] show ?thesis
    by (auto simp: feed_def line_end_def after_line_def save_field_def)
qed

lemma read_joined:
  assumes "fs \<noteq> []" and "list_all (\<lambda>s. int (length s) \<le> FIELD_LIMIT) fs" and "at_field p" and "cp_field p = []"
    and "fs \<noteq> [[]] \<or> cp_state p = Start_field"
  shows "csv_read p mid (join_fields fs @ cr # lf # rest) = (case csv_read csv_start False rest of (rs, e) \<Rightarrow> ((cp_fields p @ fs) # rs, e))"
  using assms
proof (induction fs arbitrary: p mid rule: join_fields.induct)
  case (2 s)
  then show ?case using read_last[of p s mid rest] by simp
next
  case (3 s t ts)
  let ?p = "p\<lparr>cp_state := Start_field, cp_field := [], cp_fields := cp_fields p @ [s]\<rparr>"
  have "csv_read ?p True (join_fields (t # ts) @ cr # lf # rest)
      = (case csv_read csv_start False rest of (rs, e) \<Rightarrow> ((cp_fields ?p @ t # ts) # rs, e))"
    using 3 by (intro "3.IH") (simp_all add: at_field_def)
  then show ?case using read_delimited[of p s mid "join_fields (t # ts) @ cr # lf # rest"] 3 by simp
qed simp

lemma read_row:
  assumes "fs \<noteq> []" and "list_all (\<lambda>s. int (length s) \<le> FIELD_LIMIT) fs"
  shows "csv_read csv_start False (writerow fs @ rest) = (case csv_read csv_start False rest of (rs, e) \<Rightarrow> (fs # rs, e))"
proof (cases "fs = [[]]")
  case True
  then show ?thesis
    by (simp add: writerow_def csv_start_def feed_def feed_start_field_def line_end_def after_line_def save_field_def)
next
  case False
  then show ?thesis using read_joined[OF assms, of csv_start False rest] by (simp add: writerow_def at_field_def csv_start_def)
qed

lemma csv_round_trip:
  assumes "list_all (\<lambda>fs. fs \<noteq> [] \<and> list_all (\<lambda>s. int (length s) \<le> FIELD_LIMIT) fs) rows"
  shows "csv_reader (writerows rows) = (rows, False)"
  unfolding csv_reader_def using assms
proof (induction rows)
  case Nil
  then show ?case by (simp add: writerows_def csv_start_def)
next
  case (Cons fs rows)
  then show ?case using read_row[of fs "writerows rows"] by (simp add: writerows_def)
qed

end
