(* ===== verification/Lead_Import.thy ===== *)
theory Lead_Import
  imports Csv Shared_Text Assignment
begin

text \<open>
  \<^verbatim>\<open>domain/leads/importing.py\<close> and \<^verbatim>\<open>application/leads/importer.py\<close>: the starter sheet, reading a file, mapping its columns,
  judging every row, and committing the accepted ones. Decoding the bytes is left out: a file is its size and its text. Cells are
  JSON values because a short row leaves columns null and a long one collects the rest in a list.
\<close>

section \<open>Fields and header spellings\<close>

definition MAX_ROWS :: int where "MAX_ROWS = 10000"
definition MAX_COLUMNS :: int where "MAX_COLUMNS = 80"
definition MAX_BYTES :: int where "MAX_BYTES = 5242880"

definition IMPORTABLE_FIELDS :: "string list" where
  "IMPORTABLE_FIELDS = [''first_name'', ''last_name'', ''email'', ''phone'', ''source'', ''source_channel'', ''company'', ''title'', ''city'',
     ''notes'', ''website'', ''industry'', ''requirement'']"

definition CAPTURE_FIELDS :: "string list" where
  "CAPTURE_FIELDS = [''company'', ''title'', ''city'', ''notes'', ''website'', ''industry'', ''requirement'']"

definition REQUIRED_ONE_OF :: "string list" where "REQUIRED_ONE_OF = [''email'', ''phone'']"

definition HEADER_ALIASES :: "(string, string) adict" where
  "HEADER_ALIASES =
     [(''first name'', ''first_name''), (''firstname'', ''first_name''), (''given name'', ''first_name''), (''last name'', ''last_name''),
      (''lastname'', ''last_name''), (''surname'', ''last_name''), (''full name'', ''first_name''), (''name'', ''first_name''),
      (''email'', ''email''), (''email address'', ''email''), (''e-mail'', ''email''), (''mail'', ''email''), (''phone'', ''phone''),
      (''phone number'', ''phone''), (''mobile'', ''phone''), (''mobile number'', ''phone''), (''contact number'', ''phone''),
      (''company'', ''company''), (''organisation'', ''company''), (''organization'', ''company''), (''account'', ''company''),
      (''title'', ''title''), (''designation'', ''title''), (''job title'', ''title''), (''city'', ''city''), (''location'', ''city''),
      (''source'', ''source''), (''lead source'', ''source''), (''notes'', ''notes''), (''comments'', ''notes''),
      (''business'', ''company''), (''business name'', ''company''), (''shop name'', ''company''), (''firm'', ''company''),
      (''area'', ''city''), (''website'', ''website''), (''site'', ''website''), (''url'', ''website''), (''web'', ''website''),
      (''industry'', ''industry''), (''category'', ''industry''), (''business type'', ''industry''), (''sector'', ''industry''),
      (''requirement'', ''requirement''), (''pain'', ''requirement''), (''problem'', ''requirement''), (''reason'', ''requirement''),
      (''why'', ''requirement''), (''contact person'', ''first_name''), (''owner name'', ''first_name''), (''contact'', ''first_name'')]"

definition TEMPLATE_COLUMNS :: "string list" where
  "TEMPLATE_COLUMNS = [''Business name'', ''Contact person'', ''Phone'', ''Email'', ''City'', ''Industry'', ''Website'',
     ''Why we are approaching them'', ''Source'', ''Notes'']"

definition TEMPLATE_ROWS :: "string list list" where
  "TEMPLATE_ROWS =
     [[''Sri Lakshmi Sweets'', ''Ramesh Gowda'', ''+91 98450 11223'', ''ramesh@srilakshmisweets.in'', ''Basavanagudi, Bengaluru'',
       ''Sweets and bakery'', ''https://srilakshmisweets.in'', ''Festival orders taken on paper; loses repeat customers'', ''Walk past'',
       ''Owner is in most mornings''],
      [''Nandi Physiotherapy'', [], ''080 4123 8890'', ''care@nandiphysio.in'', ''Malleshwaram, Bengaluru'', ''Clinics'', [],
       ''Appointment reminders done by hand, misses follow-up sessions'', ''Referral from Anitha'', []],
      [''GreenLeaf Interiors'', ''Farida Khan'', ''9845066112'', [], ''HSR Layout, Bengaluru'', ''Interior design'',
       ''https://greenleafinteriors.in'', ''Site-visit enquiries split across two designers'', ''Instagram'',
       ''Busy until the end of the month'']]"

definition build_template_csv :: string where
  "build_template_csv = writerows (TEMPLATE_COLUMNS # map (map neutralise_formula) TEMPLATE_ROWS)"

section \<open>Reading a file\<close>

datatype import_fault =
    Too_large
  | No_header
  | Too_many_rows
  | Csv_error
  | Too_many_columns
  | Bad_mapping
  | No_rows
  | Key_missing
  | Already_committed
  | Import_crash py_exc
  | Event_clash

text \<open>\<^verbatim>\<open>DictReader\<close>: a row shorter than the header leaves null, a longer one puts its rest under the key \<^verbatim>\<open>None\<close>.\<close>

definition dict_row :: "string list \<Rightarrow> string list \<Rightarrow> (string \<times> json) list" where
  "dict_row names cells =
     zip names (map JStr cells)
     @ (if length names < length cells then [([], JList (map JStr (drop (length names) cells)))]
        else map (\<lambda>k. (k, JNull)) (drop (length cells) names))"

text \<open>The keys are stripped afterwards; where two coincide the later value wins.\<close>

definition clean_row :: "(string \<times> json) list \<Rightarrow> jdict" where
  "clean_row row = foldl (\<lambda>d e. aput (py_strip (fst e)) (snd e) d) [] (foldl (\<lambda>d e. aput (fst e) (snd e) d) [] row)"

definition parse_csv :: "int \<Rightarrow> string \<Rightarrow> (import_fault, string list \<times> jdict list) res" where
  "parse_csv n_bytes text =
     (if n_bytes > MAX_BYTES then Inl Too_large
      else case csv_reader text of (records, failed) \<Rightarrow>
        (case records of
           [] \<Rightarrow> Inl (if failed then Csv_error else No_header)
         | names # body \<Rightarrow>
             if names = [] then Inl No_header
             else
               let rows = map (\<lambda>cells. clean_row (dict_row names cells)) (filter (\<lambda>cells. cells \<noteq> []) body) in
               if int (length rows) > MAX_ROWS then Inl Too_many_rows
               else if failed then Inl Csv_error
               else Inr (map py_strip names, rows)))"

section \<open>Mapping columns\<close>

definition target_of_header :: "string \<Rightarrow> string option" where
  "target_of_header header =
     (let key = py_replace ''_'' '' '' (py_lower (py_strip header)) in
      case map_of HEADER_ALIASES key of
        Some t \<Rightarrow> Some t
      | None \<Rightarrow> let t = py_replace '' '' ''_'' key in if t \<in> set IMPORTABLE_FIELDS then Some t else None)"

fun suggest_from :: "string list \<Rightarrow> (string, string option) adict \<Rightarrow> string list \<Rightarrow> (string, string option) adict" where
  "suggest_from claimed mapping [] = mapping"
| "suggest_from claimed mapping (header # headers) =
     (let target = (case target_of_header header of None \<Rightarrow> None | Some t \<Rightarrow> if t \<in> set claimed then None else Some t) in
      suggest_from (case target of None \<Rightarrow> claimed | Some t \<Rightarrow> t # claimed) (aput header target mapping) headers)"

definition suggest_mapping :: "string list \<Rightarrow> (string, string option) adict" where
  "suggest_mapping headers = suggest_from [] [] headers"

text \<open>The mapping in the order of its columns, or a problem.\<close>

fun resolve_mapping :: "string list \<Rightarrow> (string, string option) adict \<Rightarrow> ((string, string) adict \<times> string list) option" where
  "resolve_mapping seen [] = Some ([], seen)"
| "resolve_mapping seen ((header, target) # rest) =
     (case target of
        None \<Rightarrow> resolve_mapping seen rest
      | Some t \<Rightarrow>
          if t \<notin> set IMPORTABLE_FIELDS \<or> t \<in> set seen then None
          else map_option (\<lambda>(m, s). ((header, t) # m, s)) (resolve_mapping (t # seen) rest))"

definition validate_mapping :: "(string, string option) adict \<Rightarrow> (import_fault, (string, string) adict) res" where
  "validate_mapping mapping =
     (if int (length mapping) > MAX_COLUMNS then Inl Too_many_columns
      else case resolve_mapping [] mapping of
        None \<Rightarrow> Inl Bad_mapping
      | Some (resolved, seen) \<Rightarrow>
          if \<not> list_ex (\<lambda>f. f \<in> set seen) REQUIRED_ONE_OF \<or> \<not> list_ex (\<lambda>f. f \<in> set seen) [''first_name'', ''company'']
          then Inl Bad_mapping else Inr resolved)"

section \<open>Judging rows\<close>

definition normalise_phone_digits :: "string \<Rightarrow> string" where
  "normalise_phone_digits value =
     (let digits = filter is_dec value in if length digits \<ge> 10 then drop (length digits - 10) digits else digits)"

text \<open>\<^verbatim>\<open>_EMAIL\<close>: one at sign, no blanks, and a dot in the domain with text before and two characters after it.\<close>

definition valid_email :: "string \<Rightarrow> bool" where
  "valid_email s \<longleftrightarrow>
     (let local = takeWhile (\<lambda>c. c \<noteq> CHR ''@'') s; domain = drop (length local + 1) s;
          label = takeWhile (\<lambda>c. c \<noteq> CHR ''.'') domain; rest = drop (length label + 1) domain in
      \<not> list_ex is_space s \<and> CHR ''@'' \<in> set s \<and> local \<noteq> [] \<and> CHR ''@'' \<notin> set domain \<and> label \<noteq> [] \<and> 2 \<le> length rest)"

datatype reject_reason =
    No_name
  | Bad_email string
  | Bad_phone string
  | Not_contactable
  | Duplicate_of nat

record AcceptedRow =
  ac_row :: nat
  ac_values :: "(string, string) adict"
  ac_capture :: jdict
  ac_dedupe :: string

record RejectedRow =
  rj_row :: nat
  rj_reasons :: "reject_reason list"
  rj_raw :: jdict

record ImportPlan =
  pl_accepted :: "AcceptedRow list"
  pl_rejected :: "RejectedRow list"

definition cell_text :: "json \<Rightarrow> string" where
  "cell_text v = py_str (por v (JStr []))"

definition value_of :: "string \<Rightarrow> (string, string) adict \<Rightarrow> string" where
  "value_of k d = (case map_of d k of None \<Rightarrow> [] | Some v \<Rightarrow> v)"

definition read_mapped :: "(string, string) adict \<Rightarrow> jdict \<Rightarrow> (string, string) adict \<times> jdict" where
  "read_mapped mapping raw = foldl (\<lambda>(vals, cap) (header, target).
     let cell = py_strip (cell_text (dget_or header (JStr []) raw)) in
     if cell = [] then (vals, cap)
     else if target \<in> set CAPTURE_FIELDS then (vals, aput target (JStr (neutralise_formula (take 500 cell))) cap)
     else (aput target cell vals, cap)) ([], []) mapping"

definition read_extra :: "(string, string) adict \<Rightarrow> jdict \<Rightarrow> jdict" where
  "read_extra mapping raw = foldl (\<lambda>d (header, cell).
     if \<not> has_key header mapping \<and> py_strip (cell_text cell) \<noteq> []
     then aput (take 60 header) (JStr (neutralise_formula (take 500 (py_str cell)))) d else d) [] raw"

definition with_name :: "(string, string) adict \<times> jdict \<Rightarrow> (string, string) adict \<times> jdict" where
  "with_name vc = (case vc of (vals, cap) \<Rightarrow>
     if value_of ''first_name'' vals = [] \<and> truthy (dget ''company'' cap)
     then (aput ''first_name'' (take 120 (py_str (dget ''company'' cap))) vals, aput ''name_is_business'' (JBool True) cap)
     else (vals, cap))"

definition row_content :: "(string, string) adict \<Rightarrow> jdict \<Rightarrow> (string, string) adict \<times> jdict" where
  "row_content mapping raw = with_name (case read_mapped mapping raw of (vals, cap) \<Rightarrow>
     (vals, let extra = read_extra mapping raw in if extra = [] then cap else aput ''extra'' (JDict extra) cap))"

text \<open>The email address, or nothing with a reason; likewise the digits of the phone number.\<close>

definition judge_email :: "(string, string) adict \<Rightarrow> string \<times> reject_reason list" where
  "judge_email vals =
     (let email = py_lower (value_of ''email'' vals) in
      if email = [] then ([], []) else if \<not> valid_email email \<or> int (length email) > 320 then ([], [Bad_email email]) else (email, []))"

definition judge_phone :: "(string, string) adict \<Rightarrow> string \<times> reject_reason list" where
  "judge_phone vals =
     (let phone = value_of ''phone'' vals; digits = normalise_phone_digits phone in
      if phone = [] then ([], []) else if length digits < 10 then ([], [Bad_phone phone]) else (digits, []))"

definition stored_values :: "string \<Rightarrow> (string, string) adict \<Rightarrow> (string, string) adict" where
  "stored_values default_source vals =
     (let named = (if value_of ''first_name'' vals = [] then vals
                   else aput ''first_name'' (neutralise_formula (take 120 (value_of ''first_name'' vals))) vals);
          emailed = (if fst (judge_email vals) = [] then named else aput ''email'' (fst (judge_email vals)) named);
          phoned = (if value_of ''phone'' vals = [] then emailed
                    else if fst (judge_phone vals) = [] then adel ''phone'' emailed
                    else aput ''phone'' (take 20 (value_of ''phone'' vals)) emailed)
      in aput ''source'' (take 80 (case map_of vals ''source'' of None \<Rightarrow> default_source | Some s \<Rightarrow> s)) phoned)"

definition judge_row :: "(string, string) adict \<Rightarrow> string \<Rightarrow> (string, nat) adict \<Rightarrow> nat \<Rightarrow> jdict \<Rightarrow> RejectedRow + AcceptedRow" where
  "judge_row mapping default_source seen row_number raw =
     (case row_content mapping raw of (vals, cap) \<Rightarrow>
        let email = fst (judge_email vals); digits = fst (judge_phone vals);
            dedupe = (if email \<noteq> [] then email else digits);
            reasons =
              (if value_of ''first_name'' vals = [] then [No_name] else []) @ snd (judge_email vals) @ snd (judge_phone vals)
              @ (if email = [] \<and> digits = [] then [Not_contactable] else [])
              @ (case map_of seen dedupe of Some n \<Rightarrow> if dedupe \<noteq> [] then [Duplicate_of n] else [] | None \<Rightarrow> [])
        in if reasons \<noteq> [] then Inl \<lparr>rj_row = row_number, rj_reasons = reasons, rj_raw = raw\<rparr>
           else Inr \<lparr>ac_row = row_number, ac_values = stored_values default_source vals, ac_capture = cap, ac_dedupe = dedupe\<rparr>)"

text \<open>Row 1 is the header.\<close>

fun judge_rows :: "(string, string) adict \<Rightarrow> string \<Rightarrow> (string, nat) adict \<Rightarrow> nat \<Rightarrow> jdict list \<Rightarrow> ImportPlan" where
  "judge_rows mapping source seen n [] = \<lparr>pl_accepted = [], pl_rejected = []\<rparr>"
| "judge_rows mapping source seen n (raw # rows) =
     (case judge_row mapping source seen n raw of
        Inl r \<Rightarrow> let plan = judge_rows mapping source seen (Suc n) rows in plan\<lparr>pl_rejected := r # pl_rejected plan\<rparr>
      | Inr a \<Rightarrow> let plan = judge_rows mapping source (aput (ac_dedupe a) n seen) (Suc n) rows in plan\<lparr>pl_accepted := a # pl_accepted plan\<rparr>)"

definition plan_import :: "jdict list \<Rightarrow> (string, string) adict \<Rightarrow> string \<Rightarrow> (import_fault, ImportPlan) res" where
  "plan_import rows mapping default_source =
     (if rows = [] then Inl No_rows else if int (length rows) > MAX_ROWS then Inl Too_many_rows
      else Inr (judge_rows mapping default_source [] 2 rows))"

section \<open>Prospects that are already there\<close>

record import_match =
  mt_lead :: string
  mt_name :: string
  mt_on :: string
  mt_evidence :: string
  mt_status :: string

definition display_name :: "Lead \<Rightarrow> string" where
  "display_name l =
     (let label = cell_text (dget ''company'' (ld_capture l)) in
      if label \<noteq> [] then label else py_strip (ld_first_name l @ '' '' @ (case ld_last_name l of None \<Rightarrow> [] | Some n \<Rightarrow> n)))"

definition match_of :: "Lead \<Rightarrow> string \<Rightarrow> string \<Rightarrow> import_match" where
  "match_of l on evidence = \<lparr>mt_lead = ld_id l, mt_name = display_name l, mt_on = on, mt_evidence = evidence, mt_status = ld_status l\<rparr>"

definition setdefault :: "string \<Rightarrow> 'v \<Rightarrow> (string, 'v) adict \<Rightarrow> (string, 'v) adict" where
  "setdefault k v d = (if has_key k d then d else aput k v d)"

definition match_email :: "string list \<Rightarrow> Lead \<Rightarrow> (string, import_match) adict \<Rightarrow> (string, import_match) adict" where
  "match_email wanted l d = (case ld_email l of
      None \<Rightarrow> d
    | Some e \<Rightarrow> if e \<noteq> [] \<and> py_lower e \<in> set wanted then setdefault (py_lower e) (match_of l ''email'' (py_lower e)) d else d)"

definition match_phone :: "string list \<Rightarrow> Lead \<Rightarrow> (string, import_match) adict \<Rightarrow> (string, import_match) adict" where
  "match_phone wanted l d = (case ld_phone l of
      None \<Rightarrow> d
    | Some p \<Rightarrow>
        let digits = normalise_phone_digits p in
        if p \<noteq> [] \<and> digits \<noteq> [] \<and> digits \<in> set wanted then setdefault digits (match_of l ''phone'' p) d else d)"

definition existing_matches :: "string \<Rightarrow> ImportPlan \<Rightarrow> Lead list \<Rightarrow> (string, import_match) adict" where
  "existing_matches tenant plan leads =
     (let wanted = filter (\<lambda>v. v \<noteq> []) (map ac_dedupe (pl_accepted plan)) in
      foldl (\<lambda>d l. match_phone wanted l (match_email wanted l d)) [] (filter (\<lambda>l. ld_tenant l = tenant \<and> ld_deleted_at l = None) leads))"

section \<open>Preview and commit\<close>

record import_db =
  ib_leads :: "Lead list"
  ib_events :: "LeadSourceEvent list"
  ib_rules :: "rule_row list"
  ib_audit :: "event_row list"

record import_file =
  if_bytes :: int
  if_text :: string
  if_mapping :: "(string, string option) adict option"
  if_source :: string

text \<open>Both go through the same plan.\<close>

definition judge_file :: "import_file \<Rightarrow> (import_fault, ImportPlan) res" where
  "judge_file f =
     rbind (parse_csv (if_bytes f) (if_text f)) (\<lambda>(headers, rows).
     rbind (validate_mapping (case if_mapping f of Some m \<Rightarrow> m | None \<Rightarrow> suggest_mapping headers)) (\<lambda>resolved.
       plan_import rows resolved (if_source f)))"

definition duplicates_of :: "(string, import_match) adict \<Rightarrow> ImportPlan \<Rightarrow> (nat \<times> import_match) list" where
  "duplicates_of matches plan = List.map_filter (\<lambda>r. map_option (\<lambda>m. (ac_row r, m)) (map_of matches (ac_dedupe r))) (pl_accepted plan)"

record import_preview =
  pv_plan :: ImportPlan
  pv_duplicates :: "(nat \<times> import_match) list"
  pv_will_create :: int

definition preview_import :: "string \<Rightarrow> import_file \<Rightarrow> import_db \<Rightarrow> (import_fault, import_preview) res" where
  "preview_import tenant f db = rbind (judge_file f) (\<lambda>plan.
     let duplicates = duplicates_of (existing_matches tenant plan (ib_leads db)) plan in
     Inr \<lparr>pv_plan = plan, pv_duplicates = duplicates, pv_will_create = int (length (pl_accepted plan)) - int (length duplicates)\<rparr>)"

definition row_key :: "string \<Rightarrow> nat \<Rightarrow> string" where
  "row_key key row = key @ '':'' @ show_nat row"

definition import_event :: "string \<Rightarrow> string \<Rightarrow> AcceptedRow \<Rightarrow> string option \<Rightarrow> string \<Rightarrow> string option \<Rightarrow> LeadSourceEvent" where
  "import_event tenant key r lead outcome original =
     \<lparr>se_tenant = tenant, se_source = value_of ''source'' (ac_values r), se_key = row_key key (ac_row r), se_lead = lead,
      se_dedupe_key = nonempty (ac_dedupe r), se_outcome = outcome, se_duplicate_of = original\<rparr>"

definition batch_event :: "string \<Rightarrow> string \<Rightarrow> LeadSourceEvent" where
  "batch_event tenant key = \<lparr>se_tenant = tenant, se_source = ''csv_import'', se_key = key, se_lead = None, se_dedupe_key = None,
     se_outcome = ''batch'', se_duplicate_of = None\<rparr>"

definition imported_lead :: "actor \<Rightarrow> string \<Rightarrow> string \<Rightarrow> AcceptedRow \<Rightarrow> string option \<Rightarrow> Lead" where
  "imported_lead a batch lead_id r assignee =
     (let v = ac_values r in
      \<lparr>ld_id = lead_id, ld_tenant = ac_tenant a, ld_first_name = take 120 (value_of ''first_name'' v),
       ld_last_name = nonempty (value_of ''last_name'' v), ld_email = nonempty (value_of ''email'' v), ld_phone = nonempty (value_of ''phone'' v),
       ld_source = value_of ''source'' v,
       ld_source_channel = Some (if value_of ''source_channel'' v = [] then ''import'' else value_of ''source_channel'' v),
       ld_capture = aput ''import_batch_id'' (JStr batch) (ac_capture r), ld_utm = [], ld_score = None, ld_category = None, ld_qualified_by = None,
       ld_qualified_at = None, ld_reviewer_state = None, ld_status = ''new'', ld_disqualify_reason = None, ld_assignee = assignee,
       ld_branch = None, ld_team = None,
       ld_dedupe_key = dedupe_key (map_of v ''email'') (map_of v ''phone'') (map_of v ''first_name''), ld_contact = None, ld_converted_at = None,
       ld_merged_into = None, ld_first_response = None, ld_deleted_at = None, ld_version = 1, ld_created_by = ac_user a,
       ld_updated_by = Some (ac_user a)\<rparr>)"

record import_run =
  ir_rules :: "rule_row list"
  ir_leads :: "Lead list"
  ir_events :: "LeadSourceEvent list"
  ir_duplicates :: "(nat \<times> import_match) list"

text \<open>\<^verbatim>\<open>_assign\<close> reads the values of the row, not what was put into the capture.\<close>

definition assign_row :: "rule_row list \<Rightarrow> AcceptedRow \<Rightarrow> (import_fault, string option \<times> rule_row list) res" where
  "assign_row rules r =
     (case select_assignee rules (map (\<lambda>(k, v). (k, JStr v)) (ac_values r)) None None of
        Inl err \<Rightarrow> Inl (Import_crash err)
      | Inr None \<Rightarrow> Inr (None, rules)
      | Inr (Some d) \<Rightarrow>
          if ag_assignee d = [] then Inr (None, map (advance d) rules)
          else case uuid_of (ag_assignee d) of None \<Rightarrow> Inl (Import_crash ValueError) | Some u \<Rightarrow> Inr (Some u, map (advance d) rules))"

definition import_row :: "actor \<Rightarrow> string \<Rightarrow> string \<Rightarrow> (nat \<Rightarrow> string) \<Rightarrow> (string, import_match) adict \<Rightarrow> import_run \<Rightarrow> AcceptedRow
    \<Rightarrow> (import_fault, import_run) res" where
  "import_row a key batch fresh matches st r =
     (case map_of matches (ac_dedupe r) of
        Some m \<Rightarrow> Inr (st\<lparr>ir_events := ir_events st @ [import_event (ac_tenant a) key r None ''duplicate'' (Some (mt_lead m))],
            ir_duplicates := ir_duplicates st @ [(ac_row r, m)]\<rparr>)
      | None \<Rightarrow>
          rbind (assign_row (ir_rules st) r) (\<lambda>(assignee, rules).
            Inr (st\<lparr>ir_rules := rules, ir_leads := ir_leads st @ [imported_lead a batch (fresh (ac_row r)) r assignee],
              ir_events := ir_events st @ [import_event (ac_tenant a) key r (Some (fresh (ac_row r))) ''imported'' None]\<rparr>)))"

definition import_rules :: "string \<Rightarrow> bool \<Rightarrow> import_db \<Rightarrow> rule_row list" where
  "import_rules tenant assign db = (if assign then filter (\<lambda>r. ar_tenant r = tenant \<and> ar_entity r = ''lead'' \<and> ar_active r) (ib_rules db) else [])"

text \<open>The rows of the session replace those of the table.\<close>

definition write_rules :: "rule_row list \<Rightarrow> rule_row list \<Rightarrow> rule_row list" where
  "write_rules changed rules = foldl (\<lambda>rs r. set_row ar_id r rs) rules changed"

record import_result =
  rs_created :: "string list"
  rs_duplicates :: "(nat \<times> import_match) list"
  rs_plan :: ImportPlan

definition commit_import :: "actor \<Rightarrow> string \<Rightarrow> (nat \<Rightarrow> string) \<Rightarrow> import_file \<Rightarrow> string \<Rightarrow> bool \<Rightarrow> import_db
    \<Rightarrow> import_db \<times> (import_fault, import_result) res" where
  "commit_import a batch fresh f key assign db =
     (if py_strip key = [] then (db, Inl Key_missing)
      else case judge_file f of
        Inl err \<Rightarrow> (db, Inl err)
      | Inr plan \<Rightarrow>
          if list_ex (\<lambda>e. se_tenant e = ac_tenant a \<and> se_key e = key) (ib_events db) then (db, Inl Already_committed)
          else
            let rules = import_rules (ac_tenant a) assign db; matches = existing_matches (ac_tenant a) plan (ib_leads db) in
            case rfold (import_row a key batch fresh matches) \<lparr>ir_rules = rules, ir_leads = [], ir_events = [], ir_duplicates = []\<rparr> (pl_accepted plan) of
              Inl err \<Rightarrow> (db, Inl err)
            | Inr st \<Rightarrow>
                let events = ir_events st @ [batch_event (ac_tenant a) key] in
                if \<not> distinct (map event_slot events) \<or> set (map event_slot events) \<inter> set (map event_slot (ib_events db)) \<noteq> {}
                then (db, Inl Event_clash)
                else
                  (db\<lparr>ib_leads := ib_leads db @ ir_leads st, ib_events := ib_events db @ events, ib_rules := write_rules (ir_rules st) (ib_rules db),
                      ib_audit := ib_audit db @ [event_of a ''lead.imported'' batch
                        [(''accepted'', JInt (int (length (pl_accepted plan)))), (''created'', JInt (int (length (ir_leads st)))),
                         (''duplicates'', JInt (int (length (ir_duplicates st)))), (''rejected'', JInt (int (length (pl_rejected plan)))),
                         (''assigned'', JBool assign)]]\<rparr>,
                   Inr \<lparr>rs_created = map ld_id (ir_leads st), rs_duplicates = ir_duplicates st, rs_plan = plan\<rparr>))"

end
