(* ===== verification/Lead_Import_Safety.thy ===== *)
theory Lead_Import_Safety
  imports Lead_Import
begin

text \<open>
  What an import promises: every row of the file is judged exactly once and accepted exactly when it is usable and no earlier row has
  its key, the commit does what the preview announced and leaves existing leads alone, and a key is used at most once.
\<close>

section \<open>Accepted rows\<close>

lemma neutralise_nonempty: "s \<noteq> [] \<Longrightarrow> neutralise_formula s \<noteq> []"
  using neutralise_keeps[of s] by auto

lemma value_of_aput [simp]: "value_of k (aput k' v d) = (if k = k' then v else value_of k d)"
  by (simp add: value_of_def)

lemma value_of_adel [simp]: "value_of k (adel k' d) = (if k = k' then [] else value_of k d)"
  by (simp add: value_of_def)

lemma split_at_first: "c \<in> set s \<Longrightarrow> s = takeWhile (\<lambda>x. x \<noteq> c) s @ c # drop (length (takeWhile (\<lambda>x. x \<noteq> c) s) + 1) s"
  by (induction s) auto

lemma takeWhile_upto_first: "c \<notin> set xs \<Longrightarrow> takeWhile (\<lambda>x. x \<noteq> c) (xs @ c # ys) = xs"
  by (induction xs) auto

text \<open>What a row says of a field: the stripped text of the column that is mapped to it.\<close>

definition column_text :: "(string, string) adict \<Rightarrow> jdict \<Rightarrow> string \<Rightarrow> string" where
  "column_text mapping raw field =
     (case map_of (map (\<lambda>(header, target). (target, header)) mapping) field of
        None \<Rightarrow> [] | Some header \<Rightarrow> py_strip (cell_text (dget_or header (JStr []) raw)))"

text \<open>An address, written without the search for its parts: local part, first label and the rest after the first dot of the domain.\<close>

definition email_address :: "string \<Rightarrow> bool" where
  "email_address s \<longleftrightarrow> (\<exists>local label rest. s = local @ CHR ''@'' # label @ CHR ''.'' # rest \<and> local \<noteq> [] \<and> label \<noteq> [] \<and> 2 \<le> length rest
     \<and> CHR ''@'' \<notin> set (local @ label @ rest) \<and> CHR ''.'' \<notin> set label \<and> (\<forall>c\<in>set s. \<not> is_space c))"

text \<open>When the cells of a row are usable: there is the name of a person or a business, an address or a number, and what there is of these
  is well formed. The key by which duplicates in the file are found is the address in lower case or, without one, the last ten digits of the
  number. What is kept: the name, the address, and the number cut to twenty characters, digits or not.\<close>

definition row_usable :: "(string, string) adict \<Rightarrow> jdict \<Rightarrow> bool" where
  "row_usable mapping raw \<longleftrightarrow>
     (let email = py_lower (column_text mapping raw ''email''); phone = column_text mapping raw ''phone''
      in (column_text mapping raw ''first_name'' \<noteq> [] \<or> column_text mapping raw ''company'' \<noteq> []) \<and> (email \<noteq> [] \<or> phone \<noteq> [])
         \<and> (email \<noteq> [] \<longrightarrow> email_address email \<and> length email \<le> 320) \<and> (phone \<noteq> [] \<longrightarrow> 10 \<le> length (filter is_dec phone)))"

definition cell_key :: "(string, string) adict \<Rightarrow> jdict \<Rightarrow> string" where
  "cell_key mapping raw =
     (let email = py_lower (column_text mapping raw ''email''); digits = filter is_dec (column_text mapping raw ''phone'')
      in if email \<noteq> [] then email else drop (length digits - 10) digits)"

definition row_kept :: "(string, string) adict \<Rightarrow> jdict \<Rightarrow> AcceptedRow \<Rightarrow> bool" where
  "row_kept mapping raw r \<longleftrightarrow>
     (let email = py_lower (column_text mapping raw ''email''); phone = column_text mapping raw ''phone'';
          name = column_text mapping raw ''first_name''
      in ac_dedupe r = cell_key mapping raw \<and> value_of ''first_name'' (ac_values r) \<noteq> []
         \<and> (name \<noteq> [] \<longrightarrow> value_of ''first_name'' (ac_values r) = neutralise_formula (take 120 name))
         \<and> (email \<noteq> [] \<longrightarrow> value_of ''email'' (ac_values r) = email) \<and> (phone \<noteq> [] \<longrightarrow> value_of ''phone'' (ac_values r) = take 20 phone))"

lemma valid_email_iff: "valid_email s \<longleftrightarrow> email_address s"
proof
  assume valid: "valid_email s"
  define local where "local = takeWhile (\<lambda>c. c \<noteq> CHR ''@'') s"
  define domain where "domain = drop (length local + 1) s"
  define label where "label = takeWhile (\<lambda>c. c \<noteq> CHR ''.'') domain"
  define rest where "rest = drop (length label + 1) domain"
  have facts: "\<forall>c\<in>set s. \<not> is_space c" "CHR ''@'' \<in> set s" "local \<noteq> []" "CHR ''@'' \<notin> set domain" "label \<noteq> []" "2 \<le> length rest"
    using valid unfolding valid_email_def Let_def local_def[symmetric] domain_def[symmetric] label_def[symmetric] rest_def[symmetric]
    by (simp_all add: list_ex_iff)
  have s: "s = local @ CHR ''@'' # domain" unfolding local_def domain_def by (rule split_at_first[OF facts(2)])
  have "CHR ''.'' \<in> set domain" using facts(6) takeWhile_eq_all_conv[of "\<lambda>c. c \<noteq> CHR ''.''" domain] unfolding rest_def label_def by fastforce
  then have d: "domain = label @ CHR ''.'' # rest" unfolding label_def rest_def by (rule split_at_first)
  have "CHR ''@'' \<notin> set local" "CHR ''.'' \<notin> set label" by (auto simp: local_def label_def dest: set_takeWhileD)
  then show "email_address s" unfolding email_address_def using facts s d by (intro exI[of _ local] exI[of _ label] exI[of _ rest]) simp
next
  assume "email_address s"
  then obtain local label rest where s: "s = local @ CHR ''@'' # label @ CHR ''.'' # rest" and parts: "local \<noteq> []" "label \<noteq> []" "2 \<le> length rest"
    "CHR ''@'' \<notin> set (local @ label @ rest)" "CHR ''.'' \<notin> set label" "\<forall>c\<in>set s. \<not> is_space c"
    unfolding email_address_def by blast
  have "takeWhile (\<lambda>c. c \<noteq> CHR ''@'') s = local" unfolding s using parts(4) by (intro takeWhile_upto_first) simp
  moreover have "drop (length local + 1) s = label @ CHR ''.'' # rest" by (simp add: s)
  moreover have "takeWhile (\<lambda>c. c \<noteq> CHR ''.'') (label @ CHR ''.'' # rest) = label" using parts(5) by (intro takeWhile_upto_first)
  moreover have "drop (length label + 1) (label @ CHR ''.'' # rest) = rest" by simp
  ultimately show "valid_email s" using parts by (simp add: valid_email_def Let_def list_ex_iff s)
qed

text \<open>The fold over the mapping leaves the text of the column under every field that is kept as a value, and fills the capture
  with the rest.\<close>

definition read_cell :: "jdict \<Rightarrow> (string, string) adict \<times> jdict \<Rightarrow> string \<times> string \<Rightarrow> (string, string) adict \<times> jdict" where
  "read_cell raw vc e =
     (let cell = py_strip (cell_text (dget_or (fst e) (JStr []) raw)) in
      if cell = [] then vc
      else if snd e \<in> set CAPTURE_FIELDS then (fst vc, aput (snd e) (JStr (neutralise_formula (take 500 cell))) (snd vc))
      else (aput (snd e) cell (fst vc), snd vc))"

lemma read_mapped_cells: "read_mapped mapping raw = foldl (read_cell raw) ([], []) mapping"
proof -
  have "(\<lambda>(vals, cap) (header, target).
     let cell = py_strip (cell_text (dget_or header (JStr []) raw)) in
     if cell = [] then (vals, cap)
     else if target \<in> set CAPTURE_FIELDS then (vals, aput target (JStr (neutralise_formula (take 500 cell))) cap)
     else (aput target cell vals, cap)) = read_cell raw"
    by (auto simp: fun_eq_iff read_cell_def Let_def)
  then show ?thesis by (simp only: read_mapped_def)
qed

lemma column_text_Cons: "column_text (e # mapping) raw field =
    (if field = snd e then py_strip (cell_text (dget_or (fst e) (JStr []) raw)) else column_text mapping raw field)"
  by (simp add: column_text_def case_prod_beta)

lemma column_text_none: "field \<notin> snd ` set mapping \<Longrightarrow> column_text mapping raw field = []"
  by (induction mapping) (simp_all add: column_text_Cons, simp add: column_text_def)

lemma read_cells:
  assumes "distinct (map snd mapping)"
  shows "field \<notin> set CAPTURE_FIELDS \<Longrightarrow> value_of field (fst (foldl (read_cell raw) vc mapping))
      = (if column_text mapping raw field = [] then value_of field (fst vc) else column_text mapping raw field)"
    and "field \<in> set CAPTURE_FIELDS \<Longrightarrow> map_of (snd (foldl (read_cell raw) vc mapping)) field
      = (if column_text mapping raw field = [] then map_of (snd vc) field
         else Some (JStr (neutralise_formula (take 500 (column_text mapping raw field)))))"
  using assms
proof (induction mapping arbitrary: vc)
  case Nil
  { case 1 then show ?case by (simp add: column_text_def) next case 2 then show ?case by (simp add: column_text_def) }
next
  case (Cons e mapping)
  {
    case 1
    then show ?case using Cons.IH(1)[of "read_cell raw vc e"] column_text_none[of "snd e" mapping raw]
      by (auto simp: column_text_Cons read_cell_def Let_def)
  next
    case 2
    then show ?case using Cons.IH(2)[of "read_cell raw vc e"] column_text_none[of "snd e" mapping raw]
      by (auto simp: column_text_Cons read_cell_def Let_def)
  }
qed

lemma row_content_columns:
  assumes "distinct (map snd mapping)"
  shows "value_of ''email'' (fst (row_content mapping raw)) = column_text mapping raw ''email''"
    and "value_of ''phone'' (fst (row_content mapping raw)) = column_text mapping raw ''phone''"
    and "value_of ''first_name'' (fst (row_content mapping raw)) \<noteq> []
      \<longleftrightarrow> column_text mapping raw ''first_name'' \<noteq> [] \<or> column_text mapping raw ''company'' \<noteq> []"
    and "column_text mapping raw ''first_name'' \<noteq> [] \<Longrightarrow>
      value_of ''first_name'' (fst (row_content mapping raw)) = column_text mapping raw ''first_name''"
proof -
  obtain vals cap where rm: "read_mapped mapping raw = (vals, cap)" by fastforce
  have v: "value_of field vals = column_text mapping raw field" if "field \<notin> set CAPTURE_FIELDS" for field
    using read_cells(1)[OF assms that, of raw "([], [])"] rm by (simp add: read_mapped_cells value_of_def split: if_splits)
  have c: "map_of cap ''company'' = (if column_text mapping raw ''company'' = [] then None
      else Some (JStr (neutralise_formula (take 500 (column_text mapping raw ''company'')))))"
    using read_cells(2)[OF assms, of "''company''" raw "([], [])"] rm by (simp add: read_mapped_cells CAPTURE_FIELDS_def)
  have fields: "value_of ''email'' vals = column_text mapping raw ''email''" "value_of ''phone'' vals = column_text mapping raw ''phone''"
    "value_of ''first_name'' vals = column_text mapping raw ''first_name''"
    by (intro v; simp add: CAPTURE_FIELDS_def)+
  have content: "row_content mapping raw = with_name (vals, let extra = read_extra mapping raw in if extra = [] then cap else aput ''extra'' (JDict extra) cap)"
    by (simp add: row_content_def rm)
  show "value_of ''email'' (fst (row_content mapping raw)) = column_text mapping raw ''email''"
    "value_of ''phone'' (fst (row_content mapping raw)) = column_text mapping raw ''phone''"
    using fields by (simp_all add: content with_name_def)
  show "column_text mapping raw ''first_name'' \<noteq> [] \<Longrightarrow>
      value_of ''first_name'' (fst (row_content mapping raw)) = column_text mapping raw ''first_name''"
    using fields by (simp add: content with_name_def)
  show "value_of ''first_name'' (fst (row_content mapping raw)) \<noteq> []
      \<longleftrightarrow> column_text mapping raw ''first_name'' \<noteq> [] \<or> column_text mapping raw ''company'' \<noteq> []"
    using fields c neutralise_nonempty[of "take 500 (column_text mapping raw ''company'')"]
    by (auto simp: content with_name_def dget_def truthy_def Let_def)
qed

lemma stored_name: "value_of ''first_name'' vals \<noteq> [] \<Longrightarrow>
    value_of ''first_name'' (stored_values s vals) = neutralise_formula (take 120 (value_of ''first_name'' vals))
    \<and> value_of ''first_name'' (stored_values s vals) \<noteq> []"
  by (simp add: stored_values_def Let_def neutralise_nonempty)

lemma stored_email: "fst (judge_email vals) \<noteq> [] \<Longrightarrow> value_of ''email'' (stored_values s vals) = fst (judge_email vals)"
  by (simp add: stored_values_def Let_def)

lemma stored_phone: "fst (judge_phone vals) \<noteq> [] \<Longrightarrow> value_of ''phone'' (stored_values s vals) = take 20 (value_of ''phone'' vals)"
  by (auto simp: stored_values_def Let_def judge_phone_def)

lemma judge_email_cases:
  obtains "py_lower (value_of ''email'' vals) = []" "judge_email vals = ([], [])"
  | "py_lower (value_of ''email'' vals) \<noteq> []" "\<not> (valid_email (py_lower (value_of ''email'' vals)) \<and> length (py_lower (value_of ''email'' vals)) \<le> 320)"
    "fst (judge_email vals) = []" "snd (judge_email vals) \<noteq> []"
  | "py_lower (value_of ''email'' vals) \<noteq> []" "valid_email (py_lower (value_of ''email'' vals)) \<and> length (py_lower (value_of ''email'' vals)) \<le> 320"
    "judge_email vals = (py_lower (value_of ''email'' vals), [])"
proof (cases "py_lower (value_of ''email'' vals) = []")
  case True
  then show thesis by (intro that(1)) (simp_all add: judge_email_def)
next
  case False
  show thesis
  proof (cases "valid_email (py_lower (value_of ''email'' vals)) \<and> length (py_lower (value_of ''email'' vals)) \<le> 320")
    case True
    with False have "judge_email vals = (py_lower (value_of ''email'' vals), [])" by (simp add: judge_email_def Let_def)
    with False True show thesis by (rule that(3))
  next
    case bad: False
    with False have "judge_email vals = ([], [Bad_email (py_lower (value_of ''email'' vals))])" by (auto simp: judge_email_def Let_def)
    with False bad show thesis by (intro that(2)) simp_all
  qed
qed

lemma judge_phone_cases:
  obtains "value_of ''phone'' vals = []" "judge_phone vals = ([], [])"
  | "value_of ''phone'' vals \<noteq> []" "length (filter is_dec (value_of ''phone'' vals)) < 10" "fst (judge_phone vals) = []" "snd (judge_phone vals) \<noteq> []"
  | "value_of ''phone'' vals \<noteq> []" "10 \<le> length (filter is_dec (value_of ''phone'' vals))"
    "judge_phone vals = (drop (length (filter is_dec (value_of ''phone'' vals)) - 10) (filter is_dec (value_of ''phone'' vals)), [])"
proof (cases "value_of ''phone'' vals = []")
  case True
  then show thesis by (intro that(1)) (simp_all add: judge_phone_def)
next
  case False
  show thesis
  proof (cases "10 \<le> length (filter is_dec (value_of ''phone'' vals))")
    case True
    with False show thesis by (intro that(3)) (simp_all add: judge_phone_def normalise_phone_digits_def Let_def)
  next
    case few: False
    with False show thesis by (intro that(2)) (simp_all add: judge_phone_def normalise_phone_digits_def Let_def)
  qed
qed

lemma judge_row_parts:
  assumes "vals = fst (row_content mapping raw)"
  shows "judge_row mapping source seen n raw =
     (let key = (if fst (judge_email vals) \<noteq> [] then fst (judge_email vals) else fst (judge_phone vals));
          reasons = (if value_of ''first_name'' vals = [] then [No_name] else []) @ snd (judge_email vals) @ snd (judge_phone vals)
            @ (if fst (judge_email vals) = [] \<and> fst (judge_phone vals) = [] then [Not_contactable] else [])
            @ (case map_of seen key of Some m \<Rightarrow> if key \<noteq> [] then [Duplicate_of m] else [] | None \<Rightarrow> [])
      in if reasons \<noteq> [] then Inl \<lparr>rj_row = n, rj_reasons = reasons, rj_raw = raw\<rparr>
         else Inr \<lparr>ac_row = n, ac_values = stored_values source vals, ac_capture = snd (row_content mapping raw), ac_dedupe = key\<rparr>)"
  unfolding assms judge_row_def Let_def by (simp only: prod.case_eq_if)

lemma judge_row_accepted:
  assumes "judge_row mapping source seen n raw = Inr r" and "distinct (map snd mapping)"
  shows "ac_row r = n \<and> row_usable mapping raw \<and> row_kept mapping raw r \<and> ac_dedupe r \<notin> fst ` set seen"
proof -
  define vals where "vals = fst (row_content mapping raw)"
  note cols = row_content_columns[OF assms(2), of raw, folded vals_def]
  let ?key = "if fst (judge_email vals) \<noteq> [] then fst (judge_email vals) else fst (judge_phone vals)"
  have facts: "value_of ''first_name'' vals \<noteq> []" "snd (judge_email vals) = []" "snd (judge_phone vals) = []"
    "fst (judge_email vals) \<noteq> [] \<or> fst (judge_phone vals) \<noteq> []" "ac_row r = n" "ac_values r = stored_values source vals" "ac_dedupe r = ?key"
    "map_of seen ?key = None"
    using assms(1) unfolding judge_row_parts [OF vals_def] Let_def by (auto split: if_splits option.splits)
  have "ac_dedupe r \<notin> fst ` set seen" using facts(7,8) by (simp add: map_of_eq_None_iff)
  moreover have "row_usable mapping raw \<and> row_kept mapping raw r"
    using facts(1-4,6,7) stored_name[OF facts(1), of source] cols(4) stored_email[of vals source] stored_phone[of vals source]
    unfolding row_usable_def row_kept_def cell_key_def Let_def cols(1,2)[symmetric] cols(3)[symmetric] valid_email_iff[symmetric]
    by (cases rule: judge_email_cases[of vals]; cases rule: judge_phone_cases[of vals]) force+
  ultimately show ?thesis using facts(5) by blast
qed

lemma judge_row_rejected:
  assumes "judge_row mapping source seen n raw = Inl r" and "distinct (map snd mapping)"
  shows "rj_row r = n \<and> rj_reasons r \<noteq> [] \<and> rj_raw r = raw \<and> (row_usable mapping raw \<longrightarrow> cell_key mapping raw \<in> fst ` set seen)"
proof -
  define vals where "vals = fst (row_content mapping raw)"
  note cols = row_content_columns[OF assms(2), of raw, folded vals_def]
  let ?key = "if fst (judge_email vals) \<noteq> [] then fst (judge_email vals) else fst (judge_phone vals)"
  have facts: "rj_row r = n" "rj_reasons r \<noteq> []" "rj_raw r = raw"
    and why: "value_of ''first_name'' vals = [] \<or> snd (judge_email vals) \<noteq> [] \<or> snd (judge_phone vals) \<noteq> []
      \<or> fst (judge_email vals) = [] \<and> fst (judge_phone vals) = [] \<or> map_of seen ?key \<noteq> None"
    using assms(1) unfolding judge_row_parts [OF vals_def] Let_def by (auto split: if_splits option.splits)
  have "cell_key mapping raw \<in> fst ` set seen" if "row_usable mapping raw"
  proof -
    have "map_of seen (cell_key mapping raw) \<noteq> None"
      using that why unfolding row_usable_def cell_key_def Let_def cols(1,2)[symmetric] cols(3)[symmetric] valid_email_iff[symmetric]
      by (cases rule: judge_email_cases[of vals]; cases rule: judge_phone_cases[of vals]) (simp_all, force)
    then show ?thesis by (simp add: map_of_eq_None_iff)
  qed
  with facts show ?thesis by blast
qed

section \<open>Plans\<close>

definition judged :: "ImportPlan \<Rightarrow> nat set" where
  "judged plan = ac_row ` set (pl_accepted plan) \<union> rj_row ` set (pl_rejected plan)"

definition earlier_keys :: "nat \<Rightarrow> ImportPlan \<Rightarrow> string set" where
  "earlier_keys n plan = ac_dedupe ` {r \<in> set (pl_accepted plan). ac_row r < n}"

text \<open>A plan of rows numbered from \<open>n\<close>, when the keys \<open>K\<close> are taken.\<close>

definition plan_numbers :: "string set \<Rightarrow> nat \<Rightarrow> nat \<Rightarrow> ImportPlan \<Rightarrow> bool" where
  "plan_numbers K n len plan \<longleftrightarrow> judged plan = {n..<n + len} \<and> length (pl_accepted plan) + length (pl_rejected plan) = len
     \<and> sorted_wrt (<) (map ac_row (pl_accepted plan)) \<and> sorted_wrt (<) (map rj_row (pl_rejected plan))
     \<and> distinct (map ac_dedupe (pl_accepted plan)) \<and> K \<inter> ac_dedupe ` set (pl_accepted plan) = {}"

definition plan_ok :: "(string, string) adict \<Rightarrow> string set \<Rightarrow> nat \<Rightarrow> jdict list \<Rightarrow> ImportPlan \<Rightarrow> bool" where
  "plan_ok mapping K n rows plan \<longleftrightarrow> plan_numbers K n (length rows) plan
     \<and> (\<forall>r\<in>set (pl_accepted plan). row_usable mapping (rows ! (ac_row r - n)) \<and> row_kept mapping (rows ! (ac_row r - n)) r)
     \<and> (\<forall>r\<in>set (pl_rejected plan). rj_reasons r \<noteq> [] \<and> rj_raw r = rows ! (rj_row r - n)
          \<and> (row_usable mapping (rj_raw r) \<longrightarrow> cell_key mapping (rj_raw r) \<in> K \<union> earlier_keys (rj_row r) plan))"

lemma judged_range: "{n..<n + Suc len} = insert n {Suc n..<Suc n + len}"
  by auto

lemma plan_numbers_reject:
  assumes "plan_numbers K (Suc n) len plan" "rj_row r = n"
  shows "plan_numbers K n (Suc len) (plan\<lparr>pl_rejected := r # pl_rejected plan\<rparr>)"
proof -
  have later: "Suc n \<le> rj_row x" if "x \<in> set (pl_rejected plan)" for x
  proof -
    have "rj_row x \<in> judged plan" using that by (simp add: judged_def)
    then show ?thesis using assms(1) by (simp add: plan_numbers_def)
  qed
  have "judged (plan\<lparr>pl_rejected := r # pl_rejected plan\<rparr>) = insert n (judged plan)" by (simp add: judged_def assms(2))
  moreover have "sorted_wrt (<) (map rj_row (r # pl_rejected plan))" using assms later by (simp add: plan_numbers_def Suc_le_eq)
  ultimately show ?thesis using assms(1) unfolding plan_numbers_def judged_range by simp
qed

lemma plan_numbers_accept:
  assumes "plan_numbers (insert (ac_dedupe r) K) (Suc n) len plan" "ac_row r = n" "ac_dedupe r \<notin> K"
  shows "plan_numbers K n (Suc len) (plan\<lparr>pl_accepted := r # pl_accepted plan\<rparr>)"
proof -
  have later: "Suc n \<le> ac_row x" if "x \<in> set (pl_accepted plan)" for x
  proof -
    have "ac_row x \<in> judged plan" using that by (simp add: judged_def)
    then show ?thesis using assms(1) by (simp add: plan_numbers_def)
  qed
  have "judged (plan\<lparr>pl_accepted := r # pl_accepted plan\<rparr>) = insert n (judged plan)" by (simp add: judged_def assms(2))
  moreover have "sorted_wrt (<) (map ac_row (r # pl_accepted plan))" using assms later by (simp add: plan_numbers_def Suc_le_eq)
  ultimately show ?thesis using assms(1,3) unfolding plan_numbers_def judged_range by simp
qed

lemma plan_ok_later:
  assumes "plan_ok mapping K (Suc n) rows plan" and "m \<in> judged plan"
  shows "n < m \<and> rows ! (m - Suc n) = (raw # rows) ! (m - n)"
proof -
  have "Suc n \<le> m" using assms by (simp add: plan_ok_def plan_numbers_def)
  then show ?thesis using Suc_diff_Suc[of n m] by (metis Suc_le_lessD nth_Cons_Suc)
qed

lemma plan_ok_rows:
  assumes "plan_ok mapping K (Suc n) rows plan"
  shows "x \<in> set (pl_rejected plan) \<Longrightarrow> n < rj_row x \<and> rj_reasons x \<noteq> [] \<and> rj_raw x = (raw # rows) ! (rj_row x - n)
      \<and> (row_usable mapping (rj_raw x) \<longrightarrow> cell_key mapping (rj_raw x) \<in> K \<union> earlier_keys (rj_row x) plan)"
    and "y \<in> set (pl_accepted plan) \<Longrightarrow> n < ac_row y \<and> row_usable mapping ((raw # rows) ! (ac_row y - n))
      \<and> row_kept mapping ((raw # rows) ! (ac_row y - n)) y"
proof -
  have r: "n < rj_row x \<and> rows ! (rj_row x - Suc n) = (raw # rows) ! (rj_row x - n)" if "x \<in> set (pl_rejected plan)" for x
    by (rule plan_ok_later[OF assms]) (use that in \<open>simp add: judged_def\<close>)
  have a: "n < ac_row y \<and> rows ! (ac_row y - Suc n) = (raw # rows) ! (ac_row y - n)" if "y \<in> set (pl_accepted plan)" for y
    by (rule plan_ok_later[OF assms]) (use that in \<open>simp add: judged_def\<close>)
  show "n < rj_row x \<and> rj_reasons x \<noteq> [] \<and> rj_raw x = (raw # rows) ! (rj_row x - n)
      \<and> (row_usable mapping (rj_raw x) \<longrightarrow> cell_key mapping (rj_raw x) \<in> K \<union> earlier_keys (rj_row x) plan)" if "x \<in> set (pl_rejected plan)"
    using assms r[OF that] that unfolding plan_ok_def by metis
  show "n < ac_row y \<and> row_usable mapping ((raw # rows) ! (ac_row y - n)) \<and> row_kept mapping ((raw # rows) ! (ac_row y - n)) y"
    if "y \<in> set (pl_accepted plan)"
    using assms a[OF that] that unfolding plan_ok_def by metis
qed

lemma plan_ok_reject:
  assumes "plan_ok mapping K (Suc n) rows plan"
    and "rj_row r = n \<and> rj_reasons r \<noteq> [] \<and> rj_raw r = raw \<and> (row_usable mapping raw \<longrightarrow> cell_key mapping raw \<in> K)"
  shows "plan_ok mapping K n (raw # rows) (plan\<lparr>pl_rejected := r # pl_rejected plan\<rparr>)"
proof -
  note rest = plan_ok_rows[OF assms(1), where raw = raw]
  let ?plan = "plan\<lparr>pl_rejected := r # pl_rejected plan\<rparr>"
  have same: "earlier_keys m ?plan = earlier_keys m plan" for m by (simp add: earlier_keys_def)
  have parts: "pl_rejected ?plan = r # pl_rejected plan" "pl_accepted ?plan = pl_accepted plan" by simp_all
  have "\<forall>x\<in>set (r # pl_rejected plan). rj_reasons x \<noteq> [] \<and> rj_raw x = (raw # rows) ! (rj_row x - n)
      \<and> (row_usable mapping (rj_raw x) \<longrightarrow> cell_key mapping (rj_raw x) \<in> K \<union> earlier_keys (rj_row x) plan)"
  proof
    fix x assume "x \<in> set (r # pl_rejected plan)"
    then consider "x = r" | "x \<in> set (pl_rejected plan)" by auto
    then show "rj_reasons x \<noteq> [] \<and> rj_raw x = (raw # rows) ! (rj_row x - n)
      \<and> (row_usable mapping (rj_raw x) \<longrightarrow> cell_key mapping (rj_raw x) \<in> K \<union> earlier_keys (rj_row x) plan)"
      using assms(2) rest(1)[of x] by cases (simp, blast)
  qed
  moreover have "plan_numbers K n (length (raw # rows)) (plan\<lparr>pl_rejected := r # pl_rejected plan\<rparr>)"
    using plan_numbers_reject[of K n "length rows" plan r] assms by (simp add: plan_ok_def)
  ultimately show ?thesis unfolding plan_ok_def same parts using rest(2) by blast
qed

lemma plan_ok_accept:
  assumes "plan_ok mapping (insert (ac_dedupe r) K) (Suc n) rows plan"
    and "ac_row r = n \<and> row_usable mapping raw \<and> row_kept mapping raw r \<and> ac_dedupe r \<notin> K"
  shows "plan_ok mapping K n (raw # rows) (plan\<lparr>pl_accepted := r # pl_accepted plan\<rparr>)"
proof -
  let ?plan = "plan\<lparr>pl_accepted := r # pl_accepted plan\<rparr>"
  note rest = plan_ok_rows[OF assms(1), where raw = raw]
  have parts: "pl_rejected ?plan = pl_rejected plan" "pl_accepted ?plan = r # pl_accepted plan" by simp_all
  have keys: "insert (ac_dedupe r) K \<union> earlier_keys m plan = K \<union> earlier_keys m ?plan" if "n < m" for m
    using that assms(2) by (auto simp: earlier_keys_def)
  have "\<forall>x\<in>set (pl_rejected plan). rj_reasons x \<noteq> [] \<and> rj_raw x = (raw # rows) ! (rj_row x - n)
      \<and> (row_usable mapping (rj_raw x) \<longrightarrow> cell_key mapping (rj_raw x) \<in> K \<union> earlier_keys (rj_row x) ?plan)"
    using rest(1) keys by blast
  moreover have "plan_numbers K n (length (raw # rows)) ?plan"
    using plan_numbers_accept[of r K n "length rows" plan] assms by (simp add: plan_ok_def)
  moreover have "\<forall>x\<in>set (r # pl_accepted plan). row_usable mapping ((raw # rows) ! (ac_row x - n)) \<and> row_kept mapping ((raw # rows) ! (ac_row x - n)) x"
  proof
    fix x assume "x \<in> set (r # pl_accepted plan)"
    then consider "x = r" | "x \<in> set (pl_accepted plan)" by auto
    then show "row_usable mapping ((raw # rows) ! (ac_row x - n)) \<and> row_kept mapping ((raw # rows) ! (ac_row x - n)) x"
      using assms(2) rest(2)[of x] by cases (simp, blast)
  qed
  ultimately show ?thesis unfolding plan_ok_def parts by blast
qed

text \<open>A validated mapping sends no two columns to one field.\<close>

lemma resolve_mapping_targets:
  "resolve_mapping seen m = Some (resolved, seen') \<Longrightarrow> distinct (map snd resolved) \<and> snd ` set resolved \<inter> set seen = {}"
proof (induction seen m arbitrary: resolved rule: resolve_mapping.induct)
  case (2 seen header target rest)
  then show ?case by (cases target) (fastforce split: if_splits)+
qed simp

lemma validated_targets: "validate_mapping m = Inr mapping \<Longrightarrow> distinct (map snd mapping)"
  using resolve_mapping_targets by (fastforce simp: validate_mapping_def split: if_splits option.splits)

lemma judge_rows_ok: "distinct (map snd mapping) \<Longrightarrow> plan_ok mapping (fst ` set seen) n rows (judge_rows mapping source seen n rows)"
proof (induction rows arbitrary: seen n)
  case Nil
  then show ?case by (simp add: plan_ok_def plan_numbers_def judged_def)
next
  case (Cons raw rows)
  show ?case
  proof (cases "judge_row mapping source seen n raw")
    case (Inl r)
    then show ?thesis using plan_ok_reject[OF Cons.IH[OF Cons.prems] judge_row_rejected[OF Inl Cons.prems]] by (simp add: Let_def)
  next
    case (Inr r)
    have "plan_ok mapping (insert (ac_dedupe r) (fst ` set seen)) (Suc n) rows (judge_rows mapping source (aput (ac_dedupe r) n seen) (Suc n) rows)"
      using Cons.IH[OF Cons.prems, of "aput (ac_dedupe r) n seen" "Suc n"] unfolding keys_aput .
    from plan_ok_accept[OF this judge_row_accepted[OF Inr Cons.prems]] show ?thesis by (simp add: Inr Let_def)
  qed
qed

section \<open>Commits\<close>

lemma import_row_cases:
  assumes "import_row a key batch fresh matches st r = Inr st'"
  obtains (known) m where "map_of matches (ac_dedupe r) = Some m" "ir_leads st' = ir_leads st" "ir_duplicates st' = ir_duplicates st @ [(ac_row r, m)]"
      "ir_events st' = ir_events st @ [import_event (ac_tenant a) key r None ''duplicate'' (Some (mt_lead m))]"
  | (new) assignee where "map_of matches (ac_dedupe r) = None" "ir_leads st' = ir_leads st @ [imported_lead a batch (fresh (ac_row r)) r assignee]"
      "ir_duplicates st' = ir_duplicates st" "ir_events st' = ir_events st @ [import_event (ac_tenant a) key r (Some (fresh (ac_row r))) ''imported'' None]"
  using assms by (auto simp: import_row_def rbind_eq_Inr split: option.splits)

definition new_rows :: "(string, import_match) adict \<Rightarrow> AcceptedRow list \<Rightarrow> AcceptedRow list" where
  "new_rows matches rows = filter (\<lambda>r. map_of matches (ac_dedupe r) = None) rows"

definition imported_from :: "actor \<Rightarrow> string \<Rightarrow> (nat \<Rightarrow> string) \<Rightarrow> AcceptedRow \<Rightarrow> Lead \<Rightarrow> bool" where
  "imported_from a batch fresh r l \<longleftrightarrow> (\<exists>assignee. l = imported_lead a batch (fresh (ac_row r)) r assignee)"

lemma import_rows:
  assumes "rfold (import_row a key batch fresh matches) st rows = Inr st'"
  shows "\<exists>ls. ir_leads st' = ir_leads st @ ls \<and> list_all2 (imported_from a batch fresh) (new_rows matches rows) ls"
    and "ir_duplicates st' = ir_duplicates st @ List.map_filter (\<lambda>r. map_option (\<lambda>m. (ac_row r, m)) (map_of matches (ac_dedupe r))) rows"
  using assms
proof (induction rows arbitrary: st)
  case Nil
  {
    case 1
    then show ?case by (simp add: new_rows_def)
  next
    case 2
    then show ?case by (simp add: map_filter_simps)
  }
next
  case (Cons r rows)
  {
    case 1
    then obtain st1 where st1: "import_row a key batch fresh matches st r = Inr st1" "rfold (import_row a key batch fresh matches) st1 rows = Inr st'"
      by (auto split: sum.splits)
    from st1(1) show ?case using Cons.IH(1)[OF st1(2)]
      by (cases rule: import_row_cases) (auto simp: new_rows_def imported_from_def)
  next
    case 2
    then obtain st1 where st1: "import_row a key batch fresh matches st r = Inr st1" "rfold (import_row a key batch fresh matches) st1 rows = Inr st'"
      by (auto split: sum.splits)
    from st1(1) show ?case using Cons.IH(2)[OF st1(2)]
      by (cases rule: import_row_cases) (auto simp: map_filter_simps)
  }
qed

lemma length_new_rows: "length (new_rows matches rows) + length (List.map_filter (\<lambda>r. map_option (\<lambda>m. (ac_row r, m)) (map_of matches (ac_dedupe r))) rows)
    = length rows"
  by (induction rows) (auto simp: new_rows_def map_filter_simps split: option.splits)

lemma commit_cases:
  obtains (refused) err where "commit_import a batch fresh f key assign db = (db, Inl err)"
  | (committed) plan st res where "judge_file f = Inr plan" "\<not> list_ex (\<lambda>e. se_tenant e = ac_tenant a \<and> se_key e = key) (ib_events db)"
      "rfold (import_row a key batch fresh (existing_matches (ac_tenant a) plan (ib_leads db)))
         \<lparr>ir_rules = import_rules (ac_tenant a) assign db, ir_leads = [], ir_events = [], ir_duplicates = []\<rparr> (pl_accepted plan) = Inr st"
      "snd (commit_import a batch fresh f key assign db) = Inr res" "rs_created res = map ld_id (ir_leads st)" "rs_duplicates res = ir_duplicates st"
      "rs_plan res = plan" "ib_leads (fst (commit_import a batch fresh f key assign db)) = ib_leads db @ ir_leads st"
      "batch_event (ac_tenant a) key \<in> set (ib_events (fst (commit_import a batch fresh f key assign db)))"
proof (cases "py_strip key = []")
  case True
  then show thesis by (intro refused) (simp add: commit_import_def)
next
  case key: False
  show thesis
  proof (cases "judge_file f")
    case (Inl err)
    then show thesis using key by (intro refused) (simp add: commit_import_def)
  next
    case plan: (Inr plan)
    show thesis
    proof (cases "list_ex (\<lambda>e. se_tenant e = ac_tenant a \<and> se_key e = key) (ib_events db)")
      case True
      then show thesis using key plan by (intro refused) (simp add: commit_import_def)
    next
      case fresh_key: False
      note head = key plan fresh_key
      show thesis
      proof (cases "rfold (import_row a key batch fresh (existing_matches (ac_tenant a) plan (ib_leads db)))
          \<lparr>ir_rules = import_rules (ac_tenant a) assign db, ir_leads = [], ir_events = [], ir_duplicates = []\<rparr> (pl_accepted plan)")
        case (Inl err)
        then show thesis using head by (intro refused) (simp add: commit_import_def)
      next
        case (Inr st)
        show thesis
        proof (cases "\<not> distinct (map event_slot (ir_events st @ [batch_event (ac_tenant a) key]))
            \<or> set (map event_slot (ir_events st @ [batch_event (ac_tenant a) key])) \<inter> set (map event_slot (ib_events db)) \<noteq> {}")
          case True
          then show thesis by (intro refused) (simp only: commit_import_def Let_def head Inr True if_True if_False sum.case)
        next
          case False
          show thesis by (rule committed[OF plan fresh_key Inr])
            (simp_all only: commit_import_def Let_def head Inr False if_True if_False sum.case fst_conv snd_conv import_result.simps import_db.simps, auto)
        qed
      qed
    qed
  qed
qed

section \<open>Sheets\<close>

lemma aput_new: "k \<notin> fst ` set d \<Longrightarrow> aput k v d = d @ [(k, v)]"
  by (induction d) auto

lemma aput_all:
  assumes "distinct (map fst es)" and "fst ` set es \<inter> fst ` set d = {}" and "\<And>e. e \<in> set es \<Longrightarrow> f (fst e) = fst e"
  shows "foldl (\<lambda>d e. aput (f (fst e)) (snd e) d) d es = d @ es"
  using assms
proof (induction es arbitrary: d)
  case (Cons e es)
  have "f (fst e) = fst e" "fst e \<notin> fst ` set d" using Cons.prems by auto
  then show ?case using Cons.IH[of "d @ [(fst e, snd e)]"] Cons.prems by (auto simp: aput_new)
qed simp

lemma clean_row_zip:
  assumes "distinct hs" and "length cells = length hs" and "list_all (\<lambda>h. py_strip h = h) hs"
  shows "clean_row (dict_row hs cells) = zip hs (map JStr cells)"
proof -
  let ?z = "zip hs (map JStr cells)"
  have z: "dict_row hs cells = ?z" "distinct (map fst ?z)" using assms by (simp_all add: dict_row_def)
  have "foldl (\<lambda>d e. aput (fst e) (snd e) d) [] ?z = ?z" using aput_all[of ?z "[]" "\<lambda>k. k"] z(2) by simp
  moreover have "foldl (\<lambda>d e. aput (py_strip (fst e)) (snd e) d) [] ?z = ?z"
  proof -
    have "py_strip (fst e) = fst e" if "e \<in> set ?z" for e
    proof -
      obtain h v where e: "e = (h, v)" by (rule prod.exhaust)
      then have "h \<in> set hs" using that set_zip_leftD by metis
      then show ?thesis using assms(3) e by (simp add: list_all_iff)
    qed
    then show ?thesis using aput_all[of ?z "[]" py_strip] z(2) by simp
  qed
  ultimately show ?thesis unfolding clean_row_def z(1) by simp
qed

definition sheet_ok :: "string list \<Rightarrow> string list list \<Rightarrow> bool" where
  "sheet_ok hs rows \<longleftrightarrow> hs \<noteq> [] \<and> distinct hs \<and> list_all (\<lambda>h. py_strip h = h) hs \<and> int (length rows) \<le> MAX_ROWS
     \<and> list_all (\<lambda>r. length r = length hs) rows \<and> list_all (list_all (\<lambda>s. int (length s) \<le> FIELD_LIMIT)) (hs # rows)"

section \<open>Properties\<close>

text \<open>
  C26. A plan under a validated mapping judges every row of the file exactly once, by its row number, in the order of the file. An
  accepted row is usable: its mapped columns give the name of a person or a business and an email address or a phone cell, the address is
  well formed and the cell has at least ten digits. The name, the address and the first twenty characters of the phone cell are kept, which
  need not contain its digits; the key of the row, the address or else the last ten digits, is unlike the key of every other accepted row,
  so that two accepted rows can share a number when one has an address. A rejected row keeps its raw cells and at least one reason, and
  it is not usable or has the key of an accepted row above it.
\<close>

theorem import_plan_complete:
  assumes "validate_mapping choice = Inr mapping" and "plan_import rows mapping default_source = Inr plan"
  shows "ac_row ` set (pl_accepted plan) \<union> rj_row ` set (pl_rejected plan) = {2..<2 + length rows}
    \<and> length (pl_accepted plan) + length (pl_rejected plan) = length rows
    \<and> sorted_wrt (<) (map ac_row (pl_accepted plan)) \<and> sorted_wrt (<) (map rj_row (pl_rejected plan))
    \<and> distinct (map ac_dedupe (pl_accepted plan))
    \<and> (\<forall>r\<in>set (pl_accepted plan). row_usable mapping (rows ! (ac_row r - 2)) \<and> row_kept mapping (rows ! (ac_row r - 2)) r)
    \<and> (\<forall>r\<in>set (pl_rejected plan). rj_reasons r \<noteq> [] \<and> rj_raw r = rows ! (rj_row r - 2)
         \<and> (row_usable mapping (rj_raw r) \<longrightarrow> (\<exists>a\<in>set (pl_accepted plan). ac_row a < rj_row r \<and> ac_dedupe a = cell_key mapping (rj_raw r))))
    \<and> 0 < length rows \<and> length rows \<le> 10000"
proof -
  have made: "plan = judge_rows mapping default_source [] 2 rows" and len: "0 < length rows \<and> length rows \<le> 10000"
    using assms(2) by (auto simp: plan_import_def MAX_ROWS_def split: if_splits)
  have ok: "plan_ok mapping {} 2 rows plan"
    unfolding made using judge_rows_ok[OF validated_targets[OF assms(1)], of "[]" 2 rows default_source] by simp
  have earlier: "\<exists>a\<in>set (pl_accepted plan). ac_row a < n \<and> ac_dedupe a = key" if "key \<in> {} \<union> earlier_keys n plan" for key n
    using that by (auto simp: earlier_keys_def)
  note parts = ok[unfolded plan_ok_def plan_numbers_def judged_def]
  have "\<forall>r\<in>set (pl_rejected plan). rj_reasons r \<noteq> [] \<and> rj_raw r = rows ! (rj_row r - 2)
         \<and> (row_usable mapping (rj_raw r) \<longrightarrow> (\<exists>a\<in>set (pl_accepted plan). ac_row a < rj_row r \<and> ac_dedupe a = cell_key mapping (rj_raw r)))"
    using parts earlier by (meson conjunct2)
  then show ?thesis using parts len by (elim conjE, intro conjI)
qed

definition sample_rows :: "jdict list" where
  "sample_rows = [[(''Name'', JStr ''Asha''), (''Phone'', JStr ''98450 12201'')], [(''Name'', JStr ''Ravi''), (''Phone'', JStr ''+91 98450-12201'')],
     [(''Name'', JStr ''Mina''), (''Phone'', JNull)], [(''Name'', JStr ''Omar''), (''Phone'', JStr ''080 4123 8890'')]]"

definition sample_map :: "(string, string) adict" where
  "sample_map = [(''Name'', ''first_name''), (''Phone'', ''phone'')]"

definition sample_choice :: "(string, string option) adict" where
  "sample_choice = [(''Name'', Some ''first_name''), (''Notes'', None), (''Phone'', Some ''phone'')]"

theorem import_plan_complete_witness:
  "validate_mapping sample_choice = Inr sample_map \<and> (\<exists>plan. plan_import sample_rows sample_map ''csv_import'' = Inr plan \<and> distinct (map ac_dedupe (pl_accepted plan))
     \<and> map ac_row (pl_accepted plan) = [2, 5] \<and> map rj_reasons (pl_rejected plan) = [[Duplicate_of 2], [Not_contactable]])"
proof -
  have choice: "validate_mapping sample_choice = Inr sample_map" by code_simp
  let ?plan = "judge_rows sample_map ''csv_import'' [] 2 sample_rows"
  have "sample_rows \<noteq> []" "\<not> int (length sample_rows) > MAX_ROWS" by code_simp+
  then have plan: "plan_import sample_rows sample_map ''csv_import'' = Inr ?plan" by (simp add: plan_import_def)
  have "map ac_row (pl_accepted ?plan) = [2, 5]" "map rj_reasons (pl_rejected ?plan) = [[Duplicate_of 2], [Not_contactable]]" by code_simp+
  moreover have "distinct (map ac_dedupe (pl_accepted ?plan))" using import_plan_complete[OF choice plan] by blast
  ultimately show ?thesis using choice plan by (intro conjI exI[of _ ?plan])
qed

text \<open>
  C27. What a preview announces is what a commit of the same file on the same database does: the same plan and the same duplicates; it
  creates the announced number of leads, one for every accepted row without a match and in that order, behind the leads that were
  there, which stay as they are.
\<close>

theorem import_matches_preview:
  assumes "preview_import (ac_tenant a) f db = Inr pv" and "commit_import a batch fresh f key assign db = (db', Inr res)"
  shows "rs_plan res = pv_plan pv \<and> rs_duplicates res = pv_duplicates pv \<and> int (length (rs_created res)) = pv_will_create pv
    \<and> (\<exists>ls. ib_leads db' = ib_leads db @ ls \<and> rs_created res = map ld_id ls
         \<and> list_all2 (imported_from a batch fresh) (new_rows (existing_matches (ac_tenant a) (pv_plan pv) (ib_leads db)) (pl_accepted (pv_plan pv))) ls)"
proof (cases rule: commit_cases[of a batch fresh f key assign db])
  case (refused err)
  then show ?thesis using assms(2) by simp
next
  case (committed plan st res')
  have plan: "pv_plan pv = plan" and res: "res' = res" and db': "ib_leads db' = ib_leads db @ ir_leads st"
    and dups: "pv_duplicates pv = duplicates_of (existing_matches (ac_tenant a) plan (ib_leads db)) plan"
    and number: "pv_will_create pv = int (length (pl_accepted plan)) - int (length (pv_duplicates pv))"
    using assms committed(1,4,8) by (auto simp: preview_import_def Let_def)
  note rows = import_rows[OF committed(3)]
  obtain ls where ls: "ir_leads st = ls"
      "list_all2 (imported_from a batch fresh) (new_rows (existing_matches (ac_tenant a) plan (ib_leads db)) (pl_accepted plan)) ls"
    using rows(1) by auto
  have same: "ir_duplicates st = pv_duplicates pv" using rows(2) dups by (simp add: duplicates_of_def)
  have "int (length ls) = pv_will_create pv"
    using list_all2_lengthD[OF ls(2)] number dups
      length_new_rows[of "existing_matches (ac_tenant a) plan (ib_leads db)" "pl_accepted plan"] by (simp add: duplicates_of_def)
  then show ?thesis using committed(5-7) ls db' same plan unfolding res by auto
qed

text \<open>
  A key commits at most once: after a commit under a key, whatever happens to the leads and however often the request is repeated, as
  long as source events are not deleted, every further commit under that key in that organisation is refused and changes nothing.
\<close>

theorem import_key_used_once:
  assumes "commit_import a batch fresh f key assign db = (db1, Inr res)" and "set (ib_events db1) \<subseteq> set (ib_events db2)"
    and "ac_tenant b = ac_tenant a"
  shows "\<exists>err. commit_import b batch' fresh' f' key assign' db2 = (db2, Inl err)"
proof -
  have "batch_event (ac_tenant a) key \<in> set (ib_events db1)"
    by (cases rule: commit_cases[of a batch fresh f key assign db]) (use assms(1) in simp_all)
  then have "list_ex (\<lambda>e. se_tenant e = ac_tenant b \<and> se_key e = key) (ib_events db2)"
    unfolding list_ex_iff by (intro bexI[of _ "batch_event (ac_tenant a) key"]) (use assms(2,3) in \<open>auto simp: batch_event_def\<close>)
  then show ?thesis
    by (cases rule: commit_cases[of b batch' fresh' f' key assign' db2]) blast+
qed

definition sample_admin :: actor where
  "sample_admin = \<lparr>ac_tenant = ''t'', ac_user = ''u'', ac_perms = \<lparr>ep_permissions = [], ep_scope = GLOBAL, ep_branch_ids = [], ep_team_ids = [],
     ep_user_id = Some ''u''\<rparr>\<rparr>"

definition sample_file :: "string list list \<Rightarrow> import_file" where
  "sample_file rows = \<lparr>if_bytes = 100, if_text = writerows rows, if_mapping = None, if_source = ''csv_import''\<rparr>"

definition empty_import_db :: import_db where
  "empty_import_db = \<lparr>ib_leads = [], ib_events = [], ib_rules = [], ib_audit = []\<rparr>"

definition first_file :: import_file where
  "first_file = sample_file [[''Name'', ''Phone''], [''Asha'', ''98450 12201'']]"

abbreviation fresh_id :: "string \<Rightarrow> nat \<Rightarrow> string" where "fresh_id p n \<equiv> p @ show_nat n"

abbreviation imported_once :: import_db where
  "imported_once \<equiv> fst (commit_import sample_admin ''b'' (fresh_id ''a'') first_file ''k'' True empty_import_db)"

definition second_file :: import_file where
  "second_file = sample_file [[''Name'', ''Phone'', ''Email''], [''Asha R'', ''+91 98450 12201'', []], [''Ravi'', ''9845099999'', ''r@x.in'']]"

theorem import_matches_preview_witness:
  "\<exists>pv db' res. preview_import ''t'' second_file imported_once = Inr pv
     \<and> commit_import sample_admin ''c'' (fresh_id ''b'') second_file ''m'' True imported_once = (db', Inr res)
     \<and> rs_duplicates res = pv_duplicates pv \<and> length (rs_duplicates res) = 1 \<and> map ld_id (ib_leads db') = [''a2'', ''b3'']"
proof -
  obtain pv where pv: "preview_import (ac_tenant sample_admin) second_file imported_once = Inr pv"
  proof -
    have "\<not> isl (preview_import (ac_tenant sample_admin) second_file imported_once)" by code_simp
    then show thesis using that by (metis isl_def sum.exhaust)
  qed
  obtain db' res where out: "commit_import sample_admin ''c'' (fresh_id ''b'') second_file ''m'' True imported_once = (db', Inr res)"
  proof -
    have "\<not> isl (snd (commit_import sample_admin ''c'' (fresh_id ''b'') second_file ''m'' True imported_once))" by code_simp
    then show thesis using that by (metis isl_def sum.exhaust prod.collapse)
  qed
  have "map ld_id (ib_leads (fst (commit_import sample_admin ''c'' (fresh_id ''b'') second_file ''m'' True imported_once))) = [''a2'', ''b3'']"
    "(case snd (commit_import sample_admin ''c'' (fresh_id ''b'') second_file ''m'' True imported_once) of
        Inl _ \<Rightarrow> 0 | Inr x \<Rightarrow> length (rs_duplicates x)) = 1" by code_simp+
  then have "map ld_id (ib_leads db') = [''a2'', ''b3'']" "length (rs_duplicates res) = 1" unfolding out by simp_all
  moreover have "rs_duplicates res = pv_duplicates pv" using import_matches_preview[OF pv out] by blast
  moreover have "ac_tenant sample_admin = ''t''" by (simp add: sample_admin_def)
  ultimately show ?thesis using pv out by metis
qed

theorem import_key_used_once_witness:
  "\<exists>err. commit_import sample_admin ''c'' (fresh_id ''b'') second_file ''k'' True imported_once = (imported_once, Inl err)"
proof -
  have "\<not> isl (snd (commit_import sample_admin ''b'' (fresh_id ''a'') first_file ''k'' True empty_import_db))" by code_simp
  then obtain res where "commit_import sample_admin ''b'' (fresh_id ''a'') first_file ''k'' True empty_import_db = (imported_once, Inr res)"
    by (metis isl_def sum.exhaust prod.collapse)
  from import_key_used_once[OF this subset_refl refl] show ?thesis .
qed

text \<open>
  The identity of a row is its email address as soon as it has one, so a business whose number is already known is created a second
  time when the second list adds an address; and a number that follows twenty other characters is stored without its digits.
\<close>

theorem import_misses_known_number:
  "map ld_phone (ib_leads (fst (commit_import sample_admin ''c'' (fresh_id ''b'')
     (sample_file [[''Name'', ''Phone'', ''Email''], [''Asha'', ''98450 12201'', ''asha@x.in'']]) ''m'' True imported_once)))
   = [Some ''98450 12201'', Some ''98450 12201'']
   \<and> map ld_phone (ib_leads (fst (commit_import sample_admin ''c'' (fresh_id ''b'')
     (sample_file [[''Name'', ''Phone''], [''Asha'', ''Mobile and WhatsApp: 98450 12201'']]) ''m'' True empty_import_db)))
   = [Some ''Mobile and WhatsApp:'']"
  by code_simp

text \<open>The starter sheet does not map itself: its column of reasons is unknown.\<close>

lemma template_column_unmapped: "map_of (suggest_mapping TEMPLATE_COLUMNS) ''Why we are approaching them'' = Some None"
  by code_simp

text \<open>
  A sheet written by the csv writer is read back cell for cell, whatever commas, quotes and line breaks its cells contain, when its
  headers are distinct and stripped, its rows are as long as the header and it keeps the limits on rows, cells and bytes.
\<close>

theorem sheet_round_trip:
  assumes "sheet_ok hs rows" and "n \<le> MAX_BYTES"
  shows "parse_csv n (writerows (hs # rows)) = Inr (hs, map (\<lambda>cells. zip hs (map JStr cells)) rows)"
proof -
  have "list_all (\<lambda>fs. fs \<noteq> [] \<and> list_all (\<lambda>s. int (length s) \<le> FIELD_LIMIT) fs) (hs # rows)"
    using assms(1) by (auto simp: sheet_ok_def list_all_iff)
  then have read: "csv_reader (writerows (hs # rows)) = (hs # rows, False)" by (rule csv_round_trip)
  have full: "filter (\<lambda>cells. cells \<noteq> []) rows = rows" using assms(1) by (auto simp: sheet_ok_def list_all_iff filter_id_conv)
  have cells: "map (\<lambda>cells. clean_row (dict_row hs cells)) rows = map (\<lambda>cells. zip hs (map JStr cells)) rows"
    using assms(1) clean_row_zip[of hs] by (auto simp: sheet_ok_def list_all_iff)
  have "map py_strip hs = hs" using assms(1) by (auto simp: sheet_ok_def list_all_iff intro: map_idI)
  moreover have "hs \<noteq> []" "int (length rows) \<le> MAX_ROWS" using assms(1) by (simp_all add: sheet_ok_def)
  ultimately show ?thesis unfolding parse_csv_def read prod.case list.case Let_def full cells using assms(2) by simp
qed

theorem sheet_round_trip_witness:
  "parse_csv 900 build_template_csv
     = Inr (TEMPLATE_COLUMNS, map (\<lambda>cells. zip TEMPLATE_COLUMNS (map JStr cells)) (map (map neutralise_formula) TEMPLATE_ROWS))"
proof -
  have "sheet_ok TEMPLATE_COLUMNS (map (map neutralise_formula) TEMPLATE_ROWS)" "(900::int) \<le> MAX_BYTES" by code_simp+
  from sheet_round_trip[OF this] show ?thesis by (simp only: build_template_csv_def)
qed

end
