(* ===== verification/Encryption.thy ===== *)
theory Encryption
  imports Py_Json
begin

text \<open>
  \<^verbatim>\<open>infrastructure/auth/encryption.py\<close>: envelope encryption of stored secrets. A byte string is a list of
  characters read as the bytes 0 to 255. AES-GCM and HKDF come from a package and are the fields of a record of
  functions; the URL-safe base 64 of the standard library is written out, with CPython's lenient decoder.
  Random keys and nonces are arguments.
\<close>

section \<open>Bytes and text\<close>

text \<open>\<^verbatim>\<open>str.encode()\<close> of one code point below 2048, and of Latin-1 text.\<close>

definition utf8_point :: "nat \<Rightarrow> string" where
  "utf8_point n = (if n < 128 then [char_of n] else [char_of (192 + n div 64), char_of (128 + n mod 64)])"

definition encode_utf8 :: "string \<Rightarrow> string" where
  "encode_utf8 s = concat (map (\<lambda>c. utf8_point (code c)) s)"

text \<open>\<^verbatim>\<open>bytes.decode()\<close>; bytes that are not UTF-8, or that spell a character beyond Latin-1, give no text.\<close>

fun decode_utf8 :: "string \<Rightarrow> string option" where
  "decode_utf8 [] = Some []"
| "decode_utf8 (a # s) =
     (if code a < 128 then map_option (\<lambda>r. a # r) (decode_utf8 s)
      else if code a = 194 \<or> code a = 195 then
        (case s of
           b # t \<Rightarrow> if 128 \<le> code b \<and> code b < 192
                    then map_option (\<lambda>r. char_of ((code a - 192) * 64 + (code b - 128)) # r) (decode_utf8 t) else None
         | [] \<Rightarrow> None)
      else None)"

text \<open>\<^verbatim>\<open>value.split(sep, n)\<close>.\<close>

fun split_max :: "nat \<Rightarrow> char \<Rightarrow> string \<Rightarrow> string list" where
  "split_max 0 sep s = [s]"
| "split_max (Suc n) sep s = (if sep \<in> set s then before sep s # split_max n sep (after sep s) else [s])"

section \<open>Base 64\<close>

definition b64_char :: "nat \<Rightarrow> char" where
  "b64_char n = (if n < 26 then char_of (65 + n) else if n < 52 then char_of (71 + n) else if n < 62 then char_of (n - 4)
     else if n = 62 then CHR ''-'' else CHR ''_'')"

fun urlsafe_b64encode :: "string \<Rightarrow> string" where
  "urlsafe_b64encode [] = []"
| "urlsafe_b64encode [a] = [b64_char (code a div 4), b64_char (code a mod 4 * 16), CHR ''='', CHR ''='']"
| "urlsafe_b64encode [a, b] = [b64_char (code a div 4), b64_char (code a mod 4 * 16 + code b div 16), b64_char (code b mod 16 * 4), CHR ''='']"
| "urlsafe_b64encode (a # b # c # s) =
     [b64_char (code a div 4), b64_char (code a mod 4 * 16 + code b div 16),
      b64_char (code b mod 16 * 4 + code c div 64), b64_char (code c mod 64)] @ urlsafe_b64encode s"

text \<open>The decoder accepts both alphabets and skips every other byte.\<close>

definition b64_val :: "char \<Rightarrow> nat option" where
  "b64_val c = (let n = code c in
     if 65 \<le> n \<and> n \<le> 90 then Some (n - 65) else if 97 \<le> n \<and> n \<le> 122 then Some (n - 71)
     else if 48 \<le> n \<and> n \<le> 57 then Some (n + 4)
     else if c = CHR ''-'' \<or> c = CHR ''+'' then Some 62 else if c = CHR ''_'' \<or> c = CHR ''/'' then Some 63 else None)"

text \<open>State of \<^verbatim>\<open>a2b_base64\<close>: position in the quad, the bits kept from the last character, the pads seen.\<close>

fun a2b_base64 :: "nat \<Rightarrow> nat \<Rightarrow> nat \<Rightarrow> string \<Rightarrow> string option" where
  "a2b_base64 quad left pads [] = (if quad = 0 then Some [] else None)"
| "a2b_base64 quad left pads (c # s) =
     (if c = CHR ''='' then
        (if 2 \<le> quad then (if 4 \<le> quad + Suc pads then Some [] else a2b_base64 quad left (Suc pads) s)
         else a2b_base64 quad left pads s)
      else case b64_val c of
        None \<Rightarrow> a2b_base64 quad left pads s
      | Some v \<Rightarrow>
          (if quad = 0 then a2b_base64 1 v 0 s
           else if quad = 1 then map_option (\<lambda>r. char_of (left * 4 + v div 16) # r) (a2b_base64 2 (v mod 16) 0 s)
           else if quad = 2 then map_option (\<lambda>r. char_of (left * 16 + v div 4) # r) (a2b_base64 3 (v mod 4) 0 s)
           else map_option (\<lambda>r. char_of (left * 64 + v) # r) (a2b_base64 0 0 0 s)))"

definition urlsafe_b64decode :: "string \<Rightarrow> string option" where
  "urlsafe_b64decode s = a2b_base64 0 0 0 s"

section \<open>Envelopes\<close>

definition NONCE_BYTES :: nat where "NONCE_BYTES = 12"
definition KEY_BYTES :: nat where "KEY_BYTES = 32"
definition VERSION_PREFIX :: string where "VERSION_PREFIX = ''v1''"

text \<open>
  \<open>cr_seal key nonce data aad\<close> and \<open>cr_open\<close> are \<^verbatim>\<open>AESGCM(key).encrypt\<close> and \<^verbatim>\<open>decrypt\<close> (no value when the tag does
  not match or an argument is refused); \<open>cr_hkdf length salt info key\<close> is \<^verbatim>\<open>HKDF(SHA256(), ...).derive(key)\<close>.
\<close>

record crypto =
  cr_seal :: "string \<Rightarrow> string \<Rightarrow> string \<Rightarrow> string \<Rightarrow> string"
  cr_open :: "string \<Rightarrow> string \<Rightarrow> string \<Rightarrow> string \<Rightarrow> string option"
  cr_hkdf :: "nat \<Rightarrow> string \<Rightarrow> string \<Rightarrow> string \<Rightarrow> string"

datatype enc_error = Unrecognised_envelope | Key_version_not_a_number | Different_tenant | Not_authenticated | Master_key_too_short

record Envelope =
  ev_ciphertext :: string
  ev_key_version :: int
  ev_tenant_id :: string

definition serialize :: "Envelope \<Rightarrow> string" where
  "serialize e = VERSION_PREFIX @ '':'' @ show_int (ev_key_version e) @ '':'' @ ev_tenant_id e @ '':'' @ ev_ciphertext e"

definition parse :: "string \<Rightarrow> (enc_error, Envelope) res" where
  "parse value =
     (let parts = split_max 3 (CHR '':'') value
      in if length parts \<noteq> 4 \<or> parts ! 0 \<noteq> VERSION_PREFIX then Inl Unrecognised_envelope
         else case int_of_text (parts ! 1) of
           None \<Rightarrow> Inl Key_version_not_a_number
         | Some v \<Rightarrow> Inr \<lparr>ev_ciphertext = parts ! 3, ev_key_version = v, ev_tenant_id = parts ! 2\<rparr>)"

text \<open>\<^verbatim>\<open>EnvelopeEncryptor(master_key)\<close> with the master key given as text, as the settings hold it.\<close>

definition EnvelopeEncryptor :: "string \<Rightarrow> (enc_error, string) res" where
  "EnvelopeEncryptor master_key =
     (let raw = encode_utf8 master_key in if length raw < 32 then Inl Master_key_too_short else Inr raw)"

definition derive_kek :: "crypto \<Rightarrow> string \<Rightarrow> string \<Rightarrow> int \<Rightarrow> string" where
  "derive_kek cr master tenant_id key_version =
     cr_hkdf cr KEY_BYTES (encode_utf8 (''airevenueos:kek:'' @ show_int key_version)) (encode_utf8 tenant_id) master"

text \<open>\<open>len(wrapped).to_bytes(2, "big")\<close>; a wrapped key of 65536 bytes or more cannot occur.\<close>

definition two_bytes :: "nat \<Rightarrow> string" where
  "two_bytes n = [char_of (n div 256), char_of (n mod 256)]"

definition encrypt :: "crypto \<Rightarrow> string \<Rightarrow> string \<Rightarrow> string \<Rightarrow> string \<Rightarrow> int \<Rightarrow> string \<Rightarrow> string \<Rightarrow> string" where
  "encrypt cr dek nonce kek_nonce master key_version tenant_id data =
     (let rec = cr_seal cr dek nonce data (encode_utf8 tenant_id);
          wrapped = cr_seal cr (derive_kek cr master tenant_id key_version) kek_nonce dek (encode_utf8 tenant_id);
          blob = urlsafe_b64encode (two_bytes (length wrapped) @ kek_nonce @ wrapped @ nonce @ rec)
      in serialize \<lparr>ev_ciphertext = blob, ev_key_version = key_version, ev_tenant_id = tenant_id\<rparr>)"

definition decrypt_blob :: "crypto \<Rightarrow> string \<Rightarrow> string \<Rightarrow> int \<Rightarrow> string \<Rightarrow> string option" where
  "decrypt_blob cr master tenant_id key_version raw =
     (let wrapped_len = (case take 2 raw of [] \<Rightarrow> 0 | [a] \<Rightarrow> code a | a # b # _ \<Rightarrow> code a * 256 + code b);
          kek_nonce = take NONCE_BYTES (drop 2 raw);
          wrapped = take wrapped_len (drop (2 + NONCE_BYTES) raw);
          nonce = take NONCE_BYTES (drop (2 + NONCE_BYTES + wrapped_len) raw);
          rec = drop (2 + NONCE_BYTES + wrapped_len + NONCE_BYTES) raw
      in Option.bind (cr_open cr (derive_kek cr master tenant_id key_version) kek_nonce wrapped (encode_utf8 tenant_id))
           (\<lambda>dek. cr_open cr dek nonce rec (encode_utf8 tenant_id)))"

definition decrypt :: "crypto \<Rightarrow> string \<Rightarrow> string \<Rightarrow> string \<Rightarrow> (enc_error, string) res" where
  "decrypt cr master tenant_id value =
     rbind (parse value) (\<lambda>envelope.
       if ev_tenant_id envelope \<noteq> tenant_id then Inl Different_tenant
       else case Option.bind (urlsafe_b64decode (encode_utf8 (ev_ciphertext envelope)))
                   (decrypt_blob cr master tenant_id (ev_key_version envelope)) of
              None \<Rightarrow> Inl Not_authenticated
            | Some data \<Rightarrow> Inr data)"

definition rotate_key :: "crypto \<Rightarrow> string \<Rightarrow> string \<Rightarrow> string \<Rightarrow> string \<Rightarrow> int \<Rightarrow> string \<Rightarrow> string \<Rightarrow> (enc_error, string) res" where
  "rotate_key cr dek nonce kek_nonce master new_key_version tenant_id value =
     rbind (decrypt cr master tenant_id value) (\<lambda>plaintext. Inr (encrypt cr dek nonce kek_nonce master new_key_version tenant_id plaintext))"

definition mask_secret :: "nat \<Rightarrow> string \<Rightarrow> string" where
  "mask_secret visible value =
     (if value = [] then [] else if length value \<le> visible then replicate (length value) (CHR ''*'')
      else replicate (length value - visible) (CHR ''*'') @ (if visible = 0 then value else drop (length value - visible) value))"

section \<open>Round trips\<close>

lemma utf8_high:
  assumes "\<not> code c < 128"
  obtains m where "m < 64" "code c = 128 + m" "code c div 64 = 2" "code c mod 64 = m"
    | m where "m < 64" "code c = 192 + m" "code c div 64 = 3" "code c mod 64 = m"
proof (cases "code c < 192")
  case True
  then show ?thesis using assms that(1) [of "code c - 128"] by (simp add: div_nat_eqI mod_nat_eqI)
next
  case False
  have "code c - 192 < 64" using code_lt [of c] False by arith
  then show ?thesis using False that(2) [of "code c - 192"] by (simp add: div_nat_eqI mod_nat_eqI)
qed

lemma decode_encode_utf8: "decode_utf8 (encode_utf8 s) = Some s"
proof (induction s)
  case (Cons c s)
  show ?case
  proof (cases "code c < 128")
    case False
    then show ?thesis
    proof (cases rule: utf8_high)
      case (1 m)
      then have "char_of (128 + m) = c" using char_of_code [of c] by simp
      then show ?thesis using False Cons 1 by (simp add: encode_utf8_def utf8_point_def)
    next
      case (2 m)
      then have "char_of (192 + m) = c" using char_of_code [of c] by simp
      then show ?thesis using False Cons 2 by (simp add: encode_utf8_def utf8_point_def)
    qed
  qed (use Cons in \<open>simp add: encode_utf8_def utf8_point_def\<close>)
qed (simp add: encode_utf8_def)

lemma encode_ascii: "list_all (\<lambda>c. code c < 128) s \<Longrightarrow> encode_utf8 s = s"
  by (induction s) (auto simp: encode_utf8_def utf8_point_def)

lemma b64_char_ascii: "code (b64_char n) < 128" if "n < 64"
  using that by (auto simp: b64_char_def code_def)

lemma b64_val_char: "b64_val (b64_char n) = Some n \<and> b64_char n \<noteq> CHR ''=''" if "n < 64"
proof -
  have "code (b64_char n) = (if n < 26 then 65 + n else if n < 52 then 71 + n else if n < 62 then n - 4 else if n = 62 then 45 else 95)"
    using that by (auto simp: b64_char_def) (auto simp: code_def)
  moreover have "code (CHR ''='') = 61" "code (CHR ''-'') = 45" "code (CHR ''_'') = 95" by (simp_all add: code_def)
  moreover have "62 \<le> n \<Longrightarrow> n = 62 \<or> n = 63" using that by arith
  ultimately show ?thesis by (auto simp: b64_val_def Let_def b64_char_def)
qed

lemma quad_bounds: "a < 256 \<Longrightarrow> a div 4 < 64" "a mod 4 * 16 < 64" "b mod 16 * 4 < 64"
    "b < 256 \<Longrightarrow> a mod 4 * 16 + b div 16 < 64" "c < 256 \<Longrightarrow> b mod 16 * 4 + c div 64 < 64" for a b c :: nat
  by arith+

lemma quad_parts: "b < 256 \<Longrightarrow> b div 16 div 16 = 0" "b < 256 \<Longrightarrow> b div 16 mod 16 = b div 16"
    "b < 256 \<Longrightarrow> b div 64 div 4 = 0" "b < 256 \<Longrightarrow> b div 64 mod 4 = b div 64" for b :: nat
  by (simp_all add: less_mult_imp_div_less)

lemma b64_round_trip: "urlsafe_b64decode (urlsafe_b64encode s) = Some s"
  unfolding urlsafe_b64decode_def
  by (induction s rule: urlsafe_b64encode.induct) (simp_all add: b64_val_char quad_bounds quad_parts)

lemma b64_ascii: "list_all (\<lambda>c. code c < 128) (urlsafe_b64encode s)"
proof -
  have "code (CHR ''='') < 128" by (simp add: code_def)
  then show ?thesis by (induction s rule: urlsafe_b64encode.induct) (simp_all add: b64_char_ascii quad_bounds)
qed

lemma before_append: "c \<notin> set a \<Longrightarrow> before c (a @ c # b) = a" "c \<notin> set a \<Longrightarrow> after c (a @ c # b) = b"
  by (induction a) (auto simp: before_def after_def)

lemma split_max_step: "c \<notin> set a \<Longrightarrow> split_max (Suc n) c (a @ c # b) = a # split_max n c b"
  by (simp add: before_append)

lemma show_int_no_colon: "CHR '':'' \<notin> set (show_int i)"
proof -
  have "CHR '':'' \<notin> set (show_nat n)" for n using show_nat_dec [of n] by (auto simp: list_all_iff is_dec_def code_def)
  then show ?thesis by (auto simp: show_int_def)
qed

lemma split_absent: "c \<notin> set s \<Longrightarrow> py_split [c] s = [s]"
  by (induction s) auto

lemma int_of_text_show_nat: "int_of_text (show_nat n) = Some (int n)"
proof -
  have dec: "list_all is_dec (show_nat n)" by (rule show_nat_dec)
  have "is_dec c \<Longrightarrow> \<not> is_space c \<and> c \<noteq> CHR ''_'' \<and> c \<noteq> CHR ''-'' \<and> c \<noteq> CHR ''+''" for c
    by (auto simp: is_dec_def is_space_def code_def Let_def)
  with dec have all: "c \<in> set (show_nat n) \<Longrightarrow> \<not> is_space c \<and> c \<noteq> CHR ''_'' \<and> c \<noteq> CHR ''-'' \<and> c \<noteq> CHR ''+''" for c
    by (auto simp: list_all_iff)
  obtain c s where eq: "show_nat n = c # s" by (cases "show_nat n") auto
  have "py_strip (show_nat n) = show_nat n" unfolding py_strip_def
    using all by (intro strip_by_fixed) (auto simp: eq)
  moreover have "py_split ''_'' (show_nat n) = [show_nat n]" using all by (intro split_absent) auto
  ultimately show ?thesis using all [of c] parse_show_nat [of n] by (simp add: int_of_text_def int_digits_def eq)
qed

lemma parse_serialize:
  assumes "CHR '':'' \<notin> set (ev_tenant_id e)" and "0 \<le> ev_key_version e"
  shows "parse (serialize e) = Inr e"
proof -
  have "CHR '':'' \<notin> set VERSION_PREFIX" by (simp add: VERSION_PREFIX_def)
  then have "split_max 3 (CHR '':'') (serialize e) = [VERSION_PREFIX, show_int (ev_key_version e), ev_tenant_id e, ev_ciphertext e]"
    using assms(1) show_int_no_colon by (simp add: serialize_def split_max_step numeral_3_eq_3 del: split_max.simps(2))
  moreover have "int_of_text (show_int (ev_key_version e)) = Some (ev_key_version e)"
    using assms(2) int_of_text_show_nat [of "nat (ev_key_version e)"] by (simp add: show_int_def)
  ultimately show ?thesis by (simp add: parse_def)
qed

text \<open>The behaviour of AES-GCM that the platform relies on: opening undoes sealing, and the tag adds sixteen bytes.\<close>

definition aead_ok :: "crypto \<Rightarrow> bool" where
  "aead_ok cr \<longleftrightarrow> (\<forall>k n d a. cr_open cr k n (cr_seal cr k n d a) a = Some d \<and> length (cr_seal cr k n d a) = length d + 16)"

lemma decrypt_blob_sealed:
  assumes "aead_ok cr" and "length dek = KEY_BYTES" and "length nonce = NONCE_BYTES" and "length kek_nonce = NONCE_BYTES"
    and wrapped: "wrapped = cr_seal cr (derive_kek cr master tenant_id v) kek_nonce dek (encode_utf8 tenant_id)"
  shows "decrypt_blob cr master tenant_id v
      (two_bytes (length wrapped) @ kek_nonce @ wrapped @ nonce @ cr_seal cr dek nonce data (encode_utf8 tenant_id)) = Some data"
proof -
  have "length wrapped = 48" using assms(1,2) by (simp add: aead_ok_def wrapped KEY_BYTES_def)
  moreover have "code (char_of (0::nat)) = 0" "code (char_of (48::nat)) = 48" by (subst code_char_of; simp)+
  ultimately show ?thesis using assms(1,3,4) unfolding decrypt_blob_def
    by (simp add: two_bytes_def aead_ok_def wrapped)
qed

lemma decrypt_encrypt:
  assumes "aead_ok cr" and "length dek = KEY_BYTES" and "length nonce = NONCE_BYTES" and "length kek_nonce = NONCE_BYTES"
    and "CHR '':'' \<notin> set tenant_id" and "0 \<le> v"
  shows "decrypt cr master tenant_id (encrypt cr dek nonce kek_nonce master v tenant_id data) = Inr data"
  using assms parse_serialize decrypt_blob_sealed [OF assms(1-4) refl]
  by (simp add: decrypt_def encrypt_def Let_def encode_ascii [OF b64_ascii] b64_round_trip)

end
