(* ===== verification/Credentials.thy ===== *)
theory Credentials
  imports Encryption
begin

text \<open>
  \<^verbatim>\<open>infrastructure/auth/passwords.py\<close> (policy, history, lockout) and \<^verbatim>\<open>infrastructure/auth/mfa.py\<close> (base 32, one-time
  codes after RFC 6238, recovery codes). Argon2, bcrypt, HMAC-SHA-1 and SHA-256 are the fields of a record of
  functions. A one-time code is checked in the windows before, at and after the current one.
\<close>

record auth_lib =
  al_crypto :: crypto
  al_master_key :: "string option"
  argon2_hash :: "string \<Rightarrow> string \<Rightarrow> string"
  argon2_verify :: "string \<Rightarrow> string \<Rightarrow> bool"
  bcrypt_hash :: "string \<Rightarrow> string \<Rightarrow> string"
  bcrypt_check :: "string \<Rightarrow> string \<Rightarrow> bool option"
  hmac_sha1 :: "string \<Rightarrow> string \<Rightarrow> string"
  sha256_hex :: "string \<Rightarrow> string"

section \<open>Passwords\<close>

definition MIN_LENGTH :: nat where "MIN_LENGTH = 12"
definition HISTORY_SIZE :: nat where "HISTORY_SIZE = 5"
definition MAX_FAILED_ATTEMPTS :: int where "MAX_FAILED_ATTEMPTS = 5"
definition LOCKOUT_MINUTES :: int where "LOCKOUT_MINUTES = 15"
definition ADMIN_MAX_AGE_DAYS :: int where "ADMIN_MAX_AGE_DAYS = 90"

definition COMMON_PASSWORDS :: "string list" where
  "COMMON_PASSWORDS = [''password'', ''password123'', ''qwerty'', ''letmein'', ''welcome'', ''admin'', ''changeme'', ''iloveyou'',
     ''monkey'', ''dragon'', ''football'', ''abc123'', ''111111'', ''123456'', ''passw0rd'', ''welcome1'', ''india123'', ''airevenueos'']"

datatype password_problem = Too_short | Too_long | Too_common | Contains_email | Contains_name | Single_character | Little_variety

text \<open>\<^verbatim>\<open>s.split()\<close>: the maximal runs of characters that are not white space.\<close>

function split_white :: "string \<Rightarrow> string list" where
  "split_white s = (let t = dropWhile is_space s
     in if t = [] then [] else takeWhile (\<lambda>c. \<not> is_space c) t # split_white (dropWhile (\<lambda>c. \<not> is_space c) t))"
  by pat_completeness auto
termination
proof (relation "measure length", goal_cases)
  case (2 s t)
  then have "\<not> is_space (hd t)" using hd_dropWhile [of is_space s] by auto
  then obtain c u where "t = c # u" "\<not> is_space c" using 2(2) by (cases t) auto
  moreover have "length (dropWhile (\<lambda>c. \<not> is_space c) u) \<le> length u" by (rule length_dropWhile_le)
  moreover have "length t \<le> length s" using 2(1) length_dropWhile_le by simp
  ultimately show ?case by simp
qed simp

declare split_white.simps [simp del]

text \<open>\<^verbatim>\<open>re.fullmatch(r"(.)\1+", s)\<close>; the dot does not match a line feed.\<close>

definition single_character :: "string \<Rightarrow> bool" where
  "single_character s = (case s of c # d # r \<Rightarrow> code c \<noteq> 10 \<and> list_all (\<lambda>x. x = c) (d # r) | _ \<Rightarrow> False)"

definition name_in_password :: "string \<Rightarrow> string \<Rightarrow> bool" where
  "name_in_password full_name lowered = list_ex (\<lambda>part. length part > 3 \<and> py_contains part lowered) (split_white (py_lower full_name))"

definition validate_password :: "string option \<Rightarrow> string option \<Rightarrow> string \<Rightarrow> password_problem list" where
  "validate_password email full_name plain =
     (let lowered = py_lower plain; given = (\<lambda>v. case v of None \<Rightarrow> [] | Some t \<Rightarrow> t); local = before (CHR ''@'') (given email)
      in (if length plain < MIN_LENGTH then [Too_short] else [])
       @ (if int (length plain) > 256 then [Too_long] else [])
       @ (if lowered \<in> set COMMON_PASSWORDS then [Too_common] else [])
       @ (if given email \<noteq> [] \<and> py_contains (py_lower local) lowered \<and> length local > 3 then [Contains_email] else [])
       @ (if given full_name \<noteq> [] \<and> name_in_password (given full_name) lowered then [Contains_name] else [])
       @ (if single_character plain then [Single_character] else [])
       @ (if length (remdups plain) < 5 then [Little_variety] else []))"

definition verify_password :: "auth_lib \<Rightarrow> string \<Rightarrow> string \<Rightarrow> bool" where
  "verify_password lib plain hashed = argon2_verify lib hashed plain"

definition is_in_history :: "auth_lib \<Rightarrow> string \<Rightarrow> string list \<Rightarrow> bool" where
  "is_in_history lib plain history = list_ex (verify_password lib plain) (take HISTORY_SIZE history)"

definition push_history :: "string option \<Rightarrow> string list \<Rightarrow> string list" where
  "push_history current_hash history =
     take HISTORY_SIZE ((case current_hash of None \<Rightarrow> [] | Some h \<Rightarrow> if h = [] then [] else [h]) @ history)"

definition lockout_state :: "instant \<Rightarrow> int \<Rightarrow> instant option \<Rightarrow> bool \<times> int" where
  "lockout_state now failed_count locked_until =
     (case locked_until of
        Some t \<Rightarrow> if t > now then (True, (t - now) div 1000000) else (failed_count \<ge> MAX_FAILED_ATTEMPTS, 0)
      | None \<Rightarrow> (failed_count \<ge> MAX_FAILED_ATTEMPTS, 0))"

definition next_lockout :: "instant \<Rightarrow> int \<Rightarrow> instant option" where
  "next_lockout now failed_count = (if failed_count + 1 \<ge> MAX_FAILED_ATTEMPTS then Some (now + minutes LOCKOUT_MINUTES) else None)"

definition password_expired :: "instant \<Rightarrow> bool \<Rightarrow> instant option \<Rightarrow> bool" where
  "password_expired now is_admin_role password_changed_at =
     (if \<not> is_admin_role then False
      else case password_changed_at of None \<Rightarrow> True | Some t \<Rightarrow> now - t > days ADMIN_MAX_AGE_DAYS)"

section \<open>Base 32\<close>

definition B32 :: string where "B32 = ''ABCDEFGHIJKLMNOPQRSTUVWXYZ234567''"

text \<open>Bit strings are lists of Booleans, the most significant bit first.\<close>

fun to_bits :: "nat \<Rightarrow> nat \<Rightarrow> bool list" where
  "to_bits 0 n = []"
| "to_bits (Suc w) n = to_bits w (n div 2) @ [odd n]"

definition of_bits :: "bool list \<Rightarrow> nat" where
  "of_bits bs = foldl (\<lambda>a b. 2 * a + of_bool b) 0 bs"

function chunks :: "nat \<Rightarrow> 'a list \<Rightarrow> 'a list list" where
  "chunks k xs = (if k = 0 \<or> xs = [] then [] else take k xs # chunks k (drop k xs))"
  by pat_completeness auto
termination
  by (relation "measure (\<lambda>(k, xs). length xs)") auto

declare chunks.simps [simp del]

definition b32encode :: "string \<Rightarrow> string" where
  "b32encode raw =
     (let bits = concat (map (\<lambda>c. to_bits 8 (code c)) raw);
          padded = bits @ replicate (nat (- int (length bits) mod 5)) False
      in map (\<lambda>ch. B32 ! of_bits ch) (chunks 5 padded))"

text \<open>\<^verbatim>\<open>str.upper\<close> as code points: the micro sign and the y with diaeresis leave Latin-1, the sharp s becomes two letters.\<close>

definition upper_points :: "char \<Rightarrow> nat list" where
  "upper_points c = (let n = code c in
     if n = 223 then [83, 83] else if n = 181 then [924] else if n = 255 then [376]
     else if 97 \<le> n \<and> n \<le> 122 \<or> 224 \<le> n \<and> n \<noteq> 247 then [n - 32] else [n])"

definition b32_index :: "nat \<Rightarrow> nat option" where
  "b32_index n = (if 65 \<le> n \<and> n \<le> 90 then Some (n - 65) else if 50 \<le> n \<and> n \<le> 55 then Some (n - 24) else None)"

definition b32decode :: "string \<Rightarrow> string" where
  "b32decode secret =
     (let cleaned = rev (dropWhile (\<lambda>n. n = 61) (rev (concat (map upper_points (py_replace '' '' [] (py_strip secret))))));
          bits = concat (map (\<lambda>n. case b32_index n of None \<Rightarrow> [] | Some i \<Rightarrow> to_bits 5 i) cleaned);
          usable = length bits - length bits mod 8
      in map (\<lambda>ch. char_of (of_bits ch)) (chunks 8 (take usable bits)))"

section \<open>One-time codes\<close>

definition RECOVERY_CODE_COUNT :: nat where "RECOVERY_CODE_COUNT = 8"
definition TOTP_DIGITS :: nat where "TOTP_DIGITS = 6"
definition TOTP_PERIOD :: int where "TOTP_PERIOD = 30"
definition TOTP_DRIFT_WINDOWS :: int where "TOTP_DRIFT_WINDOWS = 1"

datatype totp_exc = Struct_error | Compare_type_error

text \<open>\<^verbatim>\<open>struct.pack(">Q", n)\<close>.\<close>

fun be_bytes :: "nat \<Rightarrow> nat \<Rightarrow> string" where
  "be_bytes 0 n = []"
| "be_bytes (Suc w) n = be_bytes w (n div 256) @ [char_of (n mod 256)]"

definition pack_Q :: "int \<Rightarrow> string option" where
  "pack_Q n = (if 0 \<le> n \<and> n < 18446744073709551616 then Some (be_bytes 8 (nat n)) else None)"

definition unpack_I :: "string \<Rightarrow> nat" where
  "unpack_I bs = foldl (\<lambda>a c. 256 * a + code c) 0 bs"

definition zfill :: "nat \<Rightarrow> string \<Rightarrow> string" where
  "zfill w s = replicate (w - length s) (CHR ''0'') @ s"

text \<open>The digest of HMAC-SHA-1 has twenty bytes, so its last byte exists and four bytes follow every offset.\<close>

definition totp_at :: "auth_lib \<Rightarrow> string \<Rightarrow> int \<Rightarrow> (totp_exc, string) res" where
  "totp_at lib secret counter =
     (case pack_Q counter of
        None \<Rightarrow> Inl Struct_error
      | Some msg \<Rightarrow>
          let digest = hmac_sha1 lib (b32decode secret) msg;
              offset = code (last digest) mod 16;
              bs = take 4 (drop offset digest)
          in if length bs \<noteq> 4 then Inl Struct_error
             else Inr (zfill TOTP_DIGITS (show_nat (unpack_I bs mod 2 ^ 31 mod 10 ^ TOTP_DIGITS))))"

definition totp_counter :: "instant \<Rightarrow> int" where
  "totp_counter now = now div seconds TOTP_PERIOD"

definition current_totp :: "auth_lib \<Rightarrow> instant \<Rightarrow> string \<Rightarrow> (totp_exc, string) res" where
  "current_totp lib now secret = totp_at lib secret (totp_counter now)"

text \<open>\<^verbatim>\<open>hmac.compare_digest\<close> of two texts refuses characters outside ASCII with a \<^verbatim>\<open>TypeError\<close>.\<close>

definition compare_digest :: "string \<Rightarrow> string \<Rightarrow> (totp_exc, bool) res" where
  "compare_digest a b = (if list_all (\<lambda>c. code c < 128) (a @ b) then Inr (a = b) else Inl Compare_type_error)"

fun any_window :: "auth_lib \<Rightarrow> string \<Rightarrow> string \<Rightarrow> int list \<Rightarrow> (totp_exc, bool) res" where
  "any_window lib secret candidate [] = Inr False"
| "any_window lib secret candidate (n # ns) =
     rbind (totp_at lib secret n) (\<lambda>expected. rbind (compare_digest expected candidate) (\<lambda>same.
       if same then Inr True else any_window lib secret candidate ns))"

definition verify_totp :: "auth_lib \<Rightarrow> instant \<Rightarrow> string \<Rightarrow> string \<Rightarrow> (totp_exc, bool) res" where
  "verify_totp lib now secret code_text =
     (let candidate = py_replace '' '' [] (py_strip code_text); counter = totp_counter now
      in if \<not> py_isdigit candidate \<or> length candidate \<noteq> TOTP_DIGITS then Inr False
         else any_window lib secret candidate
                (map (\<lambda>d. counter + d) [- TOTP_DRIFT_WINDOWS .. TOTP_DRIFT_WINDOWS]))"

text \<open>\<^verbatim>\<open>urllib.parse.quote\<close> and the address shown to the authenticator application.\<close>

definition quote_char :: "char \<Rightarrow> string" where
  "quote_char c = (if is_az c \<or> is_AZ c \<or> is_dec c \<or> c \<in> set ''_.-~/'' then [c]
     else concat (map (\<lambda>b. [CHR ''%'', ''0123456789ABCDEF'' ! (code b div 16), ''0123456789ABCDEF'' ! (code b mod 16)]) (utf8_point (code c))))"

definition py_quote :: "string \<Rightarrow> string" where
  "py_quote s = concat (map quote_char s)"

definition provisioning_uri :: "string \<Rightarrow> string \<Rightarrow> string" where
  "provisioning_uri secret account =
     (let issuer = ''AI RevenueOS''
      in ''otpauth://totp/'' @ py_quote (issuer @ '':'' @ account) @ ''?secret='' @ secret @ ''&issuer='' @ py_quote issuer
         @ ''&algorithm=SHA1&digits='' @ show_nat TOTP_DIGITS @ ''&period='' @ show_int TOTP_PERIOD)"

section \<open>Recovery codes\<close>

record RecoveryCodes =
  rc_plaintext :: "string list"
  rc_hashes :: "string list"

text \<open>Two fresh hexadecimal texts and a salt for each code; hexadecimal text is ASCII.\<close>

definition recovery_code :: "string \<Rightarrow> string \<Rightarrow> string" where
  "recovery_code h1 h2 = map char_of (concat (map upper_points (take 5 h1 @ ''-'' @ take 5 (drop 5 h2))))"

definition generate_recovery_codes :: "auth_lib \<Rightarrow> (string \<times> string \<times> string) list \<Rightarrow> RecoveryCodes" where
  "generate_recovery_codes lib fresh =
     (let plaintext = map (\<lambda>(h1, h2, salt). recovery_code h1 h2) fresh
      in \<lparr>rc_plaintext = plaintext,
          rc_hashes = map2 (\<lambda>plain (h1, h2, salt). bcrypt_hash lib salt (encode_utf8 plain)) plaintext fresh\<rparr>)"

definition recovery_candidate :: "string \<Rightarrow> string" where
  "recovery_candidate code_text = concat (map utf8_point (concat (map upper_points (py_strip code_text))))"

fun first_match :: "auth_lib \<Rightarrow> string \<Rightarrow> nat \<Rightarrow> string list \<Rightarrow> nat option" where
  "first_match lib candidate i [] = None"
| "first_match lib candidate i (h # hs) =
     (if bcrypt_check lib candidate (encode_utf8 h) = Some True then Some i else first_match lib candidate (Suc i) hs)"

definition verify_recovery_code :: "auth_lib \<Rightarrow> string \<Rightarrow> string list \<Rightarrow> nat option" where
  "verify_recovery_code lib code_text hashes = first_match lib (recovery_candidate code_text) 0 hashes"

section \<open>Base 32 is decoded to what was encoded\<close>

lemma of_bits_snoc: "of_bits (bs @ [b]) = 2 * of_bits bs + of_bool b"
  by (simp add: of_bits_def)

lemma of_bits_lt: "of_bits bs < 2 ^ length bs"
  by (induction bs rule: rev_induct) (auto simp: of_bits_snoc, simp add: of_bits_def)

lemma of_bits_to_bits: "n < 2 ^ w \<Longrightarrow> of_bits (to_bits w n) = n"
proof (induction w arbitrary: n)
  case (Suc w)
  then have "of_bits (to_bits w (n div 2)) = n div 2" by (simp add: less_mult_imp_div_less)
  then show ?case by (simp add: of_bits_snoc)
qed (simp add: of_bits_def)

lemma to_bits_of_bits: "to_bits (length bs) (of_bits bs) = bs"
  by (induction bs rule: rev_induct) (auto simp: of_bits_snoc)

lemma length_to_bits [simp]: "length (to_bits w n) = w"
  by (induction w arbitrary: n) auto

lemma chunks_append: "length a = k \<Longrightarrow> 0 < k \<Longrightarrow> chunks k (a @ xs) = a # chunks k xs"
  by (subst chunks.simps) auto

lemma chunks_concat: "(\<And>a. a \<in> set as \<Longrightarrow> length a = k) \<Longrightarrow> 0 < k \<Longrightarrow> chunks k (concat as) = as"
  by (induction as) (auto simp: chunks_append chunks.simps [of k "[]"])

lemma concat_chunks: "0 < k \<Longrightarrow> concat (chunks k xs) = xs"
  by (induction k xs rule: chunks.induct) (subst chunks.simps, auto)

lemma chunks_even: "k dvd length xs \<Longrightarrow> a \<in> set (chunks k xs) \<Longrightarrow> length a = k"
proof (induction k xs rule: chunks.induct)
  case (1 k xs)
  show ?case
  proof (cases "k = 0 \<or> xs = []")
    case False
    then have "k \<le> length xs" using 1(2) by (auto dest: dvd_imp_le)
    moreover from this have "k dvd length (drop k xs)" using 1(2) by (simp add: dvd_minus_self)
    moreover have "a = take k xs \<or> a \<in> set (chunks k (drop k xs))" using 1(3) False by (simp add: chunks.simps [of k xs])
    ultimately show ?thesis using 1(1) False by auto
  qed (use 1 in \<open>simp add: chunks.simps\<close>)
qed

lemma B32_table: "list_all (\<lambda>i. upper_points (B32 ! i) = [code (B32 ! i)] \<and> b32_index (code (B32 ! i)) = Some i
    \<and> \<not> is_space (B32 ! i) \<and> B32 ! i \<noteq> CHR '' '' \<and> code (B32 ! i) \<noteq> 61) [0..<32]"
  by code_simp

lemma B32_char: "i < 32 \<Longrightarrow> upper_points (B32 ! i) = [code (B32 ! i)] \<and> b32_index (code (B32 ! i)) = Some i
    \<and> \<not> is_space (B32 ! i) \<and> B32 ! i \<noteq> CHR '' '' \<and> code (B32 ! i) \<noteq> 61"
  using B32_table by (simp add: list_all_iff)

lemma replace_absent: "c \<notin> set s \<Longrightarrow> py_replace [c] new s = s"
  by (induction s) auto

lemma b32_bits:
  assumes "\<And>i. i \<in> set is \<Longrightarrow> i < 32"
  shows "concat (map upper_points (py_replace '' '' [] (py_strip (map (\<lambda>i. B32 ! i) is)))) = map (\<lambda>i. code (B32 ! i)) is"
proof -
  have ok: "c \<in> set (map (\<lambda>i. B32 ! i) is) \<Longrightarrow> \<not> is_space c \<and> c \<noteq> CHR '' ''" for c using assms B32_char by auto
  have "py_strip (map (\<lambda>i. B32 ! i) is) = map (\<lambda>i. B32 ! i) is" unfolding py_strip_def
    by (rule strip_by_fixed) (metis ok hd_in_set last_in_set)
  moreover have "py_replace '' '' [] (map (\<lambda>i. B32 ! i) is) = map (\<lambda>i. B32 ! i) is" using ok by (intro replace_absent) blast
  moreover have "concat (map upper_points (map (\<lambda>i. B32 ! i) is)) = map (\<lambda>i. code (B32 ! i)) is"
    using assms by (induction "is") (auto simp: B32_char)
  ultimately show ?thesis by simp
qed

lemma rstrip_absent: "(\<And>x. x \<in> set xs \<Longrightarrow> \<not> p x) \<Longrightarrow> rev (dropWhile p (rev xs)) = xs"
  by (cases xs rule: rev_cases) auto

lemma b32_padding: "(l + nat (- int l mod 5)) mod 8 = nat (- int l mod 5)" if "8 dvd l"
proof -
  have "nat (- int l mod 5) < 8" using pos_mod_bound [of 5 "- int l"] by linarith
  then show ?thesis using that by (simp add: mod_add_eq [of l 8, symmetric])
qed

theorem b32_round_trip: "b32decode (b32encode raw) = raw"
proof -
  define bits where "bits = concat (map (\<lambda>c. to_bits 8 (code c)) raw)"
  define pad where "pad = nat (- int (length bits) mod 5)"
  define padded where "padded = bits @ replicate pad False"
  define cs where "cs = chunks 5 padded"
  define ix where "ix = map of_bits cs"
  have len: "length bits = 8 * length raw" unfolding bits_def by (induction raw) auto
  have "int (length padded) mod 5 = (int (length bits) + - int (length bits) mod 5) mod 5" by (simp add: padded_def pad_def)
  also have "\<dots> = 0" by (simp add: mod_add_right_eq)
  finally have "5 dvd length padded" by (simp add: zmod_int [of _ 5, symmetric] flip: dvd_eq_mod_eq_0) presburger
  then have five: "ch \<in> set cs \<Longrightarrow> length ch = 5" for ch unfolding cs_def by (rule chunks_even)
  then have small: "i \<in> set ix \<Longrightarrow> i < 32" for i
  proof -
    assume "i \<in> set ix"
    then obtain ch where "ch \<in> set cs" "i = of_bits ch" by (auto simp: ix_def)
    then show "i < 32" using five [of ch] of_bits_lt [of ch] by simp
  qed
  have enc: "b32encode raw = map (\<lambda>i. B32 ! i) ix"
    by (simp add: b32encode_def bits_def pad_def padded_def cs_def ix_def Let_def comp_def)
  have "rev (dropWhile (\<lambda>n. n = 61) (rev (map (\<lambda>i. code (B32 ! i)) ix))) = map (\<lambda>i. code (B32 ! i)) ix"
    using small B32_char by (intro rstrip_absent) auto
  moreover have "concat (map (\<lambda>n. case b32_index n of None \<Rightarrow> [] | Some i \<Rightarrow> to_bits 5 i) (map (\<lambda>i. code (B32 ! i)) ix)) = concat cs"
    using five small unfolding ix_def by (induction cs) (auto simp: B32_char, metis to_bits_of_bits)
  moreover have "concat cs = padded" by (simp add: cs_def concat_chunks)
  moreover have "take (length padded - length padded mod 8) padded = bits"
    using b32_padding [of "length bits"] len by (simp add: padded_def pad_def)
  moreover have "chunks 8 bits = map (\<lambda>c. to_bits 8 (code c)) raw" unfolding bits_def by (rule chunks_concat) auto
  ultimately have "b32decode (b32encode raw) = map (\<lambda>ch. char_of (of_bits ch)) (map (\<lambda>c. to_bits 8 (code c)) raw)"
    using b32_bits [OF small] by (simp only: b32decode_def enc Let_def)
  also have "\<dots> = raw" by (induction raw) (simp_all add: of_bits_to_bits)
  finally show ?thesis .
qed

end
