(* ===== verification/Accounts.thy ===== *)
theory Accounts
  imports Credentials Auth_Sessions Permissions Shared_Text Py_Uuid
begin

text \<open>
  Signing in: \<^verbatim>\<open>application/auth/service.py\<close> (password sign-in, multi-factor challenges, session issue),
  \<^verbatim>\<open>application/auth/mfa.py\<close> (enrolment, verification, recovery codes, disablement), \<^verbatim>\<open>application/auth/oauth.py\<close>
  (Google sign-in), \<^verbatim>\<open>application/auth/api_keys.py\<close>, and the routes of \<^verbatim>\<open>api/v1/auth.py\<close> that compose them.
  The state holds the tables, the challenges and OAuth states parked in the cache, and the session state of
  \<open>Auth_Sessions\<close>. One transaction is one change of state; what an operation read in an earlier transaction is
  passed on explicitly. Random values are arguments.
\<close>

section \<open>State\<close>

record User =
  us_id :: string
  us_tenant :: string
  us_email :: string
  us_full_name :: string
  us_password_hash :: "string option"
  us_password_changed :: "instant option"
  us_history :: "string list"
  us_status :: string
  us_is_owner :: bool
  us_email_verified :: "instant option"
  us_mfa_enabled :: bool
  us_mfa_secret :: "string option"
  us_recovery :: "string list"
  us_failed :: int
  us_locked_until :: "instant option"
  us_last_login :: "instant option"
  us_deleted :: "instant option"

record Tenant =
  tn_id :: string
  tn_name :: string
  tn_slug :: string
  tn_plan :: string
  tn_status :: string
  tn_trial_ends :: "instant option"

record RoleRow =
  rl_id :: string
  rl_tenant :: string
  rl_name :: string

record UserRole =
  ur_tenant :: string
  ur_user :: string
  ur_role :: string

record TeamMember =
  tm_tenant :: string
  tm_team :: string
  tm_user :: string

record Team =
  te_tenant :: string
  te_id :: string
  te_branch :: "string option"
  te_deleted :: "instant option"

record GoogleIdentity =
  gi_tenant :: string
  gi_user :: string
  gi_sub :: string
  gi_email :: string

record ApiKey =
  ak_id :: string
  ak_tenant :: string
  ak_name :: string
  ak_prefix :: string
  ak_hash :: string
  ak_scopes :: "string list"
  ak_created_by :: string
  ak_revoked :: "instant option"

record EmailVerification =
  ve_tenant :: string
  ve_user :: string
  ve_email :: string
  ve_hash :: string
  ve_expires :: instant
  ve_used :: "instant option"

record PasswordReset =
  pr_tenant :: string
  pr_user :: string
  pr_hash :: string
  pr_expires :: instant
  pr_used :: "instant option"

record Invitation =
  iv_id :: string
  iv_tenant :: string
  iv_email :: string
  iv_role :: "string option"
  iv_hash :: string
  iv_invited_by :: "string option"
  iv_created :: instant
  iv_expires :: instant
  iv_accepted :: "instant option"
  iv_revoked :: "instant option"

record account_log =
  lg_action :: string
  lg_resource :: "string \<times> string"
  lg_tenant :: string
  lg_actor :: "string option"
  lg_actor_type :: string
  lg_outcome :: string
  lg_old :: jdict
  lg_new :: jdict
  lg_metadata :: jdict

record accounts =
  ac_users :: "User list"
  ac_tenants :: "Tenant list"
  ac_roles :: "RoleRow list"
  ac_role_permissions :: "(string \<times> string \<times> string) list"
  ac_user_roles :: "UserRole list"
  ac_members :: "TeamMember list"
  ac_teams :: "Team list"
  ac_google :: "GoogleIdentity list"
  ac_keys :: "ApiKey list"
  ac_verifications :: "EmailVerification list"
  ac_resets :: "PasswordReset list"
  ac_invitations :: "Invitation list"
  ac_challenges :: "(string \<times> (string \<times> string) \<times> instant) list"
  ac_states :: "(string \<times> string \<times> instant) list"
  ac_auth :: auth_db
  ac_log :: "account_log list"

datatype account_error =
    Invalid_email_address | Multiple_results | No_result | Integrity_error | Cache_unreachable | Rate_limited
  | Bad_credentials | Account_locked | Mfa_required string | Challenge_expired | Cannot_sign_in | Bad_code
  | Totp_failure totp_exc | Already_enabled | Not_enabled | Mfa_unavailable | Master_key_refused | Enrolment_expired
  | Wrong_password | Code_required
  | Google_cancelled | Google_code_missing | Google_failed | Google_unverified | Google_not_configured
  | State_missing | State_used | Unknown_account | Different_google_account
  | Name_required | Excessive_scopes "string list" | Key_not_found
  | Weak_password "password_problem list" | Recently_used | Account_exists | No_slug | Invalid_link
  | Not_a_role | Role_above_own "Role \<times> Role list" | Already_member | Pending_exists string | Invitation_not_found | Already_accepted

section \<open>Queries\<close>

text \<open>\<^verbatim>\<open>scalar_one_or_none()\<close> and \<^verbatim>\<open>scalar_one()\<close>.\<close>

fun one_or_none :: "'r list \<Rightarrow> (account_error, 'r option) res" where
  "one_or_none [] = Inr None"
| "one_or_none [r] = Inr (Some r)"
| "one_or_none _ = Inl Multiple_results"

definition the_one :: "'r list \<Rightarrow> (account_error, 'r) res" where
  "the_one rows = rbind (one_or_none rows) (\<lambda>r. case r of None \<Rightarrow> Inl No_result | Some x \<Rightarrow> Inr x)"

definition live_email :: "string \<Rightarrow> User \<Rightarrow> bool" where
  "live_email email u \<longleftrightarrow> us_email u = email \<and> us_deleted u = None"

definition user_in :: "string \<Rightarrow> string \<Rightarrow> User \<Rightarrow> bool" where
  "user_in tenant user u \<longleftrightarrow> us_tenant u = tenant \<and> us_id u = user"

definition put_user :: "User \<Rightarrow> accounts \<Rightarrow> accounts" where
  "put_user u db = db\<lparr>ac_users := set_row us_id u (ac_users db)\<rparr>"

definition record_log :: "account_log \<Rightarrow> accounts \<Rightarrow> accounts" where
  "record_log e db = db\<lparr>ac_log := ac_log db @ [e]\<rparr>"

text \<open>An entry with the defaults of \<^verbatim>\<open>AuditRecorder.record\<close>.\<close>

definition log_of :: "string \<Rightarrow> string \<times> string \<Rightarrow> string \<Rightarrow> string option \<Rightarrow> jdict \<Rightarrow> account_log" where
  "log_of action resource tenant actor new = \<lparr>lg_action = action, lg_resource = resource, lg_tenant = tenant, lg_actor = actor,
     lg_actor_type = ''user'', lg_outcome = ''success'', lg_old = [], lg_new = new, lg_metadata = []\<rparr>"

definition anonymous :: "account_log \<Rightarrow> account_log" where
  "anonymous e = e\<lparr>lg_actor_type := ''anonymous''\<rparr>"

section \<open>Roles and scope\<close>

definition role_value :: "Role \<Rightarrow> string" where
  "role_value r = (case r of OWNER \<Rightarrow> ''owner'' | ADMIN \<Rightarrow> ''admin'' | MANAGER \<Rightarrow> ''manager'' | MEMBER \<Rightarrow> ''member''
     | VIEWER \<Rightarrow> ''viewer'' | SUPPORT \<Rightarrow> ''support'')"

text \<open>\<^verbatim>\<open>_load_roles\<close> on the names it reads; under a platform session it reads none, since row-level security hides the tables.\<close>

definition load_roles :: "string list \<Rightarrow> bool \<Rightarrow> Role list" where
  "load_roles names is_owner =
     (let roles = List.map_filter Role_of names in if roles = [] then (if is_owner then [OWNER] else [MEMBER]) else roles)"

definition role_names :: "string \<Rightarrow> string \<Rightarrow> accounts \<Rightarrow> string list" where
  "role_names tenant user db =
     concat (map (\<lambda>ur. map rl_name (filter (\<lambda>r. rl_tenant r = tenant \<and> rl_id r = ur_role ur) (ac_roles db)))
       (filter (\<lambda>ur. ur_tenant ur = tenant \<and> ur_user ur = user) (ac_user_roles db)))"

definition load_roles_and_scope :: "string \<Rightarrow> string \<Rightarrow> bool \<Rightarrow> accounts \<Rightarrow> Role list \<times> string list \<times> string list" where
  "load_roles_and_scope tenant user is_owner db =
     (let rows = concat (map (\<lambda>m. map (\<lambda>t. (te_id t, te_branch t))
                   (filter (\<lambda>t. te_tenant t = tenant \<and> te_id t = tm_team m \<and> te_deleted t = None) (ac_teams db)))
                 (filter (\<lambda>m. tm_tenant m = tenant \<and> tm_user m = user) (ac_members db)))
      in (load_roles (role_names tenant user db) is_owner,
          sorted_set (List.map_filter (\<lambda>(_, b). case b of Some x \<Rightarrow> if x = [] then None else Some x | None \<Rightarrow> None) rows),
          sorted_set (map fst rows)))"

record AccessClaims =
  cl_sub :: string
  cl_tenant :: string
  cl_slug :: string
  cl_email :: string
  cl_name :: string
  cl_roles :: "string list"
  cl_scope :: Scope
  cl_branches :: "string list"
  cl_teams :: "string list"
  cl_session :: string
  cl_mfa_verified :: bool
  cl_authenticated_at :: int

definition claims_for_values :: "instant \<Rightarrow> string \<Rightarrow> Tenant \<Rightarrow> string \<Rightarrow> string \<Rightarrow> Role list \<Rightarrow> string \<Rightarrow> bool \<Rightarrow> string list \<Rightarrow> string list \<Rightarrow> AccessClaims" where
  "claims_for_values now user tenant email name roles session_id mfa_verified branch_ids team_ids =
     \<lparr>cl_sub = user, cl_tenant = tn_id tenant, cl_slug = tn_slug tenant, cl_email = email, cl_name = name,
      cl_roles = map role_value roles,
      cl_scope = (case widest_scope (map role_value roles) of Inr s \<Rightarrow> s | Inl _ \<Rightarrow> SELF),
      cl_branches = branch_ids, cl_teams = team_ids, cl_session = session_id, cl_mfa_verified = mfa_verified,
      cl_authenticated_at = now div 1000000\<rparr>"

record AuthResult =
  ar_claims :: AccessClaims
  ar_refresh_token :: string

text \<open>Fresh random values of a sign-in.\<close>

record fresh =
  fr_jti :: string
  fr_secret :: string
  fr_family :: string
  fr_access :: string
  fr_token :: string

definition issue_auth_session :: "auth_lib \<Rightarrow> instant \<Rightarrow> fresh \<Rightarrow> string \<Rightarrow> Tenant \<Rightarrow> Role list \<Rightarrow> string \<Rightarrow> string \<Rightarrow> bool
    \<Rightarrow> accounts \<Rightarrow> AuthResult \<times> accounts" where
  "issue_auth_session lib now fr user tenant roles email name mfa_verified db =
     (let (resolved, branch_ids, team_ids) = load_roles_and_scope (tn_id tenant) user (OWNER \<in> set roles) db;
          (plaintext, auth) = issue_session (sha256_hex lib) now (tn_id tenant) user mfa_verified
             (fr_jti fr) (fr_secret fr) (fr_family fr) (fr_access fr) (ac_auth db)
      in (\<lparr>ar_claims = claims_for_values now user tenant email name resolved (fr_family fr) mfa_verified branch_ids team_ids,
           ar_refresh_token = plaintext\<rparr>, db\<lparr>ac_auth := auth\<rparr>))"

section \<open>Challenges in the cache\<close>

definition MFA_CHALLENGE_TTL_SECONDS :: int where "MFA_CHALLENGE_TTL_SECONDS = 300"

text \<open>\<^verbatim>\<open>SET key value EX ttl\<close>; the value is the pair that the stored JSON spells.\<close>

definition create_mfa_challenge :: "instant \<Rightarrow> string \<Rightarrow> string \<Rightarrow> string \<Rightarrow> accounts \<Rightarrow> (account_error, string) res \<times> accounts" where
  "create_mfa_challenge now token tenant user db =
     (if \<not> au_cache_up (ac_auth db) then (Inl Cache_unreachable, db)
      else (Inr token, db\<lparr>ac_challenges := aput token ((tenant, user), now + seconds MFA_CHALLENGE_TTL_SECONDS) (ac_challenges db)\<rparr>))"

definition consume_mfa_challenge :: "instant \<Rightarrow> string \<Rightarrow> accounts \<Rightarrow> (account_error, string \<times> string) res \<times> accounts" where
  "consume_mfa_challenge now token db =
     (if token = [] then (Inl Challenge_expired, db)
      else if \<not> au_cache_up (ac_auth db) then (Inl Cache_unreachable, db)
      else (case map_of (ac_challenges db) token of
          Some (who, expires) \<Rightarrow> (if now < expires then Inr who else Inl Challenge_expired)
        | None \<Rightarrow> Inl Challenge_expired,
        db\<lparr>ac_challenges := adel token (ac_challenges db)\<rparr>))"

definition load_principal :: "string \<Rightarrow> string \<Rightarrow> accounts \<Rightarrow> (account_error, Tenant \<times> Role list \<times> string \<times> string) res" where
  "load_principal tenant_id user_id db =
     rbind (one_or_none (filter (\<lambda>u. us_id u = user_id) (ac_users db))) (\<lambda>found.
       case found of
         None \<Rightarrow> Inl Cannot_sign_in
       | Some u \<Rightarrow>
           if us_status u \<noteq> ''active'' \<or> us_tenant u \<noteq> tenant_id then Inl Cannot_sign_in
           else rbind (the_one (filter (\<lambda>t. tn_id t = tenant_id) (ac_tenants db))) (\<lambda>tenant.
                  Inr (tenant, fst (load_roles_and_scope tenant_id user_id (us_is_owner u) db), us_email u, us_full_name u)))"

section \<open>Password sign-in\<close>

record login_snapshot =
  ls_user :: User
  ls_tenant :: "Tenant option"
  ls_locked :: bool
  ls_roles :: "Role list"

definition has_password :: "User \<Rightarrow> bool" where
  "has_password u \<longleftrightarrow> us_password_hash u \<noteq> None \<and> us_password_hash u \<noteq> Some []"

text \<open>Phase one: read only, across tenants.\<close>

definition login_resolve :: "instant \<Rightarrow> string \<Rightarrow> accounts \<Rightarrow> (account_error, login_snapshot) res" where
  "login_resolve now email db =
     (case normalize_email email of
        Inl _ \<Rightarrow> Inl Invalid_email_address
      | Inr normalized \<Rightarrow>
          rbind (one_or_none (filter (live_email normalized) (ac_users db))) (\<lambda>found.
            case found of
              None \<Rightarrow> Inl Bad_credentials
            | Some u \<Rightarrow>
                if \<not> has_password u then Inl Bad_credentials
                else rbind (one_or_none (filter (\<lambda>t. tn_id t = us_tenant u) (ac_tenants db))) (\<lambda>tenant.
                  Inr \<lparr>ls_user = u, ls_tenant = tenant,
                       ls_locked = fst (lockout_state now (us_failed u) (us_locked_until u)),
                       ls_roles = load_roles [] (us_is_owner u)\<rparr>)))"

definition login_failed_log :: "User \<Rightarrow> string \<Rightarrow> account_log" where
  "login_failed_log u reason = (anonymous (log_of ''auth.login_failed'' (''user'', us_id u) (us_tenant u) None []))
     \<lparr>lg_outcome := ''failure'', lg_metadata := [(''reason'', JStr reason)]\<rparr>"

definition password_matches :: "auth_lib \<Rightarrow> string \<Rightarrow> User \<Rightarrow> bool" where
  "password_matches lib password u = (case us_password_hash u of None \<Rightarrow> False | Some h \<Rightarrow> verify_password lib password h)"

definition account_ok :: "login_snapshot \<Rightarrow> bool" where
  "account_ok s \<longleftrightarrow> us_status (ls_user s) = ''active''
     \<and> (case ls_tenant s of None \<Rightarrow> False | Some t \<Rightarrow> tn_status t = ''trial'' \<or> tn_status t = ''active'')"

text \<open>Phase two: writes, bound to the tenant that phase one found.\<close>

definition login_act :: "auth_lib \<Rightarrow> instant \<Rightarrow> fresh \<Rightarrow> string \<Rightarrow> login_snapshot \<Rightarrow> accounts \<Rightarrow> (account_error, AuthResult) res \<times> accounts" where
  "login_act lib now fr password s db =
     (let u = ls_user s; mine = filter (user_in (us_tenant u) (us_id u)) (ac_users db)
      in if ls_locked s then (Inl Account_locked, record_log (login_failed_log u ''account_locked'') db)
         else if \<not> password_matches lib password u then
           (case the_one mine of
              Inl e \<Rightarrow> (Inl e, db)
            | Inr row \<Rightarrow> (Inl Bad_credentials, record_log (login_failed_log u ''invalid_credentials'')
                (put_user (row\<lparr>us_failed := us_failed u + 1, us_locked_until := next_lockout now (us_failed u)\<rparr>) db)))
         else if \<not> account_ok s then (Inl Bad_credentials, record_log (login_failed_log u ''account_inactive'') db)
         else (case the_one mine of
              Inl e \<Rightarrow> (Inl e, db)
            | Inr row \<Rightarrow>
                let db1 = put_user (row\<lparr>us_failed := 0, us_locked_until := None, us_last_login := Some now\<rparr>) db
                in if us_mfa_enabled row then
                     (case create_mfa_challenge now (fr_token fr) (us_tenant u) (us_id u) db1 of
                        (Inl e, db2) \<Rightarrow> (Inl e, db2)
                      | (Inr challenge, db2) \<Rightarrow> (Inl (Mfa_required challenge), db2))
                   else (case ls_tenant s of
                       None \<Rightarrow> (Inl No_result, db1)
                     | Some tenant \<Rightarrow>
                         let (result, db2) = issue_auth_session lib now fr (us_id u) tenant (ls_roles s) (us_email u) (us_full_name u) False db1
                         in (Inr result, db2))))"

definition login :: "auth_lib \<Rightarrow> instant \<Rightarrow> fresh \<Rightarrow> string \<Rightarrow> string \<Rightarrow> accounts \<Rightarrow> (account_error, AuthResult) res \<times> accounts" where
  "login lib now fr email password db =
     (case login_resolve now email db of
        Inl e \<Rightarrow> (Inl e, db)
      | Inr s \<Rightarrow> login_act lib now fr password s db)"

section \<open>Multi-factor authentication\<close>

text \<open>\<^verbatim>\<open>_encryptor()\<close>: a missing master key is refused, a short one is a \<^verbatim>\<open>ValueError\<close>.\<close>

definition encryptor :: "auth_lib \<Rightarrow> (account_error, string) res" where
  "encryptor lib = (case al_master_key lib of
      None \<Rightarrow> Inl Mfa_unavailable
    | Some k \<Rightarrow> if k = [] then Inl Mfa_unavailable
               else (case EnvelopeEncryptor k of Inl _ \<Rightarrow> Inl Master_key_refused | Inr master \<Rightarrow> Inr master))"

text \<open>\<^verbatim>\<open>_encryptor().decrypt(...).decode()\<close> inside \<^verbatim>\<open>try ... except Exception\<close>: no value on any failure.\<close>

definition stored_secret :: "auth_lib \<Rightarrow> string \<Rightarrow> string \<Rightarrow> string option" where
  "stored_secret lib tenant cipher =
     (case rbind (encryptor lib) (\<lambda>master. case decrypt (al_crypto lib) master tenant cipher of Inl _ \<Rightarrow> Inl Enrolment_expired | Inr d \<Rightarrow> Inr d) of
        Inl _ \<Rightarrow> None
      | Inr data \<Rightarrow> decode_utf8 data)"

definition totp_result :: "(totp_exc, bool) res \<Rightarrow> (account_error, bool) res" where
  "totp_result r = (case r of Inl e \<Rightarrow> Inl (Totp_failure e) | Inr b \<Rightarrow> Inr b)"

record EnrolmentChallenge =
  en_secret :: string
  en_uri :: string
  en_pending :: string

record enrol_fresh =
  ef_raw :: string
  ef_dek :: string
  ef_nonce :: string
  ef_kek_nonce :: string

definition start_enrolment :: "auth_lib \<Rightarrow> enrol_fresh \<Rightarrow> string \<Rightarrow> string \<Rightarrow> string \<Rightarrow> accounts \<Rightarrow> (account_error, EnrolmentChallenge) res" where
  "start_enrolment lib ef tenant user email db =
     rbind (the_one (filter (user_in tenant user) (ac_users db))) (\<lambda>u.
       if us_mfa_enabled u then Inl Already_enabled
       else let secret = b32encode (ef_raw ef)
            in rbind (encryptor lib) (\<lambda>master.
              Inr \<lparr>en_secret = secret, en_uri = provisioning_uri secret email,
                   en_pending = encrypt (al_crypto lib) (ef_dek ef) (ef_nonce ef) (ef_kek_nonce ef) master 1 tenant (encode_utf8 secret)\<rparr>))"

definition complete_enrolment :: "auth_lib \<Rightarrow> instant \<Rightarrow> (string \<times> string \<times> string) list \<Rightarrow> string \<Rightarrow> string \<Rightarrow> string \<Rightarrow> string
    \<Rightarrow> accounts \<Rightarrow> (account_error, string list) res \<times> accounts" where
  "complete_enrolment lib now rf tenant user pending code_text db =
     (case stored_secret lib tenant pending of
        None \<Rightarrow> (Inl Enrolment_expired, db)
      | Some secret \<Rightarrow>
          (case totp_result (verify_totp lib now secret code_text) of
             Inl e \<Rightarrow> (Inl e, db)
           | Inr False \<Rightarrow> (Inl Bad_code, db)
           | Inr True \<Rightarrow>
               let codes = generate_recovery_codes lib rf
               in (case the_one (filter (user_in tenant user) (ac_users db)) of
                     Inl e \<Rightarrow> (Inl e, db)
                   | Inr u \<Rightarrow>
                       if us_mfa_enabled u then (Inl Already_enabled, db)
                       else (Inr (rc_plaintext codes),
                         record_log (log_of ''auth.mfa_enabled'' (''user'', user) tenant (Some user)
                             [(''mfa_enabled'', JBool True), (''recovery_code_count'', JInt (int (length (rc_hashes codes))))])
                           (put_user (u\<lparr>us_mfa_enabled := True, us_mfa_secret := Some pending, us_recovery := rc_hashes codes\<rparr>) db)))))"

definition check_code :: "auth_lib \<Rightarrow> instant \<Rightarrow> string \<Rightarrow> string \<Rightarrow> string \<Rightarrow> accounts \<Rightarrow> (account_error, bool) res" where
  "check_code lib now tenant user code_text db =
     rbind (the_one (filter (user_in tenant user) (ac_users db))) (\<lambda>u.
       if \<not> us_mfa_enabled u then Inr False
       else case us_mfa_secret u of
              None \<Rightarrow> Inr False
            | Some cipher \<Rightarrow>
                if cipher = [] then Inr False
                else (case stored_secret lib tenant cipher of
                        None \<Rightarrow> Inr False
                      | Some secret \<Rightarrow> totp_result (verify_totp lib now secret code_text)))"

definition consume_recovery_code :: "auth_lib \<Rightarrow> string \<Rightarrow> string \<Rightarrow> string \<Rightarrow> accounts \<Rightarrow> (account_error, bool) res \<times> accounts" where
  "consume_recovery_code lib tenant user code_text db =
     (case the_one (filter (user_in tenant user) (ac_users db)) of
        Inl e \<Rightarrow> (Inl e, db)
      | Inr u \<Rightarrow>
          if \<not> us_mfa_enabled u \<or> us_recovery u = [] then (Inr False, db)
          else (case verify_recovery_code lib code_text (us_recovery u) of
                  None \<Rightarrow> (Inr False, db)
                | Some index \<Rightarrow>
                    let remaining = take index (us_recovery u) @ drop (Suc index) (us_recovery u)
                    in (Inr True,
                        record_log (log_of ''auth.mfa_recovery_used'' (''user'', user) tenant (Some user)
                            [(''recovery_codes_remaining'', JInt (int (length remaining)))])
                          (put_user (u\<lparr>us_recovery := remaining\<rparr>) db))))"

definition regenerate_recovery_codes :: "auth_lib \<Rightarrow> instant \<Rightarrow> (string \<times> string \<times> string) list \<Rightarrow> string \<Rightarrow> string \<Rightarrow> string
    \<Rightarrow> accounts \<Rightarrow> (account_error, string list) res \<times> accounts" where
  "regenerate_recovery_codes lib now rf tenant user code_text db =
     (case check_code lib now tenant user code_text db of
        Inl e \<Rightarrow> (Inl e, db)
      | Inr False \<Rightarrow> (Inl Bad_code, db)
      | Inr True \<Rightarrow>
          let codes = generate_recovery_codes lib rf
          in (case the_one (filter (user_in tenant user) (ac_users db)) of
                Inl e \<Rightarrow> (Inl e, db)
              | Inr u \<Rightarrow> (Inr (rc_plaintext codes),
                  record_log (log_of ''auth.mfa_recovery_regenerated'' (''user'', user) tenant (Some user)
                      [(''recovery_code_count'', JInt (int (length (rc_hashes codes))))])
                    (put_user (u\<lparr>us_recovery := rc_hashes codes\<rparr>) db))))"

definition open_tokens :: "string \<Rightarrow> string \<Rightarrow> refresh_row \<Rightarrow> bool" where
  "open_tokens tenant user r \<longleftrightarrow> rf_tenant r = tenant \<and> rf_user r = user \<and> rf_revoked r = None"

text \<open>The loop over the user's open refresh tokens, shared by disablement and password reset.\<close>

definition revoke_user_tokens :: "instant \<Rightarrow> string \<Rightarrow> string \<Rightarrow> string \<Rightarrow> accounts \<Rightarrow> accounts" where
  "revoke_user_tokens now reason tenant user db =
     db\<lparr>ac_auth := (ac_auth db)\<lparr>au_tokens := revoke_rows now reason (open_tokens tenant user) (au_tokens (ac_auth db))\<rparr>\<rparr>"

definition open_token_count :: "string \<Rightarrow> string \<Rightarrow> accounts \<Rightarrow> json" where
  "open_token_count tenant user db = JInt (int (length (filter (open_tokens tenant user) (au_tokens (ac_auth db)))))"

text \<open>A second factor: a one-time code or, failing that, a recovery code, which is spent.\<close>

definition second_factor :: "auth_lib \<Rightarrow> instant \<Rightarrow> string \<Rightarrow> string \<Rightarrow> string \<Rightarrow> accounts \<Rightarrow> (account_error, bool) res \<times> accounts" where
  "second_factor lib now tenant user code_text db =
     (case check_code lib now tenant user code_text db of
        Inl e \<Rightarrow> (Inl e, db)
      | Inr True \<Rightarrow> (Inr True, db)
      | Inr False \<Rightarrow> consume_recovery_code lib tenant user code_text db)"

definition disable_mfa :: "auth_lib \<Rightarrow> instant \<Rightarrow> string \<Rightarrow> string \<Rightarrow> string \<Rightarrow> string \<Rightarrow> accounts \<Rightarrow> (account_error, unit) res \<times> accounts" where
  "disable_mfa lib now tenant user password code_text db =
     (case the_one (filter (user_in tenant user) (ac_users db)) of
        Inl e \<Rightarrow> (Inl e, db)
      | Inr u \<Rightarrow>
          if \<not> us_mfa_enabled u then (Inl Not_enabled, db)
          else if \<not> has_password u \<or> \<not> password_matches lib password u then (Inl Wrong_password, db)
          else (case (if code_text = [] then (Inr False, db) else second_factor lib now tenant user code_text db) of
                  (Inl e, db1) \<Rightarrow> (Inl e, db1)
                | (Inr False, db1) \<Rightarrow> (Inl Code_required, db1)
                | (Inr True, db1) \<Rightarrow>
                    (case the_one (filter (user_in tenant user) (ac_users db1)) of
                       Inl e \<Rightarrow> (Inl e, db1)
                     | Inr v \<Rightarrow> (Inr (),
                         record_log (log_of ''auth.mfa_disabled'' (''user'', user) tenant (Some user)
                             [(''mfa_enabled'', JBool False), (''sessions_revoked'', open_token_count tenant user db1)])
                           (revoke_user_tokens now ''mfa_disabled'' tenant user
                             (put_user (v\<lparr>us_mfa_enabled := False, us_mfa_secret := None, us_recovery := []\<rparr>) db1))))))"

section \<open>Routes that open a session\<close>

definition open_for :: "auth_lib \<Rightarrow> instant \<Rightarrow> fresh \<Rightarrow> bool \<Rightarrow> string \<Rightarrow> string \<Rightarrow> accounts \<Rightarrow> (account_error, AuthResult) res \<times> accounts" where
  "open_for lib now fr mfa_verified tenant user db =
     (case load_principal tenant user db of
        Inl e \<Rightarrow> (Inl e, db)
      | Inr (t, roles, email, name) \<Rightarrow>
          let (result, db') = issue_auth_session lib now fr user t roles email name mfa_verified db in (Inr result, db'))"

text \<open>\<^verbatim>\<open>POST /mfa/verify\<close> with a challenge; \<open>allowed\<close> is the answer of the rate limiter for a user.\<close>

definition mfa_verify_challenge :: "auth_lib \<Rightarrow> instant \<Rightarrow> fresh \<Rightarrow> (string \<Rightarrow> bool) \<Rightarrow> string \<Rightarrow> string \<Rightarrow> accounts
    \<Rightarrow> (account_error, AuthResult) res \<times> accounts" where
  "mfa_verify_challenge lib now fr allowed mfa_token code_text db =
     (case consume_mfa_challenge now mfa_token db of
        (Inl e, db1) \<Rightarrow> (Inl e, db1)
      | (Inr (tenant, user), db1) \<Rightarrow>
          if \<not> allowed user then (Inl Rate_limited, db1)
          else (case second_factor lib now tenant user code_text db1 of
                  (Inl e, db2) \<Rightarrow> (Inl e, db2)
                | (Inr False, db2) \<Rightarrow> (Inl Bad_code, db2)
                | (Inr True, db2) \<Rightarrow> open_for lib now fr True tenant user db2))"

text \<open>\<^verbatim>\<open>POST /mfa/verify\<close> without one: the principal \<open>(tenant, user)\<close> comes from a live access token.\<close>

definition mfa_step_up :: "auth_lib \<Rightarrow> instant \<Rightarrow> fresh \<Rightarrow> (string \<Rightarrow> bool) \<Rightarrow> string \<Rightarrow> string \<Rightarrow> string \<Rightarrow> accounts
    \<Rightarrow> (account_error, AuthResult) res \<times> accounts" where
  "mfa_step_up lib now fr allowed tenant user code_text db =
     (if \<not> allowed user then (Inl Rate_limited, db)
      else case check_code lib now tenant user code_text db of
             Inl e \<Rightarrow> (Inl e, db)
           | Inr False \<Rightarrow> (Inl Bad_code, db)
           | Inr True \<Rightarrow> open_for lib now fr True tenant user db)"

section \<open>Google sign-in\<close>

definition STATE_TTL_SECONDS :: int where "STATE_TTL_SECONDS = 600"

text \<open>\<open>begin\<close> parks the redirect target under the state; \<^verbatim>\<open>google_authorize\<close> keeps relative paths only.\<close>

definition redirect_target :: "string \<Rightarrow> string" where
  "redirect_target redirect_to = (if py_startswith redirect_to ''/'' \<and> \<not> py_startswith redirect_to ''//'' then redirect_to else ''/'')"

definition oauth_begin :: "bool \<Rightarrow> instant \<Rightarrow> string \<Rightarrow> string \<Rightarrow> accounts \<Rightarrow> (account_error, string) res \<times> accounts" where
  "oauth_begin configured now state redirect_to db =
     (if \<not> configured then (Inl Google_not_configured, db)
      else if \<not> au_cache_up (ac_auth db) then (Inl Cache_unreachable, db)
      else (Inr state, db\<lparr>ac_states := aput state (redirect_to, now + seconds STATE_TTL_SECONDS) (ac_states db)\<rparr>))"

definition consume_state :: "instant \<Rightarrow> string \<Rightarrow> accounts \<Rightarrow> (account_error, string) res \<times> accounts" where
  "consume_state now state db =
     (if state = [] then (Inl State_missing, db)
      else if \<not> au_cache_up (ac_auth db) then (Inl Cache_unreachable, db)
      else (case map_of (ac_states db) state of
          Some (redirect_to, expires) \<Rightarrow> (if now < expires then Inr redirect_to else Inl State_used)
        | None \<Rightarrow> Inl State_used,
        db\<lparr>ac_states := adel state (ac_states db)\<rparr>))"

text \<open>The profile that Google returns for an authorization code.\<close>

record google_profile =
  gp_email :: string
  gp_email_verified :: bool
  gp_sub :: string

definition exchange_code :: "bool \<Rightarrow> (string \<Rightarrow> google_profile option) \<Rightarrow> string \<Rightarrow> (account_error, google_profile) res" where
  "exchange_code configured google code_text =
     (if \<not> configured then Inl Google_not_configured
      else case google code_text of
             None \<Rightarrow> Inl Google_failed
           | Some p \<Rightarrow> if gp_email_verified p then Inr p else Inl Google_unverified)"

definition resolve_google_user :: "google_profile \<Rightarrow> accounts \<Rightarrow> (account_error, string \<times> Tenant) res \<times> accounts" where
  "resolve_google_user p db =
     (case normalize_email (gp_email p) of
        Inl _ \<Rightarrow> (Inl Invalid_email_address, db)
      | Inr email \<Rightarrow>
          (case one_or_none (filter (live_email email) (ac_users db)) of
             Inl e \<Rightarrow> (Inl e, db)
           | Inr None \<Rightarrow> (Inl Unknown_account, db)
           | Inr (Some u) \<Rightarrow>
               if us_status u \<noteq> ''active'' then (Inl Unknown_account, db)
               else (case the_one (filter (\<lambda>t. tn_id t = us_tenant u) (ac_tenants db)) of
                 Inl e \<Rightarrow> (Inl e, db)
               | Inr tenant \<Rightarrow>
                   (case one_or_none (filter (\<lambda>g. gi_tenant g = us_tenant u \<and> gi_user g = us_id u) (ac_google db)) of
                      Inl e \<Rightarrow> (Inl e, db)
                    | Inr None \<Rightarrow>
                        if gp_sub p \<in> gi_sub ` set (ac_google db) then (Inl Integrity_error, db)
                        else (Inr (us_id u, tenant), db\<lparr>ac_google := ac_google db
                          @ [\<lparr>gi_tenant = us_tenant u, gi_user = us_id u, gi_sub = gp_sub p, gi_email = email\<rparr>]\<rparr>)
                    | Inr (Some g) \<Rightarrow> if gi_sub g \<noteq> gp_sub p then (Inl Different_google_account, db) else (Inr (us_id u, tenant), db)))))"

text \<open>\<open>error\<close> and \<open>code\<close> are the query parameters of the callback.\<close>

definition google_callback :: "auth_lib \<Rightarrow> bool \<Rightarrow> (string \<Rightarrow> google_profile option) \<Rightarrow> instant \<Rightarrow> fresh \<Rightarrow> bool \<Rightarrow> bool \<Rightarrow> string \<Rightarrow> string
    \<Rightarrow> accounts \<Rightarrow> (account_error, AuthResult \<times> string) res \<times> accounts" where
  "google_callback lib configured google now fr allowed cancelled code_text state db =
     (if \<not> allowed then (Inl Rate_limited, db)
      else if cancelled then (Inl Google_cancelled, db)
      else if code_text = [] then (Inl Google_code_missing, db)
      else case consume_state now state db of
             (Inl e, db1) \<Rightarrow> (Inl e, db1)
           | (Inr redirect_to, db1) \<Rightarrow>
               (case exchange_code configured google code_text of
                  Inl e \<Rightarrow> (Inl e, db1)
                | Inr p \<Rightarrow>
                    (case resolve_google_user p db1 of
                       (Inl e, db2) \<Rightarrow> (Inl e, db2)
                     | (Inr (user, tenant), db2) \<Rightarrow>
                         (case load_principal (tn_id tenant) user db2 of
                            Inl e \<Rightarrow> (Inl e, db2)
                          | Inr (_, roles, email, name) \<Rightarrow>
                              let (result, db3) = issue_auth_session lib now fr user tenant roles email name False db2
                              in (Inr (result, redirect_to), db3)))))"

section \<open>Keys for programs\<close>

definition KEY_PREFIX :: string where "KEY_PREFIX = ''ak_live_''"
definition PREFIX_VISIBLE :: nat where "PREFIX_VISIBLE = 12"

definition create_api_key :: "auth_lib \<Rightarrow> string \<Rightarrow> string \<Rightarrow> string \<Rightarrow> string \<Rightarrow> string \<Rightarrow> string list \<Rightarrow> string list \<Rightarrow> accounts
    \<Rightarrow> (account_error, string) res \<times> accounts" where
  "create_api_key lib key_id secret tenant user name scopes granted db =
     (let clean_name = py_strip name;
          requested = filter (\<lambda>s. s \<noteq> []) (map py_strip scopes);
          excessive = sorted_set (filter (\<lambda>s. s \<notin> set granted) requested);
          plaintext = KEY_PREFIX @ secret;
          row = \<lparr>ak_id = key_id, ak_tenant = tenant, ak_name = take 120 clean_name, ak_prefix = take PREFIX_VISIBLE plaintext,
                 ak_hash = sha256_hex lib plaintext, ak_scopes = requested, ak_created_by = user, ak_revoked = None\<rparr>
      in if clean_name = [] then (Inl Name_required, db)
         else if excessive \<noteq> [] then (Inl (Excessive_scopes excessive), db)
         else if ak_hash row \<in> ak_hash ` set (ac_keys db) then (Inl Integrity_error, db)
         else (Inr plaintext,
               record_log ((log_of ''secret.accessed'' (''api_key'', key_id) tenant (Some user)
                   [(''name'', JStr (ak_name row)), (''scopes'', JList (map JStr requested))])
                   \<lparr>lg_metadata := [(''purpose'', JStr ''api_key_created_and_revealed_once'')]\<rparr>)
                 (db\<lparr>ac_keys := ac_keys db @ [row]\<rparr>)))"

definition revoke_api_key :: "instant \<Rightarrow> string \<Rightarrow> string \<Rightarrow> string \<Rightarrow> accounts \<Rightarrow> (account_error, unit) res \<times> accounts" where
  "revoke_api_key now tenant user key_id db =
     (case uuid_of key_id of
        None \<Rightarrow> (Inl Key_not_found, db)
      | Some identifier \<Rightarrow>
          (case one_or_none (filter (\<lambda>k. ak_tenant k = tenant \<and> ak_id k = identifier \<and> ak_revoked k = None) (ac_keys db)) of
             Inl e \<Rightarrow> (Inl e, db)
           | Inr None \<Rightarrow> (Inl Key_not_found, db)
           | Inr (Some k) \<Rightarrow> (Inr (),
               record_log ((log_of ''api_key.revoked'' (''api_key'', identifier) tenant (Some user) [(''revoked'', JBool True)])
                   \<lparr>lg_old := [(''revoked'', JBool False)]\<rparr>)
                 (db\<lparr>ac_keys := set_row ak_id (k\<lparr>ak_revoked := Some now\<rparr>) (ac_keys db)\<rparr>))))"

end
