(* ===== verification/Registration.thy ===== *)
theory Registration
  imports Accounts
begin

text \<open>
  Becoming a member: \<^verbatim>\<open>application/auth/registration.py\<close> (sign-up, confirmation of the address, password recovery) and
  \<^verbatim>\<open>application/auth/invitations.py\<close> (invite, list, revoke, preview, accept). A link is \<^verbatim>\<open>tenant.secret\<close>; only its hash is
  stored. The unique constraints of the tables are checked where a row is inserted.
\<close>

section \<open>Links\<close>

definition new_token :: "auth_lib \<Rightarrow> string \<Rightarrow> string \<Rightarrow> string \<times> string" where
  "new_token lib tenant secret = (let plaintext = tenant @ ''.'' @ secret in (plaintext, sha256_hex lib plaintext))"

definition split_token :: "auth_lib \<Rightarrow> string \<Rightarrow> (account_error, string \<times> string) res" where
  "split_token lib plaintext =
     (if before (CHR ''.'') plaintext = [] \<or> after (CHR ''.'') plaintext = [] then Inl Invalid_link
      else case uuid_of (before (CHR ''.'') plaintext) of
             None \<Rightarrow> Inl Invalid_link
           | Some tenant \<Rightarrow> Inr (tenant, sha256_hex lib plaintext))"

section \<open>Sign-up\<close>

definition VERIFICATION_TTL :: duration where "VERIFICATION_TTL = hours 24"
definition RESET_TTL :: duration where "RESET_TTL = hours 1"
definition SLUG_ALPHABET :: string where "SLUG_ALPHABET = ''abcdefghijklmnopqrstuvwxyz0123456789-''"

fun join_dash :: "string list \<Rightarrow> string" where
  "join_dash [] = []"
| "join_dash [p] = p"
| "join_dash (p # ps) = p @ ''-'' @ join_dash ps"

definition slugify_organisation :: "string \<Rightarrow> string" where
  "slugify_organisation name =
     (let lowered = map (\<lambda>c. if c \<in> set SLUG_ALPHABET then c else CHR ''-'') (py_lower (py_strip name));
          collapsed = join_dash (filter (\<lambda>p. p \<noteq> []) (py_split ''-'' lowered))
      in take 40 (if collapsed = [] then ''org'' else collapsed))"

text \<open>The loop of \<^verbatim>\<open>_unique_slug\<close>: \<open>fuel\<close> iterations are left, \<open>hex\<close> is the next random suffix.\<close>

fun unique_slug :: "nat \<Rightarrow> bool \<Rightarrow> (nat \<Rightarrow> string) \<Rightarrow> string \<Rightarrow> string \<Rightarrow> string list \<Rightarrow> (account_error, string) res" where
  "unique_slug 0 first hex desired slug taken = Inl No_slug"
| "unique_slug (Suc fuel) first hex desired slug taken =
     (if slug \<notin> set taken then Inr slug
      else unique_slug fuel False hex desired (take 34 desired @ ''-'' @ (if first then ''1'' else hex fuel)) taken)"

record signup_fresh =
  sf_tenant :: string
  sf_user :: string
  sf_role :: string
  sf_salt :: string
  sf_secret :: string
  sf_hex :: "nat \<Rightarrow> string"

record SignupResult =
  sr_tenant :: string
  sr_user :: string
  sr_slug :: string
  sr_email :: string
  sr_token :: string

definition new_user :: "instant \<Rightarrow> string \<Rightarrow> string \<Rightarrow> string \<Rightarrow> string \<Rightarrow> string \<Rightarrow> User" where
  "new_user now user tenant email full_name password_hash =
     \<lparr>us_id = user, us_tenant = tenant, us_email = email, us_full_name = full_name, us_password_hash = Some password_hash,
      us_password_changed = Some now, us_history = [], us_status = ''invited'', us_is_owner = False, us_email_verified = None,
      us_mfa_enabled = False, us_mfa_secret = None, us_recovery = [], us_failed = 0, us_locked_until = None,
      us_last_login = None, us_deleted = None\<rparr>"

text \<open>\<^verbatim>\<open>role_permissions\<close> rows of a built-in role.\<close>

definition permission_rows :: "string \<Rightarrow> string \<Rightarrow> Role \<Rightarrow> (string \<times> string \<times> string) list" where
  "permission_rows tenant role_id role = map (\<lambda>code. (tenant, role_id, code)) (sorted_set (ROLE_PERMISSIONS role))"

text \<open>The second transaction: the owner role, the owner and the confirmation link.\<close>

definition signup_owner :: "auth_lib \<Rightarrow> instant \<Rightarrow> signup_fresh \<Rightarrow> string \<Rightarrow> string \<Rightarrow> string \<Rightarrow> accounts \<Rightarrow> accounts" where
  "signup_owner lib now sf normalized password full_name db =
     (let tenant = sf_tenant sf; user = sf_user sf
      in record_log (anonymous (log_of ''user.created'' (''user'', user) tenant None [(''status'', JStr ''invited''), (''role'', JStr (role_value OWNER))]))
        (db\<lparr>ac_roles := ac_roles db @ [\<lparr>rl_id = sf_role sf, rl_tenant = tenant, rl_name = role_value OWNER\<rparr>],
            ac_role_permissions := ac_role_permissions db @ permission_rows tenant (sf_role sf) OWNER,
            ac_users := ac_users db @ [(new_user now user tenant normalized (take 200 (py_strip full_name))
                (argon2_hash lib (sf_salt sf) password))\<lparr>us_is_owner := True\<rparr>],
            ac_user_roles := ac_user_roles db @ [\<lparr>ur_tenant = tenant, ur_user = user, ur_role = sf_role sf\<rparr>],
            ac_verifications := ac_verifications db @ [\<lparr>ve_tenant = tenant, ve_user = user, ve_email = normalized,
                ve_hash = snd (new_token lib tenant (sf_secret sf)), ve_expires = now + VERIFICATION_TTL, ve_used = None\<rparr>]\<rparr>))"

definition signup :: "auth_lib \<Rightarrow> instant \<Rightarrow> signup_fresh \<Rightarrow> string \<Rightarrow> string \<Rightarrow> string \<Rightarrow> string \<Rightarrow> accounts
    \<Rightarrow> (account_error, SignupResult) res \<times> accounts" where
  "signup lib now sf email password full_name organisation db =
     (case normalize_email email of
        Inl _ \<Rightarrow> (Inl Invalid_email_address, db)
      | Inr normalized \<Rightarrow>
          let problems = validate_password (Some normalized) (Some full_name) password
          in if problems \<noteq> [] then (Inl (Weak_password problems), db)
             else (case one_or_none (filter (live_email normalized) (ac_users db)) of
                Inl e \<Rightarrow> (Inl e, db)
              | Inr (Some _) \<Rightarrow> (Inl Account_exists, db)
              | Inr None \<Rightarrow>
                  (case unique_slug 50 True (sf_hex sf) (slugify_organisation organisation) (slugify_organisation organisation)
                          (map tn_slug (ac_tenants db)) of
                     Inl e \<Rightarrow> (Inl e, db)
                   | Inr slug \<Rightarrow>
                       let db1 = db\<lparr>ac_tenants := ac_tenants db @ [\<lparr>tn_id = sf_tenant sf, tn_name = take 200 (py_strip organisation),
                             tn_slug = slug, tn_plan = ''starter'', tn_status = ''trial'', tn_trial_ends = Some (now + days 14)\<rparr>]\<rparr>
                       in if sf_tenant sf \<in> tn_id ` set (ac_tenants db) then (Inl Integrity_error, db)
                          else if sf_role sf \<in> rl_id ` set (ac_roles db) \<or> sf_user sf \<in> us_id ` set (ac_users db)
                             \<or> snd (new_token lib (sf_tenant sf) (sf_secret sf)) \<in> ve_hash ` set (ac_verifications db)
                          then (Inl Integrity_error, db1)
                          else (Inr \<lparr>sr_tenant = sf_tenant sf, sr_user = sf_user sf, sr_slug = slug, sr_email = normalized,
                                  sr_token = fst (new_token lib (sf_tenant sf) (sf_secret sf))\<rparr>,
                                signup_owner lib now sf normalized password full_name db1))))"

definition verify_email :: "auth_lib \<Rightarrow> instant \<Rightarrow> string \<Rightarrow> accounts \<Rightarrow> (account_error, string \<times> string) res \<times> accounts" where
  "verify_email lib now token db =
     (case rbind (split_token lib token) (\<lambda>(tenant, token_hash).
             rbind (one_or_none (filter (\<lambda>v. ve_tenant v = tenant \<and> ve_hash v = token_hash) (ac_verifications db))) (\<lambda>found.
               case found of
                 None \<Rightarrow> Inl Invalid_link
               | Some rec \<Rightarrow>
                   if ve_used rec \<noteq> None \<or> ve_expires rec \<le> now then Inl Invalid_link
                   else rbind (one_or_none (filter (user_in tenant (ve_user rec)) (ac_users db))) (\<lambda>u.
                     case u of None \<Rightarrow> Inl Invalid_link | Some user \<Rightarrow> Inr (tenant, rec, user)))) of
        Inl e \<Rightarrow> (Inl e, db)
      | Inr (tenant, rec, user) \<Rightarrow>
          let status = (if us_status user = ''invited'' then ''active'' else us_status user)
          in (Inr (us_email user, status),
              record_log (anonymous (log_of ''auth.email_verified'' (''user'', us_id user) tenant None
                  [(''status'', JStr status), (''email_verified'', JBool True)]))
                (put_user (user\<lparr>us_email_verified := Some now, us_status := status\<rparr>)
                  (db\<lparr>ac_verifications := set_row ve_hash (rec\<lparr>ve_used := Some now\<rparr>) (ac_verifications db)\<rparr>))))"

section \<open>Password recovery\<close>

text \<open>No value means that nothing was issued.\<close>

definition forgot_password :: "auth_lib \<Rightarrow> instant \<Rightarrow> string \<Rightarrow> string \<Rightarrow> accounts \<Rightarrow> (account_error, string option) res \<times> accounts" where
  "forgot_password lib now secret email db =
     (case normalize_email email of
        Inl _ \<Rightarrow> (Inr None, db)
      | Inr normalized \<Rightarrow>
          (case one_or_none (filter (live_email normalized) (ac_users db)) of
             Inl e \<Rightarrow> (Inl e, db)
           | Inr None \<Rightarrow> (Inr None, db)
           | Inr (Some u) \<Rightarrow>
               if us_status u \<noteq> ''active'' \<and> us_status u \<noteq> ''invited'' then (Inr None, db)
               else let (plaintext, token_hash) = new_token lib (us_tenant u) secret
                    in if token_hash \<in> pr_hash ` set (ac_resets db) then (Inl Integrity_error, db)
                       else (Inr (Some plaintext),
                         record_log (anonymous (log_of ''auth.password_reset_requested'' (''user'', us_id u) (us_tenant u) None []))
                           (db\<lparr>ac_resets := ac_resets db @ [\<lparr>pr_tenant = us_tenant u, pr_user = us_id u, pr_hash = token_hash,
                              pr_expires = now + RESET_TTL, pr_used = None\<rparr>]\<rparr>))))"

definition reset_checks :: "auth_lib \<Rightarrow> instant \<Rightarrow> string \<Rightarrow> string \<Rightarrow> accounts \<Rightarrow> (account_error, string \<times> PasswordReset \<times> User) res" where
  "reset_checks lib now token new_password db =
     rbind (split_token lib token) (\<lambda>(tenant, token_hash).
       rbind (one_or_none (filter (\<lambda>r. pr_tenant r = tenant \<and> pr_hash r = token_hash) (ac_resets db))) (\<lambda>found.
         case found of
           None \<Rightarrow> Inl Invalid_link
         | Some rec \<Rightarrow>
             if pr_used rec \<noteq> None \<or> pr_expires rec \<le> now then Inl Invalid_link
             else rbind (one_or_none (filter (user_in tenant (pr_user rec)) (ac_users db))) (\<lambda>u.
               case u of
                 None \<Rightarrow> Inl Invalid_link
               | Some user \<Rightarrow>
                   let problems = validate_password (Some (us_email user)) (Some (us_full_name user)) new_password
                   in if problems \<noteq> [] then Inl (Weak_password problems)
                      else if is_in_history lib new_password (us_history user) then Inl Recently_used
                      else Inr (tenant, rec, user))))"

definition reset_user :: "auth_lib \<Rightarrow> instant \<Rightarrow> string \<Rightarrow> string \<Rightarrow> User \<Rightarrow> User" where
  "reset_user lib now salt new_password user =
     user\<lparr>us_history := push_history (us_password_hash user) (us_history user), us_password_hash := Some (argon2_hash lib salt new_password),
          us_password_changed := Some now, us_failed := 0, us_locked_until := None,
          us_status := (if us_status user = ''invited'' then ''active'' else us_status user)\<rparr>"

definition reset_password :: "auth_lib \<Rightarrow> instant \<Rightarrow> string \<Rightarrow> string \<Rightarrow> string \<Rightarrow> accounts \<Rightarrow> (account_error, unit) res \<times> accounts" where
  "reset_password lib now salt token new_password db =
     (case reset_checks lib now token new_password db of
        Inl e \<Rightarrow> (Inl e, db)
      | Inr (tenant, rec, user) \<Rightarrow> (Inr (),
          record_log (anonymous (log_of ''auth.password_reset'' (''user'', us_id user) tenant None
              [(''sessions_revoked'', open_token_count tenant (us_id user) db)]))
            (revoke_user_tokens now ''password_reset'' tenant (us_id user)
              (put_user (reset_user lib now salt new_password user)
                (db\<lparr>ac_resets := set_row pr_hash (rec\<lparr>pr_used := Some now\<rparr>) (ac_resets db)\<rparr>)))))"

section \<open>Invitations\<close>

definition INVITATION_TTL :: duration where "INVITATION_TTL = days 7"

fun ASSIGNABLE_ROLES :: "Role \<Rightarrow> Role list" where
  "ASSIGNABLE_ROLES OWNER = [OWNER, ADMIN, MANAGER, MEMBER, VIEWER]"
| "ASSIGNABLE_ROLES ADMIN = [ADMIN, MANAGER, MEMBER, VIEWER]"
| "ASSIGNABLE_ROLES MANAGER = [MEMBER, VIEWER]"
| "ASSIGNABLE_ROLES MEMBER = []"
| "ASSIGNABLE_ROLES VIEWER = []"
| "ASSIGNABLE_ROLES SUPPORT = []"

definition assignable_roles :: "string list \<Rightarrow> Role list" where
  "assignable_roles actor_roles = concat (map ASSIGNABLE_ROLES (List.map_filter Role_of actor_roles))"

definition role_row :: "string \<Rightarrow> string \<Rightarrow> Role \<Rightarrow> accounts \<Rightarrow> (account_error, string) res \<times> accounts" where
  "role_row fresh_id tenant role db =
     (case one_or_none (filter (\<lambda>r. rl_tenant r = tenant \<and> rl_name r = role_value role) (ac_roles db)) of
        Inl e \<Rightarrow> (Inl e, db)
      | Inr (Some r) \<Rightarrow> (Inr (rl_id r), db)
      | Inr None \<Rightarrow> if fresh_id \<in> rl_id ` set (ac_roles db) then (Inl Integrity_error, db) else (Inr fresh_id,
          db\<lparr>ac_roles := ac_roles db @ [\<lparr>rl_id = fresh_id, rl_tenant = tenant, rl_name = role_value role\<rparr>],
             ac_role_permissions := ac_role_permissions db @ permission_rows tenant fresh_id role\<rparr>))"

definition invitation_status :: "instant \<Rightarrow> Invitation \<Rightarrow> string" where
  "invitation_status now i = (if iv_accepted i \<noteq> None then ''accepted'' else if iv_revoked i \<noteq> None then ''revoked''
     else if iv_expires i \<le> now then ''expired'' else ''pending'')"

text \<open>The partial unique index on the open invitations of an address.\<close>

definition open_invitation :: "string \<Rightarrow> string \<Rightarrow> Invitation \<Rightarrow> bool" where
  "open_invitation tenant email i \<longleftrightarrow> iv_tenant i = tenant \<and> py_lower (iv_email i) = email \<and> iv_accepted i = None \<and> iv_revoked i = None"

record invite_fresh =
  if_id :: string
  if_role :: string
  if_secret :: string

record InvitationIssued =
  ii_id :: string
  ii_email :: string
  ii_role :: Role
  ii_expires :: instant
  ii_token :: string

definition is_member :: "string \<Rightarrow> string \<Rightarrow> User \<Rightarrow> bool" where
  "is_member tenant email u \<longleftrightarrow> us_tenant u = tenant \<and> py_lower (us_email u) = email \<and> us_deleted u = None"

definition invite_write :: "auth_lib \<Rightarrow> instant \<Rightarrow> invite_fresh \<Rightarrow> string \<Rightarrow> string \<Rightarrow> string \<Rightarrow> Role \<Rightarrow> Invitation option \<Rightarrow> accounts
    \<Rightarrow> (account_error, InvitationIssued) res \<times> accounts" where
  "invite_write lib now vf tenant actor normalized requested expired db =
     (let (plaintext, token_hash) = new_token lib tenant (if_secret vf);
          db1 = (case expired of None \<Rightarrow> db | Some i \<Rightarrow> db\<lparr>ac_invitations := set_row iv_id (i\<lparr>iv_revoked := Some now\<rparr>) (ac_invitations db)\<rparr>)
      in case role_row (if_role vf) tenant requested db1 of
           (Inl e, _) \<Rightarrow> (Inl e, db)
         | (Inr role_id, db2) \<Rightarrow>
             if if_id vf \<in> iv_id ` set (ac_invitations db) \<or> token_hash \<in> iv_hash ` set (ac_invitations db) then (Inl Integrity_error, db)
             else (Inr \<lparr>ii_id = if_id vf, ii_email = normalized, ii_role = requested, ii_expires = now + INVITATION_TTL, ii_token = plaintext\<rparr>,
                   record_log (log_of ''user.invited'' (''invitation'', if_id vf) tenant (Some actor)
                       [(''email'', JStr normalized), (''role'', JStr (role_value requested))])
                     (db2\<lparr>ac_invitations := ac_invitations db2 @ [\<lparr>iv_id = if_id vf, iv_tenant = tenant, iv_email = normalized,
                        iv_role = Some role_id, iv_hash = token_hash, iv_invited_by = Some actor, iv_created = now,
                        iv_expires = now + INVITATION_TTL, iv_accepted = None, iv_revoked = None\<rparr>]\<rparr>)))"

definition invite_user :: "auth_lib \<Rightarrow> instant \<Rightarrow> invite_fresh \<Rightarrow> string \<Rightarrow> string \<Rightarrow> string list \<Rightarrow> string \<Rightarrow> string \<Rightarrow> accounts
    \<Rightarrow> (account_error, InvitationIssued) res \<times> accounts" where
  "invite_user lib now vf tenant actor actor_roles email role db =
     (case normalize_email email of
        Inl _ \<Rightarrow> (Inl Invalid_email_address, db)
      | Inr normalized \<Rightarrow>
          (case Role_of role of
             None \<Rightarrow> (Inl Not_a_role, db)
           | Some requested \<Rightarrow>
               if requested \<notin> set (assignable_roles actor_roles) then (Inl (Role_above_own (requested, assignable_roles actor_roles)), db)
               else if filter (is_member tenant normalized) (ac_users db) \<noteq> [] then (Inl Already_member, db)
               else (case one_or_none (filter (open_invitation tenant normalized) (ac_invitations db)) of
                       Inl e \<Rightarrow> (Inl e, db)
                     | Inr None \<Rightarrow> invite_write lib now vf tenant actor normalized requested None db
                     | Inr (Some i) \<Rightarrow> if iv_expires i > now then (Inl (Pending_exists (iv_id i)), db)
                                       else invite_write lib now vf tenant actor normalized requested (Some i) db)))"

definition role_name_of :: "string \<Rightarrow> string option \<Rightarrow> accounts \<Rightarrow> string option" where
  "role_name_of tenant role_id db = (case filter (\<lambda>r. rl_tenant r = tenant \<and> Some (rl_id r) = role_id) (ac_roles db) of
      [] \<Rightarrow> None | r # _ \<Rightarrow> Some (rl_name r))"

definition list_invitations :: "instant \<Rightarrow> string \<Rightarrow> bool \<Rightarrow> accounts \<Rightarrow> (Invitation \<times> string option \<times> string) list" where
  "list_invitations now tenant include_settled db =
     map (\<lambda>i. (i, role_name_of tenant (iv_role i) db, invitation_status now i))
       (rev (sort_key iv_created (filter (\<lambda>i. iv_tenant i = tenant
          \<and> (include_settled \<or> iv_accepted i = None \<and> iv_revoked i = None)) (ac_invitations db))))"

definition revoke_invitation :: "instant \<Rightarrow> string \<Rightarrow> string \<Rightarrow> string \<Rightarrow> accounts \<Rightarrow> (account_error, instant option) res \<times> accounts" where
  "revoke_invitation now tenant actor invitation_id db =
     (case one_or_none (filter (\<lambda>i. iv_id i = invitation_id \<and> iv_tenant i = tenant) (ac_invitations db)) of
        Inl e \<Rightarrow> (Inl e, db)
      | Inr None \<Rightarrow> (Inl Invitation_not_found, db)
      | Inr (Some i) \<Rightarrow>
          if iv_accepted i \<noteq> None then (Inl Already_accepted, db)
          else if iv_revoked i \<noteq> None then (Inr (iv_revoked i), db)
          else (Inr (Some now),
                record_log ((log_of ''user.invitation_revoked'' (''invitation'', invitation_id) tenant (Some actor) [(''status'', JStr ''revoked'')])
                    \<lparr>lg_old := [(''status'', JStr ''pending'')]\<rparr>)
                  (db\<lparr>ac_invitations := set_row iv_id (i\<lparr>iv_revoked := Some now\<rparr>) (ac_invitations db)\<rparr>)))"

text \<open>The lookup shared by the preview and the acceptance.\<close>

definition pending_invitation :: "auth_lib \<Rightarrow> instant \<Rightarrow> string \<Rightarrow> accounts \<Rightarrow> (account_error, string \<times> Invitation) res" where
  "pending_invitation lib now token db =
     rbind (split_token lib token) (\<lambda>(tenant, token_hash).
       rbind (one_or_none (filter (\<lambda>i. iv_hash i = token_hash \<and> iv_tenant i = tenant) (ac_invitations db))) (\<lambda>found.
         case found of
           None \<Rightarrow> Inl Invalid_link
         | Some i \<Rightarrow> if invitation_status now i \<noteq> ''pending'' then Inl Invalid_link else Inr (tenant, i)))"

definition peek_invitation :: "auth_lib \<Rightarrow> instant \<Rightarrow> string \<Rightarrow> accounts
    \<Rightarrow> (account_error, string \<times> string option \<times> Tenant option \<times> instant) res" where
  "peek_invitation lib now token db =
     rbind (pending_invitation lib now token db) (\<lambda>(tenant, i).
       rbind (one_or_none (filter (\<lambda>t. tn_id t = tenant) (ac_tenants db))) (\<lambda>t.
         Inr (iv_email i, role_name_of tenant (iv_role i) db, t, iv_expires i)))"

text \<open>
  A raise inside the transaction rolls it back, so the branch that meets an existing member leaves the
  invitation as it was, although it assigns \<^verbatim>\<open>accepted_at\<close> before raising.
\<close>

definition accept_invitation :: "auth_lib \<Rightarrow> instant \<Rightarrow> string \<Rightarrow> string \<Rightarrow> string \<Rightarrow> string \<Rightarrow> accounts
    \<Rightarrow> (account_error, string \<times> string option) res \<times> accounts" where
  "accept_invitation lib now user_id token full_name password_hash db =
     (case pending_invitation lib now token db of
        Inl e \<Rightarrow> (Inl e, db)
      | Inr (tenant, i) \<Rightarrow>
          let name = take 200 (py_strip full_name); role_name = role_name_of tenant (iv_role i) db
          in if filter (is_member tenant (iv_email i)) (ac_users db) \<noteq> [] then (Inl Already_member, db)
             else if name = [] then (Inl Name_required, db)
             else if user_id \<in> us_id ` set (ac_users db) then (Inl Integrity_error, db)
             else (Inr (iv_email i, role_name),
               record_log ((log_of ''user.invitation_accepted'' (''user'', user_id) tenant (Some user_id)
                   [(''email'', JStr (iv_email i)), (''role'', case role_name of None \<Rightarrow> JNull | Some r \<Rightarrow> JStr r), (''status'', JStr ''active'')])
                   \<lparr>lg_metadata := [(''invitation_id'', JStr (iv_id i))]\<rparr>)
                 (db\<lparr>ac_users := ac_users db @ [(new_user now user_id tenant (iv_email i) name password_hash)
                        \<lparr>us_status := ''active'', us_email_verified := Some now\<rparr>],
                     ac_user_roles := ac_user_roles db @ (case iv_role i of None \<Rightarrow> []
                        | Some r \<Rightarrow> [\<lparr>ur_tenant = tenant, ur_user = user_id, ur_role = r\<rparr>]),
                     ac_invitations := set_row iv_id (i\<lparr>iv_accepted := Some now\<rparr>) (ac_invitations db)\<rparr>)))"

text \<open>\<^verbatim>\<open>POST /invitations/accept\<close>: the password is checked and hashed before.\<close>

definition accept_route :: "auth_lib \<Rightarrow> instant \<Rightarrow> string \<Rightarrow> string \<Rightarrow> string \<Rightarrow> string \<Rightarrow> string \<Rightarrow> accounts
    \<Rightarrow> (account_error, string \<times> string option) res \<times> accounts" where
  "accept_route lib now user_id salt token full_name password db =
     (let problems = validate_password None (Some full_name) password
      in if problems \<noteq> [] then (Inl (Weak_password problems), db)
         else accept_invitation lib now user_id token full_name (argon2_hash lib salt password) db)"

end
