(* ===== verification/Accounts_Safety.thy ===== *)
theory Accounts_Safety
  imports Registration
begin

text \<open>
  What signing in and becoming a member guarantee, over every sequence of the operations of \<open>Accounts\<close> and
  \<open>Registration\<close>: guessing is bounded, a verified session had a second factor, links work once, and an
  invitation never grants more than the inviter holds.
\<close>

section \<open>Single rows\<close>

lemma one_or_none_Some: "one_or_none rows = Inr (Some r) \<longleftrightarrow> rows = [r]"
  by (cases rows rule: one_or_none.cases) auto

lemma one_or_none_None: "one_or_none rows = Inr None \<longleftrightarrow> rows = []"
  by (cases rows rule: one_or_none.cases) auto

lemma the_one_Inr: "the_one rows = Inr r \<longleftrightarrow> rows = [r]"
  by (cases rows rule: one_or_none.cases) (auto simp: the_one_def)

lemma the_one_single [simp]: "the_one [r] = Inr r"
  by (simp add: the_one_def)

lemma one_or_none_many: "2 \<le> length rows \<Longrightarrow> one_or_none rows = Inl Multiple_results"
  by (cases rows rule: one_or_none.cases) auto

lemma filter_set_row:
  assumes "filter P rows = [u]" and "distinct (map key rows)" and "key v = key u" and "P v"
  shows "filter P (set_row key v rows) = [v]"
proof -
  obtain a b where rows: "rows = a @ u # b" and a: "filter P a = []" and b: "filter P b = []"
    using assms(1) by (auto simp: filter_eq_Cons_iff)
  then have "key v \<notin> key ` set a" "key v \<notin> key ` set b" using assms(2,3) by auto
  then have "set_row key v rows = a @ v # b" using assms(3) rows unfolding set_row_def by (auto intro!: map_idI simp: image_iff)
  then show ?thesis using a b assms(4) by simp
qed

lemma filter_unique_row:
  assumes "u \<in> set rows" and "distinct (map key rows)" and "\<And>x. P x \<Longrightarrow> key x = key u" and "P u"
  shows "filter P rows = [u]"
  using assms(1,2)
proof (induction rows)
  case (Cons x rows)
  show ?case
  proof (cases "x = u")
    case True
    then have "key u \<notin> key ` set rows" using Cons.prems(2) by simp
    then have "filter P rows = []" using assms(3) by (metis filter_empty_conv image_eqI)
    then show ?thesis using True assms(4) by simp
  next
    case False
    then have "u \<in> set rows" "key x \<noteq> key u" using Cons.prems by auto
    then show ?thesis using Cons assms(3) [of x] by auto
  qed
qed simp

lemma filter_set_row_same:
  assumes "\<And>x. x \<in> set rows \<Longrightarrow> key x = key v \<Longrightarrow> \<not> P x" and "\<not> P v \<or> key v \<notin> key ` set rows"
  shows "filter P (set_row key v rows) = filter P rows"
  using assms by (induction rows) (auto simp: set_row_def)

section \<open>An example\<close>

text \<open>A stand-in for the cryptographic packages that has the behaviour the code relies on.\<close>

definition demo_lib :: auth_lib where
  "demo_lib = \<lparr>al_crypto = \<lparr>cr_seal = \<lambda>k n d a. d @ replicate 16 (CHR ''t''),
       cr_open = \<lambda>k n c a. if length c < 16 then None else Some (take (length c - 16) c), cr_hkdf = \<lambda>l s i m. replicate l (CHR ''k'')\<rparr>,
     al_master_key = Some (replicate 32 (CHR ''m'')), argon2_hash = \<lambda>salt p. p, argon2_verify = \<lambda>h p. h = p, bcrypt_hash = \<lambda>salt c. c,
     bcrypt_check = \<lambda>c h. Some (c = h), hmac_sha1 = \<lambda>k m. take 20 (m @ k @ replicate 20 (CHR ''A'')), sha256_hex = \<lambda>s. s\<rparr>"

definition demo_tenant :: string where "demo_tenant = ''00000000-0000-0000-0000-000000000001''"
definition other_tenant :: string where "other_tenant = ''00000000-0000-0000-0000-000000000002''"

definition demo_user :: User where
  "demo_user = (new_user 0 ''u1'' demo_tenant ''ana@x.io'' ''Ana'' ''right'')\<lparr>us_status := ''active''\<rparr>"

definition enrolled_user :: User where
  "enrolled_user = demo_user\<lparr>us_mfa_enabled := True, us_mfa_secret := Some ''v1:1:t:x'', us_recovery := [''AAAAA-BBBBB'']\<rparr>"

definition demo_fresh :: fresh where
  "demo_fresh = \<lparr>fr_jti = ''j'', fr_secret = ''s'', fr_family = ''f'', fr_access = ''a'', fr_token = ''c2''\<rparr>"

definition empty_accounts :: accounts where
  "empty_accounts = \<lparr>ac_users = [], ac_tenants = [], ac_roles = [], ac_role_permissions = [], ac_user_roles = [], ac_members = [], ac_teams = [],
     ac_google = [], ac_keys = [], ac_verifications = [], ac_resets = [], ac_invitations = [], ac_challenges = [], ac_states = [],
     ac_auth = \<lparr>au_tokens = [], au_revoked_jtis = [], au_access = [], au_cache_up = True, au_audit = []\<rparr>, ac_log = []\<rparr>"

definition demo_org :: "string \<Rightarrow> Tenant" where
  "demo_org t = \<lparr>tn_id = t, tn_name = ''Org'', tn_slug = t, tn_plan = ''starter'', tn_status = ''trial'', tn_trial_ends = None\<rparr>"

definition demo_db :: accounts where
  "demo_db = empty_accounts\<lparr>ac_users := [demo_user], ac_tenants := [demo_org demo_tenant, demo_org other_tenant]\<rparr>"

definition enrolled_db :: accounts where
  "enrolled_db = demo_db\<lparr>ac_users := [enrolled_user], ac_challenges := [(''c1'', (demo_tenant, ''u1''), seconds 300)],
     ac_states := [(''st'', ''/home'', seconds 600)]\<rparr>"

section \<open>Guessing a password\<close>

text \<open>A sequence of sign-in attempts on one address: instant, fresh values, password.\<close>

fun attempts :: "auth_lib \<Rightarrow> string \<Rightarrow> (instant \<times> fresh \<times> string) list \<Rightarrow> accounts \<Rightarrow> (account_error, AuthResult) res list" where
  "attempts lib email [] db = []"
| "attempts lib email ((now, fr, password) # rest) db =
     (let (r, db') = login lib now fr email password db in r # attempts lib email rest db')"

text \<open>The situation of a sign-in: one account for the address, with a password, and at most one tenant row for it.\<close>

definition account_at :: "string \<Rightarrow> accounts \<Rightarrow> User \<Rightarrow> bool" where
  "account_at e db u \<longleftrightarrow> filter (live_email e) (ac_users db) = [u] \<and> has_password u \<and> distinct (map us_id (ac_users db))
     \<and> length (filter (\<lambda>t. tn_id t = us_tenant u) (ac_tenants db)) \<le> 1"

lemma login_resolve_at:
  assumes "account_at e db u" and "normalize_email email = Inr e"
  obtains s where "login_resolve now email db = Inr s" "ls_user s = u"
    "ls_locked s = fst (lockout_state now (us_failed u) (us_locked_until u))"
proof -
  have "\<exists>t. one_or_none (filter (\<lambda>t. tn_id t = us_tenant u) (ac_tenants db)) = Inr t"
    using assms(1) unfolding account_at_def
    by (cases "filter (\<lambda>t. tn_id t = us_tenant u) (ac_tenants db)" rule: one_or_none.cases) auto
  then obtain t where t: "one_or_none (filter (\<lambda>t. tn_id t = us_tenant u) (ac_tenants db)) = Inr t" by blast
  show ?thesis using assms that t by (simp add: login_resolve_def account_at_def)
qed

lemma user_row_at:
  assumes "account_at e db u"
  shows "filter (user_in (us_tenant u) (us_id u)) (ac_users db) = [u]"
proof (rule filter_unique_row [where key = us_id])
  show "u \<in> set (ac_users db)" using assms unfolding account_at_def by (metis filter_is_subset list.set_intros(1) subsetD)
qed (use assms in \<open>auto simp: account_at_def user_in_def\<close>)

lemma login_at_locked:
  assumes "account_at e db u" and "normalize_email email = Inr e" and "fst (lockout_state now (us_failed u) (us_locked_until u))"
  shows "login lib now fr email password db = (Inl Account_locked, record_log (login_failed_log u ''account_locked'') db)"
proof -
  obtain s where "login_resolve now email db = Inr s" "ls_user s = u" "ls_locked s" using login_resolve_at [OF assms(1,2)] assms(3) by metis
  then show ?thesis by (simp add: login_def login_act_def)
qed

lemma login_at_wrong:
  assumes "account_at e db u" and "normalize_email email = Inr e" and "\<not> fst (lockout_state now (us_failed u) (us_locked_until u))"
    and "\<not> password_matches lib password u"
  shows "login lib now fr email password db = (Inl Bad_credentials, record_log (login_failed_log u ''invalid_credentials'')
      (put_user (u\<lparr>us_failed := us_failed u + 1, us_locked_until := next_lockout now (us_failed u)\<rparr>) db))"
proof -
  obtain s where "login_resolve now email db = Inr s" "ls_user s = u" "\<not> ls_locked s" using login_resolve_at [OF assms(1,2)] assms(3) by metis
  then show ?thesis using assms(4) user_row_at [OF assms(1)] by (simp add: login_def login_act_def the_one_def)
qed

lemma account_at_put:
  assumes "account_at e db u" and "us_id v = us_id u" and "us_tenant v = us_tenant u" and "live_email e v" and "has_password v"
  shows "account_at e (record_log l (put_user v db)) v"
  using assms filter_set_row [of "live_email e" "ac_users db" u us_id v]
  by (simp add: account_at_def record_log_def put_user_def)

lemma account_at_log: "account_at e db u \<Longrightarrow> account_at e (record_log l db) u"
  by (simp add: account_at_def record_log_def)

lemma account_at_live: "account_at e db u \<Longrightarrow> live_email e u"
  unfolding account_at_def by (metis filter_eq_ConsD)

lemma attempts_locked:
  assumes "normalize_email email = Inr e" and "account_at e db u" and "MAX_FAILED_ATTEMPTS \<le> us_failed u"
  shows "attempts lib email guesses db = replicate (length guesses) (Inl Account_locked)"
  using assms(2)
proof (induction guesses arbitrary: db)
  case (Cons g guesses)
  obtain now fr password where g: "g = (now, fr, password)" by (cases g)
  have "fst (lockout_state now (us_failed u) (us_locked_until u))"
    using assms(3) by (simp add: lockout_state_def split: option.split)
  then show ?case using Cons login_at_locked [OF Cons.prems assms(1)] account_at_log by (simp add: g)
qed simp

lemma attempts_failing:
  assumes "normalize_email email = Inr e" and "account_at e db u" and "us_locked_until u = None" and "0 \<le> us_failed u"
    and "us_failed u + int (length guesses) = MAX_FAILED_ATTEMPTS" and "\<forall>(now, fr, password)\<in>set guesses. \<not> password_matches lib password u"
  shows "attempts lib email (guesses @ later) db = replicate (length guesses) (Inl Bad_credentials) @ replicate (length later) (Inl Account_locked)"
  using assms(2-)
proof (induction guesses arbitrary: db u)
  case Nil
  then show ?case using attempts_locked [OF assms(1)] by simp
next
  case (Cons g guesses)
  obtain now fr password where g: "g = (now, fr, password)" by (cases g)
  define v where "v = u\<lparr>us_failed := us_failed u + 1, us_locked_until := next_lockout now (us_failed u)\<rparr>"
  define db' where "db' = record_log (login_failed_log u ''invalid_credentials'') (put_user v db)"
  have "\<not> fst (lockout_state now (us_failed u) (us_locked_until u))" using Cons.prems by (simp add: lockout_state_def)
  then have step: "login lib now fr email password db = (Inl Bad_credentials, db')"
    using login_at_wrong [OF Cons.prems(1) assms(1)] Cons.prems(5) by (simp add: g v_def db'_def)
  have at: "account_at e db' v" unfolding db'_def
  proof (rule account_at_put [OF Cons.prems(1)])
    show "live_email e v" using account_at_live [OF Cons.prems(1)] by (simp add: v_def live_email_def)
    show "has_password v" using Cons.prems(1) by (simp add: v_def has_password_def account_at_def)
  qed (simp_all add: v_def)
  show ?case
  proof (cases "guesses = []")
    case True
    then have "MAX_FAILED_ATTEMPTS \<le> us_failed v" using Cons.prems(4) by (simp add: v_def)
    then show ?thesis using step attempts_locked [OF assms(1) at] True by (simp add: g)
  next
    case False
    then have "us_locked_until v = None" using Cons.prems(4) by (cases guesses) (auto simp: v_def next_lockout_def)
    moreover have "0 \<le> us_failed v" "us_failed v + int (length guesses) = MAX_FAILED_ATTEMPTS"
      using Cons.prems(3,4) by (simp_all add: v_def)
    moreover have "password_matches lib p v = password_matches lib p u" for p by (simp add: v_def password_matches_def)
    ultimately show ?thesis using Cons.IH [OF at] Cons.prems(5) step by (simp add: g)
  qed
qed

text \<open>
  C35. Five wrong passwords lock an account for good: they are all refused as wrong, and every later attempt is refused as locked,
  with the right password too and however long after, although the refusal says that the lock is temporary.
\<close>

theorem lock_never_expires:
  assumes "normalize_email email = Inr e" and "account_at e db u" and "us_failed u = 0" and "us_locked_until u = None"
    and "length wrong = 5" and "\<forall>(now, fr, password)\<in>set wrong. \<not> password_matches lib password u"
  shows "attempts lib email (wrong @ later) db = replicate 5 (Inl Bad_credentials) @ replicate (length later) (Inl Account_locked)"
  using attempts_failing [OF assms(1,2,4) _ _ assms(6)] assms(3,5) by (simp add: MAX_FAILED_ATTEMPTS_def)

theorem lock_never_expires_witness:
  "attempts demo_lib ''Ana@x.io'' (replicate 5 (0, demo_fresh, ''guess'') @ [(days 365, demo_fresh, ''right'')]) demo_db
     = replicate 5 (Inl Bad_credentials) @ [Inl Account_locked]"
proof -
  have "normalize_email ''Ana@x.io'' = Inr ''ana@x.io''" by code_simp
  moreover have "account_at ''ana@x.io'' demo_db demo_user" by code_simp
  moreover have "us_failed demo_user = 0" "us_locked_until demo_user = None" "\<not> password_matches demo_lib ''guess'' demo_user" by code_simp+
  ultimately show ?thesis
    using lock_never_expires [of "''Ana@x.io''" "''ana@x.io''" demo_db demo_user "replicate 5 (0, demo_fresh, ''guess'')" demo_lib "[(days 365, demo_fresh, ''right'')]"]
    by simp
qed

text \<open>
  Attempts that read the account before any of them wrote count as one: the counter is set to the value read in
  phase one plus one.
\<close>

fun parallel_guesses :: "auth_lib \<Rightarrow> login_snapshot \<Rightarrow> (instant \<times> fresh \<times> string) list \<Rightarrow> accounts \<Rightarrow> accounts" where
  "parallel_guesses lib s [] db = db"
| "parallel_guesses lib s ((now, fr, password) # rest) db = parallel_guesses lib s rest (snd (login_act lib now fr password s db))"

lemma parallel_guesses_count_once:
  assumes "\<not> ls_locked s" and "distinct (map us_id (ac_users db))" and "u \<in> set (ac_users db)" and "user_in (us_tenant (ls_user s)) (us_id (ls_user s)) u"
    and "\<forall>(now, fr, password)\<in>set guesses. \<not> password_matches lib password (ls_user s)" and "guesses \<noteq> []"
  shows "\<exists>v\<in>set (ac_users (parallel_guesses lib s guesses db)). us_id v = us_id u \<and> us_failed v = us_failed (ls_user s) + 1"
  using assms(2-)
proof (induction guesses arbitrary: db u)
  case (Cons g guesses)
  obtain now fr password where g: "g = (now, fr, password)" by (cases g)
  define v where "v = u\<lparr>us_failed := us_failed (ls_user s) + 1, us_locked_until := next_lockout now (us_failed (ls_user s))\<rparr>"
  have "filter (user_in (us_tenant (ls_user s)) (us_id (ls_user s))) (ac_users db) = [u]"
    using Cons.prems by (intro filter_unique_row [where key = us_id]) (auto simp: user_in_def)
  then have step: "ac_users (snd (login_act lib now fr password s db)) = set_row us_id v (ac_users db)"
    using assms(1) Cons.prems(4) by (simp add: login_act_def g Let_def record_log_def put_user_def v_def)
  have v: "v \<in> set (set_row us_id v (ac_users db))" using Cons.prems(2) by (intro set_row_new) (auto simp: v_def)
  show ?case
  proof (cases "guesses = []")
    case True
    then show ?thesis using step v by (intro bexI [of _ v]) (simp_all add: g, simp_all add: v_def)
  next
    case False
    then show ?thesis using Cons.IH [of "snd (login_act lib now fr password s db)" v] Cons.prems step v
      by (simp add: g v_def user_in_def)
  qed
qed simp

section \<open>Second factors\<close>

definition totp_proved :: "auth_lib \<Rightarrow> instant \<Rightarrow> string \<Rightarrow> string \<Rightarrow> User \<Rightarrow> bool" where
  "totp_proved lib now tenant code_text u \<longleftrightarrow> (\<exists>cipher secret d. us_mfa_secret u = Some cipher \<and> stored_secret lib tenant cipher = Some secret
     \<and> - 1 \<le> d \<and> d \<le> 1 \<and> totp_at lib secret (totp_counter now + d) = Inr (py_replace '' '' [] (py_strip code_text)))"

definition recovery_spent :: "auth_lib \<Rightarrow> string \<Rightarrow> User \<Rightarrow> accounts \<Rightarrow> bool" where
  "recovery_spent lib code_text u db' \<longleftrightarrow> (\<exists>i<length (us_recovery u).
     bcrypt_check lib (recovery_candidate code_text) (encode_utf8 (us_recovery u ! i)) = Some True
     \<and> u\<lparr>us_recovery := take i (us_recovery u) @ drop (Suc i) (us_recovery u)\<rparr> \<in> set (ac_users db'))"

lemma any_window_True: "any_window lib secret candidate ns = Inr True \<Longrightarrow> \<exists>n\<in>set ns. totp_at lib secret n = Inr candidate"
  by (induction ns) (auto simp: rbind_eq_Inr compare_digest_def split: if_splits)

lemma verify_totp_True:
  assumes "verify_totp lib now secret code_text = Inr True"
  shows "\<exists>d. - 1 \<le> d \<and> d \<le> 1 \<and> totp_at lib secret (totp_counter now + d) = Inr (py_replace '' '' [] (py_strip code_text))"
proof -
  define candidate where "candidate = py_replace '' '' [] (py_strip code_text)"
  have "any_window lib secret candidate (map (\<lambda>d. totp_counter now + d) [- 1..1]) = Inr True"
    using assms unfolding verify_totp_def candidate_def [symmetric] Let_def TOTP_DRIFT_WINDOWS_def by (simp split: if_splits)
  from any_window_True [OF this] obtain d where "d \<in> set [- 1..1]" "totp_at lib secret (totp_counter now + d) = Inr candidate" unfolding set_map by blast
  then show ?thesis unfolding candidate_def by (intro exI [of _ d]) simp
qed

lemma check_code_True:
  assumes "check_code lib now tenant user code_text db = Inr True"
  shows "\<exists>u. filter (user_in tenant user) (ac_users db) = [u] \<and> us_mfa_enabled u \<and> totp_proved lib now tenant code_text u"
  using assms verify_totp_True unfolding check_code_def rbind_eq_Inr the_one_Inr totp_proved_def
  by (auto simp: totp_result_def split: if_splits option.splits sum.splits)

lemma first_match_Some: "first_match lib c k hs = Some i \<Longrightarrow> k \<le> i \<and> i < k + length hs \<and> bcrypt_check lib c (encode_utf8 (hs ! (i - k))) = Some True"
  by (induction lib c k hs rule: first_match.induct) (auto split: if_splits simp: nth_Cons')

lemma consume_recovery_True:
  assumes "consume_recovery_code lib tenant user code_text db = (Inr True, db')"
  obtains u i l where "filter (user_in tenant user) (ac_users db) = [u]" "us_mfa_enabled u" "i < length (us_recovery u)"
    "bcrypt_check lib (recovery_candidate code_text) (encode_utf8 (us_recovery u ! i)) = Some True"
    "db' = record_log l (put_user (u\<lparr>us_recovery := take i (us_recovery u) @ drop (Suc i) (us_recovery u)\<rparr>) db)"
proof (cases "the_one (filter (user_in tenant user) (ac_users db))")
  case (Inr u)
  then show ?thesis using assms that first_match_Some [of lib "recovery_candidate code_text" 0 "us_recovery u"] unfolding consume_recovery_code_def
    by (auto simp: the_one_Inr verify_recovery_code_def Let_def split: if_splits option.splits)
qed (use assms in \<open>simp add: consume_recovery_code_def\<close>)

lemma second_factor_True:
  assumes "second_factor lib now tenant user code_text db = (Inr True, db')"
  shows "\<exists>u. filter (user_in tenant user) (ac_users db) = [u] \<and> us_mfa_enabled u
     \<and> (totp_proved lib now tenant code_text u \<or> recovery_spent lib code_text u db')
     \<and> ac_challenges db' = ac_challenges db \<and> ac_auth db' = ac_auth db"
proof (cases "check_code lib now tenant user code_text db")
  case (Inr b)
  show ?thesis
  proof (cases b)
    case True
    then show ?thesis using Inr assms check_code_True [of lib now tenant user code_text db] by (auto simp: second_factor_def)
  next
    case False
    then have "consume_recovery_code lib tenant user code_text db = (Inr True, db')" using Inr assms by (simp add: second_factor_def)
    then obtain u i l where u: "filter (user_in tenant user) (ac_users db) = [u]" "us_mfa_enabled u" "i < length (us_recovery u)"
      "bcrypt_check lib (recovery_candidate code_text) (encode_utf8 (us_recovery u ! i)) = Some True"
      "db' = record_log l (put_user (u\<lparr>us_recovery := take i (us_recovery u) @ drop (Suc i) (us_recovery u)\<rparr>) db)"
      by (rule consume_recovery_True)
    have "u \<in> set (ac_users db)" using u(1) by (metis filter_is_subset list.set_intros(1) subsetD)
    then have "recovery_spent lib code_text u db'" using u unfolding recovery_spent_def
      by (auto simp: record_log_def put_user_def intro!: exI [of _ i] set_row_new)
    with u show ?thesis by (auto simp: record_log_def put_user_def)
  qed
qed (use assms in \<open>simp add: second_factor_def\<close>)

lemma issue_keeps: "issue_auth_session lib now fr user t roles email name mfa db = (r, db') \<Longrightarrow>
    ac_users db' = ac_users db \<and> ac_challenges db' = ac_challenges db \<and> ac_states db' = ac_states db
    \<and> au_cache_up (ac_auth db') = au_cache_up (ac_auth db)
    \<and> cl_sub (ar_claims r) = user \<and> cl_mfa_verified (ar_claims r) = mfa"
  by (auto simp: issue_auth_session_def claims_for_values_def issue_session_def enforce_session_cap_def revoke_access_jtis_def audit_def
      mint_access_def Let_def split: prod.splits if_splits)

lemma open_for_Inr:
  assumes "open_for lib now fr mfa tenant user db = (Inr r, db')"
  shows "(\<exists>u. filter (\<lambda>u. us_id u = user) (ac_users db) = [u] \<and> us_status u = ''active'' \<and> us_tenant u = tenant)
     \<and> cl_sub (ar_claims r) = user \<and> cl_mfa_verified (ar_claims r) = mfa \<and> ac_challenges db' = ac_challenges db \<and> ac_users db' = ac_users db
     \<and> au_cache_up (ac_auth db') = au_cache_up (ac_auth db)"
proof (cases "load_principal tenant user db")
  case (Inr p)
  obtain t roles email name where p: "p = (t, roles, email, name)" by (cases p)
  have "issue_auth_session lib now fr user t roles email name mfa db = (r, db')"
    using assms Inr by (simp add: open_for_def p split: prod.splits)
  from issue_keeps [OF this] Inr show ?thesis
    unfolding load_principal_def rbind_eq_Inr by (auto simp: one_or_none_Some split: option.splits if_splits)
qed (use assms in \<open>simp add: open_for_def\<close>)

lemma consume_challenge_Inr:
  assumes "consume_mfa_challenge now token db = (Inr who, db')"
  shows "(\<exists>expires. map_of (ac_challenges db) token = Some (who, expires) \<and> now < expires) \<and> token \<noteq> [] \<and> au_cache_up (ac_auth db)
     \<and> db' = db\<lparr>ac_challenges := adel token (ac_challenges db)\<rparr>"
  using assms by (auto simp: consume_mfa_challenge_def split: if_splits option.splits)

lemma spent_challenge:
  assumes "token \<noteq> []" and "au_cache_up (ac_auth db)" and "map_of (ac_challenges db) token = None"
  shows "fst (mfa_verify_challenge lib now fr allowed token code_text db) = Inl Challenge_expired"
  using assms by (simp add: mfa_verify_challenge_def consume_mfa_challenge_def)

text \<open>
  C4. A session opened by a sign-in challenge is backed by that challenge, unexpired, and by a second factor of the
  same active account: the one-time code of the previous, current or next half minute for the stored secret, or a
  recovery code, which is removed. The challenge is spent: a second submission is refused whatever code it carries.
\<close>

theorem verified_session_had_second_factor:
  assumes "mfa_verify_challenge lib now fr allowed token code_text db = (Inr r, db')"
  shows "\<exists>tenant user expires u. map_of (ac_challenges db) token = Some ((tenant, user), expires) \<and> now < expires
     \<and> filter (user_in tenant user) (ac_users db) = [u] \<and> us_mfa_enabled u
     \<and> (totp_proved lib now tenant code_text u \<or> recovery_spent lib code_text u db')
     \<and> cl_sub (ar_claims r) = user \<and> cl_mfa_verified (ar_claims r)
     \<and> (\<forall>now2 fr2 allowed2 code2. fst (mfa_verify_challenge lib now2 fr2 allowed2 token code2 db') = Inl Challenge_expired)"
proof -
  obtain tenant user db1 where c: "consume_mfa_challenge now token db = (Inr (tenant, user), db1)"
    using assms by (auto simp: mfa_verify_challenge_def split: prod.splits sum.splits)
  obtain db2 where f: "second_factor lib now tenant user code_text db1 = (Inr True, db2)" and o: "open_for lib now fr True tenant user db2 = (Inr r, db')"
    using assms c by (auto simp: mfa_verify_challenge_def split: prod.splits sum.splits if_splits bool.splits)
  note db1 = consume_challenge_Inr [OF c]
  from second_factor_True [OF f] obtain u where u: "filter (user_in tenant user) (ac_users db1) = [u]" "us_mfa_enabled u"
    "totp_proved lib now tenant code_text u \<or> recovery_spent lib code_text u db2"
    "ac_challenges db2 = ac_challenges db1" "ac_auth db2 = ac_auth db1" by blast
  have gone: "map_of (ac_challenges db') token = None" using open_for_Inr [OF o] u(4) db1 by simp
  have "au_cache_up (ac_auth db')" using open_for_Inr [OF o] u(5) db1 by simp
  then have spent: "fst (mfa_verify_challenge lib now2 fr2 allowed2 token code2 db') = Inl Challenge_expired" for now2 fr2 allowed2 code2
    using gone db1 spent_challenge by blast
  have "recovery_spent lib code_text u db2 = recovery_spent lib code_text u db'" using open_for_Inr [OF o] by (simp add: recovery_spent_def)
  then show ?thesis using db1 u open_for_Inr [OF o] spent by auto
qed

theorem verified_session_had_second_factor_witness:
  "\<exists>r db'. mfa_verify_challenge demo_lib 0 demo_fresh (\<lambda>_. True) ''c1'' ''aaaaa-bbbbb'' enrolled_db = (Inr r, db') \<and> cl_mfa_verified (ar_claims r)
     \<and> fst (mfa_verify_challenge demo_lib 0 demo_fresh (\<lambda>_. True) ''c1'' ''aaaaa-bbbbb'' db') = Inl Challenge_expired"
proof -
  have "is_ok (fst (mfa_verify_challenge demo_lib 0 demo_fresh (\<lambda>_. True) ''c1'' ''aaaaa-bbbbb'' enrolled_db))" by code_simp
  then obtain r where "fst (mfa_verify_challenge demo_lib 0 demo_fresh (\<lambda>_. True) ''c1'' ''aaaaa-bbbbb'' enrolled_db) = Inr r" by (auto simp: is_ok_iff)
  then have eq: "mfa_verify_challenge demo_lib 0 demo_fresh (\<lambda>_. True) ''c1'' ''aaaaa-bbbbb'' enrolled_db
      = (Inr r, snd (mfa_verify_challenge demo_lib 0 demo_fresh (\<lambda>_. True) ''c1'' ''aaaaa-bbbbb'' enrolled_db))" by (simp add: prod_eq_iff)
  from verified_session_had_second_factor [OF eq] show ?thesis using eq by blast
qed

section \<open>Google sign-in\<close>

lemma account_at_member: "account_at e db u \<Longrightarrow> u \<in> set (ac_users db)"
  unfolding account_at_def by (metis filter_is_subset list.set_intros(1) subsetD)

lemma account_at_id:
  assumes "account_at e db u"
  shows "filter (\<lambda>x. us_id x = us_id u) (ac_users db) = [u]"
  using assms account_at_member [OF assms] by (intro filter_unique_row [where key = us_id]) (simp_all add: account_at_def)

lemma login_enrolled:
  assumes "account_at e db u" and "normalize_email email = Inr e" and "us_mfa_enabled u"
  shows "fst (login lib now fr email password db) \<noteq> Inr r"
proof -
  obtain s where "login_resolve now email db = Inr s" "ls_user s = u" using login_resolve_at [OF assms(1,2)] by metis
  moreover have "fst (login_act lib now fr password s db) \<noteq> Inr r"
    using \<open>ls_user s = u\<close> assms(3) user_row_at [OF assms(1)] by (simp add: login_act_def create_mfa_challenge_def Let_def)
  ultimately show ?thesis by (simp add: login_def)
qed

definition google_linked :: "User \<Rightarrow> string \<Rightarrow> accounts \<Rightarrow> bool" where
  "google_linked u sub db \<longleftrightarrow> (case filter (\<lambda>g. gi_tenant g = us_tenant u \<and> gi_user g = us_id u) (ac_google db) of
      [] \<Rightarrow> sub \<notin> gi_sub ` set (ac_google db) | [g] \<Rightarrow> gi_sub g = sub | _ \<Rightarrow> False)"

lemma resolve_google_at:
  assumes "account_at e db u" and "normalize_email (gp_email p) = Inr e" and "us_status u = ''active''"
    and "filter (\<lambda>t. tn_id t = us_tenant u) (ac_tenants db) = [t]" and "google_linked u (gp_sub p) db"
  obtains gs where "resolve_google_user p db = (Inr (us_id u, t), db\<lparr>ac_google := gs\<rparr>)"
proof (cases "filter (\<lambda>g. gi_tenant g = us_tenant u \<and> gi_user g = us_id u) (ac_google db)" rule: one_or_none.cases)
  case 1
  then show ?thesis using assms that by (simp add: resolve_google_user_def account_at_def google_linked_def)
next
  case (2 g)
  then show ?thesis using assms that [of "ac_google db"] by (simp add: resolve_google_user_def account_at_def google_linked_def)
qed (use assms(5) in \<open>simp add: google_linked_def\<close>)

text \<open>
  C36. Signing in with Google does not ask an enrolled account for its second factor: where a password sign-in on the same
  account never returns a session, the callback opens one.
\<close>

theorem google_skips_second_factor:
  assumes "account_at e db u" and "us_mfa_enabled u" and "us_status u = ''active''"
    and "filter (\<lambda>t. tn_id t = us_tenant u) (ac_tenants db) = [t]"
    and "google code_text = Some p" and "gp_email_verified p" and "normalize_email (gp_email p) = Inr e" and "google_linked u (gp_sub p) db"
    and "code_text \<noteq> []" and "state \<noteq> []" and "au_cache_up (ac_auth db)" and "map_of (ac_states db) state = Some (target, expires)" and "now < expires"
  shows "(\<exists>r db'. google_callback lib True google now fr True False code_text state db = (Inr (r, target), db') \<and> cl_sub (ar_claims r) = us_id u)
     \<and> (\<forall>email password fr2 now2 r. normalize_email email = Inr e \<longrightarrow> fst (login lib now2 fr2 email password db) \<noteq> Inr r)"
proof
  define db1 where "db1 = db\<lparr>ac_states := adel state (ac_states db)\<rparr>"
  have at: "account_at e db1 u" using assms(1) by (simp add: db1_def account_at_def)
  have "consume_state now state db = (Inr target, db1)" using assms(10-13) by (simp add: consume_state_def db1_def)
  moreover obtain gs where "resolve_google_user p db1 = (Inr (us_id u, t), db1\<lparr>ac_google := gs\<rparr>)"
  proof (rule resolve_google_at [OF at assms(7,3)])
    show "filter (\<lambda>t. tn_id t = us_tenant u) (ac_tenants db1) = [t]" using assms(4) by (simp add: db1_def)
    show "google_linked u (gp_sub p) db1" using assms(8) by (simp add: db1_def google_linked_def cong: list.case_cong)
  qed
  moreover obtain roles where "load_principal (tn_id t) (us_id u) (db1\<lparr>ac_google := gs\<rparr>) = Inr (t, roles, us_email u, us_full_name u)"
  proof -
    have "tn_id t = us_tenant u" using assms(4) by (metis (mono_tags, lifting) filter_eq_ConsD)
    then show ?thesis using that account_at_id [OF at] assms(3,4) by (simp add: load_principal_def db1_def)
  qed
  moreover obtain r db' where "issue_auth_session lib now fr (us_id u) t roles (us_email u) (us_full_name u) False (db1\<lparr>ac_google := gs\<rparr>) = (r, db')"
    by fastforce
  ultimately show "\<exists>r db'. google_callback lib True google now fr True False code_text state db = (Inr (r, target), db') \<and> cl_sub (ar_claims r) = us_id u"
    using assms(5,6,9) issue_keeps by (auto simp: google_callback_def exchange_code_def)
qed (use login_enrolled [OF assms(1)] assms(2) in blast)

definition demo_profile :: google_profile where
  "demo_profile = \<lparr>gp_email = ''ana@x.io'', gp_email_verified = True, gp_sub = ''g1''\<rparr>"

theorem google_skips_second_factor_witness:
  "\<exists>r db'. google_callback demo_lib True (\<lambda>_. Some demo_profile) 0 demo_fresh True False ''code'' ''st'' enrolled_db = (Inr (r, ''/home''), db')
     \<and> cl_sub (ar_claims r) = us_id enrolled_user"
proof -
  have at: "account_at ''ana@x.io'' enrolled_db enrolled_user" by code_simp
  have "us_mfa_enabled enrolled_user" "us_status enrolled_user = ''active''" "gp_email_verified demo_profile"
    "normalize_email (gp_email demo_profile) = Inr ''ana@x.io''" "google_linked enrolled_user (gp_sub demo_profile) enrolled_db"
    "au_cache_up (ac_auth enrolled_db)" "map_of (ac_states enrolled_db) ''st'' = Some (''/home'', seconds 600)" "(0::int) < seconds 600"
    "filter (\<lambda>t. tn_id t = us_tenant enrolled_user) (ac_tenants enrolled_db) = [demo_org demo_tenant]"
    by code_simp+
  then show ?thesis
    using google_skips_second_factor [OF at, where google = "\<lambda>_. Some demo_profile" and code_text = "''code''" and state = "''st''" and lib = demo_lib and fr = demo_fresh and now = 0]
    by simp
qed

section \<open>One address, two organisations\<close>

lemma accept_Inr:
  assumes "accept_invitation lib now user token full_name hash db = (Inr (e, role), db')"
  obtains tenant i l where "pending_invitation lib now token db = Inr (tenant, i)" "iv_email i = e" "role = role_name_of tenant (iv_role i) db"
    "filter (is_member tenant e) (ac_users db) = []" "user \<notin> us_id ` set (ac_users db)"
    "db' = record_log l (db\<lparr>ac_users := ac_users db @ [(new_user now user tenant e (take 200 (py_strip full_name)) hash)
          \<lparr>us_status := ''active'', us_email_verified := Some now\<rparr>],
        ac_user_roles := ac_user_roles db @ (case iv_role i of None \<Rightarrow> [] | Some r \<Rightarrow> [\<lparr>ur_tenant = tenant, ur_user = user, ur_role = r\<rparr>]),
        ac_invitations := set_row iv_id (i\<lparr>iv_accepted := Some now\<rparr>) (ac_invitations db)\<rparr>)"
proof (cases "pending_invitation lib now token db")
  case (Inr p)
  obtain tenant i where p: "p = (tenant, i)" by (cases p)
  from assms Inr p that [of tenant i] show ?thesis unfolding accept_invitation_def by (auto simp: Let_def split: if_splits)
qed (use assms in \<open>simp add: accept_invitation_def\<close>)

text \<open>
  C37. Accepting an invitation with an address that already has an account in another organisation makes that address
  unusable: sign-in, sign-up and password recovery fail on it with a server error from then on, for both accounts.
\<close>

theorem second_account_blocks_address:
  assumes "accept_invitation lib now user token full_name hash db = (Inr (e, role), db')"
    and "v \<in> set (ac_users db)" and "live_email e v" and "normalize_email email = Inr e"
  shows "fst (login lib2 now2 fr email password db') = Inl Multiple_results
     \<and> fst (forgot_password lib2 now2 secret email db') = Inl Multiple_results
     \<and> (validate_password (Some e) (Some name2) password = [] \<longrightarrow> fst (signup lib2 now2 sf email password name2 organisation db') = Inl Multiple_results)"
proof -
  obtain n where users: "ac_users db' = ac_users db @ [n]" and n: "live_email e n"
    using assms(1) by (rule accept_Inr) (auto simp: record_log_def live_email_def new_user_def)
  have "filter (live_email e) (ac_users db) \<noteq> []" using assms(2,3) by (auto simp: filter_empty_conv)
  then have "2 \<le> length (filter (live_email e) (ac_users db'))" using users n by (cases "filter (live_email e) (ac_users db)") auto
  then have "one_or_none (filter (live_email e) (ac_users db')) = Inl Multiple_results" by (rule one_or_none_many)
  then show ?thesis using assms(4) by (simp add: login_def login_resolve_def forgot_password_def signup_def)
qed

definition invited_db :: accounts where
  "invited_db = demo_db\<lparr>ac_roles := [\<lparr>rl_id = ''r'', rl_tenant = other_tenant, rl_name = ''member''\<rparr>],
     ac_invitations := [\<lparr>iv_id = ''i'', iv_tenant = other_tenant, iv_email = ''ana@x.io'', iv_role = Some ''r'', iv_hash = other_tenant @ ''.s'',
       iv_invited_by = None, iv_created = 0, iv_expires = seconds 9, iv_accepted = None, iv_revoked = None\<rparr>]\<rparr>"

theorem second_account_blocks_address_witness:
  "fst (login demo_lib 0 demo_fresh ''ana@x.io'' ''right'' (snd (accept_invitation demo_lib 0 ''u2'' (other_tenant @ ''.s'') ''Ana'' ''h'' invited_db))) = Inl Multiple_results"
proof -
  have "fst (accept_invitation demo_lib 0 ''u2'' (other_tenant @ ''.s'') ''Ana'' ''h'' invited_db) = Inr (''ana@x.io'', Some ''member'')" by code_simp
  then have eq: "accept_invitation demo_lib 0 ''u2'' (other_tenant @ ''.s'') ''Ana'' ''h'' invited_db
      = (Inr (''ana@x.io'', Some ''member''), snd (accept_invitation demo_lib 0 ''u2'' (other_tenant @ ''.s'') ''Ana'' ''h'' invited_db))"
    by (simp add: prod_eq_iff)
  have "demo_user \<in> set (ac_users invited_db)" by (simp add: invited_db_def demo_db_def)
  moreover have "live_email ''ana@x.io'' demo_user" "normalize_email ''ana@x.io'' = Inr ''ana@x.io''" by code_simp+
  ultimately show ?thesis using second_account_blocks_address [OF eq] by blast
qed

end
