(* ===== verification/Accounts_Links.thy ===== *)
theory Accounts_Links
  imports Accounts_Safety
begin

text \<open>
  Links that work once. The operations of \<open>Accounts\<close> and \<open>Registration\<close> are the steps of a transition system; a table
  whose rows are only ever settled, never reopened, is the contract \<open>settled_table\<close>, kept by the confirmation links,
  the reset links, the invitations and the roles.
\<close>

section \<open>Tables whose rows only settle\<close>

locale settled_table =
  fixes ok :: "'s \<Rightarrow> bool"
    and step :: "'s \<Rightarrow> 's \<Rightarrow> bool"
    and rows :: "'s \<Rightarrow> 'r list"
    and key :: "'r \<Rightarrow> 'k"
    and core :: "'r \<Rightarrow> 'c"
    and settled :: "'r \<Rightarrow> bool"
  assumes ok_step: "ok s \<Longrightarrow> step s s' \<Longrightarrow> ok s'"
    and keys: "ok s \<Longrightarrow> distinct (map key (rows s))"
    and kept: "ok s \<Longrightarrow> step s s' \<Longrightarrow> r \<in> set (rows s) \<Longrightarrow>
      \<exists>r'\<in>set (rows s'). key r' = key r \<and> core r' = core r \<and> (settled r \<longrightarrow> settled r')"
begin

lemma ok_steps: "step\<^sup>*\<^sup>* s s' \<Longrightarrow> ok s \<Longrightarrow> ok s'"
  by (induction rule: rtranclp_induct) (auto intro: ok_step)

lemma kept_steps:
  assumes "step\<^sup>*\<^sup>* s s'" and "ok s" and "r \<in> set (rows s)"
  shows "\<exists>r'\<in>set (rows s'). key r' = key r \<and> core r' = core r \<and> (settled r \<longrightarrow> settled r')"
  using assms
proof (induction rule: rtranclp_induct)
  case (step s' s'')
  then obtain r' where r': "r' \<in> set (rows s')" "key r' = key r" "core r' = core r" "settled r \<longrightarrow> settled r'" by blast
  from kept [OF ok_steps [OF step.hyps(1) step.prems(1)] step.hyps(2) r'(1)] show ?case using r' by metis
qed auto

text \<open>Whatever row carries the key later is the same row, and settled if it was.\<close>

lemma same_row:
  assumes "step\<^sup>*\<^sup>* s s'" and "ok s" and "r \<in> set (rows s)" and "r' \<in> set (rows s')" and "key r' = key r"
  shows "core r' = core r \<and> (settled r \<longrightarrow> settled r')"
proof -
  obtain r2 where "r2 \<in> set (rows s')" "key r2 = key r" "core r2 = core r" "settled r \<longrightarrow> settled r2"
    using kept_steps [OF assms(1-3)] by blast
  moreover from this have "r2 = r'" using assms(4,5) keys [OF ok_steps [OF assms(1,2)]] by (metis distinct_map inj_onD)
  ultimately show ?thesis by simp
qed

lemma lookup_later:
  assumes "step\<^sup>*\<^sup>* s s'" and "ok s" and "r \<in> set (rows s)" and "\<And>x. P x \<Longrightarrow> key x = key r" and "\<And>x. key x = key r \<Longrightarrow> core x = core r \<Longrightarrow> P x"
  shows "\<exists>r'. filter P (rows s') = [r'] \<and> key r' = key r \<and> core r' = core r \<and> (settled r \<longrightarrow> settled r')"
proof -
  obtain r' where r': "r' \<in> set (rows s')" "key r' = key r" "core r' = core r" "settled r \<longrightarrow> settled r'"
    using kept_steps [OF assms(1-3)] by blast
  have "filter P (rows s') = [r']"
  proof (rule filter_unique_row [where key = key, OF r'(1) keys [OF ok_steps [OF assms(1,2)]]])
    show "key x = key r'" if "P x" for x using assms(4) [OF that] r'(2) by simp
    show "P r'" by (rule assms(5) [OF r'(2,3)])
  qed
  with r' show ?thesis by blast
qed

end

section \<open>Steps\<close>

text \<open>
  Phase two of a sign-in may act on any earlier reading, and the session component may change its own tables at any time.
\<close>

inductive account_step :: "auth_lib \<Rightarrow> accounts \<Rightarrow> accounts \<Rightarrow> bool" for lib where
  sessions: "account_step lib db (db\<lparr>ac_auth := a\<rparr>)"
| sign_in: "account_step lib db (snd (login_act lib now fr password s db))"
| challenge: "account_step lib db (snd (mfa_verify_challenge lib now fr allowed token code_text db))"
| step_up: "account_step lib db (snd (mfa_step_up lib now fr allowed tenant user code_text db))"
| enrol: "account_step lib db (snd (complete_enrolment lib now rf tenant user pending code_text db))"
| regenerate: "account_step lib db (snd (regenerate_recovery_codes lib now rf tenant user code_text db))"
| disable: "account_step lib db (snd (disable_mfa lib now tenant user password code_text db))"
| google_begin: "account_step lib db (snd (oauth_begin configured now state redirect_to db))"
| google: "account_step lib db (snd (google_callback lib configured goog now fr allowed1 cancelled code_text state db))"
| create_key: "account_step lib db (snd (create_api_key lib key_id secret tenant user name scopes granted db))"
| revoke_key: "account_step lib db (snd (revoke_api_key now tenant user key_id db))"
| sign_up: "account_step lib db (snd (signup lib now sf email password full_name organisation db))"
| confirm: "account_step lib db (snd (verify_email lib now token db))"
| forgot: "account_step lib db (snd (forgot_password lib now secret email db))"
| reset: "account_step lib db (snd (reset_password lib now salt token password db))"
| invite: "account_step lib db (snd (invite_user lib now vf tenant actor actor_roles email role db))"
| revoke: "account_step lib db (snd (revoke_invitation now tenant actor invitation_id db))"
| accept: "account_step lib db (snd (accept_invitation lib now user token full_name password_hash db))"

text \<open>Primary and unique keys, and the foreign key from grants to users.\<close>

definition accounts_ok :: "accounts \<Rightarrow> bool" where
  "accounts_ok db \<longleftrightarrow> distinct (map us_id (ac_users db)) \<and> distinct (map ve_hash (ac_verifications db)) \<and> distinct (map pr_hash (ac_resets db))
     \<and> distinct (map iv_id (ac_invitations db)) \<and> distinct (map iv_hash (ac_invitations db)) \<and> distinct (map rl_id (ac_roles db))
     \<and> ur_user ` set (ac_user_roles db) \<subseteq> us_id ` set (ac_users db)"

definition same_links :: "accounts \<Rightarrow> accounts \<Rightarrow> bool" where
  "same_links db db' \<longleftrightarrow> ac_verifications db' = ac_verifications db \<and> ac_resets db' = ac_resets db \<and> ac_invitations db' = ac_invitations db
     \<and> ac_roles db' = ac_roles db \<and> ac_user_roles db' = ac_user_roles db \<and> map us_id (ac_users db') = map us_id (ac_users db)"

lemma same_links_simps [simp]:
  "same_links db db"
  "same_links db (record_log l db') = same_links db db'"
  "same_links db (put_user u db') = same_links db db'"
  "same_links db (db'\<lparr>ac_auth := a\<rparr>) = same_links db db'"
  "same_links db (db'\<lparr>ac_challenges := c\<rparr>) = same_links db db'"
  "same_links db (db'\<lparr>ac_states := st\<rparr>) = same_links db db'"
  "same_links db (db'\<lparr>ac_google := g\<rparr>) = same_links db db'"
  "same_links db (db'\<lparr>ac_keys := k\<rparr>) = same_links db db'"
  "same_links db (revoke_user_tokens now reason tenant user db') = same_links db db'"
  by (simp_all add: same_links_def record_log_def put_user_def revoke_user_tokens_def)

lemma same_links_trans: "same_links a b \<Longrightarrow> same_links b c \<Longrightarrow> same_links a c"
  by (simp add: same_links_def)

lemma issue_same: "same_links db (snd (issue_auth_session lib now fr user t roles email name mfa db))"
  by (simp add: issue_auth_session_def split: prod.split)

lemma issue_same_Pair: "issue_auth_session lib now fr user t roles email name mfa db = (r, db') \<Longrightarrow> same_links db db'"
  using issue_same [of db lib now fr user t roles email name mfa] by simp

lemma login_act_same: "same_links db (snd (login_act lib now fr password s db))"
proof -
  have "same_links db (snd (issue_auth_session lib now fr user t roles email name mfa (put_user v db)))" for user t roles email name mfa v
    using same_links_trans [OF _ issue_same] by simp
  then show ?thesis
    by (simp add: login_act_def create_mfa_challenge_def Let_def split_beta split: sum.split option.split)
qed

lemma consume_recovery_same: "same_links db (snd (consume_recovery_code lib tenant user code_text db))"
  by (simp add: consume_recovery_code_def Let_def split: sum.split option.split)

lemma second_factor_same: "same_links db (snd (second_factor lib now tenant user code_text db))"
  by (simp add: second_factor_def consume_recovery_same split: sum.split bool.split)

lemma open_for_same: "same_links db (snd (open_for lib now fr mfa tenant user db))"
  by (simp add: open_for_def Let_def split_beta issue_same split: sum.split)

lemma mfa_verify_same: "same_links db (snd (mfa_verify_challenge lib now fr allowed token code_text db))"
proof -
  have c: "same_links db (snd (consume_mfa_challenge now token db))" by (simp add: consume_mfa_challenge_def)
  have f: "same_links db db1 \<Longrightarrow> same_links db (snd (second_factor lib now tenant user code_text db1))" for tenant user db1
    using same_links_trans [OF _ second_factor_same] by blast
  have o: "same_links db db1 \<Longrightarrow> same_links db (snd (open_for lib now fr mfa tenant user db1))" for mfa tenant user db1
    using same_links_trans [OF _ open_for_same] by blast
  show ?thesis unfolding mfa_verify_challenge_def
    by (auto split: prod.splits sum.splits bool.splits) (metis c f o snd_conv)+
qed

lemma step_up_same: "same_links db (snd (mfa_step_up lib now fr allowed tenant user code_text db))"
  by (simp add: mfa_step_up_def open_for_same split: sum.split bool.split)

lemma enrol_same: "same_links db (snd (complete_enrolment lib now rf tenant user pending code_text db))"
  by (simp add: complete_enrolment_def Let_def split: option.split sum.split bool.split)

lemma regenerate_same: "same_links db (snd (regenerate_recovery_codes lib now rf tenant user code_text db))"
  by (simp add: regenerate_recovery_codes_def Let_def split: sum.split bool.split)

lemma disable_same: "same_links db (snd (disable_mfa lib now tenant user password code_text db))"
proof -
  have "second_factor lib now tenant user code_text db = (r, db1) \<Longrightarrow> same_links db db1" for r db1
    using second_factor_same [of db lib now tenant user code_text] by simp
  then show ?thesis by (auto simp: disable_mfa_def split: sum.split prod.split bool.split)
qed

lemma oauth_begin_same: "same_links db (snd (oauth_begin configured now state redirect_to db))"
  by (simp add: oauth_begin_def)

lemma resolve_google_same: "same_links db (snd (resolve_google_user p db))"
  by (simp add: resolve_google_user_def split: sum.split option.split)

lemma google_same: "same_links db (snd (google_callback lib configured goog now fr allowed cancelled code_text state db))"
proof -
  have c: "same_links db (snd (consume_state now state db))" by (simp add: consume_state_def)
  have g: "same_links db db1 \<Longrightarrow> same_links db (snd (resolve_google_user p db1))" for p db1
    using same_links_trans [OF _ resolve_google_same] by blast
  have i: "same_links db db1 \<Longrightarrow> same_links db (snd (issue_auth_session lib now fr user t roles email name mfa db1))" for user t roles email name mfa db1
    using same_links_trans [OF _ issue_same] by blast
  show ?thesis unfolding google_callback_def
    by (auto simp: Let_def split: prod.splits sum.splits) (metis c g i snd_conv)+
qed

lemma create_key_same: "same_links db (snd (create_api_key lib key_id secret tenant user name scopes granted db))"
  by (simp add: create_api_key_def Let_def)

lemma revoke_key_same: "same_links db (snd (revoke_api_key now tenant user key_id db))"
  by (simp add: revoke_api_key_def split: sum.split option.split)

lemmas same_ops = login_act_same mfa_verify_same step_up_same enrol_same regenerate_same disable_same oauth_begin_same google_same
  create_key_same revoke_key_same

section \<open>What the other operations do to the links\<close>

text \<open>
  Every operation that changes a link either appends a row with a new key or settles one row in place. This
  is stated once: \<open>moved key core settled old new\<close>.
\<close>

definition moved :: "('r \<Rightarrow> 'k) \<Rightarrow> ('r \<Rightarrow> 'c) \<Rightarrow> ('r \<Rightarrow> bool) \<Rightarrow> 'r list \<Rightarrow> 'r list \<Rightarrow> bool" where
  "moved key core settled old new \<longleftrightarrow> distinct (map key new)
     \<and> (\<forall>r\<in>set old. \<exists>r'\<in>set new. key r' = key r \<and> core r' = core r \<and> (settled r \<longrightarrow> settled r'))"

lemma moved_refl: "distinct (map key rows) \<Longrightarrow> moved key core settled rows rows"
  by (auto simp: moved_def)

lemma moved_append: "distinct (map key rows) \<Longrightarrow> key r \<notin> key ` set rows \<Longrightarrow> moved key core settled rows (rows @ [r])"
  by (auto simp: moved_def)

lemma moved_trans: "moved key core settled a b \<Longrightarrow> moved key core settled b c \<Longrightarrow> moved key core settled a c"
  by (fastforce simp: moved_def)

lemma set_row_replaces:
  assumes "r \<in> set rows" and "distinct (map k rows)" and "k r' = k r" and "x \<in> set rows"
  shows "x \<noteq> r \<and> x \<in> set (set_row k r' rows) \<or> x = r \<and> r' \<in> set (set_row k r' rows)"
  using assms by (auto simp: set_row_def distinct_map inj_on_def)

lemma map_set_row:
  assumes "r \<in> set rows" and "distinct (map k rows)" and "k r' = k r" and "f r' = f r"
  shows "map f (set_row k r' rows) = map f rows"
  using assms by (auto simp: set_row_def distinct_map inj_on_def)

lemma moved_set_row:
  assumes "r \<in> set rows" and "distinct (map k rows)" and "k r' = k r" and "distinct (map key rows)" and "key r' = key r"
    and "core r' = core r" and "settled r \<longrightarrow> settled r'"
  shows "moved key core settled rows (set_row k r' rows)"
  unfolding moved_def
proof (intro conjI ballI)
  show "distinct (map key (set_row k r' rows))" using map_set_row [OF assms(1-3), of key] assms(4,5) by simp
  show "\<exists>x'\<in>set (set_row k r' rows). key x' = key x \<and> core x' = core x \<and> (settled x \<longrightarrow> settled x')" if "x \<in> set rows" for x
    using set_row_replaces [OF assms(1-3) that] assms(5-7) by blast
qed

definition pr_settled :: "PasswordReset \<Rightarrow> bool" where "pr_settled r \<longleftrightarrow> pr_used r \<noteq> None"
definition ve_settled :: "EmailVerification \<Rightarrow> bool" where "ve_settled v \<longleftrightarrow> ve_used v \<noteq> None"
definition iv_settled :: "Invitation \<Rightarrow> bool" where "iv_settled i \<longleftrightarrow> iv_accepted i \<noteq> None \<or> iv_revoked i \<noteq> None"

definition links_move :: "accounts \<Rightarrow> accounts \<Rightarrow> bool" where
  "links_move db db' \<longleftrightarrow> moved ve_hash (\<lambda>v. (ve_tenant v, ve_user v)) ve_settled (ac_verifications db) (ac_verifications db')
     \<and> moved pr_hash (\<lambda>r. (pr_tenant r, pr_user r)) pr_settled (ac_resets db) (ac_resets db')
     \<and> moved iv_hash (\<lambda>i. (iv_tenant i, iv_email i, iv_role i)) iv_settled (ac_invitations db) (ac_invitations db')
     \<and> moved rl_id (\<lambda>r. (rl_tenant r, rl_name r)) (\<lambda>_. False) (ac_roles db) (ac_roles db')"

lemma links_move_refl: "accounts_ok db \<Longrightarrow> links_move db db"
  by (simp add: links_move_def accounts_ok_def moved_refl)

lemma links_move_trans: "links_move a b \<Longrightarrow> links_move b c \<Longrightarrow> links_move a c"
  unfolding links_move_def by (elim conjE, intro conjI) (erule (1) moved_trans)+

lemma same_links_ok: "accounts_ok db \<Longrightarrow> same_links db db' \<Longrightarrow> accounts_ok db' \<and> links_move db db'"
proof -
  assume ok: "accounts_ok db" and same: "same_links db db'"
  have "us_id ` set (ac_users db') = us_id ` set (ac_users db)" using same unfolding same_links_def by (metis list.set_map)
  then show ?thesis using ok same by (simp add: accounts_ok_def same_links_def links_move_def moved_refl)
qed

lemma links_same_fields:
  "links_move db (record_log l db') = links_move db db'"
  "links_move db (put_user u db') = links_move db db'"
  "links_move db (revoke_user_tokens now reason tenant user db') = links_move db db'"
  "accounts_ok (record_log l db') = accounts_ok db'"
  "accounts_ok (put_user u db') = accounts_ok db'"
  "accounts_ok (revoke_user_tokens now reason tenant user db') = accounts_ok db'"
proof -
  have "us_id ` set (set_row us_id u us) = us_id ` set us" for us by (metis keys_set_row list.set_map)
  then show "accounts_ok (put_user u db') = accounts_ok db'" by (simp add: accounts_ok_def put_user_def)
qed (simp_all add: links_move_def accounts_ok_def record_log_def put_user_def revoke_user_tokens_def)

lemma member_of_filter: "filter P rows = [r] \<Longrightarrow> r \<in> set rows \<and> P r"
  by (metis filter_set list.set_intros(1) mem_Collect_eq set_filter)

definition safe_step :: "accounts \<Rightarrow> accounts \<Rightarrow> bool" where
  "safe_step db db' \<longleftrightarrow> accounts_ok db' \<and> links_move db db'"

lemma safe_step_simps [simp]:
  "safe_step db (record_log l db') = safe_step db db'"
  "safe_step db (put_user u db') = safe_step db db'"
  "safe_step db (revoke_user_tokens now reason tenant user db') = safe_step db db'"
  by (simp_all add: safe_step_def links_same_fields)

lemma safe_step_refl: "accounts_ok db \<Longrightarrow> safe_step db db"
  by (simp add: safe_step_def links_move_refl)

lemma safe_step_trans: "safe_step a b \<Longrightarrow> safe_step b c \<Longrightarrow> safe_step a c"
  using links_move_trans by (auto simp: safe_step_def)

lemma safe_tenants: "accounts_ok db \<Longrightarrow> safe_step db (db\<lparr>ac_tenants := t\<rparr>)"
  using links_move_refl [of db] by (simp add: safe_step_def accounts_ok_def links_move_def)

lemma safe_verifications:
  "accounts_ok db \<Longrightarrow> moved ve_hash (\<lambda>v. (ve_tenant v, ve_user v)) ve_settled (ac_verifications db) vs \<Longrightarrow> safe_step db (db\<lparr>ac_verifications := vs\<rparr>)"
  using links_move_refl [of db] by (simp add: safe_step_def accounts_ok_def links_move_def moved_def)

lemma safe_resets:
  "accounts_ok db \<Longrightarrow> moved pr_hash (\<lambda>r. (pr_tenant r, pr_user r)) pr_settled (ac_resets db) rs \<Longrightarrow> safe_step db (db\<lparr>ac_resets := rs\<rparr>)"
  using links_move_refl [of db] by (simp add: safe_step_def accounts_ok_def links_move_def moved_def)

lemma safe_invitations:
  "accounts_ok db \<Longrightarrow> moved iv_hash (\<lambda>i. (iv_tenant i, iv_email i, iv_role i)) iv_settled (ac_invitations db) is \<Longrightarrow> distinct (map iv_id is)
     \<Longrightarrow> safe_step db (db\<lparr>ac_invitations := is\<rparr>)"
  using links_move_refl [of db] by (simp add: safe_step_def accounts_ok_def links_move_def moved_def)

lemma safe_role:
  "accounts_ok db \<Longrightarrow> rl_id r \<notin> rl_id ` set (ac_roles db) \<Longrightarrow> safe_step db (db\<lparr>ac_roles := ac_roles db @ [r], ac_role_permissions := ps\<rparr>)"
  using links_move_refl [of db] moved_append [of rl_id "ac_roles db" r] by (simp add: safe_step_def accounts_ok_def links_move_def)

lemma safe_user:
  "accounts_ok db \<Longrightarrow> us_id u \<notin> us_id ` set (ac_users db) \<Longrightarrow> ur_user ` set urs \<subseteq> {us_id u}
     \<Longrightarrow> safe_step db (db\<lparr>ac_users := ac_users db @ [u], ac_user_roles := ac_user_roles db @ urs\<rparr>)"
  using links_move_refl [of db] by (auto simp: safe_step_def accounts_ok_def links_move_def)

lemma safe_settle_invitation:
  assumes "accounts_ok db" and "i \<in> set (ac_invitations db)" and "iv_id i' = iv_id i" and "iv_hash i' = iv_hash i" and "iv_tenant i' = iv_tenant i"
    and "iv_email i' = iv_email i" and "iv_role i' = iv_role i" and "iv_settled i'"
  shows "safe_step db (db\<lparr>ac_invitations := set_row iv_id i' (ac_invitations db)\<rparr>)"
  using assms by (intro safe_invitations moved_set_row [where r = i]) (auto simp: accounts_ok_def)

lemma verify_email_safe:
  assumes "accounts_ok db"
  shows "safe_step db (snd (verify_email lib now token db))"
proof -
  have "safe_step db (db\<lparr>ac_verifications := set_row ve_hash (v\<lparr>ve_used := Some now\<rparr>) (ac_verifications db)\<rparr>)"
    if "filter P (ac_verifications db) = [v]" for P v
    using assms member_of_filter [OF that]
    by (intro safe_verifications moved_set_row [where r = v]) (auto simp: accounts_ok_def ve_settled_def)
  then show ?thesis using safe_step_refl [OF assms]
    by (auto simp: verify_email_def rbind_eq_Inr one_or_none_Some Let_def split: sum.splits option.splits if_splits)
qed

lemma forgot_safe:
  assumes "accounts_ok db"
  shows "safe_step db (snd (forgot_password lib now secret email db))"
proof -
  have "safe_step db (db\<lparr>ac_resets := ac_resets db @ [r]\<rparr>)" if "pr_hash r \<notin> pr_hash ` set (ac_resets db)" for r
    using assms that by (intro safe_resets moved_append) (simp_all add: accounts_ok_def)
  then show ?thesis using safe_step_refl [OF assms]
    by (simp add: forgot_password_def split_beta Let_def split: sum.split option.split)
qed

lemma reset_checks_Inr:
  assumes "reset_checks lib now token new_password db = Inr (tenant, rec, user)"
  shows "split_token lib token = Inr (tenant, pr_hash rec) \<and> pr_tenant rec = tenant \<and> rec \<in> set (ac_resets db) \<and> pr_used rec = None \<and> now < pr_expires rec
     \<and> filter (user_in tenant (pr_user rec)) (ac_users db) = [user]
     \<and> validate_password (Some (us_email user)) (Some (us_full_name user)) new_password = []"
proof (cases "split_token lib token")
  case (Inr p)
  obtain t th where p: "p = (t, th)" by (cases p)
  show ?thesis
  proof (cases "filter (\<lambda>r. pr_tenant r = t \<and> pr_hash r = th) (ac_resets db)" rule: one_or_none.cases)
    case (2 r)
    then have r: "pr_used r = None" "now < pr_expires r" using assms Inr p by (auto simp: reset_checks_def split: if_splits)
    show ?thesis
    proof (cases "filter (user_in t (pr_user r)) (ac_users db)" rule: one_or_none.cases)
      case (2 u)
      then have "t = tenant" "r = rec" "u = user" "validate_password (Some (us_email u)) (Some (us_full_name u)) new_password = []"
        using assms Inr p \<open>filter _ (ac_resets db) = [r]\<close> r by (simp_all add: reset_checks_def Let_def split: if_splits)
      then show ?thesis using Inr p r 2 member_of_filter [OF \<open>filter _ (ac_resets db) = [r]\<close>] by simp
    qed (use assms Inr p 2 r in \<open>simp_all add: reset_checks_def\<close>)
  qed (use assms Inr p in \<open>simp_all add: reset_checks_def\<close>)
qed (use assms in \<open>simp add: reset_checks_def\<close>)

lemma reset_safe:
  assumes "accounts_ok db"
  shows "safe_step db (snd (reset_password lib now salt token new_password db))"
proof (cases "reset_checks lib now token new_password db")
  case (Inr p)
  obtain tenant rec user where p: "p = (tenant, rec, user)" by (cases p)
  have "safe_step db (db\<lparr>ac_resets := set_row pr_hash (rec\<lparr>pr_used := Some now\<rparr>) (ac_resets db)\<rparr>)"
    using assms reset_checks_Inr [of lib now token new_password db tenant rec user] Inr p
    by (intro safe_resets moved_set_row [where r = rec]) (auto simp: accounts_ok_def pr_settled_def)
  then show ?thesis using Inr p by (simp add: reset_password_def)
qed (use assms safe_step_refl in \<open>simp add: reset_password_def\<close>)

lemma revoke_safe:
  assumes "accounts_ok db"
  shows "safe_step db (snd (revoke_invitation now tenant actor invitation_id db))"
proof -
  have "safe_step db (db\<lparr>ac_invitations := set_row iv_id (i\<lparr>iv_revoked := Some now\<rparr>) (ac_invitations db)\<rparr>)"
    if "filter P (ac_invitations db) = [i]" for P i
    using assms member_of_filter [OF that] by (intro safe_settle_invitation [where i = i]) (auto simp: iv_settled_def)
  then show ?thesis using safe_step_refl [OF assms]
    by (auto simp: revoke_invitation_def one_or_none_Some split: sum.splits option.splits)
qed

lemma signup_owner_safe:
  assumes "accounts_ok db" and "sf_role sf \<notin> rl_id ` set (ac_roles db)" and "sf_user sf \<notin> us_id ` set (ac_users db)"
    and "snd (new_token lib (sf_tenant sf) (sf_secret sf)) \<notin> ve_hash ` set (ac_verifications db)"
  shows "safe_step db (signup_owner lib now sf normalized password full_name db)"
proof -
  define r where "r = \<lparr>rl_id = sf_role sf, rl_tenant = sf_tenant sf, rl_name = role_value OWNER\<rparr>"
  define db1 where "db1 = db\<lparr>ac_roles := ac_roles db @ [r], ac_role_permissions := ac_role_permissions db @ permission_rows (sf_tenant sf) (sf_role sf) OWNER\<rparr>"
  define u where "u = (new_user now (sf_user sf) (sf_tenant sf) normalized (take 200 (py_strip full_name)) (argon2_hash lib (sf_salt sf) password))\<lparr>us_is_owner := True\<rparr>"
  define ur where "ur = \<lparr>ur_tenant = sf_tenant sf, ur_user = sf_user sf, ur_role = sf_role sf\<rparr>"
  define db2 where "db2 = db1\<lparr>ac_users := ac_users db1 @ [u], ac_user_roles := ac_user_roles db1 @ [ur]\<rparr>"
  define v where "v = \<lparr>ve_tenant = sf_tenant sf, ve_user = sf_user sf, ve_email = normalized,
     ve_hash = snd (new_token lib (sf_tenant sf) (sf_secret sf)), ve_expires = now + VERIFICATION_TTL, ve_used = None\<rparr>"
  have 1: "safe_step db db1" unfolding db1_def using assms(1,2) by (intro safe_role) (simp_all add: r_def)
  then have 2: "safe_step db1 db2" unfolding db2_def using assms(3)
    by (intro safe_user) (simp_all add: safe_step_def u_def ur_def new_user_def, simp add: db1_def)
  then have 3: "safe_step db2 (db2\<lparr>ac_verifications := ac_verifications db2 @ [v]\<rparr>)" using assms(4)
    by (intro safe_verifications moved_append) (simp_all add: safe_step_def accounts_ok_def v_def, simp add: db2_def db1_def)
  have "signup_owner lib now sf normalized password full_name db
    = record_log (anonymous (log_of ''user.created'' (''user'', sf_user sf) (sf_tenant sf) None [(''status'', JStr ''invited''), (''role'', JStr (role_value OWNER))]))
        (db2\<lparr>ac_verifications := ac_verifications db2 @ [v]\<rparr>)"
    by (simp add: signup_owner_def Let_def db2_def db1_def r_def u_def ur_def v_def)
  then show ?thesis using safe_step_trans [OF safe_step_trans [OF 1 2] 3] by simp
qed

lemma signup_safe:
  assumes "accounts_ok db"
  shows "safe_step db (snd (signup lib now sf email password full_name organisation db))"
proof -
  have t: "safe_step db (db\<lparr>ac_tenants := ts\<rparr>)" for ts by (rule safe_tenants [OF assms])
  have "safe_step db (signup_owner lib now sf normalized password full_name (db\<lparr>ac_tenants := ts\<rparr>))"
    if "sf_role sf \<notin> rl_id ` set (ac_roles db)" "sf_user sf \<notin> us_id ` set (ac_users db)"
      "snd (new_token lib (sf_tenant sf) (sf_secret sf)) \<notin> ve_hash ` set (ac_verifications db)" for normalized ts
    using that t [of ts] by (intro safe_step_trans [OF t [of ts] signup_owner_safe]) (simp_all add: safe_step_def)
  then show ?thesis using t safe_step_refl [OF assms] by (simp add: signup_def Let_def split: sum.split option.split)
qed

lemma role_row_Inr:
  assumes "role_row fresh_id tenant role db = (Inr role_id, db')" and "accounts_ok db"
  shows "safe_step db db' \<and> ac_invitations db' = ac_invitations db
     \<and> (\<exists>r\<in>set (ac_roles db'). rl_id r = role_id \<and> rl_tenant r = tenant \<and> rl_name r = role_value role)"
proof (cases "filter (\<lambda>r. rl_tenant r = tenant \<and> rl_name r = role_value role) (ac_roles db)" rule: one_or_none.cases)
  case 1
  then show ?thesis using assms safe_role [OF assms(2)] by (auto simp: role_row_def split: if_splits)
next
  case (2 r)
  then show ?thesis using assms safe_step_refl member_of_filter [OF 2] by (auto simp: role_row_def)
qed (use assms in \<open>simp add: role_row_def\<close>)

lemma invite_write_Inr:
  assumes "invite_write lib now vf tenant actor normalized requested expired db = (Inr iss, db')" and "accounts_ok db"
    and "case expired of None \<Rightarrow> True | Some i \<Rightarrow> i \<in> set (ac_invitations db)"
  shows "safe_step db db' \<and> ii_token iss = tenant @ ''.'' @ if_secret vf \<and> ii_email iss = normalized \<and> ii_role iss = requested
     \<and> (\<exists>i\<in>set (ac_invitations db'). iv_hash i = sha256_hex lib (ii_token iss) \<and> iv_tenant i = tenant \<and> iv_email i = normalized
          \<and> (\<exists>r\<in>set (ac_roles db'). iv_role i = Some (rl_id r) \<and> rl_tenant r = tenant \<and> rl_name r = role_value requested))"
proof -
  define db1 where "db1 = (case expired of None \<Rightarrow> db | Some i \<Rightarrow> db\<lparr>ac_invitations := set_row iv_id (i\<lparr>iv_revoked := Some now\<rparr>) (ac_invitations db)\<rparr>)"
  have 1: "safe_step db db1" using assms(2,3) unfolding db1_def
    by (cases expired) (auto intro!: safe_step_refl safe_settle_invitation simp: iv_settled_def)
  have hashes: "iv_hash ` set (ac_invitations db1) = iv_hash ` set (ac_invitations db)" "iv_id ` set (ac_invitations db1) = iv_id ` set (ac_invitations db)"
  proof -
    have "map iv_hash (ac_invitations db1) = map iv_hash (ac_invitations db)" "map iv_id (ac_invitations db1) = map iv_id (ac_invitations db)"
      using assms(2,3) unfolding db1_def by (cases expired; simp add: map_set_row accounts_ok_def)+
    then show "iv_hash ` set (ac_invitations db1) = iv_hash ` set (ac_invitations db)" "iv_id ` set (ac_invitations db1) = iv_id ` set (ac_invitations db)"
      by (metis list.set_map)+
  qed
  obtain role_id db2 where rr: "role_row (if_role vf) tenant requested db1 = (Inr role_id, db2)"
    using assms(1) by (auto simp: invite_write_def new_token_def db1_def [symmetric] Let_def split: prod.splits sum.splits)
  note r = role_row_Inr [OF rr, OF 1 [unfolded safe_step_def, THEN conjunct1]]
  have new: "if_id vf \<notin> iv_id ` set (ac_invitations db)" "sha256_hex lib (tenant @ ''.'' @ if_secret vf) \<notin> iv_hash ` set (ac_invitations db)"
    using assms(1) rr by (auto simp: invite_write_def new_token_def db1_def [symmetric] Let_def split: if_splits)
  define i where "i = \<lparr>iv_id = if_id vf, iv_tenant = tenant, iv_email = normalized, iv_role = Some role_id, iv_hash = sha256_hex lib (tenant @ ''.'' @ if_secret vf),
    iv_invited_by = Some actor, iv_created = now, iv_expires = now + INVITATION_TTL, iv_accepted = None, iv_revoked = None\<rparr>"
  have 2: "safe_step db2 (db2\<lparr>ac_invitations := ac_invitations db2 @ [i]\<rparr>)"
    using r new hashes by (intro safe_invitations moved_append) (auto simp: safe_step_def accounts_ok_def i_def)
  obtain l where db': "db' = record_log l (db2\<lparr>ac_invitations := ac_invitations db2 @ [i]\<rparr>)"
    and iss: "ii_token iss = tenant @ ''.'' @ if_secret vf" "ii_email iss = normalized" "ii_role iss = requested"
    using assms(1) rr new by (auto simp: invite_write_def new_token_def db1_def [symmetric] Let_def i_def split: if_splits)
  have "safe_step db db'" using safe_step_trans [OF safe_step_trans [OF 1] 2] r db' by simp
  moreover have "i \<in> set (ac_invitations db')" "ac_roles db' = ac_roles db2" by (simp_all add: db' record_log_def)
  ultimately show ?thesis using r iss by (auto simp: i_def intro!: bexI [of _ i])
qed

lemma invite_write_Inl: "fst (invite_write lib now vf tenant actor normalized requested expired db) = Inl e \<Longrightarrow>
    snd (invite_write lib now vf tenant actor normalized requested expired db) = db"
  by (auto simp: invite_write_def new_token_def Let_def split: prod.splits sum.splits if_splits)

lemma invite_cases:
  assumes "invite_user lib now vf tenant actor actor_roles email role db = (Inr iss, db')"
  obtains normalized expired where "normalize_email email = Inr normalized" "Role_of role = Some (ii_role iss)"
    "ii_role iss \<in> set (assignable_roles actor_roles)"
    "case expired of None \<Rightarrow> True | Some i \<Rightarrow> i \<in> set (ac_invitations db)"
    "invite_write lib now vf tenant actor normalized (ii_role iss) expired db = (Inr iss, db')"
proof -
  have role: "ii_role iss = requested" if "invite_write lib now vf tenant actor n requested ex db = (Inr iss, db')" for n requested ex
    using that by (auto simp: invite_write_def new_token_def Let_def split: prod.splits sum.splits if_splits)
  obtain n where n1: "normalize_email email = Inr n" using assms by (cases "normalize_email email") (auto simp: invite_user_def)
  obtain q where n2: "Role_of role = Some q" using assms n1 by (cases "Role_of role") (auto simp: invite_user_def)
  have n3: "q \<in> set (assignable_roles actor_roles)" using assms n1 n2 by (simp add: invite_user_def split: if_splits)
  note n = n1 n2 n3
  show ?thesis
  proof (cases "filter (open_invitation tenant n) (ac_invitations db)" rule: one_or_none.cases)
    case 1
    then have "invite_write lib now vf tenant actor n q None db = (Inr iss, db')" using assms n by (simp add: invite_user_def split: if_splits)
    with role [OF this] n show ?thesis by (intro that [of n None]) simp_all
  next
    case (2 i)
    then have "invite_write lib now vf tenant actor n q (Some i) db = (Inr iss, db')" using assms n by (simp add: invite_user_def split: if_splits)
    with role [OF this] n member_of_filter [OF 2] show ?thesis by (intro that [of n "Some i"]) simp_all
  qed (use assms n in \<open>simp add: invite_user_def split: if_splits\<close>)
qed

lemma invite_safe:
  assumes "accounts_ok db"
  shows "safe_step db (snd (invite_user lib now vf tenant actor actor_roles email role db))"
proof (cases "invite_user lib now vf tenant actor actor_roles email role db")
  case (Pair r db')
  show ?thesis
  proof (cases r)
    case (Inr iss)
    obtain n ex where "case ex of None \<Rightarrow> True | Some i \<Rightarrow> i \<in> set (ac_invitations db)"
      "invite_write lib now vf tenant actor n (ii_role iss) ex db = (Inr iss, db')"
      using Pair Inr by (blast elim: invite_cases)
    then show ?thesis using invite_write_Inr assms Pair by simp
  next
    case (Inl e)
    have "snd (invite_write lib now vf tenant actor n q ex db) = db" if "fst (invite_write lib now vf tenant actor n q ex db) = Inl e" for n q ex
      using that by (rule invite_write_Inl)
    then have "db' = db" using Pair Inl
      by (auto simp: invite_user_def split: sum.splits option.splits if_splits) (metis fst_conv snd_conv)+
    then show ?thesis using Pair safe_step_refl [OF assms] by simp
  qed
qed

lemma pending_Inr:
  assumes "pending_invitation lib now token db = Inr (tenant, i)"
  shows "split_token lib token = Inr (tenant, iv_hash i) \<and> iv_tenant i = tenant \<and> i \<in> set (ac_invitations db) \<and> \<not> iv_settled i \<and> now < iv_expires i"
proof (cases "split_token lib token")
  case (Inr p)
  obtain t th where p: "p = (t, th)" by (cases p)
  show ?thesis
  proof (cases "filter (\<lambda>i. iv_hash i = th \<and> iv_tenant i = t) (ac_invitations db)" rule: one_or_none.cases)
    case (2 j)
    then show ?thesis using assms Inr p member_of_filter [OF 2]
      by (simp add: pending_invitation_def invitation_status_def iv_settled_def split: if_splits)
  qed (use assms Inr p in \<open>simp_all add: pending_invitation_def\<close>)
qed (use assms in \<open>simp add: pending_invitation_def\<close>)

lemma accept_safe:
  assumes "accounts_ok db"
  shows "safe_step db (snd (accept_invitation lib now user token full_name hash db))"
proof (cases "accept_invitation lib now user token full_name hash db")
  case (Pair r db')
  show ?thesis
  proof (cases r)
    case (Inr er)
    obtain e role where er: "er = (e, role)" by (cases er)
    have acc: "accept_invitation lib now user token full_name hash db = (Inr (e, role), db')" using Pair Inr er by simp
    then obtain tenant i l where p: "pending_invitation lib now token db = Inr (tenant, i)" and fresh: "user \<notin> us_id ` set (ac_users db)"
      and db': "db' = record_log l (db\<lparr>ac_users := ac_users db @ [(new_user now user tenant e (take 200 (py_strip full_name)) hash)
          \<lparr>us_status := ''active'', us_email_verified := Some now\<rparr>],
        ac_user_roles := ac_user_roles db @ (case iv_role i of None \<Rightarrow> [] | Some r \<Rightarrow> [\<lparr>ur_tenant = tenant, ur_user = user, ur_role = r\<rparr>]),
        ac_invitations := set_row iv_id (i\<lparr>iv_accepted := Some now\<rparr>) (ac_invitations db)\<rparr>)"
      by (rule accept_Inr)
    define u where "u = (new_user now user tenant e (take 200 (py_strip full_name)) hash)\<lparr>us_status := ''active'', us_email_verified := Some now\<rparr>"
    define urs where "urs = (case iv_role i of None \<Rightarrow> [] | Some r \<Rightarrow> [\<lparr>ur_tenant = tenant, ur_user = user, ur_role = r\<rparr>])"
    define db1 where "db1 = db\<lparr>ac_users := ac_users db @ [u], ac_user_roles := ac_user_roles db @ urs\<rparr>"
    have id: "us_id u = user" by (simp add: u_def new_user_def)
    have 1: "safe_step db db1" unfolding db1_def
    proof (rule safe_user [OF assms])
      show "us_id u \<notin> us_id ` set (ac_users db)" using fresh id by simp
      show "ur_user ` set urs \<subseteq> {us_id u}" using id by (auto simp: urs_def split: option.splits)
    qed
    have "i \<in> set (ac_invitations db1)" using pending_Inr [OF p] by (simp add: db1_def)
    then have "safe_step db1 (db1\<lparr>ac_invitations := set_row iv_id (i\<lparr>iv_accepted := Some now\<rparr>) (ac_invitations db1)\<rparr>)"
      using 1 by (intro safe_settle_invitation [where i = i]) (simp_all add: iv_settled_def safe_step_def)
    then have "safe_step db1 db'" unfolding db' safe_step_simps by (simp add: db1_def u_def [symmetric] urs_def [symmetric])
    with 1 show ?thesis using Pair safe_step_trans by simp
  next
    case (Inl e)
    then have "db' = db" using Pair by (auto simp: accept_invitation_def Let_def split: sum.splits if_splits)
    then show ?thesis using Pair safe_step_refl [OF assms] by simp
  qed
qed

lemma account_step_safe: "account_step lib db db' \<Longrightarrow> accounts_ok db \<Longrightarrow> safe_step db db'"
proof (induction rule: account_step.induct)
  case (sessions db a)
  have "same_links db (db\<lparr>ac_auth := a\<rparr>)" by simp
  then show ?case using same_links_ok [OF sessions] by (simp only: safe_step_def)
qed (simp_all add: same_ops same_links_ok [unfolded safe_step_def [symmetric]] signup_safe verify_email_safe forgot_safe reset_safe invite_safe revoke_safe accept_safe)

section \<open>The contract holds for each table\<close>

interpretation verifications: settled_table accounts_ok "account_step lib" ac_verifications ve_hash "\<lambda>v. (ve_tenant v, ve_user v)" ve_settled for lib
proof unfold_locales
  fix s s' :: accounts and r
  assume "accounts_ok s" "account_step lib s s'"
  then have "safe_step s s'" by (rule account_step_safe [rotated])
  then show "accounts_ok s'" and "r \<in> set (ac_verifications s) \<Longrightarrow> \<exists>r'\<in>set (ac_verifications s'). ve_hash r' = ve_hash r
      \<and> (ve_tenant r', ve_user r') = (ve_tenant r, ve_user r) \<and> (ve_settled r \<longrightarrow> ve_settled r')"
    by (auto simp: safe_step_def links_move_def moved_def)
qed (simp add: accounts_ok_def)

interpretation resets: settled_table accounts_ok "account_step lib" ac_resets pr_hash "\<lambda>r. (pr_tenant r, pr_user r)" pr_settled for lib
proof unfold_locales
  fix s s' :: accounts and r
  assume "accounts_ok s" "account_step lib s s'"
  then have "safe_step s s'" by (rule account_step_safe [rotated])
  then show "accounts_ok s'" and "r \<in> set (ac_resets s) \<Longrightarrow> \<exists>r'\<in>set (ac_resets s'). pr_hash r' = pr_hash r
      \<and> (pr_tenant r', pr_user r') = (pr_tenant r, pr_user r) \<and> (pr_settled r \<longrightarrow> pr_settled r')"
    by (auto simp: safe_step_def links_move_def moved_def)
qed (simp add: accounts_ok_def)

interpretation invitations: settled_table accounts_ok "account_step lib" ac_invitations iv_hash "\<lambda>i. (iv_tenant i, iv_email i, iv_role i)" iv_settled for lib
proof unfold_locales
  fix s s' :: accounts and r
  assume "accounts_ok s" "account_step lib s s'"
  then have "safe_step s s'" by (rule account_step_safe [rotated])
  then show "accounts_ok s'" and "r \<in> set (ac_invitations s) \<Longrightarrow> \<exists>r'\<in>set (ac_invitations s'). iv_hash r' = iv_hash r
      \<and> (iv_tenant r', iv_email r', iv_role r') = (iv_tenant r, iv_email r, iv_role r) \<and> (iv_settled r \<longrightarrow> iv_settled r')"
    by (auto simp: safe_step_def links_move_def moved_def)
qed (simp add: accounts_ok_def)

interpretation roles: settled_table accounts_ok "account_step lib" ac_roles rl_id "\<lambda>r. (rl_tenant r, rl_name r)" "\<lambda>_. False" for lib
proof unfold_locales
  fix s s' :: accounts and r
  assume "accounts_ok s" "account_step lib s s'"
  then have "safe_step s s'" by (rule account_step_safe [rotated])
  then show "accounts_ok s'" and "r \<in> set (ac_roles s) \<Longrightarrow> \<exists>r'\<in>set (ac_roles s'). rl_id r' = rl_id r
      \<and> (rl_tenant r', rl_name r') = (rl_tenant r, rl_name r) \<and> (False \<longrightarrow> False)"
    by (auto simp: safe_step_def links_move_def moved_def)
qed (simp add: accounts_ok_def)

section \<open>Links work once\<close>

lemma settled_reset_refused:
  assumes "split_token lib token = Inr (tenant, h)" and "filter (\<lambda>r. pr_tenant r = tenant \<and> pr_hash r = h) (ac_resets db) = [r]" and "pr_settled r"
  shows "fst (reset_password lib now salt token new_password db) = Inl Invalid_link"
proof -
  have "reset_checks lib now token new_password db = Inl Invalid_link" using assms by (simp add: reset_checks_def pr_settled_def)
  then show ?thesis by (simp add: reset_password_def)
qed

lemma revoke_user_tokens_revokes:
  "r \<in> set (au_tokens (ac_auth (revoke_user_tokens now reason tenant user db))) \<Longrightarrow> rf_tenant r = tenant \<Longrightarrow> rf_user r = user \<Longrightarrow> rf_revoked r \<noteq> None"
proof -
  assume r: "r \<in> set (au_tokens (ac_auth (revoke_user_tokens now reason tenant user db)))" "rf_tenant r = tenant" "rf_user r = user"
  from r(1) have "r \<in> (\<lambda>x. if open_tokens tenant user x then x\<lparr>rf_revoked := Some now, rf_reason := Some reason\<rparr> else x) ` set (au_tokens (ac_auth db))"
    by (simp add: revoke_user_tokens_def revoke_rows_def)
  then obtain x where x: "r = (if open_tokens tenant user x then x\<lparr>rf_revoked := Some now, rf_reason := Some reason\<rparr> else x)" by (rule imageE)
  show "rf_revoked r \<noteq> None"
  proof (cases "open_tokens tenant user x")
    case False
    then have "r = x" using x by simp
    then show ?thesis using False r(2,3) by (simp add: open_tokens_def)
  qed (simp add: x)
qed

text \<open>
  C17. A successful password reset used an unexpired, unused link of that account, lifted the lock, and left no refresh token of the
  account alive; after any further operations the same link is refused.
\<close>

theorem reset_link_works_once:
  assumes "accounts_ok db" and "reset_password lib now salt token new_password db = (Inr (), db')" and "(account_step lib)\<^sup>*\<^sup>* db' db''"
  shows "(\<exists>tenant link user. split_token lib token = Inr (tenant, pr_hash link) \<and> link \<in> set (ac_resets db) \<and> pr_used link = None \<and> now < pr_expires link
       \<and> filter (user_in tenant (pr_user link)) (ac_users db) = [user]
       \<and> reset_user lib now salt new_password user \<in> set (ac_users db')
       \<and> list_all (\<lambda>r. rf_tenant r = tenant \<and> rf_user r = us_id user \<longrightarrow> rf_revoked r \<noteq> None) (au_tokens (ac_auth db')))
     \<and> fst (reset_password lib now2 salt2 token password2 db'') = Inl Invalid_link"
proof -
  obtain tenant link user where c: "reset_checks lib now token new_password db = Inr (tenant, link, user)"
    using assms(2) by (cases "reset_checks lib now token new_password db") (auto simp: reset_password_def)
  note f = reset_checks_Inr [OF c]
  define l where "l = anonymous (log_of ''auth.password_reset'' (''user'', us_id user) tenant None [(''sessions_revoked'', open_token_count tenant (us_id user) db)])"
  define db1 where "db1 = put_user (reset_user lib now salt new_password user)
      (db\<lparr>ac_resets := set_row pr_hash (link\<lparr>pr_used := Some now\<rparr>) (ac_resets db)\<rparr>)"
  have db': "db' = record_log l (revoke_user_tokens now ''password_reset'' tenant (us_id user) db1)"
    using assms(2) c by (simp add: reset_password_def db1_def l_def)
  have resets: "ac_resets db' = set_row pr_hash (link\<lparr>pr_used := Some now\<rparr>) (ac_resets db)"
    and users: "ac_users db' = set_row us_id (reset_user lib now salt new_password user) (ac_users db)"
    by (simp_all add: db' record_log_def revoke_user_tokens_def db1_def put_user_def)
  have tokens: "list_all (\<lambda>r. rf_tenant r = tenant \<and> rf_user r = us_id user \<longrightarrow> rf_revoked r \<noteq> None) (au_tokens (ac_auth db'))"
    unfolding list_all_iff
    by (intro ballI impI, elim conjE) (rule revoke_user_tokens_revokes [of _ now "''password_reset''" tenant "us_id user" db1], simp_all add: db' record_log_def)
  have "user \<in> set (ac_users db)" using f member_of_filter [of "user_in tenant (pr_user link)" "ac_users db" user] by simp
  then have user: "reset_user lib now salt new_password user \<in> set (ac_users db')"
    unfolding users by (intro set_row_new) (simp add: reset_user_def)
  have link: "link\<lparr>pr_used := Some now\<rparr> \<in> set (ac_resets db')"
    unfolding resets using f by (intro set_row_new) simp
  have "accounts_ok db'" using reset_safe [OF assms(1), of lib now salt token new_password] assms(2) by (simp add: safe_step_def)
  moreover have "(pr_tenant x = tenant \<and> pr_hash x = pr_hash link) \<Longrightarrow> pr_hash x = pr_hash (link\<lparr>pr_used := Some now\<rparr>)" for x by simp
  moreover have "pr_hash x = pr_hash (link\<lparr>pr_used := Some now\<rparr>) \<Longrightarrow> (pr_tenant x, pr_user x) = (pr_tenant (link\<lparr>pr_used := Some now\<rparr>), pr_user (link\<lparr>pr_used := Some now\<rparr>))
      \<Longrightarrow> pr_tenant x = tenant \<and> pr_hash x = pr_hash link" for x using f by simp
  ultimately obtain r where "filter (\<lambda>r. pr_tenant r = tenant \<and> pr_hash r = pr_hash link) (ac_resets db'') = [r]"
    "pr_settled (link\<lparr>pr_used := Some now\<rparr>) \<longrightarrow> pr_settled r"
    using resets.lookup_later [OF assms(3) _ link, where P = "\<lambda>r. pr_tenant r = tenant \<and> pr_hash r = pr_hash link"] by blast
  then have "filter (\<lambda>r. pr_tenant r = tenant \<and> pr_hash r = pr_hash link) (ac_resets db'') = [r]" "pr_settled r" by (simp_all add: pr_settled_def)
  then have "fst (reset_password lib now2 salt2 token password2 db'') = Inl Invalid_link"
    by (rule settled_reset_refused [OF f [THEN conjunct1]])
  with f tokens user show ?thesis by (intro conjI exI [of _ tenant] exI [of _ link] exI [of _ user]) simp_all
qed

definition reset_db :: accounts where
  "reset_db = demo_db\<lparr>ac_resets := [\<lparr>pr_tenant = demo_tenant, pr_user = ''u1'', pr_hash = demo_tenant @ ''.s'', pr_expires = seconds 9, pr_used = None\<rparr>],
     ac_auth := (ac_auth demo_db)\<lparr>au_tokens := [new_row 0 demo_tenant ''u1'' ''j'' ''h'' ''f'' None]\<rparr>\<rparr>"

theorem reset_link_works_once_witness:
  "fst (reset_password demo_lib 0 ''salt'' (demo_tenant @ ''.s'') ''Tr0ub4dor&3xyz'' reset_db) = Inr ()
   \<and> fst (reset_password demo_lib 1 ''salt'' (demo_tenant @ ''.s'') ''An0ther&pass99''
        (snd (reset_password demo_lib 0 ''salt'' (demo_tenant @ ''.s'') ''Tr0ub4dor&3xyz'' reset_db))) = Inl Invalid_link"
proof -
  have ok: "accounts_ok reset_db" by code_simp
  have r: "fst (reset_password demo_lib 0 ''salt'' (demo_tenant @ ''.s'') ''Tr0ub4dor&3xyz'' reset_db) = Inr ()" by code_simp
  then have eq: "reset_password demo_lib 0 ''salt'' (demo_tenant @ ''.s'') ''Tr0ub4dor&3xyz'' reset_db
     = (Inr (), snd (reset_password demo_lib 0 ''salt'' (demo_tenant @ ''.s'') ''Tr0ub4dor&3xyz'' reset_db))" by (simp add: prod_eq_iff)
  show ?thesis using r reset_link_works_once [OF ok eq rtranclp.rtrancl_refl, of 1 "''salt''" "''An0ther&pass99''"] by blast
qed

section \<open>Invitations\<close>

lemma viewer_spec: "spec_le VIEWER_SPEC ((''tenant'', [''read'', ''list'']) # MANAGER_SPEC)" "perm ''tenant'' ''read'' \<in> set (expand MANAGER_SPEC)"
  by code_simp+

lemma viewer_beyond: "set (expand VIEWER_SPEC) \<subseteq> set (expand MANAGER_SPEC) \<union> {perm ''tenant'' ''list''}"
proof -
  have "set (expand ((''tenant'', [''read'', ''list'']) # MANAGER_SPEC)) = {perm ''tenant'' ''read'', perm ''tenant'' ''list''} \<union> set (expand MANAGER_SPEC)"
    by (auto simp: expand_def)
  then show ?thesis using spec_le_expand [OF viewer_spec(1)] viewer_spec(2) by auto
qed

definition actor_permissions :: "string list \<Rightarrow> string set" where
  "actor_permissions actor_roles = (\<Union>r\<in>set (List.map_filter Role_of actor_roles). set (ROLE_PERMISSIONS r))"

lemma assignable_within:
  assumes "q \<in> set (ASSIGNABLE_ROLES a)"
  shows "set (ROLE_PERMISSIONS q) \<subseteq> set (ROLE_PERMISSIONS a) \<union> {perm ''tenant'' ''list''}"
proof -
  have "set (ROLE_PERMISSIONS VIEWER) \<subseteq> set (ROLE_PERMISSIONS MANAGER) \<union> {perm ''tenant'' ''list''}"
    "set (ROLE_PERMISSIONS VIEWER) \<subseteq> set (ROLE_PERMISSIONS ADMIN) \<union> {perm ''tenant'' ''list''}"
    using viewer_beyond role_chain(2) unfolding ROLE_PERMISSIONS.simps by blast+
  then show ?thesis using assms role_chain by (cases a; cases q; simp del: ROLE_PERMISSIONS.simps; blast)
qed

lemma assignable_roles_within:
  assumes "q \<in> set (assignable_roles actor_roles)"
  shows "set (ROLE_PERMISSIONS q) \<subseteq> actor_permissions actor_roles \<union> {perm ''tenant'' ''list''}"
proof -
  obtain a where "a \<in> set (List.map_filter Role_of actor_roles)" "q \<in> set (ASSIGNABLE_ROLES a)" using assms by (auto simp: assignable_roles_def)
  then show ?thesis using assignable_within [of q a] unfolding actor_permissions_def by blast
qed

lemma Role_of_value: "Role_of (role_value q) = Some q"
  by (cases q) (simp_all add: role_value_def Role_of_def)

lemma split_token_tenant: "CHR ''.'' \<notin> set tenant \<Longrightarrow> split_token lib (tenant @ ''.'' @ secret) = Inr (t, h) \<Longrightarrow>
    uuid_of tenant = Some t \<and> h = sha256_hex lib (tenant @ ''.'' @ secret)"
  by (auto simp: split_token_def before_append split: if_splits option.splits)

lemma role_name_unique:
  assumes "accounts_ok db" and "r \<in> set (ac_roles db)" and "rl_tenant r = tenant"
  shows "role_name_of tenant (Some (rl_id r)) db = Some (rl_name r)"
proof -
  have "filter (\<lambda>x. rl_tenant x = tenant \<and> Some (rl_id x) = Some (rl_id r)) (ac_roles db) = [r]"
    using assms by (intro filter_unique_row [where key = rl_id]) (auto simp: accounts_ok_def)
  then show ?thesis by (simp add: role_name_of_def)
qed

lemma new_member_roles:
  assumes "accounts_ok db" and "user \<notin> us_id ` set (ac_users db)" and "r \<in> set (ac_roles db)" and "rl_tenant r = tenant"
    and "ac_roles db' = ac_roles db" and "ac_user_roles db' = ac_user_roles db @ [\<lparr>ur_tenant = tenant, ur_user = user, ur_role = rl_id r\<rparr>]"
  shows "role_names tenant user db' = [rl_name r]"
proof -
  have "filter (\<lambda>ur. ur_tenant ur = tenant \<and> ur_user ur = user) (ac_user_roles db) = []"
    using assms(1,2) by (auto simp: accounts_ok_def filter_empty_conv)
  moreover have "filter (\<lambda>x. rl_tenant x = tenant \<and> rl_id x = rl_id r) (ac_roles db) = [r]"
    using assms by (intro filter_unique_row [where key = rl_id]) (auto simp: accounts_ok_def)
  ultimately show ?thesis using assms(5,6) by (simp add: role_names_def)
qed

lemma settled_invitation_refused:
  assumes "split_token lib token = Inr (tenant, h)" and "filter (\<lambda>i. iv_hash i = h \<and> iv_tenant i = tenant) (ac_invitations db) = [i]" and "iv_settled i"
  shows "fst (accept_invitation lib now user token full_name hash db) = Inl Invalid_link"
proof -
  have "pending_invitation lib now token db = Inl Invalid_link" using assms by (auto simp: pending_invitation_def invitation_status_def iv_settled_def)
  then show ?thesis by (simp add: accept_invitation_def)
qed

text \<open>
  C5. Whoever accepts an invitation, whatever happened in between, joins the inviting organisation with exactly the role the inviter asked for,
  one the inviter could hand out: its permissions are among the inviter's, except that a viewer may also list tenants. The
  link cannot be accepted again.
\<close>

theorem invitation_within_authority:
  assumes "accounts_ok db" and "invite_user lib now vf tenant actor actor_roles email role db = (Inr iss, db1)"
    and "(account_step lib)\<^sup>*\<^sup>* db1 db2" and "accept_invitation lib now2 user (ii_token iss) full_name hash db2 = (Inr (e, joined), db3)"
    and "(account_step lib)\<^sup>*\<^sup>* db3 db4" and "uuid_of tenant = Some tenant" and "CHR ''.'' \<notin> set tenant"
  shows "e = ii_email iss \<and> joined = Some (role_value (ii_role iss))
     \<and> fst (load_roles_and_scope tenant user False db3) = [ii_role iss]
     \<and> set (ROLE_PERMISSIONS (ii_role iss)) \<subseteq> actor_permissions actor_roles \<union> {perm ''tenant'' ''list''}
     \<and> fst (accept_invitation lib now3 user2 (ii_token iss) full_name2 hash2 db4) = Inl Invalid_link"
proof -
  from assms(2) obtain n ex where w: "invite_write lib now vf tenant actor n (ii_role iss) ex db = (Inr iss, db1)"
    and ex: "case ex of None \<Rightarrow> True | Some i \<Rightarrow> i \<in> set (ac_invitations db)" and q: "ii_role iss \<in> set (assignable_roles actor_roles)"
    by (blast elim: invite_cases)
  note iw = invite_write_Inr [OF w assms(1) ex]
  then obtain i r where i: "i \<in> set (ac_invitations db1)" "iv_hash i = sha256_hex lib (ii_token iss)" "iv_tenant i = tenant" "iv_email i = ii_email iss"
    "iv_role i = Some (rl_id r)" and r: "r \<in> set (ac_roles db1)" "rl_tenant r = tenant" "rl_name r = role_value (ii_role iss)" by auto
  have ok1: "accounts_ok db1" using iw by (simp add: safe_step_def)
  from assms(4) obtain t j l where p: "pending_invitation lib now2 (ii_token iss) db2 = Inr (t, j)" and e: "iv_email j = e"
    and joined: "joined = role_name_of t (iv_role j) db2" and fresh: "user \<notin> us_id ` set (ac_users db2)"
    and db3: "db3 = record_log l (db2\<lparr>ac_users := ac_users db2 @ [(new_user now2 user t e (take 200 (py_strip full_name)) hash)
          \<lparr>us_status := ''active'', us_email_verified := Some now2\<rparr>],
        ac_user_roles := ac_user_roles db2 @ (case iv_role j of None \<Rightarrow> [] | Some r \<Rightarrow> [\<lparr>ur_tenant = t, ur_user = user, ur_role = r\<rparr>]),
        ac_invitations := set_row iv_id (j\<lparr>iv_accepted := Some now2\<rparr>) (ac_invitations db2)\<rparr>)"
    by (rule accept_Inr)
  note pj = pending_Inr [OF p]
  have t: "t = tenant" "iv_hash j = iv_hash i" using split_token_tenant [OF assms(7), of lib "if_secret vf" t "iv_hash j"] pj assms(6) iw i(2) by auto
  have j: "iv_role j = Some (rl_id r)" "e = ii_email iss"
    using invitations.same_row [OF assms(3) ok1 i(1), of j] pj t i e by auto
  obtain r' where r': "r' \<in> set (ac_roles db2)" "rl_id r' = rl_id r" "rl_tenant r' = tenant" "rl_name r' = role_value (ii_role iss)"
    using roles.kept_steps [OF assms(3) ok1 r(1)] r by auto
  have ok2: "accounts_ok db2" using roles.ok_steps [OF assms(3) ok1] .
  have "joined = Some (role_value (ii_role iss))" using role_name_unique [OF ok2 r'(1,3)] r' j joined t by simp
  moreover have "role_names tenant user db3 = [role_value (ii_role iss)]"
    using new_member_roles [OF ok2 fresh r'(1,3), of db3] r' j t by (simp add: db3 record_log_def)
  moreover have "fst (accept_invitation lib now3 user2 (ii_token iss) full_name2 hash2 db4) = Inl Invalid_link"
  proof -
    have "accounts_ok db3" using accept_safe [OF ok2, of lib now2 user "ii_token iss" full_name hash] assms(4) by (simp add: safe_step_def)
    moreover have "j\<lparr>iv_accepted := Some now2\<rparr> \<in> set (ac_invitations db3)" using pj by (auto simp: db3 record_log_def intro!: set_row_new)
    moreover have "(iv_hash x = iv_hash j \<and> iv_tenant x = t) \<Longrightarrow> iv_hash x = iv_hash (j\<lparr>iv_accepted := Some now2\<rparr>)" for x by simp
    moreover have "iv_hash x = iv_hash (j\<lparr>iv_accepted := Some now2\<rparr>) \<Longrightarrow> (iv_tenant x, iv_email x, iv_role x)
        = (iv_tenant (j\<lparr>iv_accepted := Some now2\<rparr>), iv_email (j\<lparr>iv_accepted := Some now2\<rparr>), iv_role (j\<lparr>iv_accepted := Some now2\<rparr>))
        \<Longrightarrow> iv_hash x = iv_hash j \<and> iv_tenant x = t" for x using pj by simp
    ultimately obtain k where "filter (\<lambda>i. iv_hash i = iv_hash j \<and> iv_tenant i = t) (ac_invitations db4) = [k]"
      "iv_settled (j\<lparr>iv_accepted := Some now2\<rparr>) \<longrightarrow> iv_settled k"
      using invitations.lookup_later [OF assms(5), where r = "j\<lparr>iv_accepted := Some now2\<rparr>" and P = "\<lambda>i. iv_hash i = iv_hash j \<and> iv_tenant i = t"] by blast
    then have "filter (\<lambda>i. iv_hash i = iv_hash j \<and> iv_tenant i = t) (ac_invitations db4) = [k]" "iv_settled k" by (simp_all add: iv_settled_def)
    then show ?thesis by (rule settled_invitation_refused [OF pj [THEN conjunct1]])
  qed
  ultimately show ?thesis using j assignable_roles_within [OF q]
    by (simp add: load_roles_and_scope_def load_roles_def List.map_filter_simps Role_of_value Let_def)
qed

definition demo_invite :: invite_fresh where
  "demo_invite = \<lparr>if_id = ''i9'', if_role = ''r9'', if_secret = ''s''\<rparr>"

definition demo_issued :: InvitationIssued where
  "demo_issued = \<lparr>ii_id = ''i9'', ii_email = ''bo@x.io'', ii_role = VIEWER, ii_expires = INVITATION_TTL, ii_token = demo_tenant @ ''.s''\<rparr>"

theorem invitation_within_authority_witness:
  "\<exists>db3. accept_invitation demo_lib 1 ''u2'' (ii_token demo_issued) ''Bo'' ''h''
       (snd (invite_user demo_lib 0 demo_invite demo_tenant ''u1'' [''admin''] ''bo@x.io'' ''viewer'' demo_db)) = (Inr (''bo@x.io'', Some ''viewer''), db3)
     \<and> fst (load_roles_and_scope demo_tenant ''u2'' False db3) = [VIEWER]
     \<and> fst (accept_invitation demo_lib 2 ''u3'' (ii_token demo_issued) ''Bo'' ''h'' db3) = Inl Invalid_link"
proof -
  let ?i = "invite_user demo_lib 0 demo_invite demo_tenant ''u1'' [''admin''] ''bo@x.io'' ''viewer'' demo_db"
  let ?a = "accept_invitation demo_lib 1 ''u2'' (ii_token demo_issued) ''Bo'' ''h'' (snd ?i)"
  have ok: "accounts_ok demo_db" by code_simp
  have "fst ?i = Inr demo_issued" by code_simp
  then have i: "?i = (Inr demo_issued, snd ?i)" by (simp add: prod_eq_iff)
  have "fst ?a = Inr (''bo@x.io'', Some ''viewer'')" by code_simp
  then have a: "?a = (Inr (''bo@x.io'', Some ''viewer''), snd ?a)" by (simp add: prod_eq_iff)
  have t: "uuid_of demo_tenant = Some demo_tenant" "CHR ''.'' \<notin> set demo_tenant" by code_simp+
  have v: "ii_role demo_issued = VIEWER" by (simp add: demo_issued_def)
  note w = invitation_within_authority [OF ok i rtranclp.rtrancl_refl a rtranclp.rtrancl_refl t, of 2 "''u3''" "''Bo''" "''h''", unfolded v]
  show ?thesis by (rule exI [of _ "snd ?a"]) (intro conjI a w [THEN conjunct2, THEN conjunct2, THEN conjunct1]
    w [THEN conjunct2, THEN conjunct2, THEN conjunct2, THEN conjunct2])
qed

end
