(* ===== verification/Mfa_Enrolment.thy ===== *)
theory Mfa_Enrolment
  imports Accounts_Safety
begin

text \<open>
  Enrolment end to end: the secret shown to the user, encrypted and handed back by the client, is the secret that later
  codes are checked against. Rests on the round trips of base 32, UTF-8 and the envelope.
\<close>

lemma length_show_nat: "n < 10 ^ k \<Longrightarrow> 0 < k \<Longrightarrow> length (show_nat n) \<le> k"
proof (induction k arbitrary: n)
  case (Suc k)
  show ?case
  proof (cases "n < 10")
    case False
    then have "0 < k" using Suc.prems by (cases k) auto
    moreover have "n div 10 < 10 ^ k" using Suc.prems by (simp add: less_mult_imp_div_less)
    ultimately have "length (show_nat (n div 10)) \<le> k" by (rule Suc.IH [rotated])
    then show ?thesis using False by (subst show_nat.simps) simp
  qed (subst show_nat.simps, simp)
qed simp

text \<open>What the code relies on of HMAC-SHA-1: twenty bytes.\<close>

definition hmac_ok :: "auth_lib \<Rightarrow> bool" where
  "hmac_ok lib \<longleftrightarrow> (\<forall>k m. length (hmac_sha1 lib k m) = 20)"

definition six_digits :: "string \<Rightarrow> bool" where
  "six_digits c \<longleftrightarrow> length c = TOTP_DIGITS \<and> list_all is_dec c"

lemma totp_at_total:
  assumes "hmac_ok lib" and "0 \<le> counter" and "counter < 18446744073709551616"
  obtains c where "totp_at lib secret counter = Inr c" "six_digits c"
proof -
  define digest where "digest = hmac_sha1 lib (b32decode secret) (be_bytes 8 (nat counter))"
  define bs where "bs = take 4 (drop (code (last digest) mod 16) digest)"
  define n where "n = unpack_I bs mod 2 ^ 31 mod 10 ^ TOTP_DIGITS"
  have "length digest = 20" using assms(1) by (simp add: digest_def hmac_ok_def)
  moreover have "code (last digest) mod 16 < 16" by simp
  ultimately have "min (length digest - code (last digest) mod 16) 4 = 4" by simp
  then have eq: "totp_at lib secret counter = Inr (zfill TOTP_DIGITS (show_nat n))"
    using assms(2,3) unfolding totp_at_def pack_Q_def by (simp add: Let_def digest_def [symmetric] bs_def [symmetric] n_def)
  have "length (show_nat n) \<le> TOTP_DIGITS" by (rule length_show_nat) (simp_all add: n_def TOTP_DIGITS_def)
  moreover have "list_all is_dec (show_nat n)" by (rule show_nat_dec)
  moreover have "is_dec (CHR ''0'')" by (simp add: is_dec_def code_def)
  ultimately have "six_digits (zfill TOTP_DIGITS (show_nat n))" by (auto simp: six_digits_def zfill_def list_all_iff)
  with eq that show ?thesis by blast
qed

lemma six_digits_clean:
  assumes "six_digits c"
  shows "py_replace '' '' [] (py_strip c) = c \<and> py_isdigit c \<and> length c = TOTP_DIGITS \<and> list_all (\<lambda>x. code x < 128) c"
proof -
  have dec: "is_dec x \<Longrightarrow> \<not> is_space x \<and> x \<noteq> CHR '' '' \<and> is_digit x \<and> code x < 128" for x
    by (auto simp: is_dec_def is_space_def is_digit_def code_def Let_def)
  have all: "x \<in> set c \<Longrightarrow> is_dec x" for x using assms by (simp add: six_digits_def list_all_iff)
  have ne: "c \<noteq> []" using assms by (auto simp: six_digits_def TOTP_DIGITS_def)
  have "py_strip c = c" unfolding py_strip_def by (rule strip_by_fixed) (use ne all dec in \<open>meson hd_in_set last_in_set\<close>)
  moreover have "py_replace '' '' [] c = c" using all dec by (intro replace_absent) blast
  moreover have "list_all is_digit c" "list_all (\<lambda>x. code x < 128) c" using all dec by (auto simp: list_all_iff)
  ultimately show ?thesis using ne assms by (simp add: py_isdigit_def six_digits_def)
qed

lemma any_window_finds:
  assumes "hmac_ok lib" and "six_digits c" and "\<forall>n\<in>set ns. 0 \<le> n \<and> n < 18446744073709551616"
    and "n \<in> set ns" and "totp_at lib secret n = Inr c"
  shows "any_window lib secret c ns = Inr True"
  using assms(3,4)
proof (induction ns)
  case (Cons m ns)
  have "0 \<le> m" "m < 18446744073709551616" using Cons.prems by simp_all
  then obtain x where x: "totp_at lib secret m = Inr x" "six_digits x" by (rule totp_at_total [OF assms(1)])
  have "compare_digest x c = Inr (x = c)" using six_digits_clean [OF assms(2)] six_digits_clean [OF x(2)] by (simp add: compare_digest_def)
  then show ?case using Cons x assms(5) by (auto simp: rbind_def)
qed simp

lemma verify_totp_accepts:
  assumes "hmac_ok lib" and "1 \<le> totp_counter now" and "totp_counter now + 1 < 18446744073709551616"
    and "- 1 \<le> d" and "d \<le> 1" and "totp_at lib secret (totp_counter now + d) = Inr c"
  shows "verify_totp lib now secret c = Inr True"
proof -
  have "0 \<le> totp_counter now + d" "totp_counter now + d < 18446744073709551616" using assms(2-5) by simp_all
  then have six: "six_digits c" using totp_at_total [OF assms(1)] assms(6) by (metis sum.inject(2))
  have "any_window lib secret c (map (\<lambda>d. totp_counter now + d) [- TOTP_DRIFT_WINDOWS..TOTP_DRIFT_WINDOWS]) = Inr True"
    by (rule any_window_finds [OF assms(1) six, where n = "totp_counter now + d"])
      (use assms(2-6) in \<open>auto simp: TOTP_DRIFT_WINDOWS_def\<close>)
  then show ?thesis using six_digits_clean [OF six] by (simp add: verify_totp_def)
qed

text \<open>The settings and random values of an enrolment.\<close>

definition enrolment_ready :: "auth_lib \<Rightarrow> enrol_fresh \<Rightarrow> string \<Rightarrow> bool" where
  "enrolment_ready lib ef tenant \<longleftrightarrow> is_ok (encryptor lib) \<and> length (ef_dek ef) = KEY_BYTES \<and> length (ef_nonce ef) = NONCE_BYTES
     \<and> length (ef_kek_nonce ef) = NONCE_BYTES \<and> CHR '':'' \<notin> set tenant"

lemma start_enrolment_secret:
  assumes "aead_ok (al_crypto lib)" and "enrolment_ready lib ef tenant" and "start_enrolment lib ef tenant user email db = Inr ch"
  shows "stored_secret lib tenant (en_pending ch) = Some (en_secret ch) \<and> en_pending ch \<noteq> []
     \<and> (\<exists>u. filter (user_in tenant user) (ac_users db) = [u] \<and> \<not> us_mfa_enabled u)"
proof -
  obtain master where m: "encryptor lib = Inr master" using assms(2) by (auto simp: enrolment_ready_def is_ok_iff)
  obtain u where u: "filter (user_in tenant user) (ac_users db) = [u]" "\<not> us_mfa_enabled u"
    using assms(3) by (auto simp: start_enrolment_def rbind_eq_Inr the_one_Inr split: if_splits)
  define secret where "secret = b32encode (ef_raw ef)"
  define cipher where "cipher = encrypt (al_crypto lib) (ef_dek ef) (ef_nonce ef) (ef_kek_nonce ef) master 1 tenant (encode_utf8 secret)"
  have ch: "en_pending ch = cipher" "en_secret ch = secret"
    using assms(3) u m by (auto simp: start_enrolment_def Let_def secret_def cipher_def)
  have "decrypt (al_crypto lib) master tenant cipher = Inr (encode_utf8 secret)"
    unfolding cipher_def using assms(1,2) by (intro decrypt_encrypt) (simp_all add: enrolment_ready_def)
  then have "stored_secret lib tenant cipher = Some secret" using m by (simp add: stored_secret_def decode_encode_utf8)
  moreover have "cipher \<noteq> []" by (simp add: cipher_def encrypt_def serialize_def VERSION_PREFIX_def Let_def)
  ultimately show ?thesis using ch u by simp
qed

text \<open>
  C18. An enrolment that was started completes with the code the authenticator shows: the secret survives encryption, the
  account is enrolled, and from then on a code made in the previous, current or next half minute is accepted.
\<close>

theorem enrolment_completes:
  assumes "aead_ok (al_crypto lib)" and "hmac_ok lib" and "enrolment_ready lib ef tenant" and "distinct (map us_id (ac_users db))"
    and "start_enrolment lib ef tenant user email db = Inr ch"
    and "1 \<le> totp_counter now" and "totp_counter now + 1 < 18446744073709551616" and "current_totp lib now (en_secret ch) = Inr code_text"
    and "1 \<le> totp_counter later" and "totp_counter later + 1 < 18446744073709551616" and "\<bar>totp_counter made - totp_counter later\<bar> \<le> 1"
    and "current_totp lib made (en_secret ch) = Inr later_code"
  shows "\<exists>codes db'. complete_enrolment lib now rf tenant user (en_pending ch) code_text db = (Inr codes, db')
     \<and> length codes = length rf \<and> check_code lib later tenant user later_code db' = Inr True"
proof -
  from start_enrolment_secret [OF assms(1,3,5)] obtain u where sec: "stored_secret lib tenant (en_pending ch) = Some (en_secret ch)" "en_pending ch \<noteq> []"
    and u: "filter (user_in tenant user) (ac_users db) = [u]" "\<not> us_mfa_enabled u" by blast
  define codes where "codes = generate_recovery_codes lib rf"
  define v where "v = u\<lparr>us_mfa_enabled := True, us_mfa_secret := Some (en_pending ch), us_recovery := rc_hashes codes\<rparr>"
  define db' where "db' = record_log (log_of ''auth.mfa_enabled'' (''user'', user) tenant (Some user)
     [(''mfa_enabled'', JBool True), (''recovery_code_count'', JInt (int (length (rc_hashes codes))))]) (put_user v db)"
  have "verify_totp lib now (en_secret ch) code_text = Inr True"
    using verify_totp_accepts [OF assms(2,6,7), of 0] assms(8) by (simp add: current_totp_def)
  then have "complete_enrolment lib now rf tenant user (en_pending ch) code_text db = (Inr (rc_plaintext codes), db')"
    using sec u by (simp add: complete_enrolment_def totp_result_def Let_def codes_def [symmetric] db'_def v_def)
  moreover have "filter (user_in tenant user) (ac_users db') = [v]"
  proof -
    have "user_in tenant user u" using u(1) by (metis filter_eq_ConsD)
    then show ?thesis using filter_set_row [OF u(1) assms(4), of v] by (simp add: db'_def record_log_def put_user_def v_def user_in_def)
  qed
  moreover have "verify_totp lib later (en_secret ch) later_code = Inr True"
    using verify_totp_accepts [OF assms(2,9,10), of "totp_counter made - totp_counter later"] assms(11,12) by (simp add: current_totp_def)
  then have "check_code lib later tenant user later_code db' = Inr True"
    using \<open>filter _ (ac_users db') = [v]\<close> sec by (simp add: check_code_def v_def totp_result_def)
  ultimately show ?thesis by (auto simp: codes_def generate_recovery_codes_def Let_def)
qed

definition demo_enrol :: enrol_fresh where
  "demo_enrol = \<lparr>ef_raw = ''hello'', ef_dek = replicate 32 (CHR ''d''), ef_nonce = replicate 12 (CHR ''n''), ef_kek_nonce = replicate 12 (CHR ''q'')\<rparr>"

lemma demo_aead: "aead_ok (al_crypto demo_lib)"
  by (simp add: aead_ok_def demo_lib_def)

lemma demo_hmac: "hmac_ok demo_lib"
  by (auto simp: hmac_ok_def demo_lib_def min_def)

theorem enrolment_completes_witness:
  "\<exists>ch code_text codes db'. start_enrolment demo_lib demo_enrol demo_tenant ''u1'' ''ana@x.io'' demo_db = Inr ch
     \<and> complete_enrolment demo_lib (seconds 60) [(''a'', ''b'', ''c'')] demo_tenant ''u1'' (en_pending ch) code_text demo_db = (Inr codes, db')
     \<and> check_code demo_lib (seconds 90) demo_tenant ''u1'' code_text db' = Inr True"
proof -
  have ready: "enrolment_ready demo_lib demo_enrol demo_tenant" by code_simp
  then obtain master where "encryptor demo_lib = Inr master" by (auto simp: enrolment_ready_def is_ok_iff)
  moreover have "the_one (filter (user_in demo_tenant ''u1'') (ac_users demo_db)) = Inr demo_user" "\<not> us_mfa_enabled demo_user" by code_simp+
  ultimately obtain ch where ch: "start_enrolment demo_lib demo_enrol demo_tenant ''u1'' ''ana@x.io'' demo_db = Inr ch"
    by (simp add: start_enrolment_def Let_def)
  have ids: "distinct (map us_id (ac_users demo_db))" by code_simp
  have now: "totp_counter (seconds 60) = 2" "totp_counter (seconds 90) = 3" by code_simp+
  obtain c where c: "current_totp demo_lib (seconds 60) (en_secret ch) = Inr c"
    using totp_at_total [OF demo_hmac, of 2 "en_secret ch"] now by (auto simp: current_totp_def)
  have "1 \<le> totp_counter (seconds 60)" "totp_counter (seconds 60) + 1 < 18446744073709551616" "1 \<le> totp_counter (seconds 90)"
    "totp_counter (seconds 90) + 1 < 18446744073709551616" "\<bar>totp_counter (seconds 60) - totp_counter (seconds 90)\<bar> \<le> 1"
    by (simp_all add: now)
  from enrolment_completes [OF demo_aead demo_hmac ready ids ch this(1,2) c this(3-5) c, of "[(''a'', ''b'', ''c'')]"] ch
  show ?thesis by blast
qed

end
