(* ===== verification/Spec2Isabelle.thy ===== *)
theory Spec2Isabelle
  imports Lead_Service_Safety Shared_Text Workflow_Runtime_Safety Outbox Rate_Limit Auth_Sessions_Safety Workflow_Triggers_Safety Payments_Inbound Permissions Entitlements Consent_Policy
    Appointments Slots Deals_Safety Workflow_Actions_Safety Assignment_Safety Lead_Import_Safety Accounts_Links Mfa_Enrolment
begin

text \<open>
  \<^bold>\<open>A verification of the core of the revenue automation platform\<close> (\<^verbatim>\<open>src/backend/src\<close>; all paths below are relative to it).

  \<^bold>\<open>The program.\<close> A multi-tenant CRM. Requests arrive at an HTTP layer (\<^verbatim>\<open>api/v1\<close>), which authenticates a principal and calls the
  services of \<^verbatim>\<open>application\<close>; these apply the rules of \<^verbatim>\<open>domain\<close> and write tables, audit rows and outbox events in one transaction.
  A poller delivers the outbox events to handlers, which start workflow executions and outbound webhooks; workers run the
  workflows, suspend them at approvals, and act through the same services. Payment providers call back through webhooks.

  \<^bold>\<open>Conventions.\<close> A table is a list of rows in insertion order, a transaction is one change of state, and row-level security is a
  filter on the tenant. Unique constraints are checked where a row is inserted or at the commit. What an operation read in one transaction
  and uses in the next is passed explicitly, so interleavings can be stated. Every raise is an \<open>Inl\<close>; Python's own exceptions
  are values of \<open>py_exc\<close>. Instants are microseconds; random identifiers and salts are arguments. Text is Latin-1. Error and
  explanation texts built with f-strings are constructors. Audit values are recorded before redaction.

  \<^bold>\<open>Shared theories.\<close>
  \<^item> \<open>Prelude\<close>, \<open>Py_Str\<close>, \<open>Py_Json\<close>, \<open>Py_Uuid\<close>, \<open>Csv\<close>: results, dictionaries, durations; the parts of \<^verbatim>\<open>str\<close>, JSON values,
    \<^verbatim>\<open>uuid\<close> and \<^verbatim>\<open>csv\<close> that the code uses.
  \<^item> \<open>Tables\<close>, \<open>Once_Store\<close>, \<open>Transitions\<close>, \<open>Refinement\<close>: rows and keys; the contract of an insert that keeps the first value; the
    contract of a status machine, interpreted for leads, payments and deals; simulation step by labelled step,
    interpreted for leads.

  \<^bold>\<open>Components.\<close>
  \<^item> Workflow language: \<open>Workflow_Graph\<close>, \<open>Workflow_Dsl\<close>, \<open>Workflow_Dsl_Proofs\<close> (\<^verbatim>\<open>domain/workflows/dsl.py\<close>). Validation is sound,
    the coloured search finds exactly the cycles, compilation keeps nodes and priorities.
  \<^item> Workflow engine and tasks: \<open>Workflow_Condition\<close>, \<open>Workflow_Engine\<close>, \<open>Workflow_Engine_Safety\<close> (\<^verbatim>\<open>application/workflows/executor.py\<close>),
    \<open>Workflow_Approvals\<close> (\<^verbatim>\<open>approvals.py\<close>), \<open>Workflow_Runtime\<close>, \<open>Workflow_Runtime_Safety\<close> (\<^verbatim>\<open>infrastructure/celery/tasks\<close>). Over every
    interleaving of tasks and decisions nothing behind an approval is called before it is approved; dry runs perform nothing; votes are
    legitimate and end once there is a decision for every assignee token. A second path around an approval is accepted and runs.
  \<^item> Workflow actions: \<open>Workflow_Actions\<close>, \<open>Workflow_Actions_Safety\<close> (\<^verbatim>\<open>actions.py\<close>). Each action is authorised; the lead actions and the
    module's own ones are applied at most once, for which a service has to keep the contract \<open>audited_services\<close>, interpreted for the lead
    services beside arbitrary others.
  \<^item> Events: \<open>Event_Catalog\<close>, \<open>Outbox\<close>, \<open>Workflow_Triggers\<close>, \<open>Workflow_Triggers_Safety\<close> (\<^verbatim>\<open>infrastructure/messaging/outbox.py\<close>,
    \<^verbatim>\<open>application/workflows/triggers.py\<close>). At least once by the poller, exactly once by the handlers, though a call
    can fail before it starts, raise, or lose the broker after the commit; only runnable workflows and listening webhooks; the queue drains.
  \<^item> Sessions: \<open>Auth_Sessions\<close>, \<open>Auth_Sessions_Safety\<close> (\<^verbatim>\<open>infrastructure/auth/tokens.py\<close>, \<^verbatim>\<open>application/auth/sessions.py\<close>). One usable token per
    session and at most ten sessions, serially; reuse ends a session. Races and the revocation list are shown to fail.
  \<^item> Accounts: \<open>Encryption\<close>, \<open>Credentials\<close> (\<^verbatim>\<open>infrastructure/auth\<close>), \<open>Accounts\<close> (\<^verbatim>\<open>application/auth/service.py\<close>, \<^verbatim>\<open>mfa.py\<close>,
    \<^verbatim>\<open>oauth.py\<close>, \<^verbatim>\<open>api_keys.py\<close>), \<open>Registration\<close> (\<^verbatim>\<open>registration.py\<close>, \<^verbatim>\<open>invitations.py\<close>), \<open>Accounts_Safety\<close>, \<open>Accounts_Links\<close>,
    \<open>Mfa_Enrolment\<close>. Second factors, links that work once (contract \<open>settled_table\<close>, interpreted for four tables), authority of
    invitations, enrolment end to end; a lock that never ends, Google sign-in without second factor, an address in two organisations.
  \<^item> Access: \<open>Permissions\<close>, \<open>Entitlements\<close>, \<open>Repository\<close>, \<open>Rate_Limit\<close>, \<open>Idempotency\<close> (\<^verbatim>\<open>domain/auth\<close>, \<^verbatim>\<open>domain/tenants\<close>, the scoped
    repository, the limiter script, durable idempotency). The limiter is an exact sliding window over the requests that reach its server.
  \<^item> Leads: \<open>Lead_Lifecycle\<close>, \<open>Lead_Qualification\<close>, \<open>First_Response\<close>, \<open>Lead_Service\<close>, \<open>Lead_Service_Safety\<close> (\<^verbatim>\<open>domain/leads\<close>,
    \<^verbatim>\<open>application/leads\<close>). Every operation of a run is the move on the lifecycle board that is its own; merges form chains that
    end; a bulk update is not repeated. \<open>Assignment\<close>, \<open>Assignment_Safety\<close>: first
    matching rule, fair turns. \<open>Lead_Import\<close>, \<open>Lead_Import_Safety\<close>: every row judged once and by its own cells, commit as
    previewed.
  \<^item> Deals and appointments: \<open>Deals\<close>, \<open>Deals_Safety\<close>, \<open>Appointments\<close>, \<open>Slots\<close> (\<^verbatim>\<open>application/crm\<close>, \<^verbatim>\<open>domain/deals\<close>,
    \<^verbatim>\<open>domain/appointments\<close>). Status, closing time, reason and stage of a deal agree; no double booking; exactly the free slots, by interval
    intersection and wall clock.
  \<^item> Payments and contact: \<open>Payments\<close>, \<open>Payments_Inbound\<close>, \<open>Consent_Policy\<close>. Legal histories caused by processed events, an authoritative server
    amount, bounded refunds, no stored card data, sends exactly when every rule agrees.
  \<^item> Infrastructure: \<open>Retry_Circuit\<close> (backoff and breaker), \<open>Shared_Text\<close>, \<open>Shared_Canonical\<close>.

  \<^bold>\<open>Bounds and fuel.\<close> The cycle search takes one more than the number of declared nodes as fuel; it is proved that this always gives an
  answer. The loop over the slots of a window may run forever for a non-positive granularity, so it is a partial function, and the
  theorem on slots shows that it returns. The loops of the engine and of its retries end by a decreasing measure. \<open>unique_slug\<close> has
  the 50 turns of the source and its error.

  \<^bold>\<open>Parameters.\<close> Hashes and ciphers (SHA-256, HMAC-SHA-1, Argon2, bcrypt, AES-GCM, HKDF), the action runner and its collaborators, time zones,
  Google's answer and the answer of the rate limiter for a route are arguments. Hypotheses on them state documented behaviour only:
  opening undoes sealing, a digest has its length.

  \<^bold>\<open>Not modelled.\<close> Request parsing and serialisation of the HTTP layer, ORM declarations and connection handling, signing of access tokens,
  metrics and logging, the adapters to providers and language models, analytics queries, documents, the inbox, public booking and the remaining CRM
  services, seed scripts. They are listed in the manifest with the reason. Text beyond Latin-1 and rounding of floating-point time are outside the model.
\<close>

end
